(* ===== verification/Afk_Prelude.thy ===== *)
theory Afk_Prelude
  imports Complex_Main "HOL-Library.AList"
begin

text \<open>
  Shared vocabulary of the development: JavaScript strings as lists of UTF-16 code units,
  insertion-ordered JavaScript maps as association lists, JSON values, the throttle used for
  repeated warnings, and the locale that lifts one-step invariants to whole runs.
\<close>

section \<open>Collections of facts\<close>

named_theorems afk_defs \<open>definitions unfolded by the component proofs\<close>

section \<open>Strings\<close>

text \<open>
  A JavaScript string is the list of its code units, numbers below \<open>2 ^ 16\<close>; \<open>js\<close> reads an ASCII
  literal. They are kept as integers because the kernel evaluates binary integers quickly.
\<close>

type_synonym code_unit = int
type_synonym jstr = "code_unit list"

definition js :: "string \<Rightarrow> jstr" where
  "js s = map of_char s"

text \<open>White space and line terminators, as \<^verbatim>\<open>\s\<close> and \<^verbatim>\<open>trim()\<close> understand them.\<close>

definition is_space :: "code_unit \<Rightarrow> bool" where
  "is_space c \<longleftrightarrow> (9 \<le> c \<and> c \<le> 13) \<or> c = 32 \<or> c = 160 \<or> c = 5760 \<or> (8192 \<le> c \<and> c \<le> 8202)
     \<or> c = 8232 \<or> c = 8233 \<or> c = 8239 \<or> c = 8287 \<or> c = 12288 \<or> c = 65279"

definition trim_start :: "jstr \<Rightarrow> jstr" where
  "trim_start s = dropWhile is_space s"

definition trim :: "jstr \<Rightarrow> jstr" where
  "trim s = rev (dropWhile is_space (rev (dropWhile is_space s)))"

definition starts_with :: "jstr \<Rightarrow> jstr \<Rightarrow> bool" where
  "starts_with p s \<longleftrightarrow> take (length p) s = p"

text \<open>
  Lower casing: ASCII letters are fixed here, the Unicode table for the other code units is the
  argument \<open>low\<close> (a code unit can lower to several).
\<close>

definition to_lower :: "(code_unit \<Rightarrow> jstr) \<Rightarrow> jstr \<Rightarrow> jstr" where
  "to_lower low s = concat (map (\<lambda>c. if 65 \<le> c \<and> c \<le> 90 then [c + 32]
                                     else if c < 128 then [c] else low c) s)"

fun digits_val :: "jstr \<Rightarrow> int" where
  "digits_val ds = foldl (\<lambda>acc d. 10 * acc + (d - 48)) 0 ds"

fun show_nat :: "nat \<Rightarrow> jstr" where
  "show_nat n = (if n < 10 then [48 + int n] else show_nat (n div 10) @ [48 + int (n mod 10)])"

declare show_nat.simps [simp del]

definition show_int :: "int \<Rightarrow> jstr" where
  "show_int i = (if i < 0 then 45 # show_nat (nat (- i)) else show_nat (nat i))"

lemma js_eq_iff [simp]: "js s = js t \<longleftrightarrow> s = t"
  unfolding js_def by (rule inj_map_eq_map) (simp add: inj_on_def)

lemma trim_Nil [simp]: "trim [] = []"
  by (simp add: trim_def)

lemma set_trim: "set (trim s) \<subseteq> set s"
  unfolding trim_def by (auto dest!: set_dropWhileD)

section \<open>Arrays, sets and insertion-ordered maps\<close>

text \<open>\<^verbatim>\<open>Array.from(new Set(xs))\<close> keeps the first occurrence of every element.\<close>

definition uniq :: "'a list \<Rightarrow> 'a list" where
  "uniq xs = rev (remdups (rev xs))"

lemma set_uniq [simp]: "set (uniq xs) = set xs"
  by (simp add: uniq_def)

lemma distinct_uniq [simp]: "distinct (uniq xs)"
  by (simp add: uniq_def)

lemma uniq_id: "distinct xs \<Longrightarrow> uniq xs = xs"
  by (simp add: uniq_def distinct_remdups_id)

lemma length_uniq_le: "length (uniq xs) \<le> length xs"
  using length_remdups_leq [of "rev xs"] by (simp add: uniq_def)

lemma length_uniq_eq_iff: "length (uniq xs) = length xs \<longleftrightarrow> distinct xs"
  by (metis distinct_uniq length_remdups_card_conv set_uniq card_distinct distinct_card uniq_id)

lemma find_Some_in: "find P xs = Some x \<Longrightarrow> x \<in> set xs \<and> P x"
  by (induction xs) (auto split: if_splits)

lemma find_key: "distinct (map key xs) \<Longrightarrow> x \<in> set xs \<Longrightarrow> find (\<lambda>y. key y = key x) xs = Some x"
  by (induction xs) (auto simp: image_iff)

lemma find_None_iff: "find P xs = None \<longleftrightarrow> (\<forall>x \<in> set xs. \<not> P x)"
  by (induction xs) auto

lemma find_append: "find P (xs @ ys) = (case find P xs of None \<Rightarrow> find P ys | Some x \<Rightarrow> Some x)"
  by (induction xs) auto

text \<open>\<^verbatim>\<open>xs.slice(-n)\<close> for positive \<open>n\<close>.\<close>

definition last_n :: "nat \<Rightarrow> 'a list \<Rightarrow> 'a list" where
  "last_n n xs = drop (length xs - n) xs"

lemma length_last_n [simp]: "length (last_n n xs) = min n (length xs)"
  by (simp add: last_n_def)

lemma set_last_n: "set (last_n n xs) \<subseteq> set xs"
  by (simp add: last_n_def set_drop_subset)

text \<open>
  A JavaScript \<^verbatim>\<open>Map\<close> iterates in insertion order and keeps the position of a key that is set
  again: \<^const>\<open>AList.update\<close> and \<^const>\<open>AList.delete\<close> on association lists with distinct keys.
\<close>

type_synonym ('k, 'v) jmap = "('k \<times> 'v) list"

definition jmap_ok :: "('k, 'v) jmap \<Rightarrow> bool" where
  "jmap_ok m \<longleftrightarrow> distinct (map fst m)"

lemma jmap_ok_Nil [simp]: "jmap_ok []"
  by (simp add: jmap_ok_def)

lemma jmap_ok_update [simp, intro]: "jmap_ok m \<Longrightarrow> jmap_ok (AList.update k v m)"
  by (simp add: jmap_ok_def distinct_update)

lemma jmap_ok_delete [simp, intro]: "jmap_ok m \<Longrightarrow> jmap_ok (AList.delete k m)"
  by (simp add: jmap_ok_def distinct_delete)

lemma map_of_update [simp]: "map_of (AList.update k v m) k' = (if k' = k then Some v else map_of m k')"
  by (simp add: update_conv')

lemma map_of_delete [simp]: "map_of (AList.delete k m) k' = (if k' = k then None else map_of m k')"
  by (simp add: delete_conv')

lemma length_update_le: "length (AList.update k v m) \<le> Suc (length m)"
  by (induction m) auto

lemma length_update_mem: "k \<in> fst ` set m \<Longrightarrow> length (AList.update k v m) = length m"
  by (induction m) auto

lemma length_delete_le: "length (AList.delete k m) \<le> length m"
  by (simp add: AList.delete_eq)

section \<open>JSON values\<close>

datatype json =
    JNull
  | JBool bool
  | JNum rat
  | JStr jstr
  | JArr "json list"
  | JObj "(jstr \<times> json) list"

section \<open>Throttled warnings\<close>

text \<open>
  Several components warn at most once per window: the time of the last warning starts at
  minus infinity (\<open>None\<close>).
\<close>

definition due :: "int option \<Rightarrow> int \<Rightarrow> int \<Rightarrow> bool" where
  "due prev window now = (case prev of None \<Rightarrow> True | Some t \<Rightarrow> now - t \<ge> window)"

lemma due_None [simp]: "due None w now"
  by (simp add: due_def)

lemma due_Some [simp]: "due (Some t) w now \<longleftrightarrow> now - t \<ge> w"
  by (simp add: due_def)

section \<open>Interface: invariants of a step function\<close>

text \<open>
  A component that is driven by events: one step per event, an invariant that each step keeps.
  The client lemmas say that every run, and every state on the way, keeps it.
\<close>

locale stepwise =
  fixes step :: "'e \<Rightarrow> 's \<Rightarrow> 's"
    and inv :: "'s \<Rightarrow> bool"
  assumes step_inv: "inv s \<Longrightarrow> inv (step e s)"
begin

lemma run_inv: "inv s \<Longrightarrow> inv (fold step es s)"
  by (induction es arbitrary: s) (auto intro: step_inv)

lemma prefix_inv: "inv s \<Longrightarrow> inv (fold step (take n es) s)"
  by (rule run_inv)

end

text \<open>
  A keyed store: what a lookup returns after an insertion and after a removal.
\<close>

locale keyed_store =
  fixes lookup :: "'m \<Rightarrow> 'k \<Rightarrow> 'v option"
    and insert :: "'k \<Rightarrow> 'v \<Rightarrow> 'm \<Rightarrow> 'm"
    and remove :: "'k \<Rightarrow> 'm \<Rightarrow> 'm"
  assumes lookup_insert: "lookup (insert k v m) k' = (if k' = k then Some v else lookup m k')"
    and lookup_remove: "lookup (remove k m) k' = (if k' = k then None else lookup m k')"
begin

lemma insert_then_remove: "lookup (remove k (insert k v m)) k' = (if k' = k then None else lookup m k')"
  by (simp add: lookup_insert lookup_remove)

lemma lookup_fold_remove: "lookup (fold remove ks m) k = (if k \<in> set ks then None else lookup m k)"
  by (induction ks arbitrary: m) (auto simp: lookup_remove)

lemma insert_other: "k' \<noteq> k \<Longrightarrow> lookup (insert k v m) k' = lookup m k'"
  by (simp add: lookup_insert)

end

interpretation js_map: keyed_store map_of AList.update AList.delete
  by unfold_locales simp_all

end
