(* ===== verification/JsRegex.thy ===== *)
theory JsRegex
  imports Afk_Prelude
begin

text \<open>
  The part of JavaScript regular expressions that the sources use, as a backtracking matcher by
  the list of successes: \<open>re_run r s i c\<close> lists, in the order in which the backtracking search of
  ECMAScript finds them, the end positions of the matches of \<open>r\<close> at position \<open>i\<close> with their
  captures. A starred body that consumes nothing is not iterated, as in ECMAScript.
\<close>

type_synonym caps = "(nat \<times> jstr) list"

datatype re =
    Eps
  | Cls "code_unit \<Rightarrow> bool"
  | Sq re re
  | Alt re re
  | Star re
  | Lazy re
  | Grp nat re
  | Bol
  | Eol
  | Wb

definition is_digit :: "code_unit \<Rightarrow> bool" where
  "is_digit c \<longleftrightarrow> 48 \<le> c \<and> c \<le> 57"

definition is_word :: "code_unit \<Rightarrow> bool" where
  "is_word c \<longleftrightarrow> (65 \<le> c \<and> c \<le> 90) \<or> (97 \<le> c \<and> c \<le> 122) \<or> is_digit c \<or> c = 95"

definition is_dot :: "code_unit \<Rightarrow> bool" where
  "is_dot c \<longleftrightarrow> c \<noteq> 10 \<and> c \<noteq> 13 \<and> c \<noteq> 8232 \<and> c \<noteq> 8233"

definition is_control :: "code_unit \<Rightarrow> bool" where
  "is_control c \<longleftrightarrow> c < 32 \<or> (127 \<le> c \<and> c < 160)"

definition word_at :: "jstr \<Rightarrow> nat \<Rightarrow> bool" where
  "word_at s i \<longleftrightarrow> i < length s \<and> is_word (s ! i)"

definition boundary :: "jstr \<Rightarrow> nat \<Rightarrow> bool" where
  "boundary s i \<longleftrightarrow> (0 < i \<and> word_at s (i - 1)) \<noteq> word_at s i"

definition sub :: "jstr \<Rightarrow> nat \<Rightarrow> nat \<Rightarrow> jstr" where
  "sub s i j = take (j - i) (drop i s)"

function re_run :: "re \<Rightarrow> jstr \<Rightarrow> nat \<Rightarrow> caps \<Rightarrow> (nat \<times> caps) list" where
  "re_run Eps s i c = [(i, c)]"
| "re_run (Cls p) s i c = (if i < length s \<and> p (s ! i) then [(Suc i, c)] else [])"
| "re_run (Sq r1 r2) s i c = concat (map (\<lambda>(j, c'). re_run r2 s j c') (re_run r1 s i c))"
| "re_run (Alt r1 r2) s i c = re_run r1 s i c @ re_run r2 s i c"
| "re_run (Star r) s i c =
     concat (map (\<lambda>(j, c'). if i < j \<and> j \<le> length s then re_run (Star r) s j c' else [])
       (re_run r s i c)) @ [(i, c)]"
| "re_run (Lazy r) s i c =
     (i, c) # concat (map (\<lambda>(j, c'). if i < j \<and> j \<le> length s then re_run (Lazy r) s j c' else [])
       (re_run r s i c))"
| "re_run (Grp n r) s i c = map (\<lambda>(j, c'). (j, AList.update n (sub s i j) c')) (re_run r s i c)"
| "re_run Bol s i c = (if i = 0 then [(i, c)] else [])"
| "re_run Eol s i c = (if i = length s then [(i, c)] else [])"
| "re_run Wb s i c = (if boundary s i then [(i, c)] else [])"
  by pat_completeness auto
termination
  by (relation "measures [\<lambda>(r, s, i, c). size r, \<lambda>(r, s, i, c). length s - i]") auto

text \<open>The two loops are unfolded by hand.\<close>

lemmas re_run_Star = re_run.simps(5)
lemmas re_run_Lazy = re_run.simps(6)

declare re_run_Star [simp del] re_run_Lazy [simp del]

text \<open>A search tries the start positions from left to right and takes the first success.\<close>

fun first_some :: "('a \<Rightarrow> 'b option) \<Rightarrow> 'a list \<Rightarrow> 'b option" where
  "first_some f [] = None"
| "first_some f (x # xs) = (case f x of Some y \<Rightarrow> Some y | None \<Rightarrow> first_some f xs)"

definition re_at :: "re \<Rightarrow> jstr \<Rightarrow> nat \<Rightarrow> (nat \<times> nat \<times> caps) option" where
  "re_at r s i = (case re_run r s i [] of [] \<Rightarrow> None | (j, c) # _ \<Rightarrow> Some (i, j, c))"

definition re_search_from :: "re \<Rightarrow> jstr \<Rightarrow> nat \<Rightarrow> (nat \<times> nat \<times> caps) option" where
  "re_search_from r s k = first_some (re_at r s) [k..<Suc (length s)]"

definition re_search :: "re \<Rightarrow> jstr \<Rightarrow> (nat \<times> nat \<times> caps) option" where
  "re_search r s = re_search_from r s 0"

definition re_test :: "re \<Rightarrow> jstr \<Rightarrow> bool" where
  "re_test r s = (re_search r s \<noteq> None)"

text \<open>The text of capture group \<open>n\<close> of the first match.\<close>

definition re_group :: "re \<Rightarrow> nat \<Rightarrow> jstr \<Rightarrow> jstr option" where
  "re_group r n s = (case re_search r s of None \<Rightarrow> None | Some (_, _, c) \<Rightarrow> map_of c n)"

text \<open>
  \<^verbatim>\<open>s.replace(/r/g, "")\<close> for an \<open>r\<close> of fixed width (every such call of the sources removes one
  or two code units): scan from the left, skip a match, keep a unit that starts no match.
\<close>

function re_remove_from :: "re \<Rightarrow> jstr \<Rightarrow> nat \<Rightarrow> jstr" where
  "re_remove_from r s i =
     (if i < length s then
        (case re_at r s i of
           Some (_, j, _) \<Rightarrow> if i < j then re_remove_from r s j else s ! i # re_remove_from r s (Suc i)
         | None \<Rightarrow> s ! i # re_remove_from r s (Suc i))
      else [])"
  by pat_completeness auto
termination
  by (relation "measure (\<lambda>(r, s, i). length s - i)") auto

declare re_remove_from.simps [simp del]

definition re_remove :: "re \<Rightarrow> jstr \<Rightarrow> jstr" where
  "re_remove r s = re_remove_from r s 0"

section \<open>Building expressions\<close>

text \<open>
  \<open>ci\<close> is one pattern letter under the flag \<^verbatim>\<open>i\<close>; an ASCII letter then matches its two cases only.
  Under \<^verbatim>\<open>iu\<close> Unicode folding adds the long s and the Kelvin sign (\<open>ciu\<close>).
\<close>

definition ci_eq :: "code_unit \<Rightarrow> code_unit \<Rightarrow> bool" where
  "ci_eq p c \<longleftrightarrow> c = p \<or> (97 \<le> p \<and> p \<le> 122 \<and> c + 32 = p) \<or> (65 \<le> p \<and> p \<le> 90 \<and> c = p + 32)"

definition ciu_eq :: "code_unit \<Rightarrow> code_unit \<Rightarrow> bool" where
  "ciu_eq p c \<longleftrightarrow> ci_eq p c \<or> (ci_eq 115 p \<and> c = 383) \<or> (ci_eq 107 p \<and> c = 8490)"

definition sq :: "re list \<Rightarrow> re" where
  "sq rs = foldr Sq rs Eps"

fun alts :: "re list \<Rightarrow> re" where
  "alts [] = Cls (\<lambda>_. False)"
| "alts [r] = r"
| "alts (r # rs) = Alt r (alts rs)"

definition opt :: "re \<Rightarrow> re" where
  "opt r = Alt r Eps"

definition plus :: "re \<Rightarrow> re" where
  "plus r = Sq r (Star r)"

fun upto_n :: "nat \<Rightarrow> re \<Rightarrow> re" where
  "upto_n 0 r = Eps"
| "upto_n (Suc n) r = Alt (Sq r (upto_n n r)) Eps"

definition between :: "nat \<Rightarrow> nat \<Rightarrow> re \<Rightarrow> re" where
  "between m n r = sq (replicate m r @ [upto_n (n - m) r])"

definition lit :: "string \<Rightarrow> re" where
  "lit s = sq (map (\<lambda>p. Cls (\<lambda>c. c = p)) (js s))"

definition lit_i :: "string \<Rightarrow> re" where
  "lit_i s = sq (map (\<lambda>p. Cls (ci_eq p)) (js s))"

definition lit_iu :: "string \<Rightarrow> re" where
  "lit_iu s = sq (map (\<lambda>p. Cls (ciu_eq p)) (js s))"

definition unit :: "code_unit \<Rightarrow> re" where
  "unit p = Cls (\<lambda>c. c = p)"

definition spaces :: re where "spaces = Star (Cls is_space)"
definition spaces1 :: re where "spaces1 = plus (Cls is_space)"
definition digits1 :: re where "digits1 = plus (Cls is_digit)"
definition any :: re where "any = Star (Cls is_dot)"

section \<open>Facts about the matcher\<close>

lemma re_run_bounds: "(j, c') \<in> set (re_run r s i c) \<Longrightarrow> i \<le> length s \<Longrightarrow> i \<le> j \<and> j \<le> length s"
proof (induction r s i c arbitrary: j c' rule: re_run.induct)
  case (3 r1 r2 s i c)
  from "3.prems" obtain k d where k: "(k, d) \<in> set (re_run r1 s i c)" "(j, c') \<in> set (re_run r2 s k d)"
    by auto
  from "3.IH"(1) [OF k(1)] "3.prems" have "i \<le> k \<and> k \<le> length s" by simp
  moreover from this "3.IH"(2) [OF k(1) _ k(2)] have "k \<le> j \<and> j \<le> length s" by simp
  ultimately show ?case by simp
next
  case (5 r s i c)
  show ?case
  proof (cases "(j, c') = (i, c)")
    case False
    with "5.prems" obtain k d where k: "(k, d) \<in> set (re_run r s i c)" "i < k \<and> k \<le> length s"
      "(j, c') \<in> set (re_run (Star r) s k d)"
      by (auto simp: re_run_Star [of r s i c] split: if_splits)
    from "5.IH"(2) [OF k(1) _ k(2) k(3)] k(2) show ?thesis by simp
  qed (use "5.prems"(2) in simp)
next
  case (6 r s i c)
  show ?case
  proof (cases "(j, c') = (i, c)")
    case False
    with "6.prems" obtain k d where k: "(k, d) \<in> set (re_run r s i c)" "i < k \<and> k \<le> length s"
      "(j, c') \<in> set (re_run (Lazy r) s k d)"
      by (auto simp: re_run_Lazy [of r s i c] split: if_splits)
    from "6.IH"(2) [OF k(1) _ k(2) k(3)] k(2) show ?thesis by simp
  qed (use "6.prems"(2) in simp)
next
  case (4 r1 r2 s i c)
  then consider "(j, c') \<in> set (re_run r1 s i c)" | "(j, c') \<in> set (re_run r2 s i c)" by auto
  then show ?case using "4.IH" "4.prems"(2) by cases blast+
next
  case (7 n r s i c)
  then obtain d where "(j, d) \<in> set (re_run r s i c)" by auto
  then show ?case using "7.IH" "7.prems"(2) by blast
qed (simp_all split: if_splits)

lemma first_some_None_iff: "first_some f xs = None \<longleftrightarrow> (\<forall>x \<in> set xs. f x = None)"
  by (induction xs) (auto split: option.splits)

lemma first_some_SomeD: "first_some f xs = Some y \<Longrightarrow> \<exists>x \<in> set xs. f x = Some y"
  by (induction xs) (auto split: option.splits)

lemma re_test_iff: "re_test r s \<longleftrightarrow> (\<exists>i \<le> length s. re_run r s i [] \<noteq> [])"
proof -
  have at: "re_at r s i = None \<longleftrightarrow> re_run r s i [] = []" for i
    by (auto simp: re_at_def split: list.splits)
  have "re_test r s \<longleftrightarrow> (\<exists>i \<in> set [0..<Suc (length s)]. re_at r s i \<noteq> None)"
    unfolding re_test_def re_search_def re_search_from_def using first_some_None_iff by metis
  also have "\<dots> \<longleftrightarrow> (\<exists>i \<in> {0..length s}. re_run r s i [] \<noteq> [])"
    unfolding set_upt using at by (simp add: atLeastLessThanSuc_atLeastAtMost del: upt_Suc)
  finally show ?thesis by auto
qed

lemma re_search_bounds: "re_search r s = Some (i, j, c) \<Longrightarrow> i \<le> j \<and> j \<le> length s"
proof -
  assume "re_search r s = Some (i, j, c)"
  then obtain k where k: "k \<in> set [0..<Suc (length s)]" "re_at r s k = Some (i, j, c)"
    unfolding re_search_def re_search_from_def using first_some_SomeD by meson
  then have "(j, c) \<in> set (re_run r s i [])" "k = i"
    by (auto simp: re_at_def split: list.splits)
  then show ?thesis using re_run_bounds [of j c r s i "[]"] k by auto
qed

lemma re_run_Sq_Bol: "i \<noteq> 0 \<Longrightarrow> re_run (Sq Bol r) s i c = []"
  by simp

lemma re_test_anchored: "re_test (Sq Bol r) s \<longleftrightarrow> re_run r s 0 [] \<noteq> []"
proof -
  have "re_run (Sq Bol r) s i [] \<noteq> [] \<longleftrightarrow> i = 0 \<and> re_run r s 0 [] \<noteq> []" for i
    by (cases "i = 0") auto
  then show ?thesis by (auto simp: re_test_iff)
qed

section \<open>Matching as a relation between positions\<close>

text \<open>
  Whether \<open>r\<close> can match from \<open>i\<close> to \<open>j\<close>. No back reference reads a capture, so the captures do
  not matter for it and the operators obey the expected equations.
\<close>

definition re_rel :: "re \<Rightarrow> jstr \<Rightarrow> nat \<Rightarrow> nat \<Rightarrow> bool" where
  "re_rel r s i j \<longleftrightarrow> j \<in> fst ` set (re_run r s i [])"

lemma re_run_caps: "(j, c') \<in> set (re_run r s i c) \<Longrightarrow> \<exists>d'. (j, d') \<in> set (re_run r s i d)"
proof (induction r s i c arbitrary: j c' d rule: re_run.induct)
  case (3 r1 r2 s i c)
  from "3.prems" obtain k e where k: "(k, e) \<in> set (re_run r1 s i c)" "(j, c') \<in> set (re_run r2 s k e)"
    by auto
  obtain e' where e': "(k, e') \<in> set (re_run r1 s i d)" using "3.IH"(1) [OF k(1)] by blast
  obtain f where "(j, f) \<in> set (re_run r2 s k e')" using "3.IH"(2) [OF k(1) _ k(2)] by blast
  with e' show ?case by auto
next
  case (4 r1 r2 s i c)
  then consider "(j, c') \<in> set (re_run r1 s i c)" | "(j, c') \<in> set (re_run r2 s i c)" by auto
  then show ?case using "4.IH" by cases fastforce+
next
  case (5 r s i c)
  show ?case
  proof (cases "(j, c') = (i, c)")
    case False
    with "5.prems" obtain k e where k: "(k, e) \<in> set (re_run r s i c)" "i < k \<and> k \<le> length s"
      "(j, c') \<in> set (re_run (Star r) s k e)"
      by (auto simp: re_run_Star [of r s i c] split: if_splits)
    obtain e' where e': "(k, e') \<in> set (re_run r s i d)" using "5.IH"(1) [OF k(1)] by blast
    obtain f where "(j, f) \<in> set (re_run (Star r) s k e')"
      using "5.IH"(2) [OF k(1) _ k(2) k(3)] by blast
    with e' k(2) show ?thesis by (auto simp: re_run_Star [of r s i d])
  qed (auto simp: re_run_Star [of r s i d])
next
  case (6 r s i c)
  show ?case
  proof (cases "(j, c') = (i, c)")
    case False
    with "6.prems" obtain k e where k: "(k, e) \<in> set (re_run r s i c)" "i < k \<and> k \<le> length s"
      "(j, c') \<in> set (re_run (Lazy r) s k e)"
      by (auto simp: re_run_Lazy [of r s i c] split: if_splits)
    obtain e' where e': "(k, e') \<in> set (re_run r s i d)" using "6.IH"(1) [OF k(1)] by blast
    obtain f where "(j, f) \<in> set (re_run (Lazy r) s k e')"
      using "6.IH"(2) [OF k(1) _ k(2) k(3)] by blast
    with e' k(2) show ?thesis by (auto simp: re_run_Lazy [of r s i d])
  qed (auto simp: re_run_Lazy [of r s i d])
next
  case (7 n r s i c)
  then obtain e where "(j, e) \<in> set (re_run r s i c)" by auto
  then obtain e' where "(j, e') \<in> set (re_run r s i d)" using "7.IH" by blast
  then show ?case by force
qed (simp_all split: if_splits)

lemma re_relI: "(j, c') \<in> set (re_run r s i c) \<Longrightarrow> re_rel r s i j"
  unfolding re_rel_def using re_run_caps by (metis fst_conv image_eqI)

lemma re_relE: "re_rel r s i j \<Longrightarrow> \<exists>c'. (j, c') \<in> set (re_run r s i c)"
  unfolding re_rel_def using re_run_caps by force

lemma re_rel_iff: "re_rel r s i j \<longleftrightarrow> (\<exists>c'. (j, c') \<in> set (re_run r s i c))"
  using re_relI re_relE by blast

lemma re_rel_Eps [simp]: "re_rel Eps s i j \<longleftrightarrow> j = i"
  by (simp add: re_rel_def)

lemma re_rel_Cls [simp]: "re_rel (Cls p) s i j \<longleftrightarrow> j = Suc i \<and> i < length s \<and> p (s ! i)"
  by (cases "i < length s \<and> p (s ! i)") (auto simp: re_rel_def)

lemma re_rel_Eol [simp]: "re_rel Eol s i j \<longleftrightarrow> j = i \<and> i = length s"
  by (cases "i = length s") (auto simp: re_rel_def)

lemma re_rel_Alt [simp]: "re_rel (Alt r1 r2) s i j \<longleftrightarrow> re_rel r1 s i j \<or> re_rel r2 s i j"
  by (auto simp: re_rel_def)

lemma re_rel_Sq [simp]: "re_rel (Sq r1 r2) s i j \<longleftrightarrow> (\<exists>k. re_rel r1 s i k \<and> re_rel r2 s k j)"
proof
  assume "re_rel (Sq r1 r2) s i j"
  then obtain c where "(j, c) \<in> set (re_run (Sq r1 r2) s i [])" using re_relE by blast
  then show "\<exists>k. re_rel r1 s i k \<and> re_rel r2 s k j" by (auto intro: re_relI)
next
  assume "\<exists>k. re_rel r1 s i k \<and> re_rel r2 s k j"
  then obtain k where k1: "re_rel r1 s i k" and k2: "re_rel r2 s k j" by blast
  obtain d where k: "(k, d) \<in> set (re_run r1 s i [])" "re_rel r2 s k j" using re_relE [OF k1] k2 by blast
  obtain e where "(j, e) \<in> set (re_run r2 s k d)" using re_relE [OF k(2)] by blast
  with k(1) have "(j, e) \<in> set (re_run (Sq r1 r2) s i [])" by auto
  then show "re_rel (Sq r1 r2) s i j" by (rule re_relI)
qed

lemma re_rel_Star_unfold:
  "re_rel (Star r) s i j \<longleftrightarrow> j = i \<or> (\<exists>k. i < k \<and> k \<le> length s \<and> re_rel r s i k \<and> re_rel (Star r) s k j)"
proof
  assume "re_rel (Star r) s i j"
  then obtain c where "(j, c) \<in> set (re_run (Star r) s i [])" by (auto simp: re_rel_def)
  then show "j = i \<or> (\<exists>k. i < k \<and> k \<le> length s \<and> re_rel r s i k \<and> re_rel (Star r) s k j)"
    by (auto simp: re_run_Star [of r s i "[]"] intro: re_relI split: if_splits)
next
  assume "j = i \<or> (\<exists>k. i < k \<and> k \<le> length s \<and> re_rel r s i k \<and> re_rel (Star r) s k j)"
  then show "re_rel (Star r) s i j"
  proof (elim disjE exE)
    assume "j = i"
    then show ?thesis by (auto simp: re_rel_def re_run_Star [of r s i "[]"] image_iff)
  next
    fix k assume k: "i < k \<and> k \<le> length s \<and> re_rel r s i k \<and> re_rel (Star r) s k j"
    then obtain d where d: "(k, d) \<in> set (re_run r s i [])" using re_relE by blast
    obtain e where "(j, e) \<in> set (re_run (Star r) s k d)" using k re_relE by blast
    with d k have "(j, e) \<in> set (re_run (Star r) s i [])" by (auto simp: re_run_Star [of r s i "[]"])
    then show ?thesis by (rule re_relI)
  qed
qed

lemma all_from:
  fixes i j :: nat
  shows "(\<forall>k. i \<le> k \<and> k < j \<longrightarrow> P k) \<longleftrightarrow> j \<le> i \<or> (P i \<and> (\<forall>k. Suc i \<le> k \<and> k < j \<longrightarrow> P k))"
proof (cases "j \<le> i")
  case False
  then have "{i..<j} = Set.insert i {Suc i..<j}" by auto
  moreover have "(\<forall>k. a \<le> k \<and> k < j \<longrightarrow> P k) \<longleftrightarrow> (\<forall>k \<in> {a..<j}. P k)" for a by auto
  ultimately show ?thesis using False by simp
qed auto

lemma between_step:
  fixes i j l :: nat
  shows "i < l \<Longrightarrow> R \<longleftrightarrow> j = i \<or> (P \<and> Suc i \<le> j \<and> j \<le> l \<and> Q) \<Longrightarrow> A \<longleftrightarrow> j \<le> i \<or> (P \<and> Q)
    \<Longrightarrow> R \<longleftrightarrow> i \<le> j \<and> j \<le> l \<and> A"
  by auto

lemma re_rel_Star_Cls:
  "i \<le> length s \<Longrightarrow> re_rel (Star (Cls p)) s i j \<longleftrightarrow>
     i \<le> j \<and> j \<le> length s \<and> (\<forall>k. i \<le> k \<and> k < j \<longrightarrow> p (s ! k))"
proof (induction "length s - i" arbitrary: i)
  case 0
  then show ?case by (subst re_rel_Star_unfold) auto
next
  case (Suc n)
  then have IH: "re_rel (Star (Cls p)) s (Suc i) j \<longleftrightarrow>
     Suc i \<le> j \<and> j \<le> length s \<and> (\<forall>k. Suc i \<le> k \<and> k < j \<longrightarrow> p (s ! k))" by simp
  from Suc.hyps(2) have i: "i < length s" by linarith
  have one: "re_rel (Star (Cls p)) s i j \<longleftrightarrow> j = i \<or> (p (s ! i) \<and> Suc i \<le> j \<and> j \<le> length s
      \<and> (\<forall>k. Suc i \<le> k \<and> k < j \<longrightarrow> p (s ! k)))"
    using i by (subst re_rel_Star_unfold) (auto simp: IH)
  have two: "(\<forall>k. i \<le> k \<and> k < j \<longrightarrow> p (s ! k)) \<longleftrightarrow>
      j \<le> i \<or> (p (s ! i) \<and> (\<forall>k. Suc i \<le> k \<and> k < j \<longrightarrow> p (s ! k)))"
    by (rule all_from)
  show ?case by (rule between_step [OF i one two])
qed

lemma re_test_rel: "re_test r s \<longleftrightarrow> (\<exists>i \<le> length s. \<exists>j. re_rel r s i j)"
proof -
  have "re_run r s i [] \<noteq> [] \<longleftrightarrow> (\<exists>j. re_rel r s i j)" for i
    unfolding re_rel_def by (cases "re_run r s i []") auto
  then show ?thesis by (simp add: re_test_iff)
qed

lemma re_rel_Bol [simp]: "re_rel Bol s i j \<longleftrightarrow> j = i \<and> i = 0"
  by (cases "i = 0") (auto simp: re_rel_def)

lemma re_test_anchored_rel: "re_test (Sq Bol r) s \<longleftrightarrow> (\<exists>j. re_rel r s 0 j)"
  by (auto simp: re_test_rel)

text \<open>The part of a string between two positions, for expressions that match a literal.\<close>

lemma sub_self [simp]: "sub s i i = []"
  by (simp add: sub_def)

lemma re_rel_lits:
  "re_rel (sq (map (\<lambda>p. Cls (f p)) ps)) s i j \<longleftrightarrow>
     j = i + length ps \<and> list_all2 f ps (sub s i j) "
  if "i \<le> length s" for f ps
  using that
proof (induction ps arbitrary: i)
  case Nil
  then show ?case by (auto simp: sq_def)
next
  case (Cons p ps)
  show ?case
  proof (cases "i < length s")
    case True
    then have dr: "drop i s = s ! i # drop (Suc i) s" by (rule Cons_nth_drop_Suc [symmetric])
    have "re_rel (sq (map (\<lambda>p. Cls (f p)) (p # ps))) s i j \<longleftrightarrow>
        f p (s ! i) \<and> re_rel (sq (map (\<lambda>p. Cls (f p)) ps)) s (Suc i) j"
      using True by (auto simp: sq_def)
    also have "\<dots> \<longleftrightarrow> f p (s ! i) \<and> j = Suc i + length ps \<and> list_all2 f ps (sub s (Suc i) j)"
      using Cons.IH [of "Suc i"] True by simp
    finally show ?thesis by (auto simp: sub_def dr)
  next
    case False
    with Cons.prems have "i = length s" by simp
    then show ?thesis by (auto simp: sq_def sub_def)
  qed
qed

end
