(* ===== verification/Text_Rules.thy ===== *)
theory Text_Rules
  imports JsRegex
begin

text \<open>
  The text rules of \<^verbatim>\<open>backend/src/minecraft\<close>: which console input is a slash command, which
  commands are blocked, how the announcement of a world restart and the confirmation of a sale are
  read, and how Minecraft formatting codes are stripped. Every regular expression of the source is
  written out with \<^theory_text>\<open>JsRegex\<close>.
\<close>

section \<open>Formatting codes\<close>

definition is_format_code :: "code_unit \<Rightarrow> bool" where
  "is_format_code c \<longleftrightarrow> is_digit c \<or> (97 \<le> c \<and> c \<le> 117) \<or> (65 \<le> c \<and> c \<le> 85)"

definition format_re :: re where
  "format_re = Sq (unit 167) (Cls is_format_code)"

definition strip_minecraft_formatting :: "jstr \<Rightarrow> jstr" where
  "strip_minecraft_formatting text = re_remove (unit 167) (re_remove format_re text)"

section \<open>Slash commands (slashCommands.ts)\<close>

definition slash_re :: re where
  "slash_re = Sq Bol (sq [unit 47, Cls (\<lambda>c. \<not> is_space c \<and> \<not> is_control c),
                          Star (Cls (\<lambda>c. \<not> is_control c)), Eol])"

definition is_slash_command :: "jstr \<Rightarrow> bool" where
  "is_slash_command text = re_test slash_re text"

definition is_namespace_char :: "code_unit \<Rightarrow> bool" where
  "is_namespace_char c \<longleftrightarrow> is_word c \<or> c = 46 \<or> c = 45"

definition blocked_re :: re where
  "blocked_re = Sq Bol (sq [unit 47, opt (sq [plus (Cls is_namespace_char), unit 58]),
                            lit_i ''afk'', Alt (Cls is_space) Eol])"

definition is_blocked_afk_command :: "jstr \<Rightarrow> bool" where
  "is_blocked_afk_command text = re_test blocked_re (trim text)"

section \<open>World restarts (worldRestart.ts)\<close>

definition world_re :: re where
  "world_re = sq [Wb, Alt (sq [Star (Cls is_word), lit ''welt'', Star (Cls is_word)])
                          (sq [lit ''world'', Star (Cls is_word)]), Wb]"

definition restart_re :: re where
  "restart_re = alts [lit ''neustart'', lit ''restart'', sq [lit ''neu'', spaces, lit ''gestartet''],
     sq [lit ''start'', Star (Cls is_word), Wb, any, Wb, lit ''neu'', Wb]]"

definition unit_re :: re where
  "unit_re = alts [sq [lit ''sekunde'', opt (unit 110)], sq [lit ''sek'', opt (unit 46)],
     sq [lit ''second'', opt (unit 115)], sq [lit ''sec'', opt (unit 115)], unit 115,
     sq [lit ''minute'', opt (unit 110)], sq [lit ''min'', opt (unit 46)],
     sq [lit ''minute'', opt (unit 115)], sq [lit ''min'', opt (unit 115)], unit 109]"

definition countdown_re :: re where
  "countdown_re = sq [Wb, lit ''in'', spaces1, Grp 1 digits1, spaces, Grp 2 unit_re, Wb]"

text \<open>
  The result is a number of seconds. A digit string too long for exact arithmetic in doubles is
  rejected by the bound of one day either way, so integers are exact here.
\<close>

definition parse_world_restart_seconds :: "(code_unit \<Rightarrow> jstr) \<Rightarrow> jstr \<Rightarrow> int option" where
  "parse_world_restart_seconds low message =
     (let text = to_lower low (re_remove format_re message) in
      if \<not> re_test world_re text then None
      else if \<not> re_test restart_re text then None
      else case re_search countdown_re text of
          None \<Rightarrow> None
        | Some (_, _, caps) \<Rightarrow>
            (case (map_of caps 1, map_of caps 2) of
               (Some n, Some u) \<Rightarrow>
                 (let seconds = digits_val n * (if starts_with (js ''m'') u then 60 else 1)
                  in if seconds \<le> 2 ^ 53 - 1 \<and> seconds \<le> 24 * 60 * 60 then Some seconds else None)
             | _ \<Rightarrow> None))"

definition WORLD_RESTART_SELL_LEAD_MS :: int where "WORLD_RESTART_SELL_LEAD_MS = 10000"
definition WORLD_RESTART_SELL_COOLDOWN_MS :: int where "WORLD_RESTART_SELL_COOLDOWN_MS = 120000"

section \<open>Sale confirmations (sellEarnings.ts)\<close>

text \<open>
  \<open>js_number\<close> is \<^verbatim>\<open>Number(s)\<close> on the decimal numerals that the callers have already matched,
  read exactly; \<open>None\<close> stands for \<^verbatim>\<open>NaN\<close>.
\<close>

definition split_at :: "code_unit \<Rightarrow> jstr \<Rightarrow> jstr \<times> jstr option" where
  "split_at c s = (takeWhile (\<lambda>x. x \<noteq> c) s,
     (case dropWhile (\<lambda>x. x \<noteq> c) s of [] \<Rightarrow> None | _ # r \<Rightarrow> Some r))"

definition js_number :: "jstr \<Rightarrow> rat option" where
  "js_number s = (case split_at 46 s of
       (a, None) \<Rightarrow> if a \<noteq> [] \<and> list_all is_digit a then Some (of_int (digits_val a)) else None
     | (a, Some b) \<Rightarrow> if a @ b \<noteq> [] \<and> list_all is_digit (a @ b)
         then Some (of_int (digits_val a) + of_int (digits_val b) / 10 ^ length b) else None)"

text \<open>\<^verbatim>\<open>s.replace(",", ".")\<close> replaces the first comma.\<close>

definition replace_first :: "code_unit \<Rightarrow> code_unit \<Rightarrow> jstr \<Rightarrow> jstr" where
  "replace_first a b s = takeWhile (\<lambda>x. x \<noteq> a) s
     @ (case dropWhile (\<lambda>x. x \<noteq> a) s of [] \<Rightarrow> [] | _ # r \<Rightarrow> b # r)"

definition sale_word_re :: re where
  "sale_word_re = sq [Wb, alts [lit_i ''sold'', lit_i ''sale'', lit_i ''selling'', lit_i ''verkauft'',
                               lit_i ''verkauf''], Wb]"

definition pay_word_re :: re where
  "pay_word_re = sq [Wb, alts [lit_i ''pay'', lit_i ''paid'', lit_i ''bezahlt'', lit_i ''received'',
                              lit_i ''erhalten von''], Wb]"

definition amount_re :: re where
  "amount_re = sq [plus (Cls is_digit), Star (sq [Cls (\<lambda>c. c = 46 \<or> c = 44), plus (Cls is_digit)])]"

definition breakdown_amount_re :: re where
  "breakdown_amount_re = sq [unit 43, spaces, unit 36, spaces, Grp 1 amount_re, spaces, unit 40, spaces,
                             lit_i ''Basis'', spaces, unit 58]"

definition plain_amount_re :: re where
  "plain_amount_re = sq [unit 36, spaces, Grp 1 amount_re]"

definition thousands_re :: "code_unit \<Rightarrow> code_unit \<Rightarrow> re" where
  "thousands_re sep dec = sq [Bol, between 1 3 (Cls is_digit),
     plus (sq (unit sep # replicate 3 (Cls is_digit))),
     opt (sq [unit dec, between 1 2 (Cls is_digit)]), Eol]"

definition simple_amount_re :: re where
  "simple_amount_re = sq [Bol, plus (Cls is_digit),
     opt (sq [Cls (\<lambda>c. c = 46 \<or> c = 44), between 1 2 (Cls is_digit)]), Eol]"

definition normalize_amount :: "jstr \<Rightarrow> jstr option" where
  "normalize_amount raw =
     (if re_test (thousands_re 46 44) raw then Some (replace_first 44 46 (filter (\<lambda>c. c \<noteq> 46) raw))
      else if re_test (thousands_re 44 46) raw then Some (filter (\<lambda>c. c \<noteq> 44) raw)
      else if re_test simple_amount_re raw then Some (replace_first 44 46 raw)
      else None)"

text \<open>
  The payout in cents: \<^verbatim>\<open>Math.round(amount * 100)\<close>, which the code returns divided by 100. The
  arithmetic is exact where the code rounds to doubles.
\<close>

definition parse_sell_earning :: "jstr \<Rightarrow> int option" where
  "parse_sell_earning message =
     (let text = strip_minecraft_formatting message;
          breakdown = re_test (sq [Wb, lit_i ''Basis'', spaces, unit 58]) text
                    \<and> re_test (sq [Wb, lit_i ''Bonus'', spaces, unit 58]) text;
          sale = re_test sale_word_re text in
      if (\<not> breakdown \<and> \<not> sale) \<or> re_test pay_word_re text then None
      else case re_group (if breakdown then breakdown_amount_re else plain_amount_re) 1 text of
          None \<Rightarrow> None
        | Some raw \<Rightarrow>
            (case Option.bind (normalize_amount raw) js_number of
               None \<Rightarrow> None
             | Some amount \<Rightarrow>
                 (let cents = \<lfloor>amount * 100 + 1 / 2\<rfloor>
                  in if amount > 0 \<and> cents \<le> 2 ^ 53 - 1 then Some cents else None)))"

section \<open>What the rules accept\<close>

lemma list_split_at: "i < length s \<Longrightarrow> s = take i s @ s ! i # drop (Suc i) s"
  by (rule id_take_nth_drop)

text \<open>
  A console line is a slash command exactly when it is a slash, one code unit that is neither
  white space nor a control character, and then no control character: in particular one line, so
  that one message can never carry a second command behind a line break.
\<close>

theorem is_slash_command_iff:
  "is_slash_command text \<longleftrightarrow>
     (\<exists>c rest. text = 47 # c # rest \<and> \<not> is_space c \<and> \<not> is_control c \<and> list_all (\<lambda>x. \<not> is_control x) rest)"
proof -
  have "is_slash_command text \<longleftrightarrow> 1 < length text \<and> text ! 0 = 47 \<and> \<not> is_space (text ! 1)
      \<and> \<not> is_control (text ! 1) \<and> (\<forall>k. 2 \<le> k \<and> k < length text \<longrightarrow> \<not> is_control (text ! k))"
  proof -
    have "re_rel (sq [unit 47, Cls (\<lambda>c. \<not> is_space c \<and> \<not> is_control c),
        Star (Cls (\<lambda>c. \<not> is_control c)), Eol]) text 0 j \<longleftrightarrow>
        j = length text \<and> 1 < length text \<and> text ! 0 = 47 \<and> \<not> is_space (text ! 1)
        \<and> \<not> is_control (text ! 1) \<and> (\<forall>k. 2 \<le> k \<and> k < length text \<longrightarrow> \<not> is_control (text ! k))" for j
      by (auto simp: sq_def unit_def re_rel_Star_Cls numeral_2_eq_2)
    then show ?thesis unfolding is_slash_command_def slash_re_def re_test_anchored_rel by blast
  qed
  also have "\<dots> \<longleftrightarrow> (\<exists>c rest. text = 47 # c # rest \<and> \<not> is_space c \<and> \<not> is_control c
      \<and> list_all (\<lambda>x. \<not> is_control x) rest)"
  proof (cases "text")
    case (Cons a u)
    then show ?thesis
    proof (cases u)
      case (Cons c rest)
      have "(\<forall>k. 2 \<le> k \<and> k < length (a # c # rest) \<longrightarrow> \<not> is_control ((a # c # rest) ! k))
          \<longleftrightarrow> list_all (\<lambda>x. \<not> is_control x) rest"
        by (auto simp: list_all_length numeral_2_eq_2 nth_Cons split: nat.splits)
      then show ?thesis using Cons \<open>text = a # u\<close> by auto
    qed simp
  qed simp
  finally show ?thesis .
qed

text \<open>A blocked command as positions in the trimmed line.\<close>

lemma blocked_at:
  assumes "t ! 0 = 47" and "k = 1 \<or> (\<exists>m. 1 < m \<and> k = Suc m \<and> (\<forall>x. 1 \<le> x \<and> x < m \<longrightarrow> is_namespace_char (t ! x)) \<and> t ! m = 58)"
    and "k + 3 \<le> length t" and "list_all2 ci_eq (js ''afk'') (sub t k (k + 3))"
    and "k + 3 = length t \<or> (k + 3 < length t \<and> is_space (t ! (k + 3)))"
  shows "re_test blocked_re t"
proof -
  have len: "length (js ''afk'') = 3" by (simp add: js_def)
  have ns: "re_rel (opt (sq [plus (Cls is_namespace_char), unit 58])) t 1 k"
    using assms(2)
  proof (elim disjE exE conjE)
    fix m assume m: "1 < m" "k = Suc m" "\<forall>x. 1 \<le> x \<and> x < m \<longrightarrow> is_namespace_char (t ! x)" "t ! m = 58"
    then have "re_rel (Star (Cls is_namespace_char)) t 2 m" using assms(3) by (subst re_rel_Star_Cls) auto
    then show ?thesis using m assms(3) by (auto simp: opt_def sq_def plus_def unit_def numeral_2_eq_2)
  qed (simp add: opt_def)
  have l: "re_rel (lit_i ''afk'') t k (k + 3)"
    using re_rel_lits [of k t ci_eq "js ''afk''" "k + 3"] assms(3,4) len by (simp add: lit_i_def)
  have e: "\<exists>j. re_rel (Alt (Cls is_space) Eol) t (k + 3) j" using assms(5) by auto
  have "t \<noteq> []" using assms(3) by auto
  then have "re_rel (unit 47) t 0 1" using assms(1) by (simp add: unit_def)
  then show ?thesis using ns l e
    unfolding blocked_re_def re_test_anchored_rel sq_def foldr.simps comp_def re_rel_Sq re_rel_Eps id_def by blast
qed

text \<open>
  Every spelling of the AFK command is blocked: any letter case, an optional plugin name space
  such as \<^verbatim>\<open>plugin:\<close>, any surrounding white space, with or without arguments.
\<close>

theorem afk_always_blocked:
  assumes "trim text = 47 # ns @ a @ rest"
    and "ns = [] \<or> (\<exists>m. m \<noteq> [] \<and> list_all is_namespace_char m \<and> ns = m @ [58])"
    and "list_all2 ci_eq (js ''afk'') a"
    and "rest = [] \<or> is_space (hd rest)"
  shows "is_blocked_afk_command text"
proof -
  define t where "t = trim text"
  define k where "k = Suc (length ns)"
  have la: "length a = 3" using list_all2_lengthD [OF assms(3)] by (simp add: js_def)
  have t: "t = 47 # ns @ a @ rest" using assms(1) by (simp add: t_def)
  have a: "sub t k (k + 3) = a" by (simp add: sub_def t k_def la)
  have k: "k = 1 \<or> (\<exists>m. 1 < m \<and> k = Suc m \<and> (\<forall>x. 1 \<le> x \<and> x < m \<longrightarrow> is_namespace_char (t ! x)) \<and> t ! m = 58)"
    using assms(2)
  proof (elim disjE exE conjE)
    fix m assume m: "m \<noteq> []" "list_all is_namespace_char m" "ns = m @ [58]"
    have "is_namespace_char (t ! x)" if "1 \<le> x" "x < Suc (length m)" for x
      using that m by (cases x) (auto simp: t nth_append list_all_length)
    moreover have "t ! Suc (length m) = 58" by (simp add: t m(3) nth_append)
    ultimately show ?thesis using m by (auto simp: k_def intro!: disjI2 exI [of _ "Suc (length m)"])
  qed (simp add: k_def)
  have r: "k + 3 = length t \<or> (k + 3 < length t \<and> is_space (t ! (k + 3)))"
    using assms(4) la by (cases rest) (auto simp: t k_def nth_append)
  have "t ! 0 = 47" "k + 3 \<le> length t" "list_all2 ci_eq (js ''afk'') (sub t k (k + 3))"
    using assms(3) la by (simp_all only: a) (simp_all add: t k_def)
  then have "re_test blocked_re t" using k r by (intro blocked_at [of t k])
  then show ?thesis by (simp add: is_blocked_afk_command_def t_def)
qed

theorem afk_always_blocked_witness:
  "is_blocked_afk_command (js '' /Server:AfK now'')"
proof (rule afk_always_blocked [where ns = "js ''Server:''" and a = "js ''AfK''" and rest = "js '' now''"])
  have "js ''Server'' \<noteq> [] \<and> list_all is_namespace_char (js ''Server'') \<and> js ''Server:'' = js ''Server'' @ [58]"
    by code_simp
  then show "js ''Server:'' = [] \<or> (\<exists>m. m \<noteq> [] \<and> list_all is_namespace_char m \<and> js ''Server:'' = m @ [58])"
    by blast
qed code_simp+

text \<open>
  The announced countdown is at most one day, a sale at most what a double holds exactly.
\<close>

lemma world_restart_seconds_bounds:
  "case parse_world_restart_seconds low message of None \<Rightarrow> True | Some s \<Rightarrow> s \<le> 86400"
  by (simp add: parse_world_restart_seconds_def Let_def split: option.splits)

lemma sell_earning_bounds:
  "case parse_sell_earning message of None \<Rightarrow> True | Some cents \<Rightarrow> 0 \<le> cents \<and> cents < 2 ^ 53"
  by (auto simp: parse_sell_earning_def Let_def split: option.splits)

end
