(* ===== verification/Reconnect_Policy.thy ===== *)
theory Reconnect_Policy
  imports Text_Rules
begin

text \<open>
  \<^verbatim>\<open>backend/src/minecraft/reconnectPolicy.ts\<close>: the delay before the next connection attempt.
  Login throttles of the server back off exponentially, unavailable services too, everything else
  keeps the familiar fifteen seconds.
\<close>

record policy =
  failures :: nat
  login_rejections :: nat

definition fresh_policy :: policy where
  "fresh_policy = \<lparr>failures = 0, login_rejections = 0\<rparr>"

definition policy_reset :: "policy \<Rightarrow> policy" where
  "policy_reset p = p\<lparr>failures := 0, login_rejections := 0\<rparr>"

definition login_throttle_re :: re where
  "login_throttle_re = alts
     [lit_i ''logging in too fast'',
      sq [lit_i ''too many '', alts [lit_i ''login'', lit_i ''connection'', lit_i ''requests'']],
      sq [Wb, lit_i ''429'', Wb],
      sq [lit_i ''login'', any, lit_i ''rate'', opt (Cls is_dot), lit_i ''limit''],
      sq [lit_i ''zu '', Alt (lit_i ''schnell'') (lit_i ''viele''), any, lit_i ''anmeld''],
      lit_i ''du bist bereits auf dem server'',
      sq [lit_i ''already '', Alt (lit_i ''connected'') (lit_i ''logged in'')],
      lit_i ''connection already exists'']"

definition suspicious_re :: re where
  "suspicious_re = Alt (lit_i ''suspicious packets'') (lit_i ''too many packets in a bundle'')"

definition unavailable_re :: re where
  "unavailable_re = alts [lit_i ''deadline_exceeded'', lit_i ''ECONNREFUSED'', lit_i ''unavailable'',
     lit_i ''fetch failed'', lit_i ''no world entry'', lit_i ''connection start queue stalled'']"

text \<open>\<open>delay reason stable_for_ms\<close>: the delay in milliseconds and the updated counters.\<close>

definition reconnect_delay :: "jstr \<Rightarrow> int \<Rightarrow> policy \<Rightarrow> int \<times> policy" where
  "reconnect_delay reason stable_for_ms p0 =
     (let p1 = (if stable_for_ms \<ge> 120000 then policy_reset p0 else p0);
          p2 = p1\<lparr>failures := failures p1 + 1\<rparr> in
      if re_test login_throttle_re reason then
        (let p3 = p2\<lparr>login_rejections := login_rejections p2 + 1\<rparr>
         in (min 300000 (60000 * 2 ^ min 3 (login_rejections p3 - 1)), p3))
      else if re_test suspicious_re reason then (60000, p2)
      else if re_test unavailable_re reason then
        (min 120000 (15000 * 2 ^ min 3 (failures p2 - 2)), p2)
      else (15000, p2))"

text \<open>Consecutive failures, each with its reason and how long the connection had been up.\<close>

fun delays :: "policy \<Rightarrow> (jstr \<times> int) list \<Rightarrow> int list" where
  "delays p [] = []"
| "delays p ((reason, up) # rest) =
     (case reconnect_delay reason up p of (d, p') \<Rightarrow> d # delays p' rest)"

lemma pow_min3: "(2::int) ^ min 3 n \<in> {1, 2, 4, 8}"
proof -
  have "min 3 n = 0 \<or> min 3 n = 1 \<or> min 3 n = 2 \<or> min 3 n = 3" by linarith
  then show ?thesis by auto
qed

text \<open>
  Whatever the reason and the history, the client waits at least fifteen seconds and at most
  five minutes: it never hammers the server and never gives up for longer.
\<close>

lemma reconnect_delay_range:
  "15000 \<le> fst (reconnect_delay reason up p) \<and> fst (reconnect_delay reason up p) \<le> 300000"
proof -
  have "15000 \<le> min (300000::int) (60000 * 2 ^ min 3 n)" for n using pow_min3 [of n] by auto
  moreover have "15000 \<le> min (120000::int) (15000 * 2 ^ min 3 n) \<and> min (120000::int) (15000 * 2 ^ min 3 n) \<le> 300000" for n
    using pow_min3 [of n] by auto
  ultimately show ?thesis by (simp add: reconnect_delay_def Let_def)
qed

lemma reconnect_delay_throttled:
  assumes "re_test login_throttle_re reason" and "up < 120000"
  shows "reconnect_delay reason up p =
    (min 300000 (60000 * 2 ^ min 3 (login_rejections p)),
     p\<lparr>failures := failures p + 1, login_rejections := login_rejections p + 1\<rparr>)"
  using assms by (simp add: reconnect_delay_def Let_def)

lemma delays_throttled:
  assumes "list_all (\<lambda>(reason, up). re_test login_throttle_re reason \<and> up < 120000) rs"
  shows "delays p rs = map (\<lambda>i. min 300000 (60000 * 2 ^ min 3 (login_rejections p + i))) [0..<length rs]"
  using assms
proof (induction rs arbitrary: p)
  case (Cons r rs)
  obtain reason up where r: "r = (reason, up)" by force
  have "delays p (r # rs) = min 300000 (60000 * 2 ^ min 3 (login_rejections p))
      # map (\<lambda>i. min 300000 (60000 * 2 ^ min 3 (login_rejections p + Suc i))) [0..<length rs]"
    using Cons r by (simp add: reconnect_delay_throttled)
  then show ?case by (simp only: map_upt_Suc length_Cons add_0_right)
qed simp

text \<open>
  A server that keeps refusing the login is asked after one, two and four minutes and then every
  five minutes, as long as no connection stays up for two minutes.
\<close>

theorem login_throttle_backoff:
  assumes "list_all (\<lambda>(reason, up). re_test login_throttle_re reason \<and> up < 120000) rs"
  shows "delays fresh_policy rs = take (length rs) ([60000, 120000, 240000] @ replicate (length rs - 3) 300000)"
proof -
  have p: "(2::int) ^ min 3 i = 8" if "3 \<le> i" for i :: nat
    using that by (simp add: min_absorb1)
  have "delays fresh_policy rs ! i = take (length rs) ([60000, 120000, 240000] @ replicate (length rs - 3) 300000) ! i"
    if "i < length rs" for i
  proof -
    consider "i = 0" | "i = 1" | "i = 2" | "3 \<le> i" by linarith
    then show ?thesis using that
      by cases (auto simp: delays_throttled [OF assms] fresh_policy_def nth_append nth_Cons' p)
  qed
  then show ?thesis
    by (intro nth_equalityI) (simp_all add: delays_throttled [OF assms])
qed

theorem login_throttle_backoff_witness:
  "delays fresh_policy (replicate 5 (js ''429 Too Many Requests'', 0))
     = take 5 ([60000, 120000, 240000] @ replicate 2 300000)"
proof -
  have "list_all (\<lambda>(reason, up). re_test login_throttle_re reason \<and> up < (120000::int))
      (replicate 5 (js ''429 Too Many Requests'', 0))"
    by code_simp
  from login_throttle_backoff [OF this] show ?thesis by simp
qed

text \<open>
  A connection that stayed up for two minutes clears the history: the next refusal waits one
  minute again and an ordinary disconnect fifteen seconds.
\<close>

theorem stable_connection_resets:
  "fst (reconnect_delay reason (120000 + int extra) p) = fst (reconnect_delay reason 0 fresh_policy)"
  by (simp add: reconnect_delay_def Let_def policy_reset_def fresh_policy_def)

end
