(* ===== verification/Client_Types.thy ===== *)
theory Client_Types
  imports Afk_Prelude
begin

text \<open>
  Enumerations shared by the bot supervisor and the database (\<^verbatim>\<open>backend/src/minecraft/types.ts\<close>,
  \<^verbatim>\<open>backend/prisma/schema.prisma\<close>), and the access to a field of a parsed JSON object.
\<close>

datatype client_status = OFFLINE | CONNECTING | ONLINE | DISCONNECTING | RECONNECTING | ERROR

datatype console_type = SYSTEM | CHAT | SERVER_MESSAGE | USER_COMMAND | ERROR_LINE | WARNING

datatype edition = JAVA | BEDROCK
datatype auth_type = AUTH_OFFLINE | AUTH_MICROSOFT
datatype button = OFF | LEFT | RIGHT

definition json_field :: "json \<Rightarrow> string \<Rightarrow> json option" where
  "json_field j k = (case j of JObj kvs \<Rightarrow> map_of kvs (js k) | _ \<Rightarrow> None)"

end
