(* ===== verification/Minecraft_Client.thy ===== *)
theory Minecraft_Client
  imports Reconnect_Policy Client_Types
begin

text \<open>
  \<^verbatim>\<open>backend/src/minecraft/MinecraftClient.ts\<close>: the supervisor of one bot. It owns the controller
  (\<open>child\<close>), the reconnect, restart, hang and crouch timers and the watchdog, and turns the events
  of the bot into status, console, chat and sale events. Every method takes the environment of the
  call (clock, whether a controller can be created) and the state, and returns the new state; what
  the method emits or writes is appended to \<open>outs\<close>. Log calls are left out.
\<close>

section \<open>Types (types.ts, bedrock-bot/protocol.ts)\<close>

record runtime_config =
  rc_id :: jstr
  rc_name :: jstr
  rc_version :: jstr
  rc_host :: jstr
  rc_port :: int
  rc_edition :: edition
  rc_auth :: auth_type
  rc_secret :: "jstr option"
  rc_password :: "jstr option"
  rc_crouch :: bool
  rc_button :: "button option"
  rc_auto_reconnect :: bool
  rc_auto_return_home :: "bool option"
  rc_sell_enabled :: bool
  rc_sell_interval :: rat
  rc_sell_command :: jstr
  rc_spawner_type :: jstr
  rc_drop_items :: "jstr list"
  rc_sell_items :: "jstr list"

record msa_prompt =
  verification_uri :: jstr
  user_code :: jstr
  expires_at :: int

record snapshot =
  sn_id :: jstr
  sn_name :: jstr
  sn_status :: client_status
  sn_host :: jstr
  sn_port :: int
  sn_since :: "int option"
  sn_error :: "jstr option"
  sn_msa :: "msa_prompt option"
  sn_authenticated :: bool

text \<open>Behavior settings sent to a running bot, the first line, and the later commands.\<close>

record behavior_settings =
  bs_return_home :: bool
  bs_crouch :: bool
  bs_button :: jstr
  bs_sell_enabled :: bool
  bs_sell_interval :: rat
  bs_sell_command :: jstr
  bs_spawner_type :: jstr
  bs_drop_items :: "jstr list"
  bs_sell_items :: "jstr list"

record first_line =
  fl_host :: jstr
  fl_port :: int
  fl_auth :: jstr
  fl_username :: jstr
  fl_account_id :: jstr
  fl_edition :: edition
  fl_version :: jstr
  fl_email :: "jstr option"
  fl_password :: "jstr option"
  fl_behavior :: behavior_settings
  fl_pause :: "int \<times> int"

datatype payload =
    P_first first_line
  | P_configure behavior_settings
  | P_chat jstr
  | P_read_sell_multipliers
  | P_clean_spawner
  | P_check_crouch
  | P_pause_autosell int int
  | P_disconnect

datatype bot_event =
    B_msa_code jstr jstr int
  | B_profile jstr jstr
  | B_login
  | B_spawn
  | B_chat "jstr option" jstr
  | B_behavior_log jstr
  | B_sell_multipliers "json option"
  | B_heartbeat
  | B_control_status "bool option" jstr
  | B_warning jstr
  | B_disconnect "jstr option"
  | B_connection_failed jstr
  | B_fatal_error jstr
  | B_unknown

text \<open>What the client emits to its listeners, writes to a controller, and asks of the service.\<close>

datatype client_output =
    O_status snapshot
  | O_console console_type jstr
  | O_profile jstr jstr
  | O_earning int
  | O_chat jstr
  | O_write nat payload
  | O_spawned nat
  | O_stop_remote jstr
  | O_terminate nat

text \<open>
  The input stream of a controller: writable, closed (destroyed, ended or not writable), or one
  whose write throws.
\<close>

datatype pipe = Writable | Closed | Throws

record controller =
  ct_id :: nat
  ct_pipe :: pipe
  ct_exited :: bool

datatype hang_kind = Hang_start | Hang_msa | Hang_world

record client =
  cfg :: runtime_config
  reconnect_policy :: policy
  child :: "controller option"
  next_child :: nat
  status :: client_status
  reconnect_at :: "int option"
  restart_at :: "int option"
  hang_at :: "(int \<times> hang_kind) option"
  watchdog_at :: "int option"
  last_heartbeat_at :: int
  last_control_failure_at :: "int option"
  manually_stopped :: bool
  connection_ended :: bool
  connected_since :: "int option"
  last_error :: "jstr option"
  msa_sign_in :: "msa_prompt option"
  authenticated :: bool
  world_restart_at :: "int option"
  restart_crouch_timer :: "(int \<times> nat) option"
  restart_crouch_window_end :: int
  last_crouch_restart_at :: "int option"
  pending_restart_crouch_check :: bool
  periodic_crouch_at :: "int option"
  pending_periodic_crouch_check :: bool
  outs :: "client_output list"

text \<open>
  The surroundings of a call: the clock, the error \<^verbatim>\<open>createSoulFireController\<close> throws, if any, and
  the Unicode lower case table of the runtime for code units beyond ASCII.
\<close>

record env =
  now :: int
  spawn_error :: "jstr option"
  lower_table :: "code_unit \<Rightarrow> jstr"

definition MANUAL_RESTART_DELAY_MS :: int where "MANUAL_RESTART_DELAY_MS = 5000"
definition SUBPROCESS_HANG_TIMEOUT_MS :: int where "SUBPROCESS_HANG_TIMEOUT_MS = 300000"
definition AUTHENTICATED_WORLD_ENTRY_TIMEOUT_MS :: int where "AUTHENTICATED_WORLD_ENTRY_TIMEOUT_MS = 90000"
definition SUBPROCESS_ONLINE_SILENCE_MS :: int where "SUBPROCESS_ONLINE_SILENCE_MS = 45000"
definition ONLINE_WATCHDOG_INTERVAL_MS :: int where "ONLINE_WATCHDOG_INTERVAL_MS = 15000"
definition CONTROL_OUTAGE_LEASE_MS :: int where "CONTROL_OUTAGE_LEASE_MS = 15000"

lemmas client_ms = MANUAL_RESTART_DELAY_MS_def SUBPROCESS_HANG_TIMEOUT_MS_def
  AUTHENTICATED_WORLD_ENTRY_TIMEOUT_MS_def SUBPROCESS_ONLINE_SILENCE_MS_def
  ONLINE_WATCHDOG_INTERVAL_MS_def CONTROL_OUTAGE_LEASE_MS_def

definition new_client :: "runtime_config \<Rightarrow> client" where
  "new_client c = \<lparr>cfg = c, reconnect_policy = fresh_policy, child = None, next_child = 0,
     status = OFFLINE, reconnect_at = None, restart_at = None, hang_at = None, watchdog_at = None,
     last_heartbeat_at = 0, last_control_failure_at = None, manually_stopped = False,
     connection_ended = False, connected_since = None, last_error = None, msa_sign_in = None,
     authenticated = False, world_restart_at = None, restart_crouch_timer = None,
     restart_crouch_window_end = 0, last_crouch_restart_at = None,
     pending_restart_crouch_check = False, periodic_crouch_at = None,
     pending_periodic_crouch_check = False, outs = []\<rparr>"

section \<open>Emitting and writing\<close>

definition put :: "client_output \<Rightarrow> client \<Rightarrow> client" where
  "put out s = s\<lparr>outs := outs s @ [out]\<rparr>"

definition emit_console :: "console_type \<Rightarrow> jstr \<Rightarrow> client \<Rightarrow> client" where
  "emit_console t m = put (O_console t m)"

definition get_status :: "client \<Rightarrow> snapshot" where
  "get_status s = \<lparr>sn_id = rc_id (cfg s), sn_name = rc_name (cfg s), sn_status = status s,
     sn_host = rc_host (cfg s), sn_port = rc_port (cfg s), sn_since = connected_since s,
     sn_error = last_error s, sn_msa = msa_sign_in s, sn_authenticated = authenticated s\<rparr>"

definition emit_status :: "client \<Rightarrow> client" where
  "emit_status s = put (O_status (get_status s)) s"

definition can_send :: "client \<Rightarrow> bool" where
  "can_send s = (case child s of None \<Rightarrow> False | Some c \<Rightarrow> ct_pipe c = Writable)"

text \<open>A refused or throwing write is the result \<open>False\<close> and leaves no trace at the bot.\<close>

definition send_to_bot :: "payload \<Rightarrow> client \<Rightarrow> bool \<times> client" where
  "send_to_bot p s = (case child s of
       None \<Rightarrow> (False, s)
     | Some c \<Rightarrow> (case ct_pipe c of
           Writable \<Rightarrow> (True, put (O_write (ct_id c) p) s)
         | Closed \<Rightarrow> (False, s)
         | Throws \<Rightarrow> (False, s)))"

definition button_text :: "button option \<Rightarrow> jstr" where
  "button_text b = (case b of None \<Rightarrow> js ''off'' | Some OFF \<Rightarrow> js ''off''
     | Some LEFT \<Rightarrow> js ''left'' | Some RIGHT \<Rightarrow> js ''right'')"

definition settings_of :: "runtime_config \<Rightarrow> behavior_settings" where
  "settings_of c = \<lparr>bs_return_home = (case rc_auto_return_home c of None \<Rightarrow> True | Some b \<Rightarrow> b),
     bs_crouch = rc_crouch c, bs_button = button_text (rc_button c),
     bs_sell_enabled = rc_sell_enabled c, bs_sell_interval = rc_sell_interval c,
     bs_sell_command = rc_sell_command c, bs_spawner_type = rc_spawner_type c,
     bs_drop_items = rc_drop_items c, bs_sell_items = rc_sell_items c\<rparr>"

section \<open>Timers and status\<close>

definition clear_reconnect_timer :: "client \<Rightarrow> client" where
  "clear_reconnect_timer s = s\<lparr>reconnect_at := None\<rparr>"

definition clear_restart_timer :: "client \<Rightarrow> client" where
  "clear_restart_timer s = s\<lparr>restart_at := None\<rparr>"

definition clear_hang_timer :: "client \<Rightarrow> client" where
  "clear_hang_timer s = s\<lparr>hang_at := None\<rparr>"

definition clear_online_watchdog :: "client \<Rightarrow> client" where
  "clear_online_watchdog s = s\<lparr>watchdog_at := None\<rparr>"

definition start_online_watchdog :: "env \<Rightarrow> client \<Rightarrow> client" where
  "start_online_watchdog e s =
     (clear_online_watchdog s)\<lparr>watchdog_at := Some (now e + ONLINE_WATCHDOG_INTERVAL_MS)\<rparr>"

definition sync_periodic_crouch_checks :: "env \<Rightarrow> client \<Rightarrow> client" where
  "sync_periodic_crouch_checks e s =
     (if manually_stopped s \<or> \<not> rc_crouch (cfg s) \<or> status s = ERROR then
        s\<lparr>periodic_crouch_at := None, pending_periodic_crouch_check := False\<rparr>
      else if status s = ONLINE then
        (let s1 = (if pending_periodic_crouch_check s
                   then (case send_to_bot P_check_crouch s of
                           (True, s') \<Rightarrow> s'\<lparr>pending_periodic_crouch_check := False\<rparr>
                         | (False, s') \<Rightarrow> s')
                   else s)
         in if periodic_crouch_at s1 = None
            then s1\<lparr>periodic_crouch_at := Some (now e + 1800000)\<rparr> else s1)
      else s)"

definition set_status :: "env \<Rightarrow> client_status \<Rightarrow> client \<Rightarrow> client" where
  "set_status e new s =
     (if status s = new then s
      else emit_status (sync_periodic_crouch_checks e (s\<lparr>status := new\<rparr>)))"

definition teardown_subprocess :: "client \<Rightarrow> client" where
  "teardown_subprocess s0 =
     (let s = clear_online_watchdog s0;
          s1 = s\<lparr>child := None, connected_since := None, msa_sign_in := None, authenticated := False\<rparr>
      in case child s of
           None \<Rightarrow> s1
         | Some c \<Rightarrow>
             (let s2 = (if ct_pipe c = Writable then put (O_write (ct_id c) P_disconnect) s1 else s1)
              in put (O_terminate (ct_id c)) (put (O_stop_remote (rc_id (cfg s))) s2)))"

definition sell_pause_window :: "env \<Rightarrow> client \<Rightarrow> int \<times> int" where
  "sell_pause_window e s = (case world_restart_at s of
       None \<Rightarrow> (0, 0)
     | Some wr \<Rightarrow>
         if now e \<ge> wr + WORLD_RESTART_SELL_COOLDOWN_MS then (0, 0)
         else (max 0 (wr - WORLD_RESTART_SELL_LEAD_MS - now e),
               wr + WORLD_RESTART_SELL_COOLDOWN_MS - now e))"

definition first_line_of :: "env \<Rightarrow> client \<Rightarrow> first_line" where
  "first_line_of e s =
     \<lparr>fl_host = rc_host (cfg s), fl_port = rc_port (cfg s),
      fl_auth = (case rc_auth (cfg s) of AUTH_MICROSOFT \<Rightarrow> js ''microsoft'' | AUTH_OFFLINE \<Rightarrow> js ''offline''),
      fl_username = rc_name (cfg s), fl_account_id = rc_id (cfg s), fl_edition = rc_edition (cfg s),
      fl_version = rc_version (cfg s), fl_email = rc_secret (cfg s), fl_password = rc_password (cfg s),
      fl_behavior = settings_of (cfg s), fl_pause = sell_pause_window e s\<rparr>"

section \<open>Connecting and failing\<close>

text \<open>\<^verbatim>\<open>Math.round(delay / 1000)\<close> for the message.\<close>

definition round_seconds :: "int \<Rightarrow> int" where
  "round_seconds ms = (ms + 500) div 1000"

definition handle_connection_failure :: "env \<Rightarrow> jstr \<Rightarrow> client \<Rightarrow> client" where
  "handle_connection_failure e reason s0 =
     (if connection_ended s0 then s0
      else
        (let stable = (case connected_since s0 of None \<Rightarrow> 0 | Some t \<Rightarrow> now e - t);
             s = teardown_subprocess
                   (clear_hang_timer (s0\<lparr>connection_ended := True, last_error := Some reason\<rparr>)) in
         if manually_stopped s then set_status e OFFLINE s
         else if \<not> rc_auto_reconnect (cfg s) then
           set_status e ERROR
             (emit_console WARNING (js ''Auto-reconnect is disabled; staying offline.'') s)
         else
           (case reconnect_delay reason stable (reconnect_policy s) of
              (d, p) \<Rightarrow>
                (emit_console SYSTEM
                   (js ''Reconnecting in '' @ show_int (round_seconds d) @ js ''s...'')
                   (set_status e RECONNECTING (s\<lparr>reconnect_policy := p\<rparr>)))
                \<lparr>reconnect_at := Some (now e + d)\<rparr>)))"

definition attempt_connect :: "env \<Rightarrow> bool \<Rightarrow> client \<Rightarrow> client" where
  "attempt_connect e reconnecting s0 =
     (let s = (set_status e (if reconnecting then RECONNECTING else CONNECTING)
                 (s0\<lparr>connection_ended := False, last_control_failure_at := None\<rparr>))
              \<lparr>last_error := None\<rparr> in
      case spawn_error e of
        Some message \<Rightarrow> handle_connection_failure e message s
      | None \<Rightarrow>
          (let c = \<lparr>ct_id = next_child s, ct_pipe = Writable, ct_exited = False\<rparr>;
               s1 = put (O_spawned (next_child s)) (s\<lparr>child := Some c, next_child := next_child s + 1\<rparr>);
               s2 = start_online_watchdog e (s1\<lparr>last_heartbeat_at := now e\<rparr>);
               s3 = snd (send_to_bot (P_first (first_line_of e s2)) s2)
           in s3\<lparr>hang_at := Some (now e + SUBPROCESS_HANG_TIMEOUT_MS, Hang_start)\<rparr>))"

definition connect :: "env \<Rightarrow> client \<Rightarrow> client" where
  "connect e s =
     (if status s \<noteq> OFFLINE \<and> status s \<noteq> ERROR then s
      else if restart_at s \<noteq> None then s
      else attempt_connect e False
             (clear_reconnect_timer
                (s\<lparr>manually_stopped := False, reconnect_policy := policy_reset (reconnect_policy s)\<rparr>)))"

definition disconnect :: "env \<Rightarrow> client \<Rightarrow> client" where
  "disconnect e s =
     set_status e OFFLINE
       (teardown_subprocess
         (clear_hang_timer
           (clear_reconnect_timer
             (clear_restart_timer
               (sync_periodic_crouch_checks e (s\<lparr>manually_stopped := True\<rparr>))))))"

definition dispose :: "env \<Rightarrow> client \<Rightarrow> client" where
  "dispose e s = disconnect e (s\<lparr>restart_crouch_timer := None\<rparr>)"

text \<open>Shutting down disconnects, and then waits for the controller that had not exited yet.\<close>

definition shutdown :: "env \<Rightarrow> client \<Rightarrow> client \<times> nat option" where
  "shutdown e s = (disconnect e s,
     (case child s of Some c \<Rightarrow> if ct_exited c then None else Some (ct_id c) | None \<Rightarrow> None))"

definition restart :: "env \<Rightarrow> client \<Rightarrow> client" where
  "restart e s =
     (emit_console SYSTEM (js ''Restart: waiting 5 seconds before reconnecting...'')
       (set_status e OFFLINE
         (teardown_subprocess
           (clear_hang_timer
             (clear_reconnect_timer
               (clear_restart_timer
                 (s\<lparr>manually_stopped := False, reconnect_policy := policy_reset (reconnect_policy s)\<rparr>)))))))
     \<lparr>restart_at := Some (now e + MANUAL_RESTART_DELAY_MS)\<rparr>"

definition update_config :: "env \<Rightarrow> runtime_config \<Rightarrow> client \<Rightarrow> client" where
  "update_config e c s0 =
     (let s = sync_periodic_crouch_checks e (s0\<lparr>cfg := c\<rparr>) in
      if child s \<noteq> None \<and> status s = ONLINE
      then snd (send_to_bot (P_configure (settings_of c)) s) else s)"

section \<open>Commands\<close>

definition AFK_BLOCK_MESSAGE :: jstr where
  "AFK_BLOCK_MESSAGE = js ''Mit den Accounts '' @ [252] @ js ''ber den AFK-Client ist es nicht erlaubt, Stars zu farmen!!''"

definition send_command :: "jstr \<Rightarrow> client \<Rightarrow> bool \<times> client" where
  "send_command command s =
     (if is_blocked_afk_command command then (True, emit_console WARNING AFK_BLOCK_MESSAGE s)
      else if \<not> is_slash_command command then
        (False, emit_console ERROR_LINE (js ''Nur Slash-Befehle mit / am Anfang sind erlaubt'') s)
      else if status s \<noteq> ONLINE \<or> child s = None then
        (False, emit_console ERROR_LINE (js ''Bot is not online, cannot send command'') s)
      else (case send_to_bot (if command = js ''/desmo'' then P_read_sell_multipliers else P_chat command) s of
          (True, s') \<Rightarrow> (True, emit_console USER_COMMAND command s')
        | (False, s') \<Rightarrow> (False, emit_console ERROR_LINE
            (js ''Command konnte nicht an den Bot '' @ [252] @ js ''bermittelt werden'') s')))"

definition clean_spawner :: "client \<Rightarrow> bool \<times> client" where
  "clean_spawner s =
     (if status s \<noteq> ONLINE \<or> child s = None then
        (False, emit_console ERROR_LINE (js ''Bot is not online, cannot clean spawner'') s)
      else (True, emit_console SYSTEM (js ''Clean spawner task dispatched'')
                    (snd (send_to_bot P_clean_spawner s))))"

section \<open>Crouch checks after a world restart\<close>

definition send_restart_crouch_check :: "client \<Rightarrow> bool \<times> client" where
  "send_restart_crouch_check s =
     (if status s = ONLINE \<and> rc_crouch (cfg s) then send_to_bot P_check_crouch s else (False, s))"

definition schedule_restart_crouch_checks :: "env \<Rightarrow> int \<Rightarrow> client \<Rightarrow> client" where
  "schedule_restart_crouch_checks e wr s =
     (if (case last_crouch_restart_at s of None \<Rightarrow> False | Some t \<Rightarrow> \<bar>wr - t\<bar> \<le> 5000) then s
      else s\<lparr>last_crouch_restart_at := Some wr, restart_crouch_window_end := now e + 300000,
             pending_restart_crouch_check := False,
             restart_crouch_timer := Some (now e + 60000, 5)\<rparr>)"

section \<open>Bot events\<close>

function collapse_spaces :: "jstr \<Rightarrow> jstr" where
  "collapse_spaces [] = []"
| "collapse_spaces (c # s) =
     (if is_space c then 32 # collapse_spaces (dropWhile is_space s) else c # collapse_spaces s)"
  by pat_completeness auto
termination
  by (relation "measure length") (auto simp: less_Suc_eq_le length_dropWhile_le)

definition fallback_re :: re where
  "fallback_re = Sq Bol (sq [lit_iu ''Verbindung zum vorherigen Server verloren'', spaces,
     Cls (\<lambda>c. c = 8211 \<or> c = 8212 \<or> c = 45), spaces,
     lit_iu ''du wurdest auf einen anderen Server verschoben'', opt (Cls (\<lambda>c. c = 46 \<or> c = 33)), Eol])"

definition is_server_fallback_message :: "jstr \<Rightarrow> bool" where
  "is_server_fallback_message message = re_test fallback_re (collapse_spaces (trim message))"

definition from_server :: "env \<Rightarrow> jstr option \<Rightarrow> bool" where
  "from_server e sender = (case sender of
       None \<Rightarrow> True
     | Some n \<Rightarrow> n = [] \<or> to_lower (lower_table e) (strip_minecraft_formatting n) = js ''hugosmp'')"

text \<open>The nine entries of a multiplier reading, each a name, a multiplier and a progress.\<close>

definition multiplier_re :: re where
  "multiplier_re = Sq Bol (sq [digits1, opt (sq [Cls (\<lambda>c. c = 46 \<or> c = 44), digits1]),
     Cls (\<lambda>c. ciu_eq 120 c \<or> c = 215), Eol])"

definition money_unit_re :: re where
  "money_unit_re = sq [Cls is_digit, Star (Cls (\<lambda>c. is_digit c \<or> c = 46 \<or> c = 44)),
     opt (Cls (\<lambda>c. ciu_eq 107 c \<or> ciu_eq 109 c \<or> ciu_eq 98 c \<or> ciu_eq 116 c)), unit 36]"

definition progress_re :: re where
  "progress_re = Sq Bol (sq [money_unit_re, unit 47, money_unit_re, lit '' - '', digits1,
     opt (sq [Cls (\<lambda>c. c = 46 \<or> c = 44), digits1]), unit 37, Eol])"

definition read_entry :: "json \<Rightarrow> (jstr \<times> jstr \<times> jstr) option" where
  "read_entry entry = (case (json_field entry ''name'', json_field entry ''multiplier'', json_field entry ''progress'') of
       (Some (JStr n), Some (JStr m), Some (JStr p)) \<Rightarrow>
         if trim n \<noteq> [] \<and> length n \<le> 256 \<and> length m \<le> 32 \<and> re_test multiplier_re m
            \<and> length p \<le> 96 \<and> re_test progress_re p
         then Some (n, m, p) else None
     | _ \<Rightarrow> None)"

definition read_entries :: "json option \<Rightarrow> (jstr \<times> jstr \<times> jstr) list option" where
  "read_entries entries = (case entries of
       Some (JArr es) \<Rightarrow>
         if length es \<noteq> 9 \<or> list_ex (\<lambda>x. read_entry x = None) es then None
         else Some (map (\<lambda>x. the (read_entry x)) es)
     | _ \<Rightarrow> None)"

definition one_line :: "jstr \<Rightarrow> jstr" where
  "one_line s = map (\<lambda>c. if c = 13 \<or> c = 10 then 32 else c) s"

fun join_with :: "jstr \<Rightarrow> jstr list \<Rightarrow> jstr" where
  "join_with sep [] = []"
| "join_with sep [x] = x"
| "join_with sep (x # xs) = x @ sep @ join_with sep xs"

definition multiplier_text :: "(jstr \<times> jstr \<times> jstr) list \<Rightarrow> jstr" where
  "multiplier_text es = js ''Desmo: Verkaufsmultiplikatoren (9 Kategorien)'' @ [10, 10]
     @ join_with [10, 10] (map (\<lambda>(n, m, p). trim (one_line (strip_minecraft_formatting n))
         @ [10] @ js ''  Aktueller Multiplikator: '' @ m @ [10] @ js ''  Fortschritt: '' @ p) es)"

definition on_msa_code :: "env \<Rightarrow> jstr \<Rightarrow> jstr \<Rightarrow> int \<Rightarrow> client \<Rightarrow> client" where
  "on_msa_code e uri code expires_in s =
     emit_status
       (emit_console SYSTEM (js ''Microsoft sign-in required: '' @ uri @ js '' (code: '' @ code @ js '')'')
         ((clear_hang_timer s)
            \<lparr>hang_at := Some (now e + (min expires_in 900 * 1000 + 15000), Hang_msa),
             msa_sign_in := Some \<lparr>verification_uri = uri, user_code = code,
               expires_at = now e + expires_in * 1000\<rparr>\<rparr>))"

definition on_profile :: "env \<Rightarrow> jstr \<Rightarrow> jstr \<Rightarrow> client \<Rightarrow> client" where
  "on_profile e username uuid s =
     emit_status
       (put (O_profile username uuid)
         (emit_console SYSTEM (js ''Authenticated as '' @ username)
           ((clear_hang_timer s)
              \<lparr>hang_at := Some (now e + AUTHENTICATED_WORLD_ENTRY_TIMEOUT_MS, Hang_world),
               msa_sign_in := None, authenticated := True\<rparr>)))"

definition on_spawn :: "env \<Rightarrow> client \<Rightarrow> client" where
  "on_spawn e s0 =
     (let s = emit_console SYSTEM (js ''Spawned into the world'')
                (set_status e ONLINE
                  ((clear_hang_timer s0)\<lparr>last_control_failure_at := None, last_heartbeat_at := now e,
                     connected_since := Some (now e), msa_sign_in := None, last_error := None\<rparr>)) in
      if pending_restart_crouch_check s \<and> now e \<le> restart_crouch_window_end s then
        (case send_restart_crouch_check s of
           (True, s') \<Rightarrow> s'\<lparr>pending_restart_crouch_check := False\<rparr>
         | (False, s') \<Rightarrow> s')
      else s)"

definition announce_restart :: "env \<Rightarrow> jstr \<Rightarrow> client \<Rightarrow> client" where
  "announce_restart e clean s =
     (case parse_world_restart_seconds (lower_table e) clean of
        None \<Rightarrow> s
      | Some seconds \<Rightarrow>
          (let wr = now e + seconds * 1000;
               s1 = s\<lparr>world_restart_at := Some wr\<rparr>;
               s2 = (if seconds \<le> 10 then schedule_restart_crouch_checks e wr s1 else s1);
               s3 = snd (case sell_pause_window e s2 of (a, r) \<Rightarrow> send_to_bot (P_pause_autosell a r) s2)
           in emit_console SYSTEM
                (js ''Weltneustart: AutoSell pausiert ab 10 Sekunden vorher bis 2 Minuten danach'') s3))"

definition on_chat :: "env \<Rightarrow> jstr option \<Rightarrow> jstr \<Rightarrow> client \<Rightarrow> client" where
  "on_chat e sender message s =
     (let clean = strip_minecraft_formatting message;
          s1 = (if from_server e sender then announce_restart e clean s else s);
          s2 = (case parse_sell_earning clean of None \<Rightarrow> s1 | Some a \<Rightarrow> put (O_earning a) s1);
          s3 = put (O_chat clean) s2;
          s4 = (case sender of
                  Some n \<Rightarrow> if n \<noteq> [] then emit_console CHAT ([60] @ strip_minecraft_formatting n @ js ''> '' @ clean) s3
                            else emit_console SERVER_MESSAGE clean s3
                | None \<Rightarrow> emit_console SERVER_MESSAGE clean s3)
      in if from_server e sender \<and> is_server_fallback_message clean
         then handle_connection_failure e clean
                (emit_console WARNING (js ''Spielserver-Verbindung verloren; Wiederverbindung gem'' @ [228, 223]
                   @ js '' Auto-Reconnect-Einstellung'') s4)
         else s4)"

definition on_sell_multipliers :: "json option \<Rightarrow> client \<Rightarrow> client" where
  "on_sell_multipliers entries s = (case read_entries entries of
       None \<Rightarrow> emit_console WARNING (js ''Desmo: Multiplikatoren konnten nicht vollst'' @ [228]
                 @ js ''ndig ausgelesen werden'') s
     | Some es \<Rightarrow> emit_console SYSTEM (multiplier_text es) s)"

definition on_control_status :: "env \<Rightarrow> bool option \<Rightarrow> jstr \<Rightarrow> client \<Rightarrow> client" where
  "on_control_status e available err s =
     (if available = Some False then
        (if last_control_failure_at s = None
         then emit_console WARNING (trim (js ''Gemeinsamer SoulFire-Dienst nicht erreichbar; Minecraft-Verbindung wird nicht vorsorglich getrennt. '' @ err)) s
         else s)\<lparr>last_control_failure_at := Some (now e)\<rparr>
      else if available = Some True \<and> last_control_failure_at s \<noteq> None then
        emit_console SYSTEM (js ''SoulFire-Steuerverbindung wieder erreichbar; pr'' @ [252]
            @ js ''fe bestehende Minecraft-Verbindung.'')
          (s\<lparr>last_control_failure_at := None, last_heartbeat_at := now e\<rparr>)
      else s)"

fun handle_bot_event :: "env \<Rightarrow> bot_event \<Rightarrow> client \<Rightarrow> client" where
  "handle_bot_event e (B_msa_code uri code expires_in) s = on_msa_code e uri code expires_in s"
| "handle_bot_event e (B_profile username uuid) s = on_profile e username uuid s"
| "handle_bot_event e B_login s = emit_console SYSTEM (js ''Logged in, joining world...'') s"
| "handle_bot_event e B_spawn s = on_spawn e s"
| "handle_bot_event e (B_chat sender message) s = on_chat e sender message s"
| "handle_bot_event e (B_behavior_log m) s = emit_console SYSTEM m s"
| "handle_bot_event e (B_sell_multipliers entries) s = on_sell_multipliers entries s"
| "handle_bot_event e B_heartbeat s = s\<lparr>last_control_failure_at := None, last_heartbeat_at := now e\<rparr>"
| "handle_bot_event e (B_control_status available err) s = on_control_status e available err s"
| "handle_bot_event e (B_warning m) s = emit_console WARNING m s"
| "handle_bot_event e (B_disconnect r) s =
     (let reason = (case r of None \<Rightarrow> js ''unknown reason'' | Some x \<Rightarrow> x)
      in handle_connection_failure e reason (emit_console SYSTEM (js ''Disconnected: '' @ reason) s))"
| "handle_bot_event e (B_connection_failed err) s =
     handle_connection_failure e err (emit_console ERROR_LINE (js ''Connection failed: '' @ err) s)"
| "handle_bot_event e (B_fatal_error err) s =
     handle_connection_failure e err (emit_console ERROR_LINE (js ''Fatal error: '' @ err) s)"
| "handle_bot_event e B_unknown s = s"

section \<open>Events of the controller\<close>

text \<open>Every listener ignores a controller that has been superseded.\<close>

definition is_current :: "nat \<Rightarrow> client \<Rightarrow> bool" where
  "is_current k s = (case child s of None \<Rightarrow> False | Some c \<Rightarrow> ct_id c = k)"

definition on_line :: "env \<Rightarrow> nat \<Rightarrow> bot_event \<Rightarrow> client \<Rightarrow> client" where
  "on_line e k ev s = (if is_current k s then handle_bot_event e ev s else s)"

definition on_pipe_error :: "env \<Rightarrow> nat \<Rightarrow> jstr \<Rightarrow> client \<Rightarrow> client" where
  "on_pipe_error e k m s =
     (if is_current k s then handle_connection_failure e (js ''Bot input pipe failed: '' @ m) s else s)"

definition on_close :: "env \<Rightarrow> nat \<Rightarrow> int option \<Rightarrow> client \<Rightarrow> client" where
  "on_close e k code s =
     (if \<not> is_current k s then s
      else if manually_stopped s then teardown_subprocess s
      else handle_connection_failure e
             (case code of Some c \<Rightarrow> if c \<noteq> 0 then js ''Bot exited with code '' @ show_int c
                                    else js ''Connection ended''
              | None \<Rightarrow> js ''Connection ended'') s)"

definition on_error :: "env \<Rightarrow> nat \<Rightarrow> jstr \<Rightarrow> client \<Rightarrow> client" where
  "on_error e k m s = (if is_current k s then handle_connection_failure e m s else s)"

text \<open>The stream of the current controller changes its state.\<close>

definition on_pipe :: "nat \<Rightarrow> pipe \<Rightarrow> client \<Rightarrow> client" where
  "on_pipe k p s = (case child s of
       Some c \<Rightarrow> if ct_id c = k then s\<lparr>child := Some (c\<lparr>ct_pipe := p\<rparr>)\<rparr> else s
     | None \<Rightarrow> s)"

section \<open>Timers\<close>

definition fire_reconnect :: "env \<Rightarrow> client \<Rightarrow> client" where
  "fire_reconnect e s = (case reconnect_at s of
       Some t \<Rightarrow> if t \<le> now e then attempt_connect e True (s\<lparr>reconnect_at := None\<rparr>) else s
     | None \<Rightarrow> s)"

definition fire_restart :: "env \<Rightarrow> client \<Rightarrow> client" where
  "fire_restart e s = (case restart_at s of
       Some t \<Rightarrow> if t \<le> now e then
           (let s1 = s\<lparr>restart_at := None\<rparr>
            in if manually_stopped s1 then s1 else attempt_connect e False s1)
         else s
     | None \<Rightarrow> s)"

text \<open>A timer handle that has fired is only ever cleared again, so it is dropped here.\<close>

definition fire_hang :: "env \<Rightarrow> client \<Rightarrow> client" where
  "fire_hang e s = (case hang_at s of
       None \<Rightarrow> s
     | Some (t, kind) \<Rightarrow>
         if now e < t then s
         else (let s1 = s\<lparr>hang_at := None\<rparr> in case kind of
             Hang_start \<Rightarrow>
               if status s1 = CONNECTING \<or> status s1 = RECONNECTING
               then handle_connection_failure e (js ''Connection timed out'')
                 (emit_console ERROR_LINE (js ''Connection timed out: bot did not enter the world within 5 minutes'') s1)
               else s1
           | Hang_msa \<Rightarrow> handle_connection_failure e (js ''Microsoft-Anmeldung abgelaufen'') s1
           | Hang_world \<Rightarrow>
               handle_connection_failure e (js ''Connection timed out after authentication (no world entry)'')
                 (emit_console ERROR_LINE
                   (js ''Connection timed out: authenticated, but no world entry confirmed within 90 seconds'') s1)))"

definition control_lease_holds :: "env \<Rightarrow> client \<Rightarrow> bool" where
  "control_lease_holds e s = (case last_control_failure_at s of
       None \<Rightarrow> False | Some t \<Rightarrow> now e - t < CONTROL_OUTAGE_LEASE_MS)"

definition fire_watchdog :: "env \<Rightarrow> client \<Rightarrow> client" where
  "fire_watchdog e s = (case watchdog_at s of
       None \<Rightarrow> s
     | Some t \<Rightarrow>
         if now e < t then s
         else (let s1 = s\<lparr>watchdog_at := Some (now e + ONLINE_WATCHDOG_INTERVAL_MS)\<rparr> in
           if status s1 \<noteq> ONLINE then s1
           else if control_lease_holds e s1 then s1
           else if now e - last_heartbeat_at s1 > SUBPROCESS_ONLINE_SILENCE_MS then
             handle_connection_failure e (js ''Bot froze (no heartbeat)'')
               (emit_console WARNING (js ''Bot appears frozen (no heartbeat); reconnecting'' @ [8230]) s1)
           else s1))"

definition fire_restart_crouch :: "env \<Rightarrow> client \<Rightarrow> client" where
  "fire_restart_crouch e s = (case restart_crouch_timer s of
       None \<Rightarrow> s
     | Some (t, remaining) \<Rightarrow>
         if now e < t then s
         else (let s1 = (if rc_crouch (cfg s)
                         then (case send_restart_crouch_check s of
                                 (sent, s') \<Rightarrow> s'\<lparr>pending_restart_crouch_check := \<not> sent\<rparr>)
                         else s)
               in if remaining - 1 = 0 then s1\<lparr>restart_crouch_timer := None\<rparr>
                  else s1\<lparr>restart_crouch_timer := Some (now e + 60000, remaining - 1)\<rparr>))"

definition fire_periodic_crouch :: "env \<Rightarrow> client \<Rightarrow> client" where
  "fire_periodic_crouch e s = (case periodic_crouch_at s of
       None \<Rightarrow> s
     | Some t \<Rightarrow>
         if now e < t then s
         else (let s1 = s\<lparr>periodic_crouch_at := Some (now e + 1800000)\<rparr> in
           if status s1 \<noteq> ONLINE then s1\<lparr>pending_periodic_crouch_check := True\<rparr>
           else (case send_to_bot P_check_crouch s1 of
                   (sent, s') \<Rightarrow> s'\<lparr>pending_periodic_crouch_check := \<not> sent\<rparr>)))"

section \<open>One step of the client\<close>

datatype client_event =
    E_connect
  | E_disconnect
  | E_dispose
  | E_restart
  | E_command jstr
  | E_clean_spawner
  | E_update_config runtime_config
  | E_line nat bot_event
  | E_pipe_error nat jstr
  | E_close nat "int option"
  | E_error nat jstr
  | E_pipe nat pipe
  | T_reconnect
  | T_restart
  | T_hang
  | T_watchdog
  | T_restart_crouch
  | T_periodic_crouch

fun client_step :: "env \<times> client_event \<Rightarrow> client \<Rightarrow> client" where
  "client_step (e, E_connect) s = connect e s"
| "client_step (e, E_disconnect) s = disconnect e s"
| "client_step (e, E_dispose) s = dispose e s"
| "client_step (e, E_restart) s = restart e s"
| "client_step (e, E_command c) s = snd (send_command c s)"
| "client_step (e, E_clean_spawner) s = snd (clean_spawner s)"
| "client_step (e, E_update_config c) s = update_config e c s"
| "client_step (e, E_line k ev) s = on_line e k ev s"
| "client_step (e, E_pipe_error k m) s = on_pipe_error e k m s"
| "client_step (e, E_close k code) s = on_close e k code s"
| "client_step (e, E_error k m) s = on_error e k m s"
| "client_step (e, E_pipe k p) s = on_pipe k p s"
| "client_step (e, T_reconnect) s = fire_reconnect e s"
| "client_step (e, T_restart) s = fire_restart e s"
| "client_step (e, T_hang) s = fire_hang e s"
| "client_step (e, T_watchdog) s = fire_watchdog e s"
| "client_step (e, T_restart_crouch) s = fire_restart_crouch e s"
| "client_step (e, T_periodic_crouch) s = fire_periodic_crouch e s"

definition client_run :: "runtime_config \<Rightarrow> (env \<times> client_event) list \<Rightarrow> client" where
  "client_run c es = fold client_step es (new_client c)"

end
