(* ===== verification/Minecraft_Client_Props.thy ===== *)
theory Minecraft_Client_Props
  imports Minecraft_Client
begin

text \<open>
  What the supervisor of a bot guarantees: the state machine stays consistent in every run, no
  controller is leaked, a manual stop is final, failures lead to a bounded reconnect, and only
  permitted slash commands are ever written to a bot.
\<close>

named_theorems grows_intros \<open>one rule per operation: it only adds harmless output\<close>

section \<open>Frame lemmas of the helpers\<close>

lemma put_fields [simp]:
  "child (put x s) = child s" "next_child (put x s) = next_child s" "status (put x s) = status s"
  "reconnect_at (put x s) = reconnect_at s" "restart_at (put x s) = restart_at s"
  "hang_at (put x s) = hang_at s" "watchdog_at (put x s) = watchdog_at s"
  "manually_stopped (put x s) = manually_stopped s" "connection_ended (put x s) = connection_ended s"
  "connected_since (put x s) = connected_since s" "cfg (put x s) = cfg s"
  "reconnect_policy (put x s) = reconnect_policy s" "last_control_failure_at (put x s) = last_control_failure_at s"
  "last_heartbeat_at (put x s) = last_heartbeat_at s" "last_error (put x s) = last_error s"
  "world_restart_at (put x s) = world_restart_at s"
  "outs (put x s) = outs s @ [x]"
  by (simp_all add: put_def)

lemma emit_console_fields [simp]:
  "child (emit_console t m s) = child s" "next_child (emit_console t m s) = next_child s"
  "status (emit_console t m s) = status s"
  "reconnect_at (emit_console t m s) = reconnect_at s" "restart_at (emit_console t m s) = restart_at s"
  "hang_at (emit_console t m s) = hang_at s" "watchdog_at (emit_console t m s) = watchdog_at s"
  "manually_stopped (emit_console t m s) = manually_stopped s"
  "connection_ended (emit_console t m s) = connection_ended s"
  "connected_since (emit_console t m s) = connected_since s" "cfg (emit_console t m s) = cfg s"
  "reconnect_policy (emit_console t m s) = reconnect_policy s"
  "last_control_failure_at (emit_console t m s) = last_control_failure_at s"
  "last_heartbeat_at (emit_console t m s) = last_heartbeat_at s"
  "last_error (emit_console t m s) = last_error s" "world_restart_at (emit_console t m s) = world_restart_at s"
  "outs (emit_console t m s) = outs s @ [O_console t m]"
  by (simp_all add: emit_console_def)

lemma emit_status_fields [simp]:
  "child (emit_status s) = child s" "next_child (emit_status s) = next_child s" "status (emit_status s) = status s"
  "reconnect_at (emit_status s) = reconnect_at s" "restart_at (emit_status s) = restart_at s"
  "hang_at (emit_status s) = hang_at s" "watchdog_at (emit_status s) = watchdog_at s"
  "manually_stopped (emit_status s) = manually_stopped s" "connection_ended (emit_status s) = connection_ended s"
  "connected_since (emit_status s) = connected_since s" "cfg (emit_status s) = cfg s"
  "reconnect_policy (emit_status s) = reconnect_policy s"
  "last_control_failure_at (emit_status s) = last_control_failure_at s"
  "last_heartbeat_at (emit_status s) = last_heartbeat_at s"
  "last_error (emit_status s) = last_error s" "world_restart_at (emit_status s) = world_restart_at s"
  "outs (emit_status s) = outs s @ [O_status (get_status s)]"
  by (simp_all add: emit_status_def)

lemma send_to_bot_eq:
  "send_to_bot p s = (can_send s, if can_send s then put (O_write (ct_id (the (child s))) p) s else s)"
  by (auto simp: send_to_bot_def can_send_def split: option.splits pipe.splits)

lemma sync_fields [simp]:
  "child (sync_periodic_crouch_checks e s) = child s"
  "next_child (sync_periodic_crouch_checks e s) = next_child s"
  "status (sync_periodic_crouch_checks e s) = status s"
  "reconnect_at (sync_periodic_crouch_checks e s) = reconnect_at s"
  "restart_at (sync_periodic_crouch_checks e s) = restart_at s"
  "hang_at (sync_periodic_crouch_checks e s) = hang_at s"
  "watchdog_at (sync_periodic_crouch_checks e s) = watchdog_at s"
  "manually_stopped (sync_periodic_crouch_checks e s) = manually_stopped s"
  "connection_ended (sync_periodic_crouch_checks e s) = connection_ended s"
  "connected_since (sync_periodic_crouch_checks e s) = connected_since s"
  "cfg (sync_periodic_crouch_checks e s) = cfg s"
  "reconnect_policy (sync_periodic_crouch_checks e s) = reconnect_policy s"
  "last_control_failure_at (sync_periodic_crouch_checks e s) = last_control_failure_at s"
  "last_heartbeat_at (sync_periodic_crouch_checks e s) = last_heartbeat_at s"
  "last_error (sync_periodic_crouch_checks e s) = last_error s"
  "world_restart_at (sync_periodic_crouch_checks e s) = world_restart_at s"
  by (simp_all add: sync_periodic_crouch_checks_def send_to_bot_eq Let_def)

lemma set_status_fields [simp]:
  "child (set_status e st s) = child s" "next_child (set_status e st s) = next_child s"
  "status (set_status e st s) = st"
  "reconnect_at (set_status e st s) = reconnect_at s" "restart_at (set_status e st s) = restart_at s"
  "hang_at (set_status e st s) = hang_at s" "watchdog_at (set_status e st s) = watchdog_at s"
  "manually_stopped (set_status e st s) = manually_stopped s"
  "connection_ended (set_status e st s) = connection_ended s"
  "connected_since (set_status e st s) = connected_since s" "cfg (set_status e st s) = cfg s"
  "reconnect_policy (set_status e st s) = reconnect_policy s"
  "last_control_failure_at (set_status e st s) = last_control_failure_at s"
  "last_heartbeat_at (set_status e st s) = last_heartbeat_at s"
  "last_error (set_status e st s) = last_error s" "world_restart_at (set_status e st s) = world_restart_at s"
  by (simp_all add: set_status_def)

lemmas timer_defs = clear_reconnect_timer_def clear_restart_timer_def clear_hang_timer_def
  clear_online_watchdog_def start_online_watchdog_def

lemma teardown_fields [simp]:
  "child (teardown_subprocess s) = None" "next_child (teardown_subprocess s) = next_child s"
  "status (teardown_subprocess s) = status s"
  "reconnect_at (teardown_subprocess s) = reconnect_at s" "restart_at (teardown_subprocess s) = restart_at s"
  "hang_at (teardown_subprocess s) = hang_at s" "watchdog_at (teardown_subprocess s) = None"
  "manually_stopped (teardown_subprocess s) = manually_stopped s"
  "connection_ended (teardown_subprocess s) = connection_ended s"
  "connected_since (teardown_subprocess s) = None" "cfg (teardown_subprocess s) = cfg s"
  "reconnect_policy (teardown_subprocess s) = reconnect_policy s"
  "last_error (teardown_subprocess s) = last_error s"
  by (simp_all add: teardown_subprocess_def Let_def timer_defs split: option.splits)

section \<open>What is written\<close>

text \<open>
  \<open>grows P s s'\<close>: the outputs of \<open>s'\<close> are those of \<open>s\<close> followed by new ones that all satisfy \<open>P\<close>.
\<close>

definition grows :: "(client_output \<Rightarrow> bool) \<Rightarrow> client \<Rightarrow> client \<Rightarrow> bool" where
  "grows P s s' \<longleftrightarrow> (\<exists>xs. outs s' = outs s @ xs \<and> list_all P xs)"

lemma grows_same [intro]: "outs s' = outs s \<Longrightarrow> grows P s s'"
  by (simp add: grows_def)

lemma grows_trans [trans]: "grows P s t \<Longrightarrow> grows P t u \<Longrightarrow> grows P s u"
  by (auto simp: grows_def)

lemma grows_cong: "grows P s t \<Longrightarrow> outs u = outs t \<Longrightarrow> grows P s u"
  by (simp add: grows_def)

lemma grows_start: "grows P s' t \<Longrightarrow> outs s' = outs s \<Longrightarrow> grows P s t"
  by (simp add: grows_def)

lemma grows_put: "grows P s t \<Longrightarrow> P x \<Longrightarrow> grows P s (put x t)"
  by (auto simp: grows_def)

lemma grows_console: "grows P s t \<Longrightarrow> P (O_console ty m) \<Longrightarrow> grows P s (emit_console ty m t)"
  by (auto simp: grows_def)

lemma grows_status: "grows P s t \<Longrightarrow> (\<And>x. P (O_status x)) \<Longrightarrow> grows P s (emit_status t)"
  by (auto simp: grows_def)

lemma grows_send: "grows P s t \<Longrightarrow> (\<And>k. P (O_write k p)) \<Longrightarrow> grows P s (snd (send_to_bot p t))"
  by (auto simp: grows_def send_to_bot_eq)

lemma grows_sync:
  assumes "\<And>k. P (O_write k P_check_crouch)"
  shows "grows P s (sync_periodic_crouch_checks e s)"
  using assms by (auto simp: grows_def sync_periodic_crouch_checks_def send_to_bot_eq Let_def)

lemma grows_set_status:
  assumes "grows P s t" and "\<And>k. P (O_write k P_check_crouch)" and "\<And>x. P (O_status x)"
  shows "grows P s (set_status e st t)"
proof -
  have "grows P (t\<lparr>status := st\<rparr>) (sync_periodic_crouch_checks e (t\<lparr>status := st\<rparr>))"
    using assms(2) by (rule grows_sync)
  then have "grows P t (sync_periodic_crouch_checks e (t\<lparr>status := st\<rparr>))" by (rule grows_start) simp
  then show ?thesis using assms(1,3) by (auto simp: set_status_def intro: grows_status grows_trans)
qed

lemma grows_teardown:
  assumes "\<And>k. P (O_write k P_disconnect)" and "\<And>k. P (O_terminate k)" and "\<And>x. P (O_stop_remote x)"
  shows "grows P s (teardown_subprocess s)"
  using assms by (auto simp: grows_def teardown_subprocess_def Let_def timer_defs split: option.splits)


section \<open>The invariant of the state machine\<close>

text \<open>
  A client has a controller exactly while an attempt is open; the reconnect timer runs only while the
  status is \<open>RECONNECTING\<close>, the restart timer only while it is \<open>OFFLINE\<close>; a manual stop leaves neither.
\<close>

definition idle_ok :: "client \<Rightarrow> bool" where
  "idle_ok s \<longleftrightarrow> status s \<in> {OFFLINE, RECONNECTING, ERROR} \<and> hang_at s = None \<and> watchdog_at s = None
     \<and> connected_since s = None
     \<and> (status s = RECONNECTING \<longleftrightarrow> reconnect_at s \<noteq> None)
     \<and> (restart_at s \<noteq> None \<longrightarrow> status s = OFFLINE)
     \<and> (manually_stopped s \<longrightarrow> status s = OFFLINE \<and> restart_at s = None)"

definition attached_ok :: "client \<Rightarrow> controller \<Rightarrow> bool" where
  "attached_ok s c \<longleftrightarrow> status s \<in> {CONNECTING, ONLINE, RECONNECTING} \<and> \<not> connection_ended s
     \<and> \<not> manually_stopped s \<and> reconnect_at s = None \<and> restart_at s = None
     \<and> watchdog_at s \<noteq> None \<and> ct_id c < next_child s"

definition state_ok :: "client \<Rightarrow> bool" where
  "state_ok s \<longleftrightarrow> (case child s of None \<Rightarrow> idle_ok s | Some c \<Rightarrow> attached_ok s c)"

definition no_orphans :: "client \<Rightarrow> bool" where
  "no_orphans s \<longleftrightarrow> (\<forall>k < next_child s. is_current k s \<or> O_terminate k \<in> set (outs s))"

definition client_inv :: "client \<Rightarrow> bool" where
  "client_inv s \<longleftrightarrow> state_ok s \<and> no_orphans s"

text \<open>The fields the invariant reads, so that an operation that leaves them alone keeps it.\<close>

definition core_of :: "client \<Rightarrow> _" where
  "core_of s = (map_option ct_id (child s), next_child s, status s, reconnect_at s, restart_at s,
     child s \<noteq> None \<or> hang_at s = None, watchdog_at s = None, manually_stopped s, connection_ended s,
     child s \<noteq> None \<or> connected_since s = None)"

lemma client_inv_core:
  assumes "client_inv s" and "core_of s' = core_of s" and "set (outs s) \<subseteq> set (outs s')"
  shows "client_inv s'"
  using assms unfolding client_inv_def state_ok_def no_orphans_def is_current_def core_of_def
  by (cases "child s"; cases "child s'") (auto simp: idle_ok_def attached_ok_def)

lemma grows_outs: "grows P s s' \<Longrightarrow> set (outs s) \<subseteq> set (outs s')"
  by (auto simp: grows_def)

lemma inv_put [intro]: "client_inv s \<Longrightarrow> client_inv (put x s)"
  by (erule client_inv_core) (auto simp: core_of_def)

lemma inv_console [intro]: "client_inv s \<Longrightarrow> client_inv (emit_console t m s)"
  by (erule client_inv_core) (auto simp: core_of_def)

lemma inv_status [intro]: "client_inv s \<Longrightarrow> client_inv (emit_status s)"
  by (erule client_inv_core) (auto simp: core_of_def)

lemma inv_send [intro]: "client_inv s \<Longrightarrow> client_inv (snd (send_to_bot p s))"
  by (auto simp: send_to_bot_eq)

lemma sync_outs: "set (outs s) \<subseteq> set (outs (sync_periodic_crouch_checks e s))"
  by (rule grows_outs [of "\<lambda>_. True"], rule grows_sync) simp

lemma inv_sync [intro]: "client_inv s \<Longrightarrow> client_inv (sync_periodic_crouch_checks e s)"
  by (erule client_inv_core) (use sync_outs in \<open>auto simp: core_of_def\<close>)

lemma set_status_outs: "set (outs s) \<subseteq> set (outs (set_status e st s))"
  by (rule grows_outs [of "\<lambda>_. True"], rule grows_set_status) auto

lemma teardown_outs: "set (outs s) \<subseteq> set (outs (teardown_subprocess s))"
  by (rule grows_outs [of "\<lambda>_. True"], rule grows_teardown) auto

lemma teardown_terminates: "is_current k s \<Longrightarrow> O_terminate k \<in> set (outs (teardown_subprocess s))"
  by (auto simp: is_current_def teardown_subprocess_def Let_def timer_defs split: option.splits)

lemma teardown_no_orphans: "no_orphans s \<Longrightarrow> no_orphans (teardown_subprocess s)"
  using teardown_outs teardown_terminates unfolding no_orphans_def by fastforce

lemma no_orphans_mono:
  "no_orphans s \<Longrightarrow> next_child s' = next_child s \<Longrightarrow> child s' = child s
   \<Longrightarrow> set (outs s) \<subseteq> set (outs s') \<Longrightarrow> no_orphans s'"
  by (auto simp: no_orphans_def is_current_def)

lemma set_status_no_orphans [intro]: "no_orphans s \<Longrightarrow> no_orphans (set_status e st s)"
  by (erule no_orphans_mono) (use set_status_outs in auto)

lemma sync_no_orphans [intro]: "no_orphans s \<Longrightarrow> no_orphans (sync_periodic_crouch_checks e s)"
  by (erule no_orphans_mono) (use sync_outs in auto)

lemma send_fields [simp]:
  "child (snd (send_to_bot p s)) = child s" "next_child (snd (send_to_bot p s)) = next_child s"
  "status (snd (send_to_bot p s)) = status s" "reconnect_at (snd (send_to_bot p s)) = reconnect_at s"
  "restart_at (snd (send_to_bot p s)) = restart_at s" "hang_at (snd (send_to_bot p s)) = hang_at s"
  "watchdog_at (snd (send_to_bot p s)) = watchdog_at s"
  "manually_stopped (snd (send_to_bot p s)) = manually_stopped s"
  "connection_ended (snd (send_to_bot p s)) = connection_ended s"
  "connected_since (snd (send_to_bot p s)) = connected_since s"
  "cfg (snd (send_to_bot p s)) = cfg s" "last_error (snd (send_to_bot p s)) = last_error s"
  by (simp_all add: send_to_bot_eq)

text \<open>A failed attempt ends idle: stopped, given up, or waiting for the reconnect timer.\<close>

lemma failure_fields:
  assumes "\<not> connection_ended s"
  shows "child (handle_connection_failure e r s) = None"
    and "next_child (handle_connection_failure e r s) = next_child s"
    and "hang_at (handle_connection_failure e r s) = None"
    and "watchdog_at (handle_connection_failure e r s) = None"
    and "connected_since (handle_connection_failure e r s) = None"
    and "manually_stopped (handle_connection_failure e r s) = manually_stopped s"
    and "restart_at (handle_connection_failure e r s) = restart_at s"
    and "connection_ended (handle_connection_failure e r s)"
    and "status (handle_connection_failure e r s) = (if manually_stopped s then OFFLINE
           else if rc_auto_reconnect (cfg s) then RECONNECTING else ERROR)"
    and "reconnect_at (handle_connection_failure e r s) =
           (if manually_stopped s \<or> \<not> rc_auto_reconnect (cfg s) then reconnect_at s
            else Some (now e + fst (reconnect_delay r (case connected_since s of None \<Rightarrow> 0 | Some t \<Rightarrow> now e - t)
                         (reconnect_policy s))))"
  using assms
  by (simp_all add: handle_connection_failure_def Let_def timer_defs case_prod_unfold)

lemma no_orphans_frame [intro]:
  "no_orphans t \<Longrightarrow> no_orphans (t\<lparr>reconnect_at := x\<rparr>)"
  "no_orphans t \<Longrightarrow> no_orphans (t\<lparr>reconnect_policy := p\<rparr>)"
  "no_orphans t \<Longrightarrow> no_orphans (emit_console ty m t)"
  by (auto simp: no_orphans_def is_current_def)

lemma failure_no_orphans:
  assumes "no_orphans s"
  shows "no_orphans (handle_connection_failure e r s)"
proof -
  let ?t = "teardown_subprocess (clear_hang_timer (s\<lparr>connection_ended := True, last_error := Some r\<rparr>))"
  have t: "no_orphans ?t"
    by (rule teardown_no_orphans) (use assms in \<open>auto simp: no_orphans_def is_current_def timer_defs\<close>)
  then show ?thesis
    using assms by (auto simp: handle_connection_failure_def Let_def case_prod_unfold)
qed

lemma failure_inv:
  assumes "no_orphans s" and "reconnect_at s = None" and "restart_at s = None" and "\<not> connection_ended s"
    and "\<not> manually_stopped s"
  shows "client_inv (handle_connection_failure e r s)"
  unfolding client_inv_def state_ok_def idle_ok_def
  using assms by (auto simp: failure_fields intro: failure_no_orphans)

lemma failure_attached [intro]:
  assumes "client_inv s" and "is_current k s"
  shows "client_inv (handle_connection_failure e r s)"
  by (rule failure_inv)
     (use assms in \<open>auto simp: client_inv_def state_ok_def attached_ok_def is_current_def split: option.splits\<close>)


subsection \<open>Every operation keeps it\<close>

lemma spawned_no_orphans:
  assumes "no_orphans s" and "child s = None" and "child s' = Some c" and "ct_id c = next_child s"
    and "next_child s' = Suc (next_child s)" and "set (outs s) \<subseteq> set (outs s')"
  shows "no_orphans s'"
  using assms unfolding no_orphans_def is_current_def by (auto simp: less_Suc_eq)

lemma attempt_inv:
  assumes "no_orphans s" and "child s = None" and "reconnect_at s = None" and "restart_at s = None"
    and "\<not> manually_stopped s"
  shows "client_inv (attempt_connect e r s)"
proof -
  define t where "t = (set_status e (if r then RECONNECTING else CONNECTING)
                 (s\<lparr>connection_ended := False, last_control_failure_at := None\<rparr>))\<lparr>last_error := None\<rparr>"
  have "set (outs s) \<subseteq> set (outs t)"
    unfolding t_def using set_status_outs [of "s\<lparr>connection_ended := False, last_control_failure_at := None\<rparr>"] by simp
  then have t: "no_orphans t" "child t = None" "reconnect_at t = None" "restart_at t = None"
    "\<not> manually_stopped t" "\<not> connection_ended t" "status t \<in> {CONNECTING, RECONNECTING}"
    using assms unfolding t_def by (auto simp: no_orphans_def is_current_def)
  show ?thesis
  proof (cases "spawn_error e")
    case (Some m)
    then show ?thesis
      using failure_inv [OF t(1,3,4,6,5)] by (simp add: attempt_connect_def flip: t_def)
  next
    case None
    let ?s = "attempt_connect e r s"
    have c: "child ?s = Some \<lparr>ct_id = next_child t, ct_pipe = Writable, ct_exited = False\<rparr>"
      and n: "next_child ?s = Suc (next_child t)" and o: "set (outs t) \<subseteq> set (outs ?s)"
      using None by (auto simp: attempt_connect_def Let_def timer_defs send_to_bot_eq simp flip: t_def)
    have "state_ok ?s"
      using None t unfolding state_ok_def c
      by (auto simp: attached_ok_def attempt_connect_def Let_def timer_defs client_ms simp flip: t_def)
    moreover have "no_orphans ?s"
      by (rule spawned_no_orphans [OF t(1,2) c _ n o]) simp
    ultimately show ?thesis by (simp add: client_inv_def)
  qed
qed

lemma idle_child: "client_inv s \<Longrightarrow> status s = OFFLINE \<or> status s = ERROR \<Longrightarrow> child s = None"
  by (auto simp: client_inv_def state_ok_def attached_ok_def split: option.splits)

lemma inv_no_orphans [dest]: "client_inv s \<Longrightarrow> no_orphans s"
  by (simp add: client_inv_def)

lemma connect_inv [intro]:
  assumes "client_inv s"
  shows "client_inv (connect e s)"
proof (cases "(status s = OFFLINE \<or> status s = ERROR) \<and> restart_at s = None")
  case True
  have "no_orphans (clear_reconnect_timer
          (s\<lparr>manually_stopped := False, reconnect_policy := policy_reset (reconnect_policy s)\<rparr>))"
    using inv_no_orphans [OF assms] by (simp add: timer_defs no_orphans_def is_current_def)
  then show ?thesis
    using True idle_child [OF assms] by (auto simp: connect_def timer_defs intro!: attempt_inv)
qed (use assms in \<open>auto simp: connect_def\<close>)

lemma stopped_inv:
  assumes "no_orphans s" and "reconnect_at s = None" and "hang_at s = None"
    and "manually_stopped s \<Longrightarrow> restart_at s = None"
  shows "client_inv (set_status e OFFLINE (teardown_subprocess s))"
  using assms teardown_no_orphans [of s]
  by (auto simp: client_inv_def state_ok_def idle_ok_def)

lemma disconnect_inv [intro]: "no_orphans s \<Longrightarrow> client_inv (disconnect e s)"
  unfolding disconnect_def
  by (rule stopped_inv) (use sync_outs [of "s\<lparr>manually_stopped := True\<rparr>" e] in
        \<open>auto simp: timer_defs no_orphans_def is_current_def\<close>)

lemma dispose_inv [intro]: "client_inv s \<Longrightarrow> client_inv (dispose e s)"
  unfolding dispose_def by (rule disconnect_inv) (auto simp: client_inv_def no_orphans_def is_current_def)

lemma restart_at_inv:
  "client_inv s \<Longrightarrow> status s = OFFLINE \<Longrightarrow> \<not> manually_stopped s \<Longrightarrow> client_inv (s\<lparr>restart_at := x\<rparr>)"
  by (frule idle_child, blast, simp add: client_inv_def state_ok_def idle_ok_def no_orphans_def is_current_def)

lemma restart_inv [intro]: "client_inv s \<Longrightarrow> client_inv (restart e s)"
  unfolding restart_def
  by (rule restart_at_inv; (rule inv_console, rule stopped_inv)?)
     (auto simp: timer_defs client_inv_def no_orphans_def is_current_def)

lemma update_config_inv [intro]: "client_inv s \<Longrightarrow> client_inv (update_config e c s)"
proof -
  assume "client_inv s"
  then have "client_inv (s\<lparr>cfg := c\<rparr>)" by (rule client_inv_core) (auto simp: core_of_def)
  then show ?thesis by (auto simp: update_config_def Let_def)
qed

lemma send_command_inv [intro]: "client_inv s \<Longrightarrow> client_inv (snd (send_command c s))"
  by (auto simp: send_command_def send_to_bot_eq)

lemma clean_spawner_inv [intro]: "client_inv s \<Longrightarrow> client_inv (snd (clean_spawner s))"
  by (auto simp: clean_spawner_def)

text \<open>Fields outside the core.\<close>

lemma inv_frame [intro]:
  "client_inv s \<Longrightarrow> client_inv (s\<lparr>last_heartbeat_at := i\<rparr>)"
  "client_inv s \<Longrightarrow> client_inv (s\<lparr>last_control_failure_at := oi\<rparr>)"
  "client_inv s \<Longrightarrow> client_inv (s\<lparr>last_control_failure_at := oi, last_heartbeat_at := i\<rparr>)"
  "client_inv s \<Longrightarrow> client_inv (s\<lparr>world_restart_at := oi\<rparr>)"
  "client_inv s \<Longrightarrow> client_inv (s\<lparr>pending_restart_crouch_check := b\<rparr>)"
  "client_inv s \<Longrightarrow> client_inv (s\<lparr>pending_periodic_crouch_check := b\<rparr>)"
  "client_inv s \<Longrightarrow> client_inv (s\<lparr>periodic_crouch_at := oi\<rparr>)"
  "client_inv s \<Longrightarrow> client_inv (s\<lparr>restart_crouch_timer := ot\<rparr>)"
  by (erule client_inv_core, auto simp: core_of_def)+

lemma schedule_crouch_inv [intro]: "client_inv s \<Longrightarrow> client_inv (schedule_restart_crouch_checks e wr s)"
  by (erule client_inv_core) (auto simp: core_of_def schedule_restart_crouch_checks_def)

lemma schedule_crouch_child [simp]: "child (schedule_restart_crouch_checks e wr s) = child s"
  by (simp add: schedule_restart_crouch_checks_def)

lemma send_crouch_inv [intro]: "client_inv s \<Longrightarrow> client_inv (snd (send_restart_crouch_check s))"
  by (auto simp: send_restart_crouch_check_def)

lemma announce_inv [intro]: "client_inv s \<Longrightarrow> client_inv (announce_restart e m s)"
  by (auto simp: announce_restart_def Let_def split: option.splits prod.splits)

lemma announce_child [simp]: "child (announce_restart e m s) = child s"
  by (simp add: announce_restart_def Let_def split: option.splits prod.splits)

lemma is_current_cong: "child s = child t \<Longrightarrow> is_current k s = is_current k t"
  by (simp add: is_current_def)

lemma attached_frame:
  assumes "client_inv s" and "is_current k s" and "child s' = child s" and "next_child s' = next_child s"
    and "status s' \<in> {CONNECTING, ONLINE, RECONNECTING}" and "reconnect_at s' = reconnect_at s"
    and "restart_at s' = restart_at s" and "watchdog_at s' = watchdog_at s"
    and "manually_stopped s' = manually_stopped s" and "connection_ended s' = connection_ended s"
    and "set (outs s) \<subseteq> set (outs s')"
  shows "client_inv s'"
  using assms
  by (auto simp: client_inv_def state_ok_def attached_ok_def no_orphans_def is_current_def split: option.splits)

lemma attached_status: "client_inv s \<Longrightarrow> is_current k s \<Longrightarrow> status s \<in> {CONNECTING, ONLINE, RECONNECTING}"
  by (auto simp: client_inv_def state_ok_def attached_ok_def is_current_def split: option.splits)


lemma sent_crouch_eq:
  "send_restart_crouch_check s =
     (if status s = ONLINE \<and> rc_crouch (cfg s) then send_to_bot P_check_crouch s else (False, s))"
  by (simp add: send_restart_crouch_check_def)

lemma on_spawn_inv:
  assumes "client_inv s" and "is_current k s"
  shows "client_inv (on_spawn e s)"
proof -
  define t where "t = emit_console SYSTEM (js ''Spawned into the world'')
                (set_status e ONLINE
                  ((clear_hang_timer s)\<lparr>last_control_failure_at := None, last_heartbeat_at := now e,
                     connected_since := Some (now e), msa_sign_in := None, last_error := None\<rparr>))"
  have "client_inv t"
    by (rule attached_frame [OF assms])
       (use set_status_outs [of "(clear_hang_timer s)\<lparr>last_control_failure_at := None,
          last_heartbeat_at := now e, connected_since := Some (now e), msa_sign_in := None,
          last_error := None\<rparr>" e ONLINE] in \<open>auto simp: t_def timer_defs\<close>)
  then have "client_inv (snd (send_restart_crouch_check t))" by (rule send_crouch_inv)
  then show ?thesis
    using \<open>client_inv t\<close>
    by (auto simp: on_spawn_def Let_def case_prod_unfold simp flip: t_def split: bool.splits)
qed

lemma on_msa_code_inv: "client_inv s \<Longrightarrow> is_current k s \<Longrightarrow> client_inv (on_msa_code e u c x s)"
  by (rule attached_frame [where s = s and k = k])
     (use attached_status in \<open>auto simp: on_msa_code_def timer_defs\<close>)

lemma on_profile_inv: "client_inv s \<Longrightarrow> is_current k s \<Longrightarrow> client_inv (on_profile e u c s)"
  by (rule attached_frame [where s = s and k = k])
     (use attached_status in \<open>auto simp: on_profile_def timer_defs\<close>)

lemma on_chat_inv:
  assumes "client_inv s" and "is_current k s"
  shows "client_inv (on_chat e who m s)"
proof -
  have "is_current k (announce_restart e c s)" for c
    using assms(2) by (simp add: is_current_def)
  moreover have "is_current k (put x t)" "is_current k (emit_console ty n t)" if "is_current k t" for x t ty n
    using that by (simp_all add: is_current_def)
  ultimately show ?thesis
    using assms by (auto simp: on_chat_def Let_def split: option.splits
        intro!: failure_attached [of _ k] inv_console inv_put announce_inv)
qed

lemma on_control_status_inv: "client_inv s \<Longrightarrow> client_inv (on_control_status e a m s)"
  by (auto simp: on_control_status_def)

lemma on_sell_multipliers_inv: "client_inv s \<Longrightarrow> client_inv (on_sell_multipliers en s)"
  by (auto simp: on_sell_multipliers_def split: option.splits)

lemma current_console [simp]: "is_current k (emit_console ty m s) = is_current k s"
  by (simp add: is_current_def)

lemma handle_bot_event_inv:
  assumes "client_inv s" and "is_current k s"
  shows "client_inv (handle_bot_event e ev s)"
  using assms
  by (cases ev) (auto simp: Let_def intro: on_msa_code_inv on_profile_inv on_spawn_inv on_chat_inv
      on_control_status_inv on_sell_multipliers_inv failure_attached [of _ k])

lemma on_line_inv: "client_inv s \<Longrightarrow> client_inv (on_line e k ev s)"
  by (auto simp: on_line_def intro: handle_bot_event_inv)

lemma on_pipe_error_inv: "client_inv s \<Longrightarrow> client_inv (on_pipe_error e k m s)"
  by (auto simp: on_pipe_error_def intro: failure_attached)

lemma current_not_stopped: "client_inv s \<Longrightarrow> is_current k s \<Longrightarrow> \<not> manually_stopped s"
  by (auto simp: client_inv_def state_ok_def attached_ok_def is_current_def split: option.splits)

lemma on_close_inv: "client_inv s \<Longrightarrow> client_inv (on_close e k code s)"
  by (auto simp: on_close_def dest: current_not_stopped intro!: failure_attached [of _ k])

lemma on_error_inv: "client_inv s \<Longrightarrow> client_inv (on_error e k m s)"
  by (auto simp: on_error_def intro: failure_attached)

lemma on_pipe_inv: "client_inv s \<Longrightarrow> client_inv (on_pipe k p s)"
  by (erule client_inv_core) (auto simp: core_of_def on_pipe_def split: option.splits)

lemma pending_timer:
  assumes "client_inv s" and "reconnect_at s \<noteq> None \<or> restart_at s \<noteq> None"
  shows "child s = None" and "reconnect_at s = None \<or> restart_at s = None"
    and "\<not> manually_stopped s"
  using assms by (cases "child s"; auto simp: client_inv_def state_ok_def attached_ok_def idle_ok_def)+

lemma fire_reconnect_inv:
  assumes "client_inv s"
  shows "client_inv (fire_reconnect e s)"
proof (cases "reconnect_at s")
  case (Some t)
  have "no_orphans (s\<lparr>reconnect_at := None\<rparr>)" using assms by auto
  moreover have "restart_at s = None" "child s = None" "\<not> manually_stopped s"
    using pending_timer [OF assms] Some by auto
  ultimately show ?thesis using assms Some by (auto simp: fire_reconnect_def intro!: attempt_inv)
qed (use assms in \<open>simp add: fire_reconnect_def\<close>)

lemma fire_restart_inv:
  assumes "client_inv s"
  shows "client_inv (fire_restart e s)"
proof (cases "restart_at s")
  case (Some t)
  have "no_orphans (s\<lparr>restart_at := None\<rparr>)"
    using assms by (simp add: client_inv_def no_orphans_def is_current_def)
  moreover have "reconnect_at s = None" "child s = None" "\<not> manually_stopped s"
    using pending_timer [OF assms] Some by auto
  ultimately show ?thesis using assms Some by (auto simp: fire_restart_def intro!: attempt_inv)
qed (use assms in \<open>simp add: fire_restart_def\<close>)

lemma hang_attached: "client_inv s \<Longrightarrow> hang_at s \<noteq> None \<Longrightarrow> \<exists>k. is_current k s"
  by (auto simp: client_inv_def state_ok_def idle_ok_def is_current_def split: option.splits)

lemma inv_hang [intro]: "client_inv s \<Longrightarrow> client_inv (s\<lparr>hang_at := None\<rparr>)"
  by (auto simp: client_inv_def state_ok_def idle_ok_def attached_ok_def no_orphans_def is_current_def
      split: option.splits)

lemma fire_hang_inv:
  assumes "client_inv s"
  shows "client_inv (fire_hang e s)"
proof (cases "hang_at s")
  case (Some th)
  then have "\<exists>k. is_current k s" by (intro hang_attached [OF assms]) simp
  then obtain k where "is_current k s" ..
  then have "is_current k (s\<lparr>hang_at := None\<rparr>)" by (simp add: is_current_def)
  then show ?thesis
    using assms Some by (auto simp: fire_hang_def Let_def split: prod.splits hang_kind.splits
        intro!: failure_attached [of _ k])
qed (use assms in \<open>simp add: fire_hang_def\<close>)

lemma online_attached: "client_inv s \<Longrightarrow> status s = ONLINE \<Longrightarrow> \<exists>k. is_current k s"
  by (auto simp: client_inv_def state_ok_def idle_ok_def is_current_def split: option.splits)

lemma inv_watchdog: "client_inv s \<Longrightarrow> watchdog_at s \<noteq> None \<Longrightarrow> client_inv (s\<lparr>watchdog_at := Some t\<rparr>)"
  by (erule client_inv_core) (auto simp: core_of_def)

lemma fire_watchdog_inv:
  assumes "client_inv s"
  shows "client_inv (fire_watchdog e s)"
proof (cases "watchdog_at s")
  case (Some t)
  define u where "u = s\<lparr>watchdog_at := Some (now e + ONLINE_WATCHDOG_INTERVAL_MS)\<rparr>"
  have u: "client_inv u" using inv_watchdog [OF assms] Some by (simp add: u_def)
  then have "client_inv (handle_connection_failure e r (emit_console ty m u))" if "status u = ONLINE" for r ty m
    using online_attached [OF u that] by (auto intro!: failure_attached)
  then show ?thesis
    using assms u Some by (simp add: fire_watchdog_def Let_def flip: u_def)
qed (use assms in \<open>simp add: fire_watchdog_def\<close>)

lemma fire_restart_crouch_inv:
  assumes "client_inv s"
  shows "client_inv (fire_restart_crouch e s)"
proof -
  have "client_inv (snd (send_restart_crouch_check s))" using assms by blast
  then show ?thesis
    using assms by (auto simp: fire_restart_crouch_def Let_def case_prod_unfold split: option.splits)
qed

lemma fire_periodic_crouch_inv:
  assumes "client_inv s"
  shows "client_inv (fire_periodic_crouch e s)"
proof -
  have "client_inv (snd (send_to_bot P_check_crouch (s\<lparr>periodic_crouch_at := x\<rparr>)))" for x
    using assms by blast
  then show ?thesis
    using assms by (auto simp: fire_periodic_crouch_def Let_def case_prod_unfold split: option.splits)
qed

lemma client_step_inv: "client_inv s \<Longrightarrow> client_inv (client_step ev s)"
  by (cases ev; cases "snd ev")
     (auto intro: on_line_inv on_pipe_error_inv on_close_inv on_error_inv on_pipe_inv fire_reconnect_inv
       fire_restart_inv fire_hang_inv fire_watchdog_inv fire_restart_crouch_inv fire_periodic_crouch_inv)

interpretation minecraft_client: stepwise client_step client_inv
  by unfold_locales (rule client_step_inv)

lemma new_client_inv: "client_inv (new_client c)"
  by (simp add: client_inv_def state_ok_def idle_ok_def no_orphans_def new_client_def)

lemma client_run_inv: "client_inv (client_run c es)"
  unfolding client_run_def by (rule minecraft_client.run_inv [OF new_client_inv])


section \<open>What each step may output\<close>

text \<open>
  Everything but the creation of a controller and a chat line for the server is \<open>harmless\<close>.
\<close>

fun harmless :: "client_output \<Rightarrow> bool" where
  "harmless (O_spawned k) = False"
| "harmless (O_write k (P_chat t)) = False"
| "harmless _ = True"

lemma harmless_write [simp]: "harmless (O_write k p) \<longleftrightarrow> (\<forall>t. p \<noteq> P_chat t)"
  by (cases p) auto

lemma harmless_mono: "grows harmless s t \<Longrightarrow> (\<And>x. harmless x \<Longrightarrow> P x) \<Longrightarrow> grows P s t"
  by (auto simp: grows_def list.pred_set)

lemma harmless_sync [grows_intros]: "grows harmless s t \<Longrightarrow> grows harmless s (sync_periodic_crouch_checks e t)"
  by (erule grows_trans, rule grows_sync) simp

lemma harmless_set_status [grows_intros]: "grows harmless s t \<Longrightarrow> grows harmless s (set_status e st t)"
  by (rule grows_set_status) simp_all

lemma harmless_teardown [grows_intros]: "grows harmless s t \<Longrightarrow> grows harmless s (teardown_subprocess t)"
  by (erule grows_trans, rule grows_teardown) simp_all

lemma harmless_console [grows_intros]: "grows harmless s t \<Longrightarrow> grows harmless s (emit_console ty m t)"
  by (erule grows_console) simp

lemma harmless_status [grows_intros]: "grows harmless s t \<Longrightarrow> grows harmless s (emit_status t)"
  by (erule grows_status) simp

lemma harmless_put [grows_intros]: "grows harmless s t \<Longrightarrow> harmless x \<Longrightarrow> grows harmless s (put x t)"
  by (rule grows_put)

lemma harmless_send [grows_intros]: "grows harmless s t \<Longrightarrow> (\<And>c. p \<noteq> P_chat c) \<Longrightarrow> grows harmless s (snd (send_to_bot p t))"
  by (erule grows_send) simp

lemma harmless_frame [grows_intros]:
  "grows P s t \<Longrightarrow> grows P s (t\<lparr>status := st\<rparr>)" "grows P s t \<Longrightarrow> grows P s (t\<lparr>reconnect_at := x\<rparr>)"
  "grows P s t \<Longrightarrow> grows P s (t\<lparr>restart_at := x\<rparr>)" "grows P s t \<Longrightarrow> grows P s (t\<lparr>hang_at := h\<rparr>)"
  "grows P s t \<Longrightarrow> grows P s (t\<lparr>watchdog_at := x\<rparr>)" "grows P s t \<Longrightarrow> grows P s (t\<lparr>last_error := le\<rparr>)"
  "grows P s t \<Longrightarrow> grows P s (t\<lparr>reconnect_policy := pol\<rparr>)"
  "grows P s t \<Longrightarrow> grows P s (t\<lparr>connection_ended := b\<rparr>)"
  "grows P s t \<Longrightarrow> grows P s (t\<lparr>manually_stopped := b\<rparr>)"
  "grows P s t \<Longrightarrow> grows P s (t\<lparr>pending_restart_crouch_check := b\<rparr>)"
  "grows P s t \<Longrightarrow> grows P s (t\<lparr>pending_periodic_crouch_check := b\<rparr>)"
  "grows P s t \<Longrightarrow> grows P s (t\<lparr>periodic_crouch_at := x\<rparr>)"
  "grows P s t \<Longrightarrow> grows P s (t\<lparr>restart_crouch_timer := rt\<rparr>)"
  "grows P s t \<Longrightarrow> grows P s (t\<lparr>last_control_failure_at := x\<rparr>)"
  "grows P s t \<Longrightarrow> grows P s (t\<lparr>last_heartbeat_at := i\<rparr>)"
  "grows P s t \<Longrightarrow> grows P s (t\<lparr>connected_since := x\<rparr>)"
  "grows P s t \<Longrightarrow> grows P s (t\<lparr>msa_sign_in := ms\<rparr>)"
  "grows P s t \<Longrightarrow> grows P s (t\<lparr>authenticated := b\<rparr>)"
  "grows P s t \<Longrightarrow> grows P s (t\<lparr>world_restart_at := x\<rparr>)"
  "grows P s t \<Longrightarrow> grows P s (t\<lparr>child := ch\<rparr>)" "grows P s t \<Longrightarrow> grows P s (t\<lparr>next_child := n\<rparr>)"
  "grows P s t \<Longrightarrow> grows P s (t\<lparr>cfg := c\<rparr>)"
  "grows P s t \<Longrightarrow> grows P s (t\<lparr>last_crouch_restart_at := x\<rparr>)"
  "grows P s t \<Longrightarrow> grows P s (t\<lparr>restart_crouch_window_end := i\<rparr>)"
  by (simp_all add: grows_def)

lemma grows_refl [grows_intros]: "grows P s s"
  by (simp add: grows_def)

lemma harmless_failure [grows_intros]:
  "grows harmless s t \<Longrightarrow> grows harmless s (handle_connection_failure e r t)"
  by (auto simp: handle_connection_failure_def Let_def timer_defs case_prod_unfold intro!: grows_intros)

lemma harmless_crouch [grows_intros]:
  "grows harmless s t \<Longrightarrow> grows harmless s (snd (send_restart_crouch_check t))"
  by (auto simp: send_restart_crouch_check_def intro!: grows_intros)

lemma harmless_schedule [grows_intros]:
  "grows harmless s t \<Longrightarrow> grows harmless s (schedule_restart_crouch_checks e wr t)"
  by (simp add: schedule_restart_crouch_checks_def grows_def)

lemma harmless_announce [grows_intros]: "grows harmless s t \<Longrightarrow> grows harmless s (announce_restart e m t)"
  by (auto simp: announce_restart_def Let_def split: option.splits prod.splits intro!: grows_intros)

lemma harmless_bot_event: "grows harmless s (handle_bot_event e ev s)"
  by (cases ev)
     (auto simp: Let_def on_msa_code_def on_profile_def on_spawn_def on_chat_def on_control_status_def
        on_sell_multipliers_def timer_defs case_prod_unfold split: option.splits bool.splits
        intro!: grows_intros)


definition allowed_output :: "env \<times> client_event \<Rightarrow> client \<Rightarrow> client_output \<Rightarrow> bool" where
  "allowed_output ev s x \<longleftrightarrow> harmless x \<or> x = O_spawned (next_child s)
     \<or> (\<exists>c k. snd ev = E_command c \<and> x = O_write k (P_chat c)
          \<and> is_slash_command c \<and> \<not> is_blocked_afk_command c)"

lemma harmless_allowed: "grows harmless s t \<Longrightarrow> grows (allowed_output ev s) s t"
  by (erule harmless_mono) (simp add: allowed_output_def)

lemma attempt_allowed:
  assumes "grows harmless s0 s" and "next_child s = next_child s0"
  shows "grows (allowed_output ev s0) s0 (attempt_connect e r s)"
proof -
  let ?P = "allowed_output ev s0"
  define t where "t = (set_status e (if r then RECONNECTING else CONNECTING)
                 (s\<lparr>connection_ended := False, last_control_failure_at := None\<rparr>))\<lparr>last_error := None\<rparr>"
  have t: "grows harmless s0 t" "next_child t = next_child s0"
    using assms by (auto simp: t_def intro!: grows_intros)
  show ?thesis
  proof (cases "spawn_error e")
    case (Some m)
    then show ?thesis using t
      by (auto simp: attempt_connect_def simp flip: t_def intro!: harmless_allowed grows_intros)
  next
    case None
    have "grows ?P s0 t" using t by (blast intro: harmless_allowed)
    moreover have "?P (O_spawned (next_child t))" "\<And>k f. ?P (O_write k (P_first f))"
      using t by (simp_all add: allowed_output_def)
    ultimately show ?thesis using None
      by (auto simp: attempt_connect_def Let_def timer_defs simp flip: t_def
          intro!: harmless_frame grows_send grows_put)
  qed
qed

lemma send_command_allowed:
  "grows (allowed_output (e, E_command c) s) s (snd (send_command c s))"
  by (auto simp: send_command_def send_to_bot_eq allowed_output_def intro!: grows_put grows_console)

lemma fire_hang_harmless: "grows harmless s (fire_hang e s)"
  by (auto simp: fire_hang_def Let_def split: option.splits hang_kind.splits intro!: grows_intros)

lemma fire_watchdog_harmless: "grows harmless s (fire_watchdog e s)"
  by (auto simp: fire_watchdog_def Let_def split: option.splits intro!: grows_intros)

lemma fire_restart_crouch_harmless: "grows harmless s (fire_restart_crouch e s)"
  by (auto simp: fire_restart_crouch_def Let_def case_prod_unfold split: option.splits intro!: grows_intros)

lemma fire_periodic_crouch_harmless: "grows harmless s (fire_periodic_crouch e s)"
  by (auto simp: fire_periodic_crouch_def Let_def case_prod_unfold split: option.splits intro!: grows_intros)

lemma step_allowed: "grows (allowed_output ev s) s (client_step ev s)"
proof -
  obtain e k where ev: "ev = (e, k)" by force
  show ?thesis
  proof (cases k)
    case (E_command c)
    then show ?thesis using ev send_command_allowed by simp
  next
    case E_connect
    then show ?thesis using ev by (auto simp: connect_def timer_defs intro!: attempt_allowed grows_intros)
  next
    case T_reconnect
    then show ?thesis using ev
      by (auto simp: fire_reconnect_def split: option.splits intro!: attempt_allowed grows_intros)
  next
    case T_restart
    then show ?thesis using ev
      by (auto simp: fire_restart_def Let_def split: option.splits intro!: attempt_allowed grows_intros)
  qed (use ev in \<open>auto simp: disconnect_def dispose_def restart_def update_config_def clean_spawner_def
      on_line_def on_pipe_error_def on_close_def on_error_def on_pipe_def Let_def timer_defs
      intro!: harmless_allowed grows_intros harmless_bot_event fire_hang_harmless fire_watchdog_harmless
        fire_restart_crouch_harmless fire_periodic_crouch_harmless split: option.splits\<close>)
qed

lemma run_allowed:
  assumes "x \<in> set (outs (fold client_step es s))"
  shows "x \<in> set (outs s) \<or> (\<exists>ev \<in> set es. \<exists>t. allowed_output ev t x)"
  using assms
proof (induction es arbitrary: s)
  case (Cons ev es)
  then show ?case using step_allowed [of ev s] by (fastforce simp: grows_def list.pred_set)
qed simp

text \<open>The chat line a controller was asked to send.\<close>

fun chat_of :: "client_output \<Rightarrow> (nat \<times> jstr) option" where
  "chat_of (O_write k (P_chat t)) = Some (k, t)"
| "chat_of _ = None"

lemma chat_of_Some: "chat_of x = Some (k, t) \<longleftrightarrow> x = O_write k (P_chat t)"
  by (cases "(x)" rule: chat_of.cases) auto

section \<open>Properties\<close>

text \<open>
  C1. Whatever the listeners, users, timers and controllers do, the state machine stays consistent:
  a controller exists exactly while an attempt is open, the reconnect timer runs exactly in
  RECONNECTING without a controller, a manual stop leaves the client OFFLINE with no timer that
  could bring it back.
\<close>

theorem client_run_consistent: "state_ok (client_run c es)"
  using client_run_inv by (simp add: client_inv_def)

text \<open>
  C2. No controller is leaked: in every run each controller that was created is the current one or
  has been told to terminate.
\<close>

theorem no_leaked_controller: "no_orphans (client_run c es)"
  using client_run_inv by (simp add: client_inv_def)

text \<open>
  C3. A line of chat that reaches the game server is always a slash command the user sent, never one
  of the blocked AFK commands: no other event of any run writes chat.
\<close>

theorem only_permitted_commands_reach_the_server:
  assumes "O_write k (P_chat t) \<in> set (outs (client_run c es))"
  shows "is_slash_command t \<and> \<not> is_blocked_afk_command t \<and> E_command t \<in> snd ` set es"
proof -
  obtain ev s where "ev \<in> set es" "allowed_output ev s (O_write k (P_chat t))"
    using run_allowed [OF assms [unfolded client_run_def]] by (auto simp: new_client_def)
  then have "snd ev = E_command t" "is_slash_command t" "\<not> is_blocked_afk_command t"
    by (auto simp: allowed_output_def)
  then show ?thesis using \<open>ev \<in> set es\<close> by force
qed

definition demo_config :: runtime_config where
  "demo_config = \<lparr>rc_id = js ''a1'', rc_name = js ''Desmo'', rc_version = js ''1.21'', rc_host = js ''h'', rc_port = 25565,
     rc_edition = JAVA, rc_auth = AUTH_MICROSOFT, rc_secret = None, rc_password = None, rc_crouch = True,
     rc_button = None, rc_auto_reconnect = True, rc_auto_return_home = None, rc_sell_enabled = True,
     rc_sell_interval = 60, rc_sell_command = js ''/sell'', rc_spawner_type = js ''IRON_GOLEM'',
     rc_drop_items = [], rc_sell_items = []\<rparr>"

definition demo_env :: "int \<Rightarrow> env" where
  "demo_env t = \<lparr>now = t, spawn_error = None, lower_table = (\<lambda>c. [c])\<rparr>"

definition demo_session :: "(env \<times> client_event) list" where
  "demo_session = [(demo_env 0, E_connect), (demo_env 2000, E_line 0 B_spawn),
     (demo_env 3000, E_command (js ''/hub''))]"

theorem only_permitted_commands_reach_the_server_witness:
  "is_slash_command (js ''/hub'') \<and> \<not> is_blocked_afk_command (js ''/hub'')
     \<and> E_command (js ''/hub'') \<in> snd ` set demo_session"
proof -
  have "list_ex (\<lambda>x. chat_of x = Some (0, js ''/hub'')) (outs (client_run demo_config demo_session))"
    by code_simp
  then have "O_write 0 (P_chat (js ''/hub'')) \<in> set (outs (client_run demo_config demo_session))"
    by (auto simp: list_ex_iff chat_of_Some)
  from only_permitted_commands_reach_the_server [OF this] show ?thesis .
qed

text \<open>A stopped client: what every event but a connect or a restart leaves alone.\<close>

lemma stopped_idle:
  assumes "client_inv s" and "manually_stopped s"
  shows "child s = None" and "idle_ok s"
  using assms by (auto simp: client_inv_def state_ok_def attached_ok_def split: option.splits)

lemma disconnect_stops:
  "manually_stopped (disconnect e s)" "next_child (disconnect e s) = next_child s"
  by (simp_all add: disconnect_def timer_defs)

lemma stopped_step:
  assumes "client_inv s" and "manually_stopped s" and "snd ev \<noteq> E_connect" and "snd ev \<noteq> E_restart"
  shows "manually_stopped (client_step ev s) \<and> next_child (client_step ev s) = next_child s"
proof -
  note idle = stopped_idle [OF assms(1,2)]
  have st: "status s = OFFLINE" and nt: "reconnect_at s = None" "restart_at s = None" "hang_at s = None"
      "watchdog_at s = None"
    using idle(2) assms(2) by (auto simp: idle_ok_def)
  have cur: "\<not> is_current k s" for k by (simp add: is_current_def idle(1))
  obtain e k where ev: "ev = (e, k)" by force
  show ?thesis
    using assms(2-4) ev st nt cur idle(1)
    by (cases k) (auto simp: disconnect_stops dispose_def update_config_def Let_def send_command_def
        clean_spawner_def on_line_def on_pipe_error_def on_close_def on_error_def on_pipe_def fire_reconnect_def
        fire_restart_def fire_hang_def fire_watchdog_def fire_restart_crouch_def fire_periodic_crouch_def
        send_restart_crouch_check_def split: option.splits)
qed

text \<open>What reaches a controller: the lines written to it and the controllers created.\<close>

fun reaches_controller :: "client_output \<Rightarrow> bool" where
  "reaches_controller (O_write k p) = True"
| "reaches_controller (O_spawned k) = True"
| "reaches_controller _ = False"

definition controller_outputs :: "client \<Rightarrow> client_output list" where
  "controller_outputs s = filter reaches_controller (outs s)"

lemma no_controller_no_write: "child s = None \<Longrightarrow> send_to_bot p s = (False, s)"
  by (simp add: send_to_bot_def)

lemma stopped_step_silent:
  assumes "client_inv s" and "manually_stopped s" and "periodic_crouch_at s = None"
    and "snd ev \<noteq> E_connect" and "snd ev \<noteq> E_restart"
  shows "periodic_crouch_at (client_step ev s) = None \<and> controller_outputs (client_step ev s) = controller_outputs s"
proof -
  note idle = stopped_idle [OF assms(1,2)]
  have st: "status s = OFFLINE" and nt: "reconnect_at s = None" "restart_at s = None" "hang_at s = None"
      "watchdog_at s = None"
    using idle(2) assms(2) by (auto simp: idle_ok_def)
  have cur: "\<not> is_current k s" for k by (simp add: is_current_def idle(1))
  obtain e k where ev: "ev = (e, k)" by force
  show ?thesis
    using assms(2-5) ev st nt cur idle(1)
    by (cases k) (auto simp: disconnect_def teardown_subprocess_def set_status_def timer_defs sync_periodic_crouch_checks_def
        controller_outputs_def emit_status_def emit_console_def put_def dispose_def update_config_def Let_def send_command_def no_controller_no_write
        clean_spawner_def on_line_def on_pipe_error_def on_close_def on_error_def on_pipe_def fire_reconnect_def
        fire_restart_def fire_hang_def fire_watchdog_def fire_restart_crouch_def fire_periodic_crouch_def
        send_restart_crouch_check_def split: option.splits)
qed

lemma stopped_run:
  assumes "client_inv s" and "manually_stopped s" and "periodic_crouch_at s = None"
    and "\<forall>ev \<in> set es. snd ev \<noteq> E_connect \<and> snd ev \<noteq> E_restart"
  shows "manually_stopped (fold client_step es s) \<and> next_child (fold client_step es s) = next_child s
     \<and> periodic_crouch_at (fold client_step es s) = None
     \<and> controller_outputs (fold client_step es s) = controller_outputs s"
  using assms
proof (induction es arbitrary: s)
  case (Cons ev es)
  then show ?case using stopped_step [of s ev] stopped_step_silent [of s ev] client_step_inv [of s ev] by simp
qed simp

lemma disconnect_periodic: "periodic_crouch_at (disconnect e s) = None"
  by (auto simp: disconnect_def timer_defs sync_periodic_crouch_checks_def set_status_def teardown_subprocess_def
      emit_status_def put_def Let_def split: option.splits)

text \<open>
  C4. A manual stop is final: until somebody connects or restarts the client, it stays OFFLINE with
  no controller; no reconnect, restart, hang, watchdog or periodic crouch timer is pending, no further controller is
  created, nothing is written to any controller any more, and all the controllers it ever
  created have been told to terminate. Only the crouch checks of an announced server restart may still be
  scheduled (\<^verbatim>\<open>disconnect\<close> leaves that interval running, only \<^verbatim>\<open>dispose\<close> clears it); they send nothing.
\<close>

theorem manual_stop_is_final:
  assumes "\<forall>ev \<in> set later. snd ev \<noteq> E_connect \<and> snd ev \<noteq> E_restart"
  shows "let s0 = client_run c es; s1 = disconnect e s0; s = fold client_step later s1 in
     status s = OFFLINE \<and> child s = None \<and> reconnect_at s = None \<and> restart_at s = None
     \<and> hang_at s = None \<and> watchdog_at s = None \<and> periodic_crouch_at s = None
     \<and> controller_outputs s = controller_outputs s1
     \<and> next_child s = next_child s0 \<and> (\<forall>k. k < next_child s0 \<longrightarrow> O_terminate k \<in> set (outs s))"
proof -
  define s where "s = fold client_step later (disconnect e (client_run c es))"
  have d: "client_inv (disconnect e (client_run c es))" using client_run_inv by blast
  have s: "manually_stopped s" "next_child s = next_child (client_run c es)" "periodic_crouch_at s = None"
    "controller_outputs s = controller_outputs (disconnect e (client_run c es))"
    using stopped_run [OF d _ _ assms] by (simp_all add: disconnect_stops disconnect_periodic s_def)
  have inv: "client_inv s" unfolding s_def by (rule minecraft_client.run_inv [OF d])
  note idle = stopped_idle [OF inv s(1)]
  have "\<forall>k < next_child s. O_terminate k \<in> set (outs s)"
    using inv_no_orphans [OF inv] idle(1) by (simp add: no_orphans_def is_current_def)
  then show ?thesis
    using idle s by (auto simp: idle_ok_def simp flip: s_def)
qed

theorem manual_stop_is_final_witness:
  "O_terminate 0 \<in> set (outs (fold client_step [(demo_env 900000, T_reconnect), (demo_env 900001, E_close 0 None)]
      (disconnect (demo_env 5000) (client_run demo_config demo_session))))"
proof -
  have "next_child (client_run demo_config demo_session) = 1" by code_simp
  then show ?thesis
    using manual_stop_is_final [of "[(demo_env 900000, T_reconnect), (demo_env 900001, E_close 0 None)]"
        demo_config demo_session "demo_env 5000"] by (simp add: Let_def)
qed

text \<open>
  C5. An account with automatic reconnection that loses its connection drops the controller and
  waits between fifteen seconds and five minutes; when that timer fires and a controller can be
  created, a new one is running and has been sent the configuration as its first line.
\<close>

theorem lost_connection_is_retried:
  assumes "is_current k (client_run c es)" and "rc_auto_reconnect (cfg (client_run c es))"
    and "ev \<in> {B_disconnect r, B_connection_failed m, B_fatal_error m}"
  shows "\<exists>d. 15000 \<le> d \<and> d \<le> 300000 \<and>
     (let s = client_run c (es @ [(e, E_line k ev)]) in
        status s = RECONNECTING \<and> child s = None \<and> reconnect_at s = Some (now e + d)
        \<and> O_terminate k \<in> set (outs s)
        \<and> (\<forall>e'. now e + d \<le> now e' \<and> spawn_error e' = None \<longrightarrow>
             (let s' = client_step (e', T_reconnect) s in
                is_current (next_child s) s' \<and> reconnect_at s' = None
                \<and> (\<exists>line. O_write (next_child s) (P_first line) \<in> set (outs s')))))"
proof -
  define s0 where "s0 = client_run c es"
  have inv: "client_inv s0" by (simp add: s0_def client_run_inv)
  have cur: "is_current k s0" "rc_auto_reconnect (cfg s0)" using assms by (simp_all add: s0_def)
  have open_: "\<not> connection_ended s0" "\<not> manually_stopped s0" "reconnect_at s0 = None"
    using inv cur by (auto simp: client_inv_def state_ok_def attached_ok_def is_current_def split: option.splits)
  obtain reason ty msg where ev: "handle_bot_event e ev s0 =
      handle_connection_failure e reason (emit_console ty msg s0)"
    using assms(3) by (auto simp: Let_def)
  define s where "s = handle_connection_failure e reason (emit_console ty msg s0)"
  have run: "client_run c (es @ [(e, E_line k ev)]) = s"
    using cur ev by (simp add: client_run_def s0_def s_def on_line_def)
  obtain d where d: "15000 \<le> d" "d \<le> 300000" "reconnect_at s = Some (now e + d)"
    using open_ cur reconnect_delay_range by (auto simp: s_def failure_fields)
  have st: "status s = RECONNECTING" "child s = None" and ns: "next_child s = next_child s0"
    using open_ cur by (simp_all add: s_def failure_fields)
  have "client_inv s" using failure_attached [of "emit_console ty msg s0" k] inv cur by (auto simp: s_def)
  then have "no_orphans s" by blast
  moreover have "k < next_child s0"
    using inv cur by (auto simp: client_inv_def state_ok_def attached_ok_def is_current_def split: option.splits)
  ultimately have ended: "O_terminate k \<in> set (outs s)"
    using st ns by (auto simp: no_orphans_def is_current_def)
  have "is_current (next_child s) (client_step (e', T_reconnect) s)
      \<and> reconnect_at (client_step (e', T_reconnect) s) = None
      \<and> (\<exists>line. O_write (next_child s) (P_first line) \<in> set (outs (client_step (e', T_reconnect) s)))"
    if "now e + d \<le> now e'" and "spawn_error e' = None" for e'
    using that d(3) st
    by (auto simp: fire_reconnect_def attempt_connect_def Let_def timer_defs send_to_bot_eq can_send_def is_current_def)
  then show ?thesis
    using d st ended by (auto simp: run Let_def intro!: exI [of _ d])
qed


theorem lost_connection_is_retried_witness:
  "\<exists>d. 15000 \<le> d \<and> d \<le> 300000 \<and>
     reconnect_at (client_run demo_config (demo_session @ [(demo_env 90000, E_line 0 (B_disconnect None))]))
       = Some (90000 + d)"
proof -
  have "is_current 0 (client_run demo_config demo_session)"
    "rc_auto_reconnect (cfg (client_run demo_config demo_session))"
    by code_simp+
  from lost_connection_is_retried [OF this, of "B_disconnect None" None "[]" "demo_env 90000"]
  show ?thesis by (auto simp: Let_def demo_env_def)
qed

text \<open>
  The watchdog of an online bot recycles it exactly when no heartbeat came for more than 45
  seconds and no control outage was reported within the last 15; otherwise the bot keeps running and
  the watchdog looks again in fifteen seconds.
\<close>

theorem watchdog_recycles_frozen_bots:
  assumes "status (client_run c es) = ONLINE" and "watchdog_at (client_run c es) = Some t" and "t \<le> now e"
  shows "let s = client_run c es; s' = client_step (e, T_watchdog) s;
             frozen = (now e - last_heartbeat_at s > 45000
               \<and> (case last_control_failure_at s of None \<Rightarrow> True | Some f \<Rightarrow> now e - f \<ge> 15000)) in
     (if frozen then child s' = None \<and> last_error s' = Some (js ''Bot froze (no heartbeat)'')
        \<and> status s' = (if rc_auto_reconnect (cfg s) then RECONNECTING else ERROR)
      else s' = s\<lparr>watchdog_at := Some (now e + 15000)\<rparr>)"
proof -
  define s where "s = client_run c es"
  have inv: "client_inv s" by (simp add: s_def client_run_inv)
  obtain k where cur: "is_current k s" using online_attached [OF inv] assms(1) by (auto simp: s_def)
  have open_: "\<not> connection_ended s" "\<not> manually_stopped s"
    using inv cur by (auto simp: client_inv_def state_ok_def attached_ok_def is_current_def split: option.splits)
  have le: "last_error (handle_connection_failure e r u) = Some r" if "\<not> connection_ended u" for r u
    using that by (simp add: handle_connection_failure_def Let_def timer_defs case_prod_unfold)
  show ?thesis
    using assms open_
    by (auto simp: fire_watchdog_def Let_def control_lease_holds_def client_ms failure_fields le
        simp flip: s_def split: option.splits)
qed

theorem watchdog_recycles_frozen_bots_witness:
  "child (client_step (demo_env 60000, T_watchdog) (client_run demo_config demo_session)) = None"
proof -
  have s: "status (client_run demo_config demo_session) = ONLINE"
    "watchdog_at (client_run demo_config demo_session) = Some 15000"
    "last_heartbeat_at (client_run demo_config demo_session) = 2000"
    "last_control_failure_at (client_run demo_config demo_session) = None"
    by code_simp+
  from watchdog_recycles_frozen_bots [OF s(1,2), of "demo_env 60000"] s(3,4)
  show ?thesis by (simp add: Let_def demo_env_def split: if_splits)
qed

text \<open>
  Once a world restart is announced, every bot that is started, reconnects included, is told a
  pause that contains exactly the times from ten seconds before the restart to two minutes after it.
\<close>

theorem sell_pause_covers_restart:
  assumes "world_restart_at s = Some wr" and "now e \<le> t"
  shows "(now e + fst (fl_pause (first_line_of e s)) \<le> t \<and> t < now e + snd (fl_pause (first_line_of e s)))
     \<longleftrightarrow> (wr - 10000 \<le> t \<and> t < wr + 120000)"
  using assms
  by (auto simp: first_line_of_def sell_pause_window_def WORLD_RESTART_SELL_LEAD_MS_def
      WORLD_RESTART_SELL_COOLDOWN_MS_def)

theorem sell_pause_covers_restart_witness:
  "fst (fl_pause (first_line_of (demo_env 0) ((new_client demo_config)\<lparr>world_restart_at := Some 60000\<rparr>))) \<le> 50000"
  using sell_pause_covers_restart [of "(new_client demo_config)\<lparr>world_restart_at := Some 60000\<rparr>" 60000
      "demo_env 0" 50000] by (simp add: demo_env_def)

end
