(* ===== verification/Database.thy ===== *)
theory Database
  imports Client_Types
begin

text \<open>
  The tables of \<^verbatim>\<open>backend/prisma/schema.prisma\<close> that the services read and write, as lists of rows,
  and the effect of the Prisma calls on them: unique lookups, conditional updates, deletions with the
  cascades the schema declares. Columns that the schema calls legacy are left out. Identifiers come
  from the library (\<^verbatim>\<open>cuid\<close>, \<^verbatim>\<open>nanoid\<close>) and are arguments of the operations that insert.
\<close>

section \<open>Rows\<close>

datatype role = ADMIN | USER
datatype user_status = ACTIVE | DISABLED

text \<open>A text column that holds JSON: the text of a value, or text that does not parse.\<close>

datatype json_text = Malformed | Text_of json

record user_row =
  u_id :: jstr
  u_name :: jstr
  u_mc :: "jstr option"
  u_hash :: jstr
  u_role :: role
  u_status :: user_status
  u_created :: int
  u_last_login :: "int option"
  u_prefs :: "json_text option"
  u_seen_update :: "jstr option"

record session_row =
  se_id :: jstr
  se_user :: jstr
  se_csrf :: jstr
  se_created :: int
  se_expires :: int
  se_agent :: "jstr option"
  se_ip :: "jstr option"

record account_row =
  a_id :: jstr
  a_name :: jstr
  a_edition :: jstr
  a_display :: jstr
  a_version :: jstr
  a_host :: jstr
  a_port :: int
  a_auth :: auth_type
  a_secret :: "jstr option"
  a_password :: "jstr option"
  a_crouch :: bool
  a_button :: button
  a_reconnect :: bool
  a_return_home :: bool
  a_notes :: jstr
  a_sell_enabled :: bool
  a_sell_interval :: rat
  a_sell_command :: jstr
  a_last_sell :: "int option"
  a_spawner_type :: jstr
  a_spawner_actions :: json_text
  a_status :: client_status
  a_order :: int
  a_auto_start :: bool
  a_created_by :: "jstr option"

record note_row =
  n_id :: jstr
  n_title :: jstr
  n_content :: json
  n_revision :: int
  n_owner :: jstr
  n_updated :: int

record grant_row =
  g_note :: jstr
  g_user :: jstr
  g_write :: bool

record earning_row =
  e_account :: jstr
  e_amount :: rat
  e_created :: int

record log_row =
  l_id :: jstr
  l_account :: jstr
  l_type :: console_type
  l_message :: jstr
  l_created :: int

record audit_row =
  au_user :: "jstr option"
  au_action :: jstr
  au_target_type :: "jstr option"
  au_target_id :: "jstr option"
  au_details :: "json option"
  au_created :: int

record ban_row =
  b_ip :: jstr
  b_reason :: "jstr option"
  b_auto :: bool
  b_by :: "jstr option"

record image_row =
  im_account :: jstr
  im_data :: "int list"
  im_revision :: jstr

record db =
  db_users :: "user_row list"
  db_sessions :: "session_row list"
  db_accounts :: "account_row list"
  db_assignments :: "(jstr \<times> jstr) list"
  db_images :: "image_row list"
  db_notes :: "note_row list"
  db_grants :: "grant_row list"
  db_earnings :: "earning_row list"
  db_logs :: "log_row list"
  db_audits :: "audit_row list"
  db_bans :: "ban_row list"

definition empty_db :: db where
  "empty_db = \<lparr>db_users = [], db_sessions = [], db_accounts = [], db_assignments = [], db_images = [],
     db_notes = [], db_grants = [], db_earnings = [], db_logs = [], db_audits = [], db_bans = []\<rparr>"

section \<open>Queries\<close>

definition find_user :: "db \<Rightarrow> jstr \<Rightarrow> user_row option" where
  "find_user d i = find (\<lambda>u. u_id u = i) (db_users d)"

definition find_session :: "db \<Rightarrow> jstr \<Rightarrow> session_row option" where
  "find_session d i = find (\<lambda>x. se_id x = i) (db_sessions d)"

definition find_account :: "db \<Rightarrow> jstr \<Rightarrow> account_row option" where
  "find_account d i = find (\<lambda>a. a_id a = i) (db_accounts d)"

definition is_assigned :: "db \<Rightarrow> jstr \<Rightarrow> jstr \<Rightarrow> bool" where
  "is_assigned d user account \<longleftrightarrow> (user, account) \<in> set (db_assignments d)"

text \<open>\<^verbatim>\<open>update\<close> of one row: \<open>None\<close> when there is no such row (Prisma error P2025).\<close>

definition update_user_row :: "jstr \<Rightarrow> (user_row \<Rightarrow> user_row) \<Rightarrow> db \<Rightarrow> db option" where
  "update_user_row i f d = (case find_user d i of
       None \<Rightarrow> None
     | Some _ \<Rightarrow> Some (d\<lparr>db_users := map (\<lambda>u. if u_id u = i then f u else u) (db_users d)\<rparr>))"

definition update_account_row :: "jstr \<Rightarrow> (account_row \<Rightarrow> account_row) \<Rightarrow> db \<Rightarrow> db option" where
  "update_account_row i f d = (case find_account d i of
       None \<Rightarrow> None
     | Some _ \<Rightarrow> Some (d\<lparr>db_accounts := map (\<lambda>a. if a_id a = i then f a else a) (db_accounts d)\<rparr>))"

text \<open>
  Deleting a user deletes their sessions, assignments, notes and grants (and the grants on those
  notes) and clears the references kept by accounts, audit entries and bans; deleting an account
  deletes its assignments, image, earnings and logs.
\<close>

definition delete_user_row :: "jstr \<Rightarrow> db \<Rightarrow> db option" where
  "delete_user_row i d = (case find_user d i of
       None \<Rightarrow> None
     | Some _ \<Rightarrow>
         (let gone = map n_id (filter (\<lambda>n. n_owner n = i) (db_notes d));
              clear = (\<lambda>r. if r = Some i then None else r)
          in Some (d\<lparr>db_users := filter (\<lambda>u. u_id u \<noteq> i) (db_users d),
               db_sessions := filter (\<lambda>x. se_user x \<noteq> i) (db_sessions d),
               db_assignments := filter (\<lambda>p. fst p \<noteq> i) (db_assignments d),
               db_notes := filter (\<lambda>n. n_owner n \<noteq> i) (db_notes d),
               db_grants := filter (\<lambda>g. g_user g \<noteq> i \<and> g_note g \<notin> set gone) (db_grants d),
               db_accounts := map (\<lambda>a. a\<lparr>a_created_by := clear (a_created_by a)\<rparr>) (db_accounts d),
               db_audits := map (\<lambda>a. a\<lparr>au_user := clear (au_user a)\<rparr>) (db_audits d),
               db_bans := map (\<lambda>b. b\<lparr>b_by := clear (b_by b)\<rparr>) (db_bans d)\<rparr>)))"

definition delete_account_row :: "jstr \<Rightarrow> db \<Rightarrow> db option" where
  "delete_account_row i d = (case find_account d i of
       None \<Rightarrow> None
     | Some _ \<Rightarrow> Some (d\<lparr>db_accounts := filter (\<lambda>a. a_id a \<noteq> i) (db_accounts d),
           db_assignments := filter (\<lambda>p. snd p \<noteq> i) (db_assignments d),
           db_images := filter (\<lambda>x. im_account x \<noteq> i) (db_images d),
           db_earnings := filter (\<lambda>x. e_account x \<noteq> i) (db_earnings d),
           db_logs := filter (\<lambda>x. l_account x \<noteq> i) (db_logs d)\<rparr>))"

section \<open>Integrity\<close>

text \<open>Keys are unique and every reference the schema declares points to a row.\<close>

definition keys_ok :: "db \<Rightarrow> bool" where
  "keys_ok d \<longleftrightarrow> distinct (map u_id (db_users d)) \<and> distinct (map se_id (db_sessions d))
     \<and> distinct (map a_id (db_accounts d)) \<and> distinct (db_assignments d)
     \<and> distinct (map n_id (db_notes d)) \<and> distinct (map (\<lambda>g. (g_note g, g_user g)) (db_grants d))"

fun ref_in :: "'a set \<Rightarrow> 'a option \<Rightarrow> bool" where
  "ref_in S None = True"
| "ref_in S (Some x) = (x \<in> S)"

lemma ref_in_iff: "ref_in S r \<longleftrightarrow> (\<forall>x. r = Some x \<longrightarrow> x \<in> S)"
  by (cases r) auto

definition refs_ok :: "db \<Rightarrow> bool" where
  "refs_ok d \<longleftrightarrow> (let us = u_id ` set (db_users d); accs = a_id ` set (db_accounts d);
        ns = n_id ` set (db_notes d) in
     (\<forall>x \<in> set (db_sessions d). se_user x \<in> us)
     \<and> (\<forall>p \<in> set (db_assignments d). fst p \<in> us \<and> snd p \<in> accs)
     \<and> (\<forall>n \<in> set (db_notes d). n_owner n \<in> us)
     \<and> (\<forall>g \<in> set (db_grants d). g_note g \<in> ns \<and> g_user g \<in> us)
     \<and> (\<forall>a \<in> set (db_accounts d). ref_in us (a_created_by a)))"

definition db_ok :: "db \<Rightarrow> bool" where
  "db_ok d \<longleftrightarrow> keys_ok d \<and> refs_ok d"

lemma find_user_Some: "find_user d i = Some u \<Longrightarrow> u \<in> set (db_users d) \<and> u_id u = i"
  unfolding find_user_def by (rule find_Some_in)

lemma find_session_Some: "find_session d i = Some x \<Longrightarrow> x \<in> set (db_sessions d) \<and> se_id x = i"
  unfolding find_session_def by (rule find_Some_in)

lemma find_account_Some: "find_account d i = Some a \<Longrightarrow> a \<in> set (db_accounts d) \<and> a_id a = i"
  unfolding find_account_def by (rule find_Some_in)

lemma find_user_row: "db_ok d \<Longrightarrow> u \<in> set (db_users d) \<Longrightarrow> find_user d (u_id u) = Some u"
  unfolding find_user_def by (rule find_key) (simp add: db_ok_def keys_ok_def)

lemma find_user_None: "find_user d i = None \<longleftrightarrow> i \<notin> u_id ` set (db_users d)"
  by (auto simp: find_user_def find_None_iff)

lemma find_account_None: "find_account d i = None \<longleftrightarrow> i \<notin> a_id ` set (db_accounts d)"
  by (auto simp: find_account_def find_None_iff)

lemma db_ok_empty: "db_ok empty_db"
  by (simp add: db_ok_def keys_ok_def refs_ok_def empty_db_def)

lemma distinct_map_keyed:
  assumes "\<And>u. key (if c u then f u else u) = key u"
  shows "map key (map (\<lambda>u. if c u then f u else u) xs) = map key xs"
  using assms by (induction xs) auto

lemma update_user_row_users:
  assumes "update_user_row i f d = Some d'"
  shows "d' = d\<lparr>db_users := map (\<lambda>u. if u_id u = i then f u else u) (db_users d)\<rparr>"
  using assms by (auto simp: update_user_row_def split: option.splits)

lemma find_map_keyed:
  assumes "\<And>x. key (f x) = key x"
  shows "find (\<lambda>x. key x = j) (map (\<lambda>x. if key x = i then f x else x) xs)
    = (if j = i then map_option f (find (\<lambda>x. key x = j) xs) else find (\<lambda>x. key x = j) xs)"
  using assms by (induction xs) auto

lemma update_user_row_find:
  assumes "update_user_row i f d = Some d'" and "\<And>u. u_id (f u) = u_id u"
  shows "find_user d' j = (if j = i then map_option f (find_user d j) else find_user d j)"
  unfolding update_user_row_users [OF assms(1)] find_user_def
  using find_map_keyed [of u_id f j i "db_users d"] assms(2) by simp

lemma set_of_keys: "map key xs = map key ys \<Longrightarrow> key ` set xs = key ` set ys"
  by (metis list.set_map)

text \<open>Introduction and use of the references, table by table.\<close>

lemma refs_okI:
  assumes "\<And>x. x \<in> set (db_sessions d) \<Longrightarrow> se_user x \<in> u_id ` set (db_users d)"
    and "\<And>u a. (u, a) \<in> set (db_assignments d) \<Longrightarrow> u \<in> u_id ` set (db_users d)"
    and "\<And>u a. (u, a) \<in> set (db_assignments d) \<Longrightarrow> a \<in> a_id ` set (db_accounts d)"
    and "\<And>n. n \<in> set (db_notes d) \<Longrightarrow> n_owner n \<in> u_id ` set (db_users d)"
    and "\<And>g. g \<in> set (db_grants d) \<Longrightarrow> g_note g \<in> n_id ` set (db_notes d)"
    and "\<And>g. g \<in> set (db_grants d) \<Longrightarrow> g_user g \<in> u_id ` set (db_users d)"
    and "\<And>a u. a \<in> set (db_accounts d) \<Longrightarrow> a_created_by a = Some u \<Longrightarrow> u \<in> u_id ` set (db_users d)"
  shows "refs_ok d"
  unfolding refs_ok_def Let_def
  by (intro conjI ballI) (use assms in \<open>auto simp: ref_in_iff\<close>)

lemma refs_okD:
  assumes "refs_ok d"
  shows "x \<in> set (db_sessions d) \<Longrightarrow> se_user x \<in> u_id ` set (db_users d)"
    and "(u, a) \<in> set (db_assignments d) \<Longrightarrow> u \<in> u_id ` set (db_users d)"
    and "(u, a) \<in> set (db_assignments d) \<Longrightarrow> a \<in> a_id ` set (db_accounts d)"
    and "n \<in> set (db_notes d) \<Longrightarrow> n_owner n \<in> u_id ` set (db_users d)"
    and "g \<in> set (db_grants d) \<Longrightarrow> g_note g \<in> n_id ` set (db_notes d)"
    and "g \<in> set (db_grants d) \<Longrightarrow> g_user g \<in> u_id ` set (db_users d)"
    and "b \<in> set (db_accounts d) \<Longrightarrow> a_created_by b = Some c \<Longrightarrow> c \<in> u_id ` set (db_users d)"
proof -
  note r = assms [unfolded refs_ok_def Let_def]
  show "x \<in> set (db_sessions d) \<Longrightarrow> se_user x \<in> u_id ` set (db_users d)" using r by blast
  show "(u, a) \<in> set (db_assignments d) \<Longrightarrow> u \<in> u_id ` set (db_users d)" using r by (metis fst_conv)
  show "(u, a) \<in> set (db_assignments d) \<Longrightarrow> a \<in> a_id ` set (db_accounts d)" using r by (metis snd_conv)
  show "n \<in> set (db_notes d) \<Longrightarrow> n_owner n \<in> u_id ` set (db_users d)" using r by blast
  show "g \<in> set (db_grants d) \<Longrightarrow> g_note g \<in> n_id ` set (db_notes d)" using r by blast
  show "g \<in> set (db_grants d) \<Longrightarrow> g_user g \<in> u_id ` set (db_users d)" using r by blast
  show "b \<in> set (db_accounts d) \<Longrightarrow> a_created_by b = Some c \<Longrightarrow> c \<in> u_id ` set (db_users d)"
    using r by (metis ref_in.simps(2))
qed

lemma db_ok_users:
  assumes "db_ok d" and "map u_id us = map u_id (db_users d)"
  shows "db_ok (d\<lparr>db_users := us\<rparr>)"
proof -
  note r = refs_okD [OF conjunct2 [OF assms(1) [unfolded db_ok_def]]]
  have s: "u_id ` set us = u_id ` set (db_users d)" by (rule set_of_keys [OF assms(2)])
  have "refs_ok (d\<lparr>db_users := us\<rparr>)"
    by (rule refs_okI; simp add: s) (blast intro: r)+
  then show ?thesis
    using assms unfolding db_ok_def keys_ok_def by simp
qed

lemma db_ok_accounts:
  assumes "db_ok d" and "map a_id as = map a_id (db_accounts d)"
    and "a_created_by ` set as \<subseteq> insert None (a_created_by ` set (db_accounts d))"
  shows "db_ok (d\<lparr>db_accounts := as\<rparr>)"
proof -
  note r = refs_okD [OF conjunct2 [OF assms(1) [unfolded db_ok_def]]]
  have s: "a_id ` set as = a_id ` set (db_accounts d)" by (rule set_of_keys [OF assms(2)])
  have "refs_ok (d\<lparr>db_accounts := as\<rparr>)"
  proof (rule refs_okI)
    fix a u assume "a \<in> set (db_accounts (d\<lparr>db_accounts := as\<rparr>))" "a_created_by a = Some u"
    then obtain b where "b \<in> set (db_accounts d)" "a_created_by b = Some u"
      using assms(3) by (fastforce simp: image_subset_iff)
    then show "u \<in> u_id ` set (db_users (d\<lparr>db_accounts := as\<rparr>))" using r(7) by simp
  next
    fix u a assume "(u, a) \<in> set (db_assignments (d\<lparr>db_accounts := as\<rparr>))"
    then show "a \<in> a_id ` set (db_accounts (d\<lparr>db_accounts := as\<rparr>))" using r(3) [of u a] s by simp
  qed (simp_all add: r)
  then show ?thesis
    using assms(1,2) unfolding db_ok_def keys_ok_def by simp
qed

lemma update_user_row_ok:
  assumes "db_ok d" and "update_user_row i f d = Some d'" and "\<And>u. u_id (f u) = u_id u"
  shows "db_ok d'"
  unfolding update_user_row_users [OF assms(2)]
  by (rule db_ok_users [OF assms(1)], rule distinct_map_keyed) (simp add: assms(3))

lemma update_account_row_rows:
  assumes "update_account_row i f d = Some d'"
  shows "d' = d\<lparr>db_accounts := map (\<lambda>a. if a_id a = i then f a else a) (db_accounts d)\<rparr>"
  using assms by (auto simp: update_account_row_def split: option.splits)

lemma update_account_row_ok:
  assumes "db_ok d" and "update_account_row i f d = Some d'"
    and "\<And>a. a_id (f a) = a_id a" and "\<And>a. a_created_by (f a) = a_created_by a"
  shows "db_ok d'"
  unfolding update_account_row_rows [OF assms(2)]
proof (rule db_ok_accounts [OF assms(1)])
  show "map a_id (map (\<lambda>a. if a_id a = i then f a else a) (db_accounts d)) = map a_id (db_accounts d)"
    by (rule distinct_map_keyed) (simp add: assms(3))
qed (auto simp: assms(4))

text \<open>Deleting rows that nothing refers to any more keeps the tables consistent.\<close>

lemma keep_key: "k \<in> key ` {x \<in> set xs. key x \<noteq> i} \<longleftrightarrow> k \<in> key ` set xs \<and> k \<noteq> i"
  by auto

lemma delete_user_row_ok:
  assumes "db_ok d" and "delete_user_row i d = Some d'"
  shows "db_ok d'"
proof -
  define as where "as = map (\<lambda>a. a\<lparr>a_created_by := if a_created_by a = Some i then None else a_created_by a\<rparr>) (db_accounts d)"
  have ids: "map a_id as = map a_id (db_accounts d)" by (simp add: as_def comp_def)
  have rows: "db_users d' = filter (\<lambda>u. u_id u \<noteq> i) (db_users d)"
      "db_sessions d' = filter (\<lambda>x. se_user x \<noteq> i) (db_sessions d)" "db_accounts d' = as"
      "db_assignments d' = filter (\<lambda>p. fst p \<noteq> i) (db_assignments d)"
      "db_notes d' = filter (\<lambda>n. n_owner n \<noteq> i) (db_notes d)"
      "db_grants d' = filter (\<lambda>g. g_user g \<noteq> i \<and> g_note g \<notin> n_id ` {n \<in> set (db_notes d). n_owner n = i}) (db_grants d)"
    using assms(2) by (auto simp: delete_user_row_def as_def Let_def split: option.splits intro!: filter_cong)
  have keys: "keys_ok d'"
    using assms(1) by (simp add: db_ok_def keys_ok_def rows ids distinct_map_filter)
  note r = refs_okD [OF conjunct2 [OF assms(1) [unfolded db_ok_def]]]
  have "refs_ok d'"
  proof (rule refs_okI, unfold rows)
    fix g assume "g \<in> set (filter (\<lambda>g. g_user g \<noteq> i \<and> g_note g \<notin> n_id ` {n \<in> set (db_notes d). n_owner n = i}) (db_grants d))"
    then show "g_note g \<in> n_id ` set (filter (\<lambda>n. n_owner n \<noteq> i) (db_notes d))"
      using r(5) [of g] by auto
  next
    fix a u assume a: "a \<in> set as" "a_created_by a = Some u"
    then obtain b where b: "b \<in> set (db_accounts d)"
      "a = b\<lparr>a_created_by := if a_created_by b = Some i then None else a_created_by b\<rparr>"
      by (auto simp: as_def)
    with a(2) have "a_created_by b = Some u" "u \<noteq> i" by (auto split: if_splits)
    with r(7) b(1) show "u \<in> u_id ` set (filter (\<lambda>u. u_id u \<noteq> i) (db_users d))" by (simp add: keep_key)
  next
    fix u a assume "(u, a) \<in> set (filter (\<lambda>p. fst p \<noteq> i) (db_assignments d))"
    then show "u \<in> u_id ` set (filter (\<lambda>u. u_id u \<noteq> i) (db_users d))" "a \<in> a_id ` set as"
      using r(2,3) [of u a] set_of_keys [OF ids] by (auto simp: keep_key)
  qed (use r in \<open>auto simp: keep_key\<close>)
  with keys show ?thesis by (simp add: db_ok_def)
qed

lemma delete_account_row_ok:
  assumes "db_ok d" and "delete_account_row i d = Some d'"
  shows "db_ok d'"
proof -
  have rows: "db_users d' = db_users d" "db_sessions d' = db_sessions d" "db_notes d' = db_notes d"
      "db_grants d' = db_grants d" "db_accounts d' = filter (\<lambda>a. a_id a \<noteq> i) (db_accounts d)"
      "db_assignments d' = filter (\<lambda>p. snd p \<noteq> i) (db_assignments d)"
    using assms(2) by (auto simp: delete_account_row_def split: option.splits)
  have keys: "keys_ok d'"
    using assms(1) by (simp add: db_ok_def keys_ok_def rows distinct_map_filter)
  note r = refs_okD [OF conjunct2 [OF assms(1) [unfolded db_ok_def]]]
  have "refs_ok d'"
    by (rule refs_okI; unfold rows) (use r in \<open>auto simp: keep_key\<close>)
  with keys show ?thesis by (simp add: db_ok_def)
qed

section \<open>Sample rows\<close>

definition demo_user :: "string \<Rightarrow> role \<Rightarrow> user_row" where
  "demo_user n r = \<lparr>u_id = js n, u_name = js n, u_mc = None, u_hash = [], u_role = r, u_status = ACTIVE,
     u_created = 0, u_last_login = None, u_prefs = None, u_seen_update = None\<rparr>"

definition demo_account :: account_row where
  "demo_account = \<lparr>a_id = [1], a_name = js ''Bot'', a_edition = js ''JAVA'', a_display = [], a_version = [], a_host = js ''h'',
     a_port = 25565, a_auth = AUTH_MICROSOFT, a_secret = None, a_password = None, a_crouch = False, a_button = OFF,
     a_reconnect = True, a_return_home = True, a_notes = [], a_sell_enabled = False, a_sell_interval = 60,
     a_sell_command = js ''/sell'', a_last_sell = None, a_spawner_type = [], a_spawner_actions = Malformed,
     a_status = OFFLINE, a_order = 0, a_auto_start = True, a_created_by = None\<rparr>"

text \<open>One admin and one user; the user is assigned to the first of two accounts and created it.\<close>

definition demo_tables :: db where
  "demo_tables = empty_db\<lparr>db_users := [demo_user ''ann'' ADMIN, demo_user ''tom'' USER],
     db_accounts := [demo_account\<lparr>a_created_by := Some (js ''tom'')\<rparr>, demo_account\<lparr>a_id := [2], a_name := js ''Bot2''\<rparr>],
     db_assignments := [(js ''tom'', [1])]\<rparr>"

lemma demo_tables_ok: "db_ok demo_tables"
  by (simp add: db_ok_def keys_ok_def refs_ok_def demo_tables_def empty_db_def demo_account_def demo_user_def)

end
