(* ===== verification/Audit_Log.thy ===== *)
theory Audit_Log
  imports Database
begin

text \<open>
  \<^verbatim>\<open>backend/src/logging/redactSecrets.ts\<close> and \<^verbatim>\<open>auditLog.ts\<close>: the audit trail and the removal of
  secrets from the details that are stored with an entry.
\<close>

section \<open>Redaction\<close>

definition secret_keys :: "jstr list" where
  "secret_keys = map js [''password'', ''passwordhash'', ''currentpassword'', ''newpassword'',
     ''credentialspassword'', ''credentialssecret'', ''secret'', ''sessionsecret'', ''encryptionkey'',
     ''sessionid'', ''csrftoken'', ''accesstoken'', ''refreshtoken'', ''token'', ''authorization'',
     ''cookie'', ''proxies'']"

definition REDACTED :: json where
  "REDACTED = JStr (js ''[REDACTED]'')"

text \<open>The lower case table of the runtime is \<open>low\<close>, as for every \<^verbatim>\<open>toLowerCase()\<close>.\<close>

definition is_secret_key :: "(code_unit \<Rightarrow> jstr) \<Rightarrow> jstr \<Rightarrow> bool" where
  "is_secret_key low key \<longleftrightarrow> filter (\<lambda>c. c \<noteq> 95 \<and> c \<noteq> 45) (to_lower low key) \<in> set secret_keys"

fun redact_secrets :: "(code_unit \<Rightarrow> jstr) \<Rightarrow> nat \<Rightarrow> json \<Rightarrow> json"
  and redact_entries :: "(code_unit \<Rightarrow> jstr) \<Rightarrow> nat \<Rightarrow> json list \<Rightarrow> json list"
  and redact_fields :: "(code_unit \<Rightarrow> jstr) \<Rightarrow> nat \<Rightarrow> (jstr \<times> json) list \<Rightarrow> (jstr \<times> json) list" where
  "redact_secrets low depth v =
     (if depth > 32 then REDACTED
      else case v of
          JArr xs \<Rightarrow> JArr (redact_entries low (depth + 1) xs)
        | JObj kvs \<Rightarrow> JObj (redact_fields low (depth + 1) kvs)
        | _ \<Rightarrow> v)"
| "redact_entries low depth [] = []"
| "redact_entries low depth (x # xs) = redact_secrets low depth x # redact_entries low depth xs"
| "redact_fields low depth [] = []"
| "redact_fields low depth ((k, v) # kvs) =
     (k, if is_secret_key low k then REDACTED else redact_secrets low depth v) # redact_fields low depth kvs"

declare redact_secrets.simps [simp del]

lemma redact_entries_map: "redact_entries low n xs = map (redact_secrets low n) xs"
  by (induction xs) simp_all

lemma redact_fields_map:
  "redact_fields low n kvs = map (\<lambda>(k, v). (k, if is_secret_key low k then REDACTED else redact_secrets low n v)) kvs"
  by (induction kvs) auto

text \<open>
  Specification, without the list of the code. A place in a value is the list of the positions on the
  way to it; what is found there is the value and the keys on the way. The names of secrets are
  written out once more, as the audit log promises them; a key is one of them in any case and with any
  dashes and underscores.
\<close>

fun json_path :: "json \<Rightarrow> nat list \<Rightarrow> (jstr list \<times> json) option" where
  "json_path v [] = Some ([], v)"
| "json_path (JArr xs) (i # p) = (if i < length xs then json_path (xs ! i) p else None)"
| "json_path (JObj kvs) (i # p) = (if i < length kvs
     then map_option (\<lambda>(ks, w). (fst (kvs ! i) # ks, w)) (json_path (snd (kvs ! i)) p) else None)"
| "json_path _ (i # p) = None"

definition names_secret :: "(code_unit \<Rightarrow> jstr) \<Rightarrow> jstr \<Rightarrow> bool" where
  "names_secret low key \<longleftrightarrow> (\<exists>name \<in> {''password'', ''passwordhash'', ''currentpassword'', ''newpassword'',
       ''credentialspassword'', ''credentialssecret'', ''secret'', ''sessionsecret'', ''encryptionkey'', ''sessionid'',
       ''csrftoken'', ''accesstoken'', ''refreshtoken'', ''token'', ''authorization'', ''cookie'', ''proxies''}.
     [c \<leftarrow> to_lower low key. c \<noteq> 45 \<and> c \<noteq> 95] = js name)"

fun is_leaf :: "json \<Rightarrow> bool" where
  "is_leaf (JArr xs) = False"
| "is_leaf (JObj kvs) = False"
| "is_leaf v = True"

text \<open>
  The value \<open>j\<close> is what the audit log keeps of \<open>v\<close>: nothing under the name of a secret, nothing that is
  not in \<open>v\<close> at the same place, and all of \<open>v\<close> that is not under such a name, down to depth 32.
\<close>

definition audit_copy :: "(code_unit \<Rightarrow> jstr) \<Rightarrow> json \<Rightarrow> json \<Rightarrow> bool" where
  "audit_copy low v j \<longleftrightarrow>
     (\<forall>p ks w. json_path j p = Some (ks, w) \<and> list_ex (names_secret low) ks \<longrightarrow> w = JStr (js ''[REDACTED]''))
     \<and> (\<forall>p ks w. json_path j p = Some (ks, w) \<and> is_leaf w \<longrightarrow> w = JStr (js ''[REDACTED]'') \<or> json_path v p = Some (ks, w))
     \<and> (\<forall>p ks w. json_path v p = Some (ks, w) \<and> is_leaf w \<and> length p \<le> 32 \<and> \<not> list_ex (names_secret low) ks
          \<longrightarrow> json_path j p = Some (ks, w))"

lemma names_secret_iff: "names_secret low key = is_secret_key low key"
  by (simp add: names_secret_def is_secret_key_def secret_keys_def conj_commute)

lemma json_path_leaf: "is_leaf v \<Longrightarrow> json_path v p = (if p = [] then Some ([], v) else None)"
  by (cases v; cases p) simp_all

lemma redact_leaf: "is_leaf v \<Longrightarrow> n \<le> 32 \<Longrightarrow> redact_secrets low n v = v"
  by (cases v) (simp_all add: redact_secrets.simps [of low n])

lemma leaf_REDACTED [simp]: "is_leaf REDACTED"
  by (simp add: REDACTED_def)

lemma redact_path_cons:
  "json_path (redact_secrets low n v) (i # p) = (if n > 32 then None else case v of
       JArr xs \<Rightarrow> if i < length xs then json_path (redact_secrets low (n + 1) (xs ! i)) p else None
     | JObj kvs \<Rightarrow> if i < length kvs
         then map_option (\<lambda>(ks, w). (fst (kvs ! i) # ks, w))
           (json_path (if is_secret_key low (fst (kvs ! i)) then REDACTED else redact_secrets low (n + 1) (snd (kvs ! i))) p)
         else None
     | _ \<Rightarrow> None)"
  by (cases v) (auto simp: redact_secrets.simps [of low n] json_path_leaf redact_entries_map redact_fields_map
      split: prod.split)

lemma redact_path_hidden:
  "json_path (redact_secrets low n v) p = Some (ks, w) \<Longrightarrow> list_ex (is_secret_key low) ks \<Longrightarrow> w = REDACTED"
proof (induction p arbitrary: n v ks)
  case (Cons i p)
  then show ?case
    by (auto simp: redact_path_cons json_path_leaf split: if_splits json.splits)
qed simp

lemma redact_path_original:
  "json_path (redact_secrets low n v) p = Some (ks, w) \<Longrightarrow> is_leaf w \<Longrightarrow> w = REDACTED \<or> json_path v p = Some (ks, w)"
proof (induction p arbitrary: n v ks)
  case Nil
  then show ?case by (cases v) (auto simp: redact_secrets.simps [of low n] split: if_splits)
next
  case (Cons i p)
  then show ?case
    by (auto simp: redact_path_cons json_path_leaf split: if_splits json.splits)
qed

lemma redact_path_kept:
  "json_path v p = Some (ks, w) \<Longrightarrow> is_leaf w \<Longrightarrow> n + length p \<le> 32 \<Longrightarrow> \<not> list_ex (is_secret_key low) ks
    \<Longrightarrow> json_path (redact_secrets low n v) p = Some (ks, w)"
proof (induction p arbitrary: n v ks)
  case (Cons i p)
  then show ?case by (cases v) (auto simp: redact_path_cons split: if_splits)
qed (simp add: redact_leaf)

lemma redact_copy: "audit_copy low v (redact_secrets low 0 v)"
  unfolding audit_copy_def names_secret_iff REDACTED_def [symmetric]
  using redact_path_hidden redact_path_original redact_path_kept [where n = 0] by fastforce

lemma redact_REDACTED [simp]: "redact_secrets low n REDACTED = REDACTED"
  by (simp add: redact_secrets.simps REDACTED_def)

lemma redact_idem:
  "redact_secrets low n (redact_secrets low n v) = redact_secrets low n v"
  "redact_entries low n (redact_entries low n xs) = redact_entries low n xs"
  "redact_fields low n (redact_fields low n kvs) = redact_fields low n kvs"
proof (induction low n v and low n xs and low n kvs rule: redact_secrets_redact_entries_redact_fields.induct)
  case (1 low depth v)
  then show ?case by (cases v) (simp_all add: redact_secrets.simps [of low depth] REDACTED_def)
qed simp_all

section \<open>Entries\<close>

text \<open>
  A failed insert (a user that no longer exists violates the reference) is swallowed: the request
  goes on and no entry is written.
\<close>

definition record_audit_log :: "(code_unit \<Rightarrow> jstr) \<Rightarrow> int \<Rightarrow> jstr option \<Rightarrow> string \<Rightarrow> string option
    \<Rightarrow> jstr option \<Rightarrow> json option \<Rightarrow> db \<Rightarrow> db" where
  "record_audit_log low now user action tt ti details d =
     (if (case user of None \<Rightarrow> True | Some u \<Rightarrow> find_user d u \<noteq> None)
      then d\<lparr>db_audits := db_audits d @ [\<lparr>au_user = user, au_action = js action,
             au_target_type = map_option js tt, au_target_id = ti,
             au_details = map_option (redact_secrets low 0) details, au_created = now\<rparr>]\<rparr>
      else d)"

text \<open>\<^verbatim>\<open>GET /api/audit-logs\<close>: the newest entries first, at most \<open>limit\<close>.\<close>

definition list_audit_logs :: "nat \<Rightarrow> db \<Rightarrow> audit_row list" where
  "list_audit_logs limit d = take limit (rev (sort_key au_created (db_audits d)))"

lemma record_audit_fields [simp]:
  "db_users (record_audit_log low n u a t i ds d) = db_users d"
  "db_sessions (record_audit_log low n u a t i ds d) = db_sessions d"
  "db_accounts (record_audit_log low n u a t i ds d) = db_accounts d"
  "db_assignments (record_audit_log low n u a t i ds d) = db_assignments d"
  "db_notes (record_audit_log low n u a t i ds d) = db_notes d"
  "db_grants (record_audit_log low n u a t i ds d) = db_grants d"
  "db_bans (record_audit_log low n u a t i ds d) = db_bans d"
  "db_images (record_audit_log low n u a t i ds d) = db_images d"
  "db_earnings (record_audit_log low n u a t i ds d) = db_earnings d"
  "db_logs (record_audit_log low n u a t i ds d) = db_logs d"
  by (simp_all add: record_audit_log_def)

lemma record_audit_ok [simp]: "db_ok (record_audit_log low n u a t i ds d) = db_ok d"
  by (simp add: db_ok_def keys_ok_def refs_ok_def)

lemma record_audit_finds [simp]:
  "find_user (record_audit_log low n u a t i ds d) = find_user d"
  "find_session (record_audit_log low n u a t i ds d) = find_session d"
  "find_account (record_audit_log low n u a t i ds d) = find_account d"
  "is_assigned (record_audit_log low n u a t i ds d) = is_assigned d"
  by (simp_all add: fun_eq_iff find_user_def find_session_def find_account_def is_assigned_def)

text \<open>
  C36. Audit entries keep no value under the name of a secret. Whatever details a handler hands over, an
  entry is written unless its user no longer exists; in what is stored nothing stands under a key that
  reads as one of the seventeen names of passwords, tokens, secrets, cookies and proxies, in any
  spelling and at any depth, apart from the replacement. All the other values down to depth 32 are kept
  at their place, and nothing else is added. It is a statement about the keys: the text of a command that
  a user typed is stored as it is.
\<close>

theorem audit_details_are_redacted:
  "\<exists>new. db_audits (record_audit_log low now u action tt ti details d) = db_audits d @ new
     \<and> length new = (if u = None \<or> (\<exists>v. u = Some v \<and> find_user d v \<noteq> None) then 1 else 0)
     \<and> (\<forall>row \<in> set new. au_user row = u \<and> au_action row = js action \<and> au_created row = now
         \<and> rel_option (audit_copy low) details (au_details row))"
  by (cases details) (auto simp: record_audit_log_def redact_copy split: option.splits)

theorem audit_details_are_redacted_witness:
  "\<exists>row. last (db_audits (record_audit_log (\<lambda>c. [c]) 5 None ''LOGIN'' None None
       (Some (JObj [(js ''n'', JNum 1), (js ''new_Password'', JStr (js ''pw''))])) empty_db)) = row
     \<and> au_created row = 5 \<and> (\<exists>j. au_details row = Some j \<and> json_path j [0] = Some ([js ''n''], JNum 1))"
proof -
  let ?v = "JObj [(js ''n'', JNum 1), (js ''new_Password'', JStr (js ''pw''))]"
  have "\<not> list_ex (names_secret (\<lambda>c. [c])) [js ''n'']" by code_simp
  then have keep: "json_path j [0] = Some ([js ''n''], JNum 1)" if "audit_copy (\<lambda>c. [c]) ?v j" for j
    using that unfolding audit_copy_def by (auto dest: spec [of _ "[0]"])
  obtain new where "db_audits (record_audit_log (\<lambda>c. [c]) 5 None ''LOGIN'' None None (Some ?v) empty_db) = db_audits empty_db @ new"
    "length new = 1" "\<forall>row \<in> set new. au_created row = 5 \<and> rel_option (audit_copy (\<lambda>c. [c])) (Some ?v) (au_details row)"
    using audit_details_are_redacted [of "\<lambda>c. [c]" 5 None "''LOGIN''" None None "Some ?v" empty_db] by auto
  then show ?thesis using keep by (auto simp: length_Suc_conv option_rel_Some1)
qed

end
