(* ===== verification/Sessions.thy ===== *)
theory Sessions
  imports Audit_Log
begin

text \<open>
  Requests, replies and who is behind them: \<^verbatim>\<open>auth/session.ts\<close>, the guards of \<^verbatim>\<open>auth/plugin.ts\<close>, the
  request guard of \<^verbatim>\<open>app.ts\<close> and \<^verbatim>\<open>security/origins.ts\<close>. A guard answers \<open>Some\<close> refusal or lets the
  request pass; the clock is an argument.
\<close>

section \<open>Requests and replies\<close>

datatype http_method = GET | HEAD | OPTIONS | POST | PUT | PATCH | DELETE

text \<open>
  \<open>Refused\<close>: an error reply. \<open>Rejected\<close>: the body or query did not validate (400). \<open>Crashed\<close>: an
  exception that only the error handler answers (500). \<open>Answered\<close>: the code and what is sent.
\<close>

datatype 'a reply = Refused int jstr | Rejected | Crashed | Answered int 'a

fun reply_code :: "'a reply \<Rightarrow> int" where
  "reply_code (Refused c m) = c"
| "reply_code Rejected = 400"
| "reply_code Crashed = 500"
| "reply_code (Answered c x) = c"

fun answer_of :: "'a reply \<Rightarrow> 'a option" where
  "answer_of (Answered c x) = Some x"
| "answer_of _ = None"

lemma answer_of_Some: "answer_of r = Some x \<longleftrightarrow> (\<exists>c. r = Answered c x)"
  by (cases r) auto

record session_context =
  sc_id :: jstr
  sc_csrf :: jstr
  sc_user :: jstr
  sc_name :: jstr
  sc_role :: role
  sc_status :: user_status

record request =
  rq_method :: http_method
  rq_route :: jstr
  rq_ip :: jstr
  rq_origin :: "jstr option"
  rq_cookie :: "jstr option"
  rq_csrf :: "jstr option"
  rq_agent :: "jstr option"
  rq_session :: "session_context option"

definition safe_method :: "http_method \<Rightarrow> bool" where
  "safe_method m \<longleftrightarrow> m = GET \<or> m = HEAD \<or> m = OPTIONS"

section \<open>Sessions (session.ts)\<close>

text \<open>The identifier and the token are fresh random strings of the library.\<close>

definition create_session :: "int \<Rightarrow> int \<Rightarrow> jstr \<Rightarrow> jstr \<Rightarrow> jstr \<Rightarrow> jstr option \<Rightarrow> jstr option \<Rightarrow> db \<Rightarrow> db" where
  "create_session ttl_hours now sid csrf user agent ip d =
     d\<lparr>db_sessions := db_sessions d @ [\<lparr>se_id = sid, se_user = user, se_csrf = csrf, se_created = now,
        se_expires = now + ttl_hours * 60 * 60 * 1000, se_agent = agent, se_ip = ip\<rparr>]\<rparr>"

definition get_session :: "int \<Rightarrow> jstr \<Rightarrow> db \<Rightarrow> db \<times> session_context option" where
  "get_session now sid d = (case find_session d sid of
       None \<Rightarrow> (d, None)
     | Some x \<Rightarrow>
         if se_expires x < now then (d\<lparr>db_sessions := filter (\<lambda>y. se_id y \<noteq> sid) (db_sessions d)\<rparr>, None)
         else (case find_user d (se_user x) of
             None \<Rightarrow> (d, None)
           | Some u \<Rightarrow> if u_status u = DISABLED then (d, None)
               else (d, Some \<lparr>sc_id = se_id x, sc_csrf = se_csrf x, sc_user = u_id u, sc_name = u_name u,
                              sc_role = u_role u, sc_status = u_status u\<rparr>)))"

text \<open>
  Listeners are told which sessions ended: one, all of a user, or all. The sockets react to that.
\<close>

datatype revocation = Revoked_session jstr | Revoked_user jstr | Revoked_all

definition destroy_session :: "jstr \<Rightarrow> db \<Rightarrow> db \<times> revocation" where
  "destroy_session sid d = (d\<lparr>db_sessions := filter (\<lambda>x. se_id x \<noteq> sid) (db_sessions d)\<rparr>, Revoked_session sid)"

definition destroy_all_user_sessions :: "jstr \<Rightarrow> db \<Rightarrow> db \<times> revocation" where
  "destroy_all_user_sessions user d =
     (d\<lparr>db_sessions := filter (\<lambda>x. se_user x \<noteq> user) (db_sessions d)\<rparr>, Revoked_user user)"

definition clear_all_sessions :: "db \<Rightarrow> db \<times> revocation" where
  "clear_all_sessions d = (d\<lparr>db_sessions := []\<rparr>, Revoked_all)"

definition prune_expired_sessions :: "int \<Rightarrow> db \<Rightarrow> db" where
  "prune_expired_sessions now d = d\<lparr>db_sessions := filter (\<lambda>x. \<not> se_expires x < now) (db_sessions d)\<rparr>"

section \<open>Guards (plugin.ts)\<close>

definition public_route :: "jstr \<Rightarrow> bool" where
  "public_route r \<longleftrightarrow> starts_with (js ''/api/assets/'') r \<or> r = js ''/api/health'' \<or> r = js ''/api/auth/login''"

definition attach_session :: "int \<Rightarrow> request \<Rightarrow> db \<Rightarrow> db \<times> request" where
  "attach_session now rq d =
     (if public_route (rq_route rq) then (d, rq)
      else case rq_cookie rq of
          None \<Rightarrow> (d, rq\<lparr>rq_session := None\<rparr>)
        | Some sid \<Rightarrow> if sid = [] then (d, rq\<lparr>rq_session := None\<rparr>)
            else (case get_session now sid d of (d', s) \<Rightarrow> (d', rq\<lparr>rq_session := s\<rparr>)))"

definition require_auth :: "request \<Rightarrow> 'a reply option" where
  "require_auth rq = (if rq_session rq = None then Some (Refused 401 (js ''Unauthorized'')) else None)"

definition require_admin :: "request \<Rightarrow> 'a reply option" where
  "require_admin rq = (case rq_session rq of
       None \<Rightarrow> Some (Refused 401 (js ''Unauthorized''))
     | Some s \<Rightarrow> if sc_role s \<noteq> ADMIN then Some (Refused 403 (js ''Forbidden: admin role required'')) else None)"

definition require_csrf :: "request \<Rightarrow> 'a reply option" where
  "require_csrf rq =
     (if safe_method (rq_method rq) then None
      else case rq_session rq of
          None \<Rightarrow> Some (Refused 401 (js ''Unauthorized''))
        | Some s \<Rightarrow> (case rq_csrf rq of
              None \<Rightarrow> Some (Refused 403 (js ''Invalid or missing CSRF token''))
            | Some t \<Rightarrow> if t = [] \<or> t \<noteq> sc_csrf s
                then Some (Refused 403 (js ''Invalid or missing CSRF token'')) else None))"

text \<open>The hooks of a route run in order until one has answered.\<close>

fun guarded :: "(request \<Rightarrow> 'a reply option) list \<Rightarrow> (request \<Rightarrow> 's \<Rightarrow> 's \<times> 'a reply) \<Rightarrow> request \<Rightarrow> 's \<Rightarrow> 's \<times> 'a reply" where
  "guarded [] h rq d = h rq d"
| "guarded (g # gs) h rq d = (case g rq of Some r \<Rightarrow> (d, r) | None \<Rightarrow> guarded gs h rq d)"

text \<open>All routes need a session; a handler that finds none has been called without its guards.\<close>

definition with_session :: "(session_context \<Rightarrow> request \<Rightarrow> 's \<Rightarrow> 's \<times> 'a reply) \<Rightarrow> request \<Rightarrow> 's \<Rightarrow> 's \<times> 'a reply" where
  "with_session h rq s = (case rq_session rq of None \<Rightarrow> (s, Crashed) | Some sc \<Rightarrow> h sc rq s)"

definition reading :: "(session_context \<Rightarrow> request \<Rightarrow> 's \<Rightarrow> 's \<times> 'a reply) \<Rightarrow> request \<Rightarrow> 's \<Rightarrow> 's \<times> 'a reply" where
  "reading h = guarded [require_auth] (with_session h)"

definition writing :: "(session_context \<Rightarrow> request \<Rightarrow> 's \<Rightarrow> 's \<times> 'a reply) \<Rightarrow> request \<Rightarrow> 's \<Rightarrow> 's \<times> 'a reply" where
  "writing h = guarded [require_auth, require_csrf] (with_session h)"

text \<open>What a history of requests keeps of a reply.\<close>

definition coded :: "'s \<times> 'a reply \<Rightarrow> 's \<times> int" where
  "coded r = (fst r, reply_code (snd r))"

lemma fst_coded [simp]: "fst (coded r) = fst r"
  by (simp add: coded_def)

section \<open>The first guard of every request (app.ts, origins.ts)\<close>

text \<open>\<open>parse\<close> stands for \<^verbatim>\<open>new URL\<close>: protocol and origin, or \<open>None\<close> when it throws.\<close>

definition trusted_origins :: "(jstr \<Rightarrow> (jstr \<times> jstr) option) \<Rightarrow> jstr \<Rightarrow> jstr list \<Rightarrow> jstr list" where
  "trusted_origins parse public_origin cors = concat (map (\<lambda>v. case parse v of
       None \<Rightarrow> [] | Some (p, origin) \<Rightarrow> if p = js ''https:'' \<or> p = js ''http:'' then [origin] else [])
     (public_origin # cors))"

definition is_trusted_origin :: "jstr list \<Rightarrow> jstr option \<Rightarrow> bool" where
  "is_trusted_origin trusted origin = (case origin of None \<Rightarrow> False | Some x \<Rightarrow> x \<in> set trusted)"

definition is_website_socket_path :: "jstr \<Rightarrow> bool" where
  "is_website_socket_path p \<longleftrightarrow> p = js ''/ws/dashboard'' \<or> starts_with (js ''/ws/accounts/'') p"

definition on_request :: "jstr list \<Rightarrow> (jstr \<Rightarrow> bool) \<Rightarrow> request \<Rightarrow> 'a reply option" where
  "on_request trusted banned rq =
     (if banned (rq_ip rq) then Some (Refused 403 (js ''Your IP address has been blocked''))
      else if (is_website_socket_path (rq_route rq)
               \<or> (rq_origin rq \<noteq> None \<and> \<not> safe_method (rq_method rq)))
              \<and> \<not> is_trusted_origin trusted (rq_origin rq)
        then Some (Refused 403 (js ''Untrusted request origin'')) else None)"

section \<open>Lemmas\<close>

lemma guarded_passes:
  assumes "list_all (\<lambda>g. g rq = None) gs"
  shows "guarded gs h rq d = h rq d"
  using assms by (induction gs) auto

lemma guarded_refuses:
  assumes "g rq = Some r" and "list_all (\<lambda>g. g rq = None) gs"
  shows "guarded (gs @ g # gs') h rq d = (d, r)"
  using assms by (induction gs) auto

lemma guarded_answered:
  "snd (guarded gs h rq d) = Answered c x \<Longrightarrow> (\<forall>g \<in> set gs. \<forall>r. g rq = Some r \<longrightarrow> (\<forall>c x. r \<noteq> Answered c x))
    \<Longrightarrow> guarded gs h rq d = h rq d"
  by (induction gs) (auto split: option.splits)

lemma require_auth_None [simp]: "require_auth rq = None \<longleftrightarrow> rq_session rq \<noteq> None"
  by (simp add: require_auth_def)

lemma require_admin_None: "require_admin rq = None \<longleftrightarrow> (\<exists>s. rq_session rq = Some s \<and> sc_role s = ADMIN)"
  by (auto simp: require_admin_def split: option.splits)

lemma require_csrf_None:
  "require_csrf rq = None \<longleftrightarrow> safe_method (rq_method rq)
     \<or> (\<exists>s. rq_session rq = Some s \<and> rq_csrf rq = Some (sc_csrf s) \<and> sc_csrf s \<noteq> [])"
  by (auto simp: require_csrf_def split: option.splits)

lemma get_session_context:
  assumes "get_session now sid d = (d', Some s)"
  shows "d' = d" and "\<exists>x u. x \<in> set (db_sessions d) \<and> se_id x = sid \<and> now \<le> se_expires x
    \<and> u \<in> set (db_users d) \<and> u_id u = se_user x \<and> u_status u = ACTIVE
    \<and> s = \<lparr>sc_id = sid, sc_csrf = se_csrf x, sc_user = u_id u, sc_name = u_name u, sc_role = u_role u, sc_status = ACTIVE\<rparr>"
proof -
  obtain x where x: "find_session d sid = Some x" "\<not> se_expires x < now"
    using assms by (cases "find_session d sid") (simp_all add: get_session_def split: if_split_asm)
  obtain u where u: "find_user d (se_user x) = Some u" "u_status u \<noteq> DISABLED"
    using assms x by (cases "find_user d (se_user x)") (simp_all add: get_session_def split: if_split_asm)
  have s: "d' = d" "s = \<lparr>sc_id = se_id x, sc_csrf = se_csrf x, sc_user = u_id u, sc_name = u_name u,
        sc_role = u_role u, sc_status = u_status u\<rparr>"
    using assms x u by (simp_all add: get_session_def)
  have "u_status u = ACTIVE" using u(2) by (cases "u_status u") auto
  then show "\<exists>x u. x \<in> set (db_sessions d) \<and> se_id x = sid \<and> now \<le> se_expires x
    \<and> u \<in> set (db_users d) \<and> u_id u = se_user x \<and> u_status u = ACTIVE
    \<and> s = \<lparr>sc_id = sid, sc_csrf = se_csrf x, sc_user = u_id u, sc_name = u_name u, sc_role = u_role u, sc_status = ACTIVE\<rparr>"
    using x u s find_session_Some [OF x(1)] find_user_Some [OF u(1)]
    by (intro exI [of _ x] exI [of _ u]) simp
  show "d' = d" by (rule s)
qed

lemma db_ok_sessions:
  assumes "db_ok d" and "set xs \<subseteq> set (db_sessions d)" and "distinct (map se_id xs)"
  shows "db_ok (d\<lparr>db_sessions := xs\<rparr>)"
proof -
  have "\<forall>x \<in> set xs. se_user x \<in> u_id ` set (db_users d)"
    using assms(1,2) refs_okD(1) unfolding db_ok_def by blast
  then have "refs_ok (d\<lparr>db_sessions := xs\<rparr>)"
    using assms(1) by (simp add: db_ok_def refs_ok_def Let_def)
  then show ?thesis using assms by (simp add: db_ok_def keys_ok_def)
qed

lemma db_ok_filter_sessions: "db_ok d \<Longrightarrow> db_ok (d\<lparr>db_sessions := filter P (db_sessions d)\<rparr>)"
  by (rule db_ok_sessions) (auto simp: db_ok_def keys_ok_def distinct_map_filter)

lemma create_session_ok:
  assumes "db_ok d" and "find_user d user \<noteq> None" and "find_session d sid = None"
  shows "db_ok (create_session ttl now sid csrf user agent ip d)"
proof -
  have u: "user \<in> u_id ` set (db_users d)" using assms(2) by (simp add: find_user_None)
  have s: "sid \<notin> se_id ` set (db_sessions d)"
    using assms(3) by (auto simp: find_session_def find_None_iff)
  have "refs_ok (create_session ttl now sid csrf user agent ip d)"
    using assms(1) u by (simp add: db_ok_def refs_ok_def Let_def create_session_def)
  then show ?thesis using assms(1) s by (simp add: db_ok_def keys_ok_def create_session_def)
qed

lemma writing_run:
  "writing h rq s = (case rq_session rq of
       None \<Rightarrow> (s, Refused 401 (js ''Unauthorized''))
     | Some sc \<Rightarrow> (case require_csrf rq of Some r \<Rightarrow> (s, r) | None \<Rightarrow> h sc rq s))"
  by (cases "rq_session rq") (auto simp: writing_def with_session_def require_auth_def split: option.splits)

lemma writing_ok: "P s \<Longrightarrow> (\<And>sc. P (fst (h sc rq s))) \<Longrightarrow> P (fst (writing h rq s))"
  by (auto simp: writing_run split: option.splits)

lemma csrf_code: "require_csrf rq = Some r \<Longrightarrow> reply_code r = 401 \<or> reply_code r = 403"
  by (auto simp: require_csrf_def split: if_splits option.splits)

section \<open>Requests for the witnesses\<close>

definition demo_context :: "string \<Rightarrow> role \<Rightarrow> session_context" where
  "demo_context n r = \<lparr>sc_id = [1], sc_csrf = [1], sc_user = js n, sc_name = js n, sc_role = r, sc_status = ACTIVE\<rparr>"

definition demo_rq :: "string \<Rightarrow> role \<Rightarrow> request" where
  "demo_rq n r = \<lparr>rq_method = POST, rq_route = [], rq_ip = [], rq_origin = None, rq_cookie = None, rq_csrf = Some [1],
     rq_agent = None, rq_session = Some (demo_context n r)\<rparr>"

end
