(* ===== verification/Schemas.thy ===== *)
theory Schemas
  imports Client_Types
begin

text \<open>
  The pieces of zod that the request schemas use, on parsed JSON: a reader takes a field (\<open>None\<close> for
  an absent key) and returns the value or \<open>None\<close> when it does not validate. Lengths are numbers of
  UTF-16 code units, as in JavaScript. An object schema that is not strict ignores other keys.
\<close>

type_synonym 'a reader = "json option \<Rightarrow> 'a option"

definition z_string :: "nat \<Rightarrow> nat \<Rightarrow> jstr reader" where
  "z_string lo hi f = (case f of
       Some (JStr s) \<Rightarrow> if lo \<le> length s \<and> length s \<le> hi then Some s else None
     | _ \<Rightarrow> None)"

definition z_trimmed :: "nat \<Rightarrow> nat \<Rightarrow> jstr reader" where
  "z_trimmed lo hi f = (case f of
       Some (JStr s) \<Rightarrow> if lo \<le> length (trim s) \<and> length (trim s) \<le> hi then Some (trim s) else None
     | _ \<Rightarrow> None)"

definition z_bool :: "bool reader" where
  "z_bool f = (case f of Some (JBool b) \<Rightarrow> Some b | _ \<Rightarrow> None)"

definition z_enum :: "(string \<times> 'a) list \<Rightarrow> 'a reader" where
  "z_enum alts f = (case f of Some (JStr s) \<Rightarrow> map_of (map (\<lambda>(n, v). (js n, v)) alts) s | _ \<Rightarrow> None)"

definition z_optional :: "'a reader \<Rightarrow> 'a option reader" where
  "z_optional r f = (case f of None \<Rightarrow> Some None | Some j \<Rightarrow> map_option Some (r (Some j)))"

definition z_default :: "'a \<Rightarrow> 'a reader \<Rightarrow> 'a reader" where
  "z_default d r f = (case f of None \<Rightarrow> Some d | Some j \<Rightarrow> r (Some j))"

definition z_refine :: "('a \<Rightarrow> bool) \<Rightarrow> 'a reader \<Rightarrow> 'a reader" where
  "z_refine P r f = (case r f of Some x \<Rightarrow> if P x then Some x else None | None \<Rightarrow> None)"

fun all_some :: "'a option list \<Rightarrow> 'a list option" where
  "all_some [] = Some []"
| "all_some (None # xs) = None"
| "all_some (Some x # xs) = map_option ((#) x) (all_some xs)"

definition z_array :: "nat \<Rightarrow> nat \<Rightarrow> 'a reader \<Rightarrow> 'a list reader" where
  "z_array lo hi r f = (case f of
       Some (JArr xs) \<Rightarrow> if lo \<le> length xs \<and> length xs \<le> hi then all_some (map (\<lambda>x. r (Some x)) xs) else None
     | _ \<Rightarrow> None)"

definition is_object :: "json \<Rightarrow> bool" where
  "is_object j = (case j of JObj _ \<Rightarrow> True | _ \<Rightarrow> False)"

text \<open>A strict object has no key beside the listed ones.\<close>

definition z_strict :: "string list \<Rightarrow> json \<Rightarrow> bool" where
  "z_strict ks j = (case j of JObj kvs \<Rightarrow> list_all (\<lambda>(k, v). k \<in> set (map js ks)) kvs | _ \<Rightarrow> False)"

text \<open>
  \<^verbatim>\<open>z.coerce.number()\<close>: \<open>coerce\<close> is \<^verbatim>\<open>Number(x)\<close> of the runtime, with \<open>None\<close> for \<^verbatim>\<open>NaN\<close> and infinities,
  which the ranges reject in any case.
\<close>

definition z_number :: "(json option \<Rightarrow> rat option) \<Rightarrow> rat \<Rightarrow> rat \<Rightarrow> rat reader" where
  "z_number coerce lo hi f = (case coerce f of Some x \<Rightarrow> if lo \<le> x \<and> x \<le> hi then Some x else None | None \<Rightarrow> None)"

definition z_int :: "(json option \<Rightarrow> rat option) \<Rightarrow> int \<Rightarrow> int \<Rightarrow> int reader" where
  "z_int coerce lo hi f = (case z_number coerce (of_int lo) (of_int hi) f of
       Some x \<Rightarrow> if x = of_int \<lfloor>x\<rfloor> then Some \<lfloor>x\<rfloor> else None | None \<Rightarrow> None)"

section \<open>Character classes of the names\<close>

definition name_char :: "code_unit \<Rightarrow> bool" where
  "name_char c \<longleftrightarrow> (97 \<le> c \<and> c \<le> 122) \<or> (65 \<le> c \<and> c \<le> 90) \<or> (48 \<le> c \<and> c \<le> 57) \<or> c = 95"

definition login_char :: "code_unit \<Rightarrow> bool" where
  "login_char c \<longleftrightarrow> name_char c \<or> c = 45"

lemma z_string_Some: "z_string lo hi f = Some s \<longleftrightarrow> f = Some (JStr s) \<and> lo \<le> length s \<and> length s \<le> hi"
  by (auto simp: z_string_def split: option.splits json.splits)

lemma z_refine_Some: "z_refine P r f = Some x \<longleftrightarrow> r f = Some x \<and> P x"
  by (auto simp: z_refine_def split: option.splits)

lemma all_some_Some: "all_some xs = Some ys \<longleftrightarrow> xs = map Some ys"
  by (induction xs arbitrary: ys rule: all_some.induct) auto

end
