(* ===== verification/Ip_Bans.thy ===== *)
theory Ip_Bans
  imports Sessions Schemas
begin

text \<open>
  \<^verbatim>\<open>backend/src/security/ipBans.ts\<close> and \<^verbatim>\<open>routes.ts\<close>: the cache of banned addresses that guards every
  request, the sliding window of failed logins that bans on its own, and the routes of the admins.
  The state of the service is the database, the two in-memory maps and the sequence of revocations
  its listeners were told.
\<close>

section \<open>State\<close>

record service =
  sv_db :: db
  banned_ips :: "jstr list"
  failed_logins :: "(jstr, int list) jmap"
  revocations :: "revocation list"

definition start_service :: "db \<Rightarrow> service" where
  "start_service d = \<lparr>sv_db = d, banned_ips = [], failed_logins = [], revocations = []\<rparr>"

definition AUTO_BAN_THRESHOLD :: nat where "AUTO_BAN_THRESHOLD = 15"
definition AUTO_BAN_WINDOW_MS :: int where "AUTO_BAN_WINDOW_MS = 600000"

lemmas ban_limits = AUTO_BAN_THRESHOLD_def AUTO_BAN_WINDOW_MS_def

definition load_banned_ips :: "service \<Rightarrow> service" where
  "load_banned_ips s = s\<lparr>banned_ips := uniq (map b_ip (db_bans (sv_db s)))\<rparr>"

definition is_ip_banned :: "service \<Rightarrow> jstr option \<Rightarrow> bool" where
  "is_ip_banned s ip = (case ip of None \<Rightarrow> False | Some i \<Rightarrow> i \<noteq> [] \<and> i \<in> set (banned_ips s))"

definition add_banned :: "jstr \<Rightarrow> jstr list \<Rightarrow> jstr list" where
  "add_banned ip xs = (if ip \<in> set xs then xs else xs @ [ip])"

section \<open>Banning\<close>

text \<open>
  The row is inserted, or its reason and origin are replaced; the author of a ban stays the first.
  A creator that does not exist violates the reference (\<open>None\<close>).
\<close>

definition upsert_ban :: "jstr \<Rightarrow> jstr option \<Rightarrow> bool \<Rightarrow> jstr option \<Rightarrow> db \<Rightarrow> db option" where
  "upsert_ban ip reason auto creator d =
     (if list_ex (\<lambda>b. b_ip b = ip) (db_bans d)
      then Some (d\<lparr>db_bans := map (\<lambda>b. if b_ip b = ip then b\<lparr>b_reason := reason, b_auto := auto\<rparr> else b) (db_bans d)\<rparr>)
      else if (case creator of None \<Rightarrow> False | Some u \<Rightarrow> find_user d u = None) then None
      else Some (d\<lparr>db_bans := db_bans d @ [\<lparr>b_ip = ip, b_reason = reason, b_auto = auto, b_by = creator\<rparr>]\<rparr>))"

definition ban_ip :: "jstr \<Rightarrow> jstr option \<Rightarrow> bool \<Rightarrow> jstr option \<Rightarrow> service \<Rightarrow> service option" where
  "ban_ip ip reason auto creator s = (case upsert_ban ip reason auto creator (sv_db s) of
       None \<Rightarrow> None
     | Some d \<Rightarrow> Some (s\<lparr>sv_db := d, banned_ips := add_banned ip (banned_ips s)\<rparr>))"

definition unban_ip :: "jstr \<Rightarrow> service \<Rightarrow> service" where
  "unban_ip ip s = s\<lparr>sv_db := (sv_db s)\<lparr>db_bans := filter (\<lambda>b. b_ip b \<noteq> ip) (db_bans (sv_db s))\<rparr>,
     banned_ips := filter (\<lambda>x. x \<noteq> ip) (banned_ips s),
     failed_logins := AList.delete ip (failed_logins s)\<rparr>"

definition register_failed_login :: "int \<Rightarrow> jstr option \<Rightarrow> service \<Rightarrow> service \<times> bool" where
  "register_failed_login now addr s = (case addr of
       None \<Rightarrow> (s, False)
     | Some ip \<Rightarrow>
         if ip = [] then (s, False)
         else (let old = (case map_of (failed_logins s) ip of None \<Rightarrow> [] | Some ts \<Rightarrow> ts);
                   hits = filter (\<lambda>t. now - t < AUTO_BAN_WINDOW_MS) old @ [now];
                   s1 = s\<lparr>failed_logins := AList.update ip hits (failed_logins s)\<rparr> in
           if length hits \<ge> AUTO_BAN_THRESHOLD \<and> ip \<notin> set (banned_ips s1) then
             (case ban_ip ip (Some (js ''Auto-banned after '' @ show_nat (length hits) @ js '' failed logins'')) True None s1 of
                None \<Rightarrow> (s1, False)
              | Some s2 \<Rightarrow> (s2\<lparr>failed_logins := AList.delete ip (failed_logins s2)\<rparr>, True))
           else (s1, False)))"

definition clear_failed_logins :: "jstr option \<Rightarrow> service \<Rightarrow> service" where
  "clear_failed_logins addr s = (case addr of
       None \<Rightarrow> s
     | Some ip \<Rightarrow> if ip = [] then s else s\<lparr>failed_logins := AList.delete ip (failed_logins s)\<rparr>)"

section \<open>Routes\<close>

text \<open>\<open>is_ip\<close> is \<^verbatim>\<open>net.isIP(v) !== 0\<close> of the runtime.\<close>

definition parse_ban :: "(jstr \<Rightarrow> bool) \<Rightarrow> json \<Rightarrow> (jstr \<times> jstr option) option" where
  "parse_ban is_ip body = (if \<not> is_object body then None else
     case (z_refine is_ip (z_trimmed 0 45) (json_field body ''ip''),
           z_optional (z_string 0 200) (json_field body ''reason'')) of
       (Some ip, Some reason) \<Rightarrow> Some (ip, reason)
     | _ \<Rightarrow> None)"

definition post_ip_ban :: "(code_unit \<Rightarrow> jstr) \<Rightarrow> (jstr \<Rightarrow> bool) \<Rightarrow> int \<Rightarrow> json \<Rightarrow> request \<Rightarrow> service \<Rightarrow> service \<times> unit reply" where
  "post_ip_ban low is_ip now body = guarded [require_admin, require_csrf] (\<lambda>rq s.
     case parse_ban is_ip body of
       None \<Rightarrow> (s, Rejected)
     | Some (ip, reason) \<Rightarrow>
         if ip = rq_ip rq then (s, Refused 400 (js ''You cannot ban your own current IP address''))
         else (let me = map_option sc_user (rq_session rq) in
           case ban_ip ip reason False me s of
             None \<Rightarrow> (s, Crashed)
           | Some s1 \<Rightarrow> (s1\<lparr>sv_db := record_audit_log low now me ''IP_BAN'' (Some ''BannedIp'') (Some ip)
                 (Some (JObj (case reason of None \<Rightarrow> [] | Some r \<Rightarrow> [(js ''reason'', JStr r)]))) (sv_db s1)\<rparr>,
               Answered 201 ())))"

definition delete_ip_ban :: "(code_unit \<Rightarrow> jstr) \<Rightarrow> int \<Rightarrow> jstr \<Rightarrow> request \<Rightarrow> service \<Rightarrow> service \<times> unit reply" where
  "delete_ip_ban low now ip = guarded [require_admin, require_csrf] (\<lambda>rq s.
     (let s1 = unban_ip ip s in
      (s1\<lparr>sv_db := record_audit_log low now (map_option sc_user (rq_session rq)) ''IP_UNBAN''
           (Some ''BannedIp'') (Some ip) None (sv_db s1)\<rparr>, Answered 204 ())))"

definition get_ip_bans :: "request \<Rightarrow> service \<Rightarrow> service \<times> ban_row list reply" where
  "get_ip_bans = guarded [require_admin] (\<lambda>rq s. (s, Answered 200 (rev (db_bans (sv_db s)))))"

section \<open>The cache mirrors the table\<close>

definition cache_ok :: "service \<Rightarrow> bool" where
  "cache_ok s \<longleftrightarrow> set (banned_ips s) = b_ip ` set (db_bans (sv_db s))"

lemma set_add_banned [simp]: "set (add_banned ip xs) = insert ip (set xs)"
  by (auto simp: add_banned_def)

lemma upsert_ips:
  assumes "upsert_ban ip r a b d = Some d'"
  shows "b_ip ` set (db_bans d') = insert ip (b_ip ` set (db_bans d))"
proof (cases "list_ex (\<lambda>b. b_ip b = ip) (db_bans d)")
  case True
  let ?f = "\<lambda>b. if b_ip b = ip then b\<lparr>b_reason := r, b_auto := a\<rparr> else b"
  have "b_ip ` set (map ?f (db_bans d)) = b_ip ` set (db_bans d)"
    by (rule set_of_keys, rule distinct_map_keyed) simp
  moreover have "ip \<in> b_ip ` set (db_bans d)" using True by (auto simp: list_ex_iff)
  moreover have "db_bans d' = map ?f (db_bans d)" using True assms by (auto simp: upsert_ban_def)
  ultimately show ?thesis by (simp only: insert_absorb)
next
  case False
  then show ?thesis using assms by (auto simp: upsert_ban_def split: if_splits)
qed

lemma ban_ip_Some:
  assumes "ban_ip ip r a b s = Some s'"
  shows "banned_ips s' = add_banned ip (banned_ips s)" and "failed_logins s' = failed_logins s"
    and "b_ip ` set (db_bans (sv_db s')) = insert ip (b_ip ` set (db_bans (sv_db s)))"
  using assms by (auto simp: ban_ip_def dest!: upsert_ips split: option.splits)

lemma ban_ip_cache: "cache_ok s \<Longrightarrow> ban_ip ip r a b s = Some s' \<Longrightarrow> cache_ok s'"
  by (simp add: cache_ok_def ban_ip_Some)

lemma unban_ip_cache: "cache_ok s \<Longrightarrow> cache_ok (unban_ip ip s)"
  by (auto simp: unban_ip_def cache_ok_def)

lemma load_cache: "cache_ok (load_banned_ips s)"
  by (simp add: load_banned_ips_def cache_ok_def)

lemma ban_auto_works: "ban_ip ip r a None s \<noteq> None"
  by (simp add: ban_ip_def upsert_ban_def split: option.splits)

lemma register_cache: "cache_ok s \<Longrightarrow> cache_ok (fst (register_failed_login now addr s))"
  by (auto simp: register_failed_login_def Let_def cache_ok_def ban_ip_Some split: option.splits)

section \<open>The sliding window\<close>

text \<open>A run of failed logins from one address.\<close>

definition fail_run :: "jstr \<Rightarrow> int list \<Rightarrow> service \<Rightarrow> service" where
  "fail_run ip ts s = foldl (\<lambda>s t. fst (register_failed_login t (Some ip) s)) s ts"

lemma fail_run_snoc: "fail_run ip (ts @ [t]) s = fst (register_failed_login t (Some ip) (fail_run ip ts s))"
  by (simp add: fail_run_def)

text \<open>In a sorted list an upward closed predicate selects a suffix.\<close>

lemma length_filter_sorted:
  assumes "sorted ys" and "\<And>a b. a \<le> b \<Longrightarrow> P a \<Longrightarrow> P b"
  shows "k \<le> length (filter P ys) \<longleftrightarrow> k \<le> length ys \<and> (k = 0 \<or> P (ys ! (length ys - k)))"
  using assms(1)
proof (induction ys)
  case (Cons y ys)
  show ?case
  proof (cases "P y")
    case True
    then have all: "P z" if "z \<in> set (y # ys)" for z
      using that Cons.prems assms(2) [OF _ True, of z] by auto
    then have "filter P (y # ys) = y # ys" by (meson filter_True)
    moreover have "P ((y # ys) ! (length (y # ys) - k))" if "k \<noteq> 0"
      using that by (intro all nth_mem) simp
    ultimately show ?thesis by auto
  next
    case False
    then show ?thesis using Cons
      by (cases "k = Suc (length ys)") (auto simp: nth_Cons' Suc_diff_le not_less_eq_eq)
  qed
qed auto

definition burst :: "int list \<Rightarrow> bool" where
  "burst ts \<longleftrightarrow> (\<exists>i < length ts. 14 \<le> i \<and> ts ! i - ts ! (i - 14) < AUTO_BAN_WINDOW_MS)"

lemma burst_snoc:
  "burst (ts @ [t]) \<longleftrightarrow> burst ts \<or> (14 \<le> length ts \<and> t - (ts @ [t]) ! (length ts - 14) < AUTO_BAN_WINDOW_MS)"
proof -
  let ?Q = "\<lambda>i. 14 \<le> i \<and> (ts @ [t]) ! i - (ts @ [t]) ! (i - 14) < AUTO_BAN_WINDOW_MS"
  have same: "?Q i \<longleftrightarrow> 14 \<le> i \<and> ts ! i - ts ! (i - 14) < AUTO_BAN_WINDOW_MS" if "i < length ts" for i
    using that by (simp add: nth_append less_imp_diff_less)
  have "burst (ts @ [t]) \<longleftrightarrow> (\<exists>i < Suc (length ts). ?Q i)" by (simp add: burst_def)
  also have "\<dots> \<longleftrightarrow> (\<exists>i < length ts. ?Q i) \<or> ?Q (length ts)" unfolding less_Suc_eq by blast
  also have "(\<exists>i < length ts. ?Q i) \<longleftrightarrow> burst ts" unfolding burst_def using same by blast
  finally show ?thesis by simp
qed

lemma filter_window: "t' \<le> t \<Longrightarrow> filter (\<lambda>x. t - x < W) (filter (\<lambda>x. t' - x < W) xs) = filter (\<lambda>x. t - x < (W::int)) xs"
  by (induction xs) auto

lemma register_banned: "ip \<in> set (banned_ips s) \<Longrightarrow> ip \<in> set (banned_ips (fst (register_failed_login t a s)))"
  by (auto simp: register_failed_login_def Let_def ban_ip_def split: option.splits)

lemma fail_run_state:
  assumes "sorted ts" and "ip \<noteq> []" and "ip \<notin> set (banned_ips s)" and "map_of (failed_logins s) ip = None"
  shows "if burst ts then ip \<in> set (banned_ips (fail_run ip ts s))
     else ip \<notin> set (banned_ips (fail_run ip ts s))
       \<and> (case map_of (failed_logins (fail_run ip ts s)) ip of None \<Rightarrow> [] | Some hs \<Rightarrow> hs)
           = filter (\<lambda>x. last ts - x < AUTO_BAN_WINDOW_MS) ts"
  using assms(1)
proof (induction ts rule: rev_induct)
  case Nil
  then show ?case using assms by (simp add: burst_def fail_run_def)
next
  case (snoc t ts)
  let ?s = "fail_run ip ts s" and ?W = AUTO_BAN_WINDOW_MS
  have sorted: "sorted ts" "\<forall>x \<in> set ts. x \<le> t" using snoc.prems by (auto simp: sorted_append)
  show ?case
  proof (cases "burst ts")
    case True
    then show ?thesis using snoc.IH [OF sorted(1)] register_banned by (simp add: fail_run_snoc burst_snoc)
  next
    case False
    define old where "old = (case map_of (failed_logins ?s) ip of None \<Rightarrow> [] | Some hs \<Rightarrow> hs)"
    define hits where "hits = filter (\<lambda>x. t - x < ?W) old @ [t]"
    have nb: "ip \<notin> set (banned_ips ?s)" and o: "old = filter (\<lambda>x. last ts - x < ?W) ts"
      using snoc.IH [OF sorted(1)] False by (auto simp: old_def)
    have W: "0 < ?W" by (simp add: ban_limits)
    have "filter (\<lambda>x. t - x < ?W) old = filter (\<lambda>x. t - x < ?W) ts"
    proof (cases ts rule: rev_cases)
      case (snoc us u)
      then show ?thesis unfolding o using sorted(2) by (intro filter_window) simp
    qed (simp add: o)
    then have hits: "hits = filter (\<lambda>x. t - x < ?W) (ts @ [t])" using W by (simp add: hits_def)
    have len: "15 \<le> length hits \<longleftrightarrow> 14 \<le> length ts \<and> t - (ts @ [t]) ! (length ts - 14) < ?W"
      unfolding hits using snoc.prems by (subst length_filter_sorted) (auto simp: Suc_diff_le)
    let ?u = "?s\<lparr>failed_logins := AList.update ip hits (failed_logins ?s)\<rparr>"
    obtain s2 where s2: "ban_ip ip (Some (js ''Auto-banned after '' @ show_nat (length hits) @ js '' failed logins''))
        True None ?u = Some s2"
      using ban_auto_works by blast
    have step: "fail_run ip (ts @ [t]) s =
        (if 15 \<le> length hits then s2\<lparr>failed_logins := AList.delete ip (failed_logins s2)\<rparr> else ?u)"
      using nb assms(2) s2 unfolding fail_run_snoc register_failed_login_def Let_def
      by (simp add: AUTO_BAN_THRESHOLD_def flip: old_def hits_def)
    show ?thesis
    proof (cases "15 \<le> length hits")
      case True
      then have "burst (ts @ [t])" using len by (simp add: burst_snoc)
      moreover have "ip \<in> set (banned_ips (fail_run ip (ts @ [t]) s))"
        using True step ban_ip_Some(1) [OF s2] by simp
      ultimately show ?thesis by simp
    next
      case F: False
      then have "\<not> burst (ts @ [t])" using len False by (simp add: burst_snoc)
      moreover have "fail_run ip (ts @ [t]) s = ?s\<lparr>failed_logins := AList.update ip hits (failed_logins ?s)\<rparr>"
        using F step by simp
      ultimately show ?thesis using nb hits by simp
    qed
  qed
qed

lemma post_ban_safe:
  assumes "cache_ok s"
  shows "(rq_ip rq \<in> set (banned_ips (fst (post_ip_ban low is_ip now body rq s))) \<longrightarrow> rq_ip rq \<in> set (banned_ips s))
    \<and> cache_ok (fst (post_ip_ban low is_ip now body rq s))"
  using assms by (auto simp: post_ip_ban_def Let_def cache_ok_def ban_ip_Some split: option.splits)

lemma delete_ban_safe:
  assumes "cache_ok s"
  shows "(rq_ip rq \<in> set (banned_ips (fst (delete_ip_ban low now ip rq s))) \<longrightarrow> rq_ip rq \<in> set (banned_ips s))
    \<and> cache_ok (fst (delete_ip_ban low now ip rq s))"
  using unban_ip_cache [OF assms] assms
  by (auto simp: delete_ip_ban_def Let_def cache_ok_def unban_ip_def split: option.splits)

section \<open>Properties\<close>

text \<open>
  C35. An address that has not failed before is shut out of the whole service exactly when fifteen of
  its failed logins fall within ten minutes: then and only then every further request from it is
  answered 403 before anything else is looked at.
\<close>

theorem auto_ban_iff_burst:
  assumes "sorted ts" and "rq_ip rq \<noteq> []" and "\<not> is_ip_banned s (Some (rq_ip rq))"
    and "map_of (failed_logins s) (rq_ip rq) = None"
  shows "on_request trusted (\<lambda>a. is_ip_banned (fail_run (rq_ip rq) ts s) (Some a)) rq
         = Some (Refused 403 (js ''Your IP address has been blocked''))
     \<longleftrightarrow> (\<exists>i < length ts. 14 \<le> i \<and> ts ! i - ts ! (i - 14) < 600000)"
proof -
  have "rq_ip rq \<notin> set (banned_ips s)" using assms(2,3) by (simp add: is_ip_banned_def)
  from fail_run_state [OF assms(1,2) this assms(4)]
  have "rq_ip rq \<in> set (banned_ips (fail_run (rq_ip rq) ts s)) \<longleftrightarrow> burst ts" by (auto split: if_splits)
  then show ?thesis
    using assms(2) by (auto simp: on_request_def is_ip_banned_def burst_def ban_limits)
qed

definition demo_request :: request where
  "demo_request = \<lparr>rq_method = POST, rq_route = js ''/api/auth/login'', rq_ip = js ''203.0.113.7'', rq_origin = None,
     rq_cookie = None, rq_csrf = None, rq_agent = None, rq_session = None\<rparr>"

theorem auto_ban_iff_burst_witness:
  "on_request [] (\<lambda>a. is_ip_banned (fail_run (js ''203.0.113.7'') (map (\<lambda>i. int i * 1000) [0..<15])
       (start_service empty_db)) (Some a)) demo_request
     = Some (Refused 403 (js ''Your IP address has been blocked''))"
proof -
  have "sorted (map (\<lambda>i. int i * 1000) [0..<15])" by (simp add: upt_conv_Cons)
  moreover have ip: "rq_ip demo_request = js ''203.0.113.7''" "rq_ip demo_request \<noteq> []"
    by (simp_all add: demo_request_def js_def)
  ultimately show ?thesis
    using auto_ban_iff_burst [of "map (\<lambda>i. int i * 1000) [0..<15]" demo_request
        "(start_service empty_db)" "[]"]
    by (simp add: start_service_def is_ip_banned_def exI [of _ 14] flip: ip(1))
qed

text \<open>
  The admin routes cannot lock their caller out: whatever is sent to them, a request from the
  caller's own address is not banned afterwards unless it was before, and the cache still holds
  exactly the addresses of the table.
\<close>

theorem admin_cannot_lock_self_out:
  assumes "cache_ok s" and "s' \<in> {fst (post_ip_ban low is_ip now body rq s), fst (delete_ip_ban low now ip rq s)}"
  shows "(is_ip_banned s' (Some (rq_ip rq)) \<longrightarrow> is_ip_banned s (Some (rq_ip rq))) \<and> cache_ok s'"
  using assms post_ban_safe [OF assms(1)] delete_ban_safe [OF assms(1)]
  by (auto simp: is_ip_banned_def)

theorem admin_cannot_lock_self_out_witness:
  "cache_ok (fst (post_ip_ban (\<lambda>c. [c]) (\<lambda>_. True) 0 JNull demo_request (start_service empty_db)))"
  using admin_cannot_lock_self_out [of "(start_service empty_db)"
      "fst (post_ip_ban (\<lambda>c. [c]) (\<lambda>_. True) 0 JNull demo_request (start_service empty_db))"
      "\<lambda>c. [c]" "\<lambda>_. True" 0 JNull demo_request "[]"]
  by (simp add: cache_ok_def empty_db_def start_service_def)

end
