(* ===== verification/Users.thy ===== *)
theory Users
  imports Ip_Bans
begin

text \<open>
  \<^verbatim>\<open>backend/src/users\<close>: the accounts of the website. Lookup by name (\<^verbatim>\<open>username.ts\<close>), the schemas, the
  service and the routes, which only admins may call. \<open>hash\<close> is the password hash of the library.
\<close>

section \<open>Names\<close>

text \<open>SQLite compares with \<^verbatim>\<open>NOCASE\<close>: ASCII letters are folded, nothing else.\<close>

definition nocase :: "jstr \<Rightarrow> jstr" where
  "nocase s = map (\<lambda>c. if 65 \<le> c \<and> c \<le> 90 then c + 32 else c) s"

definition find_username_matches :: "jstr \<Rightarrow> db \<Rightarrow> jstr list" where
  "find_username_matches name d = take 2 (map u_id (filter (\<lambda>u. nocase (u_name u) = nocase (trim name)) (db_users d)))"

text \<open>The exact lookup of another user (\<^verbatim>\<open>accessLookup.ts\<close>); ambiguous names are nobody.\<close>

definition find_access_user :: "jstr \<Rightarrow> db \<Rightarrow> (jstr \<times> jstr) option" where
  "find_access_user name d = (case find_username_matches name d of
       [i] \<Rightarrow> (case find (\<lambda>u. u_id u = i \<and> u_status u = ACTIVE) (db_users d) of
                 Some u \<Rightarrow> Some (u_id u, u_name u) | None \<Rightarrow> None)
     | _ \<Rightarrow> None)"

definition parse_access_lookup :: "json \<Rightarrow> jstr option" where
  "parse_access_lookup body =
     (if z_strict [''username''] body then z_trimmed 1 64 (json_field body ''username'') else None)"

section \<open>Schemas (schemas.ts)\<close>

definition z_minecraft_username :: "jstr option reader" where
  "z_minecraft_username f = (case f of
       Some (JStr s) \<Rightarrow>
         if trim s = [] then Some None
         else if 3 \<le> length (trim s) \<and> length (trim s) \<le> 16 \<and> list_all name_char (trim s) then Some (Some (trim s))
         else None
     | Some JNull \<Rightarrow> Some None
     | _ \<Rightarrow> None)"

record create_user_input =
  cu_name :: jstr
  cu_password :: jstr
  cu_role :: role
  cu_mc :: "jstr option option"

record update_user_input =
  uu_password :: "jstr option"
  uu_role :: "role option"
  uu_status :: "user_status option"
  uu_mc :: "jstr option option"

definition z_role :: "role reader" where
  "z_role = z_enum [(''ADMIN'', ADMIN), (''USER'', USER)]"

definition parse_create_user :: "json \<Rightarrow> create_user_input option" where
  "parse_create_user body = (if \<not> is_object body then None else
     case (z_refine (list_all login_char) (z_string 3 32) (json_field body ''username''),
           z_string 8 256 (json_field body ''password''),
           z_default USER z_role (json_field body ''role''),
           z_optional z_minecraft_username (json_field body ''minecraftUsername'')) of
       (Some n, Some p, Some r, Some m) \<Rightarrow> Some \<lparr>cu_name = n, cu_password = p, cu_role = r, cu_mc = m\<rparr>
     | _ \<Rightarrow> None)"

definition parse_update_user :: "json \<Rightarrow> update_user_input option" where
  "parse_update_user body = (if \<not> is_object body then None else
     case (z_optional (z_string 8 256) (json_field body ''password''),
           z_optional z_role (json_field body ''role''),
           z_optional (z_enum [(''ACTIVE'', ACTIVE), (''DISABLED'', DISABLED)]) (json_field body ''status''),
           z_optional z_minecraft_username (json_field body ''minecraftUsername'')) of
       (Some p, Some r, Some st, Some m) \<Rightarrow> Some \<lparr>uu_password = p, uu_role = r, uu_status = st, uu_mc = m\<rparr>
     | _ \<Rightarrow> None)"

section \<open>Service (service.ts)\<close>

record public_user =
  pu_id :: jstr
  pu_name :: jstr
  pu_mc :: "jstr option"
  pu_role :: role
  pu_status :: user_status
  pu_created :: int
  pu_last_login :: "int option"

definition public_user_select :: "user_row \<Rightarrow> public_user" where
  "public_user_select u = \<lparr>pu_id = u_id u, pu_name = u_name u, pu_mc = u_mc u, pu_role = u_role u,
     pu_status = u_status u, pu_created = u_created u, pu_last_login = u_last_login u\<rparr>"

definition list_users :: "db \<Rightarrow> public_user list" where
  "list_users d = map public_user_select (sort_key u_created (db_users d))"

definition get_user_by_id :: "jstr \<Rightarrow> db \<Rightarrow> public_user option" where
  "get_user_by_id i d = map_option public_user_select (find_user d i)"

text \<open>\<open>None\<close>: a unique constraint (Prisma error P2002), by the lookup or by the key of the row.\<close>

definition create_user :: "(jstr \<Rightarrow> jstr) \<Rightarrow> int \<Rightarrow> jstr \<Rightarrow> create_user_input \<Rightarrow> db \<Rightarrow> (db \<times> public_user) option" where
  "create_user hash now i input d =
     (if find_username_matches (cu_name input) d \<noteq> [] \<or> find_user d i \<noteq> None then None
      else (let u = \<lparr>u_id = i, u_name = cu_name input,
                     u_mc = (case cu_mc input of None \<Rightarrow> None | Some m \<Rightarrow> m),
                     u_hash = hash (cu_password input), u_role = cu_role input, u_status = ACTIVE,
                     u_created = now, u_last_login = None, u_prefs = None, u_seen_update = None\<rparr>
            in Some (d\<lparr>db_users := db_users d @ [u]\<rparr>, public_user_select u)))"

definition apply_update :: "(jstr \<Rightarrow> jstr) \<Rightarrow> update_user_input \<Rightarrow> user_row \<Rightarrow> user_row" where
  "apply_update hash input u = u
     \<lparr>u_hash := (case uu_password input of Some p \<Rightarrow> hash p | None \<Rightarrow> u_hash u),
      u_role := (case uu_role input of Some r \<Rightarrow> r | None \<Rightarrow> u_role u),
      u_status := (case uu_status input of Some st \<Rightarrow> st | None \<Rightarrow> u_status u),
      u_mc := (case uu_mc input of Some m \<Rightarrow> m | None \<Rightarrow> u_mc u)\<rparr>"

definition update_user :: "(jstr \<Rightarrow> jstr) \<Rightarrow> jstr \<Rightarrow> update_user_input \<Rightarrow> service \<Rightarrow> (service \<times> public_user) option" where
  "update_user hash i input s = (case update_user_row i (apply_update hash input) (sv_db s) of
       None \<Rightarrow> None
     | Some d \<Rightarrow>
         (let s1 = s\<lparr>sv_db := d\<rparr>;
              s2 = (if uu_status input = Some DISABLED \<or> uu_role input \<noteq> None \<or> uu_password input \<noteq> None
                    then (case destroy_all_user_sessions i d of
                            (d', r) \<Rightarrow> s1\<lparr>sv_db := d', revocations := revocations s1 @ [r]\<rparr>)
                    else s1)
          in map_option (\<lambda>u. (s2, public_user_select u)) (find_user d i)))"

text \<open>The sessions go first; the deletion of a user that does not exist throws.\<close>

definition delete_user :: "jstr \<Rightarrow> service \<Rightarrow> service \<times> bool" where
  "delete_user i s = (case destroy_all_user_sessions i (sv_db s) of
     (d, r) \<Rightarrow> (case delete_user_row i d of
         None \<Rightarrow> (s\<lparr>sv_db := d, revocations := revocations s @ [r]\<rparr>, False)
       | Some d' \<Rightarrow> (s\<lparr>sv_db := d', revocations := revocations s @ [r]\<rparr>, True)))"

definition count_admins :: "db \<Rightarrow> nat" where
  "count_admins d = length (filter (\<lambda>u. u_role u = ADMIN \<and> u_status u = ACTIVE) (db_users d))"

section \<open>Routes (routes.ts)\<close>

definition me :: "request \<Rightarrow> jstr option" where
  "me rq = map_option sc_user (rq_session rq)"

definition role_json :: "role \<Rightarrow> json" where
  "role_json r = JStr (case r of ADMIN \<Rightarrow> js ''ADMIN'' | USER \<Rightarrow> js ''USER'')"

definition null_or :: "jstr option \<Rightarrow> json" where
  "null_or x = (case x of None \<Rightarrow> JNull | Some s \<Rightarrow> JStr s)"

text \<open>An absent property is left out of the details, as \<^verbatim>\<open>JSON.stringify\<close> does.\<close>

definition opt_field :: "string \<Rightarrow> json option \<Rightarrow> (jstr \<times> json) list" where
  "opt_field k v = (case v of None \<Rightarrow> [] | Some j \<Rightarrow> [(js k, j)])"

definition audit :: "(code_unit \<Rightarrow> jstr) \<Rightarrow> int \<Rightarrow> request \<Rightarrow> string \<Rightarrow> string option \<Rightarrow> jstr option \<Rightarrow> json option
    \<Rightarrow> service \<Rightarrow> service" where
  "audit low now rq action tt ti details s =
     s\<lparr>sv_db := record_audit_log low now (me rq) action tt ti details (sv_db s)\<rparr>"

definition get_users :: "request \<Rightarrow> service \<Rightarrow> service \<times> public_user list reply" where
  "get_users = guarded [require_admin] (\<lambda>rq s. (s, Answered 200 (list_users (sv_db s))))"

definition get_user :: "jstr \<Rightarrow> request \<Rightarrow> service \<Rightarrow> service \<times> public_user reply" where
  "get_user i = guarded [require_admin] (\<lambda>rq s. (s, case get_user_by_id i (sv_db s) of
       None \<Rightarrow> Refused 404 (js ''User not found'') | Some u \<Rightarrow> Answered 200 u))"

definition post_user :: "(code_unit \<Rightarrow> jstr) \<Rightarrow> (jstr \<Rightarrow> jstr) \<Rightarrow> int \<Rightarrow> jstr \<Rightarrow> json \<Rightarrow> request \<Rightarrow> service
    \<Rightarrow> service \<times> public_user reply" where
  "post_user low hash now i body = guarded [require_admin, require_csrf] (\<lambda>rq s.
     case parse_create_user body of
       None \<Rightarrow> (s, Rejected)
     | Some input \<Rightarrow> (case create_user hash now i input (sv_db s) of
           None \<Rightarrow> (s, Refused 409 (js ''Username already taken''))
         | Some (d, u) \<Rightarrow>
             (audit low now rq ''USER_CREATE'' (Some ''User'') (Some (pu_id u))
                (Some (JObj [(js ''username'', JStr (pu_name u)), (js ''role'', role_json (pu_role u)),
                             (js ''minecraftUsername'', null_or (pu_mc u))]))
                (s\<lparr>sv_db := d\<rparr>), Answered 201 u)))"

text \<open>The check for the last admin and the update are two steps with the database in between.\<close>

definition removes_last_admin :: "jstr \<Rightarrow> update_user_input \<Rightarrow> db \<Rightarrow> bool" where
  "removes_last_admin i input d \<longleftrightarrow> (uu_role input = Some USER \<or> uu_status input = Some DISABLED)
     \<and> (case get_user_by_id i d of None \<Rightarrow> False | Some u \<Rightarrow> pu_role u = ADMIN) \<and> count_admins d \<le> 1"

definition finish_patch_user :: "(code_unit \<Rightarrow> jstr) \<Rightarrow> (jstr \<Rightarrow> jstr) \<Rightarrow> int \<Rightarrow> jstr \<Rightarrow> update_user_input \<Rightarrow> request
    \<Rightarrow> service \<Rightarrow> service \<times> public_user reply" where
  "finish_patch_user low hash now i input rq s = (case update_user hash i input s of
       None \<Rightarrow> (s, Crashed)
     | Some (s1, u) \<Rightarrow>
         (audit low now rq ''USER_UPDATE'' (Some ''User'') (Some i)
            (Some (JObj (opt_field ''role'' (map_option role_json (uu_role input))
               @ opt_field ''status'' (map_option (\<lambda>st. JStr (case st of ACTIVE \<Rightarrow> js ''ACTIVE'' | DISABLED \<Rightarrow> js ''DISABLED'')) (uu_status input))
               @ [(js ''passwordChanged'', JBool (uu_password input \<noteq> None))]
               @ opt_field ''minecraftUsername'' (map_option null_or (uu_mc input))))) s1,
          Answered 200 u))"

definition patch_user :: "(code_unit \<Rightarrow> jstr) \<Rightarrow> (jstr \<Rightarrow> jstr) \<Rightarrow> int \<Rightarrow> jstr \<Rightarrow> json \<Rightarrow> request \<Rightarrow> service
    \<Rightarrow> service \<times> public_user reply" where
  "patch_user low hash now i body = guarded [require_admin, require_csrf] (\<lambda>rq s.
     case parse_update_user body of
       None \<Rightarrow> (s, Rejected)
     | Some input \<Rightarrow>
         if removes_last_admin i input (sv_db s)
         then (s, Refused 400 (js ''Cannot remove the last remaining admin''))
         else finish_patch_user low hash now i input rq s)"

definition delete_user_route :: "(code_unit \<Rightarrow> jstr) \<Rightarrow> int \<Rightarrow> jstr \<Rightarrow> request \<Rightarrow> service \<Rightarrow> service \<times> unit reply" where
  "delete_user_route low now i = guarded [require_admin, require_csrf] (\<lambda>rq s.
     if Some i = me rq then (s, Refused 400 (js ''You cannot delete your own account''))
     else if (case get_user_by_id i (sv_db s) of None \<Rightarrow> False | Some u \<Rightarrow> pu_role u = ADMIN) \<and> count_admins (sv_db s) \<le> 1
       then (s, Refused 400 (js ''Cannot delete the last remaining admin''))
     else (case delete_user i s of
         (s1, False) \<Rightarrow> (s1, Crashed)
       | (s1, True) \<Rightarrow> (audit low now rq ''USER_DELETE'' (Some ''User'') (Some i) None s1, Answered 204 ())))"

text \<open>One request of an admin to the user management.\<close>

datatype user_event =
    U_create jstr json
  | U_update jstr json
  | U_delete jstr

fun user_step :: "(code_unit \<Rightarrow> jstr) \<Rightarrow> (jstr \<Rightarrow> jstr) \<Rightarrow> int \<times> request \<times> user_event \<Rightarrow> service \<Rightarrow> service" where
  "user_step low hash (now, rq, U_create i body) s = fst (post_user low hash now i body rq s)"
| "user_step low hash (now, rq, U_update i body) s = fst (patch_user low hash now i body rq s)"
| "user_step low hash (now, rq, U_delete i) s = fst (delete_user_route low now i rq s)"

end
