(* ===== verification/Profile.thy ===== *)
theory Profile
  imports Sessions Schemas "HOL-Library.Multiset"
begin

text \<open>
  \<^verbatim>\<open>backend/src/profile\<close>: the dashboard preferences of a user, what of them a session may see and
  change, the order in which accounts are listed, and the website announcement.
\<close>

section \<open>Schemas (schemas.ts)\<close>

record preferences =
  p_account_order :: "jstr list"
  p_blurred :: "jstr list"
  p_uploader_order :: "jstr list"
  p_collapsed :: "jstr list"

record preferences_patch =
  pp_account_order :: "jstr list option"
  pp_uploader_order :: "jstr list option"
  pp_blur :: "(jstr \<times> bool) option"
  pp_collapse :: "(jstr \<times> bool) option"

definition z_ids :: "jstr list reader" where
  "z_ids = z_refine distinct (z_array 0 10000 (z_string 1 160))"

definition parse_preferences :: "json \<Rightarrow> preferences option" where
  "parse_preferences body =
     (if \<not> z_strict [''accountOrder'', ''blurredAccountIds'', ''uploaderOrder'', ''collapsedUploaderIds''] body then None else
      case (z_default [] z_ids (json_field body ''accountOrder''), z_default [] z_ids (json_field body ''blurredAccountIds''),
            z_default [] z_ids (json_field body ''uploaderOrder''), z_default [] z_ids (json_field body ''collapsedUploaderIds'')) of
        (Some a, Some b, Some u, Some c) \<Rightarrow> Some \<lparr>p_account_order = a, p_blurred = b, p_uploader_order = u, p_collapsed = c\<rparr>
      | _ \<Rightarrow> None)"

definition z_flag :: "string \<Rightarrow> (jstr \<times> bool) reader" where
  "z_flag key f = (case f of
       Some j \<Rightarrow> if z_strict [key, ''value''] j
         then (case (z_string 1 160 (json_field j key), z_bool (json_field j ''value'')) of
                 (Some i, Some b) \<Rightarrow> Some (i, b) | _ \<Rightarrow> None)
         else None
     | None \<Rightarrow> None)"

definition parse_preferences_patch :: "json \<Rightarrow> preferences_patch option" where
  "parse_preferences_patch body =
     (if \<not> z_strict [''accountOrder'', ''uploaderOrder'', ''blur'', ''collapse''] body \<or> body = JObj [] then None else
      case (z_optional z_ids (json_field body ''accountOrder''), z_optional z_ids (json_field body ''uploaderOrder''),
            z_optional (z_flag ''accountId'') (json_field body ''blur''),
            z_optional (z_flag ''uploaderId'') (json_field body ''collapse'')) of
        (Some a, Some u, Some b, Some c) \<Rightarrow>
          Some \<lparr>pp_account_order = a, pp_uploader_order = u, pp_blur = b, pp_collapse = c\<rparr>
      | _ \<Rightarrow> None)"

section \<open>Service (service.ts)\<close>

definition no_preferences :: preferences where
  "no_preferences = \<lparr>p_account_order = [], p_blurred = [], p_uploader_order = [], p_collapsed = []\<rparr>"

text \<open>Stored text that does not parse or validate counts as empty.\<close>

definition decode :: "json_text option \<Rightarrow> preferences" where
  "decode raw = (case raw of
       None \<Rightarrow> no_preferences
     | Some Malformed \<Rightarrow> no_preferences
     | Some (Text_of j) \<Rightarrow> (case parse_preferences j of Some p \<Rightarrow> p | None \<Rightarrow> no_preferences))"

definition encode :: "preferences \<Rightarrow> json" where
  "encode p = JObj [(js ''accountOrder'', JArr (map JStr (p_account_order p))),
     (js ''blurredAccountIds'', JArr (map JStr (p_blurred p))),
     (js ''uploaderOrder'', JArr (map JStr (p_uploader_order p))),
     (js ''collapsedUploaderIds'', JArr (map JStr (p_collapsed p)))]"

text \<open>
  The rank of an identifier is its last position in the order (a map built from pairs). The sort is
  stable; the difference of two missing ranks is not a number, which counts as equal.
\<close>

definition rank_of :: "jstr list \<Rightarrow> jstr \<Rightarrow> nat option" where
  "rank_of order i = map_of (rev (zip order [0..<length order])) i"

definition apply_account_order :: "('a \<Rightarrow> jstr) \<Rightarrow> 'a list \<Rightarrow> jstr list \<Rightarrow> 'a list" where
  "apply_account_order key accounts order =
     sort_key (\<lambda>a. case rank_of order (key a) of None \<Rightarrow> length order | Some r \<Rightarrow> r) accounts"

definition get_account_order :: "jstr \<Rightarrow> db \<Rightarrow> jstr list option" where
  "get_account_order user d = map_option (\<lambda>u. p_account_order (decode (u_prefs u))) (find_user d user)"

definition visible_account_ids :: "session_context \<Rightarrow> db \<Rightarrow> jstr list" where
  "visible_account_ids sc d =
     map a_id (filter (\<lambda>a. sc_role sc = ADMIN \<or> is_assigned d (sc_user sc) (a_id a)) (db_accounts d))"

record scope =
  sp_accounts :: "jstr list"
  sp_uploaders :: "jstr list"

definition scope_of :: "session_context \<Rightarrow> db \<Rightarrow> scope" where
  "scope_of sc d = \<lparr>sp_accounts = uniq (visible_account_ids sc d),
     sp_uploaders = uniq (if sc_role sc = ADMIN
       then js ''unassigned'' # map (\<lambda>u. js ''user:'' @ u_id u) (db_users d) else [])\<rparr>"

definition visible :: "preferences \<Rightarrow> scope \<Rightarrow> preferences" where
  "visible p allowed = \<lparr>p_account_order = filter (\<lambda>i. i \<in> set (sp_accounts allowed)) (p_account_order p),
     p_blurred = filter (\<lambda>i. i \<in> set (sp_accounts allowed)) (p_blurred p),
     p_uploader_order = filter (\<lambda>i. i \<in> set (sp_uploaders allowed)) (p_uploader_order p),
     p_collapsed = filter (\<lambda>i. i \<in> set (sp_uploaders allowed)) (p_collapsed p)\<rparr>"

text \<open>Whether a profile is stored, and what of it the session sees; \<open>None\<close> when the user is gone.\<close>

definition get_preferences :: "session_context \<Rightarrow> db \<Rightarrow> (bool \<times> preferences) option" where
  "get_preferences sc d =
     map_option (\<lambda>u. (u_prefs u \<noteq> None, visible (decode (u_prefs u)) (scope_of sc d))) (find_user d (sc_user sc))"

definition set_membership :: "jstr list \<Rightarrow> jstr \<Rightarrow> bool \<Rightarrow> jstr list" where
  "set_membership ids i value = (if value then uniq (ids @ [i]) else filter (\<lambda>x. x \<noteq> i) ids)"

text \<open>An update is a transaction: an error (with its status code) leaves everything as it was.\<close>

type_synonym 'a attempt = "(int \<times> jstr) + 'a"

definition patch_account_order :: "scope \<Rightarrow> jstr list option \<Rightarrow> preferences \<Rightarrow> preferences attempt" where
  "patch_account_order allowed order p = (case order of
       None \<Rightarrow> Inr p
     | Some xs \<Rightarrow>
         if length xs \<noteq> length (sp_accounts allowed) \<or> list_ex (\<lambda>i. i \<notin> set (sp_accounts allowed)) xs
         then Inl (400, js ''Invalid account order payload'')
         else Inr (p\<lparr>p_account_order := xs @ filter (\<lambda>i. i \<notin> set (sp_accounts allowed)) (p_account_order p)\<rparr>))"

definition patch_blur :: "scope \<Rightarrow> (jstr \<times> bool) option \<Rightarrow> preferences \<Rightarrow> preferences attempt" where
  "patch_blur allowed blur p = (case blur of
       None \<Rightarrow> Inr p
     | Some (i, v) \<Rightarrow>
         if i \<notin> set (sp_accounts allowed) then Inl (404, js ''Account not found'')
         else Inr (p\<lparr>p_blurred := set_membership (p_blurred p) i v\<rparr>))"

definition patch_uploaders :: "scope \<Rightarrow> role \<Rightarrow> jstr list option \<Rightarrow> (jstr \<times> bool) option \<Rightarrow> preferences \<Rightarrow> preferences attempt" where
  "patch_uploaders allowed r order collapse p =
     (if order = None \<and> collapse = None then Inr p
      else if r \<noteq> ADMIN then Inl (403, js ''Admin role required'')
      else case (case order of
             None \<Rightarrow> Inr p
           | Some xs \<Rightarrow> if list_ex (\<lambda>i. i \<notin> set (sp_uploaders allowed)) xs
               then Inl (400, js ''Invalid uploader order payload'') else Inr (p\<lparr>p_uploader_order := xs\<rparr>)) of
        Inl e \<Rightarrow> Inl e
      | Inr p1 \<Rightarrow> (case collapse of
            None \<Rightarrow> Inr p1
          | Some (i, v) \<Rightarrow> if i \<notin> set (sp_uploaders allowed) then Inl (404, js ''Uploader not found'')
              else Inr (p1\<lparr>p_collapsed := set_membership (p_collapsed p1) i v\<rparr>)))"

definition update_preferences :: "session_context \<Rightarrow> preferences_patch \<Rightarrow> db \<Rightarrow> (db \<times> preferences) attempt" where
  "update_preferences sc patch d = (case find_user d (sc_user sc) of
       None \<Rightarrow> Inl (500, [])
     | Some u \<Rightarrow>
         (let allowed = scope_of sc d in
          case patch_account_order allowed (pp_account_order patch) (decode (u_prefs u)) of
            Inl e \<Rightarrow> Inl e
          | Inr p1 \<Rightarrow> (case patch_blur allowed (pp_blur patch) p1 of
              Inl e \<Rightarrow> Inl e
            | Inr p2 \<Rightarrow> (case patch_uploaders allowed (sc_role sc) (pp_uploader_order patch) (pp_collapse patch) p2 of
                Inl e \<Rightarrow> Inl e
              | Inr p3 \<Rightarrow> (case update_user_row (sc_user sc) (\<lambda>r. r\<lparr>u_prefs := Some (Text_of (encode p3))\<rparr>) d of
                  None \<Rightarrow> Inl (500, [])
                | Some d' \<Rightarrow> Inr (d', visible p3 allowed))))))"

definition import_preferences :: "session_context \<Rightarrow> preferences \<Rightarrow> db \<Rightarrow> (db \<times> preferences) attempt" where
  "import_preferences sc legacy d =
     (let allowed = scope_of sc d;
          d' = d\<lparr>db_users := map (\<lambda>u. if u_id u = sc_user sc \<and> u_prefs u = None
                 then u\<lparr>u_prefs := Some (Text_of (encode (visible legacy allowed)))\<rparr> else u) (db_users d)\<rparr> in
      case find_user d' (sc_user sc) of
        None \<Rightarrow> Inl (500, [])
      | Some u \<Rightarrow> Inr (d', visible (decode (u_prefs u)) allowed))"

section \<open>The announcement (updates.ts)\<close>

definition website_update_id :: jstr where
  "website_update_id = js ''2026-11-stability-update''"

definition get_website_update :: "jstr \<Rightarrow> db \<Rightarrow> bool attempt" where
  "get_website_update user d = (case find_user d user of
       None \<Rightarrow> Inl (500, [])
     | Some u \<Rightarrow> Inr (u_seen_update u \<noteq> Some website_update_id))"

definition read_website_update :: "jstr \<Rightarrow> jstr \<Rightarrow> db \<Rightarrow> (db \<times> bool) attempt" where
  "read_website_update user announcement d =
     (if announcement \<noteq> website_update_id then Inl (409, js ''Website update changed; please reload'')
      else case update_user_row user (\<lambda>u. u\<lparr>u_seen_update := Some announcement\<rparr>) d of
          None \<Rightarrow> Inl (500, [])
        | Some d' \<Rightarrow> Inr (d', False))"

section \<open>Routes (routes.ts)\<close>

text \<open>\<open>owner\<close> is the header \<^verbatim>\<open>x-profile-owner\<close> of a write that was queued for a certain user.\<close>

definition require_owner :: "jstr option \<Rightarrow> request \<Rightarrow> 'a reply option" where
  "require_owner owner rq = (case owner of
       None \<Rightarrow> None
     | Some o' \<Rightarrow> if map_option sc_user (rq_session rq) \<noteq> Some o'
         then Some (Refused 409 (js ''Profile session changed'')) else None)"

fun reply_of_attempt :: "db \<Rightarrow> (db \<times> 'a) attempt \<Rightarrow> db \<times> 'a reply" where
  "reply_of_attempt d (Inl (c, m)) = (d, if c = 500 then Crashed else Refused c m)"
| "reply_of_attempt d (Inr (d', x)) = (d', Answered 200 x)"

definition patch_dashboard :: "jstr option \<Rightarrow> json \<Rightarrow> request \<Rightarrow> db \<Rightarrow> db \<times> preferences reply" where
  "patch_dashboard owner body = guarded [require_auth, require_owner owner, require_csrf] (\<lambda>rq d.
     case (parse_preferences_patch body, rq_session rq) of
       (Some patch, Some sc) \<Rightarrow> reply_of_attempt d (update_preferences sc patch d)
     | (None, _) \<Rightarrow> (d, Rejected)
     | _ \<Rightarrow> (d, Crashed))"

definition post_import :: "jstr option \<Rightarrow> json \<Rightarrow> request \<Rightarrow> db \<Rightarrow> db \<times> preferences reply" where
  "post_import owner body = guarded [require_auth, require_owner owner, require_csrf] (\<lambda>rq d.
     case (parse_preferences body, rq_session rq) of
       (Some legacy, Some sc) \<Rightarrow> reply_of_attempt d (import_preferences sc legacy d)
     | (None, _) \<Rightarrow> (d, Rejected)
     | _ \<Rightarrow> (d, Crashed))"

definition patch_updates_read :: "jstr option \<Rightarrow> json \<Rightarrow> request \<Rightarrow> db \<Rightarrow> db \<times> bool reply" where
  "patch_updates_read owner body = guarded [require_auth, require_owner owner, require_csrf] (\<lambda>rq d.
     if \<not> z_strict [''announcementId''] body then (d, Rejected)
     else case (z_string 1 120 (json_field body ''announcementId''), rq_session rq) of
       (Some a, Some sc) \<Rightarrow> reply_of_attempt d (read_website_update (sc_user sc) a d)
     | (None, _) \<Rightarrow> (d, Rejected)
     | _ \<Rightarrow> (d, Crashed))"

section \<open>Lemmas on the order\<close>

lemma rank_of_None: "rank_of order i = None \<longleftrightarrow> i \<notin> set order"
proof -
  have "fst ` set (zip order [0..<length order]) = set order"
    by (metis diff_zero length_upt list.set_map map_fst_zip)
  then show ?thesis by (simp add: rank_of_def map_of_eq_None_iff)
qed

lemma rank_of_nth:
  assumes "distinct order" and "k < length order"
  shows "rank_of order (order ! k) = Some k"
  unfolding rank_of_def
proof (rule map_of_is_SomeI)
  show "distinct (map fst (rev (zip order [0..<length order])))"
    using assms(1) by (simp flip: rev_map)
  show "(order ! k, k) \<in> set (rev (zip order [0..<length order]))"
    using assms(2) by (auto simp: in_set_zip intro!: exI [of _ k])
qed

lemma rank_of_less: "rank_of order i = Some r \<Longrightarrow> r < length order"
  by (auto simp: rank_of_def dest!: map_of_SomeD in_set_zipE)

definition order_key :: "jstr list \<Rightarrow> jstr \<Rightarrow> nat" where
  "order_key order i = (case rank_of order i of None \<Rightarrow> length order | Some r \<Rightarrow> r)"

lemma apply_account_order_alt:
  "apply_account_order key accounts order = sort_key (\<lambda>a. order_key order (key a)) accounts"
  by (simp add: apply_account_order_def order_key_def)

lemma order_key_listed: "order_key order i < length order \<longleftrightarrow> i \<in> set order"
  using rank_of_None [of order i] rank_of_less [of order i] by (auto simp: order_key_def split: option.splits)

lemma order_key_nth: "distinct order \<Longrightarrow> k < length order \<Longrightarrow> order_key order (order ! k) = k"
  by (simp add: order_key_def rank_of_nth)

lemma set_apply_order [simp]: "set (apply_account_order key accounts order) = set accounts"
  by (simp add: apply_account_order_alt)

lemma apply_order_full:
  assumes "distinct order" and "mset (map key accounts) = mset order"
  shows "map key (apply_account_order key accounts order) = order"
proof -
  have inj: "inj_on (order_key order) (set order)"
    by (rule inj_onI) (metis assms(1) in_set_conv_nth order_key_nth)
  have st: "set (map key accounts) = set order" by (rule mset_eq_setD [OF assms(2)])
  have "distinct (map key accounts)" by (simp only: mset_eq_imp_distinct_iff [OF assms(2)] assms(1))
  then have d: "distinct (map key (apply_account_order key accounts order))"
    by (simp add: apply_account_order_alt distinct_map)
  show ?thesis
  proof (rule map_sorted_distinct_set_unique [of "order_key order"])
    show "inj_on (order_key order) (set (map key (apply_account_order key accounts order)) \<union> set order)"
      using inj st by simp
    show "sorted (map (order_key order) (map key (apply_account_order key accounts order)))"
      by (simp add: apply_account_order_alt comp_def)
    show "sorted (map (order_key order) order)"
      using assms(1) by (auto simp: sorted_iff_nth_mono order_key_nth)
    show "distinct (map (order_key order) (map key (apply_account_order key accounts order)))"
      by (subst distinct_map) (use d inj st in \<open>simp del: map_map\<close>)
    show "distinct (map (order_key order) order)" using assms(1) inj by (simp add: distinct_map)
    show "set (map key (apply_account_order key accounts order)) = set order" using st by simp
  qed
qed


section \<open>Stored preferences\<close>

definition ids_ok :: "jstr list \<Rightarrow> bool" where
  "ids_ok xs \<longleftrightarrow> distinct xs \<and> length xs \<le> 10000 \<and> list_all (\<lambda>i. 1 \<le> length i \<and> length i \<le> 160) xs"

definition preferences_ok :: "preferences \<Rightarrow> bool" where
  "preferences_ok p \<longleftrightarrow> ids_ok (p_account_order p) \<and> ids_ok (p_blurred p) \<and> ids_ok (p_uploader_order p)
     \<and> ids_ok (p_collapsed p)"

lemma z_ids_strings: "ids_ok xs \<Longrightarrow> z_ids (Some (JArr (map JStr xs))) = Some xs"
proof -
  assume xs: "ids_ok xs"
  have "all_some (map (\<lambda>x. z_string 1 160 (Some x)) (map JStr xs)) = Some xs"
    unfolding all_some_Some using xs by (auto simp: ids_ok_def list_all_iff z_string_def)
  then show ?thesis using xs by (simp add: z_ids_def z_refine_def z_array_def ids_ok_def)
qed

lemma z_ids_ok: "z_ids f = Some xs \<Longrightarrow> ids_ok xs"
proof -
  assume "z_ids f = Some xs"
  then obtain js where "f = Some (JArr js)" "length js \<le> 10000" and all: "map (\<lambda>x. z_string 1 160 (Some x)) js = map Some xs"
    and d: "distinct xs"
    by (auto simp: z_ids_def z_refine_Some z_array_def all_some_Some split: option.splits json.splits if_splits)
  have "length xs = length js" using arg_cong [OF all, of length] by simp
  moreover have "1 \<le> length i \<and> length i \<le> 160" if i: "i \<in> set xs" for i
  proof -
    have "Some i \<in> set (map (\<lambda>x. z_string 1 160 (Some x)) js)" unfolding all using i by simp
    then show ?thesis by (auto simp: z_string_Some dest: sym)
  qed
  ultimately show ?thesis using d \<open>length js \<le> 10000\<close> by (simp add: ids_ok_def list_all_iff)
qed

lemma parse_preferences_ok: "parse_preferences body = Some p \<Longrightarrow> preferences_ok p"
  by (auto simp: parse_preferences_def preferences_ok_def z_default_def ids_ok_def [of "[]"]
      dest!: z_ids_ok split: if_splits option.splits)

lemma decode_ok: "preferences_ok (decode raw)"
  by (auto simp: decode_def no_preferences_def preferences_ok_def [of "\<lparr>p_account_order = _, p_blurred = _, p_uploader_order = _, p_collapsed = _\<rparr>"]
      ids_ok_def [of "[]"] dest: parse_preferences_ok split: option.splits json_text.splits)

lemma ids_ok_filter: "ids_ok xs \<Longrightarrow> ids_ok (filter P xs)"
  by (auto simp: ids_ok_def list_all_iff intro: order_trans [OF length_filter_le])

lemma visible_ok: "preferences_ok p \<Longrightarrow> preferences_ok (visible p allowed)"
  by (simp add: preferences_ok_def visible_def ids_ok_filter)

lemma decode_encode: "preferences_ok p \<Longrightarrow> decode (Some (Text_of (encode p))) = p"
  by (simp add: decode_def encode_def parse_preferences_def z_strict_def json_field_def z_default_def z_ids_strings
      preferences_ok_def)

lemma same_length_subset_perm:
  assumes "distinct xs" and "distinct ys" and "length xs = length ys" and "set xs \<subseteq> set ys"
  shows "mset xs = mset ys"
proof -
  have "card (set xs) = card (set ys)" using assms(1-3) by (simp add: distinct_card)
  then have "set xs = set ys" using assms(4) by (simp add: card_subset_eq)
  then show ?thesis using assms(1,2) by (metis set_eq_iff_mset_eq_distinct)
qed

lemma scope_accounts: "set (sp_accounts (scope_of sc d)) = set (visible_account_ids sc d)"
  by (simp add: scope_of_def)

lemma update_preferences_Inr:
  assumes "update_preferences sc patch d = Inr (d', p)"
  obtains u q1 q2 q where "find_user d (sc_user sc) = Some u"
    and "patch_account_order (scope_of sc d) (pp_account_order patch) (decode (u_prefs u)) = Inr q1"
    and "patch_blur (scope_of sc d) (pp_blur patch) q1 = Inr q2"
    and "patch_uploaders (scope_of sc d) (sc_role sc) (pp_uploader_order patch) (pp_collapse patch) q2 = Inr q"
    and "update_user_row (sc_user sc) (\<lambda>r. r\<lparr>u_prefs := Some (Text_of (encode q))\<rparr>) d = Some d'"
    and "p = visible q (scope_of sc d)"
  using assms by (auto simp: update_preferences_def Let_def split: option.splits sum.splits)

lemma patch_blur_order: "patch_blur a b p = Inr q \<Longrightarrow> p_account_order q = p_account_order p"
  by (auto simp: patch_blur_def split: option.splits if_splits)

lemma patch_uploaders_order: "patch_uploaders a r x y p = Inr q \<Longrightarrow> p_account_order q = p_account_order p"
  by (auto simp: patch_uploaders_def split: option.splits if_splits sum.splits)

text \<open>
  A stored profile is read back exactly: what a valid set of preferences is saved as decodes to
  the same preferences, and whatever text is found in the column decodes to a valid set.
\<close>

theorem preferences_roundtrip:
  "preferences_ok (decode raw) \<and> decode (Some (Text_of (encode (decode raw)))) = decode raw"
  by (simp add: decode_ok decode_encode)

lemma account_order_stored:
  assumes "db_ok d" and "update_preferences sc patch d = Inr (d', p)" and "pp_account_order patch = Some xs" and "distinct xs"
  shows "mset xs = mset (visible_account_ids sc d) \<and> p_account_order p = xs
     \<and> set (p_blurred p) \<subseteq> set (visible_account_ids sc d)
     \<and> (\<exists>u. find_user d (sc_user sc) = Some u \<and>
          (\<exists>q. map_option u_prefs (find_user d' (sc_user sc)) = Some (Some (Text_of (encode q)))
             \<and> p_account_order q = xs @ filter (\<lambda>i. i \<notin> set (visible_account_ids sc d)) (p_account_order (decode (u_prefs u)))))"
proof -
  from update_preferences_Inr [OF assms(2)] obtain u q1 q2 q where u: "find_user d (sc_user sc) = Some u"
    and q1: "patch_account_order (scope_of sc d) (Some xs) (decode (u_prefs u)) = Inr q1"
    and q2: "patch_blur (scope_of sc d) (pp_blur patch) q1 = Inr q2"
    and q: "patch_uploaders (scope_of sc d) (sc_role sc) (pp_uploader_order patch) (pp_collapse patch) q2 = Inr q"
    and d': "update_user_row (sc_user sc) (\<lambda>r. r\<lparr>u_prefs := Some (Text_of (encode q))\<rparr>) d = Some d'"
    and p: "p = visible q (scope_of sc d)" unfolding assms(3) by metis
  have len: "length xs = length (sp_accounts (scope_of sc d))" and sub: "set xs \<subseteq> set (visible_account_ids sc d)"
    and o1: "p_account_order q1 = xs @ filter (\<lambda>i. i \<notin> set (visible_account_ids sc d)) (p_account_order (decode (u_prefs u)))"
    using q1 by (auto simp: patch_account_order_def list_ex_iff scope_accounts split: if_splits)
  have dv: "distinct (visible_account_ids sc d)"
    using assms(1) by (simp add: visible_account_ids_def db_ok_def keys_ok_def distinct_map_filter)
  then have "sp_accounts (scope_of sc d) = visible_account_ids sc d" by (simp add: scope_of_def uniq_id)
  with len have m: "mset xs = mset (visible_account_ids sc d)"
    by (intro same_length_subset_perm [OF assms(4) dv _ sub]) simp
  have oq: "p_account_order q = p_account_order q1" using patch_blur_order [OF q2] patch_uploaders_order [OF q] by simp
  have px: "p_account_order p = xs"
    using sub by (auto simp: p visible_def oq o1 scope_accounts filter_id_conv filter_empty_conv)
  have "map_option u_prefs (find_user d' (sc_user sc)) = Some (Some (Text_of (encode q)))"
    using update_user_row_find [OF d'] u by simp
  then show ?thesis using m px u oq o1 by (auto simp: p visible_def scope_accounts)
qed

text \<open>
  A new account order is accepted exactly as a permutation of the accounts the session may see,
  is what the session gets back, and keeps the positions of accounts it may not see at the end,
  without ever returning them. Nothing a session gets back names an account outside its scope.
\<close>

theorem account_order_is_a_permutation:
  assumes "db_ok d" and "update_preferences sc patch d = Inr (d', p)" and "pp_account_order patch = Some xs" and "distinct xs"
  shows "mset xs = mset (visible_account_ids sc d) \<and> p_account_order p = xs
     \<and> set (p_blurred p) \<subseteq> set (visible_account_ids sc d)
     \<and> (\<exists>u. find_user d (sc_user sc) = Some u \<and>
          (\<exists>q. map_option u_prefs (find_user d' (sc_user sc)) = Some (Some (Text_of (encode q)))
             \<and> p_account_order q = xs @ filter (\<lambda>i. i \<notin> set (visible_account_ids sc d)) (p_account_order (decode (u_prefs u)))))"
  by (rule account_order_stored [OF assms])

theorem account_order_is_a_permutation_witness:
  "\<exists>d' p. update_preferences (demo_context ''ann'' ADMIN)
       \<lparr>pp_account_order = Some [[2], [1]], pp_uploader_order = None, pp_blur = None, pp_collapse = None\<rparr> demo_tables = Inr (d', p)
     \<and> p_account_order p = [[2], [1]]"
proof -
  let ?patch = "\<lparr>pp_account_order = Some [[2], [1]], pp_uploader_order = None, pp_blur = None, pp_collapse = None\<rparr>"
  let ?r = "update_preferences (demo_context ''ann'' ADMIN) ?patch demo_tables"
  have "(case ?r of Inl _ \<Rightarrow> False | Inr _ \<Rightarrow> True)" by code_simp
  then obtain d' p where r: "?r = Inr (d', p)" by (cases ?r) auto
  from account_order_is_a_permutation [OF demo_tables_ok r, of "[[2], [1]]"] show ?thesis using r by simp
qed

end
