(* ===== verification/Spawners.thy ===== *)
theory Spawners
  imports Client_Types
begin

text \<open>
  \<^verbatim>\<open>backend/src/minecraft/spawners.ts\<close> and its mirror \<^verbatim>\<open>frontend/src/lib/spawners.ts\<close>: the catalog of
  spawners, and the reading of the stored per-item actions into the lists the bot works with.
\<close>

datatype spawner_action = Keep | Drop | Sell

record spawner_item =
  si_id :: jstr
  si_label :: jstr

record spawner_type =
  st_id :: jstr
  st_label :: jstr
  st_items :: "spawner_item list"

definition item :: "string \<Rightarrow> string \<Rightarrow> spawner_item" where
  "item i l = \<lparr>si_id = js i, si_label = js l\<rparr>"

definition SPAWNER_TYPES :: "spawner_type list" where
  "SPAWNER_TYPES = map (\<lambda>(i, l, xs). \<lparr>st_id = js i, st_label = js l, st_items = map (\<lambda>(a, b). item a b) xs\<rparr>)
    [(''cow'', ''Cow'', [(''minecraft:beef'', ''Raw Beef'')]),
     (''iron_golem'', ''Iron Golem'', [(''minecraft:iron_ingot'', ''Iron Ingot'')]),
     (''spider'', ''Spider'', [(''minecraft:string'', ''String''), (''minecraft:spider_eye'', ''Spider Eye'')]),
     (''zombified_piglin'', ''Zombified Piglin'',
        [(''minecraft:gold_nugget'', ''Gold Nugget''), (''minecraft:rotten_flesh'', ''Rotten Flesh'')]),
     (''skeleton'', ''Skeleton'', [(''minecraft:bone'', ''Bone''), (''minecraft:arrow'', ''Arrow'')]),
     (''creeper'', ''Creeper'', [(''minecraft:gunpowder'', ''Gunpowder'')]),
     (''blaze'', ''Blaze'', [(''minecraft:blaze_powder'', ''Blaze Powder'')])]"

definition SPAWNER_TYPE_IDS :: "jstr list" where
  "SPAWNER_TYPE_IDS = map st_id SPAWNER_TYPES"

definition get_spawner_type :: "jstr \<Rightarrow> spawner_type option" where
  "get_spawner_type i = find (\<lambda>s. st_id s = i) SPAWNER_TYPES"

text \<open>The action map is an object: an insertion-ordered map.\<close>

type_synonym action_map = "(jstr, spawner_action) jmap"

definition resolve_spawner_actions :: "jstr \<Rightarrow> action_map \<Rightarrow> jstr list \<times> jstr list" where
  "resolve_spawner_actions ty actions = (case get_spawner_type ty of
       None \<Rightarrow> ([], [])
     | Some t \<Rightarrow> foldl (\<lambda>(drops, sells) it. case map_of actions (si_id it) of
           Some Drop \<Rightarrow> (drops @ [si_id it], sells)
         | Some Sell \<Rightarrow> (drops, sells @ [si_id it])
         | _ \<Rightarrow> (drops, sells)) ([], []) (st_items t))"

definition action_of :: "json \<Rightarrow> spawner_action option" where
  "action_of j = (case j of
       JStr s \<Rightarrow> if s = js ''drop'' then Some Drop else if s = js ''sell'' then Some Sell
                 else if s = js ''keep'' then Some Keep else None
     | _ \<Rightarrow> None)"

text \<open>
  The parsed text, \<open>None\<close> when \<^verbatim>\<open>JSON.parse\<close> throws. Assigning the key \<^verbatim>\<open>__proto__\<close> of a plain object
  does not create an entry.
\<close>

definition parse_spawner_actions :: "json option \<Rightarrow> action_map" where
  "parse_spawner_actions parsed = (case parsed of
       Some (JObj kvs) \<Rightarrow> foldl (\<lambda>out (k, v). case action_of v of
           Some a \<Rightarrow> if k = js ''__proto__'' then out else AList.update k a out
         | None \<Rightarrow> out) [] kvs
     | _ \<Rightarrow> [])"

section \<open>The frontend catalog\<close>

record spawner_type_def =
  sd_id :: jstr
  sd_label :: jstr
  sd_emoji :: jstr
  sd_items :: "spawner_item list"

definition FRONTEND_SPAWNER_TYPES :: "spawner_type_def list" where
  "FRONTEND_SPAWNER_TYPES = map (\<lambda>(i, l, e, xs).
      \<lparr>sd_id = js i, sd_label = js l, sd_emoji = e, sd_items = map (\<lambda>(a, b). item a b) xs\<rparr>)
    [(''cow'', ''Cow'', [55357, 56324], [(''minecraft:beef'', ''Raw Beef'')]),
     (''iron_golem'', ''Iron Golem'', [55357, 56831], [(''minecraft:iron_ingot'', ''Iron Ingot'')]),
     (''spider'', ''Spider'', [55357, 56695, 65039],
        [(''minecraft:string'', ''String''), (''minecraft:spider_eye'', ''Spider Eye'')]),
     (''zombified_piglin'', ''Zombified Piglin'', [55357, 56342],
        [(''minecraft:gold_nugget'', ''Gold Nugget''), (''minecraft:rotten_flesh'', ''Rotten Flesh'')]),
     (''skeleton'', ''Skeleton'', [55357, 56448], [(''minecraft:bone'', ''Bone''), (''minecraft:arrow'', ''Arrow'')]),
     (''creeper'', ''Creeper'', [55357, 56485], [(''minecraft:gunpowder'', ''Gunpowder'')]),
     (''blaze'', ''Blaze'', [55357, 56613], [(''minecraft:blaze_powder'', ''Blaze Powder'')])]"

definition frontend_get_spawner_type :: "jstr \<Rightarrow> spawner_type_def option" where
  "frontend_get_spawner_type i = find (\<lambda>s. sd_id s = i) FRONTEND_SPAWNER_TYPES"

section \<open>Lemmas\<close>

lemma resolve_fold:
  "foldl (\<lambda>(drops, sells) it. case map_of actions (si_id it) of
           Some Drop \<Rightarrow> (drops @ [si_id it], sells)
         | Some Sell \<Rightarrow> (drops, sells @ [si_id it])
         | _ \<Rightarrow> (drops, sells)) (ds, ss) its
   = (ds @ filter (\<lambda>i. map_of actions i = Some Drop) (map si_id its),
      ss @ filter (\<lambda>i. map_of actions i = Some Sell) (map si_id its))"
  by (induction its arbitrary: ds ss) (auto split: option.splits spawner_action.splits)

lemma resolve_eq:
  "resolve_spawner_actions ty actions = (case get_spawner_type ty of
       None \<Rightarrow> ([], [])
     | Some t \<Rightarrow> (filter (\<lambda>i. map_of actions i = Some Drop) (map si_id (st_items t)),
                 filter (\<lambda>i. map_of actions i = Some Sell) (map si_id (st_items t))))"
  by (simp add: resolve_spawner_actions_def resolve_fold split: option.splits)

lemma catalog_items_distinct: "list_all (\<lambda>t. distinct (map si_id (st_items t))) SPAWNER_TYPES"
  by (simp add: SPAWNER_TYPES_def item_def)

lemma get_spawner_type_Some: "get_spawner_type ty = Some t \<longleftrightarrow> t \<in> set SPAWNER_TYPES \<and> st_id t = ty"
proof
  have d: "distinct (map st_id SPAWNER_TYPES)" by (simp add: SPAWNER_TYPES_def)
  assume "t \<in> set SPAWNER_TYPES \<and> st_id t = ty"
  then show "get_spawner_type ty = Some t"
    unfolding get_spawner_type_def using find_key [OF d, of t] by simp
qed (use find_Some_in in \<open>force simp: get_spawner_type_def\<close>)

lemma parse_step:
  "map_of (foldl (\<lambda>out (k, v). case action_of v of
           Some a \<Rightarrow> if k = js ''__proto__'' then out else AList.update k a out
         | None \<Rightarrow> out) m kvs) k
   = (case map_of (rev (filter (\<lambda>(k, v). action_of v \<noteq> None \<and> k \<noteq> js ''__proto__'') kvs)) k of
        Some v \<Rightarrow> action_of v | None \<Rightarrow> map_of m k)"
  by (induction kvs arbitrary: m) (auto simp: map_add_def split: option.splits)

lemma find_sync:
  assumes "map (\<lambda>t. (sd_id t, sd_label t, sd_items t)) xs = map (\<lambda>t. (st_id t, st_label t, st_items t)) ys"
  shows "map_option (\<lambda>t. (sd_label t, sd_items t)) (find (\<lambda>s. sd_id s = i) xs)
    = map_option (\<lambda>t. (st_label t, st_items t)) (find (\<lambda>s. st_id s = i) ys)"
  using assms
proof (induction xs arbitrary: ys)
  case (Cons x xs)
  then show ?case by (cases ys) auto
qed simp

section \<open>Properties\<close>

text \<open>
  The two catalogs that have to be kept in sync do agree: the same spawners with the same labels
  and items in the same order, so both sides find the same type for every id.
\<close>

theorem spawner_catalogs_agree:
  "map_option (\<lambda>t. (sd_label t, sd_items t)) (frontend_get_spawner_type i)
     = map_option (\<lambda>t. (st_label t, st_items t)) (get_spawner_type i)"
  unfolding frontend_get_spawner_type_def get_spawner_type_def
  by (rule find_sync) (simp add: FRONTEND_SPAWNER_TYPES_def SPAWNER_TYPES_def)

text \<open>
  The bot drops and sells exactly the items of the selected spawner whose stored action says so,
  each at most once and never both: an unknown spawner or a stale entry for a foreign item makes it
  touch nothing.
\<close>

theorem spawner_actions_are_exact:
  "case resolve_spawner_actions ty actions of (drops, sells) \<Rightarrow>
     distinct drops \<and> distinct sells \<and> set drops \<inter> set sells = {}
     \<and> set drops = {i. \<exists>t \<in> set SPAWNER_TYPES. st_id t = ty \<and> i \<in> si_id ` set (st_items t) \<and> map_of actions i = Some Drop}
     \<and> set sells = {i. \<exists>t \<in> set SPAWNER_TYPES. st_id t = ty \<and> i \<in> si_id ` set (st_items t) \<and> map_of actions i = Some Sell}"
proof -
  show ?thesis
  proof (cases "get_spawner_type ty")
    case None
    then have "\<forall>t \<in> set SPAWNER_TYPES. st_id t \<noteq> ty" by (metis get_spawner_type_Some option.distinct(1))
    then show ?thesis using None by (auto simp: resolve_eq)
  next
    case (Some t)
    then have t: "t \<in> set SPAWNER_TYPES" "st_id t = ty" by (simp_all add: get_spawner_type_Some)
    then have d: "distinct (map si_id (st_items t))" using catalog_items_distinct unfolding list_all_iff by (rule_tac bspec)
    have only: "(\<exists>u \<in> set SPAWNER_TYPES. st_id u = ty \<and> Q u) \<longleftrightarrow> Q t" for Q
    proof
      assume "\<exists>u \<in> set SPAWNER_TYPES. st_id u = ty \<and> Q u"
      then obtain u where "u \<in> set SPAWNER_TYPES \<and> st_id u = ty" "Q u" by blast
      then have "get_spawner_type ty = Some u" unfolding get_spawner_type_Some by simp
      then show "Q t" using Some \<open>Q u\<close> by simp
    qed (use t in blast)
    show ?thesis unfolding only using Some d by (auto simp: resolve_eq)
  qed
qed

end
