(* ===== verification/Client_Manager.thy ===== *)
theory Client_Manager
  imports Minecraft_Client_Props Spawners Database
begin

text \<open>
  \<^verbatim>\<open>backend/src/minecraft/ClientManager.ts\<close>: one supervised client per account, in the order they were
  registered, and the persisted intent that a client should be running. Clients that were removed are
  kept in \<open>mg_gone\<close> with everything they did. The listeners and the imports of homes from old logs are
  left out; stopping the remote bots at startup is not visible in the state.
\<close>

record manager =
  mg_clients :: "(jstr, client) jmap"
  mg_gone :: "client list"

definition new_manager :: manager where
  "new_manager = \<lparr>mg_clients = [], mg_gone = []\<rparr>"

definition json_of_text :: "json_text \<Rightarrow> json option" where
  "json_of_text t = (case t of Malformed \<Rightarrow> None | Text_of j \<Rightarrow> Some j)"

definition to_runtime_config :: "account_row \<Rightarrow> runtime_config" where
  "to_runtime_config a =
     (case resolve_spawner_actions (a_spawner_type a) (parse_spawner_actions (json_of_text (a_spawner_actions a))) of
        (drops, sells) \<Rightarrow>
          \<lparr>rc_id = a_id a, rc_name = a_name a, rc_version = a_version a, rc_host = a_host a, rc_port = a_port a,
           rc_edition = (if a_edition a = js ''BEDROCK'' then BEDROCK else JAVA), rc_auth = a_auth a,
           rc_secret = a_secret a, rc_password = a_password a, rc_crouch = a_crouch a,
           rc_button = Some (a_button a), rc_auto_reconnect = a_reconnect a,
           rc_auto_return_home = Some (a_return_home a), rc_sell_enabled = a_sell_enabled a,
           rc_sell_interval = a_sell_interval a, rc_sell_command = a_sell_command a,
           rc_spawner_type = a_spawner_type a, rc_drop_items = drops, rc_sell_items = sells\<rparr>)"

definition get_client :: "jstr \<Rightarrow> manager \<Rightarrow> client option" where
  "get_client i m = map_of (mg_clients m) i"

definition put_client :: "jstr \<Rightarrow> client \<Rightarrow> manager \<Rightarrow> manager" where
  "put_client i c m = m\<lparr>mg_clients := AList.update i c (mg_clients m)\<rparr>"

definition register :: "env \<Rightarrow> account_row \<Rightarrow> manager \<Rightarrow> manager" where
  "register e a m = (case get_client (a_id a) m of
       Some c \<Rightarrow> put_client (a_id a) (update_config e (to_runtime_config a) c) m
     | None \<Rightarrow> put_client (a_id a) (new_client (to_runtime_config a)) m)"

definition unregister :: "env \<Rightarrow> jstr \<Rightarrow> manager \<Rightarrow> manager" where
  "unregister e i m = (case get_client i m of
       Some c \<Rightarrow> m\<lparr>mg_clients := AList.delete i (mg_clients m), mg_gone := mg_gone m @ [dispose e c]\<rparr>
     | None \<Rightarrow> m)"

definition get_all_statuses :: "manager \<Rightarrow> snapshot list" where
  "get_all_statuses m = map (\<lambda>(i, c). get_status c) (mg_clients m)"

text \<open>A write to an account that was deleted meanwhile is ignored.\<close>

definition persist_auto_start :: "jstr \<Rightarrow> bool \<Rightarrow> db \<Rightarrow> db" where
  "persist_auto_start i b d = (case update_account_row i (\<lambda>a. a\<lparr>a_auto_start := b\<rparr>) d of
       Some d' \<Rightarrow> d' | None \<Rightarrow> d)"

definition start_account :: "env \<Rightarrow> jstr \<Rightarrow> manager \<times> db \<Rightarrow> (manager \<times> db) \<times> bool" where
  "start_account e i = (\<lambda>(m, d). case get_client i m of
       None \<Rightarrow> ((m, d), False)
     | Some c \<Rightarrow> ((put_client i (connect e c) m, persist_auto_start i True d), True))"

definition stop_account :: "env \<Rightarrow> jstr \<Rightarrow> manager \<times> db \<Rightarrow> (manager \<times> db) \<times> bool" where
  "stop_account e i = (\<lambda>(m, d). case get_client i m of
       None \<Rightarrow> ((m, d), False)
     | Some c \<Rightarrow> ((put_client i (disconnect e c) m, persist_auto_start i False d), True))"

definition restart_account :: "env \<Rightarrow> jstr \<Rightarrow> manager \<times> db \<Rightarrow> (manager \<times> db) \<times> bool" where
  "restart_account e i = (\<lambda>(m, d). case get_client i m of
       None \<Rightarrow> ((m, d), False)
     | Some c \<Rightarrow> ((put_client i (restart e c) m, persist_auto_start i True d), True))"

definition clean_spawner_account :: "jstr \<Rightarrow> manager \<times> db \<Rightarrow> (manager \<times> db) \<times> bool" where
  "clean_spawner_account i = (\<lambda>(m, d). case get_client i m of
       None \<Rightarrow> ((m, d), False)
     | Some c \<Rightarrow> (case clean_spawner c of (ok, c') \<Rightarrow> ((put_client i c' m, d), ok)))"

text \<open>The selection is frozen before the first restart. A restart does not throw, so none fails.\<close>

definition restart_all_online :: "env \<Rightarrow> manager \<times> db \<Rightarrow> (manager \<times> db) \<times> jstr list \<times> jstr list" where
  "restart_all_online e = (\<lambda>(m, d).
     (let online = map fst (filter (\<lambda>(i, c). sn_status (get_status c) = ONLINE) (mg_clients m))
      in (fold (\<lambda>i s. fst (restart_account e i s)) online (m, d), online, [])))"

text \<open>Loading registers every account and resets the stored statuses; then the clients that were running connect.\<close>

definition load_accounts :: "env \<Rightarrow> db \<Rightarrow> manager \<times> db" where
  "load_accounts e d =
     (let accounts = db_accounts d;
          d1 = d\<lparr>db_accounts := map (\<lambda>a. a\<lparr>a_status := OFFLINE\<rparr>) (db_accounts d)\<rparr>
      in (fold (register e) accounts new_manager, d1))"

definition load_all :: "env \<Rightarrow> db \<Rightarrow> manager \<times> db" where
  "load_all e d =
     (fold (\<lambda>a m. case get_client (a_id a) m of None \<Rightarrow> m | Some c \<Rightarrow> put_client (a_id a) (connect e c) m)
        (filter a_auto_start (db_accounts d)) (fst (load_accounts e d)), snd (load_accounts e d))"

definition shutdown_all :: "env \<Rightarrow> manager \<Rightarrow> manager \<times> nat list" where
  "shutdown_all e m =
     (m\<lparr>mg_clients := map (\<lambda>(i, c). (i, fst (shutdown e c))) (mg_clients m)\<rparr>,
      concat (map (\<lambda>(i, c). case snd (shutdown e c) of None \<Rightarrow> [] | Some k \<Rightarrow> [k]) (mg_clients m)))"

section \<open>Everything that can happen to the manager\<close>

datatype manager_event =
    M_register account_row
  | M_unregister jstr
  | M_start jstr
  | M_stop jstr
  | M_restart jstr
  | M_restart_all
  | M_clean jstr
  | M_client jstr client_event

fun manager_step :: "env \<times> manager_event \<Rightarrow> manager \<times> db \<Rightarrow> manager \<times> db" where
  "manager_step (e, M_register a) (m, d) = (register e a m, d)"
| "manager_step (e, M_unregister i) (m, d) = (unregister e i m, d)"
| "manager_step (e, M_start i) s = fst (start_account e i s)"
| "manager_step (e, M_stop i) s = fst (stop_account e i s)"
| "manager_step (e, M_restart i) s = fst (restart_account e i s)"
| "manager_step (e, M_restart_all) s = fst (restart_all_online e s)"
| "manager_step (e, M_clean i) s = fst (clean_spawner_account i s)"
| "manager_step (e, M_client i ev) (m, d) = (case get_client i m of
       None \<Rightarrow> (m, d) | Some c \<Rightarrow> (put_client i (client_step (e, ev) c) m, d))"

section \<open>Lemmas\<close>

lemma get_put_client [simp]: "get_client j (put_client i c m) = (if j = i then Some c else get_client j m)"
  by (simp add: get_client_def put_client_def)

lemma put_client_gone [simp]: "mg_gone (put_client i c m) = mg_gone m"
  by (simp add: put_client_def)

text \<open>Every client in the map satisfies the invariant of a client, every removed one is stopped for good.\<close>

definition manager_ok :: "manager \<Rightarrow> bool" where
  "manager_ok m \<longleftrightarrow> jmap_ok (mg_clients m) \<and> (\<forall>i c. get_client i m = Some c \<longrightarrow> client_inv c)
     \<and> (\<forall>c \<in> set (mg_gone m). client_inv c \<and> manually_stopped c)"

lemma manager_ok_new: "manager_ok new_manager"
  by (simp add: manager_ok_def new_manager_def get_client_def)

lemma manager_ok_put: "manager_ok m \<Longrightarrow> client_inv c \<Longrightarrow> manager_ok (put_client i c m)"
  by (auto simp: manager_ok_def put_client_def get_client_def)

lemma manager_ok_client: "manager_ok m \<Longrightarrow> get_client i m = Some c \<Longrightarrow> client_inv c"
  by (simp add: manager_ok_def)

lemma register_ok: "manager_ok m \<Longrightarrow> manager_ok (register e a m)"
  by (auto simp: register_def split: option.splits intro!: manager_ok_put new_client_inv dest: manager_ok_client)

lemma dispose_stops: "manually_stopped (dispose e c)"
  by (simp add: dispose_def disconnect_stops)

lemma unregister_ok: "manager_ok m \<Longrightarrow> manager_ok (unregister e i m)"
  by (auto simp: unregister_def manager_ok_def get_client_def dispose_stops split: option.splits)

lemma account_ops_ok:
  assumes "manager_ok (fst s)"
  shows "manager_ok (fst (fst (start_account e i s)))" and "manager_ok (fst (fst (stop_account e i s)))"
    and "manager_ok (fst (fst (restart_account e i s)))" and "manager_ok (fst (fst (clean_spawner_account i s)))"
proof -
  obtain m d where s: "s = (m, d)" by force
  have clean: "client_inv (snd (clean_spawner c))" if "client_inv c" for c using that by blast
  show "manager_ok (fst (fst (start_account e i s)))" "manager_ok (fst (fst (stop_account e i s)))"
    "manager_ok (fst (fst (restart_account e i s)))"
    using assms by (auto simp: s start_account_def stop_account_def restart_account_def split: option.splits
        intro!: manager_ok_put dest: manager_ok_client)
  show "manager_ok (fst (fst (clean_spawner_account i s)))"
    using assms clean by (auto simp: s clean_spawner_account_def case_prod_unfold split: option.splits
        intro!: manager_ok_put dest: manager_ok_client)
qed

lemma fold_keeps: "P s \<Longrightarrow> (\<And>x s. P s \<Longrightarrow> P (f x s)) \<Longrightarrow> P (fold f xs s)"
  by (induction xs arbitrary: s) auto

lemma manager_step_ok:
  assumes "manager_ok (fst s)"
  shows "manager_ok (fst (manager_step ev s))"
proof -
  obtain m d e k where s: "s = (m, d)" "ev = (e, k)" by (cases s; cases ev)
  show ?thesis
  proof (cases k)
    case M_restart_all
    have "manager_ok (fst (fold (\<lambda>i s. fst (restart_account e i s)) xs (m, d)))" for xs
      using assms s by (intro fold_keeps [where P = "\<lambda>s. manager_ok (fst s)"]) (auto intro: account_ops_ok)
    then show ?thesis using s M_restart_all by (simp add: restart_all_online_def Let_def)
  next
    case (M_client i ev)
    then show ?thesis using assms s
      by (auto split: option.splits intro!: manager_ok_put client_step_inv dest: manager_ok_client)
  qed (use assms s in \<open>auto intro: register_ok unregister_ok account_ops_ok\<close>)
qed

interpretation client_manager: stepwise manager_step "\<lambda>s. manager_ok (fst s)"
  by unfold_locales (rule manager_step_ok)

text \<open>Two operations on different accounts do not touch each other's client.\<close>

definition addressed :: "manager_event \<Rightarrow> jstr option" where
  "addressed k = (case k of M_register a \<Rightarrow> Some (a_id a) | M_unregister i \<Rightarrow> Some i | M_start i \<Rightarrow> Some i
     | M_stop i \<Rightarrow> Some i | M_restart i \<Rightarrow> Some i | M_restart_all \<Rightarrow> None | M_clean i \<Rightarrow> Some i | M_client i _ \<Rightarrow> Some i)"

lemma step_other:
  assumes "addressed k = Some i" and "j \<noteq> i"
  shows "get_client j (fst (manager_step (e, k) (m, d))) = get_client j m"
  using assms
  by (cases k) (auto simp: addressed_def register_def unregister_def start_account_def stop_account_def
      restart_account_def clean_spawner_account_def case_prod_unfold get_client_def put_client_def split: option.splits)

section \<open>Loading\<close>

lemma register_get:
  "get_client j (register e a m) = (if j = a_id a then
      Some (case get_client j m of Some c \<Rightarrow> update_config e (to_runtime_config a) c | None \<Rightarrow> new_client (to_runtime_config a))
    else get_client j m)"
  by (auto simp: register_def split: option.splits)

lemma fold_register_get:
  assumes "distinct (map a_id as)" and "\<forall>a \<in> set as. get_client (a_id a) m = None"
  shows "get_client j (fold (register e) as m) = (case find (\<lambda>a. a_id a = j) as of
      Some a \<Rightarrow> Some (new_client (to_runtime_config a)) | None \<Rightarrow> get_client j m)"
  using assms
proof (induction as arbitrary: m)
  case (Cons a as)
  have "\<forall>b \<in> set as. get_client (a_id b) (register e a m) = None"
    using Cons.prems by (auto simp: register_get) (metis image_eqI)
  then have ih: "get_client j (fold (register e) as (register e a m)) = (case find (\<lambda>a. a_id a = j) as of
      Some a \<Rightarrow> Some (new_client (to_runtime_config a)) | None \<Rightarrow> get_client j (register e a m))"
    using Cons.IH Cons.prems by simp
  show ?case
  proof (cases "a_id a = j")
    case True
    then have "find (\<lambda>a. a_id a = j) as = None" using Cons.prems(1) by (auto simp: find_None_iff) (metis image_eqI)
    then show ?thesis using True ih Cons.prems(2) by (simp add: register_get)
  next
    case False
    then have "get_client j (register e a m) = get_client j m" by (simp add: register_get)
    then show ?thesis using ih False by (cases "find (\<lambda>a. a_id a = j) as") simp_all
  qed
qed simp

lemma fold_connect_get:
  assumes "distinct (map a_id as)"
  shows "get_client j (fold (\<lambda>a m. case get_client (a_id a) m of None \<Rightarrow> m | Some c \<Rightarrow> put_client (a_id a) (connect e c) m) as m)
    = (if j \<in> a_id ` set as then map_option (connect e) (get_client j m) else get_client j m)"
  using assms
proof (induction as arbitrary: m)
  case (Cons a as)
  then show ?case by (auto split: option.splits)
qed simp

lemma rc_id_config [simp]: "rc_id (to_runtime_config a) = a_id a"
  by (simp add: to_runtime_config_def split: prod.splits)

lemma load_all_get:
  assumes "db_ok d"
  shows "get_client j (fst (load_all e d)) = map_option (\<lambda>a.
     if a_auto_start a then connect e (new_client (to_runtime_config a)) else new_client (to_runtime_config a))
     (find_account d j)"
proof -
  have dist: "distinct (map a_id (db_accounts d))" using assms by (simp add: db_ok_def keys_ok_def)
  have on: "j \<in> a_id ` set (filter a_auto_start (db_accounts d)) \<longleftrightarrow> a_auto_start a"
    if "find_account d j = Some a" for a
  proof -
    have a: "a \<in> set (db_accounts d)" "a_id a = j" using find_account_Some [OF that] by auto
    have u: "b = a" if "b \<in> set (db_accounts d)" "a_id b = j" for b
      using inj_onD [of a_id "set (db_accounts d)" b a] dist a that by (simp add: distinct_map)
    show ?thesis
    proof
      assume "j \<in> a_id ` set (filter a_auto_start (db_accounts d))"
      then obtain b where "b \<in> set (db_accounts d)" "a_auto_start b" "a_id b = j" by fastforce
      then show "a_auto_start a" using u by blast
    qed (use a in force)
  qed
  have off: "j \<notin> a_id ` set (filter a_auto_start (db_accounts d))" if "find_account d j = None"
    using that by (force simp: find_account_None)
  have reg: "get_client j (fold (register e) (db_accounts d) new_manager)
      = map_option (\<lambda>a. new_client (to_runtime_config a)) (find_account d j)"
    using fold_register_get [OF dist, of new_manager j e]
    by (simp add: new_manager_def get_client_def find_account_def split: option.splits)
  have "get_client j (fst (load_all e d)) =
      (if j \<in> a_id ` set (filter a_auto_start (db_accounts d))
       then map_option (connect e) (get_client j (fold (register e) (db_accounts d) new_manager))
       else get_client j (fold (register e) (db_accounts d) new_manager))"
    unfolding load_all_def load_accounts_def Let_def fst_conv
    by (rule fold_connect_get) (use dist in \<open>simp add: distinct_map_filter\<close>)
  then show ?thesis
    using reg on off by (cases "find_account d j") auto
qed

section \<open>Properties\<close>

text \<open>
  Accounts are isolated from each other and nothing is lost with a removed one: in every history
  of the manager each client keeps its own invariant, and a client that was removed has terminated
  every controller it ever created.
\<close>

theorem removed_clients_leave_nothing_behind:
  assumes "c \<in> set (mg_gone (fst (fold manager_step evs (new_manager, d))))"
  shows "status c = OFFLINE \<and> child c = None \<and> (\<forall>k < next_child c. O_terminate k \<in> set (outs c))"
proof -
  have "manager_ok (fst (fold manager_step evs (new_manager, d)))"
    by (rule client_manager.run_inv) (simp add: manager_ok_new)
  then have c: "client_inv c" "manually_stopped c" using assms by (auto simp: manager_ok_def)
  then show ?thesis
    using stopped_idle [OF c] inv_no_orphans [OF c(1)]
    by (auto simp: idle_ok_def no_orphans_def is_current_def)
qed

theorem removed_clients_leave_nothing_behind_witness:
  "\<exists>c. c \<in> set (mg_gone (fst (fold manager_step [(demo_env 0, M_register demo_account), (demo_env 1, M_start [1]),
       (demo_env 2, M_unregister [1])] (new_manager, empty_db)))) \<and> O_terminate 0 \<in> set (outs c)"
proof -
  let ?g = "mg_gone (fst (fold manager_step [(demo_env 0, M_register demo_account), (demo_env 1, M_start [1]),
       (demo_env 2, M_unregister [1])] (new_manager, empty_db)))"
  have "map next_child ?g = [1]" by code_simp
  then obtain c where "c \<in> set ?g" "next_child c = 1" by (cases ?g) auto
  then show ?thesis using removed_clients_leave_nothing_behind by (metis less_one)
qed

text \<open>
  A request or bot event for one account never changes the client of another.
\<close>

theorem accounts_are_isolated:
  assumes "\<forall>(e, k) \<in> set evs. addressed k \<noteq> None \<and> addressed k \<noteq> Some j"
  shows "get_client j (fst (fold manager_step evs (m, d))) = get_client j m"
  using assms
proof (induction evs arbitrary: m d)
  case (Cons ev evs)
  obtain e k where ev: "ev = (e, k)" by force
  obtain m' d' where s: "manager_step (e, k) (m, d) = (m', d')" by force
  obtain i where "addressed k = Some i" "j \<noteq> i" using Cons.prems ev by auto
  then have "get_client j m' = get_client j m" using step_other [of k i j e m d] s by simp
  then show ?case using Cons.IH [of m' d'] Cons.prems ev s by simp
qed simp

theorem accounts_are_isolated_witness:
  "get_client [2] (fst (fold manager_step [(demo_env 0, M_register demo_account)] (new_manager, empty_db))) = None"
  using accounts_are_isolated [of "[(demo_env 0, M_register demo_account)]" "[2]" new_manager empty_db]
  by (simp add: addressed_def demo_account_def get_client_def new_manager_def)

text \<open>
  The intent to run survives a restart of the service: after loading, the clients are exactly the
  accounts of the database, those that were running are connecting with a fresh controller, and the
  others are OFFLINE without one; every stored status has been reset.
\<close>

theorem load_all_resumes_the_running:
  assumes "db_ok d" and "spawn_error e = None" and "find_account d j = Some a"
  shows "\<exists>c. get_client j (fst (load_all e d)) = Some c \<and> client_inv c
     \<and> (if a_auto_start a then status c = CONNECTING \<and> is_current 0 c else status c = OFFLINE \<and> child c = None)
     \<and> list_all (\<lambda>b. a_status b = OFFLINE) (db_accounts (snd (load_all e d)))"
proof -
  let ?n = "new_client (to_runtime_config a)"
  have "status (connect e ?n) = CONNECTING" "is_current 0 (connect e ?n)"
    using assms(2) by (simp_all add: connect_def new_client_def attempt_connect_def Let_def timer_defs is_current_def)
  moreover have "status ?n = OFFLINE" "child ?n = None" by (simp_all add: new_client_def)
  moreover have "list_all (\<lambda>b. a_status b = OFFLINE) (db_accounts (snd (load_all e d)))"
    by (simp add: load_all_def load_accounts_def Let_def list_all_iff)
  ultimately show ?thesis
    using load_all_get [OF assms(1), of j e] assms(3) new_client_inv connect_inv by simp
qed

theorem load_all_resumes_the_running_witness:
  "\<exists>c. get_client [1] (fst (load_all (demo_env 0) (empty_db\<lparr>db_accounts := [demo_account]\<rparr>))) = Some c \<and> is_current 0 c"
proof -
  have "db_ok (empty_db\<lparr>db_accounts := [demo_account]\<rparr>)"
    by (simp add: db_ok_def keys_ok_def refs_ok_def empty_db_def demo_account_def)
  moreover have "find_account (empty_db\<lparr>db_accounts := [demo_account]\<rparr>) [1] = Some demo_account"
    by (simp add: find_account_def demo_account_def)
  ultimately show ?thesis
    using load_all_resumes_the_running [of "empty_db\<lparr>db_accounts := [demo_account]\<rparr>" "demo_env 0" "[1]" demo_account]
    by (auto simp: demo_env_def demo_account_def)
qed

end
