(* ===== verification/Accounts.thy ===== *)
theory Accounts
  imports Users Profile Client_Manager "HOL-Library.List_Lexorder" "HOL-Library.Product_Lexorder"
begin

text \<open>
  \<^verbatim>\<open>backend/src/accounts/service.ts\<close> and \<^verbatim>\<open>schemas.ts\<close>: who may see and operate an account, what of
  it is shown, and its creation, change, deletion and assignment. Earnings are in \<open>Earnings\<close>, the
  routes in \<open>Account_Routes\<close>.
\<close>

section \<open>Schemas (schemas.ts)\<close>

text \<open>
  What the runtime and the libraries contribute: the lower case table, the e-mail check of zod,
  \<^verbatim>\<open>Number(x)\<close> and \<^verbatim>\<open>JSON.stringify\<close>.
\<close>

record runtime =
  rt_low :: "code_unit \<Rightarrow> jstr"
  rt_email :: "jstr \<Rightarrow> bool"
  rt_number :: "json option \<Rightarrow> rat option"
  rt_stringify :: "json \<Rightarrow> jstr"

definition z_spawner_actions :: "json_text reader" where
  "z_spawner_actions f = (case f of
       Some (JObj kvs) \<Rightarrow>
         if list_all (\<lambda>(k, v). length k \<le> 64 \<and> action_of v \<noteq> None) kvs \<and> length kvs \<le> 16
         then Some (Text_of (JObj kvs)) else None
     | _ \<Rightarrow> None)"

definition z_spawner_type :: "jstr reader" where
  "z_spawner_type = z_refine (\<lambda>s. s = [] \<or> s \<in> set SPAWNER_TYPE_IDS) (\<lambda>f. case f of Some (JStr s) \<Rightarrow> Some s | _ \<Rightarrow> None)"

definition z_button :: "button reader" where
  "z_button = z_enum [(''OFF'', OFF), (''LEFT'', LEFT), (''RIGHT'', RIGHT)]"

definition z_account_name :: "jstr reader" where
  "z_account_name = z_refine (list_all login_char) (z_string 2 32)"

definition z_email :: "runtime \<Rightarrow> jstr reader" where
  "z_email rt = z_refine (\<lambda>s. rt_email rt s) (z_trimmed 0 320)"

record create_account_input =
  ca_name :: jstr
  ca_display :: jstr
  ca_version :: jstr
  ca_host :: jstr
  ca_port :: int
  ca_edition :: jstr
  ca_secret :: jstr
  ca_crouch :: bool
  ca_button :: button
  ca_reconnect :: bool
  ca_return_home :: bool
  ca_notes :: jstr
  ca_sell_enabled :: bool
  ca_sell_interval :: rat
  ca_sell_command :: jstr
  ca_spawner_type :: jstr
  ca_spawner_actions :: json_text

definition parse_create_account :: "runtime \<Rightarrow> json \<Rightarrow> create_account_input option" where
  "parse_create_account rt body = (if \<not> is_object body then None else
     case (z_account_name (json_field body ''name''), z_default [] (z_string 0 48) (json_field body ''displayName''),
           z_default [] (z_string 0 16) (json_field body ''minecraftVersion''), z_string 1 255 (json_field body ''serverHost''),
           z_default 25565 (z_int (rt_number rt) 1 65535) (json_field body ''serverPort''),
           z_default (js ''JAVA'') (z_enum [(''JAVA'', js ''JAVA''), (''BEDROCK'', js ''BEDROCK'')]) (json_field body ''edition''),
           z_email rt (json_field body ''credentialsSecret''), z_default False z_bool (json_field body ''crouchEnabled'')) of
       (Some n, Some dn, Some v, Some h, Some p, Some ed, Some sec, Some cr) \<Rightarrow>
         (case (z_default OFF z_button (json_field body ''autoButton''), z_default True z_bool (json_field body ''autoReconnect''),
                z_default True z_bool (json_field body ''autoReturnHome''), z_default [] (z_string 0 50) (json_field body ''notes''),
                z_default False z_bool (json_field body ''autoSellEnabled''),
                z_default 60 (z_number (rt_number rt) (1/4) 3600) (json_field body ''autoSellIntervalSeconds''),
                z_default (js ''/sell'') (z_string 0 64) (json_field body ''autoSellCommand''),
                z_default [] z_spawner_type (json_field body ''spawnerType''),
                z_default (Text_of (JObj [])) z_spawner_actions (json_field body ''spawnerActions'')) of
            (Some b, Some rec, Some home, Some nt, Some se, Some si, Some scmd, Some sty, Some sa) \<Rightarrow>
              Some \<lparr>ca_name = n, ca_display = dn, ca_version = v, ca_host = h, ca_port = p, ca_edition = ed, ca_secret = sec,
                ca_crouch = cr, ca_button = b, ca_reconnect = rec, ca_return_home = home, ca_notes = nt,
                ca_sell_enabled = se, ca_sell_interval = si, ca_sell_command = scmd, ca_spawner_type = sty,
                ca_spawner_actions = sa\<rparr>
          | _ \<Rightarrow> None)
     | _ \<Rightarrow> None)"

text \<open>The update schema has no e-mail, password or authentication type: they cannot be changed.\<close>

record account_patch =
  ap_name :: "jstr option"
  ap_display :: "jstr option"
  ap_version :: "jstr option"
  ap_host :: "jstr option"
  ap_port :: "int option"
  ap_crouch :: "bool option"
  ap_button :: "button option"
  ap_reconnect :: "bool option"
  ap_return_home :: "bool option"
  ap_notes :: "jstr option"
  ap_sell_enabled :: "bool option"
  ap_sell_interval :: "rat option"
  ap_sell_command :: "jstr option"
  ap_spawner_type :: "jstr option"
  ap_spawner_actions :: "json_text option"

definition parse_update_account :: "runtime \<Rightarrow> json \<Rightarrow> account_patch option" where
  "parse_update_account rt body = (if \<not> is_object body then None else
     case (z_optional z_account_name (json_field body ''name''), z_optional (z_string 0 48) (json_field body ''displayName''),
           z_optional (z_string 0 16) (json_field body ''minecraftVersion''), z_optional (z_string 1 255) (json_field body ''serverHost''),
           z_optional (z_int (rt_number rt) 1 65535) (json_field body ''serverPort''),
           z_optional z_bool (json_field body ''crouchEnabled''), z_optional z_button (json_field body ''autoButton'')) of
       (Some n, Some dn, Some v, Some h, Some p, Some cr, Some b) \<Rightarrow>
         (case (z_optional z_bool (json_field body ''autoReconnect''), z_optional z_bool (json_field body ''autoReturnHome''),
                z_optional (z_string 0 50) (json_field body ''notes''), z_optional z_bool (json_field body ''autoSellEnabled''),
                z_optional (z_number (rt_number rt) (1/4) 3600) (json_field body ''autoSellIntervalSeconds''),
                z_optional (z_string 0 64) (json_field body ''autoSellCommand''),
                z_optional z_spawner_type (json_field body ''spawnerType''),
                z_optional z_spawner_actions (json_field body ''spawnerActions'')) of
            (Some rec, Some home, Some nt, Some se, Some si, Some scmd, Some sty, Some sa) \<Rightarrow>
              Some \<lparr>ap_name = n, ap_display = dn, ap_version = v, ap_host = h, ap_port = p, ap_crouch = cr,
                ap_button = b, ap_reconnect = rec, ap_return_home = home, ap_notes = nt, ap_sell_enabled = se,
                ap_sell_interval = si, ap_sell_command = scmd, ap_spawner_type = sty, ap_spawner_actions = sa\<rparr>
          | _ \<Rightarrow> None)
     | _ \<Rightarrow> None)"

definition parse_assign_users :: "json \<Rightarrow> jstr list option" where
  "parse_assign_users body =
     (if is_object body then z_array 0 10000 (z_string 1 160) (json_field body ''userIds'') else None)"

definition parse_reorder :: "json \<Rightarrow> jstr list option" where
  "parse_reorder body =
     (if is_object body then z_array 1 10000 (z_string 1 160) (json_field body ''accountIds'') else None)"

definition parse_command :: "json \<Rightarrow> jstr option" where
  "parse_command body =
     (if is_object body then z_refine is_slash_command (z_string 1 256) (json_field body ''command'') else None)"

section \<open>What is shown\<close>

record public_account =
  pa_id :: jstr
  pa_name :: jstr
  pa_display :: jstr
  pa_version :: jstr
  pa_host :: jstr
  pa_port :: int
  pa_edition :: jstr
  pa_auth :: auth_type
  pa_crouch :: bool
  pa_button :: button
  pa_reconnect :: bool
  pa_return_home :: bool
  pa_notes :: jstr
  pa_sell_enabled :: bool
  pa_sell_interval :: rat
  pa_sell_command :: jstr
  pa_last_sell :: "int option"
  pa_spawner_type :: jstr
  pa_spawner_actions :: action_map
  pa_status :: client_status
  pa_order :: int
  pa_image_url :: "jstr option"
  pa_created_by :: "(jstr \<times> jstr \<times> jstr option) option"
  pa_assignments :: "(jstr \<times> jstr) list"

definition image_url :: "jstr \<Rightarrow> db \<Rightarrow> jstr option" where
  "image_url i d = map_option (\<lambda>x. js ''/api/minecraft/accounts/'' @ i @ js ''/image?v='' @ im_revision x)
     (find (\<lambda>x. im_account x = i) (db_images d))"

definition creator_of :: "account_row \<Rightarrow> db \<Rightarrow> (jstr \<times> jstr \<times> jstr option) option" where
  "creator_of a d = (case a_created_by a of None \<Rightarrow> None | Some u \<Rightarrow>
     map_option (\<lambda>r. (u_id r, u_name r, u_mc r)) (find_user d u))"

definition assignments_of :: "jstr \<Rightarrow> db \<Rightarrow> (jstr \<times> jstr) list" where
  "assignments_of i d = map (\<lambda>(u, _). (u, case find_user d u of Some r \<Rightarrow> u_name r | None \<Rightarrow> []))
     (filter (\<lambda>p. snd p = i) (db_assignments d))"

definition present :: "db \<Rightarrow> account_row \<Rightarrow> public_account" where
  "present d a = \<lparr>pa_id = a_id a, pa_name = a_name a, pa_display = a_display a, pa_version = a_version a,
     pa_host = a_host a, pa_port = a_port a, pa_edition = a_edition a, pa_auth = a_auth a, pa_crouch = a_crouch a,
     pa_button = a_button a, pa_reconnect = a_reconnect a, pa_return_home = a_return_home a, pa_notes = a_notes a,
     pa_sell_enabled = a_sell_enabled a, pa_sell_interval = a_sell_interval a, pa_sell_command = a_sell_command a,
     pa_last_sell = a_last_sell a, pa_spawner_type = a_spawner_type a,
     pa_spawner_actions = parse_spawner_actions (json_of_text (a_spawner_actions a)), pa_status = a_status a,
     pa_order = a_order a, pa_image_url = image_url (a_id a) d, pa_created_by = creator_of a d,
     pa_assignments = assignments_of (a_id a) d\<rparr>"

record dashboard_account =
  da_id :: jstr
  da_name :: jstr
  da_display :: jstr
  da_version :: jstr
  da_host :: jstr
  da_port :: int
  da_edition :: jstr
  da_notes :: jstr
  da_status :: client_status
  da_last_sell :: "int option"
  da_image_url :: "jstr option"
  da_created_by :: "(jstr \<times> jstr \<times> jstr option) option"

definition present_dashboard :: "db \<Rightarrow> account_row \<Rightarrow> dashboard_account" where
  "present_dashboard d a = \<lparr>da_id = a_id a, da_name = a_name a, da_display = a_display a, da_version = a_version a,
     da_host = a_host a, da_port = a_port a, da_edition = a_edition a, da_notes = a_notes a, da_status = a_status a,
     da_last_sell = a_last_sell a, da_image_url = image_url (a_id a) d, da_created_by = creator_of a d\<rparr>"

text \<open>The accounts of a session, by dashboard order and name (names are ASCII), then by preference.\<close>

definition visible_accounts :: "session_context \<Rightarrow> db \<Rightarrow> account_row list" where
  "visible_accounts sc d = sort_key (\<lambda>a. (a_order a, a_name a))
     (filter (\<lambda>a. sc_role sc = ADMIN \<or> is_assigned d (sc_user sc) (a_id a)) (db_accounts d))"

definition list_accounts_for_session :: "session_context \<Rightarrow> db \<Rightarrow> public_account list option" where
  "list_accounts_for_session sc d = map_option (\<lambda>order. map (present d) (apply_account_order a_id (visible_accounts sc d) order))
     (get_account_order (sc_user sc) d)"

definition list_dashboard_accounts_for_session :: "session_context \<Rightarrow> db \<Rightarrow> dashboard_account list option" where
  "list_dashboard_accounts_for_session sc d =
     map_option (\<lambda>order. map (present_dashboard d) (apply_account_order a_id (visible_accounts sc d) order))
       (get_account_order (sc_user sc) d)"

section \<open>Access\<close>

definition get_account_for_session :: "session_context \<Rightarrow> jstr \<Rightarrow> db \<Rightarrow> public_account option" where
  "get_account_for_session sc i d = (case find_account d i of
       None \<Rightarrow> None
     | Some a \<Rightarrow> if sc_role sc \<noteq> ADMIN \<and> \<not> list_ex (\<lambda>(u, _). u = sc_user sc) (assignments_of i d) then None
                 else Some (present d a))"

definition can_access_account :: "session_context \<Rightarrow> jstr \<Rightarrow> db \<Rightarrow> bool" where
  "can_access_account sc i d \<longleftrightarrow> sc_role sc = ADMIN \<or> is_assigned d (sc_user sc) i"

definition has_account_access :: "session_context \<Rightarrow> jstr \<Rightarrow> db \<Rightarrow> bool" where
  "has_account_access sc i d \<longleftrightarrow>
     list_ex (\<lambda>a. a_id a = i \<and> (sc_role sc = ADMIN \<or> is_assigned d (sc_user sc) (a_id a))) (db_accounts d)"

definition can_manage_assignments :: "session_context \<Rightarrow> jstr \<Rightarrow> db \<Rightarrow> bool" where
  "can_manage_assignments sc i d \<longleftrightarrow> sc_role sc = ADMIN
     \<or> (case find_account d i of None \<Rightarrow> False
        | Some a \<Rightarrow> a_created_by a = Some (sc_user sc) \<and> can_access_account sc i d)"

section \<open>Changes\<close>

text \<open>
  One transaction: the rows of the account are replaced by one per distinct user. A reference to a
  user or an account that does not exist fails and leaves the old rows.
\<close>

definition set_assignments :: "jstr \<Rightarrow> jstr list \<Rightarrow> db \<Rightarrow> db option" where
  "set_assignments i users d =
     (if users \<noteq> [] \<and> (find_account d i = None \<or> list_ex (\<lambda>u. find_user d u = None) users) then None
      else Some (d\<lparr>db_assignments := filter (\<lambda>p. snd p \<noteq> i) (db_assignments d) @ map (\<lambda>u. (u, i)) (uniq users)\<rparr>))"

text \<open>Why a creation fails: the name or the key is taken (P2002), or another error.\<close>

datatype create_error = Name_taken | Other_error

definition max_order :: "db \<Rightarrow> int" where
  "max_order d = fold max (map a_order (db_accounts d)) (case db_accounts d of [] \<Rightarrow> -1 | a # _ \<Rightarrow> a_order a)"

definition new_account_row :: "jstr \<Rightarrow> create_account_input \<Rightarrow> session_context \<Rightarrow> db \<Rightarrow> account_row" where
  "new_account_row i input creator d =
     \<lparr>a_id = i, a_name = trim (ca_name input), a_edition = ca_edition input, a_display = ca_display input,
      a_version = ca_version input, a_host = ca_host input, a_port = ca_port input, a_auth = AUTH_MICROSOFT,
      a_secret = Some (ca_secret input), a_password = None, a_crouch = ca_crouch input, a_button = ca_button input,
      a_reconnect = ca_reconnect input, a_return_home = ca_return_home input, a_notes = ca_notes input,
      a_sell_enabled = ca_sell_enabled input, a_sell_interval = ca_sell_interval input,
      a_sell_command = ca_sell_command input, a_last_sell = None, a_spawner_type = ca_spawner_type input,
      a_spawner_actions = ca_spawner_actions input, a_status = OFFLINE, a_order = max_order d + 1,
      a_auto_start = False, a_created_by = Some (sc_user creator)\<rparr>"

definition create_account :: "jstr \<Rightarrow> create_account_input \<Rightarrow> session_context \<Rightarrow> db \<Rightarrow> create_error + (db \<times> public_account)" where
  "create_account i input creator d =
     (if list_ex (\<lambda>a. a_name a = trim (ca_name input) \<or> a_id a = i) (db_accounts d) then Inl Name_taken
      else if find_user d (sc_user creator) = None then Inl Other_error
      else (let a = new_account_row i input creator d;
                d1 = d\<lparr>db_accounts := db_accounts d @ [a]\<rparr> in
        if sc_role creator \<noteq> ADMIN then
          (case set_assignments i [sc_user creator] d1 of
             None \<Rightarrow> Inl Other_error
           | Some d2 \<Rightarrow> (case get_account_for_session creator i d2 of
                 None \<Rightarrow> Inl Other_error | Some p \<Rightarrow> Inr (d2, p)))
        else Inr (d1, present d1 a)))"

definition upd :: "'a option \<Rightarrow> 'a \<Rightarrow> 'a" where
  "upd new old = (case new of None \<Rightarrow> old | Some x \<Rightarrow> x)"

definition apply_patch :: "account_patch \<Rightarrow> account_row \<Rightarrow> account_row" where
  "apply_patch p a = a\<lparr>a_name := upd (ap_name p) (a_name a), a_display := upd (ap_display p) (a_display a),
     a_version := upd (ap_version p) (a_version a), a_host := upd (ap_host p) (a_host a), a_port := upd (ap_port p) (a_port a),
     a_crouch := upd (ap_crouch p) (a_crouch a), a_button := upd (ap_button p) (a_button a),
     a_reconnect := upd (ap_reconnect p) (a_reconnect a), a_return_home := upd (ap_return_home p) (a_return_home a),
     a_notes := upd (ap_notes p) (a_notes a), a_sell_enabled := upd (ap_sell_enabled p) (a_sell_enabled a),
     a_sell_interval := upd (ap_sell_interval p) (a_sell_interval a),
     a_sell_command := upd (ap_sell_command p) (a_sell_command a), a_spawner_type := upd (ap_spawner_type p) (a_spawner_type a),
     a_spawner_actions := upd (ap_spawner_actions p) (a_spawner_actions a)\<rparr>"

text \<open>\<open>None\<close>: the account does not exist, or the new name belongs to another one.\<close>

definition update_account :: "jstr \<Rightarrow> account_patch \<Rightarrow> db \<Rightarrow> (db \<times> public_account) option" where
  "update_account i p d =
     (if (case ap_name p of None \<Rightarrow> False | Some n \<Rightarrow> list_ex (\<lambda>a. a_name a = n \<and> a_id a \<noteq> i) (db_accounts d)) then None
      else case update_account_row i (apply_patch p) d of
          None \<Rightarrow> None
        | Some d' \<Rightarrow> map_option (\<lambda>a. (d', present d' a)) (find_account d' i))"

definition purge_stored_passwords :: "db \<Rightarrow> db \<times> nat" where
  "purge_stored_passwords d =
     (d\<lparr>db_accounts := map (\<lambda>a. a\<lparr>a_password := None\<rparr>) (db_accounts d)\<rparr>,
      length (filter (\<lambda>a. a_password a \<noteq> None) (db_accounts d)))"

definition delete_account :: "jstr \<Rightarrow> db \<Rightarrow> db option" where
  "delete_account i d = delete_account_row i d"

definition reorder_accounts_for_session :: "session_context \<Rightarrow> jstr list \<Rightarrow> db \<Rightarrow> db \<times> bool attempt" where
  "reorder_accounts_for_session sc ids d =
     (let visible_ids = visible_account_ids sc d in
      if length visible_ids \<noteq> length ids then (d, Inr False)
      else if length (uniq ids) \<noteq> length visible_ids then (d, Inr False)
      else if list_ex (\<lambda>i. i \<notin> set ids) visible_ids then (d, Inr False)
      else case update_preferences sc \<lparr>pp_account_order = Some ids, pp_uploader_order = None, pp_blur = None, pp_collapse = None\<rparr> d of
          Inl e \<Rightarrow> (d, Inl e)
        | Inr (d', _) \<Rightarrow> (d', Inr True))"

section \<open>Lemmas\<close>

lemma sort_key_cong: "(\<And>x. x \<in> set xs \<Longrightarrow> f x = g x) \<Longrightarrow> sort_key f xs = sort_key g xs"
proof (induction xs)
  case (Cons x xs)
  have ins: "insort_key f x ys = insort_key g x ys" if "\<forall>y \<in> set ys. f y = g y" "f x = g x" for ys
    using that by (induction ys) auto
  show ?case using Cons by (simp add: ins)
qed simp

lemma order_key_prefix:
  assumes "distinct (xs @ ys)" and "i \<in> set xs"
  shows "order_key (xs @ ys) i = order_key xs i"
proof -
  obtain k where k: "k < length xs" "i = xs ! k" using assms(2) by (metis in_set_conv_nth)
  then have "(xs @ ys) ! k = i" by (simp add: nth_append)
  then show ?thesis
    using order_key_nth [OF assms(1), of k] order_key_nth [of xs k] assms(1) k by simp
qed

lemma apply_order_prefix:
  assumes "distinct (xs @ ys)" and "mset (map key accounts) = mset xs"
  shows "map key (apply_account_order key accounts (xs @ ys)) = xs"
proof -
  have st: "key a \<in> set xs" if "a \<in> set accounts" for a using mset_eq_setD [OF assms(2)] that by auto
  have "apply_account_order key accounts (xs @ ys) = apply_account_order key accounts xs"
    unfolding apply_account_order_alt
    by (rule sort_key_cong) (use order_key_prefix [OF assms(1)] st in blast)
  then show ?thesis using apply_order_full [of xs key accounts] assms by simp
qed

lemma visible_accounts_ids: "mset (map a_id (visible_accounts sc d)) = mset (visible_account_ids sc d)"
  by (simp add: visible_accounts_def visible_account_ids_def)

lemma visible_accounts_cong:
  "db_accounts d = db_accounts e \<Longrightarrow> db_assignments d = db_assignments e \<Longrightarrow> visible_accounts sc d = visible_accounts sc e"
  by (simp add: visible_accounts_def is_assigned_def)

lemma list_order:
  assumes "find_user d (sc_user sc) = Some u" and "p_account_order (decode (u_prefs u)) = xs @ ys"
    and "distinct (xs @ ys)" and "mset xs = mset (visible_account_ids sc d)"
  shows "map_option (map pa_id) (list_accounts_for_session sc d) = Some xs"
    and "map_option (map da_id) (list_dashboard_accounts_for_session sc d) = Some xs"
proof -
  have "map a_id (apply_account_order a_id (visible_accounts sc d) (xs @ ys)) = xs"
    using apply_order_prefix [OF assms(3)] visible_accounts_ids assms(4) by metis
  then show "map_option (map pa_id) (list_accounts_for_session sc d) = Some xs"
    "map_option (map da_id) (list_dashboard_accounts_for_session sc d) = Some xs"
    using assms(1,2) by (simp_all add: list_accounts_for_session_def list_dashboard_accounts_for_session_def
        get_account_order_def comp_def present_def present_dashboard_def)
qed

lemma update_preferences_tables:
  assumes "update_preferences sc patch d = Inr (d', p)"
  shows "db_accounts d' = db_accounts d" and "db_assignments d' = db_assignments d"
proof -
  from update_preferences_Inr [OF assms] obtain f where "update_user_row (sc_user sc) f d = Some d'" by metis
  from update_user_row_users [OF this] show "db_accounts d' = db_accounts d" "db_assignments d' = db_assignments d" by simp_all
qed

lemma update_preferences_ok_prefs:
  assumes "update_preferences sc patch d = Inr (d', p)"
  shows "\<exists>u. find_user d' (sc_user sc) = Some u"
proof -
  from update_preferences_Inr [OF assms] obtain u q where "find_user d (sc_user sc) = Some u"
    and r: "update_user_row (sc_user sc) (\<lambda>r. r\<lparr>u_prefs := Some (Text_of (encode q))\<rparr>) d = Some d'" by metis
  then show ?thesis using update_user_row_find [OF r, of "sc_user sc"] by simp
qed

section \<open>Properties\<close>

lemma parse_reorder_ok: "parse_reorder body = Some ids \<Longrightarrow> list_all (\<lambda>i. 1 \<le> length i \<and> length i \<le> 160) ids"
proof -
  assume "parse_reorder body = Some ids"
  then obtain js where all: "map (\<lambda>x. z_string 1 160 (Some x)) js = map Some ids"
    by (auto simp: parse_reorder_def z_array_def all_some_Some split: option.splits json.splits if_splits)
  have "1 \<le> length i \<and> length i \<le> 160" if i: "i \<in> set ids" for i
  proof -
    have "Some i \<in> set (map (\<lambda>x. z_string 1 160 (Some x)) js)" unfolding all using i by simp
    then show ?thesis by (auto simp: z_string_Some dest: sym)
  qed
  then show ?thesis by (simp add: list_all_iff)
qed

lemma reorder_stored:
  assumes "db_ok d" and "reorder_accounts_for_session sc ids d = (d', Inr True)"
  obtains u p where "find_user d (sc_user sc) = Some u" and "distinct ids"
    and "mset ids = mset (visible_account_ids sc d)"
    and "update_preferences sc \<lparr>pp_account_order = Some ids, pp_uploader_order = None, pp_blur = None, pp_collapse = None\<rparr> d = Inr (d', p)"
    and "find_user d' (sc_user sc) = Some (u\<lparr>u_prefs := Some (Text_of (encode ((decode (u_prefs u))\<lparr>p_account_order :=
           ids @ filter (\<lambda>i. i \<notin> set ids) (p_account_order (decode (u_prefs u)))\<rparr>)))\<rparr>)"
proof -
  let ?patch = "\<lparr>pp_account_order = Some ids, pp_uploader_order = None, pp_blur = None, pp_collapse = None\<rparr>"
  have len: "length (visible_account_ids sc d) = length ids" "length (uniq ids) = length ids"
    and up: "\<exists>p. update_preferences sc ?patch d = Inr (d', p)"
    using assms(2) by (auto simp: reorder_accounts_for_session_def Let_def split: if_splits sum.splits)
  then obtain p where p: "update_preferences sc ?patch d = Inr (d', p)" by blast
  have dist: "distinct ids" using len(2) by (simp add: length_uniq_eq_iff)
  have perm: "mset ids = mset (visible_account_ids sc d)"
    using account_order_stored [OF assms(1) p] dist by simp
  have st: "set ids = set (visible_account_ids sc d)" by (rule mset_eq_setD [OF perm])
  obtain u q1 q2 q where u: "find_user d (sc_user sc) = Some u"
    and q1: "patch_account_order (scope_of sc d) (Some ids) (decode (u_prefs u)) = Inr q1"
    and "patch_blur (scope_of sc d) None q1 = Inr q2"
    and "patch_uploaders (scope_of sc d) (sc_role sc) None None q2 = Inr q"
    and d': "update_user_row (sc_user sc) (\<lambda>r. r\<lparr>u_prefs := Some (Text_of (encode q))\<rparr>) d = Some d'"
    using update_preferences_Inr [OF p] by (metis preferences_patch.select_convs)
  then have "q = (decode (u_prefs u))\<lparr>p_account_order := ids @ filter (\<lambda>i. i \<notin> set ids) (p_account_order (decode (u_prefs u)))\<rparr>"
    by (auto simp: patch_account_order_def patch_blur_def patch_uploaders_def scope_accounts st split: if_splits)
  then show ?thesis using that [OF u dist perm p] update_user_row_find [OF d', of "sc_user sc"] u by simp
qed

text \<open>
  Dragging the cards works: after an accepted reordering both listings of the session show its
  accounts in exactly the given order, and the account rows themselves, which other users share, are
  untouched. (The stored order has room for 10000 identifiers, those of hidden accounts included.)
\<close>

theorem reordered_accounts_come_back_in_order:
  assumes "db_ok d" and "parse_reorder body = Some ids"
    and "reorder_accounts_for_session sc ids d = (d', Inr True)"
    and "find_user d (sc_user sc) = Some u" and "length (ids @ p_account_order (decode (u_prefs u))) \<le> 10000"
  shows "map_option (map pa_id) (list_accounts_for_session sc d') = Some ids
     \<and> map_option (map da_id) (list_dashboard_accounts_for_session sc d') = Some ids
     \<and> db_accounts d' = db_accounts d"
proof -
  let ?p = "decode (u_prefs u)"
  let ?rest = "filter (\<lambda>i. i \<notin> set ids) (p_account_order ?p)"
  obtain p where dist: "distinct ids" and perm: "mset ids = mset (visible_account_ids sc d)"
    and up: "update_preferences sc \<lparr>pp_account_order = Some ids, pp_uploader_order = None, pp_blur = None, pp_collapse = None\<rparr> d = Inr (d', p)"
    and u': "find_user d' (sc_user sc) = Some (u\<lparr>u_prefs := Some (Text_of (encode (?p\<lparr>p_account_order := ids @ ?rest\<rparr>)))\<rparr>)"
    by (rule reorder_stored [OF assms(1,3)]) (use assms(4) in simp)
  have ok: "preferences_ok ?p" by (rule decode_ok)
  then have d: "distinct (ids @ ?rest)" using dist by (auto simp: preferences_ok_def ids_ok_def)
  have "length ?rest \<le> length (p_account_order ?p)" by (rule length_filter_le)
  then have "length (ids @ ?rest) \<le> 10000" using assms(5) unfolding length_append by linarith
  then have "preferences_ok (?p\<lparr>p_account_order := ids @ ?rest\<rparr>)"
    using ok d parse_reorder_ok [OF assms(2)] by (auto simp: preferences_ok_def ids_ok_def list_all_iff)
  then have o': "p_account_order (decode (Some (Text_of (encode (?p\<lparr>p_account_order := ids @ ?rest\<rparr>))))) = ids @ ?rest"
    by (simp add: decode_encode)
  note t = update_preferences_tables [OF up]
  have "visible_account_ids sc d' = visible_account_ids sc d" by (simp add: visible_account_ids_def t is_assigned_def)
  then show ?thesis using list_order [OF u' _ d] o' perm t by simp
qed

theorem reordered_accounts_come_back_in_order_witness:
  "\<exists>d'. reorder_accounts_for_session (demo_context ''ann'' ADMIN) [[2], [1]] demo_tables = (d', Inr True)
     \<and> map_option (map pa_id) (list_accounts_for_session (demo_context ''ann'' ADMIN) d') = Some [[2], [1]]"
proof -
  let ?r = "reorder_accounts_for_session (demo_context ''ann'' ADMIN) [[2], [1]] demo_tables"
  have "snd ?r = Inr True" by code_simp
  then obtain d' where r: "?r = (d', Inr True)" by (cases ?r) simp
  have b: "parse_reorder (JObj [(js ''accountIds'', JArr [JStr [2], JStr [1]])]) = Some [[2], [1]]" by code_simp
  have u: "find_user demo_tables (sc_user (demo_context ''ann'' ADMIN)) = Some (demo_user ''ann'' ADMIN)"
    by (simp add: demo_tables_def demo_context_def demo_user_def find_user_def)
  have "decode (u_prefs (demo_user ''ann'' ADMIN)) = no_preferences" by (simp add: demo_user_def decode_def)
  then have l: "length ([[2], [1]] @ p_account_order (decode (u_prefs (demo_user ''ann'' ADMIN)))) \<le> 10000"
    by (simp add: no_preferences_def)
  show ?thesis using reordered_accounts_come_back_in_order [OF demo_tables_ok b r u l] r by simp
qed

end
