(* ===== verification/Account_Images.thy ===== *)
theory Account_Images
  imports Audit_Log
begin

text \<open>
  \<^verbatim>\<open>backend/src/accounts/images.ts\<close>: the check of an uploaded account image. Base64 is the encoding of
  the runtime; the PNG reader and writer of the library is the argument \<open>png\<close>: the size it reads and
  the re-encoded bytes, or \<open>None\<close> when it throws.
\<close>

section \<open>Base64\<close>

definition b64_char :: "int \<Rightarrow> code_unit" where
  "b64_char v = (if v < 26 then 65 + v else if v < 52 then 71 + v else if v < 62 then v - 4 else if v = 62 then 43 else 47)"

definition b64_value :: "code_unit \<Rightarrow> int option" where
  "b64_value c =
     (if 65 \<le> c \<and> c \<le> 90 then Some (c - 65)
      else if 97 \<le> c \<and> c \<le> 122 then Some (c - 71)
      else if 48 \<le> c \<and> c \<le> 57 then Some (c + 4)
      else if c = 43 \<or> c = 45 then Some 62
      else if c = 47 \<or> c = 95 then Some 63 else None)"

fun sextets :: "int list \<Rightarrow> int list" where
  "sextets (a # b # c # r) = [a div 4, (a mod 4) * 16 + b div 16, (b mod 16) * 4 + c div 64, c mod 64] @ sextets r"
| "sextets [a, b] = [a div 4, (a mod 4) * 16 + b div 16, (b mod 16) * 4]"
| "sextets [a] = [a div 4, (a mod 4) * 16]"
| "sextets [] = []"

fun octets :: "int list \<Rightarrow> int list" where
  "octets (p # q # r # s # t) = [p * 4 + q div 16, (q mod 16) * 16 + r div 4, (r mod 4) * 64 + s] @ octets t"
| "octets [p, q, r] = [p * 4 + q div 16, (q mod 16) * 16 + r div 4]"
| "octets [p, q] = [p * 4 + q div 16]"
| "octets [p] = []"
| "octets [] = []"

definition b64_encode :: "int list \<Rightarrow> jstr" where
  "b64_encode bs = map b64_char (sextets bs) @ replicate ((3 - length bs mod 3) mod 3) 61"

text \<open>Decoding skips what is not in the alphabet; the caller only accepts canonical text.\<close>

definition b64_decode :: "jstr \<Rightarrow> int list" where
  "b64_decode s = octets (map the (filter (\<lambda>v. v \<noteq> None) (map b64_value s)))"

definition is_byte :: "int \<Rightarrow> bool" where
  "is_byte b \<longleftrightarrow> 0 \<le> b \<and> b < 256"

section \<open>The check\<close>

definition MAX_ACCOUNT_IMAGE_BYTES :: nat where
  "MAX_ACCOUNT_IMAGE_BYTES = 512 * 1024"

definition MAX_ACCOUNT_IMAGE_BASE64 :: nat where
  "MAX_ACCOUNT_IMAGE_BASE64 = (MAX_ACCOUNT_IMAGE_BYTES + 2) div 3 * 4"

definition signature :: "int list" where
  "signature = [137, 80, 78, 71, 13, 10, 26, 10]"

definition sub_list :: "nat \<Rightarrow> nat \<Rightarrow> 'a list \<Rightarrow> 'a list" where
  "sub_list i j xs = take (j - i) (drop i xs)"

text \<open>The \<^verbatim>\<open>ascii\<close> decoding of the runtime drops the high bit.\<close>

definition ascii_text :: "int list \<Rightarrow> jstr" where
  "ascii_text bs = map (\<lambda>b. b mod 128) bs"

fun read_be :: "int list \<Rightarrow> int" where
  "read_be [] = 0"
| "read_be (b # bs) = b * 256 ^ length bs + read_be bs"

definition read_uint32_be :: "nat \<Rightarrow> int list \<Rightarrow> int" where
  "read_uint32_be i bs = read_be (sub_list i (i + 4) bs)"

definition decode_account_image :: "(int list \<Rightarrow> (int \<times> int \<times> int list) option) \<Rightarrow> jstr \<Rightarrow> int list option" where
  "decode_account_image png base64 =
     (if length base64 > MAX_ACCOUNT_IMAGE_BASE64 then None
      else (let input = b64_decode base64 in
        if length input < 33 \<or> length input > MAX_ACCOUNT_IMAGE_BYTES \<or> b64_encode input \<noteq> base64
           \<or> sub_list 0 8 input \<noteq> signature \<or> ascii_text (sub_list 12 16 input) \<noteq> js ''IHDR'' then None
        else (let width = read_uint32_be 16 input; height = read_uint32_be 20 input in
          if width < 1 \<or> height < 1 \<or> width > 256 \<or> height > 256 then None
          else (case png input of
              None \<Rightarrow> None
            | Some (w, h, out) \<Rightarrow> if w \<noteq> width \<or> h \<noteq> height then None else Some out))))"

section \<open>Lemmas\<close>

lemma b64_value_char: "0 \<le> v \<Longrightarrow> v < 64 \<Longrightarrow> b64_value (b64_char v) = Some v"
  by (auto simp: b64_value_def b64_char_def)

lemma b64_value_range: "b64_value c = Some v \<Longrightarrow> 0 \<le> v \<and> v < 64"
  by (auto simp: b64_value_def split: if_splits)

text \<open>Two digits make a number below the product of their bases.\<close>

lemma two_digits:
  fixes x u m k :: int
  assumes "0 \<le> x" and "x < k" and "0 \<le> u" and "u < m"
  shows "0 \<le> x * m + u" and "x * m + u < k * m"
proof -
  show "0 \<le> x * m + u" using assms by simp
  have "(x + 1) * m \<le> k * m" using assms by (intro mult_right_mono) simp_all
  then show "x * m + u < k * m" using assms(4) by (simp add: distrib_right)
qed

lemma byte_parts: "is_byte b \<Longrightarrow> 0 \<le> b div 4 \<and> b div 4 < 64 \<and> 0 \<le> b div 16 \<and> b div 16 < 16 \<and> 0 \<le> b div 64 \<and> b div 64 < 4"
  by (auto simp: is_byte_def)

lemma sextet_parts:
  fixes v :: int
  shows "0 \<le> v \<and> v < 64 \<Longrightarrow> 0 \<le> v div 4 \<and> v div 4 < 16 \<and> 0 \<le> v div 16 \<and> v div 16 < 4"
  by auto

lemma mod_parts:
  fixes v :: int
  shows "0 \<le> v mod 4" "v mod 4 < 4" "0 \<le> v mod 16" "v mod 16 < 16" "0 \<le> v mod 64" "v mod 64 < 64"
  by simp_all

lemma sextets_range: "list_all is_byte bs \<Longrightarrow> list_all (\<lambda>v. 0 \<le> v \<and> v < 64) (sextets bs)"
proof (induction bs rule: sextets.induct)
  case (1 a b c r)
  then show ?case
    using byte_parts [of a] byte_parts [of b] byte_parts [of c] two_digits [of "a mod 4" 4 "b div 16" 16]
      two_digits [of "b mod 16" 16 "c div 64" 4] by (simp del: pos_imp_zdiv_nonneg_iff add: mod_parts)
next
  case (2 a b)
  then show ?case using byte_parts [of a] byte_parts [of b] two_digits [of "a mod 4" 4 "b div 16" 16]
      two_digits [of "b mod 16" 16 0 4] by (simp del: pos_imp_zdiv_nonneg_iff add: mod_parts)
next
  case (3 a)
  then show ?case using byte_parts [of a] two_digits [of "a mod 4" 4 0 16] by (simp add: mod_parts)
qed simp

lemma octets_range: "list_all (\<lambda>v. 0 \<le> v \<and> v < 64) vs \<Longrightarrow> list_all is_byte (octets vs)"
proof (induction vs rule: octets.induct)
  case (1 p q r s t)
  then show ?case
    using sextet_parts [of q] sextet_parts [of r] two_digits [of p 64 "q div 16" 4]
      two_digits [of "q mod 16" 16 "r div 4" 16] two_digits [of "r mod 4" 4 s 64]
    by (simp del: pos_imp_zdiv_nonneg_iff add: is_byte_def mod_parts)
next
  case (2 p q r)
  then show ?case
    using sextet_parts [of q] sextet_parts [of r] two_digits [of p 64 "q div 16" 4] two_digits [of "q mod 16" 16 "r div 4" 16]
    by (simp del: pos_imp_zdiv_nonneg_iff add: is_byte_def mod_parts)
next
  case (3 p q)
  then show ?case using sextet_parts [of q] two_digits [of p 64 "q div 16" 4]
    by (simp del: pos_imp_zdiv_nonneg_iff add: is_byte_def)
qed simp_all

text \<open>The high and the low part of a sextet that two bytes share.\<close>

lemma shared_sextet:
  fixes m u x :: int
  assumes "0 \<le> u" and "u < m"
  shows "(x * m + u) div m = x" and "(x * m + u) mod m = u"
  using assms by simp_all

lemma octets_sextets: "list_all is_byte bs \<Longrightarrow> octets (sextets bs) = bs"
proof (induction bs rule: sextets.induct)
  case (1 a b c r)
  then have u: "0 \<le> b div 16" "b div 16 < 16" "0 \<le> c div 64" "c div 64 < 4" and ih: "octets (sextets r) = r"
    by (auto simp: is_byte_def)
  then have "b div 16 mod 16 = b div 16" "c div 64 mod 4 = c div 64" by simp_all
  then show ?case using ih by (simp add: shared_sextet [OF u(1,2)] shared_sextet [OF u(3,4)])
next
  case (2 a b)
  then have u: "0 \<le> b div 16" "b div 16 < 16" by (auto simp: is_byte_def)
  then have "b div 16 mod 16 = b div 16" by simp
  then show ?case by (simp add: shared_sextet [OF u])
qed simp_all

lemma length_sextets: "length (sextets bs) + (3 - length bs mod 3) mod 3 = (length bs + 2) div 3 * 4"
proof (induction bs rule: sextets.induct)
  case (1 a b c r)
  have "Suc (Suc (Suc n)) mod 3 = n mod 3" "(Suc (Suc (Suc n)) + 2) div 3 = (n + 2) div 3 + 1" for n :: nat
    by presburger+
  with 1 show ?case by simp
qed simp_all

lemma length_b64_encode: "length (b64_encode bs) = (length bs + 2) div 3 * 4"
  by (simp add: b64_encode_def length_sextets)

lemma filter_values: "list_all (\<lambda>v. 0 \<le> v \<and> v < 64) vs \<Longrightarrow>
    filter (\<lambda>v. v \<noteq> None) (map b64_value (map b64_char vs)) = map Some vs"
  by (induction vs) (auto simp: b64_value_char)

lemma b64_padding: "filter (\<lambda>v. v \<noteq> None) (map b64_value (replicate n 61)) = []"
  by (induction n) (auto simp: b64_value_def)

lemma b64_roundtrip: "list_all is_byte bs \<Longrightarrow> b64_decode (b64_encode bs) = bs"
proof -
  assume bs: "list_all is_byte bs"
  have "filter (\<lambda>v. v \<noteq> None) (map b64_value (b64_encode bs)) = map Some (sextets bs)"
    unfolding b64_encode_def map_append filter_append filter_values [OF sextets_range [OF bs]] b64_padding by simp
  then show ?thesis by (simp add: b64_decode_def comp_def octets_sextets [OF bs])
qed

lemma b64_decode_bytes: "list_all is_byte (b64_decode s)"
  unfolding b64_decode_def
  by (rule octets_range) (auto simp: list_all_iff dest: b64_value_range)

section \<open>Properties\<close>

text \<open>
  Base64 loses nothing: every byte string is read back from its encoding.
\<close>

theorem base64_roundtrip:
  "b64_decode (b64_encode (map (\<lambda>b. b mod 256) bs)) = map (\<lambda>b. b mod 256) bs"
  by (rule b64_roundtrip) (simp add: list_all_iff is_byte_def)

text \<open>
  An uploaded text is accepted exactly when it is the canonical Base64 text of 33 to 524288 bytes
  with the PNG signature and header, of at most 256 by 256 pixels both by the header, which is checked
  before anything is decompressed, and by the reader; what is stored is the re-encoded image.
\<close>

theorem account_images_are_checked:
  "decode_account_image png s = Some out \<longleftrightarrow> (\<exists>bs w h. s = b64_encode bs \<and> list_all is_byte bs
     \<and> 33 \<le> length bs \<and> length bs \<le> MAX_ACCOUNT_IMAGE_BYTES
     \<and> take 8 bs = signature \<and> ascii_text (sub_list 12 16 bs) = js ''IHDR''
     \<and> w = read_uint32_be 16 bs \<and> h = read_uint32_be 20 bs \<and> 1 \<le> w \<and> w \<le> 256 \<and> 1 \<le> h \<and> h \<le> 256
     \<and> png bs = Some (w, h, out))" (is "?L \<longleftrightarrow> ?R")
proof
  assume L: ?L
  have "b64_encode (b64_decode s) = s" using L by (auto simp: decode_account_image_def Let_def split: if_splits)
  moreover have "list_all is_byte (b64_decode s)" by (rule b64_decode_bytes)
  ultimately show ?R using L
    by (intro exI [of _ "b64_decode s"])
       (auto simp: decode_account_image_def Let_def sub_list_def [of 0] not_less split: if_splits option.splits)
next
  assume ?R
  then obtain bs w h where s: "s = b64_encode bs" and b: "list_all is_byte bs" and l: "33 \<le> length bs"
    "length bs \<le> MAX_ACCOUNT_IMAGE_BYTES" and hd: "take 8 bs = signature" "ascii_text (sub_list 12 16 bs) = js ''IHDR''"
    and wh: "w = read_uint32_be 16 bs" "h = read_uint32_be 20 bs" "1 \<le> w" "w \<le> 256" "1 \<le> h" "h \<le> 256"
    and p: "png bs = Some (w, h, out)" by blast
  have "length s \<le> MAX_ACCOUNT_IMAGE_BASE64"
    using l(2) by (simp add: s length_b64_encode MAX_ACCOUNT_IMAGE_BASE64_def div_le_mono)
  then show ?L using l hd wh p
    by (simp add: decode_account_image_def s b64_roundtrip [OF b] sub_list_def [of 0] not_less)
qed

end
