(* ===== verification/Account_Routes.thy ===== *)
theory Account_Routes
  imports Accounts Account_Images
begin

text \<open>
  \<^verbatim>\<open>backend/src/accounts/routes.ts\<close> and \<^verbatim>\<open>commands/service.ts\<close>, with the restart of all clients in
  \<^verbatim>\<open>users/routes.ts\<close>: the handlers that read, change, share and operate the Minecraft accounts. The
  reply of a listing carries the live snapshot of each client. Earnings are in \<open>Earnings\<close>; the console
  log of an account is answered by the log service, which is an argument here.
\<close>

section \<open>The system\<close>

text \<open>The database and the clients, and the image updates that the sockets have been told of.\<close>

record system =
  sys_service :: service
  sys_manager :: manager
  image_updates :: "(jstr \<times> jstr) list"

definition sys_db :: "system \<Rightarrow> db" where
  "sys_db s = sv_db (sys_service s)"

definition set_db :: "db \<Rightarrow> system \<Rightarrow> system" where
  "set_db d s = s\<lparr>sys_service := (sys_service s)\<lparr>sv_db := d\<rparr>\<rparr>"

definition set_both :: "manager \<times> db \<Rightarrow> system \<Rightarrow> system" where
  "set_both md s = (set_db (snd md) s)\<lparr>sys_manager := fst md\<rparr>"

definition log_account :: "env \<Rightarrow> request \<Rightarrow> string \<Rightarrow> jstr option \<Rightarrow> json option \<Rightarrow> system \<Rightarrow> system" where
  "log_account e rq action i details s =
     s\<lparr>sys_service := audit (lower_table e) (now e) rq action (Some ''MinecraftAccount'') i details (sys_service s)\<rparr>"

definition not_found :: "'a reply" where
  "not_found = Refused 404 (js ''Account not found'')"

section \<open>Reading\<close>

datatype account_listing =
    Full_listing "(public_account \<times> snapshot option) list"
  | Dashboard_listing "(dashboard_account \<times> snapshot option) list"

definition live_status :: "manager \<Rightarrow> jstr \<Rightarrow> snapshot option" where
  "live_status m i = map_of (map (\<lambda>s. (sn_id s, s)) (rev (get_all_statuses m))) i"

definition get_accounts :: "json \<Rightarrow> request \<Rightarrow> system \<Rightarrow> system \<times> account_listing reply" where
  "get_accounts query = reading (\<lambda>sc rq s.
     if \<not> z_strict [''view''] query then (s, Rejected)
     else case z_default False (z_enum [(''full'', False), (''dashboard'', True)]) (json_field query ''view'') of
         None \<Rightarrow> (s, Rejected)
       | Some True \<Rightarrow> (s, case list_dashboard_accounts_for_session sc (sys_db s) of None \<Rightarrow> Crashed
           | Some xs \<Rightarrow> Answered 200 (Dashboard_listing (map (\<lambda>a. (a, live_status (sys_manager s) (da_id a))) xs)))
       | Some False \<Rightarrow> (s, case list_accounts_for_session sc (sys_db s) of None \<Rightarrow> Crashed
           | Some xs \<Rightarrow> Answered 200 (Full_listing (map (\<lambda>a. (a, live_status (sys_manager s) (pa_id a))) xs))))"

definition get_one_account :: "jstr \<Rightarrow> request \<Rightarrow> system \<Rightarrow> system \<times> (public_account \<times> snapshot option) reply" where
  "get_one_account i = reading (\<lambda>sc rq s. (s, case get_account_for_session sc i (sys_db s) of
       None \<Rightarrow> not_found
     | Some a \<Rightarrow> Answered 200 (a, map_option get_status (get_client i (sys_manager s)))))"

text \<open>\<open>avatar\<close>: the fetched picture of a Minecraft name, if the service answers.\<close>

definition get_creator_avatar :: "(jstr \<Rightarrow> int list option) \<Rightarrow> jstr \<Rightarrow> request \<Rightarrow> system \<Rightarrow> system \<times> int list reply" where
  "get_creator_avatar avatar i = reading (\<lambda>sc rq s. (s,
     case find (\<lambda>a. a_id a = i \<and> (sc_role sc = ADMIN \<or> is_assigned (sys_db s) (sc_user sc) (a_id a))) (db_accounts (sys_db s)) of
       None \<Rightarrow> not_found
     | Some a \<Rightarrow> (case creator_of a (sys_db s) of
           Some (_, _, Some n) \<Rightarrow>
             if n = [] then Refused 404 (js ''Minecraft username not assigned'')
             else (case avatar n of None \<Rightarrow> Refused 502 (js ''Minecraft avatar unavailable'') | Some x \<Rightarrow> Answered 200 x)
         | _ \<Rightarrow> Refused 404 (js ''Minecraft username not assigned''))))"

definition get_image :: "jstr \<Rightarrow> request \<Rightarrow> system \<Rightarrow> system \<times> int list reply" where
  "get_image i = reading (\<lambda>sc rq s. (s,
     if \<not> has_account_access sc i (sys_db s) then not_found
     else case find (\<lambda>x. im_account x = i) (db_images (sys_db s)) of
         None \<Rightarrow> Refused 404 (js ''Account image not found'')
       | Some x \<Rightarrow> Answered 200 (im_data x)))"

definition get_logs :: "(db \<Rightarrow> 'l) \<Rightarrow> jstr \<Rightarrow> request \<Rightarrow> system \<Rightarrow> system \<times> 'l reply" where
  "get_logs logs i = reading (\<lambda>sc rq s. (s,
     if \<not> has_account_access sc i (sys_db s) then not_found else Answered 200 (logs (sys_db s))))"

section \<open>Images (images.ts)\<close>

definition image_update_url :: "jstr \<Rightarrow> jstr \<Rightarrow> jstr" where
  "image_update_url i revision = js ''/api/minecraft/accounts/'' @ i @ js ''/image?v='' @ revision"

text \<open>An upsert; the account must exist.\<close>

definition replace_account_image :: "jstr \<Rightarrow> jstr \<Rightarrow> int list \<Rightarrow> system \<Rightarrow> (system \<times> jstr) option" where
  "replace_account_image revision i bytes s =
     (if find_account (sys_db s) i = None then None
      else (let d = sys_db s; row = \<lparr>im_account = i, im_data = bytes, im_revision = revision\<rparr>;
                images = (if list_ex (\<lambda>x. im_account x = i) (db_images d)
                          then map (\<lambda>x. if im_account x = i then row else x) (db_images d) else db_images d @ [row]);
                url = image_update_url i revision
            in Some ((set_db (d\<lparr>db_images := images\<rparr>) s)\<lparr>image_updates := image_updates s @ [(i, url)]\<rparr>, url)))"

text \<open>An upload, or the identifier of an item of the catalog; \<open>items\<close> are the pictures of the catalog.\<close>

datatype image_body = Uploaded jstr | Item jstr

definition parse_image_body :: "json \<Rightarrow> image_body option" where
  "parse_image_body body =
     (case if z_strict [''image''] body then z_string 0 MAX_ACCOUNT_IMAGE_BASE64 (json_field body ''image'') else None of
        Some x \<Rightarrow> Some (Uploaded x)
      | None \<Rightarrow> (if z_strict [''itemId''] body then map_option Item (z_string 1 128 (json_field body ''itemId'')) else None))"

definition put_image :: "(jstr \<Rightarrow> int list option) \<Rightarrow> (int list \<Rightarrow> (int \<times> int \<times> int list) option) \<Rightarrow> env \<Rightarrow> jstr \<Rightarrow> jstr \<Rightarrow> json
    \<Rightarrow> request \<Rightarrow> system \<Rightarrow> system \<times> jstr reply" where
  "put_image items png e revision i body = writing (\<lambda>sc rq s.
     if \<not> has_account_access sc i (sys_db s) then (s, not_found)
     else case parse_image_body body of
         None \<Rightarrow> (s, Rejected)
       | Some b \<Rightarrow> (case (case b of Item x \<Rightarrow> items x | Uploaded x \<Rightarrow> decode_account_image png x) of
             None \<Rightarrow> (s, Refused 400 (js ''Invalid account image (PNG, up to 256 '' @ [215] @ js '' 256 pixels)''))
           | Some bytes \<Rightarrow> (case replace_account_image revision i bytes s of
                 None \<Rightarrow> (s, Crashed)
               | Some (s1, url) \<Rightarrow> (log_account e rq ''ACCOUNT_IMAGE_UPDATE'' (Some i) None s1, Answered 200 url))))"

section \<open>Management\<close>

text \<open>The account is read again with its credentials and handed to the manager.\<close>

definition register_full :: "env \<Rightarrow> jstr \<Rightarrow> system \<Rightarrow> system" where
  "register_full e i s = (case find_account (sys_db s) i of
       None \<Rightarrow> s | Some a \<Rightarrow> s\<lparr>sys_manager := register e a (sys_manager s)\<rparr>)"

definition post_account :: "runtime \<Rightarrow> env \<Rightarrow> jstr \<Rightarrow> json \<Rightarrow> request \<Rightarrow> system \<Rightarrow> system \<times> public_account reply" where
  "post_account rt e i body = writing (\<lambda>sc rq s.
     case parse_create_account rt body of
       None \<Rightarrow> (s, Rejected)
     | Some input \<Rightarrow> (case create_account i input sc (sys_db s) of
           Inl Name_taken \<Rightarrow> (s, Refused 409 (js ''Account name already exists''))
         | Inl Other_error \<Rightarrow> (s, Crashed)
         | Inr (d, a) \<Rightarrow> (log_account e rq ''ACCOUNT_CREATE'' (Some (pa_id a))
               (Some (JObj [(js ''name'', JStr (pa_name a)), (js ''serverHost'', JStr (pa_host a))]))
               (register_full e (pa_id a) (set_db d s)), Answered 201 a)))"

definition button_json :: "button \<Rightarrow> json" where
  "button_json b = JStr (case b of OFF \<Rightarrow> js ''OFF'' | LEFT \<Rightarrow> js ''LEFT'' | RIGHT \<Rightarrow> js ''RIGHT'')"

definition text_json :: "runtime \<Rightarrow> json_text \<Rightarrow> json" where
  "text_json rt t = (case t of Malformed \<Rightarrow> JStr [] | Text_of j \<Rightarrow> JStr (rt_stringify rt j))"

definition patch_json :: "runtime \<Rightarrow> account_patch \<Rightarrow> json" where
  "patch_json rt p = JObj (concat [opt_field ''name'' (map_option JStr (ap_name p)),
     opt_field ''displayName'' (map_option JStr (ap_display p)),
     opt_field ''minecraftVersion'' (map_option JStr (ap_version p)),
     opt_field ''serverHost'' (map_option JStr (ap_host p)),
     opt_field ''serverPort'' (map_option (\<lambda>n. JNum (of_int n)) (ap_port p)),
     opt_field ''crouchEnabled'' (map_option JBool (ap_crouch p)),
     opt_field ''autoButton'' (map_option button_json (ap_button p)),
     opt_field ''autoReconnect'' (map_option JBool (ap_reconnect p)),
     opt_field ''autoReturnHome'' (map_option JBool (ap_return_home p)),
     opt_field ''notes'' (map_option JStr (ap_notes p)),
     opt_field ''autoSellEnabled'' (map_option JBool (ap_sell_enabled p)),
     opt_field ''autoSellIntervalSeconds'' (map_option JNum (ap_sell_interval p)),
     opt_field ''autoSellCommand'' (map_option JStr (ap_sell_command p)),
     opt_field ''spawnerType'' (map_option JStr (ap_spawner_type p)),
     opt_field ''spawnerActions'' (map_option (text_json rt) (ap_spawner_actions p))])"

text \<open>A new version takes effect on the next connection, so a client that is not OFFLINE is restarted.\<close>

definition restart_for_version :: "env \<Rightarrow> jstr \<Rightarrow> account_patch \<Rightarrow> system \<Rightarrow> system" where
  "restart_for_version e i p s =
     (if ap_version p = None then s
      else case get_client i (sys_manager s) of
          None \<Rightarrow> s
        | Some c \<Rightarrow> if sn_status (get_status c) = OFFLINE then s
            else set_both (fst (restart_account e i (sys_manager s, sys_db s))) s)"

text \<open>
  The handlers of \<^verbatim>\<open>PATCH\<close> and \<^verbatim>\<open>DELETE\<close> wait for the database between their effects, so other
  requests can run in between. Their parts are definitions of their own; a handler is their sequence,
  as it runs when no other request comes between. What can happen otherwise is in \<open>Account_Sync\<close>.
\<close>

definition patch_update :: "jstr \<Rightarrow> account_patch \<Rightarrow> system \<Rightarrow> (system \<times> public_account) option" where
  "patch_update i p s = map_option (\<lambda>(d, a). (set_db d s, a)) (update_account i p (sys_db s))"

definition patch_finish :: "runtime \<Rightarrow> env \<Rightarrow> jstr \<Rightarrow> account_patch \<Rightarrow> request \<Rightarrow> system \<Rightarrow> system" where
  "patch_finish rt e i p rq s =
     log_account e rq ''ACCOUNT_UPDATE'' (Some i) (Some (patch_json rt p)) (restart_for_version e i p (register_full e i s))"

definition patch_account :: "runtime \<Rightarrow> env \<Rightarrow> jstr \<Rightarrow> json \<Rightarrow> request \<Rightarrow> system \<Rightarrow> system \<times> public_account reply" where
  "patch_account rt e i body = writing (\<lambda>sc rq s.
     case parse_update_account rt body of
       None \<Rightarrow> (s, Rejected)
     | Some p \<Rightarrow>
         if \<not> can_access_account sc i (sys_db s) then (s, not_found)
         else (case patch_update i p s of
             None \<Rightarrow> (s, not_found)
           | Some (s1, a) \<Rightarrow> (patch_finish rt e i p rq s1, Answered 200 a)))"

text \<open>The client goes first; that the row is already gone is ignored.\<close>

definition delete_client :: "env \<Rightarrow> jstr \<Rightarrow> system \<Rightarrow> system" where
  "delete_client e i s = s\<lparr>sys_manager := unregister e i (sys_manager s)\<rparr>"

definition delete_row :: "env \<Rightarrow> jstr \<Rightarrow> request \<Rightarrow> system \<Rightarrow> system" where
  "delete_row e i rq s = log_account e rq ''ACCOUNT_DELETE'' (Some i) None
     (case delete_account i (sys_db s) of None \<Rightarrow> s | Some d \<Rightarrow> set_db d s)"

definition delete_account_route :: "env \<Rightarrow> jstr \<Rightarrow> request \<Rightarrow> system \<Rightarrow> system \<times> unit reply" where
  "delete_account_route e i = writing (\<lambda>sc rq s.
     if \<not> can_access_account sc i (sys_db s) then (s, not_found)
     else (delete_row e i rq (delete_client e i s), Answered 204 ()))"

definition put_reorder :: "env \<Rightarrow> json \<Rightarrow> request \<Rightarrow> system \<Rightarrow> system \<times> unit reply" where
  "put_reorder e body = writing (\<lambda>sc rq s.
     case parse_reorder body of
       None \<Rightarrow> (s, Rejected)
     | Some ids \<Rightarrow> (case reorder_accounts_for_session sc ids (sys_db s) of
           (_, Inl (c, m)) \<Rightarrow> (s, if c = 500 then Crashed else Refused c m)
         | (_, Inr False) \<Rightarrow> (s, Refused 400 (js ''Invalid account order payload''))
         | (d, Inr True) \<Rightarrow> (log_account e rq ''ACCOUNT_REORDER'' None
               (Some (JObj [(js ''count'', JNum (of_nat (length ids)))])) (set_db d s), Answered 200 ())))"

text \<open>An operator who is not an admin always stays in the set.\<close>

definition assigned_users :: "session_context \<Rightarrow> jstr list \<Rightarrow> jstr list" where
  "assigned_users sc users = (if sc_role sc = ADMIN then users else uniq (users @ [sc_user sc]))"

definition put_assignments :: "env \<Rightarrow> jstr \<Rightarrow> json \<Rightarrow> request \<Rightarrow> system \<Rightarrow> system \<times> unit reply" where
  "put_assignments e i body = writing (\<lambda>sc rq s.
     if \<not> can_manage_assignments sc i (sys_db s) then (s, not_found)
     else case parse_assign_users body of
         None \<Rightarrow> (s, Rejected)
       | Some users \<Rightarrow> (case set_assignments i (assigned_users sc users) (sys_db s) of
             None \<Rightarrow> (s, Crashed)
           | Some d \<Rightarrow> (log_account e rq ''ACCOUNT_ASSIGN'' (Some i)
                 (Some (JObj [(js ''userIds'', JArr (map JStr (assigned_users sc users)))])) (set_db d s), Answered 200 ())))"

definition post_lookup :: "jstr \<Rightarrow> json \<Rightarrow> request \<Rightarrow> system \<Rightarrow> system \<times> (jstr \<times> jstr) reply" where
  "post_lookup i body = writing (\<lambda>sc rq s. (s,
     if \<not> can_manage_assignments sc i (sys_db s) \<or> get_account_for_session sc i (sys_db s) = None then not_found
     else case parse_access_lookup body of
         None \<Rightarrow> Rejected
       | Some name \<Rightarrow> (case find_access_user name (sys_db s) of
             None \<Rightarrow> Refused 404 (js ''Nicht registrierter Benutzername'')
           | Some u \<Rightarrow> Answered 200 u)))"

section \<open>Lifecycle and commands\<close>

definition guarded_lifecycle :: "env \<Rightarrow> (jstr \<Rightarrow> manager \<times> db \<Rightarrow> (manager \<times> db) \<times> bool) \<Rightarrow> string \<Rightarrow> jstr
    \<Rightarrow> request \<Rightarrow> system \<Rightarrow> system \<times> unit reply" where
  "guarded_lifecycle e action audit_action i = writing (\<lambda>sc rq s.
     if \<not> can_access_account sc i (sys_db s) then (s, not_found)
     else if find_account (sys_db s) i = None then (s, not_found)
     else (case action i (sys_manager s, sys_db s) of
         (md, False) \<Rightarrow> (set_both md s, Refused 500 (js ''Operation failed''))
       | (md, True) \<Rightarrow> (log_account e rq audit_action (Some i) None (set_both md s), Answered 200 ())))"

definition post_start :: "env \<Rightarrow> jstr \<Rightarrow> request \<Rightarrow> system \<Rightarrow> system \<times> unit reply" where
  "post_start e = guarded_lifecycle e (start_account e) ''ACCOUNT_START''"

definition post_stop :: "env \<Rightarrow> jstr \<Rightarrow> request \<Rightarrow> system \<Rightarrow> system \<times> unit reply" where
  "post_stop e = guarded_lifecycle e (stop_account e) ''ACCOUNT_STOP''"

definition post_restart :: "env \<Rightarrow> jstr \<Rightarrow> request \<Rightarrow> system \<Rightarrow> system \<times> unit reply" where
  "post_restart e = guarded_lifecycle e (restart_account e) ''ACCOUNT_RESTART''"

definition post_clean_spawner :: "env \<Rightarrow> jstr \<Rightarrow> request \<Rightarrow> system \<Rightarrow> system \<times> unit reply" where
  "post_clean_spawner e = guarded_lifecycle e clean_spawner_account ''ACCOUNT_CLEAN_SPAWNER''"

datatype command_error = FORBIDDEN | NOT_FOUND | COMMAND_OFFLINE

definition execute_command :: "session_context \<Rightarrow> jstr \<Rightarrow> jstr \<Rightarrow> system \<Rightarrow> system \<times> command_error option" where
  "execute_command sc i command s =
     (if \<not> can_access_account sc i (sys_db s) then (s, Some FORBIDDEN)
      else case get_client i (sys_manager s) of
          None \<Rightarrow> (s, Some NOT_FOUND)
        | Some c \<Rightarrow> (case send_command command c of
              (sent, c') \<Rightarrow> (s\<lparr>sys_manager := put_client i c' (sys_manager s)\<rparr>, if sent then None else Some COMMAND_OFFLINE)))"

fun command_code :: "command_error \<Rightarrow> int" where
  "command_code FORBIDDEN = 403"
| "command_code NOT_FOUND = 404"
| "command_code COMMAND_OFFLINE = 409"

fun command_reason :: "command_error \<Rightarrow> jstr" where
  "command_reason FORBIDDEN = js ''FORBIDDEN''"
| "command_reason NOT_FOUND = js ''NOT_FOUND''"
| "command_reason COMMAND_OFFLINE = js ''OFFLINE''"

definition post_command :: "env \<Rightarrow> jstr \<Rightarrow> json \<Rightarrow> request \<Rightarrow> system \<Rightarrow> system \<times> unit reply" where
  "post_command e i body = writing (\<lambda>sc rq s.
     case parse_command body of
       None \<Rightarrow> (s, Rejected)
     | Some command \<Rightarrow> (case execute_command sc i command s of
           (s1, Some r) \<Rightarrow> (s1, Refused (command_code r) (command_reason r))
         | (s1, None) \<Rightarrow> (log_account e rq ''ACCOUNT_COMMAND'' (Some i)
               (Some (JObj [(js ''command'', JStr command)])) s1, Answered 200 ())))"

text \<open>\<^verbatim>\<open>POST /api/admin/restart-all\<close> (users/routes.ts).\<close>

definition restart_result_json :: "jstr list \<times> jstr list \<Rightarrow> json" where
  "restart_result_json r = JObj [(js ''restarted'', JArr (map JStr (fst r))), (js ''failed'', JArr (map JStr (snd r)))]"

definition post_restart_all :: "env \<Rightarrow> request \<Rightarrow> system \<Rightarrow> system \<times> (nat \<times> nat \<times> nat) reply" where
  "post_restart_all e = guarded [require_admin, require_csrf] (\<lambda>rq s.
     case restart_all_online e (sys_manager s, sys_db s) of
       (md, r) \<Rightarrow> (log_account e rq ''ACCOUNTS_RESTART_ALL'' None (Some (restart_result_json r)) (set_both md s),
                   Answered 200 (length (fst r), length (snd r), 5)))"

end
