(* ===== verification/Account_Sync.thy ===== *)
theory Account_Sync
  imports Account_Routes
begin

text \<open>
  What the account handlers keep: consistent tables, and one client per account that runs with exactly
  the settings stored in the database, for every history of requests and bot events.
\<close>

section \<open>The settings of a client change only on request\<close>

lemma send_to_bot_cfg: "send_to_bot p s = (b, t) \<Longrightarrow> cfg t = cfg s"
  by (drule sym) (simp add: prod_eq_iff)

lemma connection_failure_cfg [simp]: "cfg (handle_connection_failure e m s) = cfg s"
  by (simp add: handle_connection_failure_def Let_def timer_defs split: prod.splits)

lemma attempt_connect_cfg [simp]: "cfg (attempt_connect e b s) = cfg s"
  by (simp add: attempt_connect_def Let_def timer_defs split: option.splits)

lemma send_command_cfg [simp]: "cfg (snd (send_command x s)) = cfg s"
  unfolding send_command_def
  by (cases "send_to_bot (if x = js ''/desmo'' then P_read_sell_multipliers else P_chat x) s")
     (auto dest: send_to_bot_cfg split: bool.splits)

lemma client_ops_cfg [simp]:
  "cfg (connect e s) = cfg s" "cfg (disconnect e s) = cfg s" "cfg (restart e s) = cfg s"
  "cfg (snd (clean_spawner s)) = cfg s" "cfg (dispose e s) = cfg s"
  by (simp_all add: connect_def disconnect_def restart_def clean_spawner_def dispose_def timer_defs Let_def)

lemma update_config_cfg [simp]: "cfg (update_config e c s) = c"
  by (simp add: update_config_def Let_def)

lemma crouch_check_cfg [simp]: "cfg (snd (send_restart_crouch_check s)) = cfg s"
  by (simp add: send_restart_crouch_check_def)

lemma crouch_check_cfg': "send_restart_crouch_check s = (b, t) \<Longrightarrow> cfg t = cfg s"
  using crouch_check_cfg [of s] by simp

lemma timer_cfg [simp]:
  "cfg (fire_reconnect e s) = cfg s" "cfg (fire_restart e s) = cfg s" "cfg (fire_hang e s) = cfg s"
  "cfg (fire_watchdog e s) = cfg s"
  by (simp_all add: fire_reconnect_def fire_restart_def fire_hang_def fire_watchdog_def Let_def
      split: option.splits hang_kind.splits)

lemma crouch_timer_cfg [simp]: "cfg (fire_restart_crouch e s) = cfg s" "cfg (fire_periodic_crouch e s) = cfg s"
  by (auto simp: fire_restart_crouch_def fire_periodic_crouch_def Let_def dest!: send_to_bot_cfg crouch_check_cfg'
      split: option.splits prod.splits)

lemma announce_cfg [simp]: "cfg (announce_restart e m s) = cfg s"
  by (simp add: announce_restart_def Let_def schedule_restart_crouch_checks_def case_prod_unfold split: option.splits)

lemma spawn_cfg [simp]: "cfg (on_spawn e s) = cfg s"
  by (auto simp: on_spawn_def Let_def timer_defs dest!: crouch_check_cfg' split: prod.splits bool.splits)

lemma chat_cfg [simp]: "cfg (on_chat e n m s) = cfg s"
  by (simp add: on_chat_def Let_def split: option.splits)

lemma bot_event_cfg [simp]: "cfg (handle_bot_event e ev s) = cfg s"
  by (cases ev) (simp_all add: on_msa_code_def on_profile_def timer_defs on_sell_multipliers_def on_control_status_def
      Let_def split: option.splits)

definition own_event :: "client_event \<Rightarrow> bool" where
  "own_event ev \<longleftrightarrow> (case ev of
       E_line _ _ \<Rightarrow> True | E_pipe_error _ _ \<Rightarrow> True | E_close _ _ \<Rightarrow> True | E_error _ _ \<Rightarrow> True | E_pipe _ _ \<Rightarrow> True
     | T_reconnect \<Rightarrow> True | T_restart \<Rightarrow> True | T_hang \<Rightarrow> True | T_watchdog \<Rightarrow> True | T_restart_crouch \<Rightarrow> True
     | T_periodic_crouch \<Rightarrow> True | _ \<Rightarrow> False)"

lemma own_event_cfg: "own_event ev \<Longrightarrow> cfg (client_step (e, ev) s) = cfg s"
  by (cases ev) (simp_all add: own_event_def on_line_def on_pipe_error_def on_close_def on_error_def on_pipe_def Let_def
      split: option.splits)

section \<open>Clients and rows agree\<close>

definition in_sync :: "manager \<Rightarrow> db \<Rightarrow> bool" where
  "in_sync m d \<longleftrightarrow> (\<forall>i. map_option cfg (get_client i m) = map_option to_runtime_config (find_account d i))"

lemma in_syncD: "in_sync m d \<Longrightarrow> map_option cfg (get_client i m) = map_option to_runtime_config (find_account d i)"
  by (simp add: in_sync_def)

lemma in_sync_put:
  "in_sync m d \<Longrightarrow> get_client i m = Some c \<Longrightarrow> cfg c' = cfg c \<Longrightarrow> in_sync (put_client i c' m) d"
  by (auto simp: in_sync_def dest: spec [of _ i])

lemma in_sync_rows:
  "in_sync m d \<Longrightarrow> (\<And>i. map_option to_runtime_config (find_account d' i) = map_option to_runtime_config (find_account d i))
    \<Longrightarrow> in_sync m d'"
  by (simp add: in_sync_def)

lemma in_sync_accounts: "in_sync m d \<Longrightarrow> db_accounts d' = db_accounts d \<Longrightarrow> in_sync m d'"
  by (simp add: in_sync_def find_account_def)

lemma update_account_row_find:
  assumes "update_account_row i f d = Some d'" and "\<And>a. a_id (f a) = a_id a"
  shows "find_account d' j = (if j = i then map_option f (find_account d j) else find_account d j)"
  unfolding update_account_row_rows [OF assms(1)] find_account_def
  using find_map_keyed [of a_id f j i "db_accounts d"] assms(2) by simp

lemma auto_start_config [simp]: "to_runtime_config (a\<lparr>a_auto_start := b\<rparr>) = to_runtime_config a"
  by (simp add: to_runtime_config_def)

lemma persist_find: "map_option to_runtime_config (find_account (persist_auto_start i b d) j)
    = map_option to_runtime_config (find_account d j)"
proof (cases "update_account_row i (\<lambda>a. a\<lparr>a_auto_start := b\<rparr>) d")
  case (Some d')
  then show ?thesis using update_account_row_find [OF Some, of j]
    by (simp add: persist_auto_start_def option.map_comp comp_def)
qed (simp add: persist_auto_start_def)

lemma persist_ok: "db_ok d \<Longrightarrow> db_ok (persist_auto_start i b d)"
  by (auto simp: persist_auto_start_def split: option.splits intro: update_account_row_ok)

lemma in_sync_persist: "in_sync m d \<Longrightarrow> in_sync m (persist_auto_start i b d)"
  by (rule in_sync_rows) (simp_all add: persist_find)

definition pair_ok :: "manager \<times> db \<Rightarrow> bool" where
  "pair_ok md \<longleftrightarrow> manager_ok (fst md) \<and> db_ok (snd md) \<and> in_sync (fst md) (snd md)"

lemma pair_ok_ops:
  assumes "pair_ok md"
  shows "pair_ok (fst (start_account e i md))" and "pair_ok (fst (stop_account e i md))"
    and "pair_ok (fst (restart_account e i md))" and "pair_ok (fst (clean_spawner_account i md))"
proof -
  obtain m d where md: "md = (m, d)" by force
  have k: "manager_ok m" "db_ok d" "in_sync m d" using assms by (simp_all add: pair_ok_def md)
  note m = account_ops_ok [of md]
  show "pair_ok (fst (start_account e i md))" "pair_ok (fst (stop_account e i md))" "pair_ok (fst (restart_account e i md))"
    using m(1-3) [of e i] k
    by (cases "get_client i m"; simp add: md start_account_def stop_account_def restart_account_def pair_ok_def
        persist_ok in_sync_persist in_sync_put)+
  show "pair_ok (fst (clean_spawner_account i md))"
    using m(4) [of i] k
    by (cases "get_client i m") (simp_all add: md clean_spawner_account_def pair_ok_def case_prod_unfold in_sync_put)
qed

lemma pair_ok_restart_all: "pair_ok md \<Longrightarrow> pair_ok (fst (restart_all_online e md))"
proof -
  assume md: "pair_ok md"
  have "pair_ok (fold (\<lambda>i s. fst (restart_account e i s)) xs md)" for xs
    using md by (intro fold_keeps [where P = pair_ok]) (auto intro: pair_ok_ops)
  then show ?thesis by (cases md) (simp add: restart_all_online_def Let_def)
qed

lemma find_filter_key:
  "find (\<lambda>x. key x = j) (filter (\<lambda>x. key x \<noteq> i) xs) = (if j = i then None else find (\<lambda>x. key x = j) xs)"
  by (induction xs) auto

section \<open>The handlers\<close>

definition system_ok :: "system \<Rightarrow> bool" where
  "system_ok s \<longleftrightarrow> pair_ok (sys_manager s, sys_db s)"

lemma sys_simps [simp]:
  "sys_db (set_db d s) = d" "sys_manager (set_db d s) = sys_manager s"
  "sys_db (set_both md s) = snd md" "sys_manager (set_both md s) = fst md"
  "sys_db (s\<lparr>sys_manager := m\<rparr>) = sys_db s" "sys_db (s\<lparr>image_updates := u\<rparr>) = sys_db s"
  by (simp_all add: set_db_def set_both_def sys_db_def)

lemma log_account_simps [simp]:
  "sys_manager (log_account e rq a i ds s) = sys_manager s"
  "sys_db (log_account e rq a i ds s) = record_audit_log (lower_table e) (now e) (me rq) a (Some ''MinecraftAccount'') i ds (sys_db s)"
  by (simp_all add: log_account_def sys_db_def audit_def)

lemma in_sync_log [simp]: "in_sync m (record_audit_log low n u a t i ds d) = in_sync m d"
  by (simp add: in_sync_def)

lemma system_ok_log [simp]: "system_ok (log_account e rq a i ds s) = system_ok s"
  by (simp add: system_ok_def pair_ok_def)

lemma system_ok_both: "system_ok (set_both md s) = pair_ok md"
  by (simp add: system_ok_def)

lemma set_assignments_rows:
  assumes "set_assignments i users d = Some d'"
  shows "d' = d\<lparr>db_assignments := filter (\<lambda>p. snd p \<noteq> i) (db_assignments d) @ map (\<lambda>u. (u, i)) (uniq users)\<rparr>"
    and "users = [] \<or> i \<in> a_id ` set (db_accounts d) \<and> set users \<subseteq> u_id ` set (db_users d)"
  using assms by (auto simp: set_assignments_def list_ex_iff find_user_None find_account_None split: if_splits)

lemma set_assignments_ok:
  assumes "db_ok d" and "set_assignments i users d = Some d'"
  shows "db_ok d'"
proof -
  note r = set_assignments_rows [OF assms(2)]
  note o = refs_okD [OF conjunct2 [OF assms(1) [unfolded db_ok_def]]]
  have "distinct (db_assignments d')"
    using assms(1) by (auto simp: r(1) db_ok_def keys_ok_def distinct_map inj_on_def)
  moreover have "refs_ok d'"
    by (rule refs_okI; simp add: r(1)) (use r(2) o in \<open>auto\<close>)
  ultimately show ?thesis using assms(1) by (simp add: db_ok_def keys_ok_def r(1))
qed

lemma append_account_ok:
  assumes "db_ok d" and "find_account d (a_id a) = None" and "a_created_by a = Some u" and "find_user d u \<noteq> None"
  shows "db_ok (d\<lparr>db_accounts := db_accounts d @ [a]\<rparr>)"
proof -
  note o = refs_okD [OF conjunct2 [OF assms(1) [unfolded db_ok_def]]]
  have "refs_ok (d\<lparr>db_accounts := db_accounts d @ [a]\<rparr>)"
  proof (rule refs_okI)
    fix b v assume "b \<in> set (db_accounts (d\<lparr>db_accounts := db_accounts d @ [a]\<rparr>))" "a_created_by b = Some v"
    then show "v \<in> u_id ` set (db_users (d\<lparr>db_accounts := db_accounts d @ [a]\<rparr>))"
      using o(7) assms(3,4) by (auto simp: find_user_None)
  qed (use o in auto)
  then show ?thesis using assms(1,2) by (simp add: db_ok_def keys_ok_def find_account_None)
qed

lemma find_account_append:
  "find_account d (a_id a) = None \<Longrightarrow>
   find_account (d\<lparr>db_accounts := db_accounts d @ [a]\<rparr>) j = (if j = a_id a then Some a else find_account d j)"
  unfolding find_account_def by (simp add: find_append split: option.splits)

lemma create_account_Inr:
  assumes "create_account i input sc d = Inr (d', p)" and "db_ok d"
  defines "a \<equiv> new_account_row i input sc d"
  shows "db_ok d'" and "pa_id p = i" and "find_account d i = None"
    and "\<And>j. find_account d' j = (if j = i then Some a else find_account d j)"
    and "get_account_for_session sc i d' = Some p" and "db_users d' = db_users d"
proof -
  let ?d1 = "d\<lparr>db_accounts := db_accounts d @ [a]\<rparr>"
  have new: "find_account d i = None" and u: "find_user d (sc_user sc) \<noteq> None"
    using assms(1) by (auto simp: create_account_def find_account_None list_ex_iff split: if_splits)
  have a: "a_id a = i" "a_created_by a = Some (sc_user sc)" by (simp_all add: a_def new_account_row_def)
  have ok1: "db_ok ?d1" by (rule append_account_ok [OF assms(2) _ a(2) u]) (simp add: a new)
  have f1: "find_account ?d1 j = (if j = i then Some a else find_account d j)" for j
    using find_account_append [of d a j] a new by simp
  show "find_account d i = None" by (rule new)
  have "db_ok d' \<and> pa_id p = i \<and> db_accounts d' = db_accounts ?d1 \<and> get_account_for_session sc i d' = Some p \<and> db_users d' = db_users d"
  proof (cases "sc_role sc = ADMIN")
    case True
    then have "d' = ?d1" "p = present ?d1 a"
      using assms(1) u by (auto simp: create_account_def a_def Let_def split: if_splits)
    then show ?thesis using ok1 f1 [of i] a True by (simp add: present_def get_account_for_session_def)
  next
    case False
    then obtain d2 where d2: "set_assignments i [sc_user sc] ?d1 = Some d2" and p: "get_account_for_session sc i d2 = Some p" "d' = d2"
      using assms(1) u by (auto simp: create_account_def a_def Let_def split: if_splits option.splits)
    have "find_account d2 i = Some a" using set_assignments_rows(1) [OF d2] f1 [of i] by (simp add: find_account_def)
    then have "pa_id p = i" using p(1) a by (auto simp: get_account_for_session_def present_def split: if_splits)
    then show ?thesis using set_assignments_ok [OF ok1 d2] set_assignments_rows(1) [OF d2] p by simp
  qed
  then show "db_ok d'" "pa_id p = i" "get_account_for_session sc i d' = Some p" "db_users d' = db_users d"
    "find_account d' j = (if j = i then Some a else find_account d j)" for j
    using f1 [of j] by (simp_all add: find_account_def)
qed

lemma in_sync_register:
  assumes "in_sync m d" and "find_account d' (a_id a) = Some a"
    and "\<And>j. j \<noteq> a_id a \<Longrightarrow> find_account d' j = find_account d j"
  shows "in_sync (register e a m) d'"
  unfolding in_sync_def
proof
  fix j show "map_option cfg (get_client j (register e a m)) = map_option to_runtime_config (find_account d' j)"
    using assms in_syncD [OF assms(1), of j]
    by (cases "j = a_id a") (auto simp: register_get new_client_def split: option.splits)
qed

lemma register_full_ok:
  assumes "manager_ok (sys_manager s)" and "db_ok (sys_db s)" and "in_sync (sys_manager s) d"
    and "find_account (sys_db s) i = Some a" and "\<And>j. j \<noteq> i \<Longrightarrow> find_account (sys_db s) j = find_account d j"
  shows "system_ok (register_full e i s)"
proof -
  have "a_id a = i" using find_account_Some [OF assms(4)] by simp
  then show ?thesis
    using in_sync_register [OF assms(3), of "sys_db s" a e] assms register_ok [OF assms(1)]
    by (simp add: system_ok_def pair_ok_def register_full_def)
qed

lemma post_account_ok: "system_ok s \<Longrightarrow> system_ok (fst (post_account rt e i body rq s))"
proof -
  assume s: "system_ok s"
  have "system_ok (register_full e (pa_id p) (set_db d' s))"
    if "create_account i input sc (sys_db s) = Inr (d', p)" for input sc d' p
    using create_account_Inr [OF that] s
    by (intro register_full_ok [where d = "sys_db s" and a = "new_account_row i input sc (sys_db s)"])
       (simp_all add: system_ok_def pair_ok_def)
  then show ?thesis unfolding post_account_def
    by (intro writing_ok [of system_ok, OF s]) (auto simp: s split: option.splits sum.splits create_error.splits)
qed

lemma apply_patch_keys [simp]: "a_id (apply_patch p a) = a_id a" "a_created_by (apply_patch p a) = a_created_by a"
  by (simp_all add: apply_patch_def)

lemma update_account_Some:
  assumes "update_account i p d = Some (d', a)" and "db_ok d"
  shows "db_ok d'" and "\<exists>row. find_account d' i = Some row \<and> a = present d' row" and "\<And>j. j \<noteq> i \<Longrightarrow> find_account d' j = find_account d j"
proof -
  have r: "update_account_row i (apply_patch p) d = Some d'" "map_option (present d') (find_account d' i) = Some a"
    using assms(1) by (auto simp: update_account_def split: if_splits option.splits)
  show "db_ok d'" by (rule update_account_row_ok [OF assms(2) r(1)]) simp_all
  show "\<exists>row. find_account d' i = Some row \<and> a = present d' row" using r(2) by auto
  show "find_account d' j = find_account d j" if "j \<noteq> i" for j
    using update_account_row_find [OF r(1), of j] that by simp
qed

lemma restart_for_version_ok: "system_ok s \<Longrightarrow> system_ok (restart_for_version e i p s)"
  using pair_ok_ops(3) [of "(sys_manager s, sys_db s)" e i]
  by (auto simp: restart_for_version_def system_ok_def split: option.splits)

lemma patch_account_ok: "system_ok s \<Longrightarrow> system_ok (fst (patch_account rt e i body rq s))"
proof -
  assume s: "system_ok s"
  have reg: "system_ok (register_full e i (set_db d' s))" if up: "update_account i p (sys_db s) = Some (d', a)" for p d' a
  proof -
    have ok: "db_ok (sys_db s)" using s by (simp add: system_ok_def pair_ok_def)
    obtain row where "find_account d' i = Some row" using update_account_Some(2) [OF up ok] by blast
    then show ?thesis using update_account_Some(1,3) [OF up ok] s
      by (intro register_full_ok [where d = "sys_db s" and a = row]) (simp_all add: system_ok_def pair_ok_def)
  qed
  show ?thesis unfolding patch_account_def
    by (intro writing_ok [of system_ok, OF s])
       (auto simp: s restart_for_version_ok patch_update_def patch_finish_def dest: reg split: option.splits)
qed

lemma delete_account_find:
  "delete_account i d = Some d' \<Longrightarrow> find_account d' j = (if j = i then None else find_account d j)"
  by (auto simp: delete_account_def delete_account_row_def find_account_def find_filter_key split: option.splits)

lemma delete_account_ok: "system_ok s \<Longrightarrow> system_ok (fst (delete_account_route e i rq s))"
proof -
  assume s: "system_ok s"
  have m: "manager_ok (unregister e i (sys_manager s))" using s by (simp add: system_ok_def pair_ok_def unregister_ok)
  have g: "get_client j (unregister e i (sys_manager s)) = (if j = i then None else get_client j (sys_manager s))" for j
    by (auto simp: unregister_def get_client_def split: option.splits)
  have sync: "map_option cfg (get_client j (sys_manager s)) = map_option to_runtime_config (find_account (sys_db s) j)" for j
    using s by (simp add: system_ok_def pair_ok_def in_syncD)
  have "system_ok (delete_row e i rq (delete_client e i s))"
  proof (cases "delete_account i (sys_db s)")
    case None
    then have "find_account (sys_db s) i = None"
      by (auto simp: delete_account_def delete_account_row_def split: option.splits)
    then have "system_ok (delete_client e i s)"
      using s m sync by (auto simp: delete_client_def system_ok_def pair_ok_def in_sync_def g)
    then show ?thesis using None by (simp add: delete_row_def delete_client_def)
  next
    case (Some d)
    have "db_ok d" using Some s by (auto simp: system_ok_def pair_ok_def delete_account_def intro: delete_account_row_ok)
    then have "system_ok (set_db d (delete_client e i s))"
      using m sync delete_account_find [OF Some] by (simp add: delete_client_def system_ok_def pair_ok_def in_sync_def g)
    then show ?thesis using Some by (simp add: delete_row_def delete_client_def)
  qed
  then show ?thesis unfolding delete_account_route_def
    by (intro writing_ok [of system_ok, OF s]) (simp add: s)
qed

lemma reorder_ok_db:
  assumes "db_ok d" and "reorder_accounts_for_session sc ids d = (d', r)"
  shows "db_ok d' \<and> db_accounts d' = db_accounts d"
proof (cases "d' = d")
  case False
  then obtain p patch where u: "update_preferences sc patch d = Inr (d', p)"
    using assms(2) by (auto simp: reorder_accounts_for_session_def Let_def split: if_splits sum.splits)
  from update_preferences_Inr [OF u] obtain q where "update_user_row (sc_user sc) (\<lambda>r. r\<lparr>u_prefs := Some (Text_of (encode q))\<rparr>) d = Some d'"
    by metis
  then have "db_ok d'" by (rule update_user_row_ok [OF assms(1)]) simp
  then show ?thesis using update_preferences_tables(1) [OF u] by simp
qed (use assms(1) in simp)

lemma put_reorder_ok: "system_ok s \<Longrightarrow> system_ok (fst (put_reorder e body rq s))"
proof -
  assume s: "system_ok s"
  have "system_ok (set_db d s)" if "reorder_accounts_for_session sc ids (sys_db s) = (d, r)" for sc ids d r
    using reorder_ok_db [OF _ that] s by (auto simp: system_ok_def pair_ok_def intro: in_sync_accounts)
  then show ?thesis unfolding put_reorder_def
    by (intro writing_ok [of system_ok, OF s]) (auto simp: s split: option.splits prod.splits sum.splits bool.splits)
qed

lemma put_assignments_ok: "system_ok s \<Longrightarrow> system_ok (fst (put_assignments e i body rq s))"
proof -
  assume s: "system_ok s"
  have "system_ok (set_db d s)" if "set_assignments i users (sys_db s) = Some d" for users d
    using set_assignments_ok [OF _ that] set_assignments_rows(1) [OF that] s
    by (auto simp: system_ok_def pair_ok_def intro: in_sync_accounts)
  then show ?thesis unfolding put_assignments_def
    by (intro writing_ok [of system_ok, OF s]) (auto simp: s split: option.splits)
qed

lemma replace_image_ok: "system_ok s \<Longrightarrow> replace_account_image revision i bytes s = Some (s', url) \<Longrightarrow> system_ok s'"
proof -
  assume s: "system_ok s" and r: "replace_account_image revision i bytes s = Some (s', url)"
  then obtain images where "sys_db s' = (sys_db s)\<lparr>db_images := images\<rparr>" "sys_manager s' = sys_manager s"
    by (auto simp: replace_account_image_def Let_def split: if_splits)
  then show ?thesis using s
    by (auto simp: system_ok_def pair_ok_def db_ok_def keys_ok_def refs_ok_def intro: in_sync_accounts)
qed

lemma put_image_ok: "system_ok s \<Longrightarrow> system_ok (fst (put_image items png e revision i body rq s))"
  unfolding put_image_def
  by (rule writing_ok [of system_ok]) (auto intro: replace_image_ok split: option.splits)

lemma lifecycle_ok:
  assumes "system_ok s" and "pair_ok (sys_manager s, sys_db s) \<Longrightarrow> pair_ok (fst (action i (sys_manager s, sys_db s)))"
  shows "system_ok (fst (guarded_lifecycle e action x i rq s))"
  using assms unfolding guarded_lifecycle_def
  by (intro writing_ok [of system_ok]) (auto simp: system_ok_both system_ok_def [of s] split: prod.splits bool.splits)

lemma execute_command_ok: "system_ok s \<Longrightarrow> system_ok (fst (execute_command sc i x s))"
proof (cases "get_client i (sys_manager s)")
  case (Some c)
  assume s: "system_ok s"
  then have "client_inv (snd (send_command x c))"
    using client_step_inv [of c "(e, E_command x)" for e] manager_ok_client [OF _ Some] by (simp add: system_ok_def pair_ok_def)
  then have "pair_ok (put_client i (snd (send_command x c)) (sys_manager s), sys_db s)"
    using s Some by (simp add: system_ok_def pair_ok_def manager_ok_put in_sync_put)
  then show ?thesis using s Some by (simp add: execute_command_def case_prod_unfold system_ok_def)
qed (simp add: execute_command_def)

lemma execute_command_state: "execute_command sc i x s = (t, r) \<Longrightarrow> system_ok s \<Longrightarrow> system_ok t"
  using execute_command_ok [of s sc i x] by simp

lemma post_command_ok: "system_ok s \<Longrightarrow> system_ok (fst (post_command e i body rq s))"
  unfolding post_command_def
  by (rule writing_ok [of system_ok]) (auto split: option.splits prod.splits dest: execute_command_state)

lemma post_restart_all_ok: "system_ok s \<Longrightarrow> system_ok (fst (post_restart_all e rq s))"
  using pair_ok_restart_all [of "(sys_manager s, sys_db s)" e]
  by (auto simp: post_restart_all_def system_ok_both system_ok_def [of s] split: option.splits prod.splits)

section \<open>Histories\<close>

text \<open>A request to the account handlers, or something that a controller or a timer does to a client.\<close>

datatype account_event =
    A_create jstr json
  | A_patch jstr json
  | A_delete jstr
  | A_reorder json
  | A_assign jstr json
  | A_lookup jstr json
  | A_image jstr jstr json
  | A_start jstr
  | A_stop jstr
  | A_restart jstr
  | A_clean jstr
  | A_command jstr json
  | A_restart_all
  | A_client jstr client_event

record account_lib =
  al_runtime :: runtime
  al_items :: "jstr \<Rightarrow> int list option"
  al_png :: "int list \<Rightarrow> (int \<times> int \<times> int list) option"

definition account_of :: "account_event \<Rightarrow> jstr option" where
  "account_of ev = (case ev of A_patch i _ \<Rightarrow> Some i | A_delete i \<Rightarrow> Some i | A_assign i _ \<Rightarrow> Some i | A_lookup i _ \<Rightarrow> Some i
     | A_image i _ _ \<Rightarrow> Some i | A_start i \<Rightarrow> Some i | A_stop i \<Rightarrow> Some i | A_restart i \<Rightarrow> Some i | A_clean i \<Rightarrow> Some i
     | A_command i _ \<Rightarrow> Some i | _ \<Rightarrow> None)"

fun account_call :: "account_lib \<Rightarrow> env \<Rightarrow> account_event \<Rightarrow> request \<Rightarrow> system \<Rightarrow> system \<times> int" where
  "account_call lib e (A_create i body) rq s = coded (post_account (al_runtime lib) e i body rq s)"
| "account_call lib e (A_patch i body) rq s = coded (patch_account (al_runtime lib) e i body rq s)"
| "account_call lib e (A_delete i) rq s = coded (delete_account_route e i rq s)"
| "account_call lib e (A_reorder body) rq s = coded (put_reorder e body rq s)"
| "account_call lib e (A_assign i body) rq s = coded (put_assignments e i body rq s)"
| "account_call lib e (A_lookup i body) rq s = coded (post_lookup i body rq s)"
| "account_call lib e (A_image i revision body) rq s = coded (put_image (al_items lib) (al_png lib) e revision i body rq s)"
| "account_call lib e (A_start i) rq s = coded (post_start e i rq s)"
| "account_call lib e (A_stop i) rq s = coded (post_stop e i rq s)"
| "account_call lib e (A_restart i) rq s = coded (post_restart e i rq s)"
| "account_call lib e (A_clean i) rq s = coded (post_clean_spawner e i rq s)"
| "account_call lib e (A_command i body) rq s = coded (post_command e i body rq s)"
| "account_call lib e A_restart_all rq s = coded (post_restart_all e rq s)"
| "account_call lib e (A_client i ev) rq s =
     (if own_event ev then (s\<lparr>sys_manager := fst (manager_step (e, M_client i ev) (sys_manager s, sys_db s))\<rparr>, 0) else (s, 0))"

definition account_step :: "account_lib \<Rightarrow> env \<times> request \<times> account_event \<Rightarrow> system \<Rightarrow> system" where
  "account_step lib ev s = fst (account_call lib (fst ev) (snd (snd ev)) (fst (snd ev)) s)"

lemma client_event_ok:
  assumes "system_ok s" and "own_event ev"
  shows "system_ok (s\<lparr>sys_manager := fst (manager_step (e, M_client i ev) (sys_manager s, sys_db s))\<rparr>)"
proof (cases "get_client i (sys_manager s)")
  case (Some c)
  have "manager_ok (fst (manager_step (e, M_client i ev) (sys_manager s, sys_db s)))"
    by (rule manager_step_ok) (use assms(1) in \<open>simp add: system_ok_def pair_ok_def\<close>)
  then show ?thesis using assms Some
    by (simp add: system_ok_def pair_ok_def in_sync_put own_event_cfg)
qed (use assms in \<open>simp add: system_ok_def\<close>)

lemma post_lookup_state [simp]: "fst (post_lookup i body rq s) = s"
  by (auto simp: post_lookup_def writing_run split: option.splits)

lemma account_call_ok: "system_ok s \<Longrightarrow> system_ok (fst (account_call lib e ev rq s))"
proof (cases ev)
  case (A_client i k)
  assume "system_ok s"
  with A_client show ?thesis using client_event_ok [of s k e i] by (simp del: manager_step.simps)
qed (simp_all add: post_account_ok patch_account_ok delete_account_ok put_reorder_ok put_assignments_ok put_image_ok
      post_command_ok post_restart_all_ok lifecycle_ok pair_ok_ops post_start_def post_stop_def post_restart_def
      post_clean_spawner_def)

section \<open>The tables that hang on accounts and users\<close>

text \<open>
  The rest of what the schema demands: account names, the account of an image and banned addresses are
  unique, and images, earnings, console lines, audit entries and bans refer only to rows that exist.
\<close>

definition dependents_ok :: "db \<Rightarrow> bool" where
  "dependents_ok d \<longleftrightarrow> (let us = u_id ` set (db_users d); accs = a_id ` set (db_accounts d) in
     distinct (map a_name (db_accounts d)) \<and> distinct (map im_account (db_images d)) \<and> distinct (map b_ip (db_bans d))
     \<and> im_account ` set (db_images d) \<subseteq> accs \<and> e_account ` set (db_earnings d) \<subseteq> accs
     \<and> l_account ` set (db_logs d) \<subseteq> accs
     \<and> (\<forall>x \<in> set (db_audits d). ref_in us (au_user x)) \<and> (\<forall>b \<in> set (db_bans d). ref_in us (b_by b)))"

lemma image_key:
  assumes "\<And>x. key (f x) = key x"
  shows "key ` (\<lambda>x. if P x then f x else x) ` S = key ` S"
proof -
  have "key (if P x then f x else x) = key x" for x by (simp add: assms)
  then show ?thesis by (simp only: image_image)
qed

lemma dependents_log: "dependents_ok d \<Longrightarrow> dependents_ok (record_audit_log low n u a t i ds d)"
  by (cases u) (auto simp: dependents_ok_def record_audit_log_def find_user_None Let_def split: option.splits)

lemma dependents_users:
  "dependents_ok d \<Longrightarrow> u_id ` set us = u_id ` set (db_users d) \<Longrightarrow> dependents_ok (d\<lparr>db_users := us\<rparr>)"
  by (simp add: dependents_ok_def)

lemma dependents_assignments: "dependents_ok (d\<lparr>db_assignments := x\<rparr>) = dependents_ok d"
  by (simp add: dependents_ok_def)

lemma dependents_rows:
  assumes "dependents_ok d" and "map a_name as = map a_name (db_accounts d)" and "map a_id as = map a_id (db_accounts d)"
  shows "dependents_ok (d\<lparr>db_accounts := as\<rparr>)"
proof -
  have "a_id ` set as = a_id ` set (db_accounts d)"
    using arg_cong [OF assms(3), of set] by simp
  then show ?thesis using assms(1,2) by (simp add: dependents_ok_def)
qed

lemma dependents_persist: "dependents_ok d \<Longrightarrow> dependents_ok (persist_auto_start i b d)"
  by (auto simp: persist_auto_start_def dest!: update_account_row_rows intro!: dependents_rows split: option.splits)

lemma dependents_ops:
  assumes "dependents_ok (snd md)"
  shows "dependents_ok (snd (fst (start_account e i md)))" and "dependents_ok (snd (fst (stop_account e i md)))"
    and "dependents_ok (snd (fst (restart_account e i md)))" and "dependents_ok (snd (fst (clean_spawner_account i md)))"
  using assms
  by (cases md; cases "get_client i (fst md)"; simp add: start_account_def stop_account_def restart_account_def
      clean_spawner_account_def dependents_persist case_prod_unfold)+

lemma dependents_restart_all: "dependents_ok (snd md) \<Longrightarrow> dependents_ok (snd (fst (restart_all_online e md)))"
proof -
  assume md: "dependents_ok (snd md)"
  have "dependents_ok (snd (fold (\<lambda>i s. fst (restart_account e i s)) xs md))" for xs
    using md by (intro fold_keeps [where P = "\<lambda>x. dependents_ok (snd x)"]) (auto intro: dependents_ops)
  then show ?thesis by (cases md) (simp add: restart_all_online_def Let_def)
qed

lemma dependents_append:
  assumes "dependents_ok d" and "\<not> list_ex (\<lambda>b. a_name b = a_name a) (db_accounts d)"
  shows "dependents_ok (d\<lparr>db_accounts := db_accounts d @ [a]\<rparr>)"
  using assms by (auto simp: dependents_ok_def list_ex_iff)

lemma dependents_create:
  assumes "dependents_ok d" and "create_account i input sc d = Inr (d', p)"
  shows "dependents_ok d'"
proof -
  let ?a = "new_account_row i input sc d"
  have "\<not> list_ex (\<lambda>b. a_name b = a_name ?a) (db_accounts d)"
    using assms(2) by (auto simp: create_account_def new_account_row_def list_ex_iff split: if_splits)
  note 1 = dependents_append [OF assms(1) this]
  show ?thesis using assms(2) 1
    by (auto simp: create_account_def Let_def dependents_assignments split: if_splits option.splits
        dest!: set_assignments_rows(1))
qed

lemma dependents_update:
  assumes "dependents_ok d" and "db_ok d" and "update_account i p d = Some (d', a)"
  shows "dependents_ok d'"
proof -
  let ?f = "\<lambda>a. if a_id a = i then apply_patch p a else a"
  have d': "d' = d\<lparr>db_accounts := map ?f (db_accounts d)\<rparr>" and
    n: "\<not> (case ap_name p of None \<Rightarrow> False | Some n \<Rightarrow> list_ex (\<lambda>a. a_name a = n \<and> a_id a \<noteq> i) (db_accounts d))"
    using assms(3) by (auto simp: update_account_def dest!: update_account_row_rows split: if_splits option.splits)
  have name: "a_name (apply_patch p a) = upd (ap_name p) (a_name a)" for a by (simp add: apply_patch_def)
  have ids: "distinct (map a_id (db_accounts d))" and names: "distinct (map a_name (db_accounts d))"
    using assms(1,2) by (simp_all add: db_ok_def keys_ok_def dependents_ok_def Let_def)
  have "inj_on (\<lambda>a. a_name (?f a)) (set (db_accounts d))"
    using ids names n by (auto simp: inj_on_def distinct_map name upd_def list_ex_iff split: option.splits)
  then have "distinct (map a_name (map ?f (db_accounts d)))"
    using ids by (simp add: distinct_map comp_def)
  moreover have "a_id ` ?f ` set (db_accounts d) = a_id ` set (db_accounts d)" by (rule image_key) simp
  ultimately show ?thesis using assms(1) by (simp add: dependents_ok_def d' Let_def)
qed

lemma dependents_delete:
  assumes "dependents_ok d" and "delete_account i d = Some d'"
  shows "dependents_ok d'"
proof -
  have d': "d' = d\<lparr>db_accounts := filter (\<lambda>a. a_id a \<noteq> i) (db_accounts d),
      db_assignments := filter (\<lambda>p. snd p \<noteq> i) (db_assignments d), db_images := filter (\<lambda>x. im_account x \<noteq> i) (db_images d),
      db_earnings := filter (\<lambda>x. e_account x \<noteq> i) (db_earnings d), db_logs := filter (\<lambda>x. l_account x \<noteq> i) (db_logs d)\<rparr>"
    using assms(2) by (auto simp: delete_account_def delete_account_row_def split: option.splits)
  have "key ` {x \<in> S. key x \<noteq> i} \<subseteq> a_id ` {a \<in> T. a_id a \<noteq> i}" if "key ` S \<subseteq> a_id ` T" for key :: "'a \<Rightarrow> jstr" and S T
    using that by auto
  then have "key ` set (filter (\<lambda>x. key x \<noteq> i) xs) \<subseteq> a_id ` set (filter (\<lambda>a. a_id a \<noteq> i) as)"
    if "key ` set xs \<subseteq> a_id ` set as" for key :: "'a \<Rightarrow> jstr" and xs as
    using that by simp
  then show ?thesis using assms(1) unfolding d' dependents_ok_def Let_def
    by (auto simp: distinct_map_filter)
qed

lemma dependents_reorder:
  assumes "dependents_ok d" and "reorder_accounts_for_session sc ids d = (d', r)"
  shows "dependents_ok d'"
proof (cases "d' = d")
  case False
  then obtain p patch where u: "update_preferences sc patch d = Inr (d', p)"
    using assms(2) by (auto simp: reorder_accounts_for_session_def Let_def split: if_splits sum.splits)
  from update_preferences_Inr [OF u] obtain q where "update_user_row (sc_user sc) (\<lambda>r. r\<lparr>u_prefs := Some (Text_of (encode q))\<rparr>) d = Some d'"
    by metis
  then have "d' = d\<lparr>db_users := map (\<lambda>r. if u_id r = sc_user sc then r\<lparr>u_prefs := Some (Text_of (encode q))\<rparr> else r) (db_users d)\<rparr>"
    by (auto simp: update_user_row_def split: option.splits)
  moreover have "u_id ` set (map (\<lambda>r. if u_id r = sc_user sc then r\<lparr>u_prefs := Some (Text_of (encode q))\<rparr> else r) (db_users d))
      = u_id ` set (db_users d)"
    unfolding set_map by (rule image_key) simp
  ultimately show ?thesis using dependents_users [OF assms(1)] by simp
qed (use assms(1) in simp)

lemma dependents_image:
  assumes "dependents_ok (sys_db s)" and "replace_account_image revision i bytes s = Some (s', url)"
  shows "dependents_ok (sys_db s')"
proof -
  let ?row = "\<lparr>im_account = i, im_data = bytes, im_revision = revision\<rparr>"
  let ?map = "map (\<lambda>x. if im_account x = i then ?row else x) (db_images (sys_db s))"
  let ?xs = "if list_ex (\<lambda>x. im_account x = i) (db_images (sys_db s)) then ?map else db_images (sys_db s) @ [?row]"
  have s': "sys_db s' = (sys_db s)\<lparr>db_images := ?xs\<rparr>" and i: "i \<in> a_id ` set (db_accounts (sys_db s))"
    using assms(2) by (auto simp: replace_account_image_def Let_def find_account_None split: if_splits)
  have "map im_account ?map = map im_account (db_images (sys_db s))" by simp
  then have "distinct (map im_account ?map)" using assms(1) unfolding dependents_ok_def Let_def by metis
  then have "distinct (map im_account ?xs)" using assms(1)
    by (auto simp: dependents_ok_def Let_def list_ex_iff)
  moreover have "im_account ` set ?xs \<subseteq> a_id ` set (db_accounts (sys_db s))"
    using assms(1) i by (auto simp: dependents_ok_def Let_def)
  ultimately show ?thesis using assms(1) by (simp add: s' dependents_ok_def Let_def)
qed

definition system_consistent :: "system \<Rightarrow> bool" where
  "system_consistent s \<longleftrightarrow> system_ok s \<and> dependents_ok (sys_db s)"

abbreviation keeps_dependents :: "system \<Rightarrow> bool" where
  "keeps_dependents s \<equiv> dependents_ok (sys_db s)"

lemma register_full_db [simp]: "sys_db (register_full e i s) = sys_db s"
  by (simp add: register_full_def split: option.splits)

lemma restart_version_dependents: "keeps_dependents s \<Longrightarrow> keeps_dependents (restart_for_version e i p s)"
  using dependents_ops(3) [of "(sys_manager s, sys_db s)" e i]
  by (auto simp: restart_for_version_def split: option.splits)

lemma execute_command_db: "execute_command sc i x s = (t, r) \<Longrightarrow> sys_db t = sys_db s"
  by (auto simp: execute_command_def split: if_splits option.splits prod.splits)

lemma lifecycle_dependents:
  assumes "keeps_dependents s" and "dependents_ok (snd (fst (action i (sys_manager s, sys_db s))))"
  shows "keeps_dependents (fst (guarded_lifecycle e action x i rq s))"
  using assms unfolding guarded_lifecycle_def
  by (intro writing_ok [of keeps_dependents]) (auto simp: dependents_log split: prod.splits bool.splits)

lemma account_writes_dependents:
  assumes "system_consistent s"
  shows "keeps_dependents (fst (post_account rt e i body rq s))" and "keeps_dependents (fst (patch_account rt e i body rq s))"
    and "keeps_dependents (fst (delete_account_route e i rq s))" and "keeps_dependents (fst (put_reorder e body rq s))"
    and "keeps_dependents (fst (put_assignments e i body rq s))" and "keeps_dependents (fst (put_image items png e v i body rq s))"
    and "keeps_dependents (fst (post_command e i body rq s))" and "keeps_dependents (fst (post_restart_all e rq s))"
proof -
  have s: "keeps_dependents s" "db_ok (sys_db s)"
    using assms by (simp_all add: system_consistent_def system_ok_def pair_ok_def)
  note w = writing_ok [of keeps_dependents, OF s(1)]
  show "keeps_dependents (fst (post_account rt e i body rq s))" unfolding post_account_def
    by (rule w) (auto simp: s intro!: dependents_log dest: dependents_create [OF s(1)] split: option.splits sum.splits create_error.splits)
  show "keeps_dependents (fst (patch_account rt e i body rq s))" unfolding patch_account_def
    by (rule w) (auto simp: s patch_update_def patch_finish_def intro!: dependents_log restart_version_dependents
        dest: dependents_update [OF s] split: option.splits)
  show "keeps_dependents (fst (delete_account_route e i rq s))" unfolding delete_account_route_def
    by (rule w) (auto simp: s delete_row_def delete_client_def intro!: dependents_log dest: dependents_delete [OF s(1)] split: option.splits)
  show "keeps_dependents (fst (put_reorder e body rq s))" unfolding put_reorder_def
    by (rule w) (auto simp: s intro!: dependents_log dest: dependents_reorder [OF s(1)] split: option.splits prod.splits sum.splits bool.splits)
  show "keeps_dependents (fst (put_assignments e i body rq s))" unfolding put_assignments_def
    by (rule w) (auto simp: s dependents_assignments intro!: dependents_log dest!: set_assignments_rows(1) split: option.splits)
  show "keeps_dependents (fst (put_image items png e v i body rq s))" unfolding put_image_def
    by (rule w) (auto simp: s intro!: dependents_log dest: dependents_image [OF s(1)] split: option.splits)
  show "keeps_dependents (fst (post_command e i body rq s))" unfolding post_command_def
    by (rule w) (auto simp: s intro!: dependents_log dest: execute_command_db split: option.splits prod.splits)
  show "keeps_dependents (fst (post_restart_all e rq s))"
    using dependents_restart_all [of "(sys_manager s, sys_db s)" e] s
    by (auto simp: post_restart_all_def intro!: dependents_log split: option.splits prod.splits)
qed

lemma account_call_dependents: "system_consistent s \<Longrightarrow> keeps_dependents (fst (account_call lib e ev rq s))"
  by (cases ev) (auto simp: account_writes_dependents post_start_def post_stop_def post_restart_def post_clean_spawner_def
      lifecycle_dependents dependents_ops system_consistent_def simp del: manager_step.simps)

interpretation account_system: stepwise "account_step lib" system_consistent for lib
  by unfold_locales (simp add: account_step_def account_call_ok account_call_dependents system_consistent_def)

section \<open>Loading\<close>

definition booted :: "env \<Rightarrow> db \<Rightarrow> system" where
  "booted e d = \<lparr>sys_service = start_service (snd (load_all e d)), sys_manager = fst (load_all e d), image_updates = []\<rparr>"

lemma load_all_ok: "manager_ok (fst (load_all e d))"
proof -
  have r: "manager_ok (fold (register e) as new_manager)" for as
    by (rule fold_keeps [where P = manager_ok]) (simp_all add: manager_ok_new register_ok)
  show ?thesis unfolding load_all_def load_accounts_def Let_def fst_conv
    by (rule fold_keeps [where P = manager_ok, OF r])
       (auto intro: manager_ok_put connect_inv dest: manager_ok_client split: option.splits)
qed

lemma load_all_db: "snd (load_all e d) = d\<lparr>db_accounts := map (\<lambda>a. a\<lparr>a_status := OFFLINE\<rparr>) (db_accounts d)\<rparr>"
  by (simp add: load_all_def load_accounts_def Let_def)

lemma booted_ok:
  assumes "db_ok d" and "dependents_ok d"
  shows "system_consistent (booted e d)"
proof -
  let ?d = "snd (load_all e d)"
  have f: "find_account ?d i = map_option (\<lambda>a. a\<lparr>a_status := OFFLINE\<rparr>) (find_account d i)" for i
  proof -
    have "find (\<lambda>a. a_id a = i) (map (\<lambda>a. a\<lparr>a_status := OFFLINE\<rparr>) xs) = map_option (\<lambda>a. a\<lparr>a_status := OFFLINE\<rparr>) (find (\<lambda>a. a_id a = i) xs)" for xs
      by (induction xs) simp_all
    then show ?thesis by (simp add: load_all_db find_account_def)
  qed
  have "db_ok ?d" unfolding load_all_db by (rule db_ok_accounts [OF assms(1)]) (auto simp: image_image)
  moreover have "dependents_ok ?d" unfolding load_all_db by (rule dependents_rows [OF assms(2)]) simp_all
  moreover have "map_option cfg (get_client i (fst (load_all e d))) = map_option to_runtime_config (find_account ?d i)" for i
    by (simp add: f load_all_get [OF assms(1)] option.map_comp comp_def new_client_def to_runtime_config_def if_distrib cong: if_cong)
  ultimately show ?thesis
    by (simp add: system_consistent_def system_ok_def pair_ok_def booted_def sys_db_def start_service_def load_all_ok in_sync_def)
qed

section \<open>Properties\<close>

text \<open>
  C6. As long as the requests do not overlap, the clients and the database agree: after any sequence of account
  requests, bot events and timers there is exactly one client per stored account, it runs with exactly
  the settings of the row, and every client keeps its own invariant. The tables that these requests
  write stay consistent: the keys of users, sessions, accounts, assignments, notes and grants, account
  names, account images and banned addresses are unique, and the references of sessions,
  assignments, notes, grants, creators, images, earnings, console lines, audit entries and bans point to rows that exist.
  Overlapping requests can break the agreement, see \<open>overlapping_delete_leaves_a_client\<close> below.
\<close>

theorem accounts_and_clients_agree:
  assumes "system_consistent s"
  shows "let t = fold (account_step lib) evs s in
     db_ok (sys_db t) \<and> dependents_ok (sys_db t)
     \<and> (\<forall>i. map_option cfg (get_client i (sys_manager t)) = map_option to_runtime_config (find_account (sys_db t) i))
     \<and> (\<forall>i c. get_client i (sys_manager t) = Some c \<longrightarrow> client_inv c)"
  using account_system.run_inv [OF assms, of lib evs]
  by (simp add: system_consistent_def system_ok_def pair_ok_def in_sync_def manager_ok_def Let_def)

definition demo_lib :: account_lib where
  "demo_lib = \<lparr>al_runtime = \<lparr>rt_low = (\<lambda>c. [c]), rt_email = (\<lambda>s. True), rt_number = (\<lambda>j. case j of Some (JNum x) \<Rightarrow> Some x | _ \<Rightarrow> None),
     rt_stringify = (\<lambda>j. [])\<rparr>, al_items = (\<lambda>i. None), al_png = (\<lambda>b. None)\<rparr>"

definition demo_system :: system where
  "demo_system = \<lparr>sys_service = start_service demo_tables, sys_manager = fst (load_all (demo_env 0) demo_tables), image_updates = []\<rparr>"

lemma demo_dependents: "dependents_ok demo_tables"
  by (simp add: dependents_ok_def demo_tables_def empty_db_def demo_account_def demo_user_def js_def)

lemma demo_system_ok: "system_consistent demo_system"
proof -
  have "snd (load_all (demo_env 0) demo_tables) = demo_tables"
    by (simp add: load_all_db demo_tables_def demo_account_def)
  then show ?thesis
    using booted_ok [OF demo_tables_ok demo_dependents, of "demo_env 0"] by (simp add: booted_def demo_system_def)
qed

theorem accounts_and_clients_agree_witness:
  "\<forall>i. map_option cfg (get_client i (sys_manager (fold (account_step demo_lib)
       [(demo_env 5, demo_rq ''tom'' USER, A_patch [1] (JObj [(js ''crouchEnabled'', JBool True)])),
        (demo_env 6, demo_rq ''ann'' ADMIN, A_delete [2])] demo_system)))
     = map_option to_runtime_config (find_account (sys_db (fold (account_step demo_lib)
       [(demo_env 5, demo_rq ''tom'' USER, A_patch [1] (JObj [(js ''crouchEnabled'', JBool True)])),
        (demo_env 6, demo_rq ''ann'' ADMIN, A_delete [2])] demo_system)) i)"
  by (rule accounts_and_clients_agree [OF demo_system_ok, unfolded Let_def, THEN conjunct2, THEN conjunct2, THEN conjunct1])

text \<open>
  C7. Somebody who is not an admin and not assigned to an account cannot do anything with it: every
  request that names the account leaves the whole system as it was and is refused.
\<close>

theorem strangers_have_no_effect:
  assumes "account_of ev = Some i" and "rq_session rq = Some sc"
    and "sc_role sc = USER" and "\<not> is_assigned (sys_db s) (sc_user sc) i"
  shows "fst (account_call lib e ev rq s) = s \<and> snd (account_call lib e ev rq s) \<in> {400, 401, 403, 404}"
proof -
  have no: "\<not> can_access_account sc i (sys_db s)" "\<not> can_manage_assignments sc i (sys_db s)" "\<not> has_account_access sc i (sys_db s)"
    using assms(3,4) by (auto simp: can_access_account_def can_manage_assignments_def has_account_access_def list_ex_iff
        split: option.splits)
  show ?thesis using assms(1)
    by (cases ev) (auto simp: account_of_def coded_def writing_run assms(2) no not_found_def patch_account_def
        delete_account_route_def put_assignments_def post_lookup_def put_image_def post_start_def post_stop_def
        post_restart_def post_clean_spawner_def guarded_lifecycle_def post_command_def execute_command_def
        split: option.splits dest: csrf_code)
qed

theorem strangers_have_no_effect_witness:
  "fst (account_call demo_lib (demo_env 1) (A_start [2]) (demo_rq ''tom'' USER) demo_system) = demo_system"
  using strangers_have_no_effect [of "A_start [2]" "[2]" "demo_rq ''tom'' USER" "demo_context ''tom'' USER" demo_system]
  by (simp add: account_of_def demo_rq_def demo_context_def demo_system_def sys_db_def start_service_def demo_tables_def
      is_assigned_def)

text \<open>
  What overlapping requests can do. While \<^verbatim>\<open>DELETE\<close> waits for the database, between the removal of the
  client and that of the row, a \<^verbatim>\<open>PATCH\<close> of the same account that has already passed its access check updates
  the row and registers a client for it again. Afterwards the row is gone and the client runs on.
\<close>

lemma overlapping_delete_leaves_a_client:
  assumes "patch_update i p (delete_client e1 i s) = Some (s1, pa)" and "ap_version p = None"
  shows "let t = delete_row e3 i rq3 (patch_finish rt e2 i p rq2 s1) in
     find_account (sys_db t) i = None \<and> get_client i (sys_manager t) \<noteq> None"
proof -
  obtain d where up: "update_account i p (sys_db s) = Some (d, pa)" and s1: "s1 = set_db d (delete_client e1 i s)"
    using assms(1) by (auto simp: patch_update_def delete_client_def)
  then obtain a where a: "find_account d i = Some a" by (auto simp: update_account_def split: if_splits option.splits)
  have i: "a_id a = i" using find_account_Some [OF a] by simp
  let ?s2 = "patch_finish rt e2 i p rq2 s1"
  have c: "get_client i (sys_manager ?s2) \<noteq> None"
    using a i by (simp add: patch_finish_def restart_for_version_def assms(2) s1 register_full_def register_get split: option.splits)
  have r: "find_account (sys_db ?s2) i = Some a"
    using a by (simp add: patch_finish_def restart_for_version_def assms(2) s1)
  then obtain d' where "delete_account i (sys_db ?s2) = Some d'"
    by (auto simp: delete_account_def delete_account_row_def)
  then show ?thesis using c delete_account_find [of i "sys_db ?s2" d' i] by (simp add: delete_row_def)
qed

definition no_patch :: account_patch where
  "no_patch = \<lparr>ap_name = None, ap_display = None, ap_version = None, ap_host = None, ap_port = None, ap_crouch = None, ap_button = None, ap_reconnect = None, ap_return_home = None, ap_notes = None, ap_sell_enabled = None, ap_sell_interval = None, ap_sell_command = None, ap_spawner_type = None, ap_spawner_actions = None\<rparr>"

lemma overlapping_delete_in_the_demo:
  "\<exists>s1 pa. patch_update [1] no_patch (delete_client (demo_env 1) [1] demo_system) = Some (s1, pa)
     \<and> find_account (sys_db (delete_row (demo_env 3) [1] (demo_rq ''ann'' ADMIN)
         (patch_finish (al_runtime demo_lib) (demo_env 2) [1] no_patch (demo_rq ''tom'' USER) s1))) [1] = None"
proof -
  have "patch_update [1] no_patch (delete_client (demo_env 1) [1] demo_system) \<noteq> None"
    by code_simp
  then obtain s1 pa where "patch_update [1] no_patch (delete_client (demo_env 1) [1] demo_system) = Some (s1, pa)" by auto
  then show ?thesis
    using overlapping_delete_leaves_a_client [of "[1]" no_patch "demo_env 1" demo_system s1 pa "demo_env 3" "demo_rq ''ann'' ADMIN"
      "al_runtime demo_lib" "demo_env 2" "demo_rq ''tom'' USER"]
    by (auto simp: no_patch_def Let_def)
qed

text \<open>
  Sharing does exactly what was asked and never locks the operator out: after an answered request
  the account is assigned to the given users, and to the operator who is not an admin, and no other
  account is affected. Only an admin, or the creator while still assigned, gets there.
\<close>

theorem operators_keep_their_access:
  assumes "put_assignments e i body rq s = (s', Answered c x)"
  shows "\<exists>sc users. rq_session rq = Some sc \<and> parse_assign_users body = Some users
     \<and> (sc_role sc = ADMIN \<or> is_assigned (sys_db s) (sc_user sc) i)
     \<and> (\<forall>u a. is_assigned (sys_db s') u a \<longleftrightarrow>
          (if a = i then u \<in> set users \<or> (sc_role sc = USER \<and> u = sc_user sc) else is_assigned (sys_db s) u a))"
proof -
  obtain sc users d where sc: "rq_session rq = Some sc" and m: "can_manage_assignments sc i (sys_db s)"
    and u: "parse_assign_users body = Some users" and d: "set_assignments i (assigned_users sc users) (sys_db s) = Some d"
    and s': "is_assigned (sys_db s') = is_assigned d"
    using assms by (auto simp: put_assignments_def writing_run not_found_def require_csrf_def split: option.splits if_splits)
  have r: "set (assigned_users sc users) = set users \<union> (if sc_role sc = USER then {sc_user sc} else {})"
    by (cases "sc_role sc") (auto simp: assigned_users_def)
  have "is_assigned d u a \<longleftrightarrow> (if a = i then u \<in> set users \<or> (sc_role sc = USER \<and> u = sc_user sc) else is_assigned (sys_db s) u a)" for u a
    using r by (auto simp: set_assignments_rows(1) [OF d] is_assigned_def split: if_splits)
  moreover have "sc_role sc = ADMIN \<or> is_assigned (sys_db s) (sc_user sc) i"
    using m by (auto simp: can_manage_assignments_def can_access_account_def split: option.splits)
  ultimately show ?thesis using sc u s' by auto
qed

theorem operators_keep_their_access_witness:
  "\<exists>s'. fst (put_assignments (demo_env 1) [1] (JObj [(js ''userIds'', JArr [JStr (js ''ann'')])]) (demo_rq ''tom'' USER) demo_system) = s'
     \<and> is_assigned (sys_db s') (js ''tom'') [1] \<and> is_assigned (sys_db s') (js ''ann'') [1]"
proof -
  let ?b = "JObj [(js ''userIds'', JArr [JStr (js ''ann'')])]"
  let ?r = "put_assignments (demo_env 1) [1] ?b (demo_rq ''tom'' USER) demo_system"
  have "reply_code (snd ?r) = 200" by code_simp
  moreover have "snd ?r = Answered 200 () \<or> reply_code (snd ?r) \<noteq> 200"
    by (cases "snd ?r") (auto simp: put_assignments_def writing_run not_found_def require_csrf_def split: option.splits if_splits)
  ultimately obtain s' where r: "?r = (s', Answered 200 ())" by (cases ?r) auto
  have b: "parse_assign_users ?b = Some [js ''ann'']" by code_simp
  from operators_keep_their_access [OF r] show ?thesis using r b
    by (auto simp: demo_rq_def demo_context_def)
qed

end
