(* ===== verification/Users_Props.thy ===== *)
theory Users_Props
  imports Users
begin

text \<open>
  What the user management keeps: consistent tables, names that are unique up to letter case, and an
  active admin, for every sequence of requests; and what it does not keep when two requests overlap.
\<close>

section \<open>Names\<close>

lemma trim_id: "list_all (\<lambda>c. \<not> is_space c) s \<Longrightarrow> trim s = s"
proof -
  assume s: "list_all (\<lambda>c. \<not> is_space c) s"
  have d: "dropWhile is_space t = t" if "list_all (\<lambda>c. \<not> is_space c) t" for t
    using that by (cases t) auto
  show ?thesis using s d [of s] d [of "rev s"] by (simp add: trim_def)
qed

lemma login_char_no_space: "login_char c \<Longrightarrow> \<not> is_space c"
  by (auto simp: login_char_def name_char_def is_space_def)

lemma parse_create_name: "parse_create_user body = Some input \<Longrightarrow> trim (cu_name input) = cu_name input"
proof -
  assume "parse_create_user body = Some input"
  then have "list_all login_char (cu_name input)"
    by (auto simp: parse_create_user_def z_refine_Some split: if_splits option.splits)
  then show ?thesis
    by (intro trim_id) (auto simp: list_all_iff login_char_no_space)
qed

definition names_ok :: "db \<Rightarrow> bool" where
  "names_ok d \<longleftrightarrow> distinct (map (\<lambda>u. nocase (u_name u)) (db_users d))"

definition users_ok :: "db \<Rightarrow> bool" where
  "users_ok d \<longleftrightarrow> db_ok d \<and> names_ok d \<and> 0 < count_admins d"

definition active_admin :: "user_row \<Rightarrow> bool" where
  "active_admin u \<longleftrightarrow> u_role u = ADMIN \<and> u_status u = ACTIVE"

lemma count_admins_pos: "0 < count_admins d \<longleftrightarrow> (\<exists>u \<in> set (db_users d). active_admin u)"
  by (auto simp: count_admins_def active_admin_def filter_empty_conv)

text \<open>With two rows that satisfy a predicate there is one with another key.\<close>

lemma another_key:
  assumes "distinct (map key xs)" and "2 \<le> length (filter P xs)"
  shows "\<exists>x \<in> set xs. P x \<and> key x \<noteq> i"
proof (rule ccontr)
  assume "\<not> ?thesis"
  then have k: "\<forall>k \<in> set (map key (filter P xs)). k = i" by auto
  have "distinct (map key (filter P xs))" using assms(1) by (rule distinct_map_filter)
  then have "length (map key (filter P xs)) = card (set (map key (filter P xs)))"
    by (simp only: distinct_card)
  also have "\<dots> \<le> card {i}" by (rule card_mono) (use k in auto)
  finally show False using assms(2) by simp
qed

lemma another_admin:
  assumes "db_ok d" and "\<not> count_admins d \<le> 1"
  shows "\<exists>u \<in> set (db_users d). active_admin u \<and> u_id u \<noteq> i"
  using another_key [of u_id "db_users d" active_admin i] assms
  by (simp add: db_ok_def keys_ok_def count_admins_def active_admin_def [abs_def])

lemma users_ok_cong:
  "db_users d = db_users e \<Longrightarrow> db_ok d \<Longrightarrow> users_ok e \<Longrightarrow> users_ok d"
  by (simp add: users_ok_def names_ok_def count_admins_def)

lemma users_ok_audit [simp]: "users_ok (sv_db (audit low now rq a tt ti ds s)) = users_ok (sv_db s)"
  by (simp add: audit_def users_ok_def names_ok_def count_admins_def)

section \<open>Each request\<close>

lemma create_user_ok:
  assumes "users_ok d" and "create_user hash now i input d = Some (d', u)" and "trim (cu_name input) = cu_name input"
  shows "users_ok d'"
proof -
  have i: "i \<notin> u_id ` set (db_users d)" and n: "nocase (cu_name input) \<notin> (\<lambda>u. nocase (u_name u)) ` set (db_users d)"
    using assms(2,3) by (auto simp: create_user_def find_username_matches_def find_user_None filter_empty_conv
        split: if_splits)
  obtain row where d': "d' = d\<lparr>db_users := db_users d @ [row]\<rparr>" and row: "u_id row = i" "u_name row = cu_name input"
    using assms(2) by (auto simp: create_user_def Let_def split: if_splits)
  have k: "keys_ok d'" using assms(1) i row by (simp add: users_ok_def db_ok_def keys_ok_def d')
  have "refs_ok d'"
    by (rule refs_okI; simp add: d')
       (use assms(1) refs_okD [of d] in \<open>auto simp: users_ok_def db_ok_def\<close>)
  moreover have "names_ok d'" using assms(1) n row by (simp add: users_ok_def names_ok_def d')
  moreover have "0 < count_admins d'" using assms(1) by (simp add: users_ok_def count_admins_def d')
  ultimately show ?thesis using k by (simp add: users_ok_def db_ok_def)
qed

lemma destroy_all_ok: "users_ok d \<Longrightarrow> users_ok (fst (destroy_all_user_sessions i d))"
  unfolding destroy_all_user_sessions_def fst_conv
  by (rule users_ok_cong [of _ d]) (auto simp: users_ok_def intro: db_ok_filter_sessions)

lemma apply_update_fields [simp]: "u_id (apply_update h input u) = u_id u" "u_name (apply_update h input u) = u_name u"
  by (simp_all add: apply_update_def)

lemma update_row_users_ok:
  assumes "users_ok d" and "update_user_row i (apply_update h input) d = Some d'" and "\<not> removes_last_admin i input d"
  shows "users_ok d'"
proof -
  let ?g = "\<lambda>u. if u_id u = i then apply_update h input u else u"
  note d' = update_user_row_users [OF assms(2)]
  have "db_ok d'" using assms(1,2) by (auto simp: users_ok_def intro: update_user_row_ok)
  moreover have "names_ok d'"
  proof -
    have us: "db_users d' = map ?g (db_users d)" by (simp add: d')
    have n: "map (\<lambda>u. nocase (u_name u)) (map ?g (db_users d)) = map (\<lambda>u. nocase (u_name u)) (db_users d)"
      by (rule distinct_map_keyed) simp
    show ?thesis using assms(1) unfolding names_ok_def us n by (simp only: users_ok_def names_ok_def)
  qed
  moreover have "\<exists>u \<in> set (db_users d). active_admin (?g u)"
  proof (cases "uu_role input = Some USER \<or> uu_status input = Some DISABLED")
    case False
    obtain u where "u \<in> set (db_users d)" "active_admin u"
      using assms(1) by (auto simp: users_ok_def count_admins_pos)
    moreover have "active_admin (apply_update h input u)" if "active_admin u" for u
    proof -
      have "uu_role input \<noteq> Some USER" "uu_status input \<noteq> Some DISABLED" using False by auto
      then show ?thesis using that
        by (cases "uu_role input"; cases "uu_status input"; cases "the (uu_role input)"; cases "the (uu_status input)")
           (auto simp: active_admin_def apply_update_def)
    qed
    ultimately show ?thesis by (intro bexI [of _ u]) auto
  next
    case True
    show ?thesis
    proof (cases "count_admins d \<le> 1")
      case False
      then obtain u where "u \<in> set (db_users d)" "active_admin u" "u_id u \<noteq> i"
        using another_admin [of d i] assms(1) by (auto simp: users_ok_def)
      then show ?thesis by (intro bexI [of _ u]) auto
    next
      case le: True
      obtain u where u: "u \<in> set (db_users d)" "active_admin u"
        using assms(1) by (auto simp: users_ok_def count_admins_pos)
      have "u_id u \<noteq> i"
        using find_user_row [OF _ u(1)] u(2) assms(1,3) True le
        by (auto simp: removes_last_admin_def get_user_by_id_def public_user_select_def users_ok_def active_admin_def)
      then show ?thesis using u by (intro bexI [of _ u]) auto
    qed
  qed
  ultimately show ?thesis by (auto simp: users_ok_def count_admins_pos d' simp del: if_image_distrib)
qed

lemma update_user_ok:
  assumes "users_ok (sv_db s)" and "update_user h i input s = Some (s', u)" and "\<not> removes_last_admin i input (sv_db s)"
  shows "users_ok (sv_db s')"
proof -
  obtain d where d: "update_user_row i (apply_update h input) (sv_db s) = Some d"
    using assms(2) by (auto simp: update_user_def split: option.splits)
  have "sv_db s' \<in> {d, fst (destroy_all_user_sessions i d)}"
    using assms(2) d by (auto simp: update_user_def Let_def case_prod_unfold split: if_splits)
  then show ?thesis using update_row_users_ok [OF assms(1) d assms(3)] destroy_all_ok by auto
qed

lemma delete_user_ok:
  assumes "users_ok (sv_db s)" and "find_user (sv_db s) i \<noteq> None
      \<Longrightarrow> u_role (the (find_user (sv_db s) i)) = ADMIN \<Longrightarrow> \<not> count_admins (sv_db s) \<le> 1"
  shows "users_ok (sv_db (fst (delete_user i s)))"
proof -
  define d where "d = fst (destroy_all_user_sessions i (sv_db s))"
  have d: "users_ok d" unfolding d_def by (rule destroy_all_ok [OF assms(1)])
  have us: "db_users d = db_users (sv_db s)" by (simp add: d_def destroy_all_user_sessions_def)
  show ?thesis
  proof (cases "delete_user_row i d")
    case None
    then show ?thesis using d by (simp add: delete_user_def case_prod_unfold d_def)
  next
    case (Some d')
    have rows: "db_users d' = filter (\<lambda>u. u_id u \<noteq> i) (db_users d)"
      using Some by (auto simp: delete_user_row_def Let_def split: option.splits)
    obtain u where u: "u \<in> set (db_users d)" "active_admin u" "u_id u \<noteq> i"
    proof (cases "find_user (sv_db s) i \<noteq> None \<and> u_role (the (find_user (sv_db s) i)) = ADMIN")
      case True
      then show ?thesis using that another_admin [of "sv_db s" i] assms us by (auto simp: users_ok_def)
    next
      case False
      obtain u where "u \<in> set (db_users d)" "active_admin u" using d by (auto simp: users_ok_def count_admins_pos)
      moreover from this have "u_id u \<noteq> i"
        using False find_user_row [of "sv_db s" u] assms(1) us by (auto simp: users_ok_def active_admin_def)
      ultimately show ?thesis by (rule that)
    qed
    have "db_ok d'" using delete_user_row_ok [OF _ Some] d by (simp add: users_ok_def)
    moreover have "names_ok d'" using d by (simp add: users_ok_def names_ok_def rows distinct_map_filter)
    moreover have "0 < count_admins d'" unfolding count_admins_pos rows using u by auto
    ultimately have "users_ok d'" by (simp add: users_ok_def)
    then show ?thesis using Some by (simp add: delete_user_def case_prod_unfold flip: d_def)
  qed
qed

lemma user_step_ok:
  assumes "users_ok (sv_db s)"
  shows "users_ok (sv_db (user_step low hash ev s))"
proof -
  obtain now rq e where ev: "ev = (now, rq, e)" by (cases ev)
  show ?thesis
  proof (cases e)
    case (U_create i body)
    then show ?thesis using assms ev
      by (auto simp: post_user_def split: option.splits intro: create_user_ok parse_create_name)
  next
    case (U_update i body)
    then show ?thesis using assms ev
      by (auto simp: patch_user_def finish_patch_user_def split: option.splits intro: update_user_ok)
  next
    case (U_delete i)
    have "users_ok (sv_db (fst (delete_user i s)))"
      if "\<not> ((case get_user_by_id i (sv_db s) of None \<Rightarrow> False | Some u \<Rightarrow> pu_role u = ADMIN) \<and> count_admins (sv_db s) \<le> 1)"
      by (rule delete_user_ok [OF assms])
         (use that in \<open>auto simp: get_user_by_id_def public_user_select_def\<close>)
    then show ?thesis using U_delete assms ev
      by (auto simp: delete_user_route_def split: option.splits bool.splits prod.splits)
  qed
qed

interpretation user_management: stepwise "user_step low hash" "\<lambda>s. users_ok (sv_db s)" for low hash
  by unfold_locales (rule user_step_ok)

section \<open>Properties\<close>

text \<open>
  C8. However admins create, change and delete users, one request after another, there always remains
  an active admin, user names stay unique up to letter case, and no row refers to a deleted one.
\<close>

theorem user_management_is_safe:
  assumes "users_ok (sv_db s)"
  shows "let d = sv_db (fold (user_step low hash) evs s) in
     0 < count_admins d \<and> distinct (map (\<lambda>u. nocase (u_name u)) (db_users d)) \<and> db_ok d"
  using user_management.run_inv [OF assms, of low hash evs] by (simp add: users_ok_def names_ok_def Let_def)

definition demo_admin_request :: "string \<Rightarrow> request" where
  "demo_admin_request n = \<lparr>rq_method = PATCH, rq_route = [], rq_ip = [1], rq_origin = None, rq_cookie = None,
     rq_csrf = Some [1], rq_agent = None,
     rq_session = Some \<lparr>sc_id = [1], sc_csrf = [1], sc_user = js n, sc_name = js n, sc_role = ADMIN, sc_status = ACTIVE\<rparr>\<rparr>"

definition demo_service :: service where
  "demo_service = start_service (empty_db\<lparr>db_users := [demo_user ''ann'' ADMIN, demo_user ''bob'' ADMIN]\<rparr>)"

lemma demo_service_ok: "users_ok (sv_db demo_service)"
  by (simp add: users_ok_def db_ok_def keys_ok_def refs_ok_def names_ok_def count_admins_def demo_service_def
      demo_user_def start_service_def empty_db_def nocase_def js_def)

theorem user_management_is_safe_witness:
  "0 < count_admins (sv_db (fold (user_step (\<lambda>c. [c]) id)
     [(0, demo_admin_request ''ann'', U_delete (js ''bob'')), (1, demo_admin_request ''bob'', U_delete (js ''ann''))] demo_service))"
  using user_management_is_safe [OF demo_service_ok, of "\<lambda>c. [c]" id
      "[(0, demo_admin_request ''ann'', U_delete (js ''bob'')), (1, demo_admin_request ''bob'', U_delete (js ''ann''))]"]
  by (simp only: Let_def)

text \<open>
  C9. The check for the last admin does not survive overlapping requests: with two admins left, two
  requests that each demote one of them can both pass the check before either update, and then no
  admin is left.
\<close>

theorem overlapping_demotions_remove_all_admins:
  "\<exists>s a b input. count_admins (sv_db s) = 2
     \<and> \<not> removes_last_admin a input (sv_db s) \<and> \<not> removes_last_admin b input (sv_db s)
     \<and> (let s1 = fst (finish_patch_user low hash now a input rq s);
            s2 = fst (finish_patch_user low hash now b input rq s1)
        in count_admins (sv_db s2) = 0)"
proof -
  let ?i = "\<lparr>uu_password = None, uu_role = Some USER, uu_status = None, uu_mc = None\<rparr>"
  let ?s1 = "fst (finish_patch_user low hash now (js ''ann'') ?i rq demo_service)"
  have "count_admins (sv_db demo_service) = 2"
    by (simp add: count_admins_def demo_service_def demo_user_def start_service_def)
  moreover from this have "\<not> removes_last_admin (js ''ann'') ?i (sv_db demo_service)"
    "\<not> removes_last_admin (js ''bob'') ?i (sv_db demo_service)" by (simp_all add: removes_last_admin_def)
  moreover have "count_admins (sv_db (fst (finish_patch_user low hash now (js ''bob'') ?i rq ?s1))) = 0"
    by (simp add: finish_patch_user_def update_user_def update_user_row_def find_user_def demo_service_def
        start_service_def demo_user_def audit_def destroy_all_user_sessions_def apply_update_def count_admins_def Let_def)
  ultimately show ?thesis by (intro exI [of _ demo_service] exI [of _ "js ''ann''"] exI [of _ "js ''bob''"] exI [of _ ?i]) simp
qed

text \<open>
  Disabling a user, changing the role or resetting the password ends every session of that user
  at once, and the open sockets are told.
\<close>

theorem user_changes_end_sessions:
  assumes "update_user hash i input s = Some (s', u)"
    and "uu_status input = Some DISABLED \<or> uu_role input \<noteq> None \<or> uu_password input \<noteq> None"
  shows "i \<notin> se_user ` set (db_sessions (sv_db s')) \<and> Revoked_user i \<in> set (revocations s')"
  using assms
  by (auto simp: update_user_def Let_def destroy_all_user_sessions_def split: option.splits)

theorem user_changes_end_sessions_witness:
  "\<exists>s' u. update_user id (js ''bob'') \<lparr>uu_password = Some [1], uu_role = None, uu_status = None, uu_mc = None\<rparr> demo_service
     = Some (s', u) \<and> Revoked_user (js ''bob'') \<in> set (revocations s')"
proof -
  let ?i = "\<lparr>uu_password = Some [1], uu_role = None, uu_status = None, uu_mc = None\<rparr>"
  obtain s' u where u: "update_user id (js ''bob'') ?i demo_service = Some (s', u)"
    by (simp add: update_user_def update_user_row_def find_user_def demo_service_def
        start_service_def demo_user_def destroy_all_user_sessions_def apply_update_def)
  from user_changes_end_sessions [OF u] show ?thesis using u by auto
qed

end
