(* ===== verification/Auth_Routes.thy ===== *)
theory Auth_Routes
  imports Users_Props
begin

text \<open>
  \<^verbatim>\<open>backend/src/auth/routes.ts\<close>, \<^verbatim>\<open>password.ts\<close> and \<^verbatim>\<open>bootstrapAdmin.ts\<close>: login, logout, password change and
  the first admin. Parameters: \<open>verify\<close> is \<^verbatim>\<open>argon2.verify\<close> (\<open>None\<close> when it throws), \<open>hash\<close> its hash,
  \<open>sid\<close> and \<open>csrf\<close> the random strings of a new session.
\<close>

definition verify_password :: "(jstr \<Rightarrow> jstr \<Rightarrow> bool option) \<Rightarrow> jstr \<Rightarrow> jstr \<Rightarrow> bool" where
  "verify_password verify hash password = (case verify hash password of None \<Rightarrow> False | Some b \<Rightarrow> b)"

definition parse_login :: "json \<Rightarrow> (jstr \<times> jstr) option" where
  "parse_login body = (if \<not> is_object body then None else
     case (z_trimmed 1 64 (json_field body ''username''), z_string 1 256 (json_field body ''password'')) of
       (Some n, Some p) \<Rightarrow> Some (n, p) | _ \<Rightarrow> None)"

definition parse_change_password :: "json \<Rightarrow> (jstr \<times> jstr) option" where
  "parse_change_password body = (if \<not> is_object body then None else
     case (z_string 1 256 (json_field body ''currentPassword''), z_string 8 256 (json_field body ''newPassword'')) of
       (Some a, Some b) \<Rightarrow> Some (a, b) | _ \<Rightarrow> None)"

text \<open>What a successful login or password change sets as cookies, and sends.\<close>

record login_answer =
  la_session_cookie :: jstr
  la_csrf_cookie :: jstr
  la_id :: jstr
  la_name :: jstr
  la_role :: role

definition login_user :: "jstr \<Rightarrow> db \<Rightarrow> user_row option" where
  "login_user name d = (case find_username_matches name d of [i] \<Rightarrow> find_user d i | _ \<Rightarrow> None)"

text \<open>An empty address cannot occur behind the server and counts as none.\<close>

definition post_login :: "(code_unit \<Rightarrow> jstr) \<Rightarrow> (jstr \<Rightarrow> jstr \<Rightarrow> bool option) \<Rightarrow> jstr \<Rightarrow> int \<Rightarrow> int \<Rightarrow> jstr \<Rightarrow> jstr \<Rightarrow> json
    \<Rightarrow> request \<Rightarrow> service \<Rightarrow> service \<times> login_answer reply" where
  "post_login low verify dummy ttl now sid csrf body rq s =
     (case parse_login body of
        None \<Rightarrow> (s, Rejected)
      | Some (name, password) \<Rightarrow>
          (let user = login_user name (sv_db s);
               valid = verify_password verify (case user of None \<Rightarrow> dummy | Some u \<Rightarrow> u_hash u) password in
           case user of
             Some u \<Rightarrow>
               if u_status u = DISABLED \<or> \<not> valid
               then (fst (register_failed_login now (Some (rq_ip rq)) s), Refused 401 (js ''Invalid username or password''))
               else
                 (let s1 = clear_failed_logins (Some (rq_ip rq)) s;
                      d1 = create_session ttl now sid csrf (u_id u) (rq_agent rq) (Some (rq_ip rq)) (sv_db s1) in
                  case update_user_row (u_id u) (\<lambda>r. r\<lparr>u_last_login := Some now\<rparr>) d1 of
                    None \<Rightarrow> (s1\<lparr>sv_db := d1\<rparr>, Crashed)
                  | Some d2 \<Rightarrow>
                      (s1\<lparr>sv_db := record_audit_log low now (Some (u_id u)) ''USER_LOGIN'' (Some ''User'') (Some (u_id u)) None d2\<rparr>,
                       Answered 200 \<lparr>la_session_cookie = sid, la_csrf_cookie = csrf, la_id = u_id u,
                         la_name = u_name u, la_role = u_role u\<rparr>))
           | None \<Rightarrow>
               (fst (register_failed_login now (Some (rq_ip rq)) s), Refused 401 (js ''Invalid username or password''))))"

definition post_logout :: "(code_unit \<Rightarrow> jstr) \<Rightarrow> int \<Rightarrow> request \<Rightarrow> service \<Rightarrow> service \<times> unit reply" where
  "post_logout low now = guarded [require_auth, require_csrf] (\<lambda>rq s.
     case rq_session rq of
       None \<Rightarrow> (s, Answered 200 ())
     | Some sc \<Rightarrow> (case destroy_session (sc_id sc) (sv_db s) of
           (d, r) \<Rightarrow> (audit low now rq ''USER_LOGOUT'' None None None
               (s\<lparr>sv_db := d, revocations := revocations s @ [r]\<rparr>), Answered 200 ())))"

definition get_me :: "request \<Rightarrow> service \<Rightarrow> service \<times> session_context reply" where
  "get_me = guarded [require_auth] (\<lambda>rq s. (s, case rq_session rq of None \<Rightarrow> Crashed | Some sc \<Rightarrow> Answered 200 sc))"

definition post_change_password :: "(code_unit \<Rightarrow> jstr) \<Rightarrow> (jstr \<Rightarrow> jstr \<Rightarrow> bool option) \<Rightarrow> (jstr \<Rightarrow> jstr) \<Rightarrow> int \<Rightarrow> int
    \<Rightarrow> jstr \<Rightarrow> jstr \<Rightarrow> json \<Rightarrow> request \<Rightarrow> service \<Rightarrow> service \<times> (jstr \<times> jstr) reply" where
  "post_change_password low verify hash ttl now sid csrf body = guarded [require_auth, require_csrf] (\<lambda>rq s.
     case (parse_change_password body, rq_session rq) of
       (Some (old, new), Some sc) \<Rightarrow>
         (case find_user (sv_db s) (sc_user sc) of
            None \<Rightarrow> (s, Refused 401 (js ''Current password is incorrect''))
          | Some u \<Rightarrow>
              if \<not> verify_password verify (u_hash u) old then (s, Refused 401 (js ''Current password is incorrect''))
              else (case update_user_row (u_id u) (\<lambda>r. r\<lparr>u_hash := hash new\<rparr>) (sv_db s) of
                  None \<Rightarrow> (s, Crashed)
                | Some d1 \<Rightarrow> (case destroy_all_user_sessions (u_id u) d1 of
                    (d2, r) \<Rightarrow>
                      (let d3 = create_session ttl now sid csrf (u_id u) (rq_agent rq) (Some (rq_ip rq)) d2 in
                       (s\<lparr>sv_db := record_audit_log low now (Some (u_id u)) ''USER_CHANGE_PASSWORD'' (Some ''User'') (Some (u_id u)) None d3,
                          revocations := revocations s @ [r]\<rparr>,
                        Answered 200 (sid, csrf))))))
     | (Some _, None) \<Rightarrow> (s, Crashed)
     | _ \<Rightarrow> (s, Rejected))"

text \<open>The first admin is created only while no user has the role, disabled or not.\<close>

definition bootstrap_admin :: "(jstr \<Rightarrow> jstr) \<Rightarrow> int \<Rightarrow> jstr \<Rightarrow> jstr \<Rightarrow> jstr \<Rightarrow> db \<Rightarrow> db option" where
  "bootstrap_admin hash now i name password d =
     (if list_ex (\<lambda>u. u_role u = ADMIN) (db_users d) then Some d
      else if password = [] then Some d
      else map_option fst (create_user hash now i \<lparr>cu_name = name, cu_password = password, cu_role = ADMIN, cu_mc = None\<rparr> d))"

section \<open>Lemmas\<close>

lemma take2_single: "take 2 xs = [x] \<Longrightarrow> xs = [x]"
  by (cases xs; cases "tl xs") auto

lemma login_user_Some:
  assumes "login_user name d = Some u"
  shows "\<exists>v. filter (\<lambda>v. nocase (u_name v) = nocase (trim name)) (db_users d) = [v] \<and> u_id v = u_id u"
    and "u \<in> set (db_users d)"
proof -
  obtain i where i: "find_username_matches name d = [i]" "find_user d i = Some u"
    using assms by (auto simp: login_user_def split: list.splits)
  have "map u_id (filter (\<lambda>v. nocase (u_name v) = nocase (trim name)) (db_users d)) = [i]"
    using i(1) unfolding find_username_matches_def by (rule take2_single)
  then show "\<exists>v. filter (\<lambda>v. nocase (u_name v) = nocase (trim name)) (db_users d) = [v] \<and> u_id v = u_id u"
    using find_user_Some [OF i(2)] by auto
  show "u \<in> set (db_users d)" using find_user_Some [OF i(2)] by simp
qed

lemma same_id_same_user: "db_ok d \<Longrightarrow> u \<in> set (db_users d) \<Longrightarrow> v \<in> set (db_users d) \<Longrightarrow> u_id u = u_id v \<Longrightarrow> u = v"
  by (metis find_user_row option.inject)

lemma create_session_find:
  "find_session d sid = None \<Longrightarrow> find_session (create_session ttl now sid csrf u ag ip d) sid
     = Some \<lparr>se_id = sid, se_user = u, se_csrf = csrf, se_created = now,
        se_expires = now + ttl * 60 * 60 * 1000, se_agent = ag, se_ip = ip\<rparr>"
  by (simp add: find_session_def create_session_def find_append)

lemma create_session_users [simp]: "find_user (create_session ttl now sid csrf u ag ip d) = find_user d"
  by (simp add: fun_eq_iff find_user_def create_session_def)

lemma clear_failed_db [simp]: "sv_db (clear_failed_logins a s) = sv_db s"
  by (simp add: clear_failed_logins_def split: option.splits)

lemma register_failed_sessions [simp]:
  "db_sessions (sv_db (fst (register_failed_login now a s))) = db_sessions (sv_db s)"
  by (auto simp: register_failed_login_def Let_def ban_ip_def upsert_ban_def split: option.splits)

lemma login_answered:
  assumes "post_login low verify dummy ttl now sid csrf body rq s = (s', Answered c a)"
  obtains name password u d2 where "parse_login body = Some (name, password)"
    and "login_user name (sv_db s) = Some u" and "u_status u = ACTIVE"
    and "verify_password verify (u_hash u) password"
    and "update_user_row (u_id u) (\<lambda>r. r\<lparr>u_last_login := Some now\<rparr>)
       (create_session ttl now sid csrf (u_id u) (rq_agent rq) (Some (rq_ip rq)) (sv_db s)) = Some d2"
    and "sv_db s' = record_audit_log low now (Some (u_id u)) ''USER_LOGIN'' (Some ''User'') (Some (u_id u)) None d2"
    and "la_session_cookie a = sid" and "la_csrf_cookie a = csrf" and "la_id a = u_id u"
proof -
  obtain name password where p: "parse_login body = Some (name, password)"
    using assms by (auto simp: post_login_def split: option.splits)
  obtain u where u: "login_user name (sv_db s) = Some u"
    using assms p by (cases "login_user name (sv_db s)") (auto simp: post_login_def Let_def)
  have ok: "u_status u \<noteq> DISABLED" "verify_password verify (u_hash u) password"
    using assms p u by (auto simp: post_login_def Let_def split: if_splits)
  then have "u_status u = ACTIVE" by (cases "u_status u") auto
  moreover obtain d2 where "update_user_row (u_id u) (\<lambda>r. r\<lparr>u_last_login := Some now\<rparr>)
       (create_session ttl now sid csrf (u_id u) (rq_agent rq) (Some (rq_ip rq)) (sv_db s)) = Some d2"
    using assms p u ok by (auto simp: post_login_def Let_def split: option.splits)
  ultimately show thesis
    using assms p u ok by (intro that [of name password u d2]) (auto simp: post_login_def Let_def)
qed

lemma login_refused:
  assumes "post_login low verify dummy ttl now sid csrf body rq s = (s', answer)" and "\<And>c a. answer \<noteq> Answered c a"
  shows "db_sessions (sv_db s') = db_sessions (sv_db s)"
proof (cases "parse_login body")
  case None
  then show ?thesis using assms(1) by (simp add: post_login_def)
next
  case (Some np)
  obtain name password where np: "parse_login body = Some (name, password)" using Some by (cases np) simp
  show ?thesis
  proof (cases "login_user name (sv_db s)")
    case None
    then show ?thesis using assms(1) np by (auto simp: post_login_def)
  next
    case (Some u)
    have "find_user (sv_db s) (u_id u) \<noteq> None" using login_user_Some(2) [OF Some] by (simp add: find_user_None)
    then have "u_status u = DISABLED \<or> \<not> verify_password verify (u_hash u) password"
      using assms np Some by (auto simp: post_login_def Let_def update_user_row_def split: if_splits)
    then show ?thesis using assms(1) np Some by (auto simp: post_login_def Let_def)
  qed
qed

section \<open>Properties\<close>

text \<open>
  C10. Logging in opens a session exactly for the one active user the name stands for, and only with
  a password that verifies: the new cookie is that user's identity until the session expires, and
  nobody's afterwards. A refused login opens no session.
\<close>

theorem login_opens_the_right_session:
  assumes "db_ok (sv_db s)" and "find_session (sv_db s) sid = None"
    and "post_login low verify dummy ttl now sid csrf body rq s = (s', answer)"
  shows "case answer of
     Answered c a \<Rightarrow> (\<exists>name password u. parse_login body = Some (name, password)
         \<and> filter (\<lambda>v. nocase (u_name v) = nocase (trim name)) (db_users (sv_db s)) = [u]
         \<and> u_status u = ACTIVE \<and> verify_password verify (u_hash u) password
         \<and> (\<forall>t. snd (get_session t (la_session_cookie a) (sv_db s')) =
              (if t \<le> now + ttl * 3600000
               then Some \<lparr>sc_id = sid, sc_csrf = la_csrf_cookie a, sc_user = u_id u, sc_name = u_name u,
                          sc_role = u_role u, sc_status = ACTIVE\<rparr>
               else None)))
   | _ \<Rightarrow> db_sessions (sv_db s') = db_sessions (sv_db s)"
proof (cases answer)
  case (Answered c a)
  from login_answered [OF assms(3) [unfolded Answered]] obtain name password u d2 where
    p: "parse_login body = Some (name, password)" and u: "login_user name (sv_db s) = Some u"
    and st: "u_status u = ACTIVE" "verify_password verify (u_hash u) password"
    and d2: "update_user_row (u_id u) (\<lambda>r. r\<lparr>u_last_login := Some now\<rparr>)
       (create_session ttl now sid csrf (u_id u) (rq_agent rq) (Some (rq_ip rq)) (sv_db s)) = Some d2"
    and s': "sv_db s' = record_audit_log low now (Some (u_id u)) ''USER_LOGIN'' (Some ''User'') (Some (u_id u)) None d2"
    and a: "la_session_cookie a = sid" "la_csrf_cookie a = csrf" by metis
  obtain v where v: "filter (\<lambda>v. nocase (u_name v) = nocase (trim name)) (db_users (sv_db s)) = [v]" "u_id v = u_id u"
    using login_user_Some(1) [OF u] by blast
  have "v \<in> set (db_users (sv_db s))" using arg_cong [OF v(1), of set] by auto
  then have vu: "v = u" using same_id_same_user [OF assms(1) _ login_user_Some(2) [OF u]] v(2) by blast
  have fu: "find_user (sv_db s) (u_id u) = Some u"
    by (rule find_user_row [OF assms(1) login_user_Some(2) [OF u]])
  have "find_session d2 sid = find_session (create_session ttl now sid csrf (u_id u) (rq_agent rq) (Some (rq_ip rq)) (sv_db s)) sid"
    unfolding update_user_row_users [OF d2] by (simp add: find_session_def)
  then have "snd (get_session t sid (sv_db s')) =
              (if t \<le> now + ttl * 3600000
               then Some \<lparr>sc_id = sid, sc_csrf = csrf, sc_user = u_id u, sc_name = u_name u,
                          sc_role = u_role u, sc_status = ACTIVE\<rparr>
               else None)" for t
    using fu st create_session_find [OF assms(2)] by (simp add: get_session_def s' update_user_row_find [OF d2])
  then show ?thesis using Answered p v vu st a by auto
qed (use login_refused [OF assms(3)] in auto)


definition demo_login :: json where
  "demo_login = JObj [(js ''username'', JStr (js '' ANN '')), (js ''password'', JStr [1])]"

theorem login_opens_the_right_session_witness:
  "\<exists>s' c a. post_login (\<lambda>c. [c]) (\<lambda>h p. Some True) [] 1 0 [7] [8] demo_login (demo_admin_request ''ann'') demo_service
       = (s', Answered c a)
     \<and> map_option sc_user (snd (get_session 3600000 (la_session_cookie a) (sv_db s'))) = Some (js ''ann'')"
proof -
  let ?r = "post_login (\<lambda>c. [c]) (\<lambda>h p. Some True) [] 1 0 [7] [8] demo_login (demo_admin_request ''ann'') demo_service"
  have "map_option la_id (answer_of (snd ?r)) = Some (js ''ann'')" by code_simp
  then obtain s' c a where r: "?r = (s', Answered c a)" by (cases ?r) (auto simp: answer_of_Some)
  have f: "find_session (sv_db demo_service) [7] = None"
    by (simp add: find_session_def demo_service_def start_service_def empty_db_def)
  have "filter (\<lambda>v. nocase (u_name v) = nocase (trim (js ''ANN''))) (db_users (sv_db demo_service)) = [demo_user ''ann'' ADMIN]"
    by code_simp
  moreover have "parse_login demo_login = Some (js ''ANN'', [1])" by code_simp
  ultimately show ?thesis
    using login_opens_the_right_session [OF _ f r] demo_service_ok r
    by (fastforce simp: users_ok_def demo_user_def)
qed

lemma update_user_row_users_exist:
  "update_user_row i f d = Some d' \<Longrightarrow> db_sessions d' = db_sessions d"
  by (auto simp: update_user_row_def split: option.splits)

text \<open>
  Changing the password needs the current one, and it ends every other session of the user: the
  only session left is the one just opened for the browser that asked.
\<close>

theorem password_change_leaves_one_session:
  assumes "post_change_password low verify hash ttl now sid csrf body rq s = (s', Answered c a)"
  shows "\<exists>sc u old new. rq_session rq = Some sc \<and> parse_change_password body = Some (old, new)
     \<and> find_user (sv_db s) (sc_user sc) = Some u \<and> verify_password verify (u_hash u) old
     \<and> map_option u_hash (find_user (sv_db s') (sc_user sc)) = Some (hash new)
     \<and> map se_id (filter (\<lambda>x. se_user x = sc_user sc) (db_sessions (sv_db s'))) = [fst a]
     \<and> Revoked_user (sc_user sc) \<in> set (revocations s')"
proof -
  obtain sc where sc: "rq_session rq = Some sc" and csrf: "require_csrf rq = (None :: (jstr \<times> jstr) reply option)"
      "require_auth rq = (None :: (jstr \<times> jstr) reply option)"
    using assms by (auto simp: post_change_password_def require_auth_def require_csrf_def split: option.splits if_splits)
  have h: "(case (parse_change_password body, rq_session rq) of (Some (old, new), Some sc) \<Rightarrow> True | _ \<Rightarrow> False)"
    using assms sc csrf by (auto simp: post_change_password_def require_auth_def split: option.splits)
  then obtain old new where p: "parse_change_password body = Some (old, new)" by (auto split: option.splits)
  obtain u where u: "find_user (sv_db s) (sc_user sc) = Some u"
    using assms sc csrf p by (auto simp: post_change_password_def split: option.splits)
  have v: "verify_password verify (u_hash u) old"
    using assms sc csrf p u by (auto simp: post_change_password_def split: if_splits)
  have id: "u_id u = sc_user sc" using find_user_Some [OF u] by simp
  obtain d1 where d1: "update_user_row (u_id u) (\<lambda>r. r\<lparr>u_hash := hash new\<rparr>) (sv_db s) = Some d1"
    using u id by (auto simp: update_user_row_def)
  have "s' = s\<lparr>sv_db := record_audit_log low now (Some (u_id u)) ''USER_CHANGE_PASSWORD'' (Some ''User'') (Some (u_id u)) None
         (create_session ttl now sid csrf (u_id u) (rq_agent rq) (Some (rq_ip rq)) (fst (destroy_all_user_sessions (u_id u) d1))),
       revocations := revocations s @ [Revoked_user (u_id u)]\<rparr>" and a: "a = (sid, csrf)"
    using assms sc csrf p u v d1
    by (auto simp: post_change_password_def destroy_all_user_sessions_def Let_def)
  moreover have "find_user (fst (destroy_all_user_sessions i d)) = find_user d" for i d
    by (simp add: fun_eq_iff find_user_def destroy_all_user_sessions_def)
  moreover have "find_user d1 (sc_user sc) = Some (u\<lparr>u_hash := hash new\<rparr>)"
    using update_user_row_find [OF d1] u id by simp
  moreover have "filter (\<lambda>x. se_user x = i) (db_sessions (create_session ttl now sid csrf i ag ip (fst (destroy_all_user_sessions i d1))))
      = [\<lparr>se_id = sid, se_user = i, se_csrf = csrf, se_created = now, se_expires = now + ttl * 60 * 60 * 1000, se_agent = ag, se_ip = ip\<rparr>]" for i ag ip
    by (simp add: create_session_def destroy_all_user_sessions_def)
  ultimately show ?thesis
    using sc p u v id by (intro exI [of _ sc] exI [of _ u] exI [of _ old] exI [of _ new]) simp
qed

theorem password_change_leaves_one_session_witness:
  "\<exists>s' c a. post_change_password (\<lambda>c. [c]) (\<lambda>h p. Some True) id 1 0 [7] [8]
       (JObj [(js ''currentPassword'', JStr [1]), (js ''newPassword'', JStr (js ''longenough''))])
       (demo_admin_request ''ann'') demo_service = (s', Answered c a)
     \<and> Revoked_user (js ''ann'') \<in> set (revocations s')"
proof -
  let ?r = "post_change_password (\<lambda>c. [c]) (\<lambda>h p. Some True) id 1 0 [7] [8]
       (JObj [(js ''currentPassword'', JStr [1]), (js ''newPassword'', JStr (js ''longenough''))])
       (demo_admin_request ''ann'') demo_service"
  have "answer_of (snd ?r) = Some ([7], [8])" by code_simp
  then obtain s' c a where r: "?r = (s', Answered c a)" by (cases ?r) (auto simp: answer_of_Some)
  then show ?thesis using password_change_leaves_one_session [OF r]
    by (auto simp: demo_admin_request_def)
qed

text \<open>
  C11. Only a live admin changes the users: when a request to the user management has any effect, its
  cookie is a session that has not expired, of a user who is an active admin at that moment, and for
  a method that changes state it carries the token of that session.
\<close>

theorem only_live_admins_change_users:
  assumes "attach_session now rq0 (sv_db s) = (d, rq)" and "\<not> public_route (rq_route rq0)"
    and "user_step low hash (now, rq, ev) (s\<lparr>sv_db := d\<rparr>) \<noteq> s\<lparr>sv_db := d\<rparr>"
  shows "\<exists>x u. x \<in> set (db_sessions (sv_db s)) \<and> Some (se_id x) = rq_cookie rq0 \<and> now \<le> se_expires x
     \<and> u \<in> set (db_users (sv_db s)) \<and> u_id u = se_user x \<and> active_admin u
     \<and> (safe_method (rq_method rq0) \<or> rq_csrf rq0 = Some (se_csrf x))"
proof -
  have g: "require_admin rq = (None :: unit reply option) \<and> require_csrf rq = (None :: unit reply option)"
    using assms(3)
    by (cases ev) (auto simp: post_user_def patch_user_def delete_user_route_def require_admin_def require_csrf_def
        split: option.splits if_splits)
  then obtain sc where sc: "rq_session rq = Some sc" "sc_role sc = ADMIN"
    and c: "safe_method (rq_method rq) \<or> rq_csrf rq = Some (sc_csrf sc)"
    by (auto simp: require_admin_None require_csrf_None)
  obtain sid where sid: "rq_cookie rq0 = Some sid" and gs: "get_session now sid (sv_db s) = (d, Some sc)"
    and rq: "rq = rq0\<lparr>rq_session := Some sc\<rparr>"
    using assms(1,2) sc(1) by (auto simp: attach_session_def split: option.splits if_splits prod.splits)
  from get_session_context(2) [OF gs] obtain x u where "x \<in> set (db_sessions (sv_db s))" "se_id x = sid"
    "now \<le> se_expires x" "u \<in> set (db_users (sv_db s))" "u_id u = se_user x" "u_status u = ACTIVE"
    "sc_role sc = u_role u" "sc_csrf sc = se_csrf x" by auto
  then show ?thesis using sc c rq sid by (intro exI [of _ x] exI [of _ u]) (auto simp: active_admin_def)
qed

definition demo_live_service :: service where
  "demo_live_service = demo_service\<lparr>sv_db := create_session 1 0 [5] [6] (js ''ann'') None None (sv_db demo_service)\<rparr>"

definition demo_live_request :: request where
  "demo_live_request = (demo_admin_request ''ann'')\<lparr>rq_cookie := Some [5], rq_csrf := Some [6], rq_session := None\<rparr>"

theorem only_live_admins_change_users_witness:
  "\<exists>x u. x \<in> set (db_sessions (sv_db demo_live_service)) \<and> se_id x = [5] \<and> u_id u = se_user x \<and> active_admin u"
proof -
  obtain d rq where a: "attach_session 9 demo_live_request (sv_db demo_live_service) = (d, rq)" by force
  have r: "rq = snd (attach_session 9 demo_live_request (sv_db demo_live_service))"
    and d: "d = fst (attach_session 9 demo_live_request (sv_db demo_live_service))" by (simp_all add: a)
  let ?s = "demo_live_service\<lparr>sv_db := d\<rparr>"
  have "map u_id (db_users (sv_db (user_step (\<lambda>c. [c]) id (9, rq, U_delete (js ''bob'')) ?s))) = [js ''ann'']"
    unfolding r d by code_simp
  moreover have "map u_id (db_users (sv_db ?s)) = [js ''ann'', js ''bob'']" unfolding d by code_simp
  ultimately have n: "user_step (\<lambda>c. [c]) id (9, rq, U_delete (js ''bob'')) ?s \<noteq> ?s" by auto
  have p: "\<not> public_route (rq_route demo_live_request)" by code_simp
  from only_live_admins_change_users [OF a p n] show ?thesis by (auto simp: demo_live_request_def)
qed

end
