(* ===== verification/Status_Persistence.thy ===== *)
theory Status_Persistence
  imports Client_Types Afk_Prelude
begin

text \<open>
  \<^verbatim>\<open>backend/src/minecraft/statusPersistence.ts\<close>: the status of a client is written on transitions only,
  one write after the other. The chain of promises is the list of writes that have not ended; the first
  is in flight and its outcome comes from outside. \<open>sp_stored\<close> is what the database holds.
\<close>

record status_writer =
  sp_last :: "client_status option"
  sp_pending :: "client_status list"
  sp_stored :: client_status
  sp_errors :: nat

definition create_status_persistence :: "client_status \<Rightarrow> status_writer" where
  "create_status_persistence initial = \<lparr>sp_last = Some initial, sp_pending = [], sp_stored = initial, sp_errors = 0\<rparr>"

definition persist_status :: "client_status \<Rightarrow> status_writer \<Rightarrow> status_writer" where
  "persist_status st w =
     (if sp_last w = Some st then w else w\<lparr>sp_last := Some st, sp_pending := sp_pending w @ [st]\<rparr>)"

definition status_written :: "bool \<Rightarrow> status_writer \<Rightarrow> status_writer" where
  "status_written ok w = (case sp_pending w of
       [] \<Rightarrow> w
     | st # rest \<Rightarrow>
         if ok then w\<lparr>sp_stored := st, sp_pending := rest\<rparr>
         else w\<lparr>sp_pending := rest, sp_errors := Suc (sp_errors w),
                sp_last := (if sp_last w = Some st then None else sp_last w)\<rparr>)"

datatype status_event = S_persist client_status | S_written bool

fun status_step :: "status_event \<Rightarrow> status_writer \<Rightarrow> status_writer" where
  "status_step (S_persist st) w = persist_status st w"
| "status_step (S_written ok) w = status_written ok w"

definition status_ok :: "status_writer \<Rightarrow> bool" where
  "status_ok w \<longleftrightarrow> (\<forall>st. sp_last w = Some st \<longrightarrow> last (sp_stored w # sp_pending w) = st)"

lemma status_step_ok: "status_ok w \<Longrightarrow> status_ok (status_step e w)"
  by (cases e; cases "sp_pending w") (auto simp: status_ok_def persist_status_def status_written_def)

interpretation status_persistence: stepwise status_step status_ok
  by unfold_locales (rule status_step_ok)

text \<open>The status asked for last, and whether a write has failed.\<close>

fun requested :: "client_status \<Rightarrow> status_event list \<Rightarrow> client_status" where
  "requested st [] = st"
| "requested st (S_persist x # es) = requested x es"
| "requested st (S_written ok # es) = requested st es"

definition no_failure :: "status_event list \<Rightarrow> bool" where
  "no_failure es \<longleftrightarrow> S_written False \<notin> set es"

lemma last_requested:
  assumes "no_failure es" and "sp_last w = Some st"
  shows "sp_last (fold status_step es w) = Some (requested st es)"
  using assms
proof (induction es arbitrary: w st)
  case (Cons e es)
  then show ?case
    by (cases e) (auto simp: no_failure_def persist_status_def status_written_def split: list.splits)
qed simp

text \<open>
  A slow write never overwrites a later one: in every history, when no write is pending, the
  database holds the status that was asked for last, unless its write failed, in which case the next
  request for it is written again.
\<close>

theorem the_last_status_is_stored:
  assumes "sp_pending (fold status_step es (create_status_persistence initial)) = []"
  shows "sp_last (fold status_step es (create_status_persistence initial)) \<in>
      {None, Some (sp_stored (fold status_step es (create_status_persistence initial)))}
     \<and> (no_failure es \<longrightarrow> sp_stored (fold status_step es (create_status_persistence initial)) = requested initial es)"
proof -
  let ?w = "fold status_step es (create_status_persistence initial)"
  have ok: "status_ok ?w"
    by (rule status_persistence.run_inv) (simp add: status_ok_def create_status_persistence_def)
  have l: "sp_last ?w = Some (requested initial es)" if "no_failure es"
    by (rule last_requested [OF that]) (simp add: create_status_persistence_def)
  show ?thesis using ok l assms by (cases "sp_last ?w") (auto simp: status_ok_def)
qed

theorem the_last_status_is_stored_witness:
  "sp_stored (fold status_step [S_persist CONNECTING, S_persist ONLINE, S_written True, S_persist OFFLINE, S_written True,
     S_written True] (create_status_persistence OFFLINE)) = OFFLINE"
proof -
  let ?es = "[S_persist CONNECTING, S_persist ONLINE, S_written True, S_persist OFFLINE, S_written True, S_written True]"
  have "sp_pending (fold status_step ?es (create_status_persistence OFFLINE)) = []"
    by (simp add: create_status_persistence_def persist_status_def status_written_def)
  from the_last_status_is_stored [OF this] show ?thesis by (simp add: no_failure_def)
qed

end
