(* ===== verification/Console_Log.thy ===== *)
theory Console_Log
  imports Database "HOL-Library.List_Lexorder" "HOL-Library.Product_Lexorder"
begin

text \<open>
  \<^verbatim>\<open>backend/src/logging/consoleLogService.ts\<close>: what one batch of console lines does to the table, and the
  pages that are read back. Lines are ordered by time and identifier. Identifiers are created by the
  library, one per row, and are compared as the strings they are.
\<close>

section \<open>Writing\<close>

definition MAX_LOGS_PER_ACCOUNT :: nat where "MAX_LOGS_PER_ACCOUNT = 20000"
definition CONSOLE_HISTORY_PAGE_SIZE :: nat where "CONSOLE_HISTORY_PAGE_SIZE = 2000"

definition log_key :: "log_row \<Rightarrow> int \<times> jstr" where
  "log_key r = (l_created r, l_id r)"

text \<open>The lines of an account, oldest first.\<close>

definition account_logs :: "jstr \<Rightarrow> db \<Rightarrow> log_row list" where
  "account_logs i d = sort_key log_key (filter (\<lambda>r. l_account r = i) (db_logs d))"

text \<open>Everything older than the line at offset \<open>keep - 1\<close> from the newest goes; with fewer lines nothing does.\<close>

definition prune_logs :: "nat \<Rightarrow> jstr \<Rightarrow> db \<Rightarrow> db" where
  "prune_logs keep i d =
     (case drop (keep - 1) (rev (account_logs i d)) of
        [] \<Rightarrow> d
      | oldest # _ \<Rightarrow> d\<lparr>db_logs := filter (\<lambda>r. \<not> (l_account r = i \<and> log_key r < log_key oldest)) (db_logs d)\<rparr>)"

text \<open>One transaction; a line of an account that does not exist, or an identifier that does, fails it.\<close>

definition write_logs :: "log_row list \<Rightarrow> db \<Rightarrow> db option" where
  "write_logs rows d =
     (if list_ex (\<lambda>r. find_account d (l_account r) = None \<or> l_id r \<in> l_id ` set (db_logs d)) rows
         \<or> \<not> distinct (map l_id rows) then None
      else Some (fold (prune_logs MAX_LOGS_PER_ACCOUNT) (uniq (map l_account rows)) (d\<lparr>db_logs := db_logs d @ rows\<rparr>)))"

section \<open>Reading\<close>

text \<open>\<open>limit\<close> is \<open>None\<close> when it was not given or is not a finite number.\<close>

definition log_take :: "rat option \<Rightarrow> nat" where
  "log_take limit = (case limit of
       None \<Rightarrow> CONSOLE_HISTORY_PAGE_SIZE
     | Some x \<Rightarrow> nat (max 1 (min (int CONSOLE_HISTORY_PAGE_SIZE) \<lfloor>x\<rfloor>)))"

definition get_console_logs :: "jstr \<Rightarrow> rat option \<Rightarrow> jstr option \<Rightarrow> db \<Rightarrow> log_row list" where
  "get_console_logs i limit before d =
     (let cursor = (case before of
            None \<Rightarrow> None
          | Some b \<Rightarrow> if b = [] then None else Some (find (\<lambda>r. l_id r = b \<and> l_account r = i) (db_logs d))) in
      case cursor of
        Some None \<Rightarrow> []
      | Some (Some c) \<Rightarrow>
          rev (take (log_take limit) (rev (filter (\<lambda>r. l_created r < l_created c \<or> l_created r = l_created c \<and> l_id r < l_id c)
            (account_logs i d))))
      | None \<Rightarrow> rev (take (log_take limit) (rev (account_logs i d))))"

section \<open>Lemmas\<close>

definition logs_ok :: "db \<Rightarrow> bool" where
  "logs_ok d \<longleftrightarrow> distinct (map l_id (db_logs d))"

lemma set_account_logs: "set (account_logs i d) = {r \<in> set (db_logs d). l_account r = i}"
  by (simp add: account_logs_def)

lemma sorted_account_logs: "sorted (map log_key (account_logs i d))"
  by (simp add: account_logs_def)

lemma distinct_account_logs:
  assumes "logs_ok d"
  shows "distinct (map log_key (account_logs i d))"
proof -
  have i: "inj_on l_id (set (db_logs d))" and d: "distinct (db_logs d)"
    using assms by (simp_all add: logs_ok_def distinct_map)
  have "inj_on log_key (set (account_logs i d))"
    by (rule inj_onI) (use i in \<open>auto simp: log_key_def set_account_logs inj_on_def\<close>)
  then show ?thesis using d by (simp add: distinct_map account_logs_def)
qed

text \<open>In a strictly sorted list, the elements below the one at position \<open>k\<close> are the first \<open>k\<close>.\<close>

lemma strictly_sorted_nth:
  fixes f :: "'a \<Rightarrow> 'b :: linorder"
  assumes "sorted (map f xs)" and "distinct (map f xs)" and "j < length xs" and "k < length xs"
  shows "f (xs ! j) < f (xs ! k) \<longleftrightarrow> j < k"
proof -
  have "f (xs ! j) \<noteq> f (xs ! k)" if "j \<noteq> k"
    using nth_eq_iff_index_eq [OF assms(2), of j k] assms(3,4) that by simp
  moreover have "f (xs ! j) \<le> f (xs ! k)" if "j \<le> k" using sorted_nth_mono [OF assms(1) that] assms(3,4) by simp
  moreover have "f (xs ! k) \<le> f (xs ! j)" if "k \<le> j" using sorted_nth_mono [OF assms(1) that] assms(3,4) by simp
  ultimately show ?thesis by (metis antisym_conv2 leD linorder_le_cases order_less_le)
qed

lemma filter_below_nth:
  fixes f :: "'a \<Rightarrow> 'b :: linorder"
  assumes "sorted (map f xs)" and "distinct (map f xs)" and "k < length xs"
  shows "filter (\<lambda>x. f x < f (xs ! k)) xs = take k xs" and "filter (\<lambda>x. \<not> f x < f (xs ! k)) xs = drop k xs"
proof -
  let ?P = "\<lambda>x. f x < f (xs ! k)"
  have lo: "\<forall>x \<in> set (take k xs). ?P x"
  proof
    fix x assume "x \<in> set (take k xs)"
    then obtain j where "j < k" "x = xs ! j" using assms(3) by (auto simp: in_set_conv_nth)
    then show "?P x" using strictly_sorted_nth [OF assms(1,2), of j k] assms(3) by simp
  qed
  have hi: "\<forall>x \<in> set (drop k xs). \<not> ?P x"
  proof
    fix x assume "x \<in> set (drop k xs)"
    then obtain m where "m < length (drop k xs)" "x = drop k xs ! m" by (auto simp: in_set_conv_nth)
    then show "\<not> ?P x" using strictly_sorted_nth [OF assms(1,2), of "k + m" k] assms(3) by simp
  qed
  have split: "filter Q xs = filter Q (take k xs) @ filter Q (drop k xs)" for Q
    by (metis append_take_drop_id filter_append)
  show "filter ?P xs = take k xs" using lo hi by (simp add: split [of ?P] filter_id_conv filter_empty_conv)
  show "filter (\<lambda>x. \<not> ?P x) xs = drop k xs"
    using lo hi by (simp add: split [of "\<lambda>x. \<not> ?P x"] filter_id_conv filter_empty_conv)
qed

lemma rev_take_rev: "rev (take n (rev xs)) = last_n n xs"
  by (simp add: last_n_def rev_take)

lemma prune_logs_parts [simp]: "db_accounts (prune_logs n i d) = db_accounts d"
  by (simp add: prune_logs_def split: list.splits)

lemma prune_logs_ok: "logs_ok d \<Longrightarrow> logs_ok (prune_logs n i d)"
  by (simp add: prune_logs_def logs_ok_def distinct_map_filter split: list.splits)

lemma filter_account_logs:
  "account_logs j (d\<lparr>db_logs := filter P (db_logs d)\<rparr>) = filter P (account_logs j d)"
  by (simp add: account_logs_def filter_sort) (metis (no_types, lifting) filter_cong filter_filter)

lemma account_logs_prune:
  assumes "logs_ok d" and "0 < n"
  shows "account_logs j (prune_logs n i d) = (if j = i then last_n n (account_logs i d) else account_logs j d)"
proof (cases "length (account_logs i d) < n")
  case True
  then have "drop (n - 1) (rev (account_logs i d)) = []" by simp
  then show ?thesis using True by (simp add: prune_logs_def last_n_def)
next
  case False
  define k where "k = length (account_logs i d) - n"
  have k: "k < length (account_logs i d)" using False assms(2) by (simp add: k_def)
  have d: "drop (n - 1) (rev (account_logs i d)) = account_logs i d ! k # drop n (rev (account_logs i d))"
    using False assms(2) by (subst Cons_nth_drop_Suc [symmetric]) (simp_all add: rev_nth k_def)
  have p: "prune_logs n i d = d\<lparr>db_logs := filter (\<lambda>r. \<not> (l_account r = i \<and> log_key r < log_key (account_logs i d ! k))) (db_logs d)\<rparr>"
    unfolding prune_logs_def d by simp
  show ?thesis
  proof (cases "j = i")
    case True
    have "filter (\<lambda>r. \<not> (l_account r = i \<and> log_key r < log_key (account_logs i d ! k))) (account_logs i d)
        = filter (\<lambda>r. \<not> log_key r < log_key (account_logs i d ! k)) (account_logs i d)"
      by (rule filter_cong) (auto simp: set_account_logs)
    also have "\<dots> = drop k (account_logs i d)"
      by (rule filter_below_nth(2) [OF sorted_account_logs distinct_account_logs [OF assms(1)] k])
    finally show ?thesis using True by (simp add: p filter_account_logs last_n_def k_def)
  next
    case False
    have "filter (\<lambda>r. \<not> (l_account r = i \<and> log_key r < log_key (account_logs i d ! k))) (account_logs j d) = account_logs j d"
      using False by (auto simp: filter_id_conv set_account_logs)
    then show ?thesis using False by (simp add: p filter_account_logs)
  qed
qed

lemma account_logs_prune_all:
  assumes "logs_ok d" and "0 < n" and "distinct is"
  shows "account_logs j (fold (prune_logs n) is d) = (if j \<in> set is then last_n n (account_logs j d) else account_logs j d)"
  using assms
proof (induction "is" arbitrary: d)
  case (Cons i "is")
  then show ?case using Cons.IH [OF prune_logs_ok [OF Cons.prems(1), of n i]] by (auto simp: account_logs_prune)
qed simp

lemma write_logs_Some:
  assumes "write_logs rows d = Some d'" and "logs_ok d"
  shows "d' = fold (prune_logs MAX_LOGS_PER_ACCOUNT) (uniq (map l_account rows)) (d\<lparr>db_logs := db_logs d @ rows\<rparr>)"
    and "logs_ok (d\<lparr>db_logs := db_logs d @ rows\<rparr>)"
  using assms by (auto simp: write_logs_def logs_ok_def list_ex_iff split: if_splits) (metis imageI)

section \<open>Properties\<close>

text \<open>
  The log of an account never grows beyond 20000 lines and loses only its oldest ones: after a
  batch, an account that wrote has the newest 20000 of all its lines, every other account has exactly
  the lines it had.
\<close>

theorem log_retention:
  assumes "write_logs rows d = Some d'" and "distinct (map l_id (db_logs d))"
  shows "account_logs i d' = (if i \<in> l_account ` set rows
     then last_n 20000 (account_logs i (d\<lparr>db_logs := db_logs d @ rows\<rparr>)) else account_logs i d)"
proof -
  have ok: "logs_ok d" using assms(2) by (simp add: logs_ok_def)
  have "account_logs i (d\<lparr>db_logs := db_logs d @ rows\<rparr>) = account_logs i d" if "i \<notin> l_account ` set rows"
  proof -
    have "filter (\<lambda>r. l_account r = i) rows = []" using that by (auto simp: filter_empty_conv)
    then show ?thesis by (simp add: account_logs_def)
  qed
  then show ?thesis
    using account_logs_prune_all [OF write_logs_Some(2) [OF assms(1) ok], of MAX_LOGS_PER_ACCOUNT "uniq (map l_account rows)" i]
    by (simp add: write_logs_Some(1) [OF assms(1) ok] MAX_LOGS_PER_ACCOUNT_def)
qed

definition demo_line :: "int \<Rightarrow> jstr \<Rightarrow> log_row" where
  "demo_line t i = \<lparr>l_id = i, l_account = [1], l_type = SYSTEM, l_message = [], l_created = t\<rparr>"

theorem log_retention_witness:
  "\<exists>d'. write_logs [demo_line 2 [8], demo_line 1 [9]] demo_tables = Some d'
     \<and> account_logs [1] d' = last_n 20000 [demo_line 1 [9], demo_line 2 [8]]"
proof -
  let ?rows = "[demo_line 2 [8], demo_line 1 [9]]"
  obtain d' where d': "write_logs ?rows demo_tables = Some d'"
    by (simp add: write_logs_def demo_line_def demo_tables_def empty_db_def find_account_def demo_account_def)
  have "distinct (map l_id (db_logs demo_tables))" by (simp add: demo_tables_def empty_db_def)
  from log_retention [OF d' this, of "[1]"] show ?thesis using d'
    by (simp add: demo_line_def account_logs_def demo_tables_def empty_db_def log_key_def)
qed

text \<open>
  Paging backwards misses nothing and repeats nothing: the page before the line at position \<open>k\<close>
  consists of the last lines, in order, of exactly the \<open>k\<close> lines before it, and the first page of the
  last lines of all; a page holds between 1 and 2000 lines.
\<close>

theorem log_pages_are_contiguous:
  assumes "distinct (map l_id (db_logs d))" and "k < length (account_logs i d)" and "l_id (account_logs i d ! k) \<noteq> []"
  shows "get_console_logs i limit (Some (l_id (account_logs i d ! k))) d = last_n (log_take limit) (take k (account_logs i d))
     \<and> get_console_logs i limit None d = last_n (log_take limit) (account_logs i d)
     \<and> 1 \<le> log_take limit \<and> log_take limit \<le> 2000"
proof -
  let ?L = "account_logs i d"
  let ?c = "?L ! k"
  have c: "?c \<in> set (db_logs d)" "l_account ?c = i"
    using nth_mem [OF assms(2)] by (simp_all add: set_account_logs)
  have "find (\<lambda>r. l_id r = l_id ?c \<and> l_account r = i) (db_logs d) = Some ?c"
  proof (cases "find (\<lambda>r. l_id r = l_id ?c \<and> l_account r = i) (db_logs d)")
    case None
    then show ?thesis using c by (auto simp: find_None_iff)
  next
    case (Some r)
    then have "r \<in> set (db_logs d)" "l_id r = l_id ?c" using find_Some_in [OF Some] by auto
    then have "r = ?c" using assms(1) c(1) by (auto simp: distinct_map inj_on_def)
    then show ?thesis using Some by simp
  qed
  moreover have "filter (\<lambda>r. l_created r < l_created ?c \<or> l_created r = l_created ?c \<and> l_id r < l_id ?c) ?L
      = filter (\<lambda>r. log_key r < log_key ?c) ?L"
    by (rule filter_cong) (auto simp: log_key_def)
  moreover have "\<dots> = take k ?L"
    by (rule filter_below_nth(1) [OF sorted_account_logs distinct_account_logs assms(2)])
       (simp add: logs_ok_def assms(1))
  ultimately have "get_console_logs i limit (Some (l_id ?c)) d = last_n (log_take limit) (take k ?L)"
    using assms(3) by (simp add: get_console_logs_def rev_take_rev)
  moreover have "1 \<le> log_take limit \<and> log_take limit \<le> 2000"
    by (auto simp: log_take_def CONSOLE_HISTORY_PAGE_SIZE_def nat_le_iff split: option.splits)
  ultimately show ?thesis by (simp add: get_console_logs_def rev_take_rev)
qed

definition demo_log :: db where
  "demo_log = demo_tables\<lparr>db_logs := [demo_line 2 [8], demo_line 1 [9], demo_line 3 [7]]\<rparr>"

theorem log_pages_are_contiguous_witness:
  "get_console_logs [1] (Some 1) (Some [7]) demo_log = [demo_line 2 [8]]"
proof -
  have l: "account_logs [1] demo_log = [demo_line 1 [9], demo_line 2 [8], demo_line 3 [7]]"
    by (simp add: account_logs_def demo_log_def demo_line_def log_key_def)
  have d: "distinct (map l_id (db_logs demo_log))" by (simp add: demo_log_def demo_line_def)
  have "log_take (Some 1) = 1" by (simp add: log_take_def CONSOLE_HISTORY_PAGE_SIZE_def)
  then show ?thesis using log_pages_are_contiguous [OF d, of 2 "[1]" "Some 1"]
    by (simp add: l) (simp add: demo_line_def last_n_def)
qed

end
