(* ===== verification/Earnings.thy ===== *)
theory Earnings
  imports Database
begin

text \<open>
  Sell earnings: \<^verbatim>\<open>backend/src/minecraft/earningPersistence.ts\<close> and the summary, the history and its
  cache in \<^verbatim>\<open>accounts/service.ts\<close>. Amounts are exact numbers here; the database rounds each to cents.
  Times are milliseconds since 1970 and not negative.
\<close>

section \<open>Writing a batch\<close>

text \<open>The latest time of each account in the batch, in the order the accounts first appear.\<close>

definition latest_of :: "earning_row list \<Rightarrow> (jstr, int) jmap" where
  "latest_of rows = fold (\<lambda>r m. case map_of m (e_account r) of
       None \<Rightarrow> AList.update (e_account r) (e_created r) m
     | Some t \<Rightarrow> if e_created r > t then AList.update (e_account r) (e_created r) m else m) rows []"

definition touch_last_sell :: "jstr \<times> int \<Rightarrow> db \<Rightarrow> db" where
  "touch_last_sell p d = d\<lparr>db_accounts := map (\<lambda>a.
     if a_id a = fst p \<and> (case a_last_sell a of None \<Rightarrow> True | Some t \<Rightarrow> t \<le> snd p)
     then a\<lparr>a_last_sell := Some (snd p)\<rparr> else a) (db_accounts d)\<rparr>"

text \<open>One transaction; a row of an account that does not exist fails it.\<close>

definition write_earnings :: "earning_row list \<Rightarrow> db \<Rightarrow> db option" where
  "write_earnings rows d =
     (if list_ex (\<lambda>r. find_account d (e_account r) = None) rows then None
      else Some (fold touch_last_sell (latest_of rows) (d\<lparr>db_earnings := db_earnings d @ rows\<rparr>)))"

section \<open>Summary\<close>

text \<open>\<^verbatim>\<open>ROUND\<close> of SQLite rounds half away from zero.\<close>

definition cents_of :: "rat \<Rightarrow> int" where
  "cents_of amount = (if amount < 0 then - \<lfloor>- (amount * 100) + 1 / 2\<rfloor> else \<lfloor>amount * 100 + 1 / 2\<rfloor>)"

definition cents_between :: "jstr \<Rightarrow> (int \<Rightarrow> bool) \<Rightarrow> db \<Rightarrow> int" where
  "cents_between i window d =
     sum_list (map (\<lambda>r. cents_of (e_amount r)) (filter (\<lambda>r. e_account r = i \<and> window (e_created r)) (db_earnings d)))"

record earnings_summary =
  last5m :: rat
  last1h :: rat
  last24h :: rat

definition get_earnings_summary :: "jstr \<Rightarrow> int \<Rightarrow> db \<Rightarrow> earnings_summary" where
  "get_earnings_summary i now d =
     (let rows = filter (\<lambda>r. e_account r = i \<and> now - 24 * 60 * 60000 \<le> e_created r \<and> e_created r \<le> now) (db_earnings d);
          since = (\<lambda>t. sum_list (map (\<lambda>r. if t \<le> e_created r then cents_of (e_amount r) else 0) rows))
      in \<lparr>last5m = of_int (since (now - 5 * 60000)) / 100, last1h = of_int (since (now - 60 * 60000)) / 100,
          last24h = of_int (sum_list (map (\<lambda>r. cents_of (e_amount r)) rows)) / 100\<rparr>)"

section \<open>History\<close>

datatype earnings_range = R30m | R1h | R6h | R24h

fun duration_ms :: "earnings_range \<Rightarrow> int" where
  "duration_ms R30m = 30 * 60000"
| "duration_ms R1h = 60 * 60000"
| "duration_ms R6h = 6 * 60 * 60000"
| "duration_ms R24h = 24 * 60 * 60000"

definition bucket_ms :: int where "bucket_ms = 5 * 60000"

record earnings_history =
  eh_range :: earnings_range
  eh_start :: int
  eh_end :: int
  eh_total :: rat
  eh_points :: "(int \<times> rat) list"

definition add_at :: "nat \<Rightarrow> int \<Rightarrow> int list \<Rightarrow> int list" where
  "add_at k x cs = (if k < length cs then cs[k := cs ! k + x] else cs)"

text \<open>
  The query groups the rows by bucket; the loop then adds each group to its interval. Adding row by
  row gives the same sums. Rows are between \<open>start\<close> and \<open>end\<close>, where the division is exact.
\<close>

definition aggregate_earnings_history :: "jstr \<Rightarrow> earnings_range \<Rightarrow> int \<Rightarrow> db \<Rightarrow> earnings_history" where
  "aggregate_earnings_history i rg now d =
     (let end_ms = now div bucket_ms * bucket_ms;
          start = end_ms - duration_ms rg;
          count = nat (duration_ms rg div bucket_ms);
          rows = filter (\<lambda>r. e_account r = i \<and> start \<le> e_created r \<and> e_created r < end_ms) (db_earnings d);
          cents = fold (\<lambda>r. add_at (nat ((e_created r - start) div bucket_ms)) (cents_of (e_amount r))) rows (replicate count 0)
      in \<lparr>eh_range = rg, eh_start = start, eh_end = end_ms, eh_total = of_int (sum_list cents) / 100,
          eh_points = map (\<lambda>(k, c). (start + int k * bucket_ms, of_int c / 100)) (zip [0..<count] cents)\<rparr>)"

section \<open>The cache of histories\<close>

record cached_history =
  ch_end :: int
  ch_expires :: int
  ch_data :: earnings_history

type_synonym history_cache = "(jstr \<times> earnings_range, cached_history) jmap"

definition MAX_HISTORY_CACHE_ENTRIES :: nat where "MAX_HISTORY_CACHE_ENTRIES = 256"

definition invalidate_earnings_history :: "jstr \<Rightarrow> history_cache \<Rightarrow> history_cache" where
  "invalidate_earnings_history i c = fold (\<lambda>r. AList.delete (i, r)) [R30m, R1h, R6h, R24h] c"

text \<open>\<open>now\<close> is both the time asked for and the clock. The oldest entry makes room for a new one.\<close>

definition get_earnings_history :: "jstr \<Rightarrow> earnings_range \<Rightarrow> int \<Rightarrow> db \<Rightarrow> history_cache \<Rightarrow> history_cache \<times> earnings_history" where
  "get_earnings_history i rg now d c =
     (let end_ms = now div bucket_ms * bucket_ms;
          fresh = aggregate_earnings_history i rg now d;
          c1 = AList.delete (i, rg) c;
          c2 = (if length c1 \<ge> MAX_HISTORY_CACHE_ENTRIES then tl c1 else c1);
          c3 = AList.update (i, rg) \<lparr>ch_end = end_ms, ch_expires = now + bucket_ms - now mod bucket_ms, ch_data = fresh\<rparr> c2
      in case map_of c (i, rg) of
           Some x \<Rightarrow> if ch_end x = end_ms \<and> ch_expires x > now then (c, ch_data x) else (c3, fresh)
         | None \<Rightarrow> (c3, fresh))"

definition prune_old_earnings :: "int \<Rightarrow> db \<times> history_cache \<Rightarrow> db \<times> history_cache" where
  "prune_old_earnings now dc =
     ((fst dc)\<lparr>db_earnings := filter (\<lambda>r. \<not> e_created r < now - 25 * 60 * 60000) (db_earnings (fst dc))\<rparr>, [])"

section \<open>Lemmas\<close>

lemma length_add_at [simp]: "length (add_at k x cs) = length cs"
  by (simp add: add_at_def)

lemma nth_add_at: "j < length cs \<Longrightarrow> add_at k x cs ! j = cs ! j + (if j = k then x else 0)"
  by (simp add: add_at_def)

lemma length_add_all [simp]: "length (fold (\<lambda>r. add_at (f r) (g r)) rows cs) = length cs"
  by (induction rows arbitrary: cs) simp_all

lemma nth_add_all:
  "j < length cs \<Longrightarrow> fold (\<lambda>r. add_at (f r) (g r)) rows cs ! j = cs ! j + sum_list (map g (filter (\<lambda>r. f r = j) rows))"
  by (induction rows arbitrary: cs) (simp_all add: nth_add_at)

lemma sum_add_at:
  fixes cs :: "int list"
  shows "k < length cs \<Longrightarrow> sum_list (add_at k x cs) = sum_list cs + x"
proof (induction cs arbitrary: k)
  case (Cons c cs)
  then show ?case by (cases k) (auto simp: add_at_def)
qed simp

lemma sum_add_all:
  "\<forall>r \<in> set rows. f r < length cs \<Longrightarrow> sum_list (fold (\<lambda>r. add_at (f r) (g r)) rows cs) = sum_list cs + sum_list (map g rows)"
  by (induction rows arbitrary: cs) (simp_all add: sum_add_at)

lemma bucket_pos: "0 < bucket_ms"
  by (simp add: bucket_ms_def)

lemma duration_buckets: "duration_ms rg = int (nat (duration_ms rg div bucket_ms)) * bucket_ms"
  by (cases rg) (simp_all add: bucket_ms_def)

text \<open>The interval a row falls into.\<close>

lemma bucket_index:
  assumes "start \<le> t"
  shows "nat ((t - start) div bucket_ms) = k \<longleftrightarrow> start + int k * bucket_ms \<le> t \<and> t < start + (int k + 1) * bucket_ms"
proof -
  have "0 \<le> (t - start) div bucket_ms" using assms bucket_pos by (simp add: pos_imp_zdiv_nonneg_iff)
  then have "nat ((t - start) div bucket_ms) = k \<longleftrightarrow> (t - start) div bucket_ms = int k" by auto
  also have "\<dots> \<longleftrightarrow> int k * bucket_ms \<le> t - start \<and> t - start < (int k + 1) * bucket_ms"
  proof
    assume "(t - start) div bucket_ms = int k"
    then have "t - start = bucket_ms * int k + (t - start) mod bucket_ms" by (metis mult_div_mod_eq)
    moreover have "0 \<le> (t - start) mod bucket_ms" "(t - start) mod bucket_ms < bucket_ms"
      using bucket_pos by simp_all
    ultimately show "int k * bucket_ms \<le> t - start \<and> t - start < (int k + 1) * bucket_ms" by (simp add: algebra_simps)
  next
    assume "int k * bucket_ms \<le> t - start \<and> t - start < (int k + 1) * bucket_ms"
    then show "(t - start) div bucket_ms = int k"
      by (intro int_div_pos_eq [of _ _ _ "t - start - int k * bucket_ms"]) (auto simp: algebra_simps)
  qed
  finally show ?thesis by auto
qed

section \<open>Properties\<close>

text \<open>The buckets, point by point.\<close>

lemma history_points:
  "let h = aggregate_earnings_history i rg now d in
     length (eh_points h) = nat (duration_ms rg div bucket_ms)
     \<and> eh_end h = eh_start h + duration_ms rg \<and> eh_end h \<le> now \<and> now < eh_end h + bucket_ms
     \<and> eh_total h = of_int (cents_between i (\<lambda>t. eh_start h \<le> t \<and> t < eh_end h) d) / 100
     \<and> (\<forall>k < length (eh_points h). eh_points h ! k = (eh_start h + int k * bucket_ms,
          of_int (cents_between i (\<lambda>t. eh_start h + int k * bucket_ms \<le> t \<and> t < eh_start h + (int k + 1) * bucket_ms) d) / 100))"
proof -
  define end_ms where "end_ms = now div bucket_ms * bucket_ms"
  define start where "start = end_ms - duration_ms rg"
  define count where "count = nat (duration_ms rg div bucket_ms)"
  define rows where "rows = filter (\<lambda>r. e_account r = i \<and> start \<le> e_created r \<and> e_created r < end_ms) (db_earnings d)"
  define f :: "earning_row \<Rightarrow> nat" where "f r = nat ((e_created r - start) div bucket_ms)" for r
  define g :: "earning_row \<Rightarrow> int" where "g r = cents_of (e_amount r)" for r
  define cents where "cents = fold (\<lambda>r. add_at (f r) (g r)) rows (replicate count 0)"
  have g: "g = (\<lambda>r. cents_of (e_amount r))" by (simp add: g_def fun_eq_iff)
  have dur: "end_ms = start + int count * bucket_ms" using duration_buckets [of rg] by (simp add: start_def count_def)
  have idx: "f r = k \<longleftrightarrow> start + int k * bucket_ms \<le> e_created r \<and> e_created r < start + (int k + 1) * bucket_ms"
    if "start \<le> e_created r" for r k using bucket_index [OF that] by (simp add: f_def)
  have small: "\<forall>r \<in> set rows. f r < count"
  proof
    fix r assume r: "r \<in> set rows"
    then have s: "start \<le> e_created r" and e: "e_created r < end_ms" by (simp_all add: rows_def)
    have "start + int (f r) * bucket_ms \<le> e_created r" using idx [OF s, of "f r"] by simp
    then have "int (f r) * bucket_ms < int count * bucket_ms" using e dur by simp
    then show "f r < count" using bucket_pos by simp
  qed
  have tot: "sum_list cents = cents_between i (\<lambda>t. start \<le> t \<and> t < end_ms) d"
    using sum_add_all [of rows f "replicate count 0" g] small
    by (simp add: cents_def cents_between_def rows_def g sum_list_replicate)
  have pt: "cents ! k = cents_between i (\<lambda>t. start + int k * bucket_ms \<le> t \<and> t < start + (int k + 1) * bucket_ms) d"
    if k: "k < count" for k
  proof -
    have lo: "start \<le> start + int k * bucket_ms" using bucket_pos by simp
    have hi: "start + (int k + 1) * bucket_ms \<le> end_ms"
      unfolding dur using k bucket_pos by (intro add_left_mono mult_right_mono) auto
    have "filter (\<lambda>r. f r = k) rows = filter (\<lambda>r. e_account r = i \<and> (start + int k * bucket_ms \<le> e_created r
        \<and> e_created r < start + (int k + 1) * bucket_ms)) (db_earnings d)"
      unfolding rows_def filter_filter by (rule filter_cong [OF refl]) (use idx lo hi in auto)
    then show ?thesis
      using nth_add_all [of k "replicate count 0" f g rows] k by (simp add: cents_def cents_between_def g)
  qed
  have h: "aggregate_earnings_history i rg now d = \<lparr>eh_range = rg, eh_start = start, eh_end = end_ms,
      eh_total = of_int (sum_list cents) / 100, eh_points = map (\<lambda>(k, c). (start + int k * bucket_ms, of_int c / 100)) (zip [0..<count] cents)\<rparr>"
    unfolding aggregate_earnings_history_def Let_def end_ms_def start_def count_def rows_def f_def g_def cents_def by simp
  have len: "length cents = count" by (simp add: cents_def)
  have "end_ms = now - now mod bucket_ms" by (simp add: end_ms_def minus_mod_eq_div_mult)
  moreover have "0 \<le> now mod bucket_ms" "now mod bucket_ms < bucket_ms" using bucket_pos by simp_all
  ultimately have "end_ms \<le> now" "now < end_ms + bucket_ms" by linarith+
  then show ?thesis
    by (simp add: h Let_def len tot pt start_def flip: count_def)
qed

text \<open>
  The history counts every sale once: it has one point per completed five minutes of its range,
  each point is the sum of exactly the sales of the account within its interval, and the total is the
  sum of all sales of the range.
\<close>

theorem history_counts_every_sale_once:
  "let h = aggregate_earnings_history i rg now d in
     length (eh_points h) = nat (duration_ms rg div bucket_ms)
     \<and> eh_end h = eh_start h + duration_ms rg \<and> eh_end h \<le> now \<and> now < eh_end h + bucket_ms
     \<and> eh_total h = of_int (cents_between i (\<lambda>t. eh_start h \<le> t \<and> t < eh_end h) d) / 100
     \<and> eh_points h = map (\<lambda>k. (eh_start h + int k * bucket_ms,
          of_int (cents_between i (\<lambda>t. eh_start h + int k * bucket_ms \<le> t \<and> t < eh_start h + (int k + 1) * bucket_ms) d) / 100))
         [0..<length (eh_points h)]"
proof -
  define h where "h = aggregate_earnings_history i rg now d"
  note p = history_points [of i rg now d, unfolded Let_def, folded h_def]
  have "eh_points h = map (\<lambda>k. (eh_start h + int k * bucket_ms,
          of_int (cents_between i (\<lambda>t. eh_start h + int k * bucket_ms \<le> t \<and> t < eh_start h + (int k + 1) * bucket_ms) d) / 100))
         [0..<length (eh_points h)]"
    using p by (intro nth_equalityI) auto
  then show ?thesis unfolding Let_def h_def [symmetric] using p by blast
qed

section \<open>The cache is exact\<close>

text \<open>
  Sales are written by the buffered writer; afterwards the histories of their account are invalidated.
  \<open>pending\<close> holds the accounts in between.
\<close>

record earnings_state =
  es_db :: db
  es_cache :: history_cache
  es_pending :: "jstr list"

datatype earnings_event =
    E_write "earning_row list"
  | E_invalidate jstr
  | E_history jstr earnings_range int
  | E_prune int

fun earnings_step :: "earnings_event \<Rightarrow> earnings_state \<Rightarrow> earnings_state" where
  "earnings_step (E_write rows) s = (case write_earnings rows (es_db s) of
       None \<Rightarrow> s
     | Some d \<Rightarrow> s\<lparr>es_db := d, es_pending := map e_account rows @ es_pending s\<rparr>)"
| "earnings_step (E_invalidate i) s =
     s\<lparr>es_cache := invalidate_earnings_history i (es_cache s), es_pending := filter (\<lambda>x. x \<noteq> i) (es_pending s)\<rparr>"
| "earnings_step (E_history i rg now) s = s\<lparr>es_cache := fst (get_earnings_history i rg now (es_db s) (es_cache s))\<rparr>"
| "earnings_step (E_prune now) s = (case prune_old_earnings now (es_db s, es_cache s) of (d, c) \<Rightarrow> s\<lparr>es_db := d, es_cache := c\<rparr>)"

definition earnings_ok :: "earnings_state \<Rightarrow> bool" where
  "earnings_ok s \<longleftrightarrow> jmap_ok (es_cache s) \<and> length (es_cache s) \<le> MAX_HISTORY_CACHE_ENTRIES
     \<and> (\<forall>i rg x. map_of (es_cache s) (i, rg) = Some x \<longrightarrow> i \<notin> set (es_pending s) \<longrightarrow>
          ch_data x = aggregate_earnings_history i rg (ch_end x) (es_db s))"

lemma aggregate_end: "aggregate_earnings_history i rg (now div bucket_ms * bucket_ms) d = aggregate_earnings_history i rg now d"
  using bucket_pos by (simp add: aggregate_earnings_history_def)

lemma aggregate_cong:
  "filter (\<lambda>r. e_account r = i) (db_earnings d) = filter (\<lambda>r. e_account r = i) (db_earnings d')
    \<Longrightarrow> aggregate_earnings_history i rg now d = aggregate_earnings_history i rg now d'"
proof -
  assume e: "filter (\<lambda>r. e_account r = i) (db_earnings d) = filter (\<lambda>r. e_account r = i) (db_earnings d')"
  have "filter (\<lambda>r. e_account r = i \<and> P r) (db_earnings d) = filter (\<lambda>r. e_account r = i \<and> P r) (db_earnings d')" for P
    using arg_cong [OF e, of "filter P"] by (simp add: conj_commute)
  then show ?thesis by (simp add: aggregate_earnings_history_def)
qed

lemma invalidate_lookup:
  "map_of (invalidate_earnings_history i c) (j, rg) = (if j = i then None else map_of c (j, rg))"
  by (cases rg) (auto simp: invalidate_earnings_history_def)

lemma invalidate_ok: "jmap_ok c \<Longrightarrow> jmap_ok (invalidate_earnings_history i c) \<and> length (invalidate_earnings_history i c) \<le> length c"
  by (auto simp: invalidate_earnings_history_def intro: order_trans [OF length_delete_le])

lemma jmap_ok_tl: "jmap_ok c \<Longrightarrow> jmap_ok (tl c)"
  by (cases c) (auto simp: jmap_ok_def)

lemma map_of_tl: "jmap_ok c \<Longrightarrow> map_of (tl c) k = Some x \<Longrightarrow> map_of c k = Some x"
  by (cases c) (force simp: jmap_ok_def dest: map_of_SomeD)+

lemma write_earnings_rows:
  assumes "write_earnings rows d = Some d'" and "i \<notin> e_account ` set rows"
  shows "filter (\<lambda>r. e_account r = i) (db_earnings d') = filter (\<lambda>r. e_account r = i) (db_earnings d)"
proof -
  have t: "db_earnings (fold touch_last_sell ps e) = db_earnings e" for ps e
    by (induction ps arbitrary: e) (simp_all add: touch_last_sell_def)
  have "filter (\<lambda>r. e_account r = i) rows = []" using assms(2) by (auto simp: filter_empty_conv)
  then show ?thesis using assms(1) by (auto simp: write_earnings_def t split: if_splits)
qed

lemma history_answer:
  assumes "earnings_ok s" and "i \<notin> set (es_pending s)"
  shows "snd (get_earnings_history i rg now (es_db s) (es_cache s)) = aggregate_earnings_history i rg now (es_db s)"
proof (cases "map_of (es_cache s) (i, rg)")
  case (Some x)
  then have "ch_data x = aggregate_earnings_history i rg (ch_end x) (es_db s)"
    using assms by (simp add: earnings_ok_def)
  then show ?thesis using Some by (auto simp: get_earnings_history_def Let_def aggregate_end)
qed (simp add: get_earnings_history_def Let_def)

lemma history_ok:
  assumes "earnings_ok s"
  shows "earnings_ok (s\<lparr>es_cache := fst (get_earnings_history i rg now (es_db s) (es_cache s))\<rparr>)"
proof -
  define c where "c = es_cache s"
  define c1 where "c1 = AList.delete (i, rg) c"
  define c2 where "c2 = (if length c1 \<ge> MAX_HISTORY_CACHE_ENTRIES then tl c1 else c1)"
  define fresh where "fresh = \<lparr>ch_end = now div bucket_ms * bucket_ms, ch_expires = now + bucket_ms - now mod bucket_ms,
    ch_data = aggregate_earnings_history i rg now (es_db s)\<rparr>"
  have ok: "jmap_ok c" "length c \<le> MAX_HISTORY_CACHE_ENTRIES" using assms by (simp_all add: earnings_ok_def c_def)
  have ok2: "jmap_ok c2" using ok by (simp add: c2_def c1_def jmap_ok_tl)
  have "length c1 \<le> MAX_HISTORY_CACHE_ENTRIES" using ok(2) length_delete_le [of "(i, rg)" c] by (simp add: c1_def)
  then have "length c2 < MAX_HISTORY_CACHE_ENTRIES" by (auto simp: c2_def MAX_HISTORY_CACHE_ENTRIES_def)
  then have len: "length (AList.update (i, rg) fresh c2) \<le> MAX_HISTORY_CACHE_ENTRIES"
    using length_update_le [of "(i, rg)" fresh c2] by simp
  have old: "map_of c k = Some x" if "map_of c2 k = Some x" for k x
    using that map_of_tl [of c1 k x] ok(1) by (auto simp: c2_def c1_def split: if_splits)
  have "earnings_ok (s\<lparr>es_cache := AList.update (i, rg) fresh c2\<rparr>)"
    using assms ok2 len old unfolding earnings_ok_def
    by (auto simp: fresh_def aggregate_end c_def split: if_splits)
  moreover have "fst (get_earnings_history i rg now (es_db s) (es_cache s)) \<in> {es_cache s, AList.update (i, rg) fresh c2}"
    by (auto simp: get_earnings_history_def Let_def c_def c1_def c2_def fresh_def split: option.splits)
  ultimately show ?thesis using assms by auto
qed

lemma earnings_step_ok:
  assumes "earnings_ok s"
  shows "earnings_ok (earnings_step e s)"
proof (cases e)
  case (E_write rows)
  show ?thesis
  proof (cases "write_earnings rows (es_db s)")
    case (Some d)
    have "aggregate_earnings_history i rg t d = aggregate_earnings_history i rg t (es_db s)" if "i \<notin> e_account ` set rows" for i rg t
      by (rule aggregate_cong) (rule write_earnings_rows [OF Some that])
    then show ?thesis using assms Some E_write by (auto simp: earnings_ok_def)
  qed (use assms E_write in simp)
next
  case (E_invalidate i)
  then show ?thesis using assms invalidate_ok [of "es_cache s" i]
    by (auto simp: earnings_ok_def invalidate_lookup split: if_splits)
next
  case (E_history i rg now)
  then show ?thesis using history_ok [OF assms] by simp
next
  case (E_prune now)
  then show ?thesis by (simp add: earnings_ok_def prune_old_earnings_def)
qed

interpretation earnings: stepwise earnings_step earnings_ok
  by unfold_locales (rule earnings_step_ok)

text \<open>
  What is cached for a history is never older than the last announcement of a sale of its account: it
  was aggregated at a moment after which no such announcement came.
\<close>

abbreviation earnings_start :: "db \<Rightarrow> earnings_state" where
  "earnings_start d \<equiv> \<lparr>es_db = d, es_cache = [], es_pending = []\<rparr>"

definition aggregated_after :: "db \<Rightarrow> earnings_event list \<Rightarrow> jstr \<Rightarrow> earnings_range \<Rightarrow> int \<Rightarrow> earnings_history \<Rightarrow> bool" where
  "aggregated_after d es i rg t h \<longleftrightarrow> (\<exists>before rest. es = before @ rest \<and> E_invalidate i \<notin> set rest
     \<and> h = aggregate_earnings_history i rg t (es_db (fold earnings_step before (earnings_start d))))"

lemma aggregated_now: "aggregated_after d es i rg t (aggregate_earnings_history i rg t (es_db (fold earnings_step es (earnings_start d))))"
  unfolding aggregated_after_def by (intro exI [of _ es] exI [of _ "[]"]) simp

lemma aggregated_later:
  assumes "aggregated_after d es i rg t h" and "e \<noteq> E_invalidate i"
  shows "aggregated_after d (es @ [e]) i rg t h"
proof -
  obtain before rest where "es = before @ rest" "E_invalidate i \<notin> set rest"
    "h = aggregate_earnings_history i rg t (es_db (fold earnings_step before (earnings_start d)))"
    using assms(1) unfolding aggregated_after_def by blast
  then show ?thesis unfolding aggregated_after_def
    using assms(2) by (intro exI [of _ before] exI [of _ "rest @ [e]"]) auto
qed

lemma history_lookup:
  assumes "jmap_ok c" and "map_of (fst (get_earnings_history i rg now d c)) (j, r) = Some x"
  shows "map_of c (j, r) = Some x \<or> (j = i \<and> r = rg \<and> ch_data x = aggregate_earnings_history i rg (ch_end x) d)"
  using assms(2) map_of_tl [of "AList.delete (i, rg) c" "(j, r)" x] assms(1)
  by (auto simp: get_earnings_history_def Let_def aggregate_end split: option.splits if_splits)

lemma cached_aggregation:
  assumes "map_of (es_cache (fold earnings_step es (earnings_start d))) (i, rg) = Some x"
  shows "aggregated_after d es i rg (ch_end x) (ch_data x)"
  using assms
proof (induction es arbitrary: i rg x rule: rev_induct)
  case (snoc e es)
  let ?s = "fold earnings_step es (earnings_start d)"
  have ok: "jmap_ok (es_cache ?s)" using earnings.run_inv [of "earnings_start d" es] by (simp add: earnings_ok_def)
  show ?case
  proof (cases e)
    case (E_history j r now)
    then have "map_of (es_cache ?s) (i, rg) = Some x
        \<or> (i = j \<and> rg = r \<and> ch_data x = aggregate_earnings_history i rg (ch_end x) (es_db ?s))"
      using snoc.prems history_lookup [OF ok, of j r now "es_db ?s" i rg x] by auto
    moreover have "aggregated_after d es i rg (ch_end x) (aggregate_earnings_history i rg (ch_end x) (es_db ?s))"
      by (rule aggregated_now)
    ultimately have "aggregated_after d es i rg (ch_end x) (ch_data x)" using snoc.IH by auto
    then show ?thesis using E_history by (simp add: aggregated_later)
  next
    case (E_invalidate j)
    then have "j \<noteq> i" "map_of (es_cache ?s) (i, rg) = Some x"
      using snoc.prems by (auto simp: invalidate_lookup split: if_splits)
    then show ?thesis using snoc.IH E_invalidate by (simp add: aggregated_later)
  next
    case (E_write rows)
    then have "map_of (es_cache ?s) (i, rg) = Some x" using snoc.prems by (auto split: option.splits)
    then show ?thesis using snoc.IH E_write by (simp add: aggregated_later)
  next
    case (E_prune now)
    then show ?thesis using snoc.prems by (simp add: prune_old_earnings_def)
  qed
qed simp

lemma answered_aggregation:
  "aggregated_after d es i rg now (snd (get_earnings_history i rg now
     (es_db (fold earnings_step es (earnings_start d))) (es_cache (fold earnings_step es (earnings_start d)))))"
proof -
  let ?s = "fold earnings_step es (earnings_start d)"
  have now: "aggregated_after d es i rg now (aggregate_earnings_history i rg now (es_db ?s))"
    by (rule aggregated_now)
  have cached: "aggregated_after d es i rg now (ch_data x)"
    if x: "map_of (es_cache ?s) (i, rg) = Some x" and e: "ch_end x = now div bucket_ms * bucket_ms" for x
  proof -
    obtain before rest where "es = before @ rest" "E_invalidate i \<notin> set rest"
      "ch_data x = aggregate_earnings_history i rg (now div bucket_ms * bucket_ms) (es_db (fold earnings_step before (earnings_start d)))"
      using cached_aggregation [OF x, unfolded e] unfolding aggregated_after_def by auto
    then show ?thesis unfolding aggregated_after_def by (auto simp: aggregate_end)
  qed
  show ?thesis using now cached
    by (auto simp: get_earnings_history_def Let_def split: option.splits)
qed

text \<open>
  C40. The cache is invisible, except between the writing of a sale and its announcement. In every history of
  sales, invalidations, requests and prunings: once every written sale of an account has been announced, a
  request for its history gets exactly what a fresh aggregation of the database gives. In any case the
  answer is the aggregation of the database of the present or of an earlier moment, after which no sale of the account
  has been announced: a sale that is written but not yet announced may be missing. The cache never holds more than 256 entries.
\<close>

theorem history_cache_is_exact:
  "let s = fold earnings_step es \<lparr>es_db = d, es_cache = [], es_pending = []\<rparr>;
       answer = snd (get_earnings_history i rg now (es_db s) (es_cache s)) in
     (i \<notin> set (es_pending s) \<longrightarrow> answer = aggregate_earnings_history i rg now (es_db s))
     \<and> (\<exists>before rest. es = before @ rest \<and> E_invalidate i \<notin> set rest
         \<and> answer = aggregate_earnings_history i rg now
             (es_db (fold earnings_step before \<lparr>es_db = d, es_cache = [], es_pending = []\<rparr>)))
     \<and> length (es_cache s) \<le> 256"
proof -
  let ?s = "fold earnings_step es (earnings_start d)"
  have "earnings_ok ?s" by (rule earnings.run_inv) (simp add: earnings_ok_def)
  then show ?thesis using history_answer [of ?s i rg now] answered_aggregation [of d es i rg now]
    by (simp add: earnings_ok_def aggregated_after_def MAX_HISTORY_CACHE_ENTRIES_def Let_def)
qed

text \<open>A sale is written after the history was cached; once it is announced, the answer has it.\<close>

definition demo_announced_sale :: "earnings_event list" where
  "demo_announced_sale = [E_history [1] R1h 600000, E_write [\<lparr>e_account = [1], e_amount = 5, e_created = 590000\<rparr>], E_invalidate [1]]"

theorem history_cache_is_exact_witness:
  "snd (get_earnings_history [1] R1h 660000 (es_db (fold earnings_step demo_announced_sale (earnings_start demo_tables)))
      (es_cache (fold earnings_step demo_announced_sale (earnings_start demo_tables))))
     = aggregate_earnings_history [1] R1h 660000 (es_db (fold earnings_step demo_announced_sale (earnings_start demo_tables)))
   \<and> db_earnings (es_db (fold earnings_step demo_announced_sale (earnings_start demo_tables))) \<noteq> []"
proof -
  let ?s = "fold earnings_step demo_announced_sale (earnings_start demo_tables)"
  have "[1] \<notin> set (es_pending ?s)" by (simp add: demo_announced_sale_def)
  moreover have "db_earnings (es_db ?s) \<noteq> []" by code_simp
  ultimately show ?thesis using history_cache_is_exact [of demo_announced_sale demo_tables "[1]" R1h 660000] by (simp add: Let_def)
qed

end
