(* ===== verification/Note_Documents.thy ===== *)
theory Note_Documents
  imports Schemas
begin

text \<open>
  \<^verbatim>\<open>backend/src/notes/schemas.ts\<close>: which rich text documents a note may hold. The check is the loop of
  the source over a stack of nodes; \<open>node_ok\<close> is the recursive specification it implements. \<open>protocol\<close>
  is \<^verbatim>\<open>new URL(href).protocol\<close> of the runtime, \<open>None\<close> when that throws.
\<close>

section \<open>One node\<close>

definition block_types :: "string list" where
  "block_types = [''paragraph'', ''heading'', ''bulletList'', ''orderedList'', ''blockquote'', ''codeBlock'', ''horizontalRule'']"

definition inline_types :: "string list" where
  "inline_types = [''text'', ''hardBreak'']"

definition mark_types :: "string list" where
  "mark_types = [''bold'', ''italic'', ''underline'', ''strike'', ''code'', ''link'']"

definition is_str :: "json option \<Rightarrow> bool" where
  "is_str f = (case f of Some (JStr _) \<Rightarrow> True | _ \<Rightarrow> False)"

text \<open>Absent, \<^verbatim>\<open>null\<close>, or one of the given strings.\<close>

definition absent_or_in :: "string list \<Rightarrow> json option \<Rightarrow> bool" where
  "absent_or_in xs f \<longleftrightarrow> f = None \<or> f = Some JNull \<or> f \<in> set (map (\<lambda>x. Some (JStr (js x))) xs)"

definition allowed_children :: "jstr \<Rightarrow> string list" where
  "allowed_children parent =
     (if parent = js ''paragraph'' \<or> parent = js ''heading'' then inline_types
      else if parent = js ''codeBlock'' then [''text'']
      else if parent = js ''bulletList'' \<or> parent = js ''orderedList'' then [''listItem'']
      else block_types)"

definition safe_start :: "json option \<Rightarrow> bool" where
  "safe_start f = (case f of Some (JNum x) \<Rightarrow> x = of_int \<lfloor>x\<rfloor> \<and> 1 \<le> x \<and> x \<le> 9007199254740991 | _ \<Rightarrow> False)"

definition attrs_ok :: "jstr \<Rightarrow> json option \<Rightarrow> bool" where
  "attrs_ok type f = (case f of
       None \<Rightarrow> True
     | Some a \<Rightarrow> is_object a
         \<and> (if type = js ''heading'' then z_strict [''level'', ''textAlign''] a
              \<and> json_field a ''level'' \<in> {Some (JNum 1), Some (JNum 2), Some (JNum 3)}
            else if type = js ''paragraph'' then z_strict [''textAlign''] a
            else if type = js ''orderedList'' then z_strict [''start'', ''type''] a \<and> safe_start (json_field a ''start'')
              \<and> absent_or_in [''1''] (json_field a ''type'')
            else if type = js ''codeBlock'' then z_strict [''language''] a
              \<and> (json_field a ''language'' = Some JNull \<or> is_str (json_field a ''language''))
            else a = JObj [])
         \<and> (type = js ''heading'' \<or> type = js ''paragraph'' \<longrightarrow> absent_or_in [''left'', ''center''] (json_field a ''textAlign'')))"

definition safe_protocols :: "jstr option set" where
  "safe_protocols = {Some (js ''https:''), Some (js ''http:''), Some (js ''mailto:'')}"

definition link_ok :: "(jstr \<Rightarrow> jstr option) \<Rightarrow> json option \<Rightarrow> bool" where
  "link_ok protocol f = (case f of
       None \<Rightarrow> False
     | Some a \<Rightarrow> z_strict [''href'', ''target'', ''rel'', ''class'', ''title''] a
         \<and> (case json_field a ''href'' of
              Some (JStr href) \<Rightarrow> protocol href \<in> safe_protocols
            | _ \<Rightarrow> False)
         \<and> absent_or_in [''_blank''] (json_field a ''target'')
         \<and> (json_field a ''rel'' = None \<or> json_field a ''rel'' = Some JNull \<or> is_str (json_field a ''rel''))
         \<and> absent_or_in [] (json_field a ''class'')
         \<and> (json_field a ''title'' = None \<or> json_field a ''title'' = Some JNull \<or> is_str (json_field a ''title'')))"

definition mark_ok :: "(jstr \<Rightarrow> jstr option) \<Rightarrow> json \<Rightarrow> bool" where
  "mark_ok protocol m \<longleftrightarrow> z_strict [''type'', ''attrs''] m
     \<and> json_field m ''type'' \<in> set (map (\<lambda>x. Some (JStr (js x))) mark_types)
     \<and> (if json_field m ''type'' = Some (JStr (js ''link'')) then link_ok protocol (json_field m ''attrs'')
        else json_field m ''attrs'' = None \<or> json_field m ''attrs'' = Some (JObj []))"

definition marks_ok :: "(jstr \<Rightarrow> jstr option) \<Rightarrow> jstr \<Rightarrow> jstr \<Rightarrow> json option \<Rightarrow> bool" where
  "marks_ok protocol type parent f = (case f of
       None \<Rightarrow> True
     | Some (JArr ms) \<Rightarrow> type = js ''text'' \<and> parent \<noteq> js ''codeBlock'' \<and> list_all (mark_ok protocol) ms
     | Some _ \<Rightarrow> False)"

definition text_ok :: "jstr \<Rightarrow> json option \<Rightarrow> bool" where
  "text_ok type f = (if type = js ''text'' then (case f of Some (JStr s) \<Rightarrow> s \<noteq> [] | _ \<Rightarrow> False) else f = None)"

definition content_ok :: "jstr \<Rightarrow> json option \<Rightarrow> bool" where
  "content_ok type f \<longleftrightarrow>
     (case f of None \<Rightarrow> True
      | Some (JArr cs) \<Rightarrow> type \<notin> {js ''text'', js ''hardBreak'', js ''horizontalRule''} | Some _ \<Rightarrow> False)
     \<and> (type \<in> {js ''bulletList'', js ''orderedList'', js ''listItem''} \<longrightarrow>
          (case f of Some (JArr (c # cs)) \<Rightarrow> True | _ \<Rightarrow> False))
     \<and> (type = js ''listItem'' \<longrightarrow>
          (case f of Some (JArr (c # cs)) \<Rightarrow> is_object c \<and> json_field c ''type'' = Some (JStr (js ''paragraph'')) | _ \<Rightarrow> False))"

definition children :: "json \<Rightarrow> json list" where
  "children node = (case json_field node ''content'' of Some (JArr cs) \<Rightarrow> cs | _ \<Rightarrow> [])"

text \<open>What one turn of the loop checks; the result is the type of the node, if it passes.\<close>

definition visit :: "(jstr \<Rightarrow> jstr option) \<Rightarrow> json \<Rightarrow> jstr \<Rightarrow> nat \<Rightarrow> jstr option" where
  "visit protocol node parent depth =
     (if depth > 64 \<or> \<not> z_strict [''type'', ''content'', ''attrs'', ''text'', ''marks''] node then None
      else case json_field node ''type'' of
          Some (JStr type) \<Rightarrow>
            if (depth > 0 \<longrightarrow> type \<in> set (map js (allowed_children parent)))
               \<and> text_ok type (json_field node ''text'') \<and> attrs_ok type (json_field node ''attrs'')
               \<and> marks_ok protocol type parent (json_field node ''marks'') \<and> content_ok type (json_field node ''content'')
            then Some type else None
        | _ \<Rightarrow> None)"

section \<open>The loop\<close>

lemma size_field: "map_of kvs k = Some v \<Longrightarrow> size v < Suc (size_list (size_prod (\<lambda>_. 0) size) kvs)"
proof (induction kvs)
  case (Cons kv kvs)
  then show ?case by (cases kv) (auto split: if_splits)
qed simp

lemma children_smaller: "sum_list (map (\<lambda>c. Suc (size c)) (children node)) < Suc (size node)"
proof (cases "json_field node ''content''")
  case (Some f)
  show ?thesis
  proof (cases f)
    case (JArr cs)
    have "size f < size node" using Some by (cases node) (auto simp: json_field_def dest: size_field)
    moreover have "sum_list (map (\<lambda>c. Suc (size c)) cs) \<le> size_list size cs" by (induction cs) simp_all
    ultimately show ?thesis using Some JArr by (simp add: children_def)
  qed (use Some in \<open>simp_all add: children_def\<close>)
qed (simp add: children_def)

text \<open>The stack, its top first: the children are pushed in order, so the last one is visited next.\<close>

function check_nodes :: "(jstr \<Rightarrow> jstr option) \<Rightarrow> (json \<times> jstr \<times> nat) list \<Rightarrow> bool" where
  "check_nodes protocol [] = True"
| "check_nodes protocol ((node, parent, depth) # pending) =
     (case visit protocol node parent depth of
        None \<Rightarrow> False
      | Some type \<Rightarrow> check_nodes protocol (rev (map (\<lambda>c. (c, type, depth + 1)) (children node)) @ pending))"
  by pat_completeness auto

termination
proof (relation "measure (\<lambda>(p, pending). sum_list (map (\<lambda>(n, _, _). Suc (size n)) pending))")
  fix protocol node parent depth pending type
  have "sum_list (map (\<lambda>(n, _, _). Suc (size n)) (rev (map (\<lambda>c. (c, type, depth + 1)) (children node))))
      = sum_list (map (\<lambda>c. Suc (size c)) (children node))"
    by (simp add: rev_map [symmetric] comp_def sum_list_rev)
  then show "((protocol, rev (map (\<lambda>c. (c, type, depth + 1)) (children node)) @ pending), protocol, (node, parent, depth) # pending)
      \<in> measure (\<lambda>(p, pending). sum_list (map (\<lambda>(n, _, _). Suc (size n)) pending))"
    using children_smaller [of node] by simp
qed simp

definition is_note_document :: "(jstr \<Rightarrow> jstr option) \<Rightarrow> json \<Rightarrow> bool" where
  "is_note_document protocol v \<longleftrightarrow> json_field v ''type'' = Some (JStr (js ''doc''))
     \<and> (case json_field v ''content'' of Some (JArr (c # cs)) \<Rightarrow> True | _ \<Rightarrow> False)
     \<and> check_nodes protocol [(v, [], 0)]"

section \<open>Specification\<close>

lemma child_smaller: "c \<in> set (children node) \<Longrightarrow> size c < size node"
proof -
  assume c: "c \<in> set (children node)"
  have "Suc (size c) \<le> sum_list (map (\<lambda>c. Suc (size c)) (children node))"
    using c by (simp add: member_le_sum_list)
  then show ?thesis using children_smaller [of node] by simp
qed

function node_ok :: "(jstr \<Rightarrow> jstr option) \<Rightarrow> json \<Rightarrow> jstr \<Rightarrow> nat \<Rightarrow> bool" where
  "node_ok protocol node parent depth = (case visit protocol node parent depth of
       None \<Rightarrow> False
     | Some type \<Rightarrow> list_all (\<lambda>c. node_ok protocol c type (depth + 1)) (children node))"
  by pat_completeness auto

termination
  by (relation "measure (\<lambda>(p, node, _, _). size node)") (auto dest: child_smaller)

declare node_ok.simps [simp del]

lemma check_nodes_iff: "check_nodes protocol pending \<longleftrightarrow> list_all (\<lambda>(n, p, d). node_ok protocol n p d) pending"
proof (induction protocol pending rule: check_nodes.induct)
  case (2 protocol node parent depth pending)
  show ?case
  proof (cases "visit protocol node parent depth")
    case None
    then show ?thesis by (simp add: node_ok.simps [of protocol node])
  next
    case (Some type)
    then show ?thesis using "2.IH" [OF Some]
      by (simp add: node_ok.simps [of protocol node] list.pred_map comp_def ball_Un)
  qed
qed simp

section \<open>The transformation\<close>

definition safe_attrs :: "json \<Rightarrow> json" where
  "safe_attrs a = JObj [(js ''href'', case json_field a ''href'' of Some h \<Rightarrow> h | None \<Rightarrow> JNull),
     (js ''target'', JStr (js ''_blank'')), (js ''rel'', JStr (js ''noopener noreferrer'')), (js ''class'', JNull),
     (js ''title'', case json_field a ''title'' of Some t \<Rightarrow> t | None \<Rightarrow> JNull)]"

definition safe_mark :: "json \<Rightarrow> json" where
  "safe_mark m = (if json_field m ''type'' = Some (JStr (js ''link'')) then
     (case m of JObj kvs \<Rightarrow> JObj (map (\<lambda>(k, v). (k, if k = js ''attrs'' then safe_attrs v else v)) kvs) | _ \<Rightarrow> m) else m)"

text \<open>All nodes are visited once and changed in place, so the order does not matter.\<close>

fun sanitize :: "json \<Rightarrow> json"
  and sanitize_list :: "json list \<Rightarrow> json list"
  and sanitize_fields :: "(jstr \<times> json) list \<Rightarrow> (jstr \<times> json) list" where
  "sanitize (JObj kvs) = JObj (sanitize_fields kvs)"
| "sanitize v = v"
| "sanitize_list [] = []"
| "sanitize_list (c # cs) = sanitize c # sanitize_list cs"
| "sanitize_fields [] = []"
| "sanitize_fields ((k, v) # kvs) =
     (k, case v of
           JArr xs \<Rightarrow> JArr (if k = js ''content'' then sanitize_list xs else if k = js ''marks'' then map safe_mark xs else xs)
         | _ \<Rightarrow> v) # sanitize_fields kvs"

definition sanitize_value :: "string \<Rightarrow> json \<Rightarrow> json" where
  "sanitize_value k v = (case v of
       JArr xs \<Rightarrow> JArr (if k = ''content'' then map sanitize xs else if k = ''marks'' then map safe_mark xs else xs)
     | _ \<Rightarrow> v)"

lemma sanitize_list_map: "sanitize_list xs = map sanitize xs"
  by (induction xs) simp_all

lemma sanitize_fields_lookup: "map_of (sanitize_fields kvs) (js k) = map_option (sanitize_value k) (map_of kvs (js k))"
  by (induction kvs) (auto simp: sanitize_value_def sanitize_list_map split: json.splits)

lemma sanitize_field: "json_field (sanitize v) k = map_option (sanitize_value k) (json_field v k)"
  by (cases v) (simp_all add: json_field_def sanitize_fields_lookup)

lemma sanitize_keys: "list_all (\<lambda>(k, v). P k) (sanitize_fields kvs) = list_all (\<lambda>(k, v). P k) kvs"
  by (induction kvs) auto

lemma sanitize_strict [simp]: "z_strict ks (sanitize v) = z_strict ks v"
  by (cases v) (simp_all add: z_strict_def sanitize_keys)

lemma sanitize_scalar: "sanitize_value k (JStr x) = JStr x" "sanitize_value k (JObj kvs) = JObj kvs"
  by (simp_all add: sanitize_value_def)

lemma children_sanitize: "children (sanitize v) = map sanitize (children v)"
  by (auto simp: children_def sanitize_field sanitize_value_def split: option.splits json.splits)

lemma safe_mark_field:
  "json_field (safe_mark m) k = (if json_field m ''type'' = Some (JStr (js ''link'')) \<and> k = ''attrs''
     then map_option safe_attrs (json_field m k) else json_field m k)"
proof (cases m)
  case (JObj kvs)
  have "map_of (map (\<lambda>(k, v). (k, if k = js ''attrs'' then safe_attrs v else v)) kvs) (js k)
      = map_option (if k = ''attrs'' then safe_attrs else id) (map_of kvs (js k))"
    by (induction kvs) auto
  then show ?thesis using JObj by (cases "k = ''attrs''") (simp_all add: safe_mark_def json_field_def option.map_id)
qed (simp_all add: safe_mark_def json_field_def)

lemma safe_mark_strict: "z_strict ks (safe_mark m) = z_strict ks m"
proof (cases m)
  case (JObj kvs)
  have "list_all (\<lambda>(k, v). P k) (map (\<lambda>(k, v). (k, if k = js ''attrs'' then safe_attrs v else v)) kvs) = list_all (\<lambda>(k, v). P k) kvs" for P
    by (induction kvs) auto
  then show ?thesis using JObj by (simp add: safe_mark_def z_strict_def)
qed (simp_all add: safe_mark_def)

lemma safe_attrs_field:
  "json_field (safe_attrs a) ''href'' = Some (case json_field a ''href'' of Some h \<Rightarrow> h | None \<Rightarrow> JNull)"
  "json_field (safe_attrs a) ''target'' = Some (JStr (js ''_blank''))"
  "json_field (safe_attrs a) ''rel'' = Some (JStr (js ''noopener noreferrer''))"
  "json_field (safe_attrs a) ''class'' = Some JNull"
  "json_field (safe_attrs a) ''title'' = Some (case json_field a ''title'' of Some h \<Rightarrow> h | None \<Rightarrow> JNull)"
  by (simp_all add: safe_attrs_def json_field_def)

lemma safe_attrs_strict: "z_strict [''href'', ''target'', ''rel'', ''class'', ''title''] (safe_attrs a)"
  by (simp add: z_strict_def safe_attrs_def)

lemma link_ok_href:
  assumes "link_ok protocol (Some a)"
  obtains href where "json_field a ''href'' = Some (JStr href)" and "protocol href \<in> safe_protocols"
proof -
  from assms have *: "case json_field a ''href'' of Some (JStr href) \<Rightarrow> protocol href \<in> safe_protocols | _ \<Rightarrow> False"
    by (simp add: link_ok_def)
  then show ?thesis using that by (cases "json_field a ''href''") (auto split: json.splits)
qed

lemma link_ok_safe:
  assumes "link_ok protocol (Some a)"
  shows "link_ok protocol (Some (safe_attrs a))"
proof -
  obtain href where h: "json_field a ''href'' = Some (JStr href)" "protocol href \<in> safe_protocols"
    by (rule link_ok_href [OF assms])
  have t: "json_field a ''title'' = None \<or> json_field a ''title'' = Some JNull \<or> is_str (json_field a ''title'')"
    using assms by (simp add: link_ok_def)
  show ?thesis using h t
    by (cases "json_field a ''title''")
       (simp_all add: link_ok_def safe_attrs_strict safe_attrs_field absent_or_in_def is_str_def)
qed

lemma mark_ok_safe:
  assumes "mark_ok protocol m"
  shows "mark_ok protocol (safe_mark m)"
proof (cases "json_field m ''type'' = Some (JStr (js ''link''))")
  case True
  then obtain a where "json_field m ''attrs'' = Some a" "link_ok protocol (Some a)"
    using assms by (auto simp: mark_ok_def link_ok_def split: option.splits)
  then show ?thesis using assms True link_ok_safe by (simp add: mark_ok_def safe_mark_field safe_mark_strict)
next
  case False
  then show ?thesis using assms by (simp add: safe_mark_def)
qed

lemma is_object_sanitize: "is_object (sanitize c) = is_object c"
  by (cases c) (simp_all add: is_object_def)

lemma type_sanitize: "json_field (sanitize c) ''type'' = Some (JStr t) \<longleftrightarrow> json_field c ''type'' = Some (JStr t)"
proof (cases "json_field c ''type''")
  case (Some j)
  then show ?thesis by (cases j) (simp_all add: sanitize_field sanitize_value_def)
qed (simp add: sanitize_field)

lemma content_ok_sanitize: "content_ok type (map_option (sanitize_value ''content'') f) = content_ok type f"
proof (cases f)
  case (Some j)
  then show ?thesis
  proof (cases j)
    case (JArr cs)
    then show ?thesis using Some
      by (cases cs) (simp_all add: content_ok_def sanitize_value_def is_object_sanitize type_sanitize)
  qed (simp_all add: sanitize_value_def)
qed simp

lemma marks_ok_sanitize: "marks_ok protocol type parent f \<Longrightarrow> marks_ok protocol type parent (map_option (sanitize_value ''marks'') f)"
  by (auto simp: marks_ok_def sanitize_value_def list_all_iff mark_ok_safe split: option.splits json.splits)

lemma text_ok_sanitize: "text_ok type (map_option (sanitize_value ''text'') f) = text_ok type f"
  by (cases f) (simp_all add: text_ok_def sanitize_value_def split: json.splits)

lemma attrs_sanitize: "(\<And>xs. f \<noteq> Some (JArr xs)) \<Longrightarrow> map_option (sanitize_value ''attrs'') f = f"
  by (cases f) (simp_all add: sanitize_value_def split: json.splits)

lemma visit_sanitize:
  assumes "visit protocol v parent depth = Some type"
  shows "visit protocol (sanitize v) parent depth = Some type"
proof -
  have t: "json_field v ''type'' = Some (JStr type)" and ok: "depth \<le> 64" "z_strict [''type'', ''content'', ''attrs'', ''text'', ''marks''] v"
    "depth > 0 \<longrightarrow> type \<in> set (map js (allowed_children parent))" "text_ok type (json_field v ''text'')"
    "attrs_ok type (json_field v ''attrs'')" "marks_ok protocol type parent (json_field v ''marks'')"
    "content_ok type (json_field v ''content'')"
    using assms by (auto simp: visit_def split: if_splits option.splits json.splits)
  have "json_field v ''attrs'' \<noteq> Some (JArr xs)" for xs using ok(5) by (auto simp: attrs_ok_def is_object_def)
  then have a: "json_field (sanitize v) ''attrs'' = json_field v ''attrs''" by (simp add: sanitize_field attrs_sanitize)
  have f: "text_ok type (json_field (sanitize v) ''text'')" "attrs_ok type (json_field (sanitize v) ''attrs'')"
    "marks_ok protocol type parent (json_field (sanitize v) ''marks'')" "content_ok type (json_field (sanitize v) ''content'')"
    using ok by (simp_all add: a) (simp_all add: sanitize_field text_ok_sanitize marks_ok_sanitize content_ok_sanitize)
  have "json_field (sanitize v) ''type'' = Some (JStr type)" using t by (simp add: type_sanitize)
  then show ?thesis using ok(1-3) f by (simp add: visit_def)
qed

lemma node_ok_sanitize: "node_ok protocol v parent depth \<Longrightarrow> node_ok protocol (sanitize v) parent depth"
proof (induction protocol v parent depth rule: node_ok.induct)
  case (1 protocol v parent depth)
  obtain type where t: "visit protocol v parent depth = Some type"
    and c: "list_all (\<lambda>c. node_ok protocol c type (depth + 1)) (children v)"
    using "1.prems" by (subst (asm) node_ok.simps) (auto split: option.splits)
  have "\<forall>c \<in> set (children v). node_ok protocol (sanitize c) type (depth + 1)"
    using "1.IH" [OF t] c by (simp add: list_all_iff)
  then show ?case
    using visit_sanitize [OF t] by (subst node_ok.simps) (simp add: children_sanitize list_all_iff)
qed

text \<open>All marks of a document.\<close>

definition node_marks :: "json \<Rightarrow> json list" where
  "node_marks node = (case json_field node ''marks'' of Some (JArr ms) \<Rightarrow> ms | _ \<Rightarrow> [])"

function all_marks :: "json \<Rightarrow> json list" where
  "all_marks node = node_marks node @ concat (map all_marks (children node))"
  by pat_completeness auto

termination
  by (relation "measure size") (auto dest: child_smaller)

declare all_marks.simps [simp del]

definition safe_link :: "(jstr \<Rightarrow> jstr option) \<Rightarrow> json \<Rightarrow> bool" where
  "safe_link protocol m \<longleftrightarrow> (json_field m ''type'' = Some (JStr (js ''link'')) \<longrightarrow>
     (case json_field m ''attrs'' of
        None \<Rightarrow> False
      | Some a \<Rightarrow> (case json_field a ''href'' of Some (JStr h) \<Rightarrow> protocol h \<in> safe_protocols | _ \<Rightarrow> False)
          \<and> json_field a ''target'' = Some (JStr (js ''_blank'')) \<and> json_field a ''rel'' = Some (JStr (js ''noopener noreferrer''))))"

lemma safe_mark_link:
  assumes "mark_ok protocol m"
  shows "safe_link protocol (safe_mark m)"
proof (cases "json_field m ''type'' = Some (JStr (js ''link''))")
  case True
  then obtain a where a: "json_field m ''attrs'' = Some a" "link_ok protocol (Some a)"
    using assms by (auto simp: mark_ok_def link_ok_def split: option.splits)
  obtain href where "json_field a ''href'' = Some (JStr href)" "protocol href \<in> safe_protocols"
    by (rule link_ok_href [OF a(2)])
  then show ?thesis using True a(1) by (simp add: safe_link_def safe_mark_field safe_attrs_field)
qed (simp add: safe_link_def safe_mark_field)

lemma node_marks_sanitize:
  assumes "visit protocol v parent depth = Some type"
  shows "\<forall>m \<in> set (node_marks (sanitize v)). safe_link protocol m"
proof -
  have m: "marks_ok protocol type parent (json_field v ''marks'')"
    using assms by (auto simp: visit_def split: if_splits option.splits json.splits)
  show ?thesis
  proof (cases "json_field v ''marks''")
    case (Some j)
    then show ?thesis using m
      by (cases j) (auto simp: node_marks_def sanitize_field sanitize_value_def marks_ok_def list_all_iff safe_mark_link)
  qed (simp add: node_marks_def sanitize_field)
qed

lemma all_marks_sanitize: "node_ok protocol v parent depth \<Longrightarrow> \<forall>m \<in> set (all_marks (sanitize v)). safe_link protocol m"
proof (induction protocol v parent depth rule: node_ok.induct)
  case (1 protocol v parent depth)
  obtain type where t: "visit protocol v parent depth = Some type"
    and c: "list_all (\<lambda>c. node_ok protocol c type (depth + 1)) (children v)"
    using "1.prems" by (subst (asm) node_ok.simps) (auto split: option.splits)
  have "\<forall>c \<in> set (children v). \<forall>m \<in> set (all_marks (sanitize c)). safe_link protocol m"
    using "1.IH" [OF t] c by (simp add: list_all_iff)
  then show ?case
    using node_marks_sanitize [OF t] by (subst all_marks.simps) (auto simp: children_sanitize)
qed

section \<open>Properties\<close>

text \<open>
  The loop over the stack always ends and accepts exactly the documents of the recursive
  specification: a node passes when it passes the checks of its own and so do all nodes below it.
\<close>

theorem document_check_is_recursive:
  "is_note_document protocol v \<longleftrightarrow> json_field v ''type'' = Some (JStr (js ''doc'')) \<and> children v \<noteq> [] \<and> node_ok protocol v [] 0"
proof -
  have "(case json_field v ''content'' of Some (JArr (c # cs)) \<Rightarrow> True | _ \<Rightarrow> False) \<longleftrightarrow> children v \<noteq> []"
    by (auto simp: children_def split: option.splits json.splits list.splits)
  then show ?thesis by (simp add: is_note_document_def check_nodes_iff)
qed

text \<open>
  What is stored is safe to show: in a document that was accepted and transformed every link leads
  to http, https or a mail address, opens in a new window and gives it no access to the page; and the
  transformed document is accepted again.
\<close>

theorem stored_documents_are_safe:
  assumes "is_note_document protocol v"
  shows "(\<forall>m \<in> set (all_marks (sanitize v)). safe_link protocol m) \<and> is_note_document protocol (sanitize v)"
proof -
  have n: "node_ok protocol v [] 0" using assms by (simp add: is_note_document_def check_nodes_iff)
  have "(case json_field (sanitize v) ''content'' of Some (JArr (c # cs)) \<Rightarrow> True | _ \<Rightarrow> False)"
    using assms by (auto simp: is_note_document_def sanitize_field sanitize_value_def split: option.splits json.splits list.splits)
  then show ?thesis
    using assms all_marks_sanitize [OF n] node_ok_sanitize [OF n]
    by (simp add: is_note_document_def check_nodes_iff type_sanitize)
qed

definition demo_note :: json where
  "demo_note = JObj [(js ''type'', JStr (js ''doc'')), (js ''content'', JArr [JObj [(js ''type'', JStr (js ''paragraph'')),
     (js ''content'', JArr [JObj [(js ''type'', JStr (js ''text'')), (js ''text'', JStr (js ''hi'')),
       (js ''marks'', JArr [JObj [(js ''type'', JStr (js ''link'')), (js ''attrs'', JObj [(js ''href'', JStr (js ''u''))])]])]])]])]"

theorem stored_documents_are_safe_witness:
  "all_marks (sanitize demo_note) \<noteq> [] \<and> list_all (safe_link (\<lambda>h. Some (js ''https:''))) (all_marks (sanitize demo_note))"
proof -
  have "is_note_document (\<lambda>h. Some (js ''https:'')) demo_note" by code_simp
  from stored_documents_are_safe [OF this] have "\<forall>m \<in> set (all_marks (sanitize demo_note)). safe_link (\<lambda>h. Some (js ''https:'')) m"
    by (rule conjunct1)
  moreover have "length (all_marks (sanitize demo_note)) = 1" by code_simp
  ultimately show ?thesis by (auto simp: list_all_iff)
qed

end
