(* ===== verification/Notes.thy ===== *)
theory Notes
  imports Users Note_Documents
begin

text \<open>
  \<^verbatim>\<open>backend/src/notes/routes.ts\<close>: shared notes with an owner, grants to other users and a revision that
  guards against lost updates. The header of the replies and the limit of lookups are left out.
\<close>

section \<open>What is shown\<close>

definition visible_to :: "db \<Rightarrow> jstr \<Rightarrow> note_row \<Rightarrow> bool" where
  "visible_to d user n \<longleftrightarrow> n_owner n = user \<or> list_ex (\<lambda>g. g_note g = n_id n \<and> g_user g = user) (db_grants d)"

definition writable_by :: "db \<Rightarrow> jstr \<Rightarrow> note_row \<Rightarrow> bool" where
  "writable_by d user n \<longleftrightarrow> n_owner n = user \<or> list_ex (\<lambda>g. g_note g = n_id n \<and> g_user g = user \<and> g_write g) (db_grants d)"

record note_view =
  nv_id :: jstr
  nv_title :: jstr
  nv_owner :: jstr
  nv_revision :: int
  nv_updated :: int
  nv_can_write :: bool
  nv_is_owner :: bool
  nv_shared :: bool
  nv_grants :: "(jstr \<times> bool) list"

definition grants_of :: "jstr \<Rightarrow> db \<Rightarrow> grant_row list" where
  "grants_of i d = filter (\<lambda>g. g_note g = i) (db_grants d)"

definition present_note :: "db \<Rightarrow> jstr \<Rightarrow> note_row \<Rightarrow> note_view" where
  "present_note d user n =
     (let grants = grants_of (n_id n) d; is_owner = (n_owner n = user) in
      \<lparr>nv_id = n_id n, nv_title = n_title n, nv_owner = n_owner n, nv_revision = n_revision n, nv_updated = n_updated n,
       nv_can_write = (is_owner \<or> list_ex (\<lambda>g. g_user g = user \<and> g_write g) grants), nv_is_owner = is_owner,
       nv_shared = (grants \<noteq> []), nv_grants = (if is_owner then map (\<lambda>g. (g_user g, g_write g)) grants else [])\<rparr>)"

definition find_visible_note :: "jstr \<Rightarrow> jstr \<Rightarrow> db \<Rightarrow> note_row option" where
  "find_visible_note user i d = find (\<lambda>n. n_id n = i \<and> visible_to d user n) (db_notes d)"

definition get_notes :: "request \<Rightarrow> service \<Rightarrow> service \<times> note_view list reply" where
  "get_notes = reading (\<lambda>sc rq s. (s, Answered 200 (map (present_note (sv_db s) (sc_user sc))
     (rev (sort_key n_updated (filter (visible_to (sv_db s) (sc_user sc)) (db_notes (sv_db s))))))))"

definition get_note :: "jstr \<Rightarrow> request \<Rightarrow> service \<Rightarrow> service \<times> (note_view \<times> json) reply" where
  "get_note i = reading (\<lambda>sc rq s. (s, case find_visible_note (sc_user sc) i (sv_db s) of
       None \<Rightarrow> Refused 404 (js ''Notiz nicht gefunden'')
     | Some n \<Rightarrow> Answered 200 (present_note (sv_db s) (sc_user sc) n, n_content n)))"

section \<open>Bodies\<close>

definition z_document :: "(jstr \<Rightarrow> jstr option) \<Rightarrow> json reader" where
  "z_document protocol f = (case f of None \<Rightarrow> None
     | Some v \<Rightarrow> if is_note_document protocol v then Some (sanitize v) else None)"

text \<open>A title is trimmed and not empty; it has no upper bound.\<close>

definition z_title :: "jstr reader" where
  "z_title f = (case f of Some (JStr s) \<Rightarrow> if trim s = [] then None else Some (trim s) | _ \<Rightarrow> None)"

definition parse_create_note :: "(jstr \<Rightarrow> jstr option) \<Rightarrow> json \<Rightarrow> (jstr option \<times> json option) option" where
  "parse_create_note protocol body = (if \<not> z_strict [''title'', ''content''] body then None else
     case (z_optional z_title (json_field body ''title''), z_optional (z_document protocol) (json_field body ''content'')) of
       (Some t, Some c) \<Rightarrow> Some (t, c) | _ \<Rightarrow> None)"

record note_patch =
  np_revision :: int
  np_title :: "jstr option"
  np_content :: "json option"

definition z_revision :: "int reader" where
  "z_revision f = (case f of Some (JNum x) \<Rightarrow> if x = of_int \<lfloor>x\<rfloor> \<and> 0 \<le> x then Some \<lfloor>x\<rfloor> else None | _ \<Rightarrow> None)"

definition parse_update_note :: "(jstr \<Rightarrow> jstr option) \<Rightarrow> json \<Rightarrow> note_patch option" where
  "parse_update_note protocol body = (if \<not> z_strict [''revision'', ''title'', ''content''] body then None else
     case (z_revision (json_field body ''revision''), z_optional z_title (json_field body ''title''),
           z_optional (z_document protocol) (json_field body ''content'')) of
       (Some r, Some t, Some c) \<Rightarrow> if t = None \<and> c = None then None
          else Some \<lparr>np_revision = r, np_title = t, np_content = c\<rparr>
     | _ \<Rightarrow> None)"

definition z_grant :: "(jstr \<times> bool) reader" where
  "z_grant f = (case f of None \<Rightarrow> None
     | Some g \<Rightarrow> if \<not> z_strict [''userId'', ''canWrite''] g then None else
         (case (z_string 1 160 (json_field g ''userId''), z_bool (json_field g ''canWrite'')) of
            (Some u, Some w) \<Rightarrow> Some (u, w) | _ \<Rightarrow> None))"

definition parse_note_access :: "json \<Rightarrow> (jstr \<times> bool) list option" where
  "parse_note_access body =
     (if z_strict [''users''] body then z_array 0 10000 z_grant (json_field body ''users'') else None)"

section \<open>Changes\<close>

text \<open>The defaults of the columns: a title and an empty document.\<close>

definition default_title :: jstr where "default_title = js ''Neue Notiz''"
definition default_content :: json where
  "default_content = JObj [(js ''type'', JStr (js ''doc'')), (js ''content'', JArr [JObj [(js ''type'', JStr (js ''paragraph''))]])]"

definition create_note :: "int \<Rightarrow> jstr \<Rightarrow> jstr \<Rightarrow> jstr option \<times> json option \<Rightarrow> db \<Rightarrow> (db \<times> note_row) option" where
  "create_note now i user body d =
     (if find_user d user = None \<or> i \<in> n_id ` set (db_notes d) then None
      else (let n = \<lparr>n_id = i, n_title = (case fst body of Some t \<Rightarrow> t | None \<Rightarrow> default_title),
                     n_content = (case snd body of Some c \<Rightarrow> c | None \<Rightarrow> default_content),
                     n_revision = 0, n_owner = user, n_updated = now\<rparr>
            in Some (d\<lparr>db_notes := db_notes d @ [n]\<rparr>, n)))"

definition post_note :: "(code_unit \<Rightarrow> jstr) \<Rightarrow> (jstr \<Rightarrow> jstr option) \<Rightarrow> int \<Rightarrow> jstr \<Rightarrow> json \<Rightarrow> request \<Rightarrow> service
    \<Rightarrow> service \<times> (note_view \<times> json) reply" where
  "post_note low protocol now i body = writing (\<lambda>sc rq s.
     case parse_create_note protocol body of
       None \<Rightarrow> (s, Rejected)
     | Some b \<Rightarrow> (case create_note now i (sc_user sc) b (sv_db s) of
           None \<Rightarrow> (s, Crashed)
         | Some (d, n) \<Rightarrow> (audit low now rq ''NOTE_CREATE'' (Some ''Note'') (Some (n_id n)) None (s\<lparr>sv_db := d\<rparr>),
             Answered 201 (present_note d (sc_user sc) n, n_content n))))"

definition apply_note_patch :: "int \<Rightarrow> note_patch \<Rightarrow> note_row \<Rightarrow> note_row" where
  "apply_note_patch now p n = n\<lparr>n_title := (case np_title p of Some t \<Rightarrow> t | None \<Rightarrow> n_title n),
     n_content := (case np_content p of Some c \<Rightarrow> c | None \<Rightarrow> n_content n), n_revision := n_revision n + 1, n_updated := now\<rparr>"

text \<open>The conditional update and what the user may still see afterwards.\<close>

definition update_note :: "int \<Rightarrow> jstr \<Rightarrow> jstr \<Rightarrow> note_patch \<Rightarrow> db \<Rightarrow> db \<times> bool \<times> note_row option" where
  "update_note now user i p d =
     (let hit = (\<lambda>n. n_id n = i \<and> n_revision n = np_revision p \<and> writable_by d user n);
          d' = d\<lparr>db_notes := map (\<lambda>n. if hit n then apply_note_patch now p n else n) (db_notes d)\<rparr>
      in (d', length (filter hit (db_notes d)) = 1, find_visible_note user i d'))"

definition patch_note :: "(jstr \<Rightarrow> jstr option) \<Rightarrow> int \<Rightarrow> jstr \<Rightarrow> json \<Rightarrow> request \<Rightarrow> service \<Rightarrow> service \<times> note_view reply" where
  "patch_note protocol now i body = writing (\<lambda>sc rq s.
     case parse_update_note protocol body of
       None \<Rightarrow> (s, Rejected)
     | Some p \<Rightarrow> (case update_note now (sc_user sc) i p (sv_db s) of
           (d, changed, None) \<Rightarrow> (s\<lparr>sv_db := d\<rparr>, Refused 404 (js ''Notiz nicht gefunden''))
         | (d, changed, Some n) \<Rightarrow> (s\<lparr>sv_db := d\<rparr>,
             if \<not> nv_can_write (present_note d (sc_user sc) n)
             then Refused 403 (js ''Du hast nur Leserechte f'' @ [252] @ js ''r diese Notiz'')
             else if \<not> changed then Refused 409 (js ''Diese Notiz wurde inzwischen ge'' @ [228] @
               js ''ndert. Deine '' @ [196] @ js ''nderungen wurden nicht '' @ [252] @ js ''berschrieben.'')
             else Answered 200 (present_note d (sc_user sc) n))))"

definition owned_note :: "jstr \<Rightarrow> jstr \<Rightarrow> db \<Rightarrow> bool" where
  "owned_note user i d \<longleftrightarrow> list_ex (\<lambda>n. n_id n = i \<and> n_owner n = user) (db_notes d)"

text \<open>\<open>None\<close>: not the owner. \<open>Some None\<close>: an invalid selection.\<close>

definition set_note_access :: "jstr \<Rightarrow> jstr \<Rightarrow> (jstr \<times> bool) list \<Rightarrow> db \<Rightarrow> (db \<times> (jstr \<times> bool) list) option option" where
  "set_note_access user i users d =
     (if \<not> owned_note user i d then None
      else (let ids = map fst users in
        if user \<in> set ids \<or> length (uniq ids) \<noteq> length ids
           \<or> length (filter (\<lambda>u. u_id u \<in> set ids \<and> u_status u = ACTIVE) (db_users d)) \<noteq> length ids then Some None
        else (let d' = d\<lparr>db_grants := filter (\<lambda>g. g_note g \<noteq> i) (db_grants d)
                  @ map (\<lambda>(u, w). \<lparr>g_note = i, g_user = u, g_write = w\<rparr>) users\<rparr>
              in Some (Some (d', map (\<lambda>g. (g_user g, g_write g)) (grants_of i d'))))))"

definition grant_json :: "jstr \<times> bool \<Rightarrow> json" where
  "grant_json g = JObj [(js ''userId'', JStr (fst g)), (js ''canWrite'', JBool (snd g))]"

definition put_note_access :: "(code_unit \<Rightarrow> jstr) \<Rightarrow> int \<Rightarrow> jstr \<Rightarrow> json \<Rightarrow> request \<Rightarrow> service
    \<Rightarrow> service \<times> (jstr \<times> bool) list reply" where
  "put_note_access low now i body = writing (\<lambda>sc rq s.
     case parse_note_access body of
       None \<Rightarrow> (s, Rejected)
     | Some users \<Rightarrow> (case set_note_access (sc_user sc) i users (sv_db s) of
           None \<Rightarrow> (s, Refused 404 (js ''Nur der Ersteller kann Zugriffsrechte '' @ [228] @ js ''ndern''))
         | Some None \<Rightarrow> (s, Refused 400 ([85, 110, 103, 252] @ js ''ltige Nutzerauswahl''))
         | Some (Some (d, gs)) \<Rightarrow> (audit low now rq ''NOTE_ACCESS_UPDATE'' (Some ''Note'') (Some i)
             (Some (JObj [(js ''users'', JArr (map grant_json users))])) (s\<lparr>sv_db := d\<rparr>), Answered 200 gs)))"

definition post_note_lookup :: "jstr \<Rightarrow> json \<Rightarrow> request \<Rightarrow> service \<Rightarrow> service \<times> (jstr \<times> jstr) reply" where
  "post_note_lookup i body = writing (\<lambda>sc rq s. (s,
     if \<not> owned_note (sc_user sc) i (sv_db s)
     then Refused 404 (js ''Nur der Ersteller kann Zugriffsrechte '' @ [228] @ js ''ndern'')
     else case parse_access_lookup body of
         None \<Rightarrow> Rejected
       | Some name \<Rightarrow> (case find_access_user name (sv_db s) of
             None \<Rightarrow> Refused 404 (js ''Nicht registrierter Benutzername'')
           | Some u \<Rightarrow> Answered 200 u)))"

text \<open>Deleting a note deletes its grants.\<close>

definition delete_note :: "(code_unit \<Rightarrow> jstr) \<Rightarrow> int \<Rightarrow> jstr \<Rightarrow> request \<Rightarrow> service \<Rightarrow> service \<times> unit reply" where
  "delete_note low now i = writing (\<lambda>sc rq s.
     if \<not> owned_note (sc_user sc) i (sv_db s)
     then (s, Refused 404 (js ''Nur der Ersteller kann diese Notiz l'' @ [246] @ js ''schen''))
     else (let d = sv_db s;
               d' = d\<lparr>db_notes := filter (\<lambda>n. \<not> (n_id n = i \<and> n_owner n = sc_user sc)) (db_notes d),
                      db_grants := filter (\<lambda>g. g_note g \<noteq> i) (db_grants d)\<rparr>
           in (audit low now rq ''NOTE_DELETE'' (Some ''Note'') (Some i) None (s\<lparr>sv_db := d'\<rparr>), Answered 204 ())))"

end
