(* ===== verification/Note_History.thy ===== *)
theory Note_History
  imports Notes
begin

text \<open>
  Histories of note requests. The revision of a note makes accepted edits a chain: no edit is accepted
  that was made on an older text. Whoever cannot write a note leaves it and its grants as they are.
\<close>

section \<open>Histories\<close>

datatype note_event = N_create jstr json | N_patch jstr json | N_share jstr json | N_delete jstr

type_synonym note_lib = "(code_unit \<Rightarrow> jstr) \<times> (jstr \<Rightarrow> jstr option)"
type_synonym note_request = "int \<times> request \<times> note_event"

fun note_call :: "note_lib \<Rightarrow> note_request \<Rightarrow> service \<Rightarrow> service \<times> int" where
  "note_call lib (now, rq, N_create i body) s = coded (post_note (fst lib) (snd lib) now i body rq s)"
| "note_call lib (now, rq, N_patch i body) s = coded (patch_note (snd lib) now i body rq s)"
| "note_call lib (now, rq, N_share i body) s = coded (put_note_access (fst lib) now i body rq s)"
| "note_call lib (now, rq, N_delete i) s = coded (delete_note (fst lib) now i rq s)"

definition note_step :: "note_lib \<Rightarrow> note_request \<Rightarrow> service \<Rightarrow> service" where
  "note_step lib ev s = fst (note_call lib ev s)"

text \<open>The revision an accepted edit of the note was made on.\<close>

fun accepted :: "note_lib \<Rightarrow> jstr \<Rightarrow> note_request \<Rightarrow> service \<Rightarrow> int list" where
  "accepted lib i (now, rq, N_patch j body) s =
     (if j = i \<and> snd (note_call lib (now, rq, N_patch j body) s) = 200
      then (case parse_update_note (snd lib) body of Some p \<Rightarrow> [np_revision p] | None \<Rightarrow> []) else [])"
| "accepted lib i ev s = []"

fun edits :: "note_lib \<Rightarrow> jstr \<Rightarrow> note_request list \<Rightarrow> service \<Rightarrow> int list" where
  "edits lib i [] s = []"
| "edits lib i (ev # evs) s = accepted lib i ev s @ edits lib i evs (note_step lib ev s)"

definition creates :: "jstr \<Rightarrow> note_request \<Rightarrow> bool" where
  "creates i ev \<longleftrightarrow> (\<exists>body. snd (snd ev) = N_create i body)"

lemma creates_simps [simp]:
  "creates i (now, rq, N_create j body) \<longleftrightarrow> j = i" "\<not> creates i (now, rq, N_patch j body)"
  "\<not> creates i (now, rq, N_share j body)" "\<not> creates i (now, rq, N_delete j)"
  by (auto simp: creates_def)

section \<open>One note\<close>

definition find_note :: "jstr \<Rightarrow> db \<Rightarrow> note_row option" where
  "find_note i d = find (\<lambda>n. n_id n = i) (db_notes d)"

lemma find_note_in: "find_note i d = Some n \<Longrightarrow> n \<in> set (db_notes d) \<and> n_id n = i"
  unfolding find_note_def by (rule find_Some_in)

lemma find_note_row: "distinct (map n_id (db_notes d)) \<Longrightarrow> n \<in> set (db_notes d) \<Longrightarrow> find_note (n_id n) d = Some n"
  unfolding find_note_def by (rule find_key)

lemma find_unique:
  assumes "distinct (map key xs)"
  shows "find (\<lambda>x. key x = i \<and> P x) xs = (case find (\<lambda>x. key x = i) xs of Some x \<Rightarrow> if P x then Some x else None | None \<Rightarrow> None)"
  using assms
proof (induction xs)
  case (Cons x xs)
  show ?case
  proof (cases "key x = i")
    case True
    then have "\<forall>y \<in> set xs. key y \<noteq> i" using Cons.prems by (simp add: image_iff) metis
    then have "find (\<lambda>x. key x = i \<and> P x) xs = None" by (simp add: find_None_iff)
    then show ?thesis using True by simp
  next
    case False
    then show ?thesis using Cons by simp
  qed
qed simp

lemma filter_unique:
  assumes "distinct (map key xs)"
  shows "length (filter (\<lambda>x. key x = i \<and> P x) xs) = (case find (\<lambda>x. key x = i) xs of Some x \<Rightarrow> if P x then 1 else 0 | None \<Rightarrow> 0)"
proof -
  have no: "length (filter (\<lambda>x. key x = i \<and> P x) ys) = 0" if "i \<notin> key ` set ys" for ys
    using that by (induction ys) auto
  show ?thesis using assms
  proof (induction xs)
    case (Cons x xs)
    show ?case
    proof (cases "key x = i")
      case True
      then have "i \<notin> key ` set xs" using Cons.prems by auto
      then show ?thesis using no [of xs] True by simp
    next
      case False
      then show ?thesis using Cons by simp
    qed
  qed simp
qed

lemma find_visible:
  "distinct (map n_id (db_notes d)) \<Longrightarrow> find_visible_note user i d
     = (case find_note i d of Some n \<Rightarrow> if visible_to d user n then Some n else None | None \<Rightarrow> None)"
  unfolding find_visible_note_def find_note_def by (rule find_unique)

lemma present_can_write: "nv_can_write (present_note d user n) = writable_by d user n"
  by (auto simp: present_note_def Let_def writable_by_def grants_of_def list_ex_iff)

lemma writable_visible: "writable_by d user n \<Longrightarrow> visible_to d user n"
  by (auto simp: writable_by_def visible_to_def list_ex_iff)

lemma patch_fields [simp]: "n_id (apply_note_patch now p n) = n_id n" "n_owner (apply_note_patch now p n) = n_owner n"
  "n_revision (apply_note_patch now p n) = n_revision n + 1"
  by (simp_all add: apply_note_patch_def)

lemma visible_cong: "db_grants d' = db_grants d \<Longrightarrow> n_id m = n_id n \<Longrightarrow> n_owner m = n_owner n
    \<Longrightarrow> visible_to d' u m = visible_to d u n \<and> writable_by d' u m = writable_by d u n"
  by (simp add: visible_to_def writable_by_def)

lemma notes_after_patch:
  assumes "distinct (map n_id (db_notes d))" and "update_note now user i p d = (d', changed, shown)"
  shows "db_grants d' = db_grants d" "map n_id (db_notes d') = map n_id (db_notes d)"
    and "j \<noteq> i \<Longrightarrow> find_note j d' = find_note j d"
    and "changed \<longleftrightarrow> (\<exists>n. find_note i d = Some n \<and> n_revision n = np_revision p \<and> writable_by d user n)"
    and "find_note i d' = (if changed then map_option (apply_note_patch now p) (find_note i d) else find_note i d)"
    and "shown = find_visible_note user i d'"
proof -
  let ?hit = "\<lambda>n. n_id n = i \<and> n_revision n = np_revision p \<and> writable_by d user n"
  have d': "d' = d\<lparr>db_notes := map (\<lambda>n. if ?hit n then apply_note_patch now p n else n) (db_notes d)\<rparr>"
    and c: "changed \<longleftrightarrow> length (filter ?hit (db_notes d)) = 1" and s: "shown = find_visible_note user i d'"
    using assms(2) by (auto simp: update_note_def Let_def)
  show "db_grants d' = db_grants d" by (simp add: d')
  show "map n_id (db_notes d') = map n_id (db_notes d)" by (simp add: d' comp_def)
  have f: "find (\<lambda>n. n_id n = j) (map (\<lambda>n. if ?hit n then apply_note_patch now p n else n) ns)
      = map_option (\<lambda>n. if ?hit n then apply_note_patch now p n else n) (find (\<lambda>n. n_id n = j) ns)" for ns j
    by (induction ns) auto
  have g: "find_note j d' = map_option (\<lambda>n. if ?hit n then apply_note_patch now p n else n) (find_note j d)" for j
    by (simp add: find_note_def d' f)
  show ch: "changed \<longleftrightarrow> (\<exists>n. find_note i d = Some n \<and> n_revision n = np_revision p \<and> writable_by d user n)"
    unfolding c using filter_unique [OF assms(1), of i "\<lambda>n. n_revision n = np_revision p \<and> writable_by d user n"]
    by (auto simp: find_note_def split: option.splits)
  show "find_note j d' = find_note j d" if "j \<noteq> i"
    using g [of j] find_note_in [of j d] that by (cases "find_note j d") auto
  show "find_note i d' = (if changed then map_option (apply_note_patch now p) (find_note i d) else find_note i d)"
    using g [of i] find_note_in [of i d] ch by (cases "find_note i d") auto
  show "shown = find_visible_note user i d'" by (rule s)
qed

section \<open>One step\<close>

lemma db_ok_notes:
  assumes "db_ok d" and "distinct (map n_id ns)" and "n_owner ` set ns \<subseteq> u_id ` set (db_users d)"
    and "distinct (map (\<lambda>g. (g_note g, g_user g)) gs)"
    and "\<And>g. g \<in> set gs \<Longrightarrow> g_note g \<in> n_id ` set ns" and "\<And>g. g \<in> set gs \<Longrightarrow> g_user g \<in> u_id ` set (db_users d)"
  shows "db_ok (d\<lparr>db_notes := ns, db_grants := gs\<rparr>)"
proof -
  have "refs_ok (d\<lparr>db_notes := ns, db_grants := gs\<rparr>)"
    using assms(1,3,5,6) by (auto simp: db_ok_def refs_ok_def Let_def)
  then show ?thesis using assms(1,2,4) by (simp add: db_ok_def keys_ok_def)
qed

lemma note_rows:
  assumes "db_ok d"
  shows "distinct (map n_id (db_notes d))" and "distinct (map (\<lambda>g. (g_note g, g_user g)) (db_grants d))"
    and "n_owner ` set (db_notes d) \<subseteq> u_id ` set (db_users d)"
    and "g \<in> set (db_grants d) \<Longrightarrow> g_note g \<in> n_id ` set (db_notes d)"
    and "g \<in> set (db_grants d) \<Longrightarrow> g_user g \<in> u_id ` set (db_users d)"
  using assms refs_okD [of d] by (auto simp: db_ok_def keys_ok_def)

lemma create_note_ok: "db_ok d \<Longrightarrow> create_note now i user b d = Some (d', n) \<Longrightarrow> db_ok d'"
  using db_ok_notes [of d "db_notes d @ [n]" "db_grants d"] note_rows [of d]
  by (auto simp: create_note_def Let_def find_user_None split: if_splits)

lemma update_note_ok:
  assumes "db_ok d"
  shows "db_ok (fst (update_note now user i p d))"
proof -
  let ?hit = "\<lambda>n. n_id n = i \<and> n_revision n = np_revision p \<and> writable_by d user n"
  let ?ns = "map (\<lambda>n. if ?hit n then apply_note_patch now p n else n) (db_notes d)"
  have k: "map n_id ?ns = map n_id (db_notes d)" "map n_owner ?ns = map n_owner (db_notes d)" by simp_all
  have e: "n_id ` set ?ns = n_id ` set (db_notes d)" by (rule set_of_keys [OF k(1)])
  have o: "n_owner ` set ?ns = n_owner ` set (db_notes d)" by (rule set_of_keys [OF k(2)])
  have "db_ok (d\<lparr>db_notes := ?ns, db_grants := db_grants d\<rparr>)"
    by (rule db_ok_notes [OF assms]; (simp only: k e o)?; fact note_rows [OF assms])
  then show ?thesis by (simp add: update_note_def Let_def)
qed

lemma set_note_access_ok:
  assumes "db_ok d" and "set_note_access user i users d = Some (Some (d', gs))"
  shows "db_ok d'" and "db_notes d' = db_notes d"
    and "\<exists>n. find_note i d = Some n \<and> n_owner n = user" and "j \<noteq> i \<Longrightarrow> grants_of j d' = grants_of j d"
proof -
  let ?ids = "map fst users"
  let ?gs = "filter (\<lambda>g. g_note g \<noteq> i) (db_grants d) @ map (\<lambda>(u, w). \<lparr>g_note = i, g_user = u, g_write = w\<rparr>) users"
  have own: "owned_note user i d" and d': "d' = d\<lparr>db_grants := ?gs\<rparr>" and dist: "distinct ?ids"
    and n: "length (filter (\<lambda>u. u_id u \<in> set ?ids \<and> u_status u = ACTIVE) (db_users d)) = length ?ids"
    using assms(2) by (auto simp: set_note_access_def Let_def length_uniq_eq_iff split: if_splits)
  note r = note_rows [OF assms(1)]
  obtain m where m: "m \<in> set (db_notes d)" "n_id m = i" "n_owner m = user"
    using own by (auto simp: owned_note_def list_ex_iff)
  then show "\<exists>n. find_note i d = Some n \<and> n_owner n = user" using find_note_row [OF r(1) m(1)] by auto
  let ?us = "filter (\<lambda>u. u_id u \<in> set ?ids \<and> u_status u = ACTIVE) (db_users d)"
  have du: "distinct (map u_id (db_users d))" using assms(1) by (simp add: db_ok_def keys_ok_def)
  have sub: "u_id ` set ?us \<subseteq> set ?ids" by auto
  have "card (u_id ` set ?us) = length ?us"
    using distinct_card [of "map u_id ?us"] distinct_map_filter [OF du] by simp
  then have "u_id ` set ?us = set ?ids"
    using card_subset_eq [OF _ sub] n distinct_card [OF dist] by simp
  then have known: "set ?ids \<subseteq> u_id ` set (db_users d)" by auto
  let ?key = "\<lambda>g. (g_note g, g_user g)"
  have new: "map ?key (map (\<lambda>(u, w). \<lparr>g_note = i, g_user = u, g_write = w\<rparr>) users) = map (Pair i) ?ids"
    by (simp add: case_prod_beta)
  have kept: "distinct (map ?key (filter (\<lambda>g. g_note g \<noteq> i) (db_grants d)))" by (rule distinct_map_filter [OF r(2)])
  have fresh: "distinct (map (Pair i) ?ids)" using dist by (simp only: distinct_map) (simp add: inj_on_def)
  have apart: "set (map ?key (filter (\<lambda>g. g_note g \<noteq> i) (db_grants d))) \<inter> set (map (Pair i) ?ids) = {}" by auto
  have gd: "distinct (map ?key ?gs)"
    unfolding map_append new distinct_append using kept fresh apart by blast
  have "db_ok (d\<lparr>db_notes := db_notes d, db_grants := ?gs\<rparr>)"
  proof (rule db_ok_notes [OF assms(1) r(1) r(3) gd])
    show "g_note g \<in> n_id ` set (db_notes d)" if "g \<in> set ?gs" for g using that r(4) m by auto
    fix g assume "g \<in> set ?gs"
    then consider "g \<in> set (db_grants d)" | u w where "(u, w) \<in> set users" "g = \<lparr>g_note = i, g_user = u, g_write = w\<rparr>"
      by auto
    then show "g_user g \<in> u_id ` set (db_users d)"
    proof cases
      case 1
      then show ?thesis by (rule r(5))
    next
      case 2
      then have "u \<in> set ?ids" by (metis fst_conv image_eqI set_map)
      then show ?thesis using 2 known by auto
    qed
  qed
  then show "db_ok d'" by (simp add: d')
  show "db_notes d' = db_notes d" by (simp add: d')
  show "grants_of j d' = grants_of j d" if "j \<noteq> i"
  proof -
    have "filter (\<lambda>x. g_note x \<noteq> i \<and> g_note x = j) (db_grants d) = filter (\<lambda>g. g_note g = j) (db_grants d)"
      by (rule filter_cong) (use that in auto)
    moreover have "filter (\<lambda>g. g_note g = j) (map (\<lambda>(u, w). \<lparr>g_note = i, g_user = u, g_write = w\<rparr>) users) = []"
      using that by (auto simp: filter_empty_conv)
    ultimately show ?thesis by (simp add: grants_of_def d')
  qed
qed

lemma audit_db [simp]:
  "db_ok (sv_db (audit low now rq a tt ti ds s)) = db_ok (sv_db s)"
  "find_note i (sv_db (audit low now rq a tt ti ds s)) = find_note i (sv_db s)"
  "grants_of i (sv_db (audit low now rq a tt ti ds s)) = grants_of i (sv_db s)"
  by (simp_all add: audit_def find_note_def grants_of_def)

lemma find_note_same: "db_notes d' = db_notes d \<Longrightarrow> find_note i d' = find_note i d"
  by (simp add: find_note_def)

text \<open>
  The moves of the notes: what a request may do to the tables, without bodies, replies and the audit
  log. The flag tells an edit that took place.
\<close>

inductive note_move :: "note_lib \<Rightarrow> note_request \<Rightarrow> db \<Rightarrow> db \<Rightarrow> bool \<Rightarrow> bool" for lib where
  stay: "note_move lib ev d d False"
| make: "rq_session rq = Some sc \<Longrightarrow> create_note now i (sc_user sc) b d = Some (d', n)
    \<Longrightarrow> note_move lib (now, rq, N_create i body) d d' False"
| edit: "rq_session rq = Some sc \<Longrightarrow> parse_update_note (snd lib) body = Some p
    \<Longrightarrow> update_note now (sc_user sc) i p d = (d', changed, shown) \<Longrightarrow> note_move lib (now, rq, N_patch i body) d d' changed"
| share: "rq_session rq = Some sc \<Longrightarrow> set_note_access (sc_user sc) i users d = Some (Some (d', gs))
    \<Longrightarrow> note_move lib (now, rq, N_share i body) d d' False"
| remove: "rq_session rq = Some sc \<Longrightarrow> owned_note (sc_user sc) i d
    \<Longrightarrow> note_move lib (now, rq, N_delete i) d (d\<lparr>db_notes := filter (\<lambda>n. \<not> (n_id n = i \<and> n_owner n = sc_user sc)) (db_notes d),
          db_grants := filter (\<lambda>g. g_note g \<noteq> i) (db_grants d)\<rparr>) False"

definition same_notes :: "db \<Rightarrow> db \<Rightarrow> bool" where
  "same_notes d d' \<longleftrightarrow> db_notes d' = db_notes d \<and> db_grants d' = db_grants d \<and> db_ok d' = db_ok d"

lemma same_notes_refl [simp]: "same_notes d d"
  by (simp add: same_notes_def)

lemma same_notes_audit [simp]: "same_notes d (sv_db (audit low now rq a tt ti ds (s\<lparr>sv_db := d\<rparr>)))"
  by (simp add: same_notes_def audit_def)

lemma post_note_move: "\<exists>d'. note_move lib (now, rq, N_create i body) (sv_db s) d' False
    \<and> same_notes d' (sv_db (fst (post_note low prot now i body rq s)))"
  by (fastforce simp: post_note_def writing_run split: option.splits intro: note_move.stay note_move.make)

lemma share_move: "\<exists>d'. note_move lib (now, rq, N_share i body) (sv_db s) d' False
    \<and> same_notes d' (sv_db (fst (put_note_access low now i body rq s)))"
  by (fastforce simp: put_note_access_def writing_run split: option.splits intro: note_move.stay note_move.share)

lemma delete_move: "\<exists>d'. note_move lib (now, rq, N_delete i) (sv_db s) d' False
    \<and> same_notes d' (sv_db (fst (delete_note low now i rq s)))"
  by (fastforce simp: delete_note_def writing_run Let_def split: option.splits intro: note_move.stay note_move.remove)

lemma patch_move:
  assumes "db_ok (sv_db s)"
  shows "\<exists>d'. note_move lib (now, rq, N_patch i body) (sv_db s) d' (accepted lib i (now, rq, N_patch i body) s \<noteq> [])
    \<and> same_notes d' (sv_db (fst (patch_note (snd lib) now i body rq s)))"
proof (cases "\<exists>sc p. rq_session rq = Some sc \<and> require_csrf rq = (None :: note_view reply option) \<and> parse_update_note (snd lib) body = Some p")
  case False
  then have "fst (patch_note (snd lib) now i body rq s) = s" "snd (note_call lib (now, rq, N_patch i body) s) \<noteq> 200"
    by (auto simp: patch_note_def writing_run coded_def dest: csrf_code split: option.splits)
  then show ?thesis by (auto intro: note_move.stay)
next
  case True
  then obtain sc p where sc: "rq_session rq = Some sc" and c: "require_csrf rq = (None :: note_view reply option)"
    and p: "parse_update_note (snd lib) body = Some p" by blast
  obtain d changed shown where u: "update_note now (sc_user sc) i p (sv_db s) = (d, changed, shown)"
    by (cases "update_note now (sc_user sc) i p (sv_db s)")
  note dist = note_rows(1) [OF assms]
  note a = notes_after_patch [OF dist u]
  have dd: "distinct (map n_id (db_notes d))" using dist by (simp only: a(2))
  have fin: "sv_db (fst (patch_note (snd lib) now i body rq s)) = d"
    by (simp add: patch_note_def writing_run sc c p u split: option.splits)
  have "changed \<Longrightarrow> \<exists>n. shown = Some n \<and> writable_by d (sc_user sc) n"
  proof -
    assume ch: changed
    then obtain n where n: "find_note i (sv_db s) = Some n" "writable_by (sv_db s) (sc_user sc) n" using a(4) by blast
    then have "find_note i d = Some (apply_note_patch now p n)" using a(5) ch by simp
    moreover have "writable_by d (sc_user sc) (apply_note_patch now p n)" using n(2) a(1) by (simp add: writable_by_def)
    ultimately show ?thesis using a(6) find_visible [OF dd] writable_visible by simp
  qed
  then have "accepted lib i (now, rq, N_patch i body) s \<noteq> [] \<longleftrightarrow> changed"
    by (cases shown) (auto simp: patch_note_def writing_run sc c p u coded_def present_can_write)
  then show ?thesis using note_move.edit [OF sc p u] fin by auto
qed

definition patches :: "jstr \<Rightarrow> note_request \<Rightarrow> bool" where
  "patches i ev \<longleftrightarrow> (\<exists>body. snd (snd ev) = N_patch i body)"

lemma patches_simps [simp]:
  "patches i (now, rq, N_patch j body) \<longleftrightarrow> j = i" "\<not> patches i (now, rq, N_create j body)"
  "\<not> patches i (now, rq, N_share j body)" "\<not> patches i (now, rq, N_delete j)"
  by (auto simp: patches_def)

lemma note_call_move:
  assumes "db_ok (sv_db s)"
  shows "\<exists>d' c. note_move lib ev (sv_db s) d' c \<and> same_notes d' (sv_db (note_step lib ev s))
    \<and> (\<forall>i. accepted lib i ev s \<noteq> [] \<longleftrightarrow> c \<and> patches i ev)"
proof (cases ev)
  case (fields now rq e)
  show ?thesis
  proof (cases e)
    case (N_patch j body)
    obtain d' where d': "note_move lib (now, rq, N_patch j body) (sv_db s) d' (accepted lib j (now, rq, N_patch j body) s \<noteq> [])"
      and same: "same_notes d' (sv_db (note_step lib ev s))"
      using patch_move [OF assms, of lib now rq j body] by (auto simp: fields N_patch note_step_def simp del: accepted.simps)
    have "\<forall>i. accepted lib i ev s \<noteq> [] \<longleftrightarrow> accepted lib j (now, rq, N_patch j body) s \<noteq> [] \<and> patches i ev"
      by (simp add: fields N_patch)
    then show ?thesis using d' same fields N_patch by blast
  next
    case (N_create j body)
    then show ?thesis using post_note_move [of lib now rq j body s "fst lib" "snd lib"]
      by (auto simp: fields note_step_def intro!: exI [of _ False])
  next
    case (N_share j body)
    then show ?thesis using share_move [of lib now rq j body s "fst lib"]
      by (auto simp: fields note_step_def intro!: exI [of _ False])
  next
    case (N_delete j)
    then show ?thesis using delete_move [of lib now rq j s "fst lib"]
      by (auto simp: fields note_step_def intro!: exI [of _ False])
  qed
qed

lemma move_ok: "note_move lib ev d d' c \<Longrightarrow> db_ok d \<Longrightarrow> db_ok d'"
proof (induction rule: note_move.induct)
  case (edit rq sc body p now i d d' changed shown)
  then show ?case using update_note_ok [of d now "sc_user sc" i p] by simp
next
  case (remove rq sc i d now)
  note r = note_rows [OF remove(3)]
  have kept: "g_note g \<in> n_id ` set (filter (\<lambda>n. \<not> (n_id n = i \<and> n_owner n = sc_user sc)) (db_notes d))"
    if g: "g \<in> set (filter (\<lambda>g. g_note g \<noteq> i) (db_grants d))" for g
  proof -
    obtain n where "n \<in> set (db_notes d)" "g_note g = n_id n" using g r(4) by auto
    then show ?thesis using g by force
  qed
  show ?case
    by (rule db_ok_notes [OF remove(3) _ _ _ kept]) (use r in \<open>auto simp: distinct_map_filter\<close>)
qed (auto intro: create_note_ok set_note_access_ok)

lemma note_step_ok: "db_ok (sv_db s) \<Longrightarrow> db_ok (sv_db (note_step lib ev s))"
  using note_call_move [of s lib ev] move_ok same_notes_def by metis

text \<open>A move leaves a note, deletes it, or is the edit that raises its revision.\<close>

lemma move_note:
  assumes "note_move lib ev d d' c" and "db_ok d" and "find_note i d = Some n" and "\<not> creates i ev"
  shows "\<not> (c \<and> patches i ev) \<and> find_note i d' \<in> {Some n, None}
    \<or> c \<and> patches i ev \<and> (\<exists>m. find_note i d' = Some m \<and> n_revision m = n_revision n + 1)
        \<and> (\<exists>body p. snd (snd ev) = N_patch i body \<and> parse_update_note (snd lib) body = Some p \<and> np_revision p = n_revision n)"
  using assms(1)
proof cases
  case (edit rq sc body p now j shown)
  note a = notes_after_patch [OF note_rows(1) [OF assms(2)] edit(4)]
  show ?thesis
  proof (cases "j = i")
    case True
    then show ?thesis using a(4,5) assms(3) edit by (cases c) auto
  next
    case False
    then show ?thesis using a(3) [of i] assms(3) edit by auto
  qed
next
  case (make rq sc now j b m body)
  then have "j \<noteq> i" using assms(4) by simp
  then show ?thesis using make assms(3) by (auto simp: create_note_def find_note_def find_append Let_def split: if_splits)
next
  case (share rq sc j users gs now body)
  have f: "find_note i d' = find_note i d"
    by (rule find_note_same) (use share set_note_access_ok(2) [OF assms(2)] in blast)
  show ?thesis using f assms(3) share(1) by simp
next
  case (remove rq sc now j)
  have "find (\<lambda>x. n_id x = i) (filter P ns) \<in> {find (\<lambda>x. n_id x = i) ns, None}" if "distinct (map n_id ns)" for P ns
    using that
  proof (induction ns)
    case (Cons x ns)
    have "find (\<lambda>y. n_id y = n_id x) (filter P ns) = None" using Cons.prems by (auto simp: find_None_iff image_iff)
    then show ?case using Cons by (cases "n_id x = i") auto
  qed simp
  from this [OF note_rows(1) [OF assms(2)]] have "find_note i d' \<in> {find_note i d, None}"
    unfolding find_note_def remove(2) by simp
  then show ?thesis using assms(3) remove(1,3) by simp
qed (use assms(3) in auto)

lemma find_note_None: "find_note i d = None \<longleftrightarrow> i \<notin> n_id ` set (db_notes d)"
  by (auto simp: find_note_def find_None_iff)

lemma move_gone:
  assumes "note_move lib ev d d' c" and "db_ok d" and "find_note i d = None" and "\<not> creates i ev"
  shows "\<not> (c \<and> patches i ev) \<and> find_note i d' = None"
  using assms(1)
proof cases
  case (edit rq sc body p now j shown)
  note a = notes_after_patch [OF note_rows(1) [OF assms(2)] edit(4)]
  have "n_id ` set (db_notes d') = n_id ` set (db_notes d)" by (rule set_of_keys [OF a(2)])
  then have "find_note i d' = None" using assms(3) by (simp add: find_note_None)
  then show ?thesis using a(4) assms(3) edit(1) by (cases "j = i") auto
next
  case (make rq sc now j b m body)
  then have "j \<noteq> i" using assms(4) by simp
  then show ?thesis using make assms(3) by (auto simp: create_note_def find_note_def find_append Let_def split: if_splits)
next
  case (share rq sc j users gs now body)
  have f: "find_note i d' = find_note i d"
    by (rule find_note_same) (use share set_note_access_ok(2) [OF assms(2)] in blast)
  show ?thesis using f assms(3) share(1) by simp
next
  case (remove rq sc now j)
  then show ?thesis using assms(3) by (auto simp: find_note_None)
qed (use assms(3) in auto)

lemma accepted_value:
  "accepted lib i ev s = [] \<or> (\<exists>body p. snd (snd ev) = N_patch i body \<and> parse_update_note (snd lib) body = Some p
     \<and> accepted lib i ev s = [np_revision p])"
proof (cases ev)
  case (fields now rq e)
  then show ?thesis by (cases e) (auto split: option.splits)
qed

lemma step_gone:
  assumes "db_ok (sv_db s)" and "find_note i (sv_db s) = None" and "\<not> creates i ev"
  shows "accepted lib i ev s = []" and "find_note i (sv_db (note_step lib ev s)) = None"
proof -
  obtain d' c where m: "note_move lib ev (sv_db s) d' c" "same_notes d' (sv_db (note_step lib ev s))"
    "accepted lib i ev s \<noteq> [] \<longleftrightarrow> c \<and> patches i ev" using note_call_move [OF assms(1)] by blast
  note g = move_gone [OF m(1) assms(1,2,3)]
  show "accepted lib i ev s = []" using g m(3) by blast
  show "find_note i (sv_db (note_step lib ev s)) = None" using g m(2) by (simp add: same_notes_def find_note_def)
qed

lemma step_note:
  assumes "db_ok (sv_db s)" and "find_note i (sv_db s) = Some n" and "\<not> creates i ev"
  shows "accepted lib i ev s = []
      \<and> (find_note i (sv_db (note_step lib ev s)) = Some n \<or> find_note i (sv_db (note_step lib ev s)) = None)
    \<or> accepted lib i ev s = [n_revision n]
      \<and> (\<exists>m. find_note i (sv_db (note_step lib ev s)) = Some m \<and> n_revision m = n_revision n + 1)"
proof -
  obtain d' c where m: "note_move lib ev (sv_db s) d' c" "same_notes d' (sv_db (note_step lib ev s))"
    "accepted lib i ev s \<noteq> [] \<longleftrightarrow> c \<and> patches i ev" using note_call_move [OF assms(1)] by blast
  have f: "find_note i (sv_db (note_step lib ev s)) = find_note i d'" using m(2) by (simp add: same_notes_def find_note_def)
  show ?thesis
  proof (cases "c \<and> patches i ev")
    case False
    then show ?thesis using move_note [OF m(1) assms] m(3) f by auto
  next
    case True
    then show ?thesis using move_note [OF m(1) assms] accepted_value [of lib i ev s] m(3) f by auto
  qed
qed

lemma edits_gone: "db_ok (sv_db s) \<Longrightarrow> find_note i (sv_db s) = None \<Longrightarrow> list_all (\<lambda>ev. \<not> creates i ev) evs
    \<Longrightarrow> edits lib i evs s = [] \<and> find_note i (sv_db (fold (note_step lib) evs s)) = None"
  by (induction evs arbitrary: s) (simp_all add: step_gone note_step_ok)

lemma chain_Cons:
  fixes x :: int
  assumes "es = map (\<lambda>k. x + 1 + int k) [0..<length es]"
  shows "x # es = map (\<lambda>k. x + int k) [0..<length (x # es)]"
proof (rule nth_equalityI)
  fix j assume j: "j < length (x # es)"
  have "es ! k = x + 1 + int k" if "k < length es" for k
    using that arg_cong [OF assms, of "\<lambda>ys. ys ! k"] by simp
  then show "(x # es) ! j = map (\<lambda>k. x + int k) [0..<length (x # es)] ! j"
    using j by (cases j) (simp_all del: upt_Suc)
qed simp

lemma edits_chain:
  assumes "db_ok (sv_db s)" and "find_note i (sv_db s) = Some n" and "list_all (\<lambda>ev. \<not> creates i ev) evs"
  shows "edits lib i evs s = map (\<lambda>k. n_revision n + int k) [0..<length (edits lib i evs s)]
    \<and> (\<forall>m. find_note i (sv_db (fold (note_step lib) evs s)) = Some m
         \<longrightarrow> n_revision m = n_revision n + int (length (edits lib i evs s)))"
  using assms
proof (induction evs arbitrary: s n)
  case (Cons ev evs)
  let ?s = "note_step lib ev s"
  have nc: "\<not> creates i ev" "list_all (\<lambda>ev. \<not> creates i ev) evs" using Cons.prems(3) by simp_all
  have ok: "db_ok (sv_db ?s)" by (rule note_step_ok [OF Cons.prems(1)])
  consider "accepted lib i ev s = []" "find_note i (sv_db ?s) = Some n"
    | "accepted lib i ev s = []" "find_note i (sv_db ?s) = None"
    | m where "accepted lib i ev s = [n_revision n]" "find_note i (sv_db ?s) = Some m" "n_revision m = n_revision n + 1"
    using step_note [OF Cons.prems(1,2) nc(1), of lib] by metis
  then show ?case
  proof cases
    case 1
    then show ?thesis using Cons.IH [OF ok 1(2) nc(2)] by simp
  next
    case 2
    then show ?thesis using edits_gone [OF ok 2(2) nc(2)] by simp
  next
    case 3
    let ?es = "edits lib i evs ?s"
    have es: "?es = map (\<lambda>k. n_revision n + 1 + int k) [0..<length ?es]"
      using Cons.IH [OF ok 3(2) nc(2)] 3(3) by simp
    have "edits lib i (ev # evs) s = n_revision n # ?es" using 3(1) by simp
    moreover have "\<forall>m. find_note i (sv_db (fold (note_step lib) evs ?s)) = Some m
        \<longrightarrow> n_revision m = n_revision n + int (length (n_revision n # ?es))"
      using Cons.IH [OF ok 3(2) nc(2)] 3(3) by simp
    ultimately show ?thesis using chain_Cons [OF es] by (simp only: fold_simps)
  qed
qed simp

text \<open>A move of somebody else keeps the note, its owner and its grants, and without a grant its row.\<close>

lemma others_move:
  assumes "note_move lib (now, rq, e) d d' c" and "db_ok d" and "find_note i d = Some n"
    and "rq_session rq = Some sc" and "n_owner n \<noteq> sc_user sc"
  shows "grants_of i d' = grants_of i d
    \<and> (\<exists>m. find_note i d' = Some m \<and> n_owner m = n_owner n \<and> (\<not> writable_by d (sc_user sc) n \<longrightarrow> m = n))"
  using assms(1)
proof cases
  case (edit sc' body p j shown)
  note a = notes_after_patch [OF note_rows(1) [OF assms(2)] edit(4)]
  have "sc' = sc" using edit(2) assms(4) by simp
  show ?thesis
  proof (cases "j = i")
    case True
    then show ?thesis using a(1,4,5) assms(3) \<open>sc' = sc\<close> by (cases c) (auto simp: grants_of_def)
  next
    case False
    then show ?thesis using a(1) a(3) [of i] assms(3) by (auto simp: grants_of_def)
  qed
next
  case (make sc' j b m body)
  have "j \<noteq> i" using make assms(3) find_note_in [OF assms(3)] by (auto simp: create_note_def split: if_splits)
  then show ?thesis using make assms(3)
    by (auto simp: create_note_def find_note_def find_append grants_of_def Let_def split: if_splits)
next
  case (share sc' j users gs body)
  note a = set_note_access_ok [OF assms(2) share(4)]
  have "j \<noteq> i" using a(3) assms(3,4,5) share(3) by auto
  then show ?thesis using a(4) [of i] find_note_same [OF a(2)] assms(3) by auto
next
  case (remove sc' j)
  have sc: "sc' = sc" using remove assms(4) by simp
  have "j \<noteq> i"
  proof
    assume "j = i"
    then obtain m where "m \<in> set (db_notes d)" "n_id m = i" "n_owner m = sc_user sc"
      using remove sc by (auto simp: owned_note_def list_ex_iff)
    then show False using find_note_row [OF note_rows(1) [OF assms(2)], of m] assms(3,5) by simp
  qed
  then have "find (\<lambda>x. n_id x = i) (filter (\<lambda>n. \<not> (n_id n = j \<and> n_owner n = u)) ns) = find (\<lambda>x. n_id x = i) ns"
    for u :: jstr and ns :: "note_row list"
    by (induction ns) auto
  moreover have "filter (\<lambda>g. g_note g = i) (filter (\<lambda>g. g_note g \<noteq> j) gs) = filter (\<lambda>g. g_note g = i) gs"
    for gs :: "grant_row list"
    using \<open>j \<noteq> i\<close> by (induction gs) auto
  ultimately show ?thesis using remove assms(3) by (simp add: find_note_def grants_of_def)
qed (use assms(3) in auto)

section \<open>Properties\<close>

text \<open>
  C37. No edit of a shared note overwrites another. In every history of requests in which the note is not
  created anew, the edits that were answered with success were made on revisions that follow each other
  without a gap or repetition, starting with the revision the note had: of two edits of the same
  revision at most one is accepted. A note that is still there has been revised exactly that often.
\<close>

theorem accepted_edits_follow_each_other:
  assumes "db_ok (sv_db s)" and "find_note i (sv_db s) = Some n" and "list_all (\<lambda>ev. \<not> creates i ev) evs"
  shows "edits lib i evs s = map (\<lambda>k. n_revision n + int k) [0..<length (edits lib i evs s)]
    \<and> (\<forall>m. find_note i (sv_db (fold (note_step lib) evs s)) = Some m
         \<longrightarrow> n_revision m = n_revision n + int (length (edits lib i evs s)))"
  using edits_chain [OF assms] .

definition demo_plan :: note_row where
  "demo_plan = \<lparr>n_id = js ''n'', n_title = js ''Plan'', n_content = default_content, n_revision = 4, n_owner = js ''tom'', n_updated = 0\<rparr>"

definition demo_notes :: service where
  "demo_notes = start_service (demo_tables\<lparr>db_notes := [demo_plan], db_grants := [\<lparr>g_note = js ''n'', g_user = js ''ann'', g_write = True\<rparr>]\<rparr>)"

definition demo_title :: "string \<Rightarrow> json" where
  "demo_title t = JObj [(js ''revision'', JNum 4), (js ''title'', JStr (js t))]"

definition demo_edits :: "note_request list" where
  "demo_edits = [(1, demo_rq ''tom'' USER, N_patch (js ''n'') (demo_title ''A'')),
     (2, demo_rq ''ann'' ADMIN, N_patch (js ''n'') (demo_title ''B''))]"

lemma demo_notes_ok: "db_ok (sv_db demo_notes)"
  by (simp add: demo_notes_def start_service_def db_ok_def keys_ok_def refs_ok_def demo_tables_def empty_db_def
      demo_account_def demo_user_def demo_plan_def js_def)

lemma demo_note_found: "find_note (js ''n'') (sv_db demo_notes) = Some demo_plan"
  by (simp add: find_note_def demo_notes_def start_service_def demo_plan_def)

theorem accepted_edits_follow_each_other_witness:
  "edits (\<lambda>c. [c], Some) (js ''n'') demo_edits demo_notes
     = map (\<lambda>k. n_revision demo_plan + int k) [0..<length (edits (\<lambda>c. [c], Some) (js ''n'') demo_edits demo_notes)]"
  using accepted_edits_follow_each_other [OF demo_notes_ok demo_note_found, of demo_edits "(\<lambda>c. [c], Some)"]
  by (simp add: demo_edits_def)

text \<open>
  C38. Notes are private. A note that is not shared with the user cannot be read by them and is not in
  their list. Nothing a user can ask for, in any request, changes a note of somebody else that they may
  not write; and whatever rights were granted, only its owner sees or changes the grants of a note, and
  only its owner can delete it.
\<close>

theorem notes_are_private:
  assumes "db_ok (sv_db s)" and "find_note i (sv_db s) = Some n"
    and "rq_session rq = Some sc" and "n_owner n \<noteq> sc_user sc"
  shows "(\<not> visible_to (sv_db s) (sc_user sc) n \<longrightarrow>
        reply_code (snd (get_note i rq s)) = 404 \<and> (\<forall>c vs. snd (get_notes rq s) = Answered c vs \<longrightarrow> i \<notin> nv_id ` set vs))
    \<and> (\<not> writable_by (sv_db s) (sc_user sc) n \<longrightarrow> find_note i (sv_db (note_step lib (now, rq, e) s)) = Some n)
    \<and> nv_grants (present_note (sv_db s) (sc_user sc) n) = []
    \<and> grants_of i (sv_db (note_step lib (now, rq, e) s)) = grants_of i (sv_db s)
    \<and> (\<exists>m. find_note i (sv_db (note_step lib (now, rq, e) s)) = Some m \<and> n_owner m = n_owner n)"
proof -
  note dist = note_rows(1) [OF assms(1)]
  obtain d' c where m: "note_move lib (now, rq, e) (sv_db s) d' c" "same_notes d' (sv_db (note_step lib (now, rq, e) s))"
    using note_call_move [OF assms(1)] by blast
  note o = others_move [OF m(1) assms]
  have f: "find_note i (sv_db (note_step lib (now, rq, e) s)) = find_note i d'"
    "grants_of i (sv_db (note_step lib (now, rq, e) s)) = grants_of i d'"
    using m(2) by (simp_all add: same_notes_def find_note_def grants_of_def)
  have "reply_code (snd (get_note i rq s)) = 404" if "\<not> visible_to (sv_db s) (sc_user sc) n"
    using that assms(2,3) find_visible [OF dist]
    by (simp add: get_note_def reading_def with_session_def require_auth_def)
  moreover have "i \<notin> nv_id ` set vs" if no: "\<not> visible_to (sv_db s) (sc_user sc) n" and vs: "snd (get_notes rq s) = Answered c vs" for c vs
  proof
    assume "i \<in> nv_id ` set vs"
    then obtain k where k: "k \<in> set (db_notes (sv_db s))" "visible_to (sv_db s) (sc_user sc) k" "n_id k = i"
      using vs assms(3)
      by (auto simp: get_notes_def reading_def with_session_def require_auth_def present_note_def Let_def)
    then show False using find_note_row [OF dist k(1)] assms(2) no by simp
  qed
  moreover have "nv_grants (present_note (sv_db s) (sc_user sc) n) = []"
    using assms(4) by (simp add: present_note_def Let_def)
  ultimately show ?thesis using o f by auto
qed

theorem notes_are_private_witness:
  "nv_grants (present_note (sv_db demo_notes) (js ''ann'') demo_plan) = []
    \<and> grants_of (js ''n'') (sv_db (note_step (\<lambda>c. [c], Some) (1, demo_rq ''ann'' ADMIN, N_delete (js ''n'')) demo_notes))
        = grants_of (js ''n'') (sv_db demo_notes)"
proof -
  have r: "rq_session (demo_rq ''ann'' ADMIN) = Some (demo_context ''ann'' ADMIN)" by (simp add: demo_rq_def)
  have u: "sc_user (demo_context ''ann'' ADMIN) = js ''ann''" by (simp add: demo_context_def)
  have "n_owner demo_plan \<noteq> sc_user (demo_context ''ann'' ADMIN)" by (simp add: u demo_plan_def js_def)
  from notes_are_private [OF demo_notes_ok demo_note_found r this, of "(\<lambda>c. [c], Some)" 1 "N_delete (js ''n'')"]
  show ?thesis by (simp only: u)
qed

end
