(* ===== verification/Histories.thy ===== *)
theory Histories
  imports Main
begin

text \<open>
  Statements about histories, the lists of what happened so far: \<open>since Q R\<close> says that the history
  has an entry with \<open>Q\<close> and that all the entries after it have \<open>R\<close>, where both see the history before
  the entry.
\<close>

definition since :: "('a list \<Rightarrow> 'a \<Rightarrow> bool) \<Rightarrow> ('a list \<Rightarrow> 'a \<Rightarrow> bool) \<Rightarrow> 'a list \<Rightarrow> bool" where
  "since Q R xs \<longleftrightarrow> (\<exists>A k B. xs = A @ k # B \<and> Q A k \<and> (\<forall>B1 x B2. B = B1 @ x # B2 \<longrightarrow> R (A @ k # B1) x))"

lemma since_Nil [simp]: "\<not> since Q R []"
  by (simp add: since_def)

lemma since_some: "since Q R xs \<Longrightarrow> \<exists>ys y. Q ys y"
  unfolding since_def by blast

lemma since_now: "Q xs x \<Longrightarrow> since Q R (xs @ [x])"
  unfolding since_def by (intro exI [of _ xs] exI [of _ x] exI [of _ "[]"]) simp

lemma since_stays: "since Q R xs \<Longrightarrow> R xs x \<Longrightarrow> since Q R (xs @ [x])"
proof -
  assume "since Q R xs" and x: "R xs x"
  then obtain A k B where s: "xs = A @ k # B" "Q A k" "\<forall>B1 y B2. B = B1 @ y # B2 \<longrightarrow> R (A @ k # B1) y"
    unfolding since_def by blast
  have "R (A @ k # B1) y" if "B @ [x] = B1 @ y # B2" for B1 y B2
    using that x s by (cases B2 rule: rev_cases) (auto simp flip: append_assoc append_Cons)
  then show ?thesis unfolding since_def
    using s by (intro exI [of _ A] exI [of _ k] exI [of _ "B @ [x]"]) simp
qed

lemma since_snocE:
  assumes "since Q R (xs @ [x])" and "\<not> Q xs x"
  shows "since Q R xs \<and> R xs x"
proof -
  obtain A k B where s: "xs @ [x] = A @ k # B" "Q A k" "\<forall>B1 y B2. B = B1 @ y # B2 \<longrightarrow> R (A @ k # B1) y"
    using assms(1) unfolding since_def by blast
  then obtain B' where B: "B = B' @ [x]" "xs = A @ k # B'"
    using assms(2) by (cases B rule: rev_cases) (auto simp flip: append_assoc append_Cons)
  have "R (A @ k # B1) y" if "B' = B1 @ y # B2" for B1 y B2
    using that s(3) B(1) by simp
  then show ?thesis using s(2,3) B unfolding since_def by blast
qed

lemma since_snoc: "since Q R (xs @ [x]) \<longleftrightarrow> Q xs x \<or> R xs x \<and> since Q R xs"
  using since_now [of Q xs x R] since_stays [of Q R xs x] since_snocE [of Q R xs x] by blast

lemma since_mono:
  assumes "since Q R xs" and "\<And>ys y. Q ys y \<Longrightarrow> Q' ys y" and "\<And>ys y. R ys y \<Longrightarrow> R' ys y"
  shows "since Q' R' xs"
proof -
  obtain A k B where s: "xs = A @ k # B" "Q A k" "\<forall>B1 y B2. B = B1 @ y # B2 \<longrightarrow> R (A @ k # B1) y"
    using assms(1) unfolding since_def by blast
  then show ?thesis unfolding since_def
    using assms(2,3) by (intro exI [of _ A] exI [of _ k] exI [of _ B]) simp
qed

end
