(* ===== verification/Home_Recovery.thy ===== *)
theory Home_Recovery
  imports JsRegex Client_Types Histories
begin

text \<open>
  \<^verbatim>\<open>backend/src/soulfire/homeRecovery.ts\<close>: which home an account returns to after a reconnect. The
  stored file is a JSON value here, \<open>None\<close> when it cannot be read. The Unicode classes of the name are
  an argument: \<open>uni\<close> tells the letters and digits among the code points.
\<close>

section \<open>Names\<close>

text \<open>The code points of a string: a high surrogate joins the low one that follows it.\<close>

fun code_points :: "jstr \<Rightarrow> int list" where
  "code_points (a # b # s) = (if 55296 \<le> a \<and> a \<le> 56319 \<and> 56320 \<le> b \<and> b \<le> 57343
     then ((a - 55296) * 1024 + (b - 56320) + 65536) # code_points s else a # code_points (b # s))"
| "code_points [a] = [a]"
| "code_points [] = []"

definition valid_home :: "(int \<Rightarrow> bool) \<Rightarrow> jstr \<Rightarrow> bool" where
  "valid_home uni home \<longleftrightarrow> (let cs = code_points home in
     1 \<le> length cs \<and> length cs \<le> 64 \<and> list_all (\<lambda>c. uni c \<or> c = 95 \<or> c = 46 \<or> c = 45) cs)"

section \<open>The stored record\<close>

record home_owner =
  ho_host :: jstr
  ho_port :: int
  ho_edition :: jstr
  ho_bot :: jstr

definition owner_fields :: "home_owner \<Rightarrow> (jstr \<times> json) list" where
  "owner_fields own = [(js ''host'', JStr (ho_host own)), (js ''port'', JNum (of_int (ho_port own))),
     (js ''edition'', JStr (ho_edition own)), (js ''botId'', JStr (ho_bot own))]"

definition remembered_home :: "(int \<Rightarrow> bool) \<Rightarrow> json option \<Rightarrow> home_owner \<Rightarrow> jstr" where
  "remembered_home uni file own = (case file of
       None \<Rightarrow> []
     | Some saved \<Rightarrow>
         if json_field saved ''host'' = Some (JStr (ho_host own)) \<and> json_field saved ''port'' = Some (JNum (of_int (ho_port own)))
            \<and> json_field saved ''edition'' = Some (JStr (ho_edition own)) \<and> json_field saved ''botId'' = Some (JStr (ho_bot own))
         then (case json_field saved ''home'' of Some (JStr home) \<Rightarrow> if valid_home uni home then home else [] | _ \<Rightarrow> [])
         else [])"

definition remember_home :: "(int \<Rightarrow> bool) \<Rightarrow> home_owner \<Rightarrow> jstr \<Rightarrow> json" where
  "remember_home uni own home =
     JObj (owner_fields own @ [(js ''home'', JStr (if valid_home uni home then home else []))])"

definition has_home_record :: "json option \<Rightarrow> bool" where
  "has_home_record file \<longleftrightarrow> file \<noteq> None"

section \<open>The history\<close>

record history_row =
  hr_type :: console_type
  hr_message :: jstr
  hr_created :: int

definition connection_re :: re where
  "connection_re = Sq Bol (sq [lit ''Starte Minecraft-Verbindung zu '', Grp 1 (plus (Cls is_dot)), unit 8230, Eol])"

definition home_re :: re where
  "home_re = Sq Bol (sq [unit 47, lit_i ''home'', spaces1, Grp 1 (plus (Cls (\<lambda>c. \<not> is_space c))), spaces, Eol])"

definition navigation_re :: re where
  "navigation_re = Sq Bol (sq [unit 47, alts (map lit_i [''home'', ''spawn'', ''hub'', ''lobby'', ''warp'', ''server'', ''tpaccept'', ''tpyes'']),
     Alt (Cls is_space) Eol])"

definition section_re :: re where
  "section_re = Sq (unit 167) (Cls is_dot)"

definition address_of :: "jstr \<Rightarrow> int \<Rightarrow> jstr" where
  "address_of host port = (if 58 \<in> set host then [91] @ host @ [93] else host) @ [58] @ show_int port"

record history_state =
  hs_endpoint :: jstr
  hs_home :: jstr
  hs_pending :: "(jstr \<times> int) option"

definition start_history :: history_state where
  "start_history = \<lparr>hs_endpoint = [], hs_home = [], hs_pending = None\<rparr>"

definition connects_to :: "history_row \<Rightarrow> jstr option" where
  "connects_to r = (if hr_type r = SYSTEM then re_group connection_re 1 (hr_message r) else None)"

definition requests_home :: "(int \<Rightarrow> bool) \<Rightarrow> history_row \<Rightarrow> jstr option" where
  "requests_home uni r = (case re_group home_re 1 (hr_message r) of
       Some h \<Rightarrow> if h \<noteq> [] \<and> valid_home uni h then Some h else None | None \<Rightarrow> None)"

definition confirmation :: "jstr \<Rightarrow> jstr" where
  "confirmation home = js ''[HugoSMP] Du wurdest zu deinem Home '' @ home @ js '' teleportiert!''"

text \<open>The three statements of the loop body.\<close>

definition note_connection :: "jstr \<Rightarrow> history_row \<Rightarrow> history_state \<Rightarrow> history_state" where
  "note_connection address r s = (case connects_to r of
       None \<Rightarrow> s
     | Some e \<Rightarrow> s\<lparr>hs_endpoint := e, hs_pending := None, hs_home := (if e \<noteq> address then [] else hs_home s)\<rparr>)"

definition note_command :: "(int \<Rightarrow> bool) \<Rightarrow> history_row \<Rightarrow> history_state \<Rightarrow> history_state" where
  "note_command uni r s = (if hr_type r \<noteq> USER_COMMAND then s
     else case requests_home uni r of
         Some h \<Rightarrow> s\<lparr>hs_pending := Some (h, hr_created r)\<rparr>
       | None \<Rightarrow> if re_test navigation_re (hr_message r) then s\<lparr>hs_home := [], hs_pending := None\<rparr> else s)"

definition note_reply :: "history_row \<Rightarrow> history_state \<Rightarrow> history_state" where
  "note_reply r s = (case hs_pending s of
       Some (h, t) \<Rightarrow>
         if hr_type r = SERVER_MESSAGE \<and> hr_created r - t \<le> 120000 \<and> trim (re_remove section_re (hr_message r)) = confirmation h
         then s\<lparr>hs_home := h, hs_pending := None\<rparr> else s
     | None \<Rightarrow> s)"

definition history_step :: "(int \<Rightarrow> bool) \<Rightarrow> jstr \<Rightarrow> history_row \<Rightarrow> history_state \<Rightarrow> history_state" where
  "history_step uni address r s =
     (let s' = note_connection address r s in
      if hs_endpoint s' \<noteq> address then s' else note_reply r (note_command uni r s'))"

definition home_from_history :: "(int \<Rightarrow> bool) \<Rightarrow> history_row list \<Rightarrow> jstr \<Rightarrow> int \<Rightarrow> jstr" where
  "home_from_history uni rows host port = hs_home (fold (history_step uni (address_of host port)) rows start_history)"

section \<open>What a restored home means\<close>

definition leaves :: "(int \<Rightarrow> bool) \<Rightarrow> history_row \<Rightarrow> bool" where
  "leaves uni r \<longleftrightarrow> hr_type r = USER_COMMAND \<and> requests_home uni r = None \<and> re_test navigation_re (hr_message r)"

text \<open>The server has said that the account is at home \<open>h\<close>, within two minutes after it was requested at \<open>t\<close>.\<close>

definition replies :: "jstr \<Rightarrow> int \<Rightarrow> history_row \<Rightarrow> bool" where
  "replies h t r \<longleftrightarrow> hr_type r = SERVER_MESSAGE \<and> hr_created r - t \<le> 120000
     \<and> trim (re_remove section_re (hr_message r)) = confirmation h"

text \<open>
  The account is connected to the address since its last connection; its last request is the one for
  \<open>h\<close> at \<open>t\<close>, without a connection, another request, another navigation or the confirmation since;
  \<open>h\<close> is the last home that was confirmed, without a navigation or a connection elsewhere since.
\<close>

definition at_endpoint :: "jstr \<Rightarrow> history_row list \<Rightarrow> bool" where
  "at_endpoint address = since (\<lambda>_ r. connects_to r = Some address) (\<lambda>_ r. connects_to r = None)"

definition requested :: "(int \<Rightarrow> bool) \<Rightarrow> jstr \<Rightarrow> jstr \<Rightarrow> int \<Rightarrow> history_row list \<Rightarrow> bool" where
  "requested uni address h t = since
     (\<lambda>rows r. at_endpoint address rows \<and> hr_type r = USER_COMMAND \<and> requests_home uni r = Some h \<and> hr_created r = t)
     (\<lambda>_ r. connects_to r = None \<and> (hr_type r = USER_COMMAND \<longrightarrow> requests_home uni r = None) \<and> \<not> leaves uni r
        \<and> \<not> replies h t r)"

definition confirms :: "(int \<Rightarrow> bool) \<Rightarrow> jstr \<Rightarrow> jstr \<Rightarrow> history_row list \<Rightarrow> history_row \<Rightarrow> bool" where
  "confirms uni address h rows r \<longleftrightarrow> (\<exists>t. requested uni address h t rows \<and> replies h t r)"

definition confirmed :: "(int \<Rightarrow> bool) \<Rightarrow> jstr \<Rightarrow> jstr \<Rightarrow> history_row list \<Rightarrow> bool" where
  "confirmed uni address h = since (confirms uni address h)
     (\<lambda>rows r. (case connects_to r of None \<Rightarrow> True | Some e \<Rightarrow> e = address) \<and> \<not> leaves uni r
        \<and> (\<forall>h'. \<not> confirms uni address h' rows r))"

lemma connects_only_system: "hr_type r \<noteq> SYSTEM \<Longrightarrow> connects_to r = None"
  by (simp add: connects_to_def)

lemma leaves_only_command: "hr_type r \<noteq> USER_COMMAND \<Longrightarrow> \<not> leaves uni r"
  by (simp add: leaves_def)

lemma replies_only_server: "hr_type r \<noteq> SERVER_MESSAGE \<Longrightarrow> \<not> replies h t r"
  by (simp add: replies_def)

lemma note_reply_replies:
  "note_reply r s = (case hs_pending s of None \<Rightarrow> s
     | Some (h, t) \<Rightarrow> if replies h t r then s\<lparr>hs_home := h, hs_pending := None\<rparr> else s)"
  by (auto simp: note_reply_def replies_def split: option.split)

lemma requests_home_valid: "requests_home uni r = Some h \<Longrightarrow> h \<noteq> [] \<and> valid_home uni h"
  by (auto simp: requests_home_def split: option.splits if_splits)

lemma requested_valid: "requested uni a h t rows \<Longrightarrow> h \<noteq> [] \<and> valid_home uni h"
  unfolding requested_def by (drule since_some) (auto dest: requests_home_valid)

lemma confirmed_valid: "confirmed uni a h rows \<Longrightarrow> valid_home uni h"
  unfolding confirmed_def confirms_def by (drule since_some) (auto dest: requested_valid)

text \<open>The state of the loop is exactly what the history says.\<close>

definition history_ok :: "(int \<Rightarrow> bool) \<Rightarrow> jstr \<Rightarrow> history_row list \<Rightarrow> history_state \<Rightarrow> bool" where
  "history_ok uni address rows s \<longleftrightarrow>
     (hs_endpoint s = address) = at_endpoint address rows
     \<and> (\<forall>h t. (hs_pending s = Some (h, t)) = requested uni address h t rows)
     \<and> (\<forall>h. (hs_home s = h \<and> h \<noteq> []) = confirmed uni address h rows)
     \<and> (hs_endpoint s \<noteq> address \<longrightarrow> hs_pending s = None \<and> hs_home s = [])"

lemma at_endpoint_snoc:
  "at_endpoint a (rows @ [r]) \<longleftrightarrow> connects_to r = Some a \<or> connects_to r = None \<and> at_endpoint a rows"
  by (simp add: at_endpoint_def since_snoc)

lemma requested_snoc:
  "requested uni a h t (rows @ [r]) \<longleftrightarrow>
     at_endpoint a rows \<and> hr_type r = USER_COMMAND \<and> requests_home uni r = Some h \<and> hr_created r = t
     \<or> (connects_to r = None \<and> (hr_type r = USER_COMMAND \<longrightarrow> requests_home uni r = None) \<and> \<not> leaves uni r
        \<and> \<not> replies h t r) \<and> requested uni a h t rows"
  by (simp add: requested_def since_snoc)

lemma confirmed_snoc:
  "confirmed uni a h (rows @ [r]) \<longleftrightarrow> confirms uni a h rows r
     \<or> ((case connects_to r of None \<Rightarrow> True | Some e \<Rightarrow> e = a) \<and> \<not> leaves uni r \<and> (\<forall>h'. \<not> confirms uni a h' rows r))
       \<and> confirmed uni a h rows"
  by (simp add: confirmed_def since_snoc)

lemmas histories_snoc = at_endpoint_snoc requested_snoc confirmed_snoc

lemma history_ok_confirms:
  "history_ok uni a rows s \<Longrightarrow> confirms uni a h rows r \<longleftrightarrow> (\<exists>t. hs_pending s = Some (h, t) \<and> replies h t r)"
  by (simp add: history_ok_def confirms_def)

lemma history_step_system:
  assumes "history_ok uni a rows s" and "hr_type r = SYSTEM"
  shows "history_ok uni a (rows @ [r]) (history_step uni a r s)"
proof -
  have c: "\<not> confirms uni a h rows r" for h
    using assms(2) by (simp add: confirms_def replies_only_server)
  have "history_step uni a r s = note_connection a r s"
    using assms(2) by (simp add: history_step_def Let_def note_command_def note_reply_def split: option.split)
  then show ?thesis using assms c
    by (auto simp: history_ok_def note_connection_def histories_snoc leaves_only_command replies_only_server
        split: option.split)
qed

lemma history_step_command:
  assumes ok: "history_ok uni a rows s" and r: "hr_type r = USER_COMMAND"
  shows "history_ok uni a (rows @ [r]) (history_step uni a r s)"
proof -
  have c: "connects_to r = None" "\<not> replies h t r" "\<not> confirms uni a h rows r" for h t
    using r by (simp_all add: connects_only_system confirms_def replies_only_server)
  have step: "history_step uni a r s = (if hs_endpoint s \<noteq> a then s else note_command uni r s)"
    using r c by (auto simp: history_step_def note_connection_def note_reply_def split: option.split)
  show ?thesis
  proof (cases "requests_home uni r")
    case None
    then show ?thesis using ok r c
      by (auto simp: step history_ok_def note_command_def histories_snoc leaves_def)
  next
    case (Some h)
    then show ?thesis using ok r c requests_home_valid [OF Some]
      by (auto simp: step history_ok_def note_command_def histories_snoc leaves_def)
  qed
qed

lemma history_step_other:
  assumes ok: "history_ok uni a rows s" and r: "hr_type r \<noteq> SYSTEM" "hr_type r \<noteq> USER_COMMAND"
  shows "history_ok uni a (rows @ [r]) (history_step uni a r s)"
proof -
  have c: "connects_to r = None" "\<not> leaves uni r"
    using r by (simp_all add: connects_only_system leaves_only_command)
  have step: "history_step uni a r s = (if hs_endpoint s \<noteq> a then s else note_reply r s)"
    using r c by (simp add: history_step_def note_connection_def note_command_def)
  have valid: "h \<noteq> []" if "hs_pending s = Some (h, t)" for h t
  proof -
    have "(hs_pending s = Some (h, t)) = requested uni a h t rows" using ok unfolding history_ok_def by blast
    then have "requested uni a h t rows" using that by simp
    then show ?thesis by (simp add: requested_valid)
  qed
  show ?thesis
  proof (cases "\<exists>h t. hs_pending s = Some (h, t) \<and> replies h t r")
    case True
    then obtain h t where p: "hs_pending s = Some (h, t)" "replies h t r" by blast
    have q: "requested uni a h' t' rows \<longleftrightarrow> h' = h \<and> t' = t" for h' t'
      using ok p(1) by (auto simp: history_ok_def)
    have cf: "confirms uni a h' rows r \<longleftrightarrow> h' = h" for h'
      using p(2) by (auto simp: confirms_def q)
    show ?thesis using ok r c p valid [OF p(1)]
      by (auto simp: step note_reply_replies history_ok_def histories_snoc q cf)
  next
    case False
    then have n: "note_reply r s = s" by (auto simp: note_reply_replies split: option.split)
    have cf: "\<not> confirms uni a h rows r" for h using False history_ok_confirms [OF ok] by blast
    have q: "\<not> replies h t r" if "requested uni a h t rows" for h t
      using that cf by (auto simp: confirms_def)
    show ?thesis using ok r c n cf q
      by (auto simp: step history_ok_def histories_snoc)
  qed
qed

lemma history_step_ok:
  "history_ok uni a rows s \<Longrightarrow> history_ok uni a (rows @ [r]) (history_step uni a r s)"
  using history_step_system history_step_command history_step_other by blast

lemma history_ok_fold: "history_ok uni address pre s \<Longrightarrow> history_ok uni address (pre @ rows) (fold (history_step uni address) rows s)"
proof (induction rows arbitrary: pre s)
  case (Cons r rows)
  then show ?case using Cons.IH [OF history_step_ok [OF Cons.prems], of r] by simp
qed simp

lemma history_ok_start: "history_ok uni (address_of host port) [] start_history"
  by (simp add: history_ok_def start_history_def address_of_def at_endpoint_def requested_def confirmed_def)

section \<open>Properties\<close>

text \<open>
  C34. A home is restored from the log exactly when the server confirmed it last. The home of an account
  is \<open>h\<close> if and only if \<open>h\<close> is the home of a \<^verbatim>\<open>/home\<close> command that the user gave while the account was
  connected to exactly this address, the server confirmed it within two minutes, without a connection,
  another requested home or any other navigation in between, and since then no home has been confirmed,
  the account has not connected elsewhere and has not navigated away. The name is valid. Otherwise no home is restored.
\<close>

theorem restored_homes_were_confirmed:
  "(home_from_history uni rows host port = h \<and> h \<noteq> []) = confirmed uni (address_of host port) h rows
   \<and> valid_home uni (home_from_history uni rows host port) = (home_from_history uni rows host port \<noteq> [])"
proof -
  let ?a = "address_of host port" and ?h = "home_from_history uni rows host port"
  have c: "(?h = h \<and> h \<noteq> []) = confirmed uni ?a h rows" for h
    using history_ok_fold [OF history_ok_start, of uni host port rows]
    by (simp add: history_ok_def home_from_history_def)
  have "valid_home uni ?h" if "?h \<noteq> []"
    using c [of ?h] that by (simp add: confirmed_valid)
  moreover have "\<not> valid_home uni []" by (simp add: valid_home_def)
  ultimately show ?thesis using c by metis
qed

definition demo_history :: "history_row list" where
  "demo_history =
     [\<lparr>hr_type = SYSTEM, hr_message = js ''Starte Minecraft-Verbindung zu mc:25565'' @ [8230], hr_created = 0\<rparr>,
      \<lparr>hr_type = USER_COMMAND, hr_message = js ''/home farm'', hr_created = 1000\<rparr>,
      \<lparr>hr_type = SERVER_MESSAGE, hr_message = confirmation (js ''farm''), hr_created = 4000\<rparr>,
      \<lparr>hr_type = USER_COMMAND, hr_message = js ''/home mine'', hr_created = 5000\<rparr>,
      \<lparr>hr_type = SERVER_MESSAGE, hr_message = confirmation (js ''mine''), hr_created = 8000\<rparr>]"

theorem restored_homes_were_confirmed_witness:
  "confirmed (\<lambda>c. 97 \<le> c \<and> c \<le> 122) (address_of (js ''mc'') 25565) (js ''mine'') demo_history
   \<and> \<not> confirmed (\<lambda>c. 97 \<le> c \<and> c \<le> 122) (address_of (js ''mc'') 25565) (js ''farm'') demo_history"
proof -
  have a: "address_of (js ''mc'') 25565 = js ''mc:25565''"
    by (simp add: address_of_def show_int_def show_nat.simps js_def)
  have "hs_home (fold (history_step (\<lambda>c. 97 \<le> c \<and> c \<le> 122) (js ''mc:25565'')) demo_history start_history) = js ''mine''"
    by code_simp
  then have "home_from_history (\<lambda>c. 97 \<le> c \<and> c \<le> 122) demo_history (js ''mc'') 25565 = js ''mine''"
    by (simp only: home_from_history_def a)
  then show ?thesis
    using restored_homes_were_confirmed [of "\<lambda>c. 97 \<le> c \<and> c \<le> 122" demo_history "js ''mc''" 25565 "js ''mine''"]
      restored_homes_were_confirmed [of "\<lambda>c. 97 \<le> c \<and> c \<le> 122" demo_history "js ''mc''" 25565 "js ''farm''"]
    by (simp add: js_def)
qed

text \<open>What is remembered for a connection is read back for that connection only.\<close>

lemma remembered_home_iff:
  "remembered_home uni (Some (remember_home uni own home)) own' = (if own' = own \<and> valid_home uni home then home else [])"
  by (cases own; cases own') (auto simp: remembered_home_def remember_home_def owner_fields_def json_field_def)

end
