(* ===== verification/Packet_Frames.thy ===== *)
theory Packet_Frames
  imports Afk_Prelude "HOL-Library.Word"
begin

text \<open>
  \<^verbatim>\<open>backend/src/bedrock-bot/packetRecovery.ts\<close>, the framing of a Bedrock batch, and the variable-length
  integers of \<^verbatim>\<open>backend/src/soulfire/versions.ts\<close>. A buffer is a list of bytes. The numbers of the batch
  header are JavaScript doubles that stay below \<^verbatim>\<open>2 ** 35\<close>, hence natural numbers; the writer works on 32
  bits.
\<close>

unbundle bit_operations_syntax

type_synonym buffer = "8 word list"

section \<open>Definitions\<close>

datatype frame_error = Incomplete_header | Invalid_header | Incomplete_packet nat nat

text \<open>The first argument counts the bytes that may still be read, of five.\<close>

fun varint_from :: "nat \<Rightarrow> buffer \<Rightarrow> nat \<Rightarrow> nat \<Rightarrow> frame_error + nat \<times> nat" where
  "varint_from 0 buf offset v = Inl Invalid_header"
| "varint_from (Suc k) buf offset v = (let index = 4 - k in
     if length buf \<le> offset + index then Inl Incomplete_header
     else (let byte = buf ! (offset + index) in
       if index = 4 \<and> byte AND 0xf0 \<noteq> 0 then Inl Invalid_header
       else (let v' = v + unat (byte AND 0x7f) * 2 ^ (7 * index) in
         if byte AND 0x80 = 0 then Inr (v', index + 1) else varint_from k buf offset v')))"

definition unsigned_varint :: "buffer \<Rightarrow> nat \<Rightarrow> frame_error + nat \<times> nat" where
  "unsigned_varint buf offset = varint_from 5 buf offset 0"

lemma varint_from_size: "varint_from k buf off v = Inr (n, s) \<Longrightarrow> k \<le> 5 \<Longrightarrow> 5 - k < s \<and> s \<le> 5 \<and> off + s \<le> length buf"
proof (induction k buf off v rule: varint_from.induct)
  case (2 k buf off v)
  then show ?case by (fastforce simp: Let_def split: if_split_asm)
qed simp

text \<open>The spans of the packets, and an error for the whole batch when one is not complete.\<close>

function spans_from :: "buffer \<Rightarrow> nat \<Rightarrow> (nat \<times> nat) list \<Rightarrow> frame_error + (nat \<times> nat) list" where
  "spans_from buf offset spans =
     (if length buf \<le> offset then Inr spans
      else case unsigned_varint buf offset of
          Inl e \<Rightarrow> Inl e
        | Inr (len, n) \<Rightarrow> (let start = offset + n in
            if length buf - start < len then Inl (Incomplete_packet len (length buf - start))
            else spans_from buf (start + len) (spans @ [(start, start + len)])))"
  by pat_completeness auto
termination
  by (relation "measure (\<lambda>(buf, offset, _). length buf - offset)")
    (auto simp: unsigned_varint_def dest: varint_from_size)

definition subarray :: "nat \<Rightarrow> nat \<Rightarrow> 'a list \<Rightarrow> 'a list" where
  "subarray i j xs = take (j - i) (drop i xs)"

definition split_bedrock_frames :: "buffer \<Rightarrow> frame_error + buffer list" where
  "split_bedrock_frames buf = (case spans_from buf 0 [] of
       Inl e \<Rightarrow> Inl e
     | Inr spans \<Rightarrow> Inr (map (\<lambda>(i, j). subarray i j buf) spans))"

text \<open>The writer: seven bits at a time, the lowest first; the shift is unsigned.\<close>

lemma uint_drop7: "uint (drop_bit 7 (v :: 32 word)) = uint v div 128"
  by (simp add: drop_bit_eq_div uint_div)

function var_int :: "32 word \<Rightarrow> buffer" where
  "var_int v = (let byte = ucast (v AND 127); rest = drop_bit 7 v in
     if rest \<noteq> 0 then (byte OR 128) # var_int rest else [byte])"
  by pat_completeness auto

termination
proof (relation "measure unat")
  fix v rest :: "32 word" and byte :: "8 word"
  assume r: "rest = drop_bit 7 v" "rest \<noteq> 0"
  have "uint rest = uint v div 128" using r(1) by (simp add: uint_drop7)
  moreover have "0 < uint rest" using r(2) by (simp add: uint_0_iff less_le)
  ultimately have "uint rest < uint v" by linarith
  then show "(rest, v) \<in> measure unat" by (simp add: word_less_def word_less_nat_alt [symmetric])
qed simp

declare var_int.simps [simp del] spans_from.simps [simp del]

section \<open>Bits\<close>

lemma and_127: "(x :: int) AND 127 = x mod 128"
proof -
  have "x AND 127 = take_bit 7 x" by (simp add: take_bit_eq_mask mask_eq_exp_minus_1)
  then show ?thesis by (simp add: take_bit_eq_mod)
qed

lemma uint_and_127: "uint ((b :: 8 word) AND 127) = uint b mod 128"
  by (simp add: uint_and and_127)

lemma and_128_eq_0: "(b :: 8 word) AND 128 = 0 \<longleftrightarrow> uint b < 128"
proof -
  have "b AND 128 = 0 \<longleftrightarrow> \<not> bit b 7" using and_exp_eq_0_iff_not_bit [of b 7] by simp
  also have "\<dots> \<longleftrightarrow> \<not> bit (uint b) 7" by (simp add: bit_uint_iff)
  also have "\<dots> \<longleftrightarrow> even (uint b div 128)" by (simp add: bit_iff_odd)
  also have "\<dots> \<longleftrightarrow> uint b < 128"
  proof -
    have "0 \<le> uint b" "uint b < 256" using uint_lt2p [of b] by simp_all
    then have "uint b div 128 = 0 \<or> uint b div 128 = 1" "uint b div 128 = 0 \<longleftrightarrow> uint b < 128" by linarith+
    then show ?thesis by auto
  qed
  finally show ?thesis .
qed

lemma uint_low7: "uint (ucast ((v :: 32 word) AND 127) :: 8 word) = uint v mod 128"
  by (simp add: unsigned_ucast_eq uint_and and_127 take_bit_eq_mod mod_mod_cancel)

lemma uint_or_128: "uint (x :: 8 word) < 128 \<Longrightarrow> uint (x OR 128) = uint x + 128"
  using word_plus_and_or [of x 128] uint_add_lem [of x 128] by (simp add: and_128_eq_0 [symmetric])

lemma and_240_eq_0: "uint (b :: 8 word) < 16 \<Longrightarrow> b AND 240 = 0"
proof -
  assume "uint b < 16"
  then have "take_bit 4 (uint b) = uint b" by (simp add: take_bit_int_eq_self)
  then have "uint b = uint b AND 15" by (simp add: take_bit_eq_mask mask_eq_exp_minus_1)
  then have "uint b AND 240 = uint b AND (15 AND 240)" by (metis and.assoc)
  then have "uint (b AND 240) = 0" by (simp add: uint_and)
  then show "b AND 240 = 0" by (simp add: uint_0_iff)
qed

section \<open>Headers\<close>

lemma var_int_less: "uint v < 128 \<Longrightarrow> var_int v = [ucast (v AND 127)]"
  by (subst var_int.simps) (simp add: Let_def uint_drop7 uint_0_iff [symmetric] zdiv_eq_0_iff)

lemma var_int_ge: "128 \<le> uint v \<Longrightarrow> var_int v = (ucast (v AND 127) OR 128) # var_int (drop_bit 7 v)"
proof -
  assume "128 \<le> uint v"
  then have "uint v div 128 \<noteq> 0" by linarith
  then have "drop_bit 7 v \<noteq> 0" by (metis uint_drop7 uint_0_eq)
  then show ?thesis by (subst var_int.simps) (simp add: Let_def)
qed

lemma last_byte: "uint v < 128 \<Longrightarrow> (ucast (v AND 127) :: 8 word) AND 128 = 0 \<and> unat ((ucast (v AND 127) :: 8 word) AND 127) = unat v"
  for v :: "32 word"
  unfolding and_128_eq_0 unat_eq_nat_uint uint_and_127 uint_low7 by simp

lemma more_byte:
  fixes v :: "32 word"
  shows "(ucast (v AND 127) OR 128 :: 8 word) AND 128 \<noteq> 0
    \<and> unat ((ucast (v AND 127) OR 128 :: 8 word) AND 127) = unat v mod 128"
proof -
  have l: "uint (ucast (v AND 127) :: 8 word) < 128" by (simp add: uint_low7)
  have u: "uint (ucast (v AND 127) OR 128 :: 8 word) = uint v mod 128 + 128"
    using uint_or_128 [OF l] by (simp add: uint_low7)
  show ?thesis unfolding and_128_eq_0 unat_eq_nat_uint uint_and_127 u by (simp add: nat_mod_distrib)
qed

lemma varint_from_step:
  assumes "i \<le> 4" and "offset + i < length buf" and "i = 4 \<Longrightarrow> buf ! (offset + i) AND 240 = 0"
  shows "varint_from (5 - i) buf offset a = (let v = a + unat (buf ! (offset + i) AND 127) * 2 ^ (7 * i) in
    if buf ! (offset + i) AND 128 = 0 then Inr (v, i + 1) else varint_from (5 - (i + 1)) buf offset v)"
proof -
  have k: "5 - i = Suc (4 - i)" "4 - (4 - i) = i" "5 - (i + 1) = 4 - i" using assms(1) by simp_all
  have n: "\<not> length buf \<le> offset + i" "\<not> (i = 4 \<and> buf ! (offset + i) AND 240 \<noteq> 0)" using assms(2,3) by auto
  show ?thesis unfolding k(1,3) varint_from.simps Let_def k(2) if_not_P [OF n(1)] if_not_P [OF n(2)] ..
qed

text \<open>What has been read so far, and what is still to come of the header.\<close>

lemma varint_from_var_int:
  "i \<le> 4 \<Longrightarrow> uint v < 2 ^ (32 - 7 * i) \<Longrightarrow> length pre = offset + i
    \<Longrightarrow> varint_from (5 - i) (pre @ var_int v @ post) offset a = Inr (a + unat v * 2 ^ (7 * i), i + length (var_int v))"
proof (induction v arbitrary: i pre a rule: var_int.induct)
  case (1 v)
  let ?buf = "pre @ var_int v @ post"
  show ?case
  proof (cases "uint v < 128")
    case True
    let ?b = "ucast (v AND 127) :: 8 word"
    have nth: "?buf ! (offset + i) = ?b" "offset + i < length ?buf"
      unfolding var_int_less [OF True] using 1(4) by (simp_all add: nth_append)
    have "uint v < 16" if "i = 4" using 1(3) that by simp
    then have top: "?buf ! (offset + i) AND 240 = 0" if "i = 4"
      unfolding nth(1) using that by (intro and_240_eq_0) (simp add: uint_low7)
    show ?thesis
      using varint_from_step [OF 1(2) nth(2) top, of a] last_byte [OF True] nth(1) by (simp add: var_int_less [OF True])
  next
    case False
    then have ge: "128 \<le> uint v" by simp
    let ?b = "ucast (v AND 127) OR 128 :: 8 word" and ?r = "drop_bit 7 v"
    have r: "?r \<noteq> 0"
    proof
      assume "?r = 0"
      then have "uint v div 128 = 0" by (metis uint_drop7 unsigned_0)
      then show False using False by linarith
    qed
    have i: "i < 4" using 1(2,3) False by (cases "i = 4") auto
    have "uint v < 128 * 2 ^ (32 - 7 * Suc i)"
    proof -
      have "i = 0 \<or> i = 1 \<or> i = 2 \<or> i = 3" using i by linarith
      then show ?thesis using 1(3) by (elim disjE) simp_all
    qed
    then have bound: "uint ?r < 2 ^ (32 - 7 * Suc i)"
      unfolding uint_drop7 by (simp add: div_less_iff_less_mult mult.commute)
    have nth: "?buf ! (offset + i) = ?b" "offset + i < length ?buf"
      unfolding var_int_ge [OF ge] using 1(4) by (simp_all add: nth_append)
    have buf: "?buf = (pre @ [?b]) @ var_int ?r @ post" unfolding var_int_ge [OF ge] by simp
    let ?a = "a + unat v mod 128 * 2 ^ (7 * i)"
    have IH: "varint_from (5 - Suc i) ((pre @ [?b]) @ var_int ?r @ post) offset ?a
        = Inr (?a + unat ?r * 2 ^ (7 * Suc i), Suc i + length (var_int ?r))"
      by (rule 1(1) [OF refl refl r]) (use i bound 1(4) in auto)
    have "unat ?r = unat v div 128" by (simp add: drop_bit_eq_div unat_div)
    then have v: "unat v mod 128 + 128 * unat ?r = unat v" by (simp only: mod_mult_div_eq)
    have sum: "?a + unat ?r * 2 ^ (7 * Suc i) = a + unat v * 2 ^ (7 * i)"
    proof -
      have "2 ^ (7 * Suc i) = 128 * (2 :: nat) ^ (7 * i)" by (simp add: power_add)
      then have "?a + unat ?r * 2 ^ (7 * Suc i) = a + (unat v mod 128 + 128 * unat ?r) * 2 ^ (7 * i)"
        by (simp only: algebra_simps)
      then show ?thesis by (simp only: v)
    qed
    show ?thesis
      using varint_from_step [OF 1(2) nth(2), of a] more_byte [of v] nth(1) i IH sum
      by (simp add: var_int_ge [OF ge])
  qed
qed

text \<open>A header that was cut off is never read as a number.\<close>

lemma varint_from_cut:
  "i \<le> 4 \<Longrightarrow> uint v < 2 ^ (32 - 7 * i) \<Longrightarrow> length pre = offset + i \<Longrightarrow> n < length (var_int v)
    \<Longrightarrow> varint_from (5 - i) (pre @ take n (var_int v)) offset a = Inl Incomplete_header"
proof (induction v arbitrary: i pre a n rule: var_int.induct)
  case (1 v)
  have k: "5 - i = Suc (4 - i)" "4 - (4 - i) = i" using 1(2) by simp_all
  show ?case
  proof (cases n)
    case 0
    then show ?thesis using 1(4) unfolding k(1) by (simp add: k(2))
  next
    case (Suc m)
    then have ge: "128 \<le> uint v" using 1(5) by (cases "uint v < 128") (simp_all add: var_int_less)
    let ?b = "ucast (v AND 127) OR 128 :: 8 word" and ?r = "drop_bit 7 v"
    let ?buf = "pre @ take n (var_int v)"
    have buf: "?buf = (pre @ [?b]) @ take m (var_int ?r)" unfolding var_int_ge [OF ge] Suc by simp
    have i: "i < 4" using 1(2,3) ge by (cases "i = 4") auto
    have "i = 0 \<or> i = 1 \<or> i = 2 \<or> i = 3" using i by linarith
    then have "uint v < 128 * 2 ^ (32 - 7 * Suc i)" using 1(3) by (elim disjE) simp_all
    then have bound: "uint ?r < 2 ^ (32 - 7 * Suc i)"
      unfolding uint_drop7 by (simp add: div_less_iff_less_mult mult.commute)
    have r: "?r \<noteq> 0"
    proof
      assume "?r = 0"
      then have "uint v div 128 = 0" by (metis uint_drop7 unsigned_0)
      then show False using ge by linarith
    qed
    have nth: "?buf ! (offset + i) = ?b" "offset + i < length ?buf"
      unfolding buf using 1(4) by (simp_all add: nth_append)
    have IH: "varint_from (5 - Suc i) ((pre @ [?b]) @ take m (var_int ?r)) offset (a + unat v mod 128 * 2 ^ (7 * i))
        = Inl Incomplete_header"
      by (rule 1(1) [OF refl refl r]) (use i bound 1(4,5) Suc in \<open>auto simp: var_int_ge [OF ge]\<close>)
    have "varint_from (5 - i) ?buf offset a = varint_from (5 - (i + 1)) ?buf offset (a + unat v mod 128 * 2 ^ (7 * i))"
      using varint_from_step [OF 1(2) nth(2), of a] more_byte [of v] nth(1) i by simp
    then show ?thesis using IH by (simp only: buf Suc_eq_plus1)
  qed
qed

lemma var_int_nonempty [simp]: "var_int v \<noteq> []"
  by (subst var_int.simps) (simp add: Let_def)

lemma unsigned_varint_var_int:
  "unsigned_varint (pre @ var_int v @ post) (length pre) = Inr (unat v, length (var_int v))"
  using varint_from_var_int [of 0 v pre "length pre" post 0] uint_lt2p [of v] by (simp add: unsigned_varint_def)

lemma unsigned_varint_cut:
  "n < length (var_int v) \<Longrightarrow> unsigned_varint (pre @ take n (var_int v)) (length pre) = Inl Incomplete_header"
  using varint_from_cut [of 0 v pre "length pre" n 0] uint_lt2p [of v] by (simp add: unsigned_varint_def)

section \<open>Batches\<close>

definition frame :: "buffer \<Rightarrow> buffer" where
  "frame p = var_int (of_nat (length p)) @ p"

definition small :: "buffer \<Rightarrow> bool" where
  "small p \<longleftrightarrow> length p < 2 ^ 32"

lemma unat_length: "small p \<Longrightarrow> unat (of_nat (length p) :: 32 word) = length p"
  by (simp add: small_def unat_of_nat)

lemma spans_from_frame:
  assumes "small p"
  shows "spans_from (pre @ frame p @ post) (length pre) spans
    = spans_from ((pre @ frame p) @ post) (length (pre @ frame p))
        (spans @ [(length (pre @ frame p) - length p, length (pre @ frame p))])"
proof -
  have "unsigned_varint (pre @ frame p @ post) (length pre) = Inr (length p, length (var_int (of_nat (length p))))"
    using unsigned_varint_var_int [of pre "of_nat (length p)" "p @ post"] unat_length [OF assms] by (simp add: frame_def)
  then show ?thesis by (subst spans_from.simps) (simp add: frame_def Let_def add.assoc)
qed

definition frames_of :: "buffer list \<Rightarrow> buffer" where
  "frames_of ps = concat (map frame ps)"

fun spans_of :: "nat \<Rightarrow> buffer list \<Rightarrow> (nat \<times> nat) list" where
  "spans_of n [] = []"
| "spans_of n (p # ps) = (n + length (frame p) - length p, n + length (frame p)) # spans_of (n + length (frame p)) ps"

lemma spans_from_frames:
  "list_all small ps \<Longrightarrow> spans_from (pre @ frames_of ps @ post) (length pre) spans
    = spans_from (pre @ frames_of ps @ post) (length pre + length (frames_of ps)) (spans @ spans_of (length pre) ps)"
proof (induction ps arbitrary: pre spans)
  case (Cons p ps)
  then show ?case
    using spans_from_frame [of p pre "frames_of ps @ post" spans] Cons.IH [of "pre @ frame p"]
    by (simp add: frames_of_def add.assoc)
qed (simp add: frames_of_def)

lemma slices_of_spans:
  "map (\<lambda>(i, j). subarray i j (pre @ frames_of ps @ post)) (spans_of (length pre) ps) = ps"
proof (induction ps arbitrary: pre)
  case (Cons p ps)
  have "subarray (length pre + length (frame p) - length p) (length pre + length (frame p)) (pre @ frame p @ frames_of ps @ post) = p"
    by (simp add: subarray_def frame_def)
  then show ?case using Cons.IH [of "pre @ frame p"] by (simp add: frames_of_def add.assoc)
qed simp

lemma split_frames: "list_all small ps \<Longrightarrow> split_bedrock_frames (frames_of ps) = Inr ps"
proof -
  assume "list_all small ps"
  from spans_from_frames [OF this, of "[]" "[]" "[]"]
  have "spans_from (frames_of ps) 0 [] = Inr (spans_of 0 ps)" by (subst (asm) (2) spans_from.simps) simp
  then show ?thesis using slices_of_spans [of "[]" ps "[]"] by (simp add: split_bedrock_frames_def)
qed

lemma split_cut:
  assumes "list_all small ps" and "small p" and "0 < n" and "n < length (frame p)"
  shows "\<exists>e. split_bedrock_frames (frames_of ps @ take n (frame p)) = Inl e"
proof -
  let ?v = "of_nat (length p) :: 32 word" and ?pre = "frames_of ps"
  let ?buf = "?pre @ take n (frame p)"
  have s: "spans_from ?buf 0 [] = spans_from ?buf (length ?pre) (spans_of 0 ps)"
    using spans_from_frames [OF assms(1), of "[]" "take n (frame p)" "[]"] by simp
  have more: "\<not> length ?buf \<le> length ?pre" using assms(3,4) by simp
  show ?thesis
  proof (cases "n < length (var_int ?v)")
    case True
    then have "unsigned_varint ?buf (length ?pre) = Inl Incomplete_header"
      using unsigned_varint_cut [OF True, of ?pre] by (simp add: frame_def)
    then show ?thesis using s more by (subst (asm) (2) spans_from.simps) (simp add: split_bedrock_frames_def)
  next
    case False
    then have "take n (frame p) = var_int ?v @ take (n - length (var_int ?v)) p" by (simp add: frame_def)
    then have "unsigned_varint ?buf (length ?pre) = Inr (length p, length (var_int ?v))"
      using unsigned_varint_var_int [of ?pre ?v] unat_length [OF assms(2)] by simp
    moreover have "n - length (var_int ?v) < length p" using assms(4) False by (simp add: frame_def)
    ultimately show ?thesis using s more False assms(4)
      by (subst (asm) (2) spans_from.simps) (simp add: split_bedrock_frames_def Let_def frame_def)
  qed
qed

lemma spans_from_parts:
  "spans_from buf off spans = Inr r \<Longrightarrow> off \<le> length buf
    \<Longrightarrow> \<exists>new hs. r = spans @ new \<and> length hs = length new \<and> (\<forall>h \<in> set hs. 1 \<le> length h \<and> length h \<le> 5)
      \<and> drop off buf = concat (map2 (@) hs (map (\<lambda>(i, j). subarray i j buf) new))"
proof (induction buf off spans arbitrary: r rule: spans_from.induct)
  case (1 buf off spans)
  show ?case
  proof (cases "length buf \<le> off")
    case True
    then show ?thesis using 1(2) by (subst (asm) spans_from.simps) (auto intro!: exI [of _ "[]"])
  next
    case False
    then obtain len n where u: "unsigned_varint buf off = Inr (len, n)" and l: "\<not> length buf - (off + n) < len"
      and rest: "spans_from buf (off + n + len) (spans @ [(off + n, off + n + len)]) = Inr r"
      using 1(2) by (subst (asm) spans_from.simps) (auto simp: Let_def split: sum.splits if_splits prod.splits)
    have n: "1 \<le> n" "n \<le> 5" "off + n \<le> length buf" using varint_from_size [of 5 buf off 0 len n] u by (simp_all add: unsigned_varint_def)
    have "off + n + len \<le> length buf" using l n(3) by simp
    from 1(1) [OF False u refl refl l rest this] obtain new hs where
      IH: "r = (spans @ [(off + n, off + n + len)]) @ new" "length hs = length new"
        "\<forall>h \<in> set hs. 1 \<le> length h \<and> length h \<le> 5"
        "drop (off + n + len) buf = concat (map2 (@) hs (map (\<lambda>(i, j). subarray i j buf) new))" by blast
    let ?h = "take n (drop off buf)"
    have "drop off buf = ?h @ subarray (off + n) (off + n + len) buf @ drop (off + n + len) buf"
      by (simp add: subarray_def) (metis add.commute append_take_drop_id drop_drop)
    then show ?thesis using IH n
      by (intro exI [of _ "(off + n, off + n + len) # new"] exI [of _ "?h # hs"]) simp
  qed
qed

section \<open>Properties\<close>

text \<open>
  C32. A batch is read exactly or not at all. Packets written one after the other, each with its length in
  the variable-length form of the writer, are split back into the same packets; a batch that ends within
  a packet, at any byte of its header or its body, is rejected as a whole. Conversely, whatever is
  accepted accounts for every byte: it is headers of one to five bytes, each followed by the packet it
  announces, so no byte beyond the buffer is ever part of a packet.
\<close>

theorem batches_are_split_exactly:
  assumes "list_all small ps" and "small p" and "0 < n" and "n < length (frame p)"
  shows "split_bedrock_frames (frames_of ps) = Inr ps
    \<and> (\<exists>e. split_bedrock_frames (frames_of ps @ take n (frame p)) = Inl e)
    \<and> (\<forall>buf fs. split_bedrock_frames buf = Inr fs \<longrightarrow>
        (\<exists>hs. length hs = length fs \<and> (\<forall>h \<in> set hs. 1 \<le> length h \<and> length h \<le> 5) \<and> buf = concat (map2 (@) hs fs)))"
proof (intro conjI allI impI)
  show "split_bedrock_frames (frames_of ps) = Inr ps" by (rule split_frames [OF assms(1)])
  show "\<exists>e. split_bedrock_frames (frames_of ps @ take n (frame p)) = Inl e" by (rule split_cut [OF assms])
  fix buf fs assume "split_bedrock_frames buf = Inr fs"
  then obtain spans where s: "spans_from buf 0 [] = Inr spans" and f: "fs = map (\<lambda>(i, j). subarray i j buf) spans"
    by (auto simp: split_bedrock_frames_def split: sum.splits)
  show "\<exists>hs. length hs = length fs \<and> (\<forall>h \<in> set hs. 1 \<le> length h \<and> length h \<le> 5) \<and> buf = concat (map2 (@) hs fs)"
    using spans_from_parts [OF s] f by auto
qed

theorem batches_are_split_exactly_witness:
  "split_bedrock_frames (frames_of [[1, 2, 3], []]) = Inr [[1, 2, 3], []]
    \<and> (\<exists>e. split_bedrock_frames (frames_of [[1, 2, 3], []] @ take 2 (frame [7, 7])) = Inl e)"
proof -
  have "2 < length (frame [7, 7])" unfolding frame_def by (simp add: var_int_less)
  from batches_are_split_exactly [OF _ _ _ this, of "[[1, 2, 3], []]"] show ?thesis by (simp add: small_def)
qed

end
