(* ===== verification/Protocol_Versions.thy ===== *)
theory Protocol_Versions
  imports Packet_Frames JsRegex Client_Types
begin

text \<open>
  \<^verbatim>\<open>backend/src/soulfire/versions.ts\<close>: the catalog of versions, the choice of a protocol, and the status
  ping that asks a server for its protocol before any login. The socket is a sequence of events; the
  decoding of the text of the answer (\<^verbatim>\<open>JSON.parse\<close> of the UTF-8 bytes) is an argument.
\<close>

section \<open>Catalog and choice\<close>

record protocol_option =
  po_id :: jstr
  po_display :: jstr
  po_keywords :: "jstr list"

definition version_re :: re where
  "version_re = Sq Bol (sq [digits1, unit 46, digits1, opt (sq [unit 46, digits1]), Eol])"

definition first_of :: "'a list \<Rightarrow> 'a option" where
  "first_of xs = (case xs of [] \<Rightarrow> None | x # _ \<Rightarrow> Some x)"

record version_catalog =
  vc_java :: "jstr list"
  vc_java_default :: "jstr option"
  vc_bedrock :: "jstr list"
  vc_bedrock_default :: "jstr option"

definition make_version_catalog :: "protocol_option list \<Rightarrow> version_catalog" where
  "make_version_catalog options =
     (let bedrock = map (\<lambda>v. drop 8 (po_display v)) (filter (\<lambda>v. starts_with (js ''Bedrock '') (po_display v)) options);
          java = uniq (concat (map (\<lambda>v. filter (re_test version_re) (po_keywords v))
                   (filter (\<lambda>v. starts_with (js ''RELEASE|'') (po_id v)) options)))
      in \<lparr>vc_java = java, vc_java_default = first_of java, vc_bedrock = bedrock, vc_bedrock_default = first_of bedrock\<rparr>)"

text \<open>\<open>None\<close>: the error that the version is not supported. The empty text requests no version.\<close>

definition select_protocol :: "protocol_option list \<Rightarrow> edition \<Rightarrow> jstr \<Rightarrow> int option \<Rightarrow> protocol_option option" where
  "select_protocol options ed requested advertised =
     (let available = filter (\<lambda>v. if ed = BEDROCK then starts_with (js ''Bedrock '') (po_display v)
                                  else starts_with (js ''RELEASE|'') (po_id v)) options
      in if requested \<noteq> [] then find (\<lambda>v. po_display v = requested \<or> po_display v = js ''Bedrock '' @ requested
                                         \<or> requested \<in> set (po_keywords v)) available
         else case (ed, advertised) of
             (JAVA, Some n) \<Rightarrow> find (\<lambda>v. po_id v = js ''RELEASE|'' @ show_int n) available
           | _ \<Rightarrow> first_of available)"

section \<open>Reading integers\<close>

text \<open>Here the value is a signed 32-bit integer, and the fifth byte is not checked.\<close>

datatype varint_read = More | Invalid | Read int nat

fun read_from :: "nat \<Rightarrow> buffer \<Rightarrow> nat \<Rightarrow> 32 word \<Rightarrow> varint_read" where
  "read_from 0 buf offset v = Invalid"
| "read_from (Suc k) buf offset v = (let i = 4 - k in
     if length buf \<le> offset + i then More
     else (let byte = buf ! (offset + i); v' = v OR push_bit (7 * i) (ucast (byte AND 127)) in
       if byte AND 128 = 0 then Read (sint v') (i + 1) else read_from k buf offset v'))"

definition read_var_int :: "buffer \<Rightarrow> nat \<Rightarrow> varint_read" where
  "read_var_int buf offset = read_from 5 buf offset 0"

section \<open>The status ping\<close>

datatype ping_error = Timed_out | Socket_error | Ended | Too_large | Bad_varint | Bad_packet | Bad_length | Bad_status | No_protocol

record ping =
  pg_buffer :: buffer
  pg_result :: "(ping_error + int) option"

definition new_ping :: ping where
  "new_ping = \<lparr>pg_buffer = [], pg_result = None\<rparr>"

definition finish_ping :: "ping_error + int \<Rightarrow> ping \<Rightarrow> ping" where
  "finish_ping r p = (if pg_result p = None then p\<lparr>pg_result := Some r\<rparr> else p)"

text \<open>The handshake and the request; the host as bytes.\<close>

definition uint16_be :: "nat \<Rightarrow> buffer" where
  "uint16_be n = [of_nat (n div 256), of_nat (n mod 256)]"

definition status_request :: "buffer \<Rightarrow> nat \<Rightarrow> buffer" where
  "status_request address port =
     (let packet = var_int 0 @ var_int (- 1) @ var_int (of_nat (length address)) @ address @ uint16_be port @ var_int 1
      in var_int (of_nat (length packet)) @ packet @ [1, 0])"

definition advertised_protocol :: "json \<Rightarrow> ping_error + int" where
  "advertised_protocol response = (if response = JNull then Inl Bad_status
     else case (case json_field response ''version'' of Some v \<Rightarrow> json_field v ''protocol'' | None \<Rightarrow> None) of
         Some (JNum x) \<Rightarrow> if x = of_int \<lfloor>x\<rfloor> \<and> 0 \<le> x \<and> x \<le> 2 ^ 53 - 1 then Inr \<lfloor>x\<rfloor> else Inl No_protocol
       | _ \<Rightarrow> Inl No_protocol)"

text \<open>The answer in the buffer, or \<open>None\<close> while it is not complete.\<close>

definition read_status :: "(buffer \<Rightarrow> json option) \<Rightarrow> buffer \<Rightarrow> (ping_error + int) option" where
  "read_status parse buf =
     (if 1024 * 1024 < length buf then Some (Inl Too_large)
      else case read_var_int buf 0 of
          Invalid \<Rightarrow> Some (Inl Bad_varint)
        | More \<Rightarrow> None
        | Read value n \<Rightarrow>
            if int (length buf) < int n + value then None
            else (case read_var_int buf n of
                Invalid \<Rightarrow> Some (Inl Bad_varint)
              | More \<Rightarrow> Some (Inl Bad_packet)
              | Read packet m \<Rightarrow>
                  if packet \<noteq> 0 then Some (Inl Bad_packet)
                  else (case read_var_int buf (n + m) of
                      Invalid \<Rightarrow> Some (Inl Bad_varint)
                    | More \<Rightarrow> Some (Inl Bad_length)
                    | Read len k \<Rightarrow>
                        (let start = n + m + k in
                         if len < 0 \<or> int (length buf) < int start + len then Some (Inl Bad_length)
                         else case parse (subarray start (start + nat len) buf) of
                             None \<Rightarrow> Some (Inl Bad_status)
                           | Some j \<Rightarrow> Some (advertised_protocol j)))))"

definition on_ping_data :: "(buffer \<Rightarrow> json option) \<Rightarrow> buffer \<Rightarrow> ping \<Rightarrow> ping" where
  "on_ping_data parse chunk p =
     (let p' = p\<lparr>pg_buffer := pg_buffer p @ chunk\<rparr> in
      case read_status parse (pg_buffer p') of None \<Rightarrow> p' | Some r \<Rightarrow> finish_ping r p')"

datatype ping_event = P_data buffer | P_timeout | P_error | P_end

fun ping_step :: "(buffer \<Rightarrow> json option) \<Rightarrow> ping_event \<Rightarrow> ping \<Rightarrow> ping" where
  "ping_step parse (P_data chunk) p = on_ping_data parse chunk p"
| "ping_step parse P_timeout p = finish_ping (Inl Timed_out) p"
| "ping_step parse P_error p = finish_ping (Inl Socket_error) p"
| "ping_step parse P_end p = finish_ping (Inl Ended) p"

section \<open>Lemmas\<close>

lemma push_or:
  assumes "a < 2 ^ n" and "n \<le> 28"
  shows "(of_nat a :: 32 word) OR push_bit n w = of_nat (a + unat w * 2 ^ n)"
proof -
  have a: "(of_nat a :: 32 word) = take_bit n (of_nat a)"
    using assms(1) by (simp add: take_bit_of_nat take_bit_nat_eq_self)
  have "(of_nat a :: 32 word) AND push_bit n w = 0"
    by (subst a) (rule bit_eqI, simp add: bit_simps)
  then have "(of_nat a :: 32 word) OR push_bit n w = of_nat a + push_bit n w"
    using word_plus_and_or [of "of_nat a" "push_bit n w"] by simp
  then show ?thesis by (simp add: push_bit_eq_mult)
qed

lemma unat_widened: "unat (ucast (w :: 8 word) :: 32 word) = unat w"
proof -
  have "unat w < 2 ^ LENGTH(8)" by (rule unsigned_less)
  then have "unat w < 2 ^ LENGTH(32)" by simp
  then show ?thesis unfolding unsigned_ucast_eq by (rule take_bit_nat_eq_self)
qed

lemma low7_less: "unat ((b :: 8 word) AND 127) < 128"
  by (simp add: unat_eq_nat_uint uint_and_127 nat_less_iff)

text \<open>Both readers agree on what the strict one accepts, and on headers that are cut off.\<close>

lemma read_from_varint_from:
  "k \<le> 5 \<Longrightarrow> a < 2 ^ (7 * (5 - k))
    \<Longrightarrow> (case varint_from k buf off a of Inr (v, n) \<Rightarrow> read_from k buf off (of_nat a) = Read (sint (of_nat v :: 32 word)) n
         | Inl e \<Rightarrow> e = Incomplete_header \<longrightarrow> read_from k buf off (of_nat a) = More)"
proof (induction k buf off a rule: varint_from.induct)
  case (2 k buf off a)
  let ?i = "4 - k" let ?b = "buf ! (off + ?i)" let ?a = "a + unat (?b AND 127) * 2 ^ (7 * ?i)"
  have i: "5 - Suc k = ?i" "7 * ?i \<le> 28" "5 - k = Suc ?i" "k \<le> 5" using 2(2) by simp_all
  have or: "(of_nat a :: 32 word) OR push_bit (7 * ?i) (ucast (?b AND 127)) = of_nat ?a"
    using push_or [of a "7 * ?i" "ucast (?b AND 127)"] 2(3) i by (simp only: unat_widened)
  have "?a < 2 ^ (7 * ?i) + 127 * 2 ^ (7 * ?i)"
    using 2(3) low7_less [of ?b] unfolding i(1) by (intro add_less_le_mono mult_le_mono1) simp_all
  also have "\<dots> = 2 ^ (7 * (5 - k))" unfolding i(3) by (simp add: power_add)
  finally have bound: "?a < 2 ^ (7 * (5 - k))" .
  show ?case
  proof (cases "length buf \<le> off + ?i \<or> ?i = 4 \<and> ?b AND 240 \<noteq> 0 \<or> ?b AND 128 = 0")
    case True
    then show ?thesis unfolding varint_from.simps read_from.simps Let_def or by (auto simp del: of_nat_add of_nat_mult)
  next
    case False
    then show ?thesis using 2(1) [OF refl _ refl _ refl _ i(4) bound]
      unfolding varint_from.simps read_from.simps Let_def or by simp
  qed
qed simp

lemma read_var_int_var_int:
  "read_var_int (pre @ var_int v @ post) (length pre) = Read (sint v) (length (var_int v))"
  using read_from_varint_from [of 5 0 "pre @ var_int v @ post" "length pre"] unsigned_varint_var_int [of pre v post]
  by (simp add: read_var_int_def unsigned_varint_def)

lemma read_var_int_cut: "n < length (var_int v) \<Longrightarrow> read_var_int (pre @ take n (var_int v)) (length pre) = More"
  using read_from_varint_from [of 5 0 "pre @ take n (var_int v)" "length pre"] unsigned_varint_cut [of n v pre]
  by (simp add: read_var_int_def unsigned_varint_def)

lemma sint_length: "n < 2 ^ 31 \<Longrightarrow> sint (of_nat n :: 32 word) = int n"
  by (simp add: sint_sbintrunc' signed_take_bit_int_eq_self signed_of_nat)

definition status_body :: "buffer \<Rightarrow> buffer" where
  "status_body txt = var_int 0 @ var_int (of_nat (length txt)) @ txt"

definition status_answer :: "buffer \<Rightarrow> buffer" where
  "status_answer txt = var_int (of_nat (length (status_body txt))) @ status_body txt"

lemma read_whole:
  assumes "length (status_answer txt) \<le> 1024 * 1024" and "parse txt = Some j"
  shows "read_status parse (status_answer txt) = Some (advertised_protocol j)"
proof -
  let ?l = "of_nat (length (status_body txt)) :: 32 word" and ?t = "of_nat (length txt) :: 32 word"
  have len: "length (status_body txt) < 2 ^ 31" "length txt < 2 ^ 31"
    using assms(1) by (simp_all add: status_answer_def status_body_def)
  have r1: "read_var_int (status_answer txt) 0 = Read (int (length (status_body txt))) (length (var_int ?l))"
    using read_var_int_var_int [of "[]" ?l] sint_length [OF len(1)] by (simp add: status_answer_def)
  have r2: "read_var_int (status_answer txt) (length (var_int ?l)) = Read 0 (length (var_int 0))"
    using read_var_int_var_int [of "var_int ?l" 0] by (simp add: status_answer_def status_body_def)
  have r3: "read_var_int (status_answer txt) (length (var_int ?l) + length (var_int 0))
      = Read (int (length txt)) (length (var_int ?t))"
    using read_var_int_var_int [of "var_int ?l @ var_int 0" ?t] sint_length [OF len(2)]
    by (simp add: status_answer_def status_body_def)
  have sub: "subarray (length (var_int ?l) + length (var_int 0) + length (var_int ?t))
      (length (var_int ?l) + length (var_int 0) + length (var_int ?t) + length txt) (status_answer txt) = txt"
    by (simp add: subarray_def status_answer_def status_body_def)
  have tot: "length (status_answer txt) = length (var_int ?l) + length (status_body txt)"
    "length (status_answer txt) = length (var_int ?l) + length (var_int 0) + length (var_int ?t) + length txt"
    by (simp_all add: status_answer_def status_body_def)
  have no: "\<not> 1024 * 1024 < length (status_answer txt)"
    "\<not> int (length (status_answer txt)) < int (length (var_int ?l)) + int (length (status_body txt))"
    "\<not> (int (length txt) < 0 \<or> int (length (status_answer txt))
        < int (length (var_int ?l) + length (var_int 0) + length (var_int ?t)) + int (length txt))"
    using assms(1) tot by linarith+
  show ?thesis unfolding read_status_def if_not_P [OF no(1)] r1 varint_read.case if_not_P [OF no(2)] r2 r3 Let_def
      if_not_P [OF no(3)] nat_int sub assms(2) by simp
qed

lemma read_part:
  assumes "length (status_answer txt) \<le> 1024 * 1024" and "buf @ rest = status_answer txt" and "rest \<noteq> []"
  shows "read_status parse buf = None"
proof -
  let ?l = "of_nat (length (status_body txt)) :: 32 word"
  have len: "length (status_body txt) < 2 ^ 31" using assms(1) by (simp add: status_answer_def)
  have buf: "buf = take (length buf) (status_answer txt)" by (simp flip: assms(2))
  have tot: "length buf < length (var_int ?l) + length (status_body txt)"
    using arg_cong [OF assms(2), of length] assms(3) by (cases rest) (simp_all add: status_answer_def)
  have small: "\<not> 1024 * 1024 < length buf" using arg_cong [OF assms(2), of length] assms(1) by simp
  show ?thesis
  proof (cases "length buf < length (var_int ?l)")
    case True
    then have "buf = take (length buf) (var_int ?l)" using buf by (simp add: status_answer_def)
    then have "read_var_int buf 0 = More" using read_var_int_cut [OF True, of "[]"] by simp
    then show ?thesis using small by (simp add: read_status_def)
  next
    case False
    then have "buf = var_int ?l @ take (length buf - length (var_int ?l)) (status_body txt)"
      using buf by (simp add: status_answer_def)
    then have "read_var_int buf 0 = Read (int (length (status_body txt))) (length (var_int ?l))"
      using read_var_int_var_int [of "[]" ?l "take (length buf - length (var_int ?l)) (status_body txt)"]
        sint_length [OF len] by simp
    then show ?thesis using small tot by (simp add: read_status_def)
  qed
qed

lemma finish_ping_stays: "pg_result p = Some r \<Longrightarrow> pg_result (ping_step parse e p) = Some r"
  by (cases e) (auto simp: on_ping_data_def finish_ping_def Let_def split: option.splits)

interpretation ping_settled: stepwise "ping_step parse" "\<lambda>p. pg_result p = Some r" for parse r
  by unfold_locales (rule finish_ping_stays)

lemma pieces:
  assumes "length (status_answer txt) \<le> 1024 * 1024" and "parse txt = Some j"
  shows "pg_result p = None \<Longrightarrow> pg_buffer p @ concat chunks = status_answer txt \<Longrightarrow> pg_buffer p \<noteq> status_answer txt
    \<Longrightarrow> pg_result (fold (ping_step parse) (map P_data chunks) p) = Some (advertised_protocol j)"
proof (induction chunks arbitrary: p)
  case (Cons c cs)
  show ?case
  proof (cases "pg_buffer p @ c = status_answer txt")
    case True
    then have "pg_result (ping_step parse (P_data c) p) = Some (advertised_protocol j)"
      using read_whole [where parse = parse, OF assms] Cons.prems(1) by (simp add: on_ping_data_def finish_ping_def)
    then show ?thesis using ping_settled.run_inv by simp
  next
    case False
    then have "concat cs \<noteq> []" using Cons.prems(2) by (metis append.right_neutral concat.simps(2))
    then have "read_status parse (pg_buffer p @ c) = None"
      using read_part [OF assms(1), of "pg_buffer p @ c" "concat cs"] Cons.prems(2) by simp
    then have "ping_step parse (P_data c) p = p\<lparr>pg_buffer := pg_buffer p @ c\<rparr>" by (simp add: on_ping_data_def)
    then show ?thesis using Cons.IH [of "p\<lparr>pg_buffer := pg_buffer p @ c\<rparr>"] Cons.prems False by simp
  qed
qed simp

section \<open>Properties\<close>

text \<open>
  C33. The status of a server is read in whatever pieces it arrives. When the bytes of the pieces are an
  answer of at most one mebibyte, its lengths written as variable-length integers, the result is the
  protocol that its text advertises, and nothing that happens on the socket afterwards, neither more
  data nor a timeout, an error or the end, changes the result.
\<close>

theorem status_is_read_in_any_pieces:
  assumes "concat chunks = status_answer txt" and "length (status_answer txt) \<le> 1024 * 1024" and "parse txt = Some j"
  shows "pg_result (fold (ping_step parse) (map P_data chunks @ evs) new_ping) = Some (advertised_protocol j)"
proof -
  have "status_answer txt \<noteq> []" by (simp add: status_answer_def)
  then show ?thesis
    using pieces [where parse = parse, OF assms(2,3), of new_ping chunks] assms(1) ping_settled.run_inv by (simp add: new_ping_def)
qed

theorem status_is_read_in_any_pieces_witness:
  "pg_result (fold (ping_step (\<lambda>_. Some (JObj [(js ''version'', JObj [(js ''protocol'', JNum 767)])])))
      (map P_data (map (\<lambda>b. [b]) (status_answer [123, 125])) @ [P_end]) new_ping) = Some (Inr 767)"
proof -
  have "length (status_answer [123, 125]) \<le> 1024 * 1024"
    by (simp add: status_answer_def status_body_def var_int_less)
  moreover have "concat (map (\<lambda>b. [b]) (status_answer [123, 125])) = status_answer [123, 125]" by (simp only: concat_map_singleton list.map_ident)
  moreover have adv: "advertised_protocol (JObj [(js ''version'', JObj [(js ''protocol'', JNum 767)])]) = Inr 767"
    by (simp add: advertised_protocol_def json_field_def)
  ultimately show ?thesis
    using status_is_read_in_any_pieces [of "map (\<lambda>b. [b]) (status_answer [123, 125])" "[123, 125]"
        "\<lambda>_. Some (JObj [(js ''version'', JObj [(js ''protocol'', JNum 767)])])" _ "[P_end]"]
    by (simp only: list.map adv)
qed

end
