(* ===== verification/Live_Connections.thy ===== *)
theory Live_Connections
  imports Sessions
begin

text \<open>
  \<^verbatim>\<open>backend/src/websocket/authorization.ts\<close>: the sockets of the website. Work is queued; before each
  piece of work the session is read again and the access is decided again. The world, the work and the
  messages are type parameters; \<open>amount\<close> tells how many bytes the socket has not yet delivered, as a
  function of what has been sent.
\<close>

section \<open>The connection\<close>

record ('w, 'j, 'm) connection =
  co_open :: bool
  co_code :: "int option"
  co_disposed :: bool
  co_jobs :: "'j list"
  co_running :: "('j \<times> session_context) option"
  co_sent :: "'m list"
  co_world :: 'w

definition close_socket :: "int \<Rightarrow> ('w, 'j, 'm, 'l) connection_scheme \<Rightarrow> ('w, 'j, 'm, 'l) connection_scheme" where
  "close_socket code c = (if co_open c then c\<lparr>co_open := False, co_code := Some code\<rparr> else c)"

definition MAX_PENDING :: nat where "MAX_PENDING = 64"
definition MAX_BUFFERED :: int where "MAX_BUFFERED = 2 * 1024 * 1024"

definition pending_jobs :: "('w, 'j, 'm, 'l) connection_scheme \<Rightarrow> nat" where
  "pending_jobs c = length (co_jobs c) + (if co_running c = None then 0 else 1)"

definition run_job :: "'j \<Rightarrow> ('w, 'j, 'm, 'l) connection_scheme \<Rightarrow> ('w, 'j, 'm, 'l) connection_scheme" where
  "run_job j c = (if \<not> co_open c then c
     else if MAX_PENDING \<le> pending_jobs c then close_socket 4429 c
     else c\<lparr>co_jobs := co_jobs c @ [j]\<rparr>)"

definition send_message :: "('m list \<Rightarrow> int) \<Rightarrow> 'm \<Rightarrow> ('w, 'j, 'm, 'l) connection_scheme \<Rightarrow> ('w, 'j, 'm, 'l) connection_scheme" where
  "send_message amount m c = (if \<not> co_open c then c
     else if MAX_BUFFERED < amount (co_sent c) then close_socket 4429 c
     else c\<lparr>co_sent := co_sent c @ [m]\<rparr>)"

text \<open>The next job: the session and the access as they are now. The job itself runs in a later turn.\<close>

definition start_job :: "('w \<Rightarrow> 'w \<times> session_context option) \<Rightarrow> ('w, 'j, 'm, 'l) connection_scheme \<Rightarrow> ('w, 'j, 'm, 'l) connection_scheme" where
  "start_job authorized c = (case (co_running c, co_jobs c) of
       (None, j # rest) \<Rightarrow>
         if \<not> co_open c then c\<lparr>co_jobs := rest\<rparr>
         else (case authorized (co_world c) of
             (w, None) \<Rightarrow> close_socket 4401 (c\<lparr>co_jobs := rest, co_world := w\<rparr>)
           | (w, Some sc) \<Rightarrow> c\<lparr>co_jobs := rest, co_world := w, co_running := Some (j, sc)\<rparr>)
     | _ \<Rightarrow> c)"

definition finish_job :: "(session_context \<Rightarrow> 'j \<Rightarrow> ('w, 'j, 'm, 'l) connection_scheme \<Rightarrow> ('w, 'j, 'm, 'l) connection_scheme)
    \<Rightarrow> ('w, 'j, 'm, 'l) connection_scheme \<Rightarrow> ('w, 'j, 'm, 'l) connection_scheme" where
  "finish_job perform c = (case co_running c of
       None \<Rightarrow> c
     | Some (j, sc) \<Rightarrow> (if co_open c then perform sc j c else c)\<lparr>co_running := None\<rparr>)"

text \<open>A check or an action that throws closes the socket.\<close>

definition fail_job :: "('w, 'j, 'm, 'l) connection_scheme \<Rightarrow> ('w, 'j, 'm, 'l) connection_scheme" where
  "fail_job c = (case (co_running c, co_jobs c) of
       (Some _, _) \<Rightarrow> close_socket 1011 (c\<lparr>co_running := None\<rparr>)
     | (None, j # rest) \<Rightarrow> if co_open c then close_socket 1011 (c\<lparr>co_jobs := rest\<rparr>) else c
     | _ \<Rightarrow> c)"

fun concerns :: "revocation \<Rightarrow> jstr \<Rightarrow> jstr \<Rightarrow> bool" where
  "concerns Revoked_all sid user = True"
| "concerns (Revoked_session s) sid user \<longleftrightarrow> s = sid"
| "concerns (Revoked_user u) sid user \<longleftrightarrow> u = user"

definition on_revoked :: "jstr \<Rightarrow> jstr \<Rightarrow> revocation \<Rightarrow> ('w, 'j, 'm, 'l) connection_scheme \<Rightarrow> ('w, 'j, 'm, 'l) connection_scheme" where
  "on_revoked sid user r c = (if \<not> co_disposed c \<and> concerns r sid user then close_socket 4401 c else c)"

text \<open>Once the socket is closed, its subscriptions and timers end.\<close>

definition on_closed :: "('w, 'j, 'm, 'l) connection_scheme \<Rightarrow> ('w, 'j, 'm, 'l) connection_scheme" where
  "on_closed c = c\<lparr>co_open := False, co_disposed := True\<rparr>"

definition on_socket_error :: "('w, 'j, 'm, 'l) connection_scheme \<Rightarrow> ('w, 'j, 'm, 'l) connection_scheme" where
  "on_socket_error c = close_socket 1005 c"

section \<open>What a route may do with its connection\<close>

text \<open>
  A route hands over events of its own. They may queue work, send error texts (\<open>harmless\<close> messages) and
  close, and they leave running work and the check alone. An action may send what it likes.
\<close>

locale live_route =
  fixes own :: "'e \<Rightarrow> ('w, 'j, 'm, 'l) connection_scheme \<Rightarrow> ('w, 'j, 'm, 'l) connection_scheme"
    and perform :: "'p \<Rightarrow> session_context \<Rightarrow> 'j \<Rightarrow> ('w, 'j, 'm, 'l) connection_scheme \<Rightarrow> ('w, 'j, 'm, 'l) connection_scheme"
    and harmless :: "'m \<Rightarrow> bool"
  assumes own_running: "co_running (own e c) = co_running c"
    and own_closed: "co_open (own e c) \<Longrightarrow> co_open c"
    and own_sent: "filter (\<lambda>m. \<not> harmless m) (co_sent (own e c)) = filter (\<lambda>m. \<not> harmless m) (co_sent c)"
    and own_sent_closed: "\<not> co_open c \<Longrightarrow> co_sent (own e c) = co_sent c"
    and own_disposed: "co_disposed (own e c) = co_disposed c"
    and own_pending: "pending_jobs c \<le> MAX_PENDING \<Longrightarrow> pending_jobs (own e c) \<le> MAX_PENDING"
    and perform_running: "co_running (perform p sc j c) = co_running c"
    and perform_closed: "co_open (perform p sc j c) \<Longrightarrow> co_open c"
    and perform_disposed: "co_disposed (perform p sc j c) = co_disposed c"
    and perform_jobs: "co_jobs (perform p sc j c) = co_jobs c"

datatype ('e, 'w, 'p) live_event =
    Own 'e
  | Start int
  | Finish 'p
  | Fail
  | Revoke revocation
  | Closed
  | Socket_error
  | World 'w

text \<open>The events that end the running job.\<close>

fun ends_job :: "('e, 'w, 'p) live_event \<Rightarrow> bool" where
  "ends_job (Finish p) = True"
| "ends_job Fail = True"
| "ends_job _ = False"

definition live_step :: "('e \<Rightarrow> ('w, 'j, 'm, 'l) connection_scheme \<Rightarrow> ('w, 'j, 'm, 'l) connection_scheme)
    \<Rightarrow> ('p \<Rightarrow> session_context \<Rightarrow> 'j \<Rightarrow> ('w, 'j, 'm, 'l) connection_scheme \<Rightarrow> ('w, 'j, 'm, 'l) connection_scheme)
    \<Rightarrow> (int \<Rightarrow> 'w \<Rightarrow> 'w \<times> session_context option) \<Rightarrow> jstr \<Rightarrow> jstr
    \<Rightarrow> ('e, 'w, 'p) live_event \<Rightarrow> ('w, 'j, 'm, 'l) connection_scheme \<Rightarrow> ('w, 'j, 'm, 'l) connection_scheme" where
  "live_step own perform authorized sid user ev c = (case ev of
       Own e \<Rightarrow> own e c
     | Start now \<Rightarrow> start_job (authorized now) c
     | Finish p \<Rightarrow> finish_job (perform p) c
     | Fail \<Rightarrow> fail_job c
     | Revoke r \<Rightarrow> on_revoked sid user r c
     | Closed \<Rightarrow> on_closed c
     | Socket_error \<Rightarrow> on_socket_error c
     | World w \<Rightarrow> c\<lparr>co_world := w\<rparr>)"

lemma close_socket_fields [simp]:
  "\<not> co_open (close_socket k c)" "co_running (close_socket k c) = co_running c" "co_jobs (close_socket k c) = co_jobs c"
  "co_sent (close_socket k c) = co_sent c" "co_world (close_socket k c) = co_world c"
  "pending_jobs (close_socket k c) = pending_jobs c" "co_disposed (close_socket k c) = co_disposed c"
  by (simp_all add: close_socket_def pending_jobs_def)

lemma run_job_fields [simp]:
  "co_running (run_job j c) = co_running c" "co_disposed (run_job j c) = co_disposed c" "co_sent (run_job j c) = co_sent c" "co_world (run_job j c) = co_world c"
  by (simp_all add: run_job_def)

lemma run_job_open: "co_open (run_job j c) \<Longrightarrow> co_open c"
  by (simp add: run_job_def split: if_split_asm)

lemma run_job_pending: "pending_jobs c \<le> MAX_PENDING \<Longrightarrow> pending_jobs (run_job j c) \<le> MAX_PENDING"
  by (simp add: run_job_def) (simp add: pending_jobs_def)

lemma send_message_fields [simp]:
  "co_running (send_message a m c) = co_running c" "co_disposed (send_message a m c) = co_disposed c" "co_jobs (send_message a m c) = co_jobs c"
  "co_world (send_message a m c) = co_world c"
  "pending_jobs (send_message a m c) = pending_jobs c"
  "\<not> co_open c \<Longrightarrow> send_message a m c = c"
  by (simp_all add: send_message_def pending_jobs_def)

lemma send_open: "co_open (send_message a m c) \<Longrightarrow> co_open c"
  by (simp add: send_message_def split: if_split_asm)

lemma send_sent: "co_sent (send_message a m c) = co_sent c \<or> co_sent (send_message a m c) = co_sent c @ [m]"
  by (simp add: send_message_def)

section \<open>Every route of this kind\<close>

definition fresh_connection :: "('w, 'j, 'm, 'l) connection_scheme \<Rightarrow> bool" where
  "fresh_connection c \<longleftrightarrow> (co_disposed c \<longrightarrow> \<not> co_open c) \<and> co_running c = None \<and> co_sent c = []"

context live_route
begin

abbreviation "step authorized sid user \<equiv> live_step own perform authorized sid user"

text \<open>A closed socket stays closed and silent.\<close>

lemma step_closed:
  assumes "\<not> co_open c"
  shows "\<not> co_open (step au sid user ev c) \<and> co_sent (step au sid user ev c) = co_sent c"
proof (cases ev)
  case (Own e)
  have "\<not> co_open (own e c)" using own_closed assms by blast
  then show ?thesis using own_sent_closed [OF assms] Own by (simp add: live_step_def)
next
  case (Finish p)
  then show ?thesis using assms by (simp add: live_step_def finish_job_def split: option.splits)
next
  case (Start now)
  then show ?thesis using assms by (simp add: live_step_def start_job_def split: option.splits list.splits)
next
  case Fail
  then show ?thesis using assms by (simp add: live_step_def fail_job_def split: option.splits list.splits)
qed (use assms in \<open>simp_all add: live_step_def on_revoked_def on_closed_def on_socket_error_def\<close>)

lemma run_closed:
  "\<not> co_open c \<Longrightarrow> \<not> co_open (fold (step au sid user) evs c) \<and> co_sent (fold (step au sid user) evs c) = co_sent c"
proof (induction evs arbitrary: c)
  case (Cons ev evs)
  have n: "\<not> co_open (step au sid user ev c)" "co_sent (step au sid user ev c) = co_sent c" using step_closed [OF Cons.prems] by blast+
  show ?case using Cons.IH [OF n(1)] n(2) by simp
qed simp

lemma revoked_closes: "concerns r sid user \<Longrightarrow> \<not> co_disposed c \<Longrightarrow> \<not> co_open (step au sid user (Revoke r) c)"
  by (simp add: live_step_def on_revoked_def)

lemma step_disposed:
  assumes "co_disposed c \<longrightarrow> \<not> co_open c"
  shows "co_disposed (step au sid user ev c) \<longrightarrow> \<not> co_open (step au sid user ev c)"
proof (cases "co_open c")
  case False
  then show ?thesis using step_closed by blast
next
  case True
  then have "\<not> co_disposed c" using assms by blast
  then show ?thesis using own_disposed perform_disposed
    by (cases ev) (auto simp: live_step_def start_job_def finish_job_def fail_job_def on_revoked_def on_closed_def on_socket_error_def
        split: list.splits option.splits prod.splits)
qed

lemma run_disposed:
  "co_disposed c \<longrightarrow> \<not> co_open c \<Longrightarrow> co_disposed (fold (step au sid user) evs c) \<longrightarrow> \<not> co_open (fold (step au sid user) evs c)"
proof (induction evs arbitrary: c)
  case (Cons ev evs)
  show ?case using Cons.IH [OF step_disposed [OF Cons.prems]] by simp
qed simp

text \<open>While the socket is open, its session has not been revoked.\<close>

lemma open_not_revoked:
  assumes "fresh_connection c" and "co_open (fold (step au sid user) evs c)" and "Revoke r \<in> set evs"
  shows "\<not> concerns r sid user"
proof
  assume r: "concerns r sid user"
  obtain a b where evs: "evs = a @ Revoke r # b" using assms(3) by (meson split_list)
  let ?c = "fold (step au sid user) a c"
  have "\<not> co_open (step au sid user (Revoke r) ?c)"
  proof (cases "co_disposed ?c")
    case True
    then have "\<not> co_open ?c" using run_disposed [of c au sid user a] assms(1) by (simp add: fresh_connection_def)
    then show ?thesis using step_closed by blast
  next
    case False
    then show ?thesis by (rule revoked_closes [OF r])
  qed
  then show False using run_closed assms(2) evs by simp
qed

text \<open>
  Where the running job comes from: it was the first of the queue while nothing ran, the check was made and gave
  the session with which it runs, and since then no job has ended, so this check is the last one.
\<close>

definition checked :: "(int \<Rightarrow> 'w \<Rightarrow> 'w \<times> session_context option) \<Rightarrow> jstr \<Rightarrow> jstr
    \<Rightarrow> ('w, 'j, 'm, 'l) connection_scheme \<Rightarrow> ('e, 'w, 'p) live_event list \<Rightarrow> 'j \<Rightarrow> session_context \<Rightarrow> bool" where
  "checked au sid user c evs j sc \<longleftrightarrow> (\<exists>a now b rest. evs = a @ Start now # b
     \<and> co_running (fold (step au sid user) a c) = None \<and> co_jobs (fold (step au sid user) a c) = j # rest
     \<and> snd (au now (co_world (fold (step au sid user) a c))) = Some sc \<and> list_all (\<lambda>x. \<not> ends_job x) b)"

lemma checked_snoc:
  assumes "checked au sid user c evs j sc" and "\<not> ends_job ev"
  shows "checked au sid user c (evs @ [ev]) j sc"
proof -
  obtain a now b rest where "evs = a @ Start now # b"
    "co_running (fold (step au sid user) a c) = None" "co_jobs (fold (step au sid user) a c) = j # rest"
    "snd (au now (co_world (fold (step au sid user) a c))) = Some sc" "list_all (\<lambda>x. \<not> ends_job x) b"
    using assms(1) unfolding checked_def by blast
  then show ?thesis unfolding checked_def
    using assms(2) by (intro exI [of _ a] exI [of _ now] exI [of _ "b @ [ev]"] exI [of _ rest]) simp
qed

lemma running_checked:
  assumes "fresh_connection c"
  shows "co_running (fold (step au sid user) evs c) = Some (j, sc) \<Longrightarrow> checked au sid user c evs j sc"
proof (induction evs arbitrary: j sc rule: rev_induct)
  case Nil
  then show ?case using assms by (simp add: fresh_connection_def)
next
  case (snoc ev evs)
  let ?c = "fold (step au sid user) evs c"
  have r: "co_running (step au sid user ev ?c) = Some (j, sc)" using snoc.prems by simp
  have go: "\<not> ends_job ev"
    using r perform_running
    by (cases ev) (auto simp: live_step_def finish_job_def fail_job_def split: list.splits option.splits prod.splits if_splits)
  show ?case
  proof (cases "co_running ?c = Some (j, sc)")
    case True
    then show ?thesis using snoc.IH checked_snoc go by blast
  next
    case False
    then obtain now rest where "ev = Start now" "snd (au now (co_world ?c)) = Some sc" "co_running ?c = None" "co_jobs ?c = j # rest"
      using r own_running perform_running
      by (cases ev) (auto simp: live_step_def start_job_def finish_job_def fail_job_def on_revoked_def on_closed_def on_socket_error_def
          split: list.splits option.splits prod.splits if_splits)
    then show ?thesis unfolding checked_def
      by (intro exI [of _ evs] exI [of _ now] exI [of _ "[]"] exI [of _ rest]) simp
  qed
qed

lemma pending_bounded: "pending_jobs c \<le> MAX_PENDING \<Longrightarrow> pending_jobs (step au sid user ev c) \<le> MAX_PENDING"
proof (cases ev)
  case (Own e)
  then show "pending_jobs c \<le> MAX_PENDING \<Longrightarrow> ?thesis" using own_pending by (simp add: live_step_def)
next
  case (Finish p)
  assume "pending_jobs c \<le> MAX_PENDING"
  then show ?thesis using Finish perform_jobs
    by (auto simp: live_step_def finish_job_def pending_jobs_def split: option.splits)
qed (auto simp: live_step_def start_job_def fail_job_def on_revoked_def on_closed_def on_socket_error_def pending_jobs_def
    split: list.splits option.splits prod.splits)

lemma run_pending: "pending_jobs c \<le> MAX_PENDING \<Longrightarrow> pending_jobs (fold (step au sid user) evs c) \<le> MAX_PENDING"
  by (induction evs arbitrary: c) (simp_all add: pending_bounded)

text \<open>Only an action sends data, on an open socket and after its check.\<close>

lemma data_is_checked:
  assumes "fresh_connection c"
    and "filter (\<lambda>m. \<not> harmless m) (co_sent (fold (step au sid user) (evs @ [ev]) c))
      \<noteq> filter (\<lambda>m. \<not> harmless m) (co_sent (fold (step au sid user) evs c))"
  shows "\<exists>p j sc. ev = Finish p \<and> co_open (fold (step au sid user) evs c)
    \<and> co_running (fold (step au sid user) evs c) = Some (j, sc) \<and> checked au sid user c evs j sc"
proof -
  let ?c = "fold (step au sid user) evs c"
  have d: "filter (\<lambda>m. \<not> harmless m) (co_sent (step au sid user ev ?c)) \<noteq> filter (\<lambda>m. \<not> harmless m) (co_sent ?c)"
    using assms(2) by simp
  then obtain p j sc where "ev = Finish p" "co_open ?c" "co_running ?c = Some (j, sc)"
    using own_sent
    by (cases ev) (auto simp: live_step_def start_job_def finish_job_def fail_job_def on_revoked_def on_closed_def on_socket_error_def
        split: list.splits option.splits prod.splits if_splits)
  then show ?thesis using running_checked [OF assms(1)] by blast
qed

end

end
