(* ===== verification/Live_Routes.thy ===== *)
theory Live_Routes
  imports Live_Connections Account_Sync Console_Log
begin

text \<open>
  \<^verbatim>\<open>backend/src/websocket/routes.ts\<close>: the console of an account and the dashboard as live sockets. Both
  collect bursts for 25 ms and send them as one piece of work, whose permission is decided when it runs.
  The camera socket is not modelled.
\<close>

section \<open>Who may watch\<close>

definition authorize_socket :: "bool \<Rightarrow> jstr option \<Rightarrow> jstr \<Rightarrow> int \<Rightarrow> system \<Rightarrow> system \<times> session_context option" where
  "authorize_socket admin_only account sid t s = (case get_session t sid (sys_db s) of
       (d, None) \<Rightarrow> (set_db d s, None)
     | (d, Some sc) \<Rightarrow> (set_db d s,
         if admin_only \<and> sc_role sc \<noteq> ADMIN
            \<or> (case account of None \<Rightarrow> False | Some i \<Rightarrow> i \<noteq> [] \<and> \<not> can_access_account sc i d)
         then None else Some sc))"

section \<open>Messages\<close>

record console_event =
  ce_account :: jstr
  ce_type :: console_type
  ce_message :: jstr
  ce_time :: int

datatype live_message =
    History "log_row list"
  | Status snapshot
  | Console console_event
  | Statuses "snapshot list"
  | Account_image jstr jstr
  | Account_sale jstr int
  | Problem jstr

fun harmless :: "live_message \<Rightarrow> bool" where
  "harmless (Problem _) = True"
| "harmless _ = False"

text \<open>What a message tells about accounts other than the given one: nothing.\<close>

fun about :: "(jstr \<Rightarrow> bool) \<Rightarrow> live_message \<Rightarrow> bool" where
  "about P (History rows) \<longleftrightarrow> list_all (\<lambda>r. P (l_account r)) rows"
| "about P (Status s) \<longleftrightarrow> P (sn_id s)"
| "about P (Console e) \<longleftrightarrow> P (ce_account e)"
| "about P (Statuses ss) \<longleftrightarrow> list_all (\<lambda>s. P (sn_id s)) ss"
| "about P (Account_image i _) \<longleftrightarrow> P i"
| "about P (Account_sale i _) \<longleftrightarrow> P i"
| "about P (Problem _) \<longleftrightarrow> True"

section \<open>The socket of an account\<close>

datatype account_job = Recheck | Greet | Batch "live_message list" | Command json

record account_socket = "(system, account_job, live_message) connection" +
  bt_messages :: "live_message list"
  bt_latest :: "(jstr, live_message) jmap"
  bt_timer :: bool
  rate_count :: nat
  rate_since :: int

definition MAX_BATCH :: nat where "MAX_BATCH = 2000"

definition publish :: "live_message \<Rightarrow> jstr option \<Rightarrow> account_socket \<Rightarrow> account_socket" where
  "publish m key c = (if \<not> co_open c then c
     else (let c1 = (case key of
               Some k \<Rightarrow> c\<lparr>bt_latest := AList.update k m (bt_latest c)\<rparr>
             | None \<Rightarrow> c\<lparr>bt_messages := bt_messages c @ [m]\<rparr>)
           in if MAX_BATCH < length (bt_messages c1) then close_socket 4429 c1 else c1\<lparr>bt_timer := True\<rparr>))"

definition fire_batch :: "account_socket \<Rightarrow> account_socket" where
  "fire_batch c = (if co_disposed c \<or> \<not> bt_timer c then c
     else run_job (Batch (bt_messages c @ map snd (bt_latest c))) (c\<lparr>bt_timer := False, bt_messages := [], bt_latest := []\<rparr>))"

text \<open>A message of the website: binary, its size in bytes, and the value it parses to.\<close>

definition receive :: "int \<Rightarrow> (live_message list \<Rightarrow> int) \<Rightarrow> bool \<times> nat \<times> json option \<Rightarrow> account_socket \<Rightarrow> account_socket" where
  "receive t amount raw c =
     (let c1 = (if 10000 < t - rate_since c then c\<lparr>rate_count := 0, rate_since := t\<rparr> else c);
          c2 = c1\<lparr>rate_count := rate_count c1 + 1\<rparr>
      in if 20 < rate_count c2 then close_socket 4429 c2
         else (case raw of (binary, bytes, parsed) \<Rightarrow>
           if binary \<or> 4096 < bytes then close_socket 4400 c2
           else case parsed of
               None \<Rightarrow> send_message amount (Problem (js ''INVALID_MESSAGE'')) c2
             | Some message \<Rightarrow> run_job (Command message) c2))"

datatype account_input =
    Console_event console_event
  | Status_event snapshot
  | Batch_timer
  | Interval
  | Received int "live_message list \<Rightarrow> int" "bool \<times> nat \<times> json option"

fun on_account_input :: "jstr \<Rightarrow> account_input \<Rightarrow> account_socket \<Rightarrow> account_socket" where
  "on_account_input i (Console_event e) c = (if \<not> co_disposed c \<and> ce_account e = i then publish (Console e) None c else c)"
| "on_account_input i (Status_event s) c =
     (if \<not> co_disposed c \<and> sn_id s = i then publish (Status s) (Some (js ''status'')) c else c)"
| "on_account_input i Batch_timer c = fire_batch c"
| "on_account_input i Interval c = (if co_disposed c then c else run_job Recheck c)"
| "on_account_input i (Received t amount raw) c = receive t amount raw c"

definition perform_command :: "env \<Rightarrow> (live_message list \<Rightarrow> int) \<Rightarrow> jstr \<Rightarrow> session_context \<Rightarrow> json \<Rightarrow> account_socket \<Rightarrow> account_socket" where
  "perform_command e amount i sc message c =
     (case (json_field message ''type'' = Some (JStr (js ''command'')), parse_command message) of
        (True, Some command) \<Rightarrow>
          if json_field message ''csrfToken'' \<noteq> Some (JStr (sc_csrf sc)) then send_message amount (Problem (js ''INVALID_CSRF'')) c
          else (case execute_command sc i command (co_world c) of
              (s, Some r) \<Rightarrow> send_message amount (Problem (command_reason r)) (c\<lparr>co_world := s\<rparr>)
            | (s, None) \<Rightarrow> c\<lparr>co_world := set_db (record_audit_log (lower_table e) (now e) (Some (sc_user sc)) ''ACCOUNT_COMMAND''
                  (Some ''MinecraftAccount'') (Some i) (Some (JObj [(js ''command'', JStr command)])) (sys_db s)) s\<rparr>)
      | _ \<Rightarrow> send_message amount (Problem (js ''INVALID_MESSAGE'')) c)"

fun perform_account :: "jstr \<Rightarrow> env \<times> (live_message list \<Rightarrow> int) \<Rightarrow> session_context \<Rightarrow> account_job \<Rightarrow> account_socket \<Rightarrow> account_socket" where
  "perform_account i (e, amount) sc Recheck c = c"
| "perform_account i (e, amount) sc Greet c =
     (let c1 = send_message amount (History (get_console_logs i (Some 2000) None (sys_db (co_world c)))) c
      in case get_client i (sys_manager (co_world c)) of
           None \<Rightarrow> c1 | Some cl \<Rightarrow> send_message amount (Status (get_status cl)) c1)"
| "perform_account i (e, amount) sc (Batch ms) c = fold (send_message amount) ms c"
| "perform_account i (e, amount) sc (Command message) c = perform_command e amount i sc message c"

text \<open>Without a session the socket is closed at once.\<close>

definition open_account_socket :: "int \<Rightarrow> system \<Rightarrow> session_context option \<Rightarrow> account_socket" where
  "open_account_socket t s session =
     (let c = \<lparr>co_open = True, co_code = None, co_disposed = False, co_jobs = [], co_running = None, co_sent = [], co_world = s,
               bt_messages = [], bt_latest = [], bt_timer = False, rate_count = 0, rate_since = t\<rparr>
      in case session of None \<Rightarrow> close_socket 4401 c | Some sc \<Rightarrow> run_job Greet c)"

section \<open>The socket of the dashboard\<close>

datatype dashboard_job = Recheck_all | Greet_all | Flush "(jstr \<times> live_message) list"

record dashboard_socket = "(system, dashboard_job, live_message) connection" +
  ds_statuses :: "(jstr, snapshot) jmap"
  ds_images :: "(jstr, jstr) jmap"
  ds_sales :: "(jstr, int) jmap"
  ds_timer :: bool

text \<open>\<open>None\<close>: an admin sees every account.\<close>

definition allowed_account_ids :: "session_context \<Rightarrow> db \<Rightarrow> jstr set option" where
  "allowed_account_ids sc d = (if sc_role sc = ADMIN then None
     else Some (set (map snd (filter (\<lambda>p. fst p = sc_user sc) (db_assignments d)))))"

definition permitted :: "jstr set option \<Rightarrow> jstr \<Rightarrow> bool" where
  "permitted allowed i = (case allowed of None \<Rightarrow> True | Some ids \<Rightarrow> i \<in> ids)"

definition fire_flush :: "dashboard_socket \<Rightarrow> dashboard_socket" where
  "fire_flush c = (if co_disposed c \<or> \<not> ds_timer c then c
     else run_job (Flush (map (\<lambda>(i, s). (sn_id s, Status s)) (ds_statuses c) @ map (\<lambda>(i, u). (i, Account_image i u)) (ds_images c)
            @ map (\<lambda>(i, t). (i, Account_sale i t)) (ds_sales c)))
          (c\<lparr>ds_timer := False, ds_statuses := [], ds_images := [], ds_sales := []\<rparr>))"

datatype dashboard_input =
    D_status snapshot | D_image jstr jstr | D_sale jstr int | D_timer | D_interval

fun on_dashboard_input :: "dashboard_input \<Rightarrow> dashboard_socket \<Rightarrow> dashboard_socket" where
  "on_dashboard_input (D_status s) c = (if co_disposed c then c
     else c\<lparr>ds_statuses := AList.update (sn_id s) s (ds_statuses c), ds_timer := True\<rparr>)"
| "on_dashboard_input (D_image i u) c = (if co_disposed c then c
     else c\<lparr>ds_images := AList.update i u (ds_images c), ds_timer := True\<rparr>)"
| "on_dashboard_input (D_sale i t) c = (if co_disposed c then c
     else c\<lparr>ds_sales := AList.update i t (ds_sales c), ds_timer := True\<rparr>)"
| "on_dashboard_input D_timer c = fire_flush c"
| "on_dashboard_input D_interval c = (if co_disposed c then c else run_job Recheck_all c)"

fun perform_dashboard :: "(live_message list \<Rightarrow> int) \<Rightarrow> session_context \<Rightarrow> dashboard_job \<Rightarrow> dashboard_socket \<Rightarrow> dashboard_socket" where
  "perform_dashboard amount sc Recheck_all c = c"
| "perform_dashboard amount sc Greet_all c =
     (let allowed = allowed_account_ids sc (sys_db (co_world c))
      in send_message amount (Statuses (filter (\<lambda>s. permitted allowed (sn_id s)) (get_all_statuses (sys_manager (co_world c))))) c)"
| "perform_dashboard amount sc (Flush batch) c =
     (let allowed = allowed_account_ids sc (sys_db (co_world c))
      in fold (\<lambda>(i, m) c. if permitted allowed i then send_message amount m c else c) batch c)"

definition open_dashboard_socket :: "system \<Rightarrow> session_context option \<Rightarrow> dashboard_socket" where
  "open_dashboard_socket s session =
     (let c = \<lparr>co_open = True, co_code = None, co_disposed = False, co_jobs = [], co_running = None, co_sent = [], co_world = s,
               ds_statuses = [], ds_images = [], ds_sales = [], ds_timer = False\<rparr>
      in case session of None \<Rightarrow> close_socket 4401 c | Some sc \<Rightarrow> run_job Greet_all c)"

section \<open>Lemmas\<close>

lemma publish_fields [simp]:
  "co_running (publish m k c) = co_running c" "co_disposed (publish m k c) = co_disposed c" "co_jobs (publish m k c) = co_jobs c" "co_sent (publish m k c) = co_sent c"
  "pending_jobs (publish m k c) = pending_jobs c"
  by (simp_all add: publish_def Let_def pending_jobs_def split: option.splits)

lemma publish_open: "co_open (publish m k c) \<Longrightarrow> co_open c"
  by (simp add: publish_def split: if_split_asm)

lemma batch_fields [simp]:
  "pending_jobs (c\<lparr>bt_timer := t, bt_messages := ms, bt_latest := l\<rparr>) = pending_jobs c"
  "pending_jobs (c\<lparr>rate_count := n, rate_since := w\<rparr>) = pending_jobs c"
  "pending_jobs (c\<lparr>rate_count := n\<rparr>) = pending_jobs c"
  by (simp_all add: pending_jobs_def)

lemma flush_fields [simp]:
  "pending_jobs (c\<lparr>ds_timer := t, ds_statuses := a, ds_images := b, ds_sales := d\<rparr>) = pending_jobs c"
  "pending_jobs (c\<lparr>ds_statuses := a, ds_timer := t\<rparr>) = pending_jobs c"
  "pending_jobs (c\<lparr>ds_images := b, ds_timer := t\<rparr>) = pending_jobs c"
  "pending_jobs (c\<lparr>ds_sales := d, ds_timer := t\<rparr>) = pending_jobs c"
  by (simp_all add: pending_jobs_def)

lemma fire_batch_fields:
  "co_running (fire_batch c) = co_running c \<and> co_disposed (fire_batch c) = co_disposed c \<and> co_sent (fire_batch c) = co_sent c"
  "co_open (fire_batch c) \<Longrightarrow> co_open c"
  "pending_jobs c \<le> MAX_PENDING \<Longrightarrow> pending_jobs (fire_batch c) \<le> MAX_PENDING"
  by (auto simp: fire_batch_def dest: run_job_open intro: run_job_pending split: if_splits)

lemma fire_flush_fields:
  "co_running (fire_flush c) = co_running c \<and> co_disposed (fire_flush c) = co_disposed c \<and> co_sent (fire_flush c) = co_sent c"
  "co_open (fire_flush c) \<Longrightarrow> co_open c"
  "pending_jobs c \<le> MAX_PENDING \<Longrightarrow> pending_jobs (fire_flush c) \<le> MAX_PENDING"
  by (auto simp: fire_flush_def dest: run_job_open intro: run_job_pending split: if_splits)

lemma quiet_message: "harmless m \<Longrightarrow> filter (\<lambda>m. \<not> harmless m) (co_sent (send_message a m c)) = filter (\<lambda>m. \<not> harmless m) (co_sent c)"
  by (simp add: send_message_def)

text \<open>The part of a message handler that counts, as a change of the counters only.\<close>

lemma receive_cases:
  obtains d where "co_open d = co_open c" "co_running d = co_running c \<and> co_disposed d = co_disposed c" "co_sent d = co_sent c" "pending_jobs d = pending_jobs c"
    and "receive t amount raw c = close_socket 4429 d \<or> receive t amount raw c = close_socket 4400 d
      \<or> (\<exists>x. receive t amount raw c = send_message amount (Problem x) d) \<or> (\<exists>m. receive t amount raw c = run_job (Command m) d)"
proof -
  let ?c = "if 10000 < t - rate_since c then c\<lparr>rate_count := 0, rate_since := t\<rparr> else c"
  let ?d = "?c\<lparr>rate_count := rate_count ?c + 1\<rparr>"
  obtain binary bytes parsed where raw: "raw = (binary, bytes, parsed)" by (cases raw)
  show thesis
    by (rule that [of ?d]) (auto simp: receive_def Let_def raw split: option.splits)
qed

lemma receive_fields:
  "co_running (receive t amount raw c) = co_running c \<and> co_disposed (receive t amount raw c) = co_disposed c"
  "filter (\<lambda>m. \<not> harmless m) (co_sent (receive t amount raw c)) = filter (\<lambda>m. \<not> harmless m) (co_sent c)"
  "\<not> co_open c \<Longrightarrow> co_sent (receive t amount raw c) = co_sent c"
  "co_open (receive t amount raw c) \<Longrightarrow> co_open c"
  "pending_jobs c \<le> MAX_PENDING \<Longrightarrow> pending_jobs (receive t amount raw c) \<le> MAX_PENDING"
proof -
  obtain d where d: "co_open d = co_open c" "co_running d = co_running c \<and> co_disposed d = co_disposed c" "co_sent d = co_sent c" "pending_jobs d = pending_jobs c"
    and r: "receive t amount raw c = close_socket 4429 d \<or> receive t amount raw c = close_socket 4400 d
      \<or> (\<exists>x. receive t amount raw c = send_message amount (Problem x) d) \<or> (\<exists>m. receive t amount raw c = run_job (Command m) d)"
    by (rule receive_cases)
  show "co_running (receive t amount raw c) = co_running c \<and> co_disposed (receive t amount raw c) = co_disposed c" using r d(2) by (elim disjE exE) simp_all
  show "filter (\<lambda>m. \<not> harmless m) (co_sent (receive t amount raw c)) = filter (\<lambda>m. \<not> harmless m) (co_sent c)"
    using r d(3) by (elim disjE exE) (simp_all add: quiet_message)
  show "co_sent (receive t amount raw c) = co_sent c" if "\<not> co_open c" using r d(1,3) that by (elim disjE exE) simp_all
  show "co_open c" if "co_open (receive t amount raw c)"
    using r that d(1) by (metis close_socket_fields(1) run_job_open send_open)
  show "pending_jobs (receive t amount raw c) \<le> MAX_PENDING" if "pending_jobs c \<le> MAX_PENDING"
    using r that unfolding d(4) [symmetric] by (elim disjE exE) (simp_all add: run_job_pending)
qed

lemma fold_send_fields:
  "co_running (fold (send_message a) ms c) = co_running c \<and> co_disposed (fold (send_message a) ms c) = co_disposed c
    \<and> co_jobs (fold (send_message a) ms c) = co_jobs c"
  "co_open (fold (send_message a) ms c) \<Longrightarrow> co_open c"
proof -
  show "co_running (fold (send_message a) ms c) = co_running c \<and> co_disposed (fold (send_message a) ms c) = co_disposed c
      \<and> co_jobs (fold (send_message a) ms c) = co_jobs c"
    by (induction ms arbitrary: c) simp_all
  show "co_open (fold (send_message a) ms c) \<Longrightarrow> co_open c"
    by (induction ms arbitrary: c) (auto dest: send_open)
qed

lemma perform_account_fields:
  "co_running (perform_account i p sc j c) = co_running c \<and> co_disposed (perform_account i p sc j c) = co_disposed c
    \<and> co_jobs (perform_account i p sc j c) = co_jobs c
    \<and> (co_open (perform_account i p sc j c) \<longrightarrow> co_open c)"
proof (cases p)
  case (Pair e amount)
  show ?thesis
  proof (cases j)
    case Greet
    then show ?thesis using Pair
      by (cases "get_client i (sys_manager (co_world c))") (auto simp: Let_def dest: send_open)
  next
    case (Batch ms)
    then show ?thesis using Pair fold_send_fields by fastforce
  next
    case (Command m)
    then show ?thesis using Pair
      by (auto simp: perform_command_def dest: send_open split: option.splits bool.splits prod.splits)
  qed (simp add: Pair)
qed

interpretation account_route: live_route "on_account_input i" "perform_account i" harmless for i
proof
  show "co_running (on_account_input i e c) = co_running c" for e c
    by (cases e) (simp_all add: fire_batch_fields(1) receive_fields(1))
  show "co_open c" if "co_open (on_account_input i e c)" for e c
    using that by (cases e) (auto dest: publish_open fire_batch_fields(2) run_job_open receive_fields(4) split: if_split_asm)
  show "filter (\<lambda>m. \<not> harmless m) (co_sent (on_account_input i e c)) = filter (\<lambda>m. \<not> harmless m) (co_sent c)" for e c
    by (cases e) (simp_all add: fire_batch_fields(1) receive_fields(2))
  show "co_sent (on_account_input i e c) = co_sent c" if "\<not> co_open c" for e c
    using that by (cases e) (simp_all add: fire_batch_fields(1) receive_fields(3))
  show "pending_jobs (on_account_input i e c) \<le> MAX_PENDING" if "pending_jobs c \<le> MAX_PENDING" for e c
    using that by (cases e) (simp_all add: fire_batch_fields(3) receive_fields(5) run_job_pending)
  show "co_running (perform_account i p sc j c) = co_running c" for p sc j c using perform_account_fields by blast
  show "co_open c" if "co_open (perform_account i p sc j c)" for p sc j c using that perform_account_fields by blast
  show "co_disposed (on_account_input i e c) = co_disposed c" for e c
    by (cases e) (simp_all add: fire_batch_fields(1) receive_fields(1))
  show "co_disposed (perform_account i p sc j c) = co_disposed c" for p sc j c using perform_account_fields by blast
  show "co_jobs (perform_account i p sc j c) = co_jobs c" for p sc j c using perform_account_fields by blast
qed

lemma fold_permitted:
  "fold (\<lambda>(i, m) c. if permitted al i then send_message a m c else c) batch c
    = fold (send_message a) (map snd (filter (\<lambda>(i, m). permitted al i) batch)) c"
  by (induction batch arbitrary: c) auto

lemma perform_dashboard_fields:
  "co_running (perform_dashboard a sc j c) = co_running c \<and> co_disposed (perform_dashboard a sc j c) = co_disposed c
    \<and> co_jobs (perform_dashboard a sc j c) = co_jobs c
    \<and> (co_open (perform_dashboard a sc j c) \<longrightarrow> co_open c)"
proof (cases j)
  case (Flush batch)
  have "co_running (fold (send_message a) ms c) = co_running c \<and> co_disposed (fold (send_message a) ms c) = co_disposed c
    \<and> co_jobs (fold (send_message a) ms c) = co_jobs c
    \<and> (co_open (fold (send_message a) ms c) \<longrightarrow> co_open c)" for ms
    using fold_send_fields by blast
  then show ?thesis using Flush by (simp add: Let_def fold_permitted)
qed (auto simp: Let_def dest: send_open)

interpretation dashboard_route: live_route on_dashboard_input perform_dashboard harmless
proof
  show "co_running (on_dashboard_input e c) = co_running c" for e c by (cases e) (simp_all add: fire_flush_fields(1))
  show "co_open c" if "co_open (on_dashboard_input e c)" for e c
    using that by (cases e) (auto dest: fire_flush_fields(2) run_job_open split: if_split_asm)
  show "filter (\<lambda>m. \<not> harmless m) (co_sent (on_dashboard_input e c)) = filter (\<lambda>m. \<not> harmless m) (co_sent c)" for e c
    by (cases e) (simp_all add: fire_flush_fields(1))
  show "co_sent (on_dashboard_input e c) = co_sent c" if "\<not> co_open c" for e c
    using that by (cases e) (simp_all add: fire_flush_fields(1))
  show "pending_jobs (on_dashboard_input e c) \<le> MAX_PENDING" if "pending_jobs c \<le> MAX_PENDING" for e c
    using that by (cases e) (simp_all add: fire_flush_fields(3) run_job_pending)
  show "co_running (perform_dashboard p sc j c) = co_running c" for p sc j c using perform_dashboard_fields by blast
  show "co_open c" if "co_open (perform_dashboard p sc j c)" for p sc j c using that perform_dashboard_fields by blast
  show "co_disposed (on_dashboard_input e c) = co_disposed c" for e c by (cases e) (simp_all add: fire_flush_fields(1))
  show "co_disposed (perform_dashboard p sc j c) = co_disposed c" for p sc j c using perform_dashboard_fields by blast
  show "co_jobs (perform_dashboard p sc j c) = co_jobs c" for p sc j c using perform_dashboard_fields by blast
qed

section \<open>Properties\<close>

text \<open>A run of a socket, with the check of its kind.\<close>

definition run_account_socket :: "jstr \<Rightarrow> jstr \<Rightarrow> jstr \<Rightarrow> (account_input, system, env \<times> (live_message list \<Rightarrow> int)) live_event list
    \<Rightarrow> account_socket \<Rightarrow> account_socket" where
  "run_account_socket i sid user evs c =
     fold (live_step (on_account_input i) (perform_account i) (authorize_socket False (Some i) sid) sid user) evs c"

definition run_dashboard_socket :: "jstr \<Rightarrow> jstr \<Rightarrow> (dashboard_input, system, live_message list \<Rightarrow> int) live_event list
    \<Rightarrow> dashboard_socket \<Rightarrow> dashboard_socket" where
  "run_dashboard_socket sid user evs c =
     fold (live_step on_dashboard_input perform_dashboard (authorize_socket False None sid) sid user) evs c"

definition data_of :: "('w, 'j, live_message, 'l) connection_scheme \<Rightarrow> live_message list" where
  "data_of c = filter (\<lambda>m. \<not> harmless m) (co_sent c)"

lemma open_account_fresh: "fresh_connection (open_account_socket t s session)"
  by (simp add: open_account_socket_def fresh_connection_def run_job_def close_socket_def Let_def pending_jobs_def split: option.splits)

lemma open_dashboard_fresh: "fresh_connection (open_dashboard_socket s session)"
  by (simp add: open_dashboard_socket_def fresh_connection_def run_job_def close_socket_def Let_def pending_jobs_def split: option.splits)

lemma open_account_pending: "pending_jobs (open_account_socket t s session) \<le> MAX_PENDING"
  by (auto simp: open_account_socket_def run_job_def close_socket_def Let_def pending_jobs_def MAX_PENDING_def split: option.splits)

lemma authorized_session:
  assumes "snd (authorize_socket admin_only account sid t s) = Some sc"
  shows "\<exists>x u. x \<in> set (db_sessions (sys_db s)) \<and> se_id x = sid \<and> t \<le> se_expires x \<and> u \<in> set (db_users (sys_db s))
    \<and> u_id u = se_user x \<and> u_status u = ACTIVE \<and> sc_user sc = u_id u \<and> sc_role sc = u_role u"
    and "account = Some i \<Longrightarrow> i \<noteq> [] \<Longrightarrow> can_access_account sc i (sys_db s)"
proof -
  obtain d sc' where g: "get_session t sid (sys_db s) = (d, Some sc')" and sc: "sc' = sc"
    and acc: "account = Some i \<Longrightarrow> i \<noteq> [] \<Longrightarrow> can_access_account sc i d"
    using assms by (auto simp: authorize_socket_def split: prod.splits option.splits if_splits)
  show "\<exists>x u. x \<in> set (db_sessions (sys_db s)) \<and> se_id x = sid \<and> t \<le> se_expires x \<and> u \<in> set (db_users (sys_db s))
      \<and> u_id u = se_user x \<and> u_status u = ACTIVE \<and> sc_user sc = u_id u \<and> sc_role sc = u_role u"
    using get_session_context(2) [OF g] unfolding sc [symmetric] by (elim exE conjE) (intro exI conjI; simp)
  show "account = Some i \<Longrightarrow> i \<noteq> [] \<Longrightarrow> can_access_account sc i (sys_db s)"
    using acc get_session_context(1) [OF g] by simp
qed

text \<open>
  C30. The socket of an account shows data only to somebody who may see it now. Whatever happens, every time
  data is sent, this is done by a queued action, on an open socket. Right before that action began, when it was the
  first in the queue and nothing ran, the session was found in the database, not expired and of an active user, who is an
  admin or assigned to the account; no other action has run or failed since. No end of that session, of the sessions of the user or of all
  sessions was announced so far. At most sixty-four actions ever wait.
\<close>

theorem account_sockets_need_current_access:
  fixes t :: int and s :: system and session :: "session_context option"
  defines "c \<equiv> open_account_socket t s session"
  assumes "data_of (run_account_socket i sid user (evs @ [ev]) c) \<noteq> data_of (run_account_socket i sid user evs c)" and "i \<noteq> []"
  shows "(\<exists>p a now b j rest sc. ev = Finish p \<and> evs = a @ Start now # b
      \<and> co_running (run_account_socket i sid user a c) = None \<and> co_jobs (run_account_socket i sid user a c) = j # rest
      \<and> list_all (\<lambda>x. \<not> ends_job x) b \<and> co_running (run_account_socket i sid user evs c) = Some (j, sc)
      \<and> (let d = sys_db (co_world (run_account_socket i sid user a c)) in
         \<exists>x u. x \<in> set (db_sessions d) \<and> se_id x = sid \<and> now \<le> se_expires x
           \<and> u \<in> set (db_users d) \<and> u_id u = se_user x \<and> u_status u = ACTIVE \<and> sc_user sc = u_id u \<and> sc_role sc = u_role u
           \<and> (u_role u = ADMIN \<or> is_assigned d (u_id u) i)))
    \<and> co_open (run_account_socket i sid user evs c) \<and> (\<forall>r. Revoke r \<in> set evs \<longrightarrow> \<not> concerns r sid user)
    \<and> pending_jobs (run_account_socket i sid user evs c) \<le> 64"
proof -
  have fresh: "fresh_connection c" unfolding c_def by (rule open_account_fresh)
  obtain p j sc where d: "ev = Finish p" "co_open (run_account_socket i sid user evs c)"
      "co_running (run_account_socket i sid user evs c) = Some (j, sc)"
    and ch: "account_route.checked i (authorize_socket False (Some i) sid) sid user c evs j sc"
    using account_route.data_is_checked [OF fresh, of i "authorize_socket False (Some i) sid" sid user evs ev] assms(2)
    unfolding data_of_def run_account_socket_def by blast
  then obtain a now b rest where e: "evs = a @ Start now # b" "co_running (run_account_socket i sid user a c) = None"
      "co_jobs (run_account_socket i sid user a c) = j # rest" "list_all (\<lambda>x. \<not> ends_job x) b"
    and au: "snd (authorize_socket False (Some i) sid now (co_world (run_account_socket i sid user a c))) = Some sc"
    unfolding account_route.checked_def run_account_socket_def by blast
  have acc: "can_access_account sc i (sys_db (co_world (run_account_socket i sid user a c)))"
    by (rule authorized_session(2) [OF au refl assms(3)])
  obtain x u where xu: "x \<in> set (db_sessions (sys_db (co_world (run_account_socket i sid user a c))))" "se_id x = sid"
    "now \<le> se_expires x" "u \<in> set (db_users (sys_db (co_world (run_account_socket i sid user a c))))" "u_id u = se_user x"
    "u_status u = ACTIVE" "sc_user sc = u_id u" "sc_role sc = u_role u"
    using authorized_session(1) [OF au] by blast
  have "u_role u = ADMIN \<or> is_assigned (sys_db (co_world (run_account_socket i sid user a c))) (u_id u) i"
    using acc xu(7,8) by (simp add: can_access_account_def)
  moreover have "\<not> concerns r sid user" if "Revoke r \<in> set evs" for r
    using account_route.open_not_revoked [OF fresh _ that] d(2) unfolding run_account_socket_def by blast
  moreover have "pending_jobs (run_account_socket i sid user evs c) \<le> 64"
    using account_route.run_pending [OF open_account_pending, of i "authorize_socket False (Some i) sid" sid user evs t s session]
    unfolding run_account_socket_def c_def MAX_PENDING_def .
  ultimately show ?thesis unfolding Let_def using d e xu
    by (intro conjI exI [of _ p] exI [of _ a] exI [of _ now] exI [of _ b] exI [of _ j] exI [of _ rest] exI [of _ sc]
        exI [of _ x] exI [of _ u]) simp_all
qed

definition demo_watch :: system where
  "demo_watch = \<lparr>sys_service = start_service (demo_tables\<lparr>db_sessions :=
       [\<lparr>se_id = [9], se_user = js ''tom'', se_csrf = [1], se_created = 0, se_expires = 1000, se_agent = None, se_ip = None\<rparr>]\<rparr>),
     sys_manager = new_manager, image_updates = []\<rparr>"

definition demo_account_socket :: account_socket where
  "demo_account_socket = open_account_socket 0 demo_watch (Some (demo_context ''tom'' USER))"

theorem account_sockets_need_current_access_witness:
  "co_open (run_account_socket [1] [9] (js ''tom'') [Start 1] demo_account_socket)
    \<and> data_of (run_account_socket [1] [9] (js ''tom'') ([Start 1] @ [Finish (demo_env 1, \<lambda>_. 0)]) demo_account_socket) \<noteq> []"
proof -
  have no: "data_of (run_account_socket [1] [9] (js ''tom'') [Start 1] demo_account_socket) = []" by code_simp
  have some: "data_of (run_account_socket [1] [9] (js ''tom'') ([Start 1] @ [Finish (demo_env 1, \<lambda>_. 0)]) demo_account_socket) \<noteq> []"
    by code_simp
  from account_sockets_need_current_access [of "[1]" "[9]" "js ''tom''" "[Start 1]" "Finish (demo_env 1, \<lambda>_. 0)" 0 demo_watch
      "Some (demo_context ''tom'' USER)"]
  show ?thesis using no some unfolding demo_account_socket_def by simp
qed

section \<open>The dashboard\<close>

definition batch_ok :: "(jstr \<times> live_message) list \<Rightarrow> bool" where
  "batch_ok batch \<longleftrightarrow> (\<forall>(i, m) \<in> set batch. \<forall>P. P i \<longrightarrow> about P m)"

fun job_ok :: "dashboard_job \<Rightarrow> bool" where
  "job_ok (Flush batch) = batch_ok batch"
| "job_ok _ = True"

definition dashboard_ok :: "dashboard_socket \<Rightarrow> bool" where
  "dashboard_ok c \<longleftrightarrow> list_all job_ok (co_jobs c) \<and> (case co_running c of None \<Rightarrow> True | Some (j, sc) \<Rightarrow> job_ok j)"

lemma batch_okD: "batch_ok batch \<Longrightarrow> (i, m) \<in> set batch \<Longrightarrow> P i \<Longrightarrow> about P m"
  unfolding batch_ok_def by (drule (1) bspec) simp

lemma flush_ok: "batch_ok (map (\<lambda>(i, s). (sn_id s, Status s)) (a :: (jstr, snapshot) jmap) @ map (\<lambda>(i, u). (i, Account_image i u)) b @ map (\<lambda>(i, t). (i, Account_sale i t)) d)"
  by (auto simp: batch_ok_def)

lemma run_job_ok: "dashboard_ok c \<Longrightarrow> job_ok j \<Longrightarrow> dashboard_ok (run_job j c)"
  by (simp add: run_job_def dashboard_ok_def close_socket_def)

lemma dashboard_input_ok: "dashboard_ok c \<Longrightarrow> dashboard_ok (on_dashboard_input e c)"
proof (cases e)
  case D_timer
  assume "dashboard_ok c"
  then have "dashboard_ok (c\<lparr>ds_timer := False, ds_statuses := [], ds_images := [], ds_sales := []\<rparr>)" by (simp add: dashboard_ok_def)
  from run_job_ok [OF this, of "Flush _", simplified, OF flush_ok] \<open>dashboard_ok c\<close> show ?thesis
    by (simp add: D_timer fire_flush_def)
qed (simp_all add: run_job_ok, simp_all add: dashboard_ok_def)

lemma dashboard_step_ok:
  assumes "dashboard_ok c"
  shows "dashboard_ok (live_step on_dashboard_input perform_dashboard au sid user ev c)"
proof (cases ev)
  case (Own e)
  then show ?thesis using dashboard_input_ok [OF assms] by (simp add: live_step_def)
next
  case (Start now)
  then show ?thesis using assms
    by (auto simp: live_step_def start_job_def dashboard_ok_def split: option.splits list.splits prod.splits)
next
  case (Finish p)
  then show ?thesis using assms perform_dashboard_fields
    by (auto simp: live_step_def finish_job_def dashboard_ok_def split: option.splits)
next
  case Fail
  then show ?thesis using assms by (auto simp: live_step_def fail_job_def dashboard_ok_def split: option.splits list.splits)
qed (use assms in \<open>simp_all add: live_step_def on_revoked_def on_closed_def on_socket_error_def dashboard_ok_def\<close>)

interpretation dashboard: stepwise "live_step on_dashboard_input perform_dashboard au sid user" dashboard_ok for au sid user
  by unfold_locales (rule dashboard_step_ok)

lemma open_dashboard_ok: "dashboard_ok (open_dashboard_socket s session)"
  by (simp add: open_dashboard_socket_def dashboard_ok_def run_job_def close_socket_def Let_def split: option.splits)

lemma fold_sends: "\<exists>new. co_sent (fold (send_message a) ms c) = co_sent c @ new \<and> set new \<subseteq> set ms"
proof (induction ms arbitrary: c)
  case (Cons m ms)
  obtain new where "co_sent (fold (send_message a) ms (send_message a m c)) = co_sent (send_message a m c) @ new" "set new \<subseteq> set ms"
    using Cons by blast
  then show ?case using send_sent [of a m c]
    by (elim disjE) (auto intro: exI [of _ new] exI [of _ "m # new"])
qed simp

lemma perform_dashboard_sends:
  assumes "job_ok j"
  shows "\<exists>new. co_sent (perform_dashboard a sc j c) = co_sent c @ new
    \<and> (\<forall>m \<in> set new. about (permitted (allowed_account_ids sc (sys_db (co_world c)))) m)"
proof (cases j)
  case Greet_all
  let ?m = "Statuses (filter (\<lambda>s. permitted (allowed_account_ids sc (sys_db (co_world c))) (sn_id s))
      (get_all_statuses (sys_manager (co_world c))))"
  have "about (permitted (allowed_account_ids sc (sys_db (co_world c)))) ?m" by (simp add: list_all_iff)
  then show ?thesis using send_sent [of a ?m c] Greet_all by (auto simp: Let_def)
next
  case (Flush batch)
  let ?al = "allowed_account_ids sc (sys_db (co_world c))" and ?ms = "map snd (filter (\<lambda>(i, m). permitted (allowed_account_ids sc (sys_db (co_world c))) i) batch)"
  have ok: "batch_ok batch" using assms Flush by simp
  have data: "about (permitted ?al) m" if m: "m \<in> set ?ms" for m
  proof -
    obtain i where "(i, m) \<in> set batch" "permitted ?al i" using m by auto
    then show ?thesis by (rule batch_okD [OF ok])
  qed
  from fold_sends [of a ?ms c] obtain new where n: "co_sent (fold (send_message a) ?ms c) = co_sent c @ new \<and> set new \<subseteq> set ?ms" ..
  have "\<forall>m \<in> set new. about (permitted ?al) m"
  proof
    fix m assume "m \<in> set new"
    then have "m \<in> set ?ms" by (rule subsetD [OF conjunct2 [OF n]])
    then show "about (permitted ?al) m" by (rule data)
  qed
  moreover have "co_sent (perform_dashboard a sc j c) = co_sent c @ new"
    using conjunct1 [OF n] by (simp add: Flush Let_def fold_permitted)
  ultimately show ?thesis by (intro exI [of _ new] conjI)
qed simp

text \<open>
  C31. The dashboard shows to somebody who is not an admin only the accounts assigned to them. Whatever
  happens on the socket, data is sent only by a queued action, on an open socket. Right before that action began, when it
  was the first in the queue and nothing ran, the session was read again, and was live and of an active user; no other action has run
  or failed since. Everything that is sent, the list of all statuses at the start as well as every batch of changes, is about
  accounts that this user, with the role just read, may see at the moment it is sent, however old the change.
\<close>

theorem dashboards_show_only_permitted_accounts:
  fixes s :: system and session :: "session_context option"
  defines "c \<equiv> open_dashboard_socket s session"
  assumes "data_of (run_dashboard_socket sid user (evs @ [ev]) c) \<noteq> data_of (run_dashboard_socket sid user evs c)"
  shows "\<exists>a now b j rest sc new. evs = a @ Start now # b
    \<and> co_running (run_dashboard_socket sid user a c) = None \<and> co_jobs (run_dashboard_socket sid user a c) = j # rest
    \<and> list_all (\<lambda>x. \<not> ends_job x) b \<and> co_running (run_dashboard_socket sid user evs c) = Some (j, sc)
    \<and> (let d = sys_db (co_world (run_dashboard_socket sid user a c)) in
         \<exists>x u. x \<in> set (db_sessions d) \<and> se_id x = sid \<and> now \<le> se_expires x
           \<and> u \<in> set (db_users d) \<and> u_id u = se_user x \<and> u_status u = ACTIVE \<and> sc_user sc = u_id u \<and> sc_role sc = u_role u)
    \<and> co_open (run_dashboard_socket sid user evs c)
    \<and> co_sent (run_dashboard_socket sid user (evs @ [ev]) c) = co_sent (run_dashboard_socket sid user evs c) @ new
    \<and> (\<forall>m \<in> set new. about (\<lambda>i. sc_role sc = ADMIN
         \<or> is_assigned (sys_db (co_world (run_dashboard_socket sid user evs c))) (sc_user sc) i) m)"
proof -
  let ?c = "run_dashboard_socket sid user evs c"
  have fresh: "fresh_connection c" unfolding c_def by (rule open_dashboard_fresh)
  obtain p j sc where d: "ev = Finish p" "co_open ?c" "co_running ?c = Some (j, sc)"
    and ch: "dashboard_route.checked (authorize_socket False None sid) sid user c evs j sc"
    using dashboard_route.data_is_checked [OF fresh, of "authorize_socket False None sid" sid user evs ev] assms(2)
    unfolding data_of_def run_dashboard_socket_def by blast
  then obtain a now b rest where e: "evs = a @ Start now # b" "co_running (run_dashboard_socket sid user a c) = None"
      "co_jobs (run_dashboard_socket sid user a c) = j # rest" "list_all (\<lambda>x. \<not> ends_job x) b"
    and au: "snd (authorize_socket False None sid now (co_world (run_dashboard_socket sid user a c))) = Some sc"
    unfolding dashboard_route.checked_def run_dashboard_socket_def by blast
  note live = authorized_session(1) [OF au]
  have "dashboard_ok ?c" unfolding run_dashboard_socket_def c_def by (rule dashboard.run_inv [OF open_dashboard_ok])
  then have "job_ok j" using d(3) by (simp add: dashboard_ok_def)
  from perform_dashboard_sends [OF this, of p sc ?c] obtain new where n: "co_sent (perform_dashboard p sc j ?c) = co_sent ?c @ new"
    "\<forall>m \<in> set new. about (permitted (allowed_account_ids sc (sys_db (co_world ?c)))) m" by blast
  have p: "permitted (allowed_account_ids sc dd) = (\<lambda>i. sc_role sc = ADMIN \<or> is_assigned dd (sc_user sc) i)" for dd
    by (auto simp: fun_eq_iff permitted_def allowed_account_ids_def is_assigned_def image_iff)
  have "run_dashboard_socket sid user (evs @ [ev]) c = finish_job (perform_dashboard p) ?c"
    by (simp add: run_dashboard_socket_def d(1) live_step_def)
  then have "co_sent (run_dashboard_socket sid user (evs @ [ev]) c) = co_sent ?c @ new"
    using d(2,3) n(1) by (simp add: finish_job_def)
  then show ?thesis using e d(2,3) n(2) live unfolding p Let_def by blast
qed

definition demo_dashboard :: dashboard_socket where
  "demo_dashboard = open_dashboard_socket (demo_watch\<lparr>sys_manager := fst (load_all (demo_env 0) demo_tables)\<rparr>) (Some (demo_context ''tom'' USER))"

theorem dashboards_show_only_permitted_accounts_witness:
  "\<exists>new. co_sent (run_dashboard_socket [9] (js ''tom'') ([Start 1] @ [Finish (\<lambda>_. 0)]) demo_dashboard)
     = co_sent (run_dashboard_socket [9] (js ''tom'') [Start 1] demo_dashboard) @ new"
proof -
  have no: "data_of (run_dashboard_socket [9] (js ''tom'') [Start 1] demo_dashboard) = []" by code_simp
  have some: "data_of (run_dashboard_socket [9] (js ''tom'') ([Start 1] @ [Finish (\<lambda>_. 0)]) demo_dashboard) \<noteq> []" by code_simp
  have "data_of (run_dashboard_socket [9] (js ''tom'') ([Start 1] @ [Finish (\<lambda>_. 0)]) demo_dashboard)
      \<noteq> data_of (run_dashboard_socket [9] (js ''tom'') [Start 1] demo_dashboard)" using no some by simp
  from dashboards_show_only_permitted_accounts [OF this [unfolded demo_dashboard_def]]
  show ?thesis unfolding demo_dashboard_def by blast
qed

end
