(* ===== verification/Bedrock_Sender.thy ===== *)
theory Bedrock_Sender
  imports Client_Types
begin

text \<open>
  \<^verbatim>\<open>backend/src/bedrock-bot/send.ts\<close>: the outbound side of a Bedrock bot. What the bot hands to its protocol
  library and what it prints for the supervisor is one log, in order. The library (\<^verbatim>\<open>bedrock-protocol\<close>) is a
  parameter: \<open>rejects\<close> says which packets its \<^verbatim>\<open>queue\<close> throws on, with the message of the error, and
  \<open>at_least\<close> is its version test, \<open>None\<close> where the client has no such method. Numbers of the world are
  rationals, and \<open>facing\<close> stands for the sines and cosines of the direction of view. The environment of a call also holds the clock and
  the parts of JavaScript's library that the bot uses: \<^verbatim>\<open>JSON.parse\<close> (\<open>None\<close> where it throws), \<^verbatim>\<open>JSON.stringify\<close>
  and the lower case of the code units beyond ASCII.
\<close>

section \<open>Definitions\<close>

subsection \<open>Items, packets and events\<close>

text \<open>An item stack as the codec delivers it, with the fields that the bot does not read in \<open>it_more\<close>.\<close>

record item =
  network_id :: int
  it_count :: "int option"
  stack_id :: "rat option"
  it_extra :: "json option"
  it_more :: "(jstr \<times> json) list"

definition empty_item :: item where
  "empty_item = \<lparr>network_id = 0, it_count = None, stack_id = None, it_extra = None, it_more = []\<rparr>"

datatype window = W_number int | W_name jstr

record vec =
  vx :: rat
  vy :: rat
  vz :: rat

text \<open>What the mouse does: it breaks blocks, uses its item, or hits an entity.\<close>

type_synonym cell = "int \<times> int \<times> int"

record block_action =
  ba_action :: jstr
  ba_position :: cell
  ba_face :: int

record use_item =
  us_on_block :: bool
  us_position :: cell
  us_face :: int
  us_slot :: nat
  us_item :: item
  us_player :: vec
  us_click :: vec
  us_runtime :: int

datatype schema = As_string jstr | As_number int

record auth_input =
  in_pitch :: rat
  in_yaw :: rat
  in_position :: vec
  in_flags :: "(jstr \<times> bool) list"
  in_as_list :: bool
  in_tick :: int
  in_camera :: vec
  in_transaction :: "use_item option"
  in_block_action :: "block_action list option"

datatype packet =
    P_command jstr schema
  | P_text jstr jstr
  | P_auth auth_input
  | P_close window jstr
  | P_place int nat nat rat int
  | P_move nat item window nat
  | P_release nat item vec
  | P_entity int bool nat item vec rat
  | P_subchunks int cell "cell list"

fun packet_name :: "packet \<Rightarrow> jstr" where
  "packet_name (P_command _ _) = js ''command_request''"
| "packet_name (P_text _ _) = js ''text''"
| "packet_name (P_auth _) = js ''player_auth_input''"
| "packet_name (P_close _ _) = js ''container_close''"
| "packet_name (P_place _ _ _ _ _) = js ''item_stack_request''"
| "packet_name (P_move _ _ _ _) = js ''inventory_transaction''"
| "packet_name (P_release _ _ _) = js ''inventory_transaction''"
| "packet_name (P_entity _ _ _ _ _ _) = js ''inventory_transaction''"
| "packet_name (P_subchunks _ _ _) = js ''subchunk_request''"

datatype bot_out =
    Sent packet
  | Warned jstr
  | Behavior_log jstr
  | Heartbeat
  | Multipliers "(jstr \<times> jstr \<times> jstr) option list"
  | Profile jstr jstr
  | Logged_in
  | Joined
  | Chatted "jstr option" jstr
  | Gone "jstr option"
  | Connection_failed jstr
  | Fatal jstr

record bot_env =
  bnow :: int
  rejects :: "packet \<Rightarrow> jstr option"
  at_least :: "jstr \<Rightarrow> bool option"
  facing :: "rat \<Rightarrow> rat \<Rightarrow> vec"
  bparse :: "jstr \<Rightarrow> json option"
  bstringify :: "json \<Rightarrow> jstr"
  blow :: "code_unit \<Rightarrow> jstr"

record sender =
  sd_username :: jstr
  sd_entity :: "int option"
  sd_position :: "vec option"
  sd_pitch :: rat
  sd_yaw :: rat
  sd_tick :: int
  sd_sneaking :: bool
  sd_edge :: bool
  sd_teleport :: bool
  sd_warned :: "(jstr, int) jmap"
  sd_authoritative :: bool
  sd_actions :: "block_action list"
  sd_log :: "bot_out list"

definition new_sender :: "jstr \<Rightarrow> sender" where
  "new_sender name = \<lparr>sd_username = name, sd_entity = None, sd_position = None, sd_pitch = 0, sd_yaw = 0, sd_tick = 0,
     sd_sneaking = False, sd_edge = True, sd_teleport = False, sd_warned = [], sd_authoritative = True,
     sd_actions = [], sd_log = []\<rparr>"

definition emit :: "bot_out \<Rightarrow> sender \<Rightarrow> sender" where
  "emit x s = s\<lparr>sd_log := sd_log s @ [x]\<rparr>"

text \<open>\<^verbatim>\<open>client.queue\<close>: the packet goes out, or the error message comes back.\<close>

definition queue :: "bot_env \<Rightarrow> packet \<Rightarrow> sender \<Rightarrow> sender \<times> jstr option" where
  "queue e p s = (case rejects e p of None \<Rightarrow> (emit (Sent p) s, None) | Some err \<Rightarrow> (s, Some err))"

subsection \<open>Chat and commands\<close>

definition chat_text :: "bot_env \<Rightarrow> jstr \<Rightarrow> sender \<Rightarrow> sender" where
  "chat_text e message s = (case queue e (P_text (sd_username s) message) s of
       (s', None) \<Rightarrow> s'
     | (s', Some err) \<Rightarrow> emit (Warned (js ''Failed to send chat: '' @ err)) s')"

definition try_command :: "bot_env \<Rightarrow> jstr \<Rightarrow> schema \<Rightarrow> sender \<Rightarrow> sender \<times> bool" where
  "try_command e command version s = (case queue e (P_command command version) s of
       (s', None) \<Rightarrow> (s', True)
     | (s', Some _) \<Rightarrow> (s', False))"

definition run_command :: "bot_env \<Rightarrow> jstr \<Rightarrow> sender \<Rightarrow> sender" where
  "run_command e line s =
     (let command = (if starts_with [47] line then line else 47 # line);
          newer = (case at_least e (js ''1.21.130'') of Some b \<Rightarrow> b | None \<Rightarrow> True);
          primary = (if newer then As_string (js ''66'') else As_number 66);
          fallback = (if newer then As_number 66 else As_string (js ''66''))
      in case try_command e command primary s of
           (s1, True) \<Rightarrow> s1
         | (s1, False) \<Rightarrow> (case try_command e command fallback s1 of
               (s2, True) \<Rightarrow> s2
             | (s2, False) \<Rightarrow> chat_text e command s2))"

definition send_line :: "bot_env \<Rightarrow> jstr \<Rightarrow> sender \<Rightarrow> sender" where
  "send_line e line s =
     (let trimmed = trim line
      in if trimmed = [] then s
         else if starts_with [47] trimmed then run_command e trimmed s else chat_text e trimmed s)"

subsection \<open>Position and sneaking\<close>

text \<open>A number argument may be missing, or not finite.\<close>

datatype number = Missing | Not_finite | Finite rat

definition set_entity :: "int option \<Rightarrow> sender \<Rightarrow> sender" where
  "set_entity i s = s\<lparr>sd_entity := (case i of Some k \<Rightarrow> Some k | None \<Rightarrow> sd_entity s)\<rparr>"

definition finite_or :: "rat \<Rightarrow> number \<Rightarrow> rat" where
  "finite_or old n = (case n of Missing \<Rightarrow> 0 | Not_finite \<Rightarrow> old | Finite r \<Rightarrow> r)"

definition update_position :: "(number \<times> number \<times> number) option \<Rightarrow> number \<Rightarrow> number \<Rightarrow> bool \<Rightarrow> sender \<Rightarrow> sender" where
  "update_position p pitch yaw teleport s = (case p of
       Some (Finite x, Finite y, Finite z) \<Rightarrow>
         s\<lparr>sd_position := Some \<lparr>vx = x, vy = y, vz = z\<rparr>,
           sd_pitch := finite_or (sd_pitch s) pitch, sd_yaw := finite_or (sd_yaw s) yaw,
           sd_teleport := sd_teleport s \<or> teleport, sd_edge := sd_edge s \<or> teleport\<rparr>
     | _ \<Rightarrow> s)"

definition set_input_tick :: "int \<Rightarrow> sender \<Rightarrow> sender" where
  "set_input_tick t s = s\<lparr>sd_tick := t\<rparr>"

definition set_sneak :: "bool \<Rightarrow> bool \<Rightarrow> sender \<Rightarrow> sender" where
  "set_sneak sneaking resync s =
     s\<lparr>sd_edge := sd_edge s \<or> resync \<or> sd_sneaking s \<noteq> sneaking, sd_sneaking := sneaking\<rparr>"

text \<open>The metadata of an entity: the flags may be an object (here its \<^verbatim>\<open>sneaking\<close> and its
  \<^verbatim>\<open>using_item\<close> where they are booleans), a 64-bit integer or a number.\<close>

datatype meta_key = Flags_key | Other_key
datatype meta_value = Meta_object "bool option" "bool option" | Meta_bigint int | Meta_number rat | Meta_other

definition observe_sneak :: "int option \<Rightarrow> (meta_key \<times> meta_value) list option \<Rightarrow> sender \<Rightarrow> bool option" where
  "observe_sneak entity metadata s =
     (if entity = None \<or> entity \<noteq> sd_entity s then None
      else case metadata of
          None \<Rightarrow> None
        | Some entries \<Rightarrow> (case find (\<lambda>(k, _). k = Flags_key) entries of
              Some (_, Meta_object (Some b) _) \<Rightarrow> Some b
            | Some (_, Meta_bigint n) \<Rightarrow> Some (bit n 1)
            | Some (_, Meta_number r) \<Rightarrow>
                if \<lfloor>r\<rfloor> = \<lceil>r\<rceil> \<and> \<bar>r\<bar> \<le> 2 ^ 53 - 1 then Some (bit \<lfloor>r\<rfloor> 1) else None
            | _ \<Rightarrow> None))"

subsection \<open>Sending\<close>

definition send_packet :: "bot_env \<Rightarrow> packet \<Rightarrow> sender \<Rightarrow> sender \<times> bool" where
  "send_packet e p s = (case queue e p s of
       (s', None) \<Rightarrow> (s', True)
     | (s', Some err) \<Rightarrow>
         (if due (map_of (sd_warned s') (packet_name p)) 30000 (bnow e)
          then emit (Warned (js ''Bedrock '' @ packet_name p @ js '': '' @ err @ js ''; wird erneut versucht''))
                 (s'\<lparr>sd_warned := AList.update (packet_name p) (bnow e) (sd_warned s')\<rparr>)
          else s', False))"

text \<open>The frame of the mouse: flags that override the held keys, a transaction and block actions.\<close>

record frame =
  fr_flags :: "(jstr \<times> bool) list"
  fr_transaction :: "use_item option"
  fr_actions :: "block_action list"

definition no_frame :: frame where
  "no_frame = \<lparr>fr_flags = [], fr_transaction = None, fr_actions = []\<rparr>"

definition input_flags :: "sender \<Rightarrow> frame \<Rightarrow> (jstr \<times> bool) list" where
  "input_flags s fr =
     (let held = sd_sneaking s; edge = sd_edge s
      in AList.update (js ''block_action'') (sd_actions s @ fr_actions fr \<noteq> [])
           (AList.updates (map fst (fr_flags fr)) (map snd (fr_flags fr))
             [(js ''sneaking'', held), (js ''sneak_down'', held), (js ''sneak_current_raw'', held),
              (js ''persist_sneak'', held),
              (js ''start_sneaking'', held \<and> edge), (js ''stop_sneaking'', \<not> held \<and> edge),
              (js ''sneak_pressed_raw'', held \<and> edge), (js ''sneak_released_raw'', \<not> held \<and> edge),
              (js ''handled_teleport'', sd_teleport s)]))"

definition auth_packet :: "bot_env \<Rightarrow> frame \<Rightarrow> vec \<Rightarrow> sender \<Rightarrow> auth_input" where
  "auth_packet e fr p s = \<lparr>in_pitch = sd_pitch s, in_yaw = sd_yaw s, in_position = p,
     in_flags = (if at_least e (js ''1.26.40'') = Some True then filter snd (input_flags s fr) else input_flags s fr),
     in_as_list = (at_least e (js ''1.26.40'') = Some True),
     in_tick = sd_tick s + 1, in_camera = facing e (sd_pitch s) (sd_yaw s),
     in_transaction = fr_transaction fr,
     in_block_action = (if sd_actions s @ fr_actions fr \<noteq> [] then Some (sd_actions s @ fr_actions fr) else None)\<rparr>"

text \<open>The tick number is used up also when the packet fails. The mouse acts when its frame is sent.\<close>

definition tick_input :: "bot_env \<Rightarrow> frame \<Rightarrow> sender \<Rightarrow> sender \<times> bool" where
  "tick_input e fr s = (case (sd_entity s, sd_position s) of
       (Some _, Some p) \<Rightarrow>
         (case send_packet e (P_auth (auth_packet e fr p s)) (s\<lparr>sd_tick := sd_tick s + 1\<rparr>) of
            (s', True) \<Rightarrow> (s'\<lparr>sd_edge := False, sd_teleport := False, sd_actions := []\<rparr>, True)
          | (s', False) \<Rightarrow> (s', False))
     | _ \<Rightarrow> (s, False))"

definition queue_block_action :: "block_action \<Rightarrow> sender \<Rightarrow> sender" where
  "queue_block_action a s = s\<lparr>sd_actions := sd_actions s @ [a]\<rparr>"

definition clear_mouse_actions :: "sender \<Rightarrow> sender" where
  "clear_mouse_actions s = s\<lparr>sd_actions := []\<rparr>"

definition player_view :: "bot_env \<Rightarrow> sender \<Rightarrow> (vec \<times> vec) option" where
  "player_view e s = map_option (\<lambda>p. (p, facing e (sd_pitch s) (sd_yaw s))) (sd_position s)"


section \<open>Lines are never dropped silently\<close>

lemma emit_log [simp]: "sd_log (emit x s) = sd_log s @ [x]"
  by (simp add: emit_def)

lemma chat_text_log: "\<exists>x. sd_log (chat_text e m s) = sd_log s @ [x]
    \<and> (x = Sent (P_text (sd_username s) m) \<or> (rejects e (P_text (sd_username s) m) \<noteq> None \<and> (\<exists>w. x = Warned w)))"
  by (auto simp: chat_text_def queue_def split: option.splits)

lemma run_command_log:
  assumes "starts_with [47] c"
  shows "\<exists>x. sd_log (run_command e c s) = sd_log s @ [x]
    \<and> ((\<exists>v. x = Sent (P_command c v)) \<or> x = Sent (P_text (sd_username s) c) \<or> (\<exists>w. x = Warned w))"
proof -
  have "\<exists>x. sd_log (chat_text e c s) = sd_log s @ [x] \<and> (x = Sent (P_text (sd_username s) c) \<or> (\<exists>w. x = Warned w))"
    using chat_text_log [of e c s] by blast
  then show ?thesis using assms
    by (auto simp: run_command_def try_command_def queue_def Let_def split: option.splits)
qed

lemma emit_fields [simp]:
  "sd_username (emit x s) = sd_username s" "sd_entity (emit x s) = sd_entity s" "sd_position (emit x s) = sd_position s"
  "sd_sneaking (emit x s) = sd_sneaking s" "sd_edge (emit x s) = sd_edge s" "sd_warned (emit x s) = sd_warned s"
  "sd_authoritative (emit x s) = sd_authoritative s" "sd_actions (emit x s) = sd_actions s"
  "sd_tick (emit x s) = sd_tick s" "sd_teleport (emit x s) = sd_teleport s"
  by (simp_all add: emit_def)

lemma line_log:
  assumes "trim line \<noteq> []"
  shows "\<exists>x. sd_log (send_line e line s) = sd_log s @ [x]
    \<and> (x = Sent (P_text (sd_username s) (trim line))
      \<or> (starts_with [47] (trim line) \<and> (\<exists>v. x = Sent (P_command (trim line) v)))
      \<or> (rejects e (P_text (sd_username s) (trim line)) \<noteq> None \<and> (\<exists>w. x = Warned w)))"
proof (cases "starts_with [47] (trim line)")
  case True
  have "\<exists>x. sd_log (chat_text e (trim line) s) = sd_log s @ [x] \<and> (x = Sent (P_text (sd_username s) (trim line))
      \<or> (rejects e (P_text (sd_username s) (trim line)) \<noteq> None \<and> (\<exists>w. x = Warned w)))"
    by (rule chat_text_log)
  then show ?thesis using True assms
    by (auto simp: send_line_def run_command_def try_command_def queue_def Let_def split: option.splits)
next
  case False
  then show ?thesis using chat_text_log [of e "trim line" s] assms by (auto simp: send_line_def Let_def)
qed

section \<open>What the server has been told about sneaking\<close>

definition flag :: "string \<Rightarrow> auth_input \<Rightarrow> bool" where
  "flag k a \<longleftrightarrow> map_of (in_flags a) (js k) = Some True"

fun hear :: "bool option \<Rightarrow> bot_out \<Rightarrow> bool option" where
  "hear b (Sent (P_auth a)) = (if flag ''start_sneaking'' a then Some True
     else if flag ''stop_sneaking'' a then Some False else b)"
| "hear b _ = b"

definition told :: "bot_out list \<Rightarrow> bool option" where
  "told out = foldl hear None out"

lemma told_Nil [simp]: "told [] = None"
  by (simp add: told_def)

lemma told_snoc [simp]: "told (out @ [x]) = hear (told out) x"
  by (simp add: told_def)

definition keeps_keys :: "frame \<Rightarrow> bool" where
  "keeps_keys fr \<longleftrightarrow> js ''start_sneaking'' \<notin> fst ` set (fr_flags fr) \<and> js ''stop_sneaking'' \<notin> fst ` set (fr_flags fr)"

lemma map_of_updates_other:
  "k \<notin> set ks \<Longrightarrow> map_of (AList.updates ks vs l) k = map_of l k"
  by (simp add: updates_conv' map_upds_apply_nontin)

lemma map_of_filter_snd:
  "distinct (map fst l) \<Longrightarrow> map_of (filter snd l) k = Some True \<longleftrightarrow> map_of l k = Some True"
  by (induction l) (auto split: if_splits simp: map_of_eq_None_iff, force+)

lemma input_flags_distinct: "distinct (map fst (input_flags s fr))"
  unfolding input_flags_def Let_def by (intro distinct_update distinct_updates) (simp add: js_eq_iff)

lemma flag_auth_packet:
  "flag k (auth_packet e fr p s) \<longleftrightarrow> map_of (input_flags s fr) (js k) = Some True"
  by (simp add: flag_def auth_packet_def map_of_filter_snd [OF input_flags_distinct])

lemma sneak_flags:
  assumes "keeps_keys fr"
  shows "flag ''start_sneaking'' (auth_packet e fr p s) \<longleftrightarrow> sd_sneaking s \<and> sd_edge s"
    and "flag ''stop_sneaking'' (auth_packet e fr p s) \<longleftrightarrow> \<not> sd_sneaking s \<and> sd_edge s"
  using assms unfolding flag_auth_packet
  by (simp_all add: input_flags_def Let_def map_of_updates_other keeps_keys_def)

text \<open>When no edge is pending, the server has been told exactly what is held.\<close>

definition sneak_ok :: "sender \<Rightarrow> bool" where
  "sneak_ok s \<longleftrightarrow> (\<not> sd_edge s \<longrightarrow> told (sd_log s) = Some (sd_sneaking s))"

lemma sneak_ok_new: "sneak_ok (new_sender n)"
  by (simp add: sneak_ok_def new_sender_def)

text \<open>A bot output that is no input frame does not change it.\<close>

fun quiet :: "bot_out \<Rightarrow> bool" where
  "quiet (Sent (P_auth _)) = False"
| "quiet _ = True"

lemma hear_quiet: "quiet x \<Longrightarrow> hear b x = b"
  by (cases x rule: quiet.cases) auto

lemma sneak_ok_emit: "quiet x \<Longrightarrow> sneak_ok (emit x s) = sneak_ok s"
  by (simp add: sneak_ok_def hear_quiet)

lemma send_packet_cases:
  obtains "send_packet e p s = (emit (Sent p) s, True)"
  | w m where "send_packet e p s = (emit (Warned w) (s\<lparr>sd_warned := m\<rparr>), False)"
  | "send_packet e p s = (s, False)"
  by (cases "rejects e p"; cases "due (map_of (sd_warned s) (packet_name p)) 30000 (bnow e)")
    (auto simp: send_packet_def queue_def)

lemma send_packet_fields [simp]:
  "sd_sneaking (fst (send_packet e p s)) = sd_sneaking s" "sd_edge (fst (send_packet e p s)) = sd_edge s"
  "sd_position (fst (send_packet e p s)) = sd_position s" "sd_entity (fst (send_packet e p s)) = sd_entity s"
  "sd_authoritative (fst (send_packet e p s)) = sd_authoritative s" "sd_actions (fst (send_packet e p s)) = sd_actions s"
  "sd_username (fst (send_packet e p s)) = sd_username s"
  by (cases rule: send_packet_cases [of e p s]; simp)+

lemma tick_input_cases:
  obtains "tick_input e fr s = (s, False)"
  | p where "tick_input e fr s = (emit (Sent (P_auth (auth_packet e fr p s)))
      (s\<lparr>sd_tick := sd_tick s + 1, sd_edge := False, sd_teleport := False, sd_actions := []\<rparr>), True)"
  | w m where "tick_input e fr s = (emit (Warned w) (s\<lparr>sd_tick := sd_tick s + 1, sd_warned := m\<rparr>), False)"
  | "tick_input e fr s = (s\<lparr>sd_tick := sd_tick s + 1\<rparr>, False)"
proof (cases "sd_entity s = None \<or> sd_position s = None")
  case True
  then have "tick_input e fr s = (s, False)" by (auto simp: tick_input_def split: option.splits)
  then show thesis by (rule that(1))
next
  case False
  then obtain i p where ip: "sd_entity s = Some i" "sd_position s = Some p" by auto
  show thesis
  proof (cases rule: send_packet_cases [of e "P_auth (auth_packet e fr p s)" "s\<lparr>sd_tick := sd_tick s + 1\<rparr>"])
    case 1
    then show thesis by (intro that(2) [of p]) (simp add: tick_input_def ip emit_def)
  next
    case (2 w m)
    then show thesis by (intro that(3) [of w m]) (simp add: tick_input_def ip)
  next
    case 3
    then show thesis by (intro that(4)) (simp add: tick_input_def ip)
  qed
qed

lemma tick_input_sneaking [simp]: "sd_sneaking (fst (tick_input e fr s)) = sd_sneaking s"
  by (cases rule: tick_input_cases [of e fr s]) auto

lemma sneak_ok_tick: "keeps_keys fr \<Longrightarrow> sneak_ok s \<Longrightarrow> sneak_ok (fst (tick_input e fr s))"
  by (cases rule: tick_input_cases [of e fr s]) (auto simp: sneak_ok_def sneak_flags)

lemma sneak_ok_packet: "quiet (Sent p) \<Longrightarrow> sneak_ok (fst (send_packet e p s)) = sneak_ok s"
  by (cases rule: send_packet_cases [of e p s]) (auto simp: sneak_ok_def hear_quiet)

lemma sneak_ok_set: "sneak_ok s \<Longrightarrow> sneak_ok (set_sneak b resync s)"
  by (auto simp: sneak_ok_def set_sneak_def)

lemma told_send_line: "told (sd_log (send_line e l s)) = told (sd_log s)"
proof (cases "trim l = []")
  case False
  then obtain x where "sd_log (send_line e l s) = sd_log s @ [x]" "quiet x"
    using line_log [OF False, of e s] by auto
  then show ?thesis by (simp add: hear_quiet)
qed (simp add: send_line_def)

end
