(* ===== verification/Regex_Language.thy ===== *)
theory Regex_Language
  imports JsRegex
begin

text \<open>
  The words of a regular expression without anchors, and the two directions between words and matches:
  a matched part of a string is a word, and a word matches wherever it stands. Captures hold words of
  the bodies of their groups.
\<close>

inductive re_lang :: "re \<Rightarrow> jstr \<Rightarrow> bool" where
  lang_Eps: "re_lang Eps []"
| lang_Cls: "p c \<Longrightarrow> re_lang (Cls p) [c]"
| lang_Sq: "re_lang r u \<Longrightarrow> re_lang q v \<Longrightarrow> re_lang (Sq r q) (u @ v)"
| lang_Alt1: "re_lang r u \<Longrightarrow> re_lang (Alt r q) u"
| lang_Alt2: "re_lang q u \<Longrightarrow> re_lang (Alt r q) u"
| lang_Star0: "re_lang (Star r) []"
| lang_Star: "re_lang r u \<Longrightarrow> u \<noteq> [] \<Longrightarrow> re_lang (Star r) v \<Longrightarrow> re_lang (Star r) (u @ v)"
| lang_Lazy0: "re_lang (Lazy r) []"
| lang_Lazy: "re_lang r u \<Longrightarrow> u \<noteq> [] \<Longrightarrow> re_lang (Lazy r) v \<Longrightarrow> re_lang (Lazy r) (u @ v)"
| lang_Grp: "re_lang r u \<Longrightarrow> re_lang (Grp n r) u"

inductive_simps re_lang_simps [simp]:
  "re_lang Eps w" "re_lang (Cls p) w" "re_lang (Sq r q) w" "re_lang (Alt r q) w" "re_lang (Grp n r) w"
  "re_lang Bol w" "re_lang Eol w" "re_lang Wb w"

fun plain :: "re \<Rightarrow> bool" where
  "plain (Sq r q) \<longleftrightarrow> plain r \<and> plain q"
| "plain (Alt r q) \<longleftrightarrow> plain r \<and> plain q"
| "plain (Star r) \<longleftrightarrow> plain r"
| "plain (Lazy r) \<longleftrightarrow> plain r"
| "plain (Grp n r) \<longleftrightarrow> plain r"
| "plain Bol \<longleftrightarrow> False"
| "plain Eol \<longleftrightarrow> False"
| "plain Wb \<longleftrightarrow> False"
| "plain _ \<longleftrightarrow> True"

section \<open>Matches are words\<close>

lemma sub_append: "i \<le> k \<Longrightarrow> k \<le> j \<Longrightarrow> sub s i k @ sub s k j = sub s i j"
proof -
  assume a: "i \<le> k" "k \<le> j"
  then have d: "drop k s = drop (k - i) (drop i s)" by simp
  have "take (k - i) (drop i s) @ take (j - k) (drop (k - i) (drop i s)) = take (k - i + (j - k)) (drop i s)"
    by (rule take_add [symmetric])
  then show ?thesis unfolding sub_def d using a by simp
qed

lemma sub_one: "i < length s \<Longrightarrow> sub s i (Suc i) = [s ! i]"
  by (simp add: sub_def take_Suc hd_drop_conv_nth)

lemma sub_not_Nil: "i < k \<Longrightarrow> k \<le> length s \<Longrightarrow> sub s i k \<noteq> []"
  by (simp add: sub_def)

lemma sub_all [simp]: "sub s 0 (length s) = s"
  by (simp add: sub_def)

lemma run_is_lang:
  "(j, c') \<in> set (re_run r s i c) \<Longrightarrow> i \<le> length s \<Longrightarrow> plain r \<Longrightarrow> re_lang r (sub s i j)"
proof (induction r s i c arbitrary: j c' rule: re_run.induct)
  case (2 p s i c)
  then show ?case by (auto simp: sub_one split: if_splits)
next
  case (3 r1 r2 s i c)
  from "3.prems"(1) obtain k e where k: "(k, e) \<in> set (re_run r1 s i c)" "(j, c') \<in> set (re_run r2 s k e)" by auto
  have b: "i \<le> k" "k \<le> length s" using re_run_bounds [OF k(1)] "3.prems"(2) by auto
  have b2: "k \<le> j" using re_run_bounds [OF k(2)] b by auto
  have "re_lang r1 (sub s i k)" "re_lang r2 (sub s k j)"
    using "3.IH"(1) [OF k(1)] "3.IH"(2) [OF k(1) _ k(2)] "3.prems" b by auto
  then show ?case unfolding sub_append [OF b(1) b2, symmetric] by (rule lang_Sq)
next
  case (5 r s i c)
  show ?case
  proof (cases "(j, c') = (i, c)")
    case False
    with "5.prems"(1) obtain k d where k: "(k, d) \<in> set (re_run r s i c)" "i < k \<and> k \<le> length s"
      "(j, c') \<in> set (re_run (Star r) s k d)"
      by (auto simp: re_run_Star [of r s i c] split: if_splits)
    have b: "i \<le> k" "k \<le> j" using k(2) re_run_bounds [OF k(3)] by auto
    have "re_lang r (sub s i k)" "re_lang (Star r) (sub s k j)"
      using "5.IH"(1) [OF k(1)] "5.IH"(2) [OF k(1) _ k(2) k(3)] "5.prems" k(2) by auto
    then show ?thesis
      unfolding sub_append [OF b, symmetric] using k(2) by (intro lang_Star) (auto simp: sub_not_Nil)
  qed (simp add: lang_Star0)
next
  case (6 r s i c)
  show ?case
  proof (cases "(j, c') = (i, c)")
    case False
    with "6.prems"(1) obtain k d where k: "(k, d) \<in> set (re_run r s i c)" "i < k \<and> k \<le> length s"
      "(j, c') \<in> set (re_run (Lazy r) s k d)"
      by (auto simp: re_run_Lazy [of r s i c] split: if_splits)
    have b: "i \<le> k" "k \<le> j" using k(2) re_run_bounds [OF k(3)] by auto
    have "re_lang r (sub s i k)" "re_lang (Lazy r) (sub s k j)"
      using "6.IH"(1) [OF k(1)] "6.IH"(2) [OF k(1) _ k(2) k(3)] "6.prems" k(2) by auto
    then show ?thesis
      unfolding sub_append [OF b, symmetric] using k(2) by (intro lang_Lazy) (auto simp: sub_not_Nil)
  qed (simp add: lang_Lazy0)
next
  case (7 n r s i c)
  then show ?case by auto
qed auto

lemma rel_is_lang: "re_rel r s i j \<Longrightarrow> i \<le> length s \<Longrightarrow> plain r \<Longrightarrow> re_lang r (sub s i j)"
  using run_is_lang re_relE by blast

section \<open>Words match\<close>

lemma re_rel_Star_I: "re_rel r s i k \<Longrightarrow> i < k \<Longrightarrow> k \<le> length s \<Longrightarrow> re_rel (Star r) s k j \<Longrightarrow> re_rel (Star r) s i j"
  by (subst re_rel_Star_unfold) blast

lemma re_rel_Lazy0: "re_rel (Lazy r) s i i"
  unfolding re_rel_def by (simp add: re_run_Lazy [of r s i])

lemma re_rel_Lazy_I:
  assumes "re_rel r s i k" and "i < k" and "k \<le> length s" and "re_rel (Lazy r) s k j"
  shows "re_rel (Lazy r) s i j"
proof -
  obtain d where d: "(k, d) \<in> set (re_run r s i [])" using assms(1) re_relE by blast
  obtain e where "(j, e) \<in> set (re_run (Lazy r) s k d)" using assms(4) re_relE by blast
  with d assms(2,3) have "(j, e) \<in> set (re_run (Lazy r) s i [])" by (auto simp: re_run_Lazy [of r s i "[]"])
  then show ?thesis by (rule re_relI)
qed

lemma re_rel_Grp [simp]: "re_rel (Grp n r) s i j \<longleftrightarrow> re_rel r s i j"
  by (force simp: re_rel_def)

lemma lang_is_rel: "re_lang r w \<Longrightarrow> re_rel r (pre @ w @ post) (length pre) (length pre + length w)"
proof (induction r w arbitrary: pre post rule: re_lang.induct)
  case (lang_Sq r u q v)
  have "re_rel r (pre @ (u @ v) @ post) (length pre) (length pre + length u)"
    using lang_Sq.IH(1) [of pre "v @ post"] by simp
  moreover have "re_rel q (pre @ (u @ v) @ post) (length pre + length u) (length pre + length (u @ v))"
    using lang_Sq.IH(2) [of "pre @ u" post] by (simp add: add.assoc)
  ultimately show ?case by auto
next
  case (lang_Star r u v)
  have "re_rel r (pre @ (u @ v) @ post) (length pre) (length pre + length u)"
    using lang_Star.IH(1) [of pre "v @ post"] by simp
  moreover have "re_rel (Star r) (pre @ (u @ v) @ post) (length pre + length u) (length pre + length (u @ v))"
    using lang_Star.IH(2) [of "pre @ u" post] by (simp add: add.assoc)
  moreover have "length pre < length pre + length u" "length pre + length u \<le> length (pre @ (u @ v) @ post)"
    using lang_Star.hyps(2) by simp_all
  ultimately show ?case by (blast intro: re_rel_Star_I)
next
  case (lang_Lazy r u v)
  have "re_rel r (pre @ (u @ v) @ post) (length pre) (length pre + length u)"
    using lang_Lazy.IH(1) [of pre "v @ post"] by simp
  moreover have "re_rel (Lazy r) (pre @ (u @ v) @ post) (length pre + length u) (length pre + length (u @ v))"
    using lang_Lazy.IH(2) [of "pre @ u" post] by (simp add: add.assoc)
  moreover have "length pre < length pre + length u" "length pre + length u \<le> length (pre @ (u @ v) @ post)"
    using lang_Lazy.hyps(2) by simp_all
  ultimately show ?case by (blast intro: re_rel_Lazy_I)
next
  case (lang_Star0 r)
  then show ?case by (subst re_rel_Star_unfold) simp
qed (auto intro: re_rel_Lazy0)

lemma lang_sq [simp]: "re_lang (sq []) w \<longleftrightarrow> w = []" "re_lang (sq (r # rs)) w \<longleftrightarrow> (\<exists>u v. w = u @ v \<and> re_lang r u \<and> re_lang (sq rs) v)"
  by (auto simp: sq_def)

lemma rel_sq_append: "re_rel (sq (rs @ qs)) s i j \<longleftrightarrow> (\<exists>k. re_rel (sq rs) s i k \<and> re_rel (sq qs) s k j)"
  by (induction rs arbitrary: i) (auto simp: sq_def)

text \<open>A whole string is matched exactly when it is a word.\<close>

lemma test_whole:
  assumes "list_all plain rs"
  shows "re_test (Sq Bol (sq (rs @ [Eol]))) w \<longleftrightarrow> re_lang (sq rs) w"
proof -
  have pl: "plain (sq rs)" using assms by (induction rs) (auto simp: sq_def)
  have "re_test (Sq Bol (sq (rs @ [Eol]))) w \<longleftrightarrow> re_rel (sq rs) w 0 (length w)"
    by (auto simp: re_test_anchored_rel rel_sq_append) (auto simp: sq_def)
  also have "\<dots> \<longleftrightarrow> re_lang (sq rs) w"
    using rel_is_lang [OF _ _ pl, of w 0 "length w"] lang_is_rel [of "sq rs" w "[]" "[]"] by auto
  finally show ?thesis .
qed

section \<open>Loops over a class\<close>

lemma lang_Star_Cls [simp]: "re_lang (Star (Cls p)) w \<longleftrightarrow> list_all p w"
proof
  show "re_lang (Star (Cls p)) w \<Longrightarrow> list_all p w"
    by (induction "Star (Cls p)" w rule: re_lang.induct) auto
  show "list_all p w \<Longrightarrow> re_lang (Star (Cls p)) w"
  proof (induction w)
    case (Cons c w)
    then have "re_lang (Star (Cls p)) ([c] @ w)" by (intro re_lang.lang_Star) auto
    then show ?case by simp
  qed (rule lang_Star0)
qed

lemma lang_plus_Cls [simp]: "re_lang (plus (Cls p)) w \<longleftrightarrow> w \<noteq> [] \<and> list_all p w"
proof (cases w)
  case (Cons c v)
  have "re_lang (plus (Cls p)) w \<longleftrightarrow> (\<exists>x y. w = [x] @ y \<and> p x \<and> list_all p y)" unfolding plus_def re_lang_simps lang_Star_Cls by blast
  then show ?thesis using Cons by simp
qed (simp add: plus_def)

lemma lang_digits1 [simp]: "re_lang digits1 w \<longleftrightarrow> w \<noteq> [] \<and> list_all is_digit w"
  by (simp add: digits1_def)

lemma lang_opt [simp]: "re_lang (opt r) w \<longleftrightarrow> w = [] \<or> re_lang r w"
  by (auto simp: opt_def)

lemma lang_unit [simp]: "re_lang (unit c) w \<longleftrightarrow> w = [c]"
  by (auto simp: unit_def)

lemma lang_lit [simp]: "re_lang (lit s) w \<longleftrightarrow> w = js s"
proof -
  have "re_lang (sq (map (\<lambda>p. Cls (\<lambda>c. c = p)) ps)) w \<longleftrightarrow> w = ps" for ps
    by (induction ps arbitrary: w) auto
  then show ?thesis by (simp add: lit_def)
qed

lemma plain_builders [simp]:
  "plain digits1" "plain (unit c)" "plain (opt r) \<longleftrightarrow> plain r" "plain spaces" "plain spaces1" "plain any"
  "plain (plus r) \<longleftrightarrow> plain r" "plain (sq rs) \<longleftrightarrow> list_all plain rs"
  "plain (lit s)" "plain (lit_i s)" "plain (lit_iu s)"
proof -
  show sq: "plain (sq rs) \<longleftrightarrow> list_all plain rs" for rs by (induction rs) (auto simp: sq_def)
  show "plain (lit s)" "plain (lit_i s)" "plain (lit_iu s)"
    by (auto simp: lit_def lit_i_def lit_iu_def sq list_all_iff)
qed (auto simp: digits1_def unit_def opt_def spaces_def spaces1_def any_def plus_def)

section \<open>Captures\<close>

fun groups :: "nat \<Rightarrow> re \<Rightarrow> re set" where
  "groups n (Sq r q) = groups n r \<union> groups n q"
| "groups n (Alt r q) = groups n r \<union> groups n q"
| "groups n (Star r) = groups n r"
| "groups n (Lazy r) = groups n r"
| "groups n (Grp m r) = (if m = n then {r} else {}) \<union> groups n r"
| "groups n _ = {}"

definition captured :: "re \<Rightarrow> nat \<Rightarrow> caps \<Rightarrow> bool" where
  "captured r n c \<longleftrightarrow> (\<forall>m. map_of c n = Some m \<longrightarrow> (\<exists>b \<in> groups n r. re_lang b m))"

lemma capturedD: "captured r n c \<Longrightarrow> map_of c n = Some m \<Longrightarrow> \<exists>b \<in> groups n r. re_lang b m"
  by (simp add: captured_def)

lemma run_captures:
  assumes "\<forall>b \<in> groups n r. plain b" and "captured r0 n c" and "groups n r \<subseteq> groups n r0"
    and "(j, c') \<in> set (re_run r s i c)" and "i \<le> length s"
  shows "captured r0 n c'"
  using assms
proof (induction r s i c arbitrary: j c' rule: re_run.induct)
  case (3 r1 r2 s i c)
  from "3.prems"(4) obtain k e where k: "(k, e) \<in> set (re_run r1 s i c)" "(j, c') \<in> set (re_run r2 s k e)" by auto
  have "captured r0 n e" using "3.IH"(1) [OF _ _ _ k(1)] "3.prems" by auto
  then show ?case using "3.IH"(2) [OF k(1) _ _ _ _ k(2)] "3.prems" re_run_bounds [OF k(1)] by auto
next
  case (4 r1 r2 s i c)
  then consider "(j, c') \<in> set (re_run r1 s i c)" | "(j, c') \<in> set (re_run r2 s i c)" by auto
  then show ?case using "4.IH" "4.prems" by cases auto
next
  case (5 r s i c)
  show ?case
  proof (cases "(j, c') = (i, c)")
    case False
    with "5.prems"(4) obtain k d where k: "(k, d) \<in> set (re_run r s i c)" "i < k \<and> k \<le> length s"
      "(j, c') \<in> set (re_run (Star r) s k d)"
      by (auto simp: re_run_Star [of r s i c] split: if_splits)
    have "captured r0 n d" using "5.IH"(1) [OF _ _ _ k(1)] "5.prems" by auto
    then show ?thesis using "5.IH"(2) [OF k(1) _ k(2) _ _ _ k(3)] "5.prems" k(2) by auto
  qed (use "5.prems" in simp)
next
  case (6 r s i c)
  show ?case
  proof (cases "(j, c') = (i, c)")
    case False
    with "6.prems"(4) obtain k d where k: "(k, d) \<in> set (re_run r s i c)" "i < k \<and> k \<le> length s"
      "(j, c') \<in> set (re_run (Lazy r) s k d)"
      by (auto simp: re_run_Lazy [of r s i c] split: if_splits)
    have "captured r0 n d" using "6.IH"(1) [OF _ _ _ k(1)] "6.prems" by auto
    then show ?thesis using "6.IH"(2) [OF k(1) _ k(2) _ _ _ k(3)] "6.prems" k(2) by auto
  qed (use "6.prems" in simp)
next
  case (7 m r s i c)
  then obtain e where e: "(j, e) \<in> set (re_run r s i c)" "c' = AList.update m (sub s i j) e" by auto
  have cap: "captured r0 n e" using "7.IH" [OF _ _ _ e(1)] "7.prems" by auto
  have "re_lang r (sub s i j)" if "m = n"
    using run_is_lang [OF e(1) "7.prems"(5)] "7.prems"(1) that by simp
  then show ?case using cap "7.prems"(3) unfolding captured_def e(2) by (auto split: if_splits)
qed (auto split: if_splits)

lemma search_captures:
  assumes "re_search r s = Some (i, j, c)" and "map_of c n = Some m" and "\<forall>b \<in> groups n r. plain b"
  shows "\<exists>b \<in> groups n r. re_lang b m"
proof -
  obtain k where k: "k \<le> length s" "re_at r s k = Some (i, j, c)"
    using first_some_SomeD [OF assms(1) [unfolded re_search_def re_search_from_def]]
    unfolding set_upt by (metis atLeastLessThan_iff less_Suc_eq_le)
  then have "(j, c) \<in> set (re_run r s k [])" unfolding re_at_def by (cases "re_run r s k []") auto
  then have "captured r n c" using run_captures [OF assms(3), of r "[]" j c s k] k(1) by (simp add: captured_def)
  then show ?thesis using assms(2) by (rule capturedD)
qed

lemma group_is_lang:
  assumes "re_group r n s = Some m" and "\<forall>b \<in> groups n r. plain b"
  shows "\<exists>b \<in> groups n r. re_lang b m"
  using assms search_captures unfolding re_group_def by (fastforce split: option.splits)

lemma groups_sq [simp]: "groups n (sq rs) = (\<Union>r \<in> set rs. groups n r)"
  by (induction rs) (auto simp: sq_def)

lemma groups_builders [simp]:
  "groups n digits1 = {}" "groups n (unit c) = {}" "groups n (opt r) = groups n r" "groups n spaces = {}"
  "groups n spaces1 = {}" "groups n any = {}" "groups n (plus r) = groups n r"
  "groups n (lit s) = {}" "groups n (lit_i s) = {}" "groups n (lit_iu s) = {}"
  by (auto simp: digits1_def unit_def opt_def spaces_def spaces1_def any_def plus_def lit_def lit_i_def lit_iu_def)

end
