(* ===== verification/Sell_Multipliers.thy ===== *)
theory Sell_Multipliers
  imports Text_Rules Minecraft_Client Regex_Language
begin

text \<open>
  \<^verbatim>\<open>backend/src/minecraft/sellMultipliers.ts\<close>: the text of an item tooltip, and the reading of one sales
  multiplier from it. Values of unknown shape are JSON values; \<^verbatim>\<open>JSON.parse\<close> is the argument \<open>parse\<close>,
  \<open>None\<close> where it throws. Amounts are IEEE doubles, written as a mantissa and a binary exponent.
\<close>

section \<open>Definitions\<close>

subsection \<open>Tooltip text\<close>

definition opens_json :: "jstr \<Rightarrow> bool" where
  "opens_json s = (case trim s of c # _ \<Rightarrow> c = 91 \<or> c = 123 | [] \<Rightarrow> False)"

definition is_colour :: "code_unit \<Rightarrow> bool" where
  "is_colour c \<longleftrightarrow> is_digit c \<or> (65 \<le> c \<and> c \<le> 90) \<or> (97 \<le> c \<and> c \<le> 122)"

definition plain_text :: "jstr \<Rightarrow> jstr" where
  "plain_text s = filter (\<lambda>c. c \<noteq> 167) (re_remove (Sq (unit 167) (Cls is_colour)) s)"

lemma size_json_field: "json_field j k = Some v \<Longrightarrow> size v < size j"
proof -
  have "map_of kvs x = Some v \<Longrightarrow> size v \<le> size_list (size_prod (\<lambda>_. 0) size) kvs" for kvs x
    by (induction kvs) (auto split: if_splits)
  then show "json_field j k = Some v \<Longrightarrow> size v < size j"
    by (fastforce simp: json_field_def split: json.splits)
qed

text \<open>
  A string may hold JSON with strings that hold JSON again; the first argument bounds the number of
  nested parses (\<open>tooltip_text\<close> passes the length of all strings, which is always enough).
\<close>

function tooltip_at :: "(jstr \<Rightarrow> json option) \<Rightarrow> nat \<Rightarrow> json \<Rightarrow> jstr" where
  "tooltip_at parse n (JStr s) = (case (if opens_json s then parse s else None) of
       None \<Rightarrow> plain_text s
     | Some j \<Rightarrow> (case n of 0 \<Rightarrow> plain_text s | Suc m \<Rightarrow> tooltip_at parse m j))"
| "tooltip_at parse n (JArr vs) = concat (map (tooltip_at parse n) vs)"
| "tooltip_at parse n (JObj kvs) =
     (case json_field (JObj kvs) ''text'' of None \<Rightarrow> [] | Some v \<Rightarrow> tooltip_at parse n v)
   @ (case json_field (JObj kvs) ''extra'' of
        Some v \<Rightarrow> if v = JNull
          then (case json_field (JObj kvs) ''rawtext'' of None \<Rightarrow> [] | Some w \<Rightarrow> tooltip_at parse n w)
          else tooltip_at parse n v
      | None \<Rightarrow> (case json_field (JObj kvs) ''rawtext'' of None \<Rightarrow> [] | Some w \<Rightarrow> tooltip_at parse n w))"
| "tooltip_at parse n JNull = []"
| "tooltip_at parse n (JBool b) = []"
| "tooltip_at parse n (JNum r) = []"
  by pat_completeness auto
termination
  by (relation "measures [\<lambda>(_, n, _). n, \<lambda>(_, _, j). size j]")
    (auto dest: size_json_field simp: less_Suc_eq_le size_list_estimation')

fun json_weight :: "json \<Rightarrow> nat" where
  "json_weight (JStr s) = length s"
| "json_weight (JArr vs) = sum_list (map json_weight vs)"
| "json_weight (JObj kvs) = sum_list (map (\<lambda>(_, v). json_weight v) kvs)"
| "json_weight _ = 0"

definition tooltip_text :: "(jstr \<Rightarrow> json option) \<Rightarrow> json \<Rightarrow> jstr" where
  "tooltip_text parse v = tooltip_at parse (json_weight v) v"

subsection \<open>Doubles\<close>

type_synonym double = "int \<times> int"

fun bit_length :: "int \<Rightarrow> nat" where
  "bit_length n = (if n \<le> 0 then 0 else Suc (bit_length (n div 2)))"

declare bit_length.simps [simp del]

definition half_even :: "int \<Rightarrow> int \<Rightarrow> int" where
  "half_even n d = (let q = n div d; r = n mod d in
     if 2 * r < d then q else if 2 * r > d then q + 1 else if q mod 2 = 0 then q else q + 1)"

text \<open>The double nearest to a ratio, with a mantissa of 53 bits.\<close>

definition round_ratio :: "int \<Rightarrow> int \<Rightarrow> double" where
  "round_ratio n d = (if n = 0 then (0, 0) else
     (let e0 = int (bit_length n) - int (bit_length d) - 53;
          scaled = (\<lambda>e. (n * 2 ^ nat (- e), d * 2 ^ nat e));
          e = (if fst (scaled e0) < snd (scaled e0) * 2 ^ 53 then e0 else e0 + 1)
      in (half_even (fst (scaled e)) (snd (scaled e)), e)))"

definition js_double :: "jstr \<Rightarrow> double option" where
  "js_double s = (case split_at 46 s of
       (a, None) \<Rightarrow> if a \<noteq> [] \<and> list_all is_digit a then Some (round_ratio (digits_val a) 1) else None
     | (a, Some b) \<Rightarrow> if a @ b \<noteq> [] \<and> list_all is_digit (a @ b)
         then Some (round_ratio (digits_val (a @ b)) (10 ^ length b)) else None)"

definition times :: "double \<Rightarrow> int \<Rightarrow> double" where
  "times x k = (case round_ratio (fst x * k) 1 of (m, e) \<Rightarrow> (m, e + snd x))"

definition divided :: "double \<Rightarrow> double \<Rightarrow> double" where
  "divided x y = (case round_ratio (fst x) (fst y) of (m, e) \<Rightarrow> (m, e + snd x - snd y))"

definition floored :: "double \<Rightarrow> int" where
  "floored x = (if 0 \<le> snd x then fst x * 2 ^ nat (snd x) else fst x div 2 ^ nat (- snd x))"

definition at_most :: "double \<Rightarrow> int \<Rightarrow> bool" where
  "at_most x k \<longleftrightarrow> (if 0 \<le> snd x then fst x * 2 ^ nat (snd x) \<le> k else fst x \<le> k * 2 ^ nat (- snd x))"

subsection \<open>Amounts\<close>

definition is_amount_char :: "code_unit \<Rightarrow> bool" where
  "is_amount_char c \<longleftrightarrow> is_digit c \<or> c = 46 \<or> c = 44"

text \<open>\<^verbatim>\<open>[a-z]\<close> under \<^verbatim>\<open>iu\<close> also takes the long s and the Kelvin sign; upper case of the former is \<^verbatim>\<open>S\<close>.\<close>

definition is_unit_char :: "code_unit \<Rightarrow> bool" where
  "is_unit_char c \<longleftrightarrow> (97 \<le> c \<and> c \<le> 122) \<or> (65 \<le> c \<and> c \<le> 90) \<or> c = 383 \<or> c = 8490"

definition upper :: "jstr \<Rightarrow> jstr" where
  "upper s = map (\<lambda>c. if 97 \<le> c \<and> c \<le> 122 then c - 32 else if c = 383 then 83 else c) s"

definition money_factor :: "jstr \<Rightarrow> int option" where
  "money_factor u = map_of [(js ''K'', 10 ^ 3), (js ''M'', 10 ^ 6), (js ''B'', 10 ^ 9), (js ''T'', 10 ^ 12)] u"

definition amount_of :: "jstr \<Rightarrow> (jstr \<times> jstr) option" where
  "amount_of input =
     (let t = (case trim input of c # r \<Rightarrow> if c = 36 then trim_start r else c # r | [] \<Rightarrow> []);
          m = takeWhile is_amount_char t
      in if m = [] \<or> \<not> is_digit (hd m) \<or> length m > 32 then None
         else (let rest = trim_start (drop (length m) t); unit = upper (takeWhile is_unit_char rest)
               in if unit \<noteq> [] \<and> money_factor unit = None then None
                  else (let rest' = (if unit \<noteq> [] then trim_start (drop (length unit) rest) else rest)
                        in Some (m @ unit, trim (case rest' of c # r \<Rightarrow> if c = 36 then r else c # r | [] \<Rightarrow> [])))))"

fun pieces_of :: "jstr \<Rightarrow> jstr list" where
  "pieces_of [] = [[]]"
| "pieces_of (c # s) = (if c = 46 \<or> c = 44 then [] # pieces_of s
     else case pieces_of s of p # ps \<Rightarrow> (c # p) # ps | [] \<Rightarrow> [[c]])"

definition last_index :: "code_unit \<Rightarrow> jstr \<Rightarrow> int" where
  "last_index c s = int (length s) - 1 - int (length (takeWhile (\<lambda>x. x \<noteq> c) (rev s)))"

definition is_separator :: "code_unit \<Rightarrow> bool" where
  "is_separator c \<longleftrightarrow> c = 46 \<or> c = 44"

text \<open>\<open>None\<close> is \<^verbatim>\<open>NaN\<close>; the numerals that get here are finite.\<close>

definition money :: "jstr \<Rightarrow> double option" where
  "money input =
     (let unit = (if input \<noteq> [] \<and> list_ex (\<lambda>u. ciu_eq u (last input)) [75, 77, 66, 84]
                  then upper [last input] else []);
          value = (if unit \<noteq> [] then butlast input else input);
          factor = (if unit \<noteq> [] then money_factor unit else Some 1);
          scale = (\<lambda>n. case (js_double n, factor) of (Some x, Some f) \<Rightarrow> Some (times x f) | _ \<Rightarrow> None);
          pieces = pieces_of value;
          lastDot = last_index 46 value; lastComma = last_index 44 value
      in if list_ex (\<lambda>p. p = [] \<or> \<not> list_all is_digit p) pieces then None
         else if 0 \<le> lastDot \<and> 0 \<le> lastComma then
           (let decimal = nat (max lastDot lastComma)
            in scale (filter (\<lambda>c. \<not> is_separator c) (take decimal value) @ [46] @ drop (decimal + 1) value))
         else if unit \<noteq> [] \<and> length pieces = 2 then scale (pieces ! 0 @ [46] @ pieces ! 1)
         else if 1 < length pieces \<and> list_all (\<lambda>p. length p = 3) (tl pieces) then scale (concat pieces)
         else scale (replace_first 44 46 value))"

definition percentage_re :: re where
  "percentage_re = sq [Alt Bol (Cls (\<lambda>c. \<not> is_amount_char c)),
     Grp 1 (Sq digits1 (opt (Sq (Cls is_separator) digits1))), spaces, unit 37]"

definition percentage :: "jstr \<Rightarrow> jstr option" where
  "percentage line = (case re_group percentage_re 1 line of
       None \<Rightarrow> None
     | Some m \<Rightarrow> if length m > 10 then None
         else (case js_double (replace_first 44 46 m) of
                 None \<Rightarrow> None
               | Some v \<Rightarrow> if 0 \<le> fst v \<and> at_most v 100 then Some m else None))"

subsection \<open>The reading\<close>

definition progress_line_re :: re where
  "progress_line_re = Sq Bol (sq [alts [lit_iu ''Fortschritt'', lit_iu ''Progress''], spaces, opt (unit 58), spaces,
     Grp 1 (Lazy (Cls is_dot)), unit 47, Grp 2 any, Eol])"

definition progress_at :: "jstr \<Rightarrow> jstr list \<Rightarrow> jstr option" where
  "progress_at line later = (case re_search progress_line_re line of
       None \<Rightarrow> None
     | Some (_, _, c) \<Rightarrow>
        (case (Option.bind (map_of c 1) amount_of, Option.bind (map_of c 2) amount_of) of
           (Some (left, left_rest), Some (right, right_rest)) \<Rightarrow>
             if left_rest \<noteq> [] then None
             else (case (money left, money right) of
                 (Some current, Some target) \<Rightarrow>
                   (let nextLine = (case find (\<lambda>l. l \<noteq> []) later of None \<Rightarrow> [] | Some l \<Rightarrow> l);
                        percent = (case percentage right_rest of
                            Some p \<Rightarrow> Some p
                          | None \<Rightarrow> (case percentage nextLine of
                                Some p \<Rightarrow> Some p
                              | None \<Rightarrow> if 0 < fst target
                                  then Some (show_int (min 100 (floored (times (divided current target) 100)))) else None))
                    in map_option (\<lambda>p. left @ js ''$/'' @ right @ js ''$ - '' @ p @ js ''%'') percent)
               | _ \<Rightarrow> None)
         | _ \<Rightarrow> None))"

fun read_progress :: "jstr list \<Rightarrow> jstr option" where
  "read_progress [] = None"
| "read_progress (line # later) = (case progress_at line later of Some p \<Rightarrow> Some p | None \<Rightarrow> read_progress later)"

definition multiplier_line_re :: re where
  "multiplier_line_re = Sq Bol (sq [alts [sq [lit_iu ''Aktueller'', spaces1, lit_iu ''Multiplikator''],
       sq [lit_iu ''Current'', spaces1, lit_iu ''multiplier'']], spaces, opt (unit 58), spaces,
     Grp 1 (sq [digits1, opt (Sq (Cls is_separator) digits1), Cls (\<lambda>c. ciu_eq 120 c \<or> c = 215)]), spaces, Eol])"

definition read_multiplier :: "(jstr \<Rightarrow> json option) \<Rightarrow> json \<Rightarrow> json list \<Rightarrow> (jstr \<times> jstr \<times> jstr) option" where
  "read_multiplier parse name lore =
     (let displayName = trim (one_line (tooltip_text parse name))
      in if displayName = [] \<or> length displayName > 256 then None
         else (let lines = map (\<lambda>line. trim (tooltip_text parse line)) lore
               in case (first_some (re_group multiplier_line_re 1) lines, read_progress lines) of
                    (Some multiplier, Some progress) \<Rightarrow>
                      if length multiplier \<le> 32 then Some (displayName, multiplier, progress) else None
                  | _ \<Rightarrow> None))"


section \<open>Tooltips that hold JSON end\<close>

text \<open>A text that parses is longer than all strings of its value together.\<close>

definition parses_shorter :: "(jstr \<Rightarrow> json option) \<Rightarrow> bool" where
  "parses_shorter parse \<longleftrightarrow> (\<forall>s j. parse s = Some j \<longrightarrow> json_weight j < length s)"

lemma weight_field: "json_field (JObj kvs) k = Some v \<Longrightarrow> json_weight v \<le> json_weight (JObj kvs)"
proof -
  have "map_of kvs x = Some v \<Longrightarrow> json_weight v \<le> sum_list (map (\<lambda>(_, v). json_weight v) kvs)" for x
    by (induction kvs) (auto split: if_splits)
  then show "json_field (JObj kvs) k = Some v \<Longrightarrow> json_weight v \<le> json_weight (JObj kvs)" by (simp add: json_field_def)
qed

lemma weight_element: "v \<in> set vs \<Longrightarrow> json_weight v \<le> json_weight (JArr vs)"
  by (simp add: member_le_sum_list)

lemma tooltip_fuel:
  "parses_shorter parse \<Longrightarrow> json_weight v \<le> n \<Longrightarrow> json_weight v \<le> k \<Longrightarrow> tooltip_at parse n v = tooltip_at parse k v"
proof (induction parse n v arbitrary: k rule: tooltip_at.induct)
  case (1 parse n s)
  show ?case
  proof (cases "if opens_json s then parse s else None")
    case (Some j)
    then have "parse s = Some j" by (simp split: if_splits)
    then have "json_weight j < length s" using 1(2) by (simp add: parses_shorter_def)
    then obtain n' k' where nk: "n = Suc n'" "k = Suc k'" "json_weight j \<le> n'" "json_weight j \<le> k'"
      using 1(3,4) by (cases n; cases k) auto
    show ?thesis using 1(1) [OF Some nk(1) 1(2) nk(3,4)] by (simp add: Some nk(1,2))
  qed simp
next
  case (2 parse n vs)
  have "tooltip_at parse n v = tooltip_at parse k v" if "v \<in> set vs" for v
    using 2(1) [OF that 2(2)] weight_element [OF that] 2(3,4) by (meson order_trans)
  then show ?case by (simp cong: map_cong)
next
  case (3 parse n kvs)
  have "tooltip_at parse n v = tooltip_at parse k v" if "json_field (JObj kvs) ''text'' = Some v" for v
    using 3(1) [OF that 3(5)] weight_field [OF that] 3(6,7) by (meson order_trans)
  moreover have "tooltip_at parse n v = tooltip_at parse k v"
    if "json_field (JObj kvs) ''extra'' = Some v" "v \<noteq> JNull" for v
    using 3(4) [OF that 3(5)] weight_field [OF that(1)] 3(6,7) by (meson order_trans)
  moreover have "tooltip_at parse n w = tooltip_at parse k w"
    if "json_field (JObj kvs) ''extra'' = Some v" "v = JNull" "json_field (JObj kvs) ''rawtext'' = Some w" for v w
    using 3(3) [OF that 3(5)] weight_field [OF that(3)] 3(6,7) by (meson order_trans)
  moreover have "tooltip_at parse n w = tooltip_at parse k w"
    if "json_field (JObj kvs) ''extra'' = None" "json_field (JObj kvs) ''rawtext'' = Some w" for w
    using 3(2) [OF that 3(5)] weight_field [OF that(2)] 3(6,7) by (meson order_trans)
  ultimately show ?case by (simp split: option.splits)
qed simp_all

section \<open>Amounts and percentages\<close>

lemma half_even_nonneg: "0 \<le> n \<Longrightarrow> 0 < d \<Longrightarrow> 0 \<le> half_even n d"
  by (simp add: half_even_def Let_def pos_imp_zdiv_nonneg_iff)

lemma round_ratio_nonneg: "0 \<le> n \<Longrightarrow> 0 < d \<Longrightarrow> 0 \<le> fst (round_ratio n d)"
  by (auto simp: round_ratio_def Let_def intro!: half_even_nonneg)

lemma times_nonneg: "0 \<le> fst x \<Longrightarrow> 0 \<le> k \<Longrightarrow> 0 \<le> fst (times x k)"
  using round_ratio_nonneg [of "fst x * k" 1] by (cases "round_ratio (fst x * k) 1") (simp add: times_def)

lemma divided_nonneg: "0 \<le> fst x \<Longrightarrow> 0 < fst y \<Longrightarrow> 0 \<le> fst (divided x y)"
  using round_ratio_nonneg [of "fst x" "fst y"] by (cases "round_ratio (fst x) (fst y)") (simp add: divided_def)

lemma floored_nonneg: "0 \<le> fst x \<Longrightarrow> 0 \<le> floored x"
  by (simp add: floored_def pos_imp_zdiv_nonneg_iff)

lemma digits_val_nonneg: "list_all is_digit ds \<Longrightarrow> 0 \<le> digits_val ds"
proof -
  have "list_all is_digit ds \<Longrightarrow> 0 \<le> a \<Longrightarrow> 0 \<le> foldl (\<lambda>acc d. 10 * acc + (d - 48)) a ds" for a
    by (induction ds arbitrary: a) (auto simp: is_digit_def)
  then show "list_all is_digit ds \<Longrightarrow> 0 \<le> digits_val ds" by simp
qed

lemma js_double_nonneg: "js_double s = Some x \<Longrightarrow> 0 \<le> fst x"
  by (auto simp: js_double_def split: prod.splits option.splits if_splits simp del: digits_val.simps
      intro!: round_ratio_nonneg digits_val_nonneg)

lemma money_nonneg: "money t = Some x \<Longrightarrow> 0 \<le> fst x"
proof -
  have f: "money_factor u = Some k \<Longrightarrow> 0 \<le> k" for u k
    by (auto simp: money_factor_def split: if_splits)
  show "money t = Some x \<Longrightarrow> 0 \<le> fst x"
    unfolding money_def Let_def
    by (auto split: if_splits option.splits intro!: times_nonneg dest: js_double_nonneg f)
qed

lemma show_nat_digits: "list_all is_digit (show_nat n) \<and> show_nat n \<noteq> []"
  by (induction n rule: show_nat.induct) (subst (1 2) show_nat.simps, simp, auto simp: is_digit_def list_all_iff)

lemma show_nat_length: "n < 10 ^ Suc k \<Longrightarrow> length (show_nat n) \<le> Suc k"
proof (induction k arbitrary: n)
  case (Suc k)
  then have "n div 10 < 10 ^ Suc k" by (simp add: less_mult_imp_div_less)
  then show ?case using Suc.IH [of "n div 10"] by (subst show_nat.simps) simp
qed (subst show_nat.simps, simp)

abbreviation percent_word :: re where
  "percent_word \<equiv> Sq digits1 (opt (Sq (Cls is_separator) digits1))"

lemma percentage_word: "percentage l = Some m \<Longrightarrow> length m \<le> 10 \<and> re_lang percent_word m"
proof -
  assume a: "percentage l = Some m"
  then have m: "re_group percentage_re 1 l = Some m" "length m \<le> 10"
    by (auto simp: percentage_def split: option.splits if_splits)
  show ?thesis using group_is_lang [OF m(1)] m(2) by (auto simp: percentage_re_def)
qed

lemma computed_percentage:
  assumes "0 \<le> k" shows "length (show_int (min 100 k)) \<le> 10 \<and> re_lang percent_word (show_int (min 100 k))"
proof -
  have n: "nat (min 100 k) < 10 ^ Suc 2" by simp
  have "show_int (min 100 k) = show_nat (nat (min 100 k))" using assms by (auto simp: show_int_def min_def)
  then show ?thesis using show_nat_digits [of "nat (min 100 k)"] show_nat_length [OF n] by auto
qed

lemma amount_word:
  assumes "amount_of i = Some (t, r)"
  shows "length t \<le> 33 \<and> re_lang money_unit_re (t @ [36])"
proof -
  define t0 where "t0 = (case trim i of c # r \<Rightarrow> if c = 36 then trim_start r else c # r | [] \<Rightarrow> [])"
  define m where "m = takeWhile is_amount_char t0"
  define u where "u = upper (takeWhile is_unit_char (trim_start (drop (length m) t0)))"
  note am = assms [unfolded amount_of_def Let_def, folded t0_def, folded m_def, folded u_def]
  have t: "t = m @ u" "m \<noteq> []" "is_digit (hd m)" "length m \<le> 32" "u = [] \<or> money_factor u \<noteq> None"
    using am by (simp_all split: if_splits)
  have t': "list_all is_amount_char m" by (auto simp: m_def list_all_iff dest: set_takeWhileD)
  obtain d ds where m: "m = d # ds" using t(2) by (cases m) auto
  have u: "u = [] \<or> u = [75] \<or> u = [77] \<or> u = [66] \<or> u = [84]"
    using t(5) by (auto simp: money_factor_def js_def split: if_splits)
  have "re_lang (opt (Cls (\<lambda>c. ciu_eq 107 c \<or> ciu_eq 109 c \<or> ciu_eq 98 c \<or> ciu_eq 116 c))) u"
    using u by (auto simp: ciu_eq_def ci_eq_def)
  moreover have "list_all (\<lambda>c. is_digit c \<or> c = 46 \<or> c = 44) ds" using t' by (simp add: m list_all_iff is_amount_char_def)
  moreover have "is_digit d" using t(3) by (simp add: m)
  ultimately have "re_lang money_unit_re ([d] @ ds @ u @ [36] @ [])"
    unfolding money_unit_re_def lang_sq re_lang_simps lang_Star_Cls lang_unit by blast
  then show ?thesis using t(4) u by (auto simp: t(1) m)
qed

section \<open>What is read is accepted\<close>

lemma progress_parts:
  assumes "progress_at l later = Some p"
  shows "\<exists>i a ar k b br q. amount_of i = Some (a, ar) \<and> amount_of k = Some (b, br)
    \<and> length q \<le> 10 \<and> re_lang percent_word q \<and> p = a @ js ''$/'' @ b @ js ''$ - '' @ q @ js ''%''"
proof -
  obtain x y c where c: "re_search progress_line_re l = Some (x, y, c)"
    using assms by (auto simp: progress_at_def split: option.splits)
  define g1 g2 where g: "g1 = Option.bind (map_of c 1) amount_of" "g2 = Option.bind (map_of c 2) amount_of"
  define nx where "nx = (case find (\<lambda>l. l \<noteq> []) later of None \<Rightarrow> [] | Some l \<Rightarrow> l)"
  note pa = assms [unfolded progress_at_def c option.case prod.case Let_def, folded g nx_def]
  obtain a ar b br where ab: "g1 = Some (a, ar)" "g2 = Some (b, br)"
    using pa by (cases g1; cases g2) auto
  obtain i k where ik: "amount_of i = Some (a, ar)" "amount_of k = Some (b, br)"
    using ab unfolding g bind_eq_Some_conv by blast
  note pb = pa [unfolded ab prod.case option.case]
  have ar: "ar = []" using pb by (simp split: if_splits)
  obtain m n where mn: "money a = Some m" "money b = Some n"
    using pb ar by (cases "money a"; cases "money b") auto
  note pc = pb [unfolded mn prod.case option.case ar]
  obtain q where q: "p = a @ js ''$/'' @ b @ js ''$ - '' @ q @ js ''%''"
      "percentage br = Some q \<or> percentage nx = Some q
        \<or> (0 < fst n \<and> q = show_int (min 100 (floored (times (divided m n) 100))))"
    using pc by (cases "percentage br"; cases "percentage nx"; cases "0 < fst n") auto
  have "length q \<le> 10 \<and> re_lang percent_word q" using q(2)
  proof (elim disjE conjE)
    assume "0 < fst n" and e: "q = show_int (min 100 (floored (times (divided m n) 100)))"
    then show ?thesis unfolding e using money_nonneg [OF mn(1)]
      by (intro computed_percentage floored_nonneg times_nonneg divided_nonneg) simp_all
  qed (rule percentage_word, assumption)+
  then show ?thesis using ik q(1) by blast
qed

lemma progress_word:
  assumes "progress_at l later = Some p"
  shows "length p \<le> 96 \<and> re_test progress_re p"
proof -
  obtain i a ar k b br q where ab: "amount_of i = Some (a, ar)" "amount_of k = Some (b, br)"
      and q: "length q \<le> 10" "re_lang percent_word q" and p: "p = a @ js ''$/'' @ b @ js ''$ - '' @ q @ js ''%''"
    using progress_parts [OF assms] by blast
  let ?opt = "opt (sq [Cls (\<lambda>c. c = 46 \<or> c = 44), digits1])"
  let ?rs = "[money_unit_re, unit 47, money_unit_re, lit '' - '', digits1, ?opt, unit 37]"
  obtain x y where xy: "q = x @ y" "re_lang digits1 x" "re_lang (opt (Sq (Cls is_separator) digits1)) y"
    using q(2) unfolding re_lang_simps(3) by blast
  have "is_separator = (\<lambda>c. c = 46 \<or> c = 44)" by (auto simp: is_separator_def)
  then have y: "re_lang ?opt y" using xy(3) by (auto simp: sq_def)
  have w: "p = (a @ [36]) @ [47] @ (b @ [36]) @ js '' - '' @ x @ y @ [37] @ []" by (simp add: p xy(1) js_def)
  have cons: "re_lang r u \<Longrightarrow> re_lang (sq rs) v \<Longrightarrow> re_lang (sq (r # rs)) (u @ v)" for r rs u v
    unfolding lang_sq by blast
  have "re_lang (sq ?rs) p"
    unfolding w by (intro cons) (use amount_word [OF ab(1)] amount_word [OF ab(2)] xy(2) y in
      \<open>simp_all del: lang_sq add: lang_sq(1)\<close>)
  moreover have "list_all plain ?rs" by (simp add: money_unit_re_def)
  ultimately have "re_test (Sq Bol (sq (?rs @ [Eol]))) p" by (simp only: test_whole)
  moreover have "length p \<le> 96" using amount_word [OF ab(1)] amount_word [OF ab(2)] q(1) by (simp add: p js_def)
  ultimately show ?thesis by (simp add: progress_re_def)
qed

lemma read_progress_word: "read_progress ls = Some p \<Longrightarrow> length p \<le> 96 \<and> re_test progress_re p"
  by (induction ls) (auto split: option.splits dest: progress_word)

lemma multiplier_word:
  assumes "re_group multiplier_line_re 1 l = Some m"
  shows "re_test multiplier_re m"
proof -
  let ?rs = "[digits1, opt (sq [Cls (\<lambda>c. c = 46 \<or> c = 44), digits1]), Cls (\<lambda>c. ciu_eq 120 c \<or> c = 215)]"
  have sep: "is_separator = (\<lambda>c. c = 46 \<or> c = 44)" by (auto simp: is_separator_def)
  have "re_lang (sq [digits1, opt (Sq (Cls is_separator) digits1), Cls (\<lambda>c. ciu_eq 120 c \<or> c = 215)]) m"
    using group_is_lang [OF assms] by (auto simp: multiplier_line_re_def simp del: lang_sq)
  then have "re_lang (sq ?rs) m" by (auto simp: sep)
  moreover have "list_all plain ?rs" by simp
  ultimately have "re_test (Sq Bol (sq (?rs @ [Eol]))) m" by (simp only: test_whole)
  then show ?thesis by (simp add: multiplier_re_def)
qed

lemma dropWhile_idem: "dropWhile P (dropWhile P s) = dropWhile P s"
  by (induction s) auto

lemma trim_trim: "trim s \<noteq> [] \<Longrightarrow> trim (trim s) \<noteq> []"
proof -
  assume "trim s \<noteq> []"
  then have h: "\<not> is_space (hd (rev (trim s)))" "trim s \<noteq> []" by (simp_all add: trim_def hd_dropWhile)
  then have "\<exists>c \<in> set (trim s). \<not> is_space c" by (metis hd_in_set rev_is_Nil_conv set_rev)
  then obtain c where c: "c \<in> set (trim s)" "\<not> is_space c" by blast
  have keep: "c \<in> set (dropWhile is_space w)" if "c \<in> set w" for w
    using that c(2) by (induction w) auto
  have "c \<in> set (trim (trim s))" unfolding trim_def [of "trim s"] set_rev using c(1) by (intro keep) (simp add: keep)
  then show ?thesis by auto
qed

text \<open>
  C18. The bot process and the supervisor agree on what a multiplier reading is: every entry that the bot
  reads from a tooltip passes the checks that the supervisor makes before it prints the entries.
\<close>

theorem readings_are_accepted:
  assumes "read_multiplier parse name lore = Some (n, m, p)"
  shows "read_entry (JObj [(js ''name'', JStr n), (js ''multiplier'', JStr m), (js ''progress'', JStr p)]) = Some (n, m, p)"
proof -
  define d where "d = trim (one_line (tooltip_text parse name))"
  define ls where "ls = map (\<lambda>line. trim (tooltip_text parse line)) lore"
  have *: "n = d" "d \<noteq> []" "length d \<le> 256" "length m \<le> 32" "read_progress ls = Some p"
      "first_some (re_group multiplier_line_re 1) ls = Some m"
    using assms by (auto simp: read_multiplier_def Let_def d_def [symmetric] ls_def [symmetric] split: if_splits option.splits)
  have "trim d \<noteq> []" using *(2) unfolding d_def by (rule trim_trim)
  moreover have "re_test multiplier_re m" using first_some_SomeD [OF *(6)] multiplier_word by blast
  moreover have "length p \<le> 96 \<and> re_test progress_re p" by (rule read_progress_word [OF *(5)])
  ultimately show ?thesis using * by (simp add: read_entry_def json_field_def)
qed


text \<open>
  The fallback percentage is computed on doubles and rounded down, so an exact number of percent can lose
  one: 29 of 100 is shown as 28 percent.
\<close>

lemma twenty_nine_of_hundred:
  "floored (times (divided (29 * 2 ^ 48, - 48) (100 * 2 ^ 46, - 46)) 100) = 28"
  by code_simp

definition demo_lore :: "json list" where
  "demo_lore = [JStr (js ''Aktueller Multiplikator: 1,5x''), JStr (js ''Fortschritt: 29$/100$'')]"

lemma exact_percentage_is_shown_one_less:
  "read_multiplier (\<lambda>_. None) (JStr (js ''Erze'')) demo_lore
     = Some (js ''Erze'', js ''1,5x'', js ''29$/100$ - 28%'')"
  by code_simp

theorem readings_are_accepted_witness:
  "read_entry (JObj [(js ''name'', JStr (js ''Erze'')), (js ''multiplier'', JStr (js ''1,5x'')),
     (js ''progress'', JStr (js ''29$/100$ - 28%''))]) = Some (js ''Erze'', js ''1,5x'', js ''29$/100$ - 28%'')"
  by (rule readings_are_accepted [OF exact_percentage_is_shown_one_less])

end
