(* ===== verification/Bedrock_Inventory.thy ===== *)
theory Bedrock_Inventory
  imports Bedrock_Sender Sell_Multipliers
begin

text \<open>
  \<^verbatim>\<open>backend/src/bedrock-bot/inventory.ts\<close>: the inventory of a Bedrock bot and the automation of the sell menu.
  A JavaScript array of items is a list of options, \<open>None\<close> for the holes that an assignment past the end
  leaves. A position is its three finite coordinates, \<open>None\<close> when one is missing. The sender that all parts
  of the bot share is kept in \<open>iv_sender\<close>.
\<close>

section \<open>Definitions\<close>

type_synonym slots = "item option list"
type_synonym place = "rat \<times> rat \<times> rat"

record container =
  ct_id :: window
  ct_type :: jstr
  ct_items :: "slots option"
  ct_owned :: bool
  ct_position :: "place option"
  ct_manual :: bool
  ct_title :: "jstr option"

record pending =
  pd_id :: int
  pd_source :: nat
  pd_destination :: nat
  pd_item :: item
  pd_sent :: int

record scan =
  sc_deadline :: int
  sc_window :: "window option"

definition SELL_MENU_TIMEOUT_MS :: int where
  "SELL_MENU_TIMEOUT_MS = 500"

definition present :: "item option \<Rightarrow> bool" where
  "present x = (case x of None \<Rightarrow> False
     | Some i \<Rightarrow> network_id i \<noteq> 0 \<and> (case it_count i of None \<Rightarrow> False | Some c \<Rightarrow> 0 < c))"

definition section_sign_re :: re where
  "section_sign_re = Sq (unit 167) (Cls is_dot)"

definition sell_title :: "bot_env \<Rightarrow> jstr \<Rightarrow> bool" where
  "sell_title e title \<longleftrightarrow> to_lower (blow e) (trim (re_remove section_sign_re title)) \<in> {js ''items verkaufen'', js ''sell''}"

definition player_window :: "window \<Rightarrow> bool" where
  "player_window w \<longleftrightarrow> w = W_number 0 \<or> w = W_name (js ''inventory'')"

definition multiplier_title :: "bot_env \<Rightarrow> jstr option \<Rightarrow> bool" where
  "multiplier_title e title \<longleftrightarrow>
     to_lower (blow e) (filter (\<lambda>c. \<not> is_space c)
       (tooltip_text (bparse e) (case title of None \<Rightarrow> JNull | Some t \<Rightarrow> JStr t))) = js ''sellmulti''"

definition unwrap :: "json option \<Rightarrow> json option" where
  "unwrap v = (case v of
       Some (JObj kvs) \<Rightarrow> (case json_field (JObj kvs) ''value'' of Some w \<Rightarrow> Some w | None \<Rightarrow> v)
     | _ \<Rightarrow> v)"

definition field_of :: "json option \<Rightarrow> string \<Rightarrow> json option" where
  "field_of v k = (case v of None \<Rightarrow> None | Some j \<Rightarrow> json_field j k)"

definition defined_or :: "json option \<Rightarrow> json option \<Rightarrow> json option" where
  "defined_or a b = (case a of None \<Rightarrow> b | Some JNull \<Rightarrow> b | Some j \<Rightarrow> Some j)"

definition multiplier_tooltip :: "item option \<Rightarrow> json \<times> json list" where
  "multiplier_tooltip item =
     (if \<not> present item then (JStr [], [])
      else (let tag = field_of (it_extra (the item)) ''nbt'';
                root = unwrap (defined_or (field_of tag ''nbt'') tag);
                display = unwrap (field_of root ''display'');
                lore = unwrap (unwrap (field_of display ''Lore''))
            in (case unwrap (field_of display ''Name'') of None \<Rightarrow> JNull | Some j \<Rightarrow> j,
                case lore of Some (JArr ls) \<Rightarrow> ls | _ \<Rightarrow> [])))"

definition multiplier_item :: "bot_env \<Rightarrow> item option \<Rightarrow> (jstr \<times> jstr \<times> jstr) option" where
  "multiplier_item e item = (case multiplier_tooltip item of (name, lore) \<Rightarrow> read_multiplier (bparse e) name lore)"

text \<open>The first code points of a string.\<close>

fun take_points :: "nat \<Rightarrow> jstr \<Rightarrow> jstr" where
  "take_points 0 s = []"
| "take_points (Suc n) [] = []"
| "take_points (Suc n) [a] = [a]"
| "take_points (Suc n) (a # b # s) =
     (if 55296 \<le> a \<and> a \<le> 56319 \<and> 56320 \<le> b \<and> b \<le> 57343 then a # b # take_points n s
      else a # take_points n (b # s))"

definition bounded_text :: "bot_env \<Rightarrow> json \<Rightarrow> jstr" where
  "bounded_text e v = take_points 160 (one_line (tooltip_text (bparse e) v))"

record inventory =
  iv_player :: "slots option"
  iv_container :: "container option"
  iv_requested :: "int option"
  iv_targets :: "nat list option"
  iv_pending :: "pending option"
  iv_next_id :: int
  iv_opened :: int
  iv_guard :: int
  iv_cancelled :: int
  iv_titles :: "(place, jstr) jmap"
  iv_failed :: "int option"
  iv_needs_full :: bool
  iv_hotbar :: nat
  iv_scan :: "scan option"
  iv_sender :: sender

definition new_inventory :: "sender \<Rightarrow> inventory" where
  "new_inventory sd = \<lparr>iv_player = None, iv_container = None, iv_requested = None, iv_targets = None, iv_pending = None,
     iv_next_id = - 1, iv_opened = 0, iv_guard = 0, iv_cancelled = 0, iv_titles = [], iv_failed = None,
     iv_needs_full = False, iv_hotbar = 0, iv_scan = None, iv_sender = sd\<rparr>"

definition owned :: "inventory \<Rightarrow> bool" where
  "owned s \<longleftrightarrow> (case iv_container s of None \<Rightarrow> False | Some c \<Rightarrow> ct_owned c)"

definition busy :: "inventory \<Rightarrow> bool" where
  "busy s \<longleftrightarrow> iv_requested s \<noteq> None \<or> owned s"

definition blocked :: "inventory \<Rightarrow> bool" where
  "blocked s \<longleftrightarrow> iv_container s \<noteq> None \<and> \<not> owned s"

definition synchronized :: "inventory \<Rightarrow> bool" where
  "synchronized s \<longleftrightarrow> \<not> iv_needs_full s"

definition reading_multipliers :: "inventory \<Rightarrow> bool" where
  "reading_multipliers s \<longleftrightarrow> iv_scan s \<noteq> None"

definition mouse_blocked :: "inventory \<Rightarrow> bool" where
  "mouse_blocked s \<longleftrightarrow> iv_container s \<noteq> None \<or> iv_needs_full s"

definition item_at :: "slots option \<Rightarrow> nat \<Rightarrow> item option" where
  "item_at xs i = (case xs of None \<Rightarrow> None | Some l \<Rightarrow> if i < length l then l ! i else None)"

definition mouse_hand :: "inventory \<Rightarrow> (nat \<times> item) option" where
  "mouse_hand s = (case item_at (iv_player s) (iv_hotbar s) of
       None \<Rightarrow> None | Some i \<Rightarrow> if iv_needs_full s then None else Some (iv_hotbar s, i))"

definition set_slot :: "nat \<Rightarrow> item \<Rightarrow> slots \<Rightarrow> slots" where
  "set_slot i x xs = (if i < length xs then xs[i := Some x] else xs @ replicate (i - length xs) None @ [Some x])"

definition say :: "bot_out \<Rightarrow> inventory \<Rightarrow> inventory" where
  "say x s = s\<lparr>iv_sender := emit x (iv_sender s)\<rparr>"

definition clear_work :: "inventory \<Rightarrow> inventory" where
  "clear_work s = s\<lparr>iv_requested := None, iv_targets := None, iv_pending := None\<rparr>"

definition on_equipment :: "int option \<Rightarrow> item \<Rightarrow> inventory \<Rightarrow> inventory" where
  "on_equipment slot item s = (case slot of
       None \<Rightarrow> s
     | Some k \<Rightarrow> if k < 0 \<or> k > 8 then s
         else (let s1 = s\<lparr>iv_hotbar := nat k\<rparr>
               in case iv_player s1 of
                    Some p \<Rightarrow> if iv_needs_full s1 then s1 else s1\<lparr>iv_player := Some (set_slot (nat k) item p)\<rparr>
                  | None \<Rightarrow> s1))"

definition request_multipliers :: "int \<Rightarrow> inventory \<Rightarrow> inventory" where
  "request_multipliers t s = s\<lparr>iv_guard := 0, iv_scan := Some \<lparr>sc_deadline = t + 10000, sc_window = None\<rparr>\<rparr>"

definition request :: "int \<Rightarrow> inventory \<Rightarrow> inventory" where
  "request t s = s\<lparr>iv_cancelled := 0, iv_requested := Some t, iv_targets := None\<rparr>"

definition cancel_scan :: "inventory \<Rightarrow> inventory" where
  "cancel_scan s = (if iv_scan s = None then s
     else say (Warned (js ''Desmo: Auslesen durch neuen Command oder Weltwechsel abgebrochen'')) s)\<lparr>iv_scan := None\<rparr>"

definition reset_inventory :: "inventory \<Rightarrow> inventory" where
  "reset_inventory s = clear_work ((cancel_scan s)\<lparr>iv_titles := [], iv_guard := 0, iv_cancelled := 0,
     iv_player := None, iv_container := None, iv_hotbar := 0\<rparr>)"

definition close_menu :: "bot_env \<Rightarrow> inventory \<Rightarrow> inventory" where
  "close_menu e s =
     (let s1 = (case iv_container s of
            None \<Rightarrow> s
          | Some c \<Rightarrow> s\<lparr>iv_sender := fst (send_packet e (P_close (ct_id c) (ct_type c)) (iv_sender s))\<rparr>)
      in clear_work (s1\<lparr>iv_container := None\<rparr>))"

definition scan_owned :: "bot_env \<Rightarrow> inventory \<Rightarrow> bool" where
  "scan_owned e s \<longleftrightarrow> (case (iv_container s, iv_scan s) of
       (Some c, Some q) \<Rightarrow> sc_window q = Some (ct_id c) \<and>
         (multiplier_title e (ct_title c)
          \<or> (case ct_items c of None \<Rightarrow> False | Some xs \<Rightarrow> list_ex (\<lambda>x. multiplier_item e x \<noteq> None) (take 9 xs)))
     | _ \<Rightarrow> False)"

definition interrupt :: "bot_env \<Rightarrow> bool \<Rightarrow> bool \<Rightarrow> inventory \<Rightarrow> inventory" where
  "interrupt e closeForeign manualSell s =
     (let scanOwned = scan_owned e s;
          s1 = cancel_scan s;
          s2 = (if closeForeign
                then s1\<lparr>iv_guard := bnow e + 5000,
                        iv_cancelled := (if manualSell then 0 else if busy s1 then bnow e + 10000 else iv_cancelled s1)\<rparr>
                else s1);
          s3 = (if iv_container s2 \<noteq> None \<and> (owned s2 \<or> closeForeign \<or> scanOwned) then close_menu e s2 else s2)
      in clear_work s3)"

definition invalidate_after_decode_failure :: "bot_env \<Rightarrow> inventory \<Rightarrow> inventory" where
  "invalidate_after_decode_failure e s =
     (let s1 = interrupt e False False (s\<lparr>iv_needs_full := True, iv_player := None\<rparr>)
      in s1\<lparr>iv_container := map_option (\<lambda>c. c\<lparr>ct_items := None\<rparr>) (iv_container s1), iv_cancelled := bnow e + 10000\<rparr>)"

definition clear_menu_titles :: "inventory \<Rightarrow> inventory" where
  "clear_menu_titles s = s\<lparr>iv_titles := []\<rparr>"

definition recent_request :: "int \<Rightarrow> inventory \<Rightarrow> bool" where
  "recent_request t s \<longleftrightarrow> (case iv_requested s of None \<Rightarrow> False | Some r \<Rightarrow> t - r \<le> 5000)"

definition on_open :: "bot_env \<Rightarrow> window \<Rightarrow> jstr \<Rightarrow> place option \<Rightarrow> inventory \<Rightarrow> inventory" where
  "on_open e wid wtype position s =
     (let t = bnow e;
          manual = (t < iv_guard s);
          title = (case position of None \<Rightarrow> None | Some p \<Rightarrow> map_of (iv_titles s) p);
          s1 = (case position of None \<Rightarrow> s | Some p \<Rightarrow> s\<lparr>iv_titles := AList.delete p (iv_titles s)\<rparr>);
          sells = (case title of None \<Rightarrow> False | Some n \<Rightarrow> n \<noteq> [] \<and> sell_title e n);
          own = (\<not> manual \<and> wtype = js ''container'' \<and> (recent_request t s1 \<or> sells));
          s2 = s1\<lparr>iv_container := Some \<lparr>ct_id = wid, ct_type = wtype, ct_items = None, ct_owned = own,
                    ct_position = position, ct_manual = manual, ct_title = title\<rparr>,
                  iv_scan := (if wtype = js ''container'' then map_option (\<lambda>q. q\<lparr>sc_window := Some wid\<rparr>) (iv_scan s1)
                              else iv_scan s1),
                  iv_opened := t, iv_targets := None, iv_pending := None\<rparr>
      in if sells \<and> t < iv_cancelled s2 then close_menu e s2 else s2)"

definition on_block_entity :: "bot_env \<Rightarrow> place option \<Rightarrow> jstr option \<Rightarrow> inventory \<Rightarrow> inventory" where
  "on_block_entity e position title s = (case (position, title) of
       (Some p, Some n) \<Rightarrow>
         (let t1 = AList.update p n (AList.delete p (iv_titles s));
              s1 = s\<lparr>iv_titles := (if length t1 > 16 then tl t1 else t1)\<rparr>
          in case iv_container s1 of
               Some c \<Rightarrow>
                 if ct_position c = Some p then
                   (let s2 = s1\<lparr>iv_container := Some (c\<lparr>ct_title := Some n,
                          ct_owned := (ct_type c = js ''container'' \<and> \<not> ct_manual c
                            \<and> (sell_title e n \<or> recent_request (bnow e) s1))\<rparr>),
                        iv_titles := AList.delete p (iv_titles s1)\<rparr>
                    in if sell_title e n \<and> bnow e < iv_cancelled s2 then close_menu e s2 else s2)
                 else s1
             | None \<Rightarrow> s1)
     | _ \<Rightarrow> s)"

definition on_close :: "window \<Rightarrow> inventory \<Rightarrow> inventory" where
  "on_close wid s =
     (if map_option ct_id (iv_container s) \<noteq> Some wid then s
      else (let s1 = (case iv_scan s of
                  Some q \<Rightarrow> if sc_window q = Some wid then cancel_scan s else s
                | None \<Rightarrow> s)
            in clear_work (s1\<lparr>iv_container := None\<rparr>)))"

subsection \<open>Reading the sales multipliers\<close>

definition associated :: "scan \<Rightarrow> container option \<Rightarrow> bool" where
  "associated q menu = (case menu of None \<Rightarrow> False
     | Some c \<Rightarrow> sc_window q = Some (ct_id c) \<and> ct_type c = js ''container'')"

text \<open>A hole stays a hole under \<^verbatim>\<open>map\<close>, and \<^verbatim>\<open>every\<close> and \<^verbatim>\<open>some\<close> skip it.\<close>

definition scan_entries :: "bot_env \<Rightarrow> scan \<Rightarrow> container option \<Rightarrow> (jstr \<times> jstr \<times> jstr) option option list" where
  "scan_entries e q menu = (case menu of
       Some c \<Rightarrow> (case ct_items c of
           Some xs \<Rightarrow> if associated q menu \<and> 9 \<le> length xs \<and> length xs \<le> 54 \<and> length xs mod 9 = 0
             then map (map_option (\<lambda>i. multiplier_item e (Some i))) (take 9 xs) else []
         | None \<Rightarrow> [])
     | None \<Rightarrow> [])"

definition window_text :: "window option \<Rightarrow> jstr" where
  "window_text w = (case w of None \<Rightarrow> js ''null'' | Some (W_number n) \<Rightarrow> show_int n | Some (W_name n) \<Rightarrow> n)"

fun find_index :: "('a \<Rightarrow> bool) \<Rightarrow> 'a list \<Rightarrow> nat option" where
  "find_index P [] = None"
| "find_index P (x # xs) = (if P x then Some 0 else map_option Suc (find_index P xs))"

definition scan_detail :: "bot_env \<Rightarrow> scan \<Rightarrow> container option \<Rightarrow> jstr" where
  "scan_detail e q menu = (case menu of
       None \<Rightarrow> js ''kein Men'' @ [252] @ js '' ge'' @ [246] @ js ''ffnet''
     | Some c \<Rightarrow>
        (let xs = (case ct_items c of None \<Rightarrow> [] | Some l \<Rightarrow> take 9 l);
             readable = length (filter (\<lambda>x. x \<noteq> None \<and> multiplier_item e x \<noteq> None) xs);
             detail = js ''Men'' @ [252] @ js ''-ID '' @ window_text (Some (ct_id c)) @ js '' (erwartet ''
               @ window_text (sc_window q) @ js ''); Titel ''
               @ bstringify e (JStr (bounded_text e (case ct_title c of None \<Rightarrow> JNull | Some t \<Rightarrow> JStr t))) @ js ''; ''
               @ show_nat (case ct_items c of None \<Rightarrow> 0 | Some l \<Rightarrow> length l)
               @ js '' GUI-Slots; Tooltips vollst'' @ [228] @ js ''ndig '' @ show_nat readable @ js ''/9''
         in case find_index (\<lambda>x. multiplier_item e x = None) xs of
              None \<Rightarrow> detail
            | Some i \<Rightarrow> (case multiplier_tooltip (xs ! i) of (name, lore) \<Rightarrow>
                detail @ js ''; Slot '' @ show_nat (i + 1) @ js '': Name '' @ bstringify e (JStr (bounded_text e name))
                  @ js '', Lore '' @ bstringify e (JArr (map (\<lambda>l. JStr (bounded_text e l)) (take 6 lore))))))"

definition tick_multipliers :: "bot_env \<Rightarrow> inventory \<Rightarrow> inventory" where
  "tick_multipliers e s = (case iv_scan s of
       None \<Rightarrow> s
     | Some q \<Rightarrow>
        (let menu = iv_container s; entries = scan_entries e q menu
         in if length entries = 9 \<and> list_all (\<lambda>x. x \<noteq> Some None) entries
            then say (Multipliers (map (\<lambda>x. case x of None \<Rightarrow> None | Some y \<Rightarrow> y) entries))
                   (close_menu e (s\<lparr>iv_scan := None\<rparr>))
            else if bnow e \<ge> sc_deadline q then
              (let s1 = s\<lparr>iv_scan := None\<rparr>;
                   s2 = (if associated q menu \<and> (multiplier_title e (ct_title (the menu))
                            \<or> list_ex (\<lambda>x. x \<noteq> None \<and> x \<noteq> Some None) entries)
                         then close_menu e s1 else s1)
               in say (Warned (js ''Desmo: SELL MULTI nicht vollst'' @ [228] @ js ''ndig lesbar (10s Timeout); ''
                    @ scan_detail e q menu @ js ''; keine unvollst'' @ [228] @ js ''ndigen Ergebnisse ausgegeben'')) s2)
            else s))"

subsection \<open>Inventory packets\<close>

definition confirm_legacy :: "inventory \<Rightarrow> inventory" where
  "confirm_legacy s = (case iv_pending s of
       None \<Rightarrow> s
     | Some p \<Rightarrow>
         if sd_authoritative (iv_sender s) then s
         else if \<not> present (item_at (iv_player s) (pd_source p))
               \<and> present (item_at (Option.bind (iv_container s) ct_items) (pd_destination p))
         then s\<lparr>iv_pending := None\<rparr> else s)"

definition on_content :: "window \<Rightarrow> item list option \<Rightarrow> inventory \<Rightarrow> inventory" where
  "on_content wid input s = (case input of
       None \<Rightarrow> s
     | Some xs \<Rightarrow>
         if player_window wid then
           (if iv_needs_full s \<and> length xs < 36 then s
            else confirm_legacy (s\<lparr>iv_player := Some (map Some xs), iv_needs_full := False\<rparr>))
         else case iv_container s of
             Some c \<Rightarrow> confirm_legacy (if ct_id c = wid then s\<lparr>iv_container := Some (c\<lparr>ct_items := Some (map Some xs)\<rparr>)\<rparr> else s)
           | None \<Rightarrow> confirm_legacy s)"

definition on_slot :: "window \<Rightarrow> int option \<Rightarrow> item \<Rightarrow> inventory \<Rightarrow> inventory" where
  "on_slot wid slot item s = (case slot of
       None \<Rightarrow> s
     | Some k \<Rightarrow>
         if k < 0 \<or> k \<ge> 256 then s
         else if player_window wid then
           (if iv_needs_full s then s
            else confirm_legacy (s\<lparr>iv_player := Some (set_slot (nat k) item
                   (case iv_player s of Some p \<Rightarrow> p | None \<Rightarrow> replicate 36 (Some empty_item)))\<rparr>))
         else case iv_container s of
             Some c \<Rightarrow> confirm_legacy
               (if ct_id c = wid
                then s\<lparr>iv_container := Some (c\<lparr>ct_items := map_option (set_slot (nat k) item) (ct_items c)\<rparr>)\<rparr> else s)
           | None \<Rightarrow> confirm_legacy s)"

definition log_failure :: "bot_env \<Rightarrow> jstr \<Rightarrow> inventory \<Rightarrow> inventory" where
  "log_failure e reason s =
     (if due (iv_failed s) 30000 (bnow e)
      then say (Behavior_log (js ''Bedrock AutoSell: '' @ reason @ js ''; versuche es weiter'')) (s\<lparr>iv_failed := Some (bnow e)\<rparr>)
      else s)"

record answered_slot =
  an_slot :: int
  an_count :: int
  an_stack :: rat

record response =
  rs_id :: int
  rs_status :: jstr
  rs_containers :: "(jstr \<times> answered_slot list) list"

definition answered_item :: "item \<Rightarrow> answered_slot \<Rightarrow> item" where
  "answered_item i a = (if an_count a = 0 then empty_item
     else i\<lparr>it_count := Some (an_count a), stack_id := Some (an_stack a),
            it_more := AList.update (js ''has_stack_id'') (JNum 1) (it_more i)\<rparr>)"

definition apply_answer :: "item \<Rightarrow> answered_slot \<Rightarrow> slots \<Rightarrow> slots" where
  "apply_answer i a xs = (if an_slot a < 0 \<or> an_slot a \<ge> int (length xs) then xs
     else xs[nat (an_slot a) := Some (answered_item i a)])"

definition apply_container :: "item \<Rightarrow> jstr \<times> answered_slot list \<Rightarrow> inventory \<Rightarrow> inventory" where
  "apply_container i kc s = (case kc of (kind, answers) \<Rightarrow>
     if kind \<in> {js ''inventory'', js ''hotbar'', js ''hotbar_and_inventory''}
     then s\<lparr>iv_player := map_option (fold (apply_answer i) answers) (iv_player s)\<rparr>
     else if kind = js ''container''
     then s\<lparr>iv_container := map_option (\<lambda>c. c\<lparr>ct_items := map_option (fold (apply_answer i) answers) (ct_items c)\<rparr>)
              (iv_container s)\<rparr>
     else s)"

definition respond :: "bot_env \<Rightarrow> response \<Rightarrow> inventory \<Rightarrow> inventory" where
  "respond e r s = (case iv_pending s of
       None \<Rightarrow> s
     | Some p \<Rightarrow>
         if pd_id p \<noteq> rs_id r then s
         else if rs_status r \<noteq> js ''ok'' then
           log_failure e (js ''Server hat einen Item-Transfer abgelehnt; '' @ [252] @ js ''berspringe diesen Slot'')
             (s\<lparr>iv_pending := None\<rparr>)
         else (fold (apply_container (pd_item p)) (rs_containers r) s)\<lparr>iv_pending := None\<rparr>)"

definition on_response :: "bot_env \<Rightarrow> response list \<Rightarrow> inventory \<Rightarrow> inventory" where
  "on_response e rs s = fold (respond e) rs s"

subsection \<open>The sell menu\<close>

definition fail_sale :: "bot_env \<Rightarrow> jstr \<Rightarrow> inventory \<Rightarrow> inventory" where
  "fail_sale e reason s = interrupt e False False (log_failure e reason s)"

definition usual_stack :: "item \<Rightarrow> rat option" where
  "usual_stack i = (case stack_id i of Some k \<Rightarrow> if \<lfloor>k\<rfloor> = \<lceil>k\<rceil> \<and> 0 < k then Some k else None | None \<Rightarrow> None)"

text \<open>The packet that moves the item \<open>i\<close> from \<open>source\<close> to the place \<open>destination\<close> of the menu.\<close>

definition transfer_packet :: "inventory \<Rightarrow> container \<Rightarrow> nat \<Rightarrow> nat \<Rightarrow> item \<Rightarrow> packet" where
  "transfer_packet s c source destination i =
     (if sd_authoritative (iv_sender s)
      then P_place (iv_next_id s) source destination (the (usual_stack i)) (min 255 (the (it_count i)))
      else P_move source i (ct_id c) destination)"

text \<open>The loop over the source slots that are left; \<open>p\<close> and \<open>xs\<close> are the two inventories.\<close>

fun sell_next :: "bot_env \<Rightarrow> container \<Rightarrow> slots \<Rightarrow> slots \<Rightarrow> nat list \<Rightarrow> inventory \<Rightarrow> inventory" where
  "sell_next e c p xs [] s = close_menu e s"
| "sell_next e c p xs (source # later) s =
     (case (if present (item_at (Some p) source) then item_at (Some p) source else None) of
        None \<Rightarrow> sell_next e c p xs later s
      | Some i \<Rightarrow> (case find_index (\<lambda>x. \<not> present x) xs of
            None \<Rightarrow> close_menu e s
          | Some destination \<Rightarrow>
             (let requestId = iv_next_id s;
                  s1 = s\<lparr>iv_next_id := requestId - 1, iv_targets := Some later\<rparr>
              in if sd_authoritative (iv_sender s) \<and> usual_stack i = None
                 then fail_sale e (js ''Stack-ID fehlt; warte auf Inventarsynchronisation'') s1
                 else (case send_packet e (transfer_packet s c source destination i) (iv_sender s1) of
                     (sd, sent) \<Rightarrow>
                       if \<not> sent then fail_sale e (js ''Item-Transfer konnte nicht gesendet werden'') (s1\<lparr>iv_sender := sd\<rparr>)
                       else s1\<lparr>iv_sender := sd, iv_pending := Some \<lparr>pd_id = requestId, pd_source = source,
                              pd_destination = destination, pd_item = i, pd_sent = bnow e\<rparr>\<rparr>))))"

definition sell_targets :: "slots \<Rightarrow> nat list" where
  "sell_targets p = filter (\<lambda>i. present (p ! i)) [0..<min 36 (length p)]"

definition tick_inventory :: "bot_env \<Rightarrow> inventory \<Rightarrow> inventory" where
  "tick_inventory e s =
     (if iv_needs_full s \<or> \<not> busy s then s
      else if \<not> owned s then
        (case iv_requested s of
           Some r \<Rightarrow> if bnow e - r \<ge> SELL_MENU_TIMEOUT_MS then interrupt e False False s else s
         | None \<Rightarrow> s)
      else if bnow e - iv_opened s \<ge> 10000
        then fail_sale e (js ''Verkaufsmen'' @ [252] @ js ''/Inventar nicht vollst'' @ [228] @ js ''ndig best'' @ [228]
               @ js ''tigt (10s Timeout)'') s
      else (case iv_pending s of
          Some p \<Rightarrow> if bnow e - pd_sent p \<ge> 2000
            then fail_sale e (js ''Item-Transfer nicht best'' @ [228] @ js ''tigt (2s Timeout)'') s else s
        | None \<Rightarrow> (case (Option.bind (iv_container s) ct_items, iv_player s) of
              (Some xs, Some p) \<Rightarrow>
                (let ts = (case iv_targets s of Some ts \<Rightarrow> ts | None \<Rightarrow> sell_targets p)
                 in sell_next e (the (iv_container s)) p xs ts (s\<lparr>iv_targets := Some ts\<rparr>))
            | _ \<Rightarrow> s)))"

end
