(* ===== verification/Bedrock_Mouse.thy ===== *)
theory Bedrock_Mouse
  imports Bedrock_Inventory "HOL-Library.Word"
begin

text \<open>
  \<^verbatim>\<open>backend/src/bedrock-bot/autoButton.ts\<close>: the held mouse button of a Bedrock bot, with the part of the world
  around the player that it needs: decoded sections of blocks, requests for missing ones, and nearby entities.
  \<^verbatim>\<open>prismarine-registry\<close> and \<^verbatim>\<open>prismarine-block\<close> are the parameter \<open>load_registry\<close>. Coordinates are exact
  rationals, where the code rounds to doubles; a \<^verbatim>\<open>Uint32Array\<close> is a list of words.
\<close>

unbundle bit_operations_syntax

section \<open>Sections of blocks\<close>

type_synonym bytes = "8 word list"

text \<open>A reader takes a position and returns a value with the next position, or fails.\<close>

type_synonym 'a reader = "nat \<Rightarrow> ('a \<times> nat) option"

definition byte_at :: "bytes \<Rightarrow> (8 word) reader" where
  "byte_at p i = (if length p \<le> i then None else Some (p ! i, i + 1))"

text \<open>The first argument counts the groups of seven bits that may still come.\<close>

fun uint_at :: "bytes \<Rightarrow> nat \<Rightarrow> 32 word \<Rightarrow> (32 word) reader" where
  "uint_at p 0 n i = None"
| "uint_at p (Suc k) n i = (case byte_at p i of
       None \<Rightarrow> None
     | Some (b, j) \<Rightarrow>
         if k = 0 \<and> 15 < b then None
         else (let m = n OR push_bit (7 * (4 - k)) (ucast (b AND 127))
               in if b AND 128 = 0 then Some (m, j) else uint_at p k m j))"

text \<open>The zigzag encoding; the value is a 32-bit integer, its unsigned reading a runtime id.\<close>

definition signed_at :: "bytes \<Rightarrow> (32 word) reader" where
  "signed_at p i = map_option (\<lambda>(n, j). (drop_bit 1 n XOR - (n AND 1), j)) (uint_at p 5 0 i)"

fun palette_at :: "bytes \<Rightarrow> nat \<Rightarrow> (32 word list) reader" where
  "palette_at p 0 i = Some ([], i)"
| "palette_at p (Suc n) i = (case signed_at p i of
       None \<Rightarrow> None
     | Some (w, j) \<Rightarrow> map_option (\<lambda>(ws, k). (w # ws, k)) (palette_at p n j))"

definition word_le :: "bytes \<Rightarrow> nat \<Rightarrow> 32 word" where
  "word_le p i = ucast (p ! i) OR push_bit 8 (ucast (p ! (i + 1))) OR push_bit 16 (ucast (p ! (i + 2)))
     OR push_bit 24 (ucast (p ! (i + 3)))"

definition block_index :: "bytes \<Rightarrow> nat \<Rightarrow> nat \<Rightarrow> nat \<Rightarrow> nat" where
  "block_index p start bits i =
     (let perWord = 32 div bits
      in unat (drop_bit (i mod perWord * bits) (word_le p (start + i div perWord * 4)) AND mask bits))"

definition storage_at :: "bytes \<Rightarrow> (32 word list) reader" where
  "storage_at p i = (case byte_at p i of
       None \<Rightarrow> None
     | Some (header, j) \<Rightarrow>
        (let bits = unat header div 2
         in if even (unat header) \<or> bits \<notin> {0, 1, 2, 3, 4, 5, 6, 8, 16} then None
            else if bits = 0 then map_option (\<lambda>(w, k). (replicate 4096 w, k)) (signed_at p j)
            else (let perWord = 32 div bits; words = (4096 + perWord - 1) div perWord
                  in if length p < j + words * 4 then None
                     else (case signed_at p (j + words * 4) of
                         None \<Rightarrow> None
                       | Some (count, k) \<Rightarrow>
                           if sint count < 1 \<or> 65536 < sint count then None
                           else (case palette_at p (nat (sint count)) k of
                               None \<Rightarrow> None
                             | Some (palette, l) \<Rightarrow>
                                 (let indices = map (block_index p j bits) [0..<4096]
                                  in if list_ex (\<lambda>x. length palette \<le> x) indices then None
                                     else Some (map (\<lambda>x. palette ! x) indices, l)))))))"

fun layers_at :: "bytes \<Rightarrow> nat \<Rightarrow> (32 word list list) reader" where
  "layers_at p 0 i = Some ([], i)"
| "layers_at p (Suc n) i = (case storage_at p i of
       None \<Rightarrow> None
     | Some (ws, j) \<Rightarrow> map_option (\<lambda>(wss, k). (ws # wss, k)) (layers_at p n j))"

record subchunk =
  su_blocks :: "32 word list"
  su_consumed :: nat
  su_y :: "int option"

text \<open>Only the first layer is kept; no layer at all means air, an empty list.\<close>

definition read_subchunk :: "bytes \<Rightarrow> subchunk option" where
  "read_subchunk p = (case byte_at p 0 of
       None \<Rightarrow> None
     | Some (version, i) \<Rightarrow>
         if version \<noteq> 8 \<and> version \<noteq> 9 then None
         else (case byte_at p i of
             None \<Rightarrow> None
           | Some (layers, j) \<Rightarrow>
              (case (if version = 9 then map_option (\<lambda>(b, k). (Some (sint b), k)) (byte_at p j) else Some (None, j)) of
                 None \<Rightarrow> None
               | Some (y, k) \<Rightarrow>
                   if 2 < layers then None
                   else map_option (\<lambda>(wss, l). \<lparr>su_blocks = (case wss of [] \<Rightarrow> [] | ws # _ \<Rightarrow> ws),
                          su_consumed = l, su_y = y\<rparr>) (layers_at p (unat layers) k))))"

definition decode_mouse_subchunk :: "bytes \<Rightarrow> 32 word list option" where
  "decode_mouse_subchunk p = map_option su_blocks (read_subchunk p)"

section \<open>Rays\<close>

definition chunk_of :: "vec \<Rightarrow> cell" where
  "chunk_of p = (\<lfloor>vx p / 16\<rfloor>, \<lfloor>vy p / 16\<rfloor>, \<lfloor>vz p / 16\<rfloor>)"

definition cell_chunk :: "cell \<Rightarrow> cell" where
  "cell_chunk c = (case c of (x, y, z) \<Rightarrow> (x div 16, y div 16, z div 16))"

definition axis_hit :: "rat \<Rightarrow> rat \<Rightarrow> rat \<Rightarrow> rat \<Rightarrow> int \<Rightarrow> int \<Rightarrow> rat \<times> rat \<times> int \<Rightarrow> (rat \<times> rat \<times> int) option" where
  "axis_hit start d low high lowFace highFace acc = (case acc of (near, far, face) \<Rightarrow>
     if \<bar>d\<bar> < 1 / 100000000 then (if start < low \<or> start > high then None else Some acc)
     else (let a = (low - start) / d; b = (high - start) / d;
               entry = min a b; exit = max a b;
               near' = (if entry > near then entry else near);
               face' = (if entry > near then (if d > 0 then lowFace else highFace) else face);
               far' = min far exit
           in if near' > far' then None else Some (near', far', face')))"

definition intersect :: "vec \<Rightarrow> vec \<Rightarrow> vec \<Rightarrow> vec \<Rightarrow> (rat \<times> int) option" where
  "intersect p d low high =
     (case Option.bind (axis_hit (vx p) (vx d) (vx low) (vx high) 4 5 (0, 6, 0))
        (\<lambda>r. Option.bind (axis_hit (vy p) (vy d) (vy low) (vy high) 0 1 r)
               (axis_hit (vz p) (vz d) (vz low) (vz high) 2 3)) of
        None \<Rightarrow> None
      | Some (near, far, face) \<Rightarrow> if far \<ge> 0 then Some (near, face) else None)"

section \<open>State\<close>

record block_type =
  bl_shapes :: "(vec \<times> vec) list"
  bl_dig :: "int \<Rightarrow> rat option"

record registry =
  rg_air :: "int option"
  rg_block :: "int \<Rightarrow> block_type option"
  rg_size :: "jstr \<Rightarrow> (rat \<times> rat) option"

record start_data =
  st_items :: "json option"
  st_hashes :: "json option"

record entity =
  en_runtime :: int
  en_unique :: "int option"
  en_position :: vec
  en_width :: rat
  en_height :: rat

record mining =
  mn_position :: cell
  mn_face :: int
  mn_runtime :: "32 word"
  mn_started :: rat
  mn_duration :: "rat option"

record mouse =
  ms_mode :: button
  ms_version :: jstr
  ms_registry :: "registry option"
  ms_start :: "start_data option"
  ms_items :: "json option"
  ms_sections :: "(cell, 32 word list) jmap"
  ms_updates :: "(cell, int) jmap"
  ms_asked :: "(cell, int) jmap"
  ms_entities :: "(int, entity) jmap"
  ms_dimension :: int
  ms_air :: "32 word"
  ms_until :: int
  ms_using :: bool
  ms_used :: bool
  ms_hand :: "(nat \<times> item) option"
  ms_release :: "packet option"
  ms_mining :: "mining option"
  ms_attack :: int

definition new_mouse :: "jstr \<Rightarrow> mouse" where
  "new_mouse version = \<lparr>ms_mode = OFF, ms_version = version, ms_registry = None, ms_start = None, ms_items = None, ms_sections = [],
     ms_updates = [], ms_asked = [], ms_entities = [], ms_dimension = 0, ms_air = 0, ms_until = 0, ms_using = False,
     ms_used = False, ms_hand = None, ms_release = None, ms_mining = None, ms_attack = 0\<rparr>"

text \<open>The library: the registry of a version for the data of the server.\<close>

type_synonym loader = "jstr \<Rightarrow> start_data option \<Rightarrow> json option \<Rightarrow> registry"

section \<open>Configuration\<close>

definition flush_release :: "bot_env \<Rightarrow> mouse \<Rightarrow> inventory \<Rightarrow> mouse \<times> inventory \<times> bool" where
  "flush_release e s iv = (case ms_release s of
       None \<Rightarrow> (s, iv, True)
     | Some p \<Rightarrow> (case send_packet e p (iv_sender iv) of
           (sd, True) \<Rightarrow> (s\<lparr>ms_release := None\<rparr>, iv\<lparr>iv_sender := sd\<rparr>, True)
         | (sd, False) \<Rightarrow> (s, iv\<lparr>iv_sender := sd\<rparr>, False)))"

definition section_slot :: "cell \<Rightarrow> nat" where
  "section_slot c = (case c of (x, y, z) \<Rightarrow> nat (x mod 16 * 256 + z mod 16 * 16 + y mod 16))"

definition on_update_block :: "cell option \<Rightarrow> int \<Rightarrow> int option \<Rightarrow> mouse \<Rightarrow> mouse" where
  "on_update_block position layer runtime s = (case (position, runtime) of
       (Some c, Some r) \<Rightarrow>
         if layer \<noteq> 0 then s
         else (case map_of (ms_sections s) (cell_chunk c) of
             None \<Rightarrow> s
           | Some ws \<Rightarrow>
               if ws = [] \<and> ms_registry s = None then
                 (let us = AList.update c r (ms_updates s)
                  in if length us > 1024 then s\<lparr>ms_updates := [], ms_sections := []\<rparr> else s\<lparr>ms_updates := us\<rparr>)
               else (let ws' = (if ws = [] then replicate 4096 (ms_air s) else ws)
                     in s\<lparr>ms_sections := AList.update (cell_chunk c) (ws'[section_slot c := word_of_int r]) (ms_sections s)\<rparr>))
     | _ \<Rightarrow> s)"

definition initialize_registry :: "loader \<Rightarrow> mouse \<Rightarrow> mouse" where
  "initialize_registry load s =
     (let rg = load (ms_version s) (ms_start s) (ms_items s);
          s1 = s\<lparr>ms_registry := Some rg, ms_air := (case rg_air rg of None \<Rightarrow> 0 | Some a \<Rightarrow> word_of_int a)\<rparr>;
          s2 = fold (\<lambda>(c, r). on_update_block (Some c) 0 (Some r)) (ms_updates s) s1
      in s2\<lparr>ms_updates := []\<rparr>)"

definition abort_break :: "mining \<Rightarrow> block_action" where
  "abort_break m = \<lparr>ba_action = js ''abort_break'', ba_position = mn_position m, ba_face = mn_face m\<rparr>"

definition prepare_release :: "mouse \<Rightarrow> inventory \<Rightarrow> mouse" where
  "prepare_release s iv =
     (let hand = (case mouse_hand iv of Some h \<Rightarrow> Some h | None \<Rightarrow> ms_hand s)
      in case (sd_position (iv_sender iv), hand) of
           (Some p, Some (slot, i)) \<Rightarrow>
             if ms_mode s = RIGHT \<and> ms_used s then s\<lparr>ms_release := Some (P_release slot i p)\<rparr> else s
         | _ \<Rightarrow> s)"

definition configure_mouse :: "loader \<Rightarrow> bot_env \<Rightarrow> button \<Rightarrow> mouse \<Rightarrow> inventory \<Rightarrow> mouse \<times> inventory" where
  "configure_mouse load e mode s iv =
     (if mode = ms_mode s then (s, iv)
      else (case flush_release e (prepare_release s iv) iv of (s2, iv2, _) \<Rightarrow>
               (let iv3 = (case ms_mining s2 of None \<Rightarrow> iv2
                      | Some m \<Rightarrow> iv2\<lparr>iv_sender := queue_block_action (abort_break m) (iv_sender iv2)\<rparr>);
                    s3 = s2\<lparr>ms_mode := mode, ms_mining := None, ms_until := 0, ms_used := False\<rparr>
                in (if mode = OFF then s3\<lparr>ms_asked := []\<rparr>
                    else if ms_registry s3 = None \<and> ms_start s3 \<noteq> None then initialize_registry load s3 else s3, iv3))))"

definition reset_mouse :: "int option \<Rightarrow> mouse \<Rightarrow> inventory \<Rightarrow> mouse \<times> inventory" where
  "reset_mouse dimension s iv =
     (s\<lparr>ms_dimension := (case dimension of None \<Rightarrow> ms_dimension s | Some d \<Rightarrow> d),
        ms_sections := [], ms_asked := [], ms_entities := [], ms_updates := [], ms_release := None, ms_hand := None,
        ms_mining := None, ms_using := False, ms_until := 0, ms_used := False\<rparr>,
      iv\<lparr>iv_sender := clear_mouse_actions (iv_sender iv)\<rparr>)"

definition teleported_mouse :: "mouse \<Rightarrow> inventory \<Rightarrow> mouse \<times> inventory" where
  "teleported_mouse s iv =
     (s\<lparr>ms_mining := None, ms_using := False, ms_until := 0, ms_used := False, ms_release := None\<rparr>,
      iv\<lparr>iv_sender := clear_mouse_actions (iv_sender iv)\<rparr>)"

definition on_start_game :: "loader \<Rightarrow> int option \<Rightarrow> start_data \<Rightarrow> mouse \<Rightarrow> inventory \<Rightarrow> mouse \<times> inventory" where
  "on_start_game load dimension d s iv =
     (case reset_mouse (Some (case dimension of None \<Rightarrow> 0 | Some k \<Rightarrow> k)) s iv of (s1, iv1) \<Rightarrow>
        (let s2 = s1\<lparr>ms_start := Some d, ms_registry := None\<rparr>
         in (if ms_mode s2 \<noteq> OFF then initialize_registry load s2 else s2, iv1)))"

definition on_item_registry :: "loader \<Rightarrow> json option \<Rightarrow> mouse \<Rightarrow> mouse" where
  "on_item_registry load states s =
     (let s1 = (case states of Some (JArr xs) \<Rightarrow> s\<lparr>ms_items := Some (JArr xs)\<rparr> | _ \<Rightarrow> s)
      in if ms_registry s1 \<noteq> None then initialize_registry load s1 else s1)"

section \<open>The world around the player\<close>

definition nearby :: "vec option \<Rightarrow> cell \<Rightarrow> bool" where
  "nearby position c = (case position of None \<Rightarrow> False
     | Some p \<Rightarrow> (case (chunk_of p, c) of ((x, y, z), (a, b, d)) \<Rightarrow> \<bar>a - x\<bar> \<le> 1 \<and> \<bar>b - y\<bar> \<le> 1 \<and> \<bar>d - z\<bar> \<le> 1))"

record subchunk_entry =
  se_offset :: cell
  se_result :: jstr
  se_payload :: "bytes option"

definition store_entry :: "vec option \<Rightarrow> cell \<Rightarrow> subchunk_entry \<Rightarrow> mouse \<Rightarrow> mouse" where
  "store_entry position start en s = (case (start, se_offset en) of ((x, y, z), (dx, dy, dz)) \<Rightarrow>
     (let c = (x + dx, y + dy, z + dz);
          values = (if se_result en = js ''success_all_air'' then Some (replicate 4096 (ms_air s))
             else if se_result en = js ''success'' then
               (case se_payload en of None \<Rightarrow> None
                | Some p \<Rightarrow> if length p \<le> 256000 then decode_mouse_subchunk p else None)
             else None)
      in if \<not> nearby position c \<or> c \<notin> fst ` set (ms_asked s) then s
         else (case values of None \<Rightarrow> s
           | Some ws \<Rightarrow> s\<lparr>ms_sections := AList.update c ws (ms_sections s), ms_asked := AList.delete c (ms_asked s)\<rparr>)))"

definition on_subchunk :: "vec option \<Rightarrow> bool \<Rightarrow> int \<Rightarrow> cell option \<Rightarrow> subchunk_entry list \<Rightarrow> mouse \<Rightarrow> mouse" where
  "on_subchunk position cached dimension start entries s = (case start of
       None \<Rightarrow> s
     | Some c \<Rightarrow> if ms_mode s = OFF \<or> ms_registry s = None \<or> cached \<or> dimension \<noteq> ms_dimension s then s
         else fold (store_entry position c) (take 256 entries) s)"

text \<open>The sections of a level chunk stand one after the other, from the bottom up.\<close>

fun column_at :: "bytes \<Rightarrow> int \<Rightarrow> nat \<Rightarrow> (int \<times> 32 word list) list option" where
  "column_at p y 0 = Some []"
| "column_at p y (Suc n) = (case read_subchunk p of
       None \<Rightarrow> None
     | Some su \<Rightarrow> map_option ((#) (case su_y su of None \<Rightarrow> y | Some k \<Rightarrow> k, su_blocks su))
         (column_at (drop (su_consumed su) p) (y + 1) n))"

definition store_section :: "cell \<times> 32 word list \<Rightarrow> mouse \<Rightarrow> mouse" where
  "store_section cw s = (case cw of (c, ws) \<Rightarrow>
     s\<lparr>ms_sections := AList.update c ws (ms_sections s), ms_asked := AList.delete c (ms_asked s),
       ms_updates := filter (\<lambda>(b, _). cell_chunk b \<noteq> c) (ms_updates s)\<rparr>)"

definition keep_nearby :: "vec option \<Rightarrow> (cell, 'a) jmap \<Rightarrow> (cell, 'a) jmap" where
  "keep_nearby position m = filter (\<lambda>(c, _). nearby position c) m"

definition on_level_chunk ::
  "vec option \<Rightarrow> bool \<Rightarrow> bytes option \<Rightarrow> int option \<Rightarrow> int option \<Rightarrow> int option \<Rightarrow> int option \<Rightarrow> mouse \<Rightarrow> mouse" where
  "on_level_chunk position cached payload cx cz dimension count s = (case (payload, cx, cz, count, position) of
       (Some p, Some x, Some z, Some n, Some view) \<Rightarrow>
         if cached \<or> (dimension \<noteq> None \<and> dimension \<noteq> Some (ms_dimension s)) \<or> n < 0 \<or> 24 < n then s
         else if (case chunk_of view of (a, _, b) \<Rightarrow> \<bar>x - a\<bar> > 1 \<or> \<bar>z - b\<bar> > 1) then s
         else (case column_at p (if ms_dimension s = 0 then - 4 else 0) (nat n) of
             None \<Rightarrow> s
           | Some ys \<Rightarrow>
               (let decoded = filter (\<lambda>(c, _). nearby position c) (map (\<lambda>(y, ws). ((x, y, z), ws)) ys);
                    s1 = fold store_section decoded s
                in s1\<lparr>ms_sections := keep_nearby position (ms_sections s1)\<rparr>))
     | _ \<Rightarrow> s)"

subsection \<open>Entities\<close>

text \<open>The fields of a packet about an entity; the type is named without its name space.\<close>

record entity_packet =
  ep_runtime :: "int option"
  ep_x :: "rat option"
  ep_y :: "rat option"
  ep_z :: "rat option"
  ep_position :: "vec option"
  ep_self :: "int option"
  ep_unique :: "int option"
  ep_type :: jstr

definition or_else :: "'a option \<Rightarrow> 'a option \<Rightarrow> 'a option" where
  "or_else a b = (case a of None \<Rightarrow> b | Some _ \<Rightarrow> a)"

definition far_away :: "vec \<Rightarrow> vec \<Rightarrow> bool" where
  "far_away p q \<longleftrightarrow> (vx p - vx q) ^ 2 + (vy p - vy q) ^ 2 + (vz p - vz q) ^ 2 > 144"

definition keep_entity :: "string \<Rightarrow> sender \<Rightarrow> entity_packet \<Rightarrow> int \<Rightarrow> vec \<Rightarrow> mouse \<Rightarrow> mouse" where
  "keep_entity name sd p i position s =
     (let old = map_of (ms_entities s) i;
          data = Option.bind (ms_registry s) (\<lambda>rg. rg_size rg (ep_type p))
      in if old = None \<and> name \<noteq> ''add_entity'' \<and> name \<noteq> ''add_player'' then s
         else (case sd_position sd of
             None \<Rightarrow> s\<lparr>ms_entities := AList.delete i (ms_entities s)\<rparr>
           | Some view \<Rightarrow>
               if far_away position view then s\<lparr>ms_entities := AList.delete i (ms_entities s)\<rparr>
               else (let en = \<lparr>en_runtime = i,
                         en_unique = or_else (ep_unique p) (or_else (ep_self p) (Option.bind old en_unique)),
                         en_position = (if name = ''add_player'' \<or> name = ''move_player''
                            then position\<lparr>vy := vy position - 162 / 100\<rparr> else position),
                         en_width = (case old of Some o' \<Rightarrow> en_width o' | None \<Rightarrow> (case data of Some (w, _) \<Rightarrow> w | None \<Rightarrow> 6 / 10)),
                         en_height = (case old of Some o' \<Rightarrow> en_height o' | None \<Rightarrow> (case data of Some (_, h) \<Rightarrow> h | None \<Rightarrow> 18 / 10))\<rparr>;
                         es = AList.update i en (ms_entities s)
                     in s\<lparr>ms_entities := (if length es > 128 then tl es else es)\<rparr>)))"

definition on_entity :: "string \<Rightarrow> sender \<Rightarrow> entity_packet \<Rightarrow> mouse \<Rightarrow> mouse" where
  "on_entity name sd p s =
     (if name = ''remove_entity''
      then s\<lparr>ms_entities := filter (\<lambda>(_, en). en_unique en \<noteq> ep_self p) (ms_entities s)\<rparr>
      else (case ep_runtime p of
          None \<Rightarrow> s
        | Some i \<Rightarrow>
           (let position = (if name = ''move_entity_delta''
                then map_option (\<lambda>en. \<lparr>vx = (case ep_x p of None \<Rightarrow> vx (en_position en) | Some r \<Rightarrow> r),
                       vy = (case ep_y p of None \<Rightarrow> vy (en_position en) | Some r \<Rightarrow> r),
                       vz = (case ep_z p of None \<Rightarrow> vz (en_position en) | Some r \<Rightarrow> r)\<rparr>) (map_of (ms_entities s) i)
                else ep_position p)
            in case position of
                 None \<Rightarrow> s
               | Some q \<Rightarrow> if sd_entity sd = Some i then s else keep_entity name sd p i q s)))"

definition observe_using :: "int option \<Rightarrow> sender \<Rightarrow> (meta_key \<times> meta_value) list option \<Rightarrow> mouse \<Rightarrow> mouse" where
  "observe_using runtime sd metadata s =
     (if runtime = None \<or> runtime \<noteq> sd_entity sd then s
      else (case Option.bind metadata (find (\<lambda>(k, _). k = Flags_key)) of
          Some (_, Meta_object _ (Some b)) \<Rightarrow> s\<lparr>ms_using := b\<rparr>
        | Some (_, Meta_bigint n) \<Rightarrow> s\<lparr>ms_using := bit n 4\<rparr>
        | _ \<Rightarrow> s))"

definition around :: "cell \<Rightarrow> cell list" where
  "around c = (case c of (x, y, z) \<Rightarrow>
     concat (map (\<lambda>dx. concat (map (\<lambda>dz. map (\<lambda>dy. (x + dx, y + dy, z + dz)) [- 1, 0, 1]) [- 1, 0, 1])) [- 1, 0, 1]))"

definition request_sections :: "bot_env \<Rightarrow> vec \<Rightarrow> mouse \<Rightarrow> inventory \<Rightarrow> mouse \<times> inventory" where
  "request_sections e view s iv =
     (let kept = keep_nearby (Some view) (ms_sections s);
          asked = keep_nearby (Some view) (ms_asked s);
          wanted = filter (\<lambda>(x, y, z). - 4 \<le> y \<and> y \<le> 19 \<and> (x, y, z) \<notin> fst ` set kept
             \<and> (case map_of asked (x, y, z) of None \<Rightarrow> True | Some t \<Rightarrow> bnow e - t \<ge> 2000)) (around (chunk_of view));
          s1 = s\<lparr>ms_sections := kept, ms_asked := fold (\<lambda>c. AList.update c (bnow e)) wanted asked\<rparr>
      in (s1, if wanted = [] then iv
              else iv\<lparr>iv_sender := fst (send_packet e (P_subchunks (ms_dimension s) (chunk_of view) wanted) (iv_sender iv))\<rparr>))"

section \<open>Aiming\<close>

record target =
  tg_block :: block_type
  tg_position :: cell
  tg_runtime :: "32 word"
  tg_distance :: rat
  tg_face :: int
  tg_point :: vec

text \<open>Nothing within reach, or a part of the world on the way that is not known.\<close>

datatype aim = unknown: Unknown | Nothing | At target

definition along :: "vec \<Rightarrow> vec \<Rightarrow> rat \<Rightarrow> vec" where
  "along p d k = \<lparr>vx = vx p + vx d * k, vy = vy p + vy d * k, vz = vz p + vz d * k\<rparr>"

definition ray_cells :: "vec \<Rightarrow> vec \<Rightarrow> cell list" where
  "ray_cells p d = uniq (map (\<lambda>k. (let q = along p d (of_nat k / 20) in (\<lfloor>vx q\<rfloor>, \<lfloor>vy q\<rfloor>, \<lfloor>vz q\<rfloor>))) [0..<101])"

definition shape_hits :: "vec \<Rightarrow> vec \<Rightarrow> cell \<Rightarrow> block_type \<Rightarrow> (rat \<times> int) list" where
  "shape_hits p d c b = (case c of (x, y, z) \<Rightarrow>
     (let corner = (\<lambda>v. \<lparr>vx = of_int x + vx v, vy = of_int y + vy v, vz = of_int z + vz v\<rparr>)
      in sort_key fst (filter (\<lambda>(k, _). k \<le> 5)
           (List.map_filter (\<lambda>(low, high). intersect p d (corner low) (corner high)) (bl_shapes b)))))"

fun first_target :: "registry \<Rightarrow> mouse \<Rightarrow> vec \<Rightarrow> vec \<Rightarrow> cell list \<Rightarrow> aim" where
  "first_target rg s p d [] = Nothing"
| "first_target rg s p d (c # cs) = (case map_of (ms_sections s) (cell_chunk c) of
       None \<Rightarrow> Unknown
     | Some ws \<Rightarrow>
        (let runtime = (if ws = [] then ms_air s else ws ! section_slot c)
         in case (case rg_block rg (uint runtime) of Some b \<Rightarrow> Some b | None \<Rightarrow> rg_block rg (sint runtime)) of
              None \<Rightarrow> Unknown
            | Some b \<Rightarrow> (case shape_hits p d c b of
                  [] \<Rightarrow> first_target rg s p d cs
                | (k, face) # _ \<Rightarrow> At \<lparr>tg_block = b, tg_position = c, tg_runtime = runtime, tg_distance = k, tg_face = face,
                    tg_point = along p d k\<rparr>)))"

definition hit_entities :: "vec \<Rightarrow> vec \<Rightarrow> rat \<Rightarrow> mouse \<Rightarrow> (entity \<times> rat) list" where
  "hit_entities p d limit s = sort_key snd (filter (\<lambda>(_, k). k \<le> 3 \<and> k < limit)
     (List.map_filter (\<lambda>(_, en). map_option (\<lambda>(k, _). (en, k))
        (intersect p d \<lparr>vx = vx (en_position en) - en_width en / 2, vy = vy (en_position en), vz = vz (en_position en) - en_width en / 2\<rparr>
           \<lparr>vx = vx (en_position en) + en_width en / 2, vy = vy (en_position en) + en_height en, vz = vz (en_position en) + en_width en / 2\<rparr>))
        (ms_entities s)))"

section \<open>A tick of the held button\<close>

text \<open>The result holds the frame for the next input and what to do when it has been sent.\<close>

type_synonym mouse_tick = "mouse \<times> inventory \<times> frame \<times> (mouse \<Rightarrow> mouse)"

definition idle :: "mouse \<Rightarrow> inventory \<Rightarrow> mouse_tick" where
  "idle s iv = (s, iv, no_frame, id)"

definition attack_tick :: "bot_env \<Rightarrow> vec \<Rightarrow> nat \<times> item \<Rightarrow> entity \<Rightarrow> mouse \<Rightarrow> inventory \<Rightarrow> mouse_tick" where
  "attack_tick e p hand en s iv =
     (let (s1, iv1) =
        (if bnow e \<ge> ms_attack s
         then (case send_packet e (P_entity (en_runtime en) (ms_mode s = LEFT) (fst hand) (snd hand) p (en_height en / 2)) (iv_sender iv) of
             (sd, sent) \<Rightarrow> (if sent then s\<lparr>ms_attack := bnow e + (if ms_mode s = LEFT then 500 else 200)\<rparr> else s,
                            iv\<lparr>iv_sender := sd\<rparr>))
         else (s, iv))
      in case ms_mining s1 of
           None \<Rightarrow> idle s1 iv1
         | Some m \<Rightarrow> (s1, iv1, no_frame\<lparr>fr_actions := [abort_break m]\<rparr>, \<lambda>s. s\<lparr>ms_mining := None\<rparr>))"

definition use_tick :: "bot_env \<Rightarrow> vec \<Rightarrow> nat \<times> item \<Rightarrow> aim \<Rightarrow> mouse \<Rightarrow> inventory \<Rightarrow> mouse_tick" where
  "use_tick e p hand aim s iv =
     (if ms_using s \<or> bnow e < ms_until s then idle s iv
      else (let zero = \<lparr>vx = 0, vy = 0, vz = 0\<rparr>;
                use = (case aim of
                    At t \<Rightarrow> (case tg_position t of (x, y, z) \<Rightarrow>
                      \<lparr>us_on_block = True, us_position = (x, y, z), us_face = tg_face t, us_slot = fst hand, us_item = snd hand,
                        us_player = p, us_click = \<lparr>vx = vx (tg_point t) - of_int x, vy = vy (tg_point t) - of_int y,
                          vz = vz (tg_point t) - of_int z\<rparr>, us_runtime = uint (tg_runtime t)\<rparr>)
                  | _ \<Rightarrow> \<lparr>us_on_block = False, us_position = (0, 0, 0), us_face = 0, us_slot = fst hand, us_item = snd hand,
                        us_player = p, us_click = zero, us_runtime = 0\<rparr>)
            in (s, iv, \<lparr>fr_flags = [(js ''item_interact'', True), (js ''start_using_item'', \<not> ms_used s)],
                  fr_transaction = Some use, fr_actions = []\<rparr>,
                \<lambda>s. s\<lparr>ms_until := bnow e + 200, ms_used := True, ms_hand := Some hand\<rparr>)))"

definition break_tick :: "bot_env \<Rightarrow> nat \<times> item \<Rightarrow> aim \<Rightarrow> mouse \<Rightarrow> inventory \<Rightarrow> mouse_tick" where
  "break_tick e hand aim s iv =
     (let stale = (case ms_mining s of None \<Rightarrow> False
             | Some m \<Rightarrow> (case aim of At t \<Rightarrow> mn_position m \<noteq> tg_position t \<or> mn_runtime m \<noteq> tg_runtime t | _ \<Rightarrow> True));
          before = (if stale then [abort_break (the (ms_mining s))] else []);
          s1 = (if stale then s\<lparr>ms_mining := None\<rparr> else s)
      in case aim of
           At t \<Rightarrow>
             (let action = (\<lambda>a. \<lparr>ba_action = a, ba_position = tg_position t, ba_face = tg_face t\<rparr>);
                  duration = bl_dig (tg_block t) (network_id (snd hand))
              in case ms_mining s1 of
                   None \<Rightarrow> (s1, iv, no_frame\<lparr>fr_actions := before @ [action (js ''start_break'')]\<rparr>,
                     \<lambda>s. s\<lparr>ms_mining := Some \<lparr>mn_position = tg_position t, mn_face = tg_face t, mn_runtime = tg_runtime t,
                             mn_started = of_int (bnow e), mn_duration = duration\<rparr>\<rparr>)
                 | Some m \<Rightarrow>
                     if (case mn_duration m of None \<Rightarrow> False | Some k \<Rightarrow> of_int (bnow e) - mn_started m \<ge> k)
                     then (s1, iv, no_frame\<lparr>fr_actions := before @ [action (js ''predict_break'')]\<rparr>,
                       \<lambda>s. s\<lparr>ms_mining := map_option (\<lambda>m. m\<lparr>mn_started := of_int (bnow e) + 1000 - the (mn_duration m)\<rparr>) (ms_mining s)\<rparr>)
                     else (s1, iv, no_frame\<lparr>fr_actions := before @ [action (js ''continue_break'')]\<rparr>, id))
         | _ \<Rightarrow> (s1, iv, no_frame\<lparr>fr_actions := before\<rparr>, id))"

definition mouse_tick :: "bot_env \<Rightarrow> mouse \<Rightarrow> inventory \<Rightarrow> mouse_tick" where
  "mouse_tick e s0 iv0 = (case flush_release e s0 iv0 of
       (s, iv, False) \<Rightarrow> idle s iv
     | (s, iv, True) \<Rightarrow>
        (case (player_view e (iv_sender iv), ms_registry s) of
           (Some (p, d), Some rg) \<Rightarrow>
             if ms_mode s = OFF then idle s iv
             else (case request_sections e p s iv of (s1, iv1) \<Rightarrow>
               (case mouse_hand iv1 of
                  None \<Rightarrow> idle s1 iv1
                | Some hand \<Rightarrow>
                    if mouse_blocked iv1 then idle s1 iv1
                    else (let aim = first_target rg s1 p d (ray_cells p d)
                          in if unknown aim then idle s1 iv1
                             else (case hit_entities p d (case aim of At t \<Rightarrow> tg_distance t | _ \<Rightarrow> 5) s1 of
                                 (en, _) # _ \<Rightarrow> attack_tick e p hand en s1 iv1
                               | [] \<Rightarrow> if ms_mode s1 = RIGHT then use_tick e p hand aim s1 iv1
                                   else break_tick e hand aim s1 iv1))))
         | _ \<Rightarrow> idle s iv))"

end
