(* ===== verification/Bedrock_Behaviors.thy ===== *)
theory Bedrock_Behaviors
  imports Bedrock_Mouse
begin

text \<open>
  \<^verbatim>\<open>backend/src/bedrock-bot/behaviors.ts\<close>: the behaviours of a Bedrock bot, driven by a tick. The state
  contains the inventory, which contains the shared sender, and the held mouse button. \<open>load\<close> is the
  library that makes a block registry.
\<close>

section \<open>Definitions\<close>

definition HEARTBEAT_INTERVAL_MS :: int where "HEARTBEAT_INTERVAL_MS = 15000"
definition SPAWN_STABILIZE_MS :: int where "SPAWN_STABILIZE_MS = 250"
definition TELEPORT_STABILIZE_MS :: int where "TELEPORT_STABILIZE_MS = 100"
definition TELEPORT_COMMAND_GUARD_MS :: int where "TELEPORT_COMMAND_GUARD_MS = 750"
definition CHAT_COMMAND_GUARD_MS :: int where "CHAT_COMMAND_GUARD_MS = 100"
definition INVENTORY_BUSY_DELAY_MS :: int where "INVENTORY_BUSY_DELAY_MS = 250"

datatype task = Command jstr | Sell_multipliers | Clean_spawner

definition is_teleport_command :: "bot_env \<Rightarrow> jstr \<Rightarrow> bool" where
  "is_teleport_command e line =
     (case re_group (Sq Bol (sq [unit 47, Grp 1 (plus (Cls (\<lambda>c. \<not> is_space c)))])) 1 (trim line) of
        None \<Rightarrow> False
      | Some c \<Rightarrow> to_lower (blow e) c \<in> set (map js [''home'', ''spawn'', ''warp'', ''server'', ''hub'', ''lobby'', ''back'',
          ''rtp'', ''wild'', ''tp'', ''tpa'', ''tpahere'', ''tphere'', ''tpaccept'', ''tpyes'', ''is'', ''island'', ''skyblock'']))"

definition has_part :: "jstr \<Rightarrow> string \<Rightarrow> bool" where
  "has_part s part \<longleftrightarrow> re_test (lit part) s"

definition is_inventory_busy_message :: "bot_env \<Rightarrow> jstr \<Rightarrow> bool" where
  "is_inventory_busy_message e message =
     (let lower = to_lower (blow e) message
      in (has_part lower ''inventar'' \<or> has_part lower ''inventory'')
         \<and> ((has_part lower ''gespeichert'' \<and> has_part lower ''geladen'') \<or> has_part lower ''saved or loaded''
            \<or> has_part lower ''saving or loading'' \<or> has_part lower ''being saved'' \<or> has_part lower ''being loaded''))"

record behavior_config =
  bc_crouch :: bool
  bc_button :: button
  bc_autosell :: bool
  bc_interval :: "rat option"
  bc_command :: "jstr option"

record behavior =
  bh_inventory :: inventory
  bh_mouse :: mouse
  bh_crouch_check :: int
  bh_checks :: "int list"
  bh_manual_until :: int
  bh_config :: behavior_config
  bh_spawned :: bool
  bh_heartbeat :: int
  bh_next_sale :: "rat option"
  bh_pause_start :: int
  bh_pause_end :: int
  bh_ready :: "int option"
  bh_manual :: "task list"
  bh_queue :: "task list"
  bh_sneaking :: bool
  bh_server_sneaking :: "bool option"
  bh_grace :: int
  bh_resync :: bool

definition sender_of :: "behavior \<Rightarrow> sender" where
  "sender_of b = iv_sender (bh_inventory b)"

definition with_sender :: "(sender \<Rightarrow> sender) \<Rightarrow> behavior \<Rightarrow> behavior" where
  "with_sender f b = b\<lparr>bh_inventory := (bh_inventory b)\<lparr>iv_sender := f (sender_of b)\<rparr>\<rparr>"

definition with_inventory :: "(inventory \<Rightarrow> inventory) \<Rightarrow> behavior \<Rightarrow> behavior" where
  "with_inventory f b = b\<lparr>bh_inventory := f (bh_inventory b)\<rparr>"

definition with_mouse :: "(mouse \<Rightarrow> inventory \<Rightarrow> mouse \<times> inventory) \<Rightarrow> behavior \<Rightarrow> behavior" where
  "with_mouse f b = (case f (bh_mouse b) (bh_inventory b) of (m, iv) \<Rightarrow> b\<lparr>bh_mouse := m, bh_inventory := iv\<rparr>)"

text \<open>\<open>bh_ready\<close> is \<open>None\<close> while the time is infinite.\<close>

definition ready_by :: "int option \<Rightarrow> int \<Rightarrow> bool" where
  "ready_by r t = (case r of None \<Rightarrow> False | Some k \<Rightarrow> k \<le> t)"

definition pause_autosell :: "bot_env \<Rightarrow> int \<Rightarrow> int \<Rightarrow> behavior \<Rightarrow> behavior" where
  "pause_autosell e afterMs resumeMs b = b\<lparr>bh_pause_start := bnow e + afterMs, bh_pause_end := bnow e + resumeMs\<rparr>"

definition new_behavior :: "loader \<Rightarrow> bot_env \<Rightarrow> jstr \<Rightarrow> behavior_config \<Rightarrow> int \<Rightarrow> int \<Rightarrow> sender \<Rightarrow> behavior" where
  "new_behavior load e version conf afterMs resumeMs sd =
     pause_autosell e afterMs resumeMs
       (with_mouse (configure_mouse load e (bc_button conf))
         \<lparr>bh_inventory = new_inventory sd, bh_mouse = new_mouse (if version = [] then js ''1.26.51'' else version),
          bh_crouch_check = 0, bh_checks = [], bh_manual_until = 0, bh_config = conf, bh_spawned = False, bh_heartbeat = 0,
          bh_next_sale = Some (of_int (bnow e)), bh_pause_start = 0, bh_pause_end = 0, bh_ready = None, bh_manual = [], bh_queue = [],
          bh_sneaking = False, bh_server_sneaking = None, bh_grace = 0, bh_resync = False\<rparr>)"

definition apply_crouch :: "bool \<Rightarrow> bool \<Rightarrow> behavior \<Rightarrow> behavior" where
  "apply_crouch on resync b = with_sender (set_sneak on resync) (b\<lparr>bh_sneaking := on\<rparr>)"

text \<open>\<open>bh_next_sale\<close> is \<open>None\<close> where an infinite ready time made it infinite, too.\<close>

definition update_config :: "loader \<Rightarrow> bot_env \<Rightarrow> behavior_config \<Rightarrow> behavior \<Rightarrow> behavior" where
  "update_config load e conf b =
     (let old = bh_config b;
          changed = (bc_autosell old \<noteq> bc_autosell conf \<or> bc_interval old \<noteq> bc_interval conf \<or> bc_command old \<noteq> bc_command conf);
          b1 = with_mouse (configure_mouse load e (bc_button conf)) (b\<lparr>bh_config := conf\<rparr>);
          b2 = (if bc_autosell conf then b1 else with_inventory (interrupt e False False) b1);
          b3 = (if changed \<and> bc_autosell conf
                then b2\<lparr>bh_next_sale := map_option (\<lambda>r. of_int (max (bnow e) r)) (bh_ready b2)\<rparr> else b2);
          b4 = (if bc_crouch conf \<and> \<not> bc_crouch old then apply_crouch True False b3 else b3)
      in if \<not> bc_crouch conf \<and> bc_crouch old then apply_crouch False False b4 else b4)"

definition mark_spawned :: "bot_env \<Rightarrow> behavior \<Rightarrow> behavior" where
  "mark_spawned e b = b\<lparr>bh_spawned := True, bh_ready := Some (bnow e + SPAWN_STABILIZE_MS),
     bh_next_sale := Some (of_int (bnow e + SPAWN_STABILIZE_MS)), bh_resync := True, bh_server_sneaking := None\<rparr>"

definition mark_joining :: "behavior \<Rightarrow> behavior" where
  "mark_joining b = (with_inventory reset_inventory (with_mouse (reset_mouse None) b))
     \<lparr>bh_spawned := False, bh_resync := True, bh_server_sneaking := None, bh_ready := None\<rparr>"

definition schedule_check :: "int \<Rightarrow> behavior \<Rightarrow> behavior" where
  "schedule_check t b =
     (if bh_checks b \<noteq> [] \<and> t + 3000 - last (bh_checks b) < 50 then b
      else (let cs = bh_checks b @ [t + 3000] in b\<lparr>bh_checks := (if length cs > 64 then tl cs else cs)\<rparr>))"

definition mark_teleported :: "bot_env \<Rightarrow> behavior \<Rightarrow> behavior" where
  "mark_teleported e b = (with_inventory (interrupt e False False) (schedule_check (bnow e) (with_mouse teleported_mouse b)))
     \<lparr>bh_spawned := True, bh_ready := Some (bnow e + TELEPORT_STABILIZE_MS),
      bh_next_sale := Some (of_int (bnow e + TELEPORT_STABILIZE_MS)), bh_resync := True, bh_server_sneaking := None\<rparr>"

definition enqueue_chat :: "jstr \<Rightarrow> behavior \<Rightarrow> behavior" where
  "enqueue_chat line b = (if trim line = [] then b else b\<lparr>bh_manual := bh_manual b @ [Command (trim line)]\<rparr>)"

definition enqueue_clean_spawner :: "behavior \<Rightarrow> behavior" where
  "enqueue_clean_spawner b = b\<lparr>bh_queue := bh_queue b @ [Clean_spawner]\<rparr>"

definition enqueue_sell_multipliers :: "behavior \<Rightarrow> behavior" where
  "enqueue_sell_multipliers b = b\<lparr>bh_manual := bh_manual b @ [Sell_multipliers]\<rparr>"

definition postpone :: "int \<Rightarrow> behavior \<Rightarrow> behavior" where
  "postpone t b = b\<lparr>bh_ready := map_option (max t) (bh_ready b), bh_next_sale := map_option (max (of_int t)) (bh_next_sale b)\<rparr>"

definition check_crouch :: "bot_env \<Rightarrow> behavior \<Rightarrow> behavior" where
  "check_crouch e b = (if bc_crouch (bh_config b) then b\<lparr>bh_resync := True, bh_crouch_check := bnow e\<rparr> else b)"

definition accept_re :: re where
  "accept_re = Sq Bol (sq [unit 47, alts [lit_i ''tpaccept'', lit_i ''tpyes''], Alt (Cls is_space) Eol])"

definition sale_command :: "behavior \<Rightarrow> jstr" where
  "sale_command b = trim (case bc_command (bh_config b) of None \<Rightarrow> js ''/sell'' | Some c \<Rightarrow> c)"

definition run_foreground :: "bot_env \<Rightarrow> task \<Rightarrow> bool \<Rightarrow> behavior \<Rightarrow> behavior" where
  "run_foreground e t manual b = (case t of
       Sell_multipliers \<Rightarrow>
         postpone (bnow e + CHAT_COMMAND_GUARD_MS)
           (with_sender (run_command e (js ''/sellmulti''))
             (with_inventory (request_multipliers (bnow e)) (with_inventory (interrupt e True False) b)))
     | Command line \<Rightarrow>
        (let b1 = (if manual then b\<lparr>bh_manual_until := bnow e + 5000\<rparr> else b);
             b2 = with_inventory (interrupt e True (trim line = sale_command b1)) b1;
             b3 = with_sender (send_line e line) b2;
             b4 = (if re_test accept_re (trim line) then schedule_check (bnow e) b3 else b3);
             b5 = postpone (bnow e + (if is_teleport_command e line then TELEPORT_COMMAND_GUARD_MS else CHAT_COMMAND_GUARD_MS)) b4
         in with_sender (emit (Behavior_log (js ''Command dispatched: '' @ line))) b5)
     | Clean_spawner \<Rightarrow>
         with_sender (emit (Warned (js ''Clean-spawner is not available on Bedrock accounts (see LIMITATIONS.md).''))) b)"

text \<open>The checks that are due; the tick only runs them once the player has spawned.\<close>

fun due_checks :: "bot_env \<Rightarrow> int list \<Rightarrow> behavior \<Rightarrow> behavior" where
  "due_checks e [] b = b\<lparr>bh_checks := []\<rparr>"
| "due_checks e (c # cs) b = (if c \<le> bnow e then due_checks e cs (check_crouch e b) else b\<lparr>bh_checks := c # cs\<rparr>)"

definition tick_crouch :: "bot_env \<Rightarrow> behavior \<Rightarrow> behavior" where
  "tick_crouch e b =
     (if bh_spawned b \<and> ready_by (bh_ready b) (bnow e) \<and> bc_crouch (bh_config b)
         \<and> (\<not> bh_sneaking b \<or> bh_resync b \<or> bh_crouch_check b \<le> bnow e)
      then (let resync = (bh_resync b \<or> bh_server_sneaking b = Some False);
                b1 = apply_crouch True resync b;
                b2 = (if resync then b1\<lparr>bh_grace := bnow e + 2000\<rparr> else b1)
            in b2\<lparr>bh_resync := False, bh_crouch_check := bnow e + 2000\<rparr>)
      else b)"

text \<open>
  The input of the player: the sender asks the mouse for its frame only when it knows the player, and tells it
  when the frame is out.
\<close>

definition send_input :: "bot_env \<Rightarrow> behavior \<Rightarrow> behavior" where
  "send_input e b =
     (if sd_entity (sender_of b) = None \<or> sd_position (sender_of b) = None then b
      else (case mouse_tick e (bh_mouse b) (bh_inventory b) of (m, iv, fr, done) \<Rightarrow>
        (case tick_input e fr (iv_sender iv) of (sd, sent) \<Rightarrow>
           b\<lparr>bh_mouse := (if sent then done m else m), bh_inventory := iv\<lparr>iv_sender := sd\<rparr>\<rparr>)))"

definition sell_paused :: "bot_env \<Rightarrow> behavior \<Rightarrow> bool" where
  "sell_paused e b \<longleftrightarrow> bh_pause_start b \<le> bnow e \<and> bnow e < bh_pause_end b"

definition tick_sale :: "bot_env \<Rightarrow> behavior \<Rightarrow> behavior" where
  "tick_sale e b =
     (if bc_autosell (bh_config b) \<and> \<not> sell_paused e b \<and> synchronized (bh_inventory b)
      then (let b1 = with_inventory (tick_inventory e) b
            in if busy (bh_inventory b1) \<or> blocked (bh_inventory b1) then b1
               else if (case bh_next_sale b1 of None \<Rightarrow> False | Some r \<Rightarrow> r \<le> of_int (bnow e)) then
                 (let command = (if sale_command b1 = [] then js ''/sell'' else sale_command b1);
                      interval = (case bc_interval (bh_config b1) of None \<Rightarrow> 60 | Some k \<Rightarrow> k)
                  in with_sender (run_command e command) (with_inventory (request (bnow e))
                       (b1\<lparr>bh_next_sale := Some (of_int (bnow e) + max (1 / 4) interval * 1000)\<rparr>)))
               else b1)
      else b)"

definition on_tick :: "bot_env \<Rightarrow> behavior \<Rightarrow> behavior" where
  "on_tick e b0 =
     (let b1 = (if bh_spawned b0 then due_checks e (bh_checks b0) b0 else b0);
          b2 = (if bnow e - bh_heartbeat b1 \<ge> HEARTBEAT_INTERVAL_MS
                then with_sender (emit Heartbeat) (b1\<lparr>bh_heartbeat := bnow e\<rparr>) else b1);
          b3 = tick_crouch e b2;
          b4 = (if bh_spawned b3 then send_input e b3 else b3)
      in if bh_spawned b4 \<and> bh_manual b4 \<noteq> []
         then run_foreground e (hd (bh_manual b4)) True (b4\<lparr>bh_manual := tl (bh_manual b4)\<rparr>)
         else if reading_multipliers (bh_inventory b4) then with_inventory (tick_multipliers e) b4
         else if \<not> bh_spawned b4 \<or> \<not> ready_by (bh_ready b4) (bnow e) \<or> bnow e < bh_manual_until b4 then b4
         else (case bh_queue b4 of
             t # ts \<Rightarrow>
               (let b5 = run_foreground e t False (b4\<lparr>bh_queue := ts\<rparr>)
                in if sell_paused e b5 then with_inventory (interrupt e False False) b5 else b5)
           | [] \<Rightarrow>
               tick_sale e (if sell_paused e b4 then with_inventory (interrupt e False False) b4 else b4)))"

definition home_re :: re where
  "home_re = Sq Bol (sq [lit ''Du wurdest zu deinem Home '', plus (Cls is_dot), lit '' teleportiert!'', Eol])"

definition accepted_re :: re where
  "accepted_re = Sq Bol (sq [plus (Cls (\<lambda>c. c \<noteq> 58)), lit '' hat deine Teleportations-Anfrage angenommen!'', Eol])"

definition accepting_re :: re where
  "accepting_re = Sq Bol (sq [lit ''Du hast die Teleportations-Anfrage von '', plus (Cls is_dot), lit '' angenommen!'', Eol])"

definition prefix_re :: re where
  "prefix_re = Sq Bol (sq [Alt (lit ''<HugoSMP>'') (lit ''[HugoSMP]''), spaces])"

definition plain_message :: "jstr \<Rightarrow> jstr" where
  "plain_message message = trim (let m = re_remove section_sign_re message
     in case re_search prefix_re m of None \<Rightarrow> m | Some (_, j, _) \<Rightarrow> drop j m)"

definition on_chat :: "bot_env \<Rightarrow> jstr option \<Rightarrow> jstr \<Rightarrow> behavior \<Rightarrow> behavior" where
  "on_chat e sender message b =
     (let plain = plain_message message;
          server = (case sender of None \<Rightarrow> True | Some n \<Rightarrow> n = [] \<or> to_lower (blow e) n = js ''hugosmp'');
          b1 = (if server \<and> (re_test home_re plain \<or> re_test accepted_re plain \<or> re_test accepting_re plain)
                then schedule_check (bnow e) (b\<lparr>bh_resync := True, bh_server_sneaking := None\<rparr>) else b)
      in if is_inventory_busy_message e message
         then postpone (bnow e + INVENTORY_BUSY_DELAY_MS) (with_inventory (interrupt e False False) b1) else b1)"

definition on_sneak_status :: "bot_env \<Rightarrow> bool \<Rightarrow> behavior \<Rightarrow> behavior" where
  "on_sneak_status e sneaking b =
     (let b1 = b\<lparr>bh_server_sneaking := Some sneaking\<rparr>
      in if \<not> sneaking \<and> bc_crouch (bh_config b1) \<and> bh_grace b1 \<le> bnow e
         then b1\<lparr>bh_resync := True, bh_crouch_check := bnow e\<rparr> else b1)"

end
