(* ===== verification/Bedrock_Bot.thy ===== *)
theory Bedrock_Bot
  imports Bedrock_Behaviors
begin

text \<open>
  The process of a Bedrock bot: \<^verbatim>\<open>backend/src/bedrock-bot/connection.ts\<close>, the recovery of
  \<^verbatim>\<open>backend/src/bedrock-bot/packetRecovery.ts\<close>, and the handlers of \<^verbatim>\<open>backend/src/bedrock-bot/index.ts\<close> that tie the
  packets of the server and the commands of the supervisor to the behaviours. A packet carries its fields as the
  codec delivers them; entity ids are integers where the code could convert them.
\<close>

section \<open>Progress of a connection\<close>

datatype phase = Discovery | Authentication | Transport | Login_phase | Resources | World | Spawned_phase

fun phase_index :: "phase \<Rightarrow> nat" where
  "phase_index Discovery = 0"
| "phase_index Authentication = 1"
| "phase_index Transport = 2"
| "phase_index Login_phase = 3"
| "phase_index Resources = 4"
| "phase_index World = 5"
| "phase_index Spawned_phase = 6"

fun phase_text :: "phase \<Rightarrow> jstr" where
  "phase_text Discovery = js ''server discovery''"
| "phase_text Authentication = js ''Microsoft/Xbox authentication''"
| "phase_text Transport = js ''RakNet/UDP connection''"
| "phase_text Login_phase = js ''server login''"
| "phase_text Resources = js ''resource-pack handshake''"
| "phase_text World = js ''world initialization''"
| "phase_text Spawned_phase = js ''spawned''"

record progress =
  pg_phase :: phase
  pg_started :: int
  pg_deadline :: int
  pg_timeout :: int
  pg_auth_timeout :: int

definition new_progress :: "int \<Rightarrow> int \<Rightarrow> progress" where
  "new_progress t timeout = \<lparr>pg_phase = Discovery, pg_started = t, pg_deadline = t + timeout, pg_timeout = timeout,
     pg_auth_timeout = max timeout 120000\<rparr>"

definition advance :: "int \<Rightarrow> phase \<Rightarrow> progress \<Rightarrow> progress \<times> bool" where
  "advance t p g =
     (if phase_index p \<le> phase_index (pg_phase g) then (g, False)
      else (g\<lparr>pg_phase := p, pg_started := t,
              pg_deadline := t + (if p = Authentication then pg_auth_timeout g else pg_timeout g)\<rparr>, True))"

definition wait_for_device_code :: "int \<Rightarrow> int option \<Rightarrow> progress \<Rightarrow> progress" where
  "wait_for_device_code t expires g =
     (let g1 = fst (advance t Authentication g)
      in case expires of
           Some k \<Rightarrow> if 0 < k then g1\<lparr>pg_deadline := t + (k + 30) * 1000\<rparr> else g1
         | None \<Rightarrow> g1)"

definition timed_out :: "int \<Rightarrow> progress \<Rightarrow> bool" where
  "timed_out t g \<longleftrightarrow> pg_phase g \<noteq> Spawned_phase \<and> pg_deadline g \<le> t"

definition timeout_message :: "int \<Rightarrow> jstr \<Rightarrow> int \<Rightarrow> jstr \<Rightarrow> progress \<Rightarrow> jstr" where
  "timeout_message t host port version g =
     js ''Timed out before joining the world: '' @ phase_text (pg_phase g) @ js '' ('' @ show_int ((t - pg_started g) div 1000)
       @ js ''s; '' @ host @ js '':'' @ show_int port @ js ''; version '' @ (if version = [] then js ''auto'' else version) @ js '')''"

definition timeout_re :: re where
  "timeout_re = Alt (sq [lit_i ''time'', opt (lit_i ''d''), spaces, lit_i ''out'']) (lit_i ''timeout'')"

definition failure_message :: "int \<Rightarrow> jstr \<Rightarrow> jstr \<Rightarrow> int \<Rightarrow> jstr \<Rightarrow> progress \<Rightarrow> jstr" where
  "failure_message t err host port version g =
     (if re_test timeout_re err then timeout_message t host port version g @ js ''; '' @ err else err)"

definition login_reasons :: "(jstr \<times> jstr) list" where
  "login_reasons = map (\<lambda>(a, b). (js a, js b))
     [(''failed_client'', ''The server requires a newer Bedrock client/protocol version''),
      (''failed_spawn'', ''The Bedrock client/protocol version is newer than the server supports''),
      (''failed_server_full'', ''The Bedrock server is full''),
      (''failed_invalid_tenant'', ''The account cannot access this Minecraft Education server''),
      (''failed_vanilla_edu'', ''The server requires Minecraft Education''),
      (''failed_edu_vanilla'', ''The server does not accept Minecraft Education clients'')]"

definition bedrock_login_failure :: "jstr option \<Rightarrow> jstr option" where
  "bedrock_login_failure st = (case st of
       None \<Rightarrow> None
     | Some s \<Rightarrow> if \<not> starts_with (js ''failed_'') s then None
         else Some (js ''Bedrock login rejected: '' @ (case map_of login_reasons s of Some r \<Rightarrow> r | None \<Rightarrow> s)
                @ js '' ('' @ s @ js '')''))"

section \<open>The process\<close>

record selection =
  sl_version :: jstr
  sl_protocol :: int
  sl_advertised :: int
  sl_negotiating :: bool

record bot_config =
  cf_host :: jstr
  cf_port :: int
  cf_version :: jstr
  cf_selected :: selection

record bot =
  bt_behavior :: behavior
  bt_progress :: progress
  bt_spawned :: bool
  bt_exiting :: bool
  bt_watchdog :: bool
  bt_ticking :: bool
  bt_local :: "int option"
  bt_warned :: "int option"
  bt_inventory_warned :: "int option"
  bt_skipped :: nat

definition tell :: "bot_out \<Rightarrow> bot \<Rightarrow> bot" where
  "tell x b = b\<lparr>bt_behavior := with_sender (emit x) (bt_behavior b)\<rparr>"

definition behave :: "(behavior \<Rightarrow> behavior) \<Rightarrow> bot \<Rightarrow> bot" where
  "behave f b = b\<lparr>bt_behavior := f (bt_behavior b)\<rparr>"

definition handle :: "(inventory \<Rightarrow> inventory) \<Rightarrow> bot \<Rightarrow> bot" where
  "handle f b = behave (with_inventory f) b"

definition step_to :: "int \<Rightarrow> phase \<Rightarrow> bot \<Rightarrow> bot" where
  "step_to t p b = b\<lparr>bt_progress := fst (advance t p (bt_progress b))\<rparr>"

definition version_failure :: "bot_config \<Rightarrow> jstr \<Rightarrow> bot \<Rightarrow> jstr" where
  "version_failure c message b =
     (if sl_negotiating (cf_selected c) \<and> \<not> bt_spawned b
      then message @ js ''; server advertised protocol '' @ show_int (sl_advertised (cf_selected c)) @ js '', client offered ''
        @ sl_version (cf_selected c) @ js '' (protocol '' @ show_int (sl_protocol (cf_selected c))
        @ js ''). The advertised newer protocol is not implemented; the server must accept this stable client version.''
      else message)"

text \<open>
  The process ends 50 milliseconds later; until then it runs on. The handlers of errors that nothing catches
  only end the process: the ticks and the watchdog go on, and an end that is under way is not looked at.
\<close>

definition end_process :: "bot \<Rightarrow> bot" where
  "end_process b = b\<lparr>bt_exiting := True\<rparr>"

definition shutdown_bot :: "bot \<Rightarrow> bot" where
  "shutdown_bot b = end_process (b\<lparr>bt_watchdog := False, bt_ticking := False\<rparr>)"

definition on_gone :: "bot_config \<Rightarrow> jstr \<Rightarrow> bot \<Rightarrow> bot" where
  "on_gone c reason b =
     (if bt_exiting b then b
      else shutdown_bot (tell (Gone (if bt_spawned b then (if reason = [] then None else Some reason)
             else Some (version_failure c (if reason = [] then js ''Connection closed'' else reason) b))) b))"

text \<open>A packet that could not be read: its name where it is known, the message of the decoder, and the whole message.\<close>

datatype bot_error = Read_error "jstr option" jstr jstr | Other_error jstr

fun error_text :: "bot_error \<Rightarrow> jstr" where
  "error_text (Read_error _ _ m) = m"
| "error_text (Other_error m) = m"

definition recoverable_packets :: "jstr list" where
  "recoverable_packets = map js [''add_player'', ''add_entity'', ''add_item_entity'', ''mob_equipment'', ''mob_armor_equipment'',
     ''set_entity_data'', ''crafting_data'', ''crafting_event'', ''update_trade'', ''update_equipment'',
     ''available_entity_identifiers'', ''level_event_generic'', ''structure_template_data_export_response'',
     ''position_tracking_db_broadcast'', ''creative_content'', ''sync_entity_property'', ''add_volume_entity'',
     ''editor_network'', ''jigsaw_structure_data'', ''update_block_properties'', ''block_entity_data'',
     ''inventory_content'', ''inventory_slot'', ''inventory_transaction'']"

definition inventory_packets :: "jstr list" where
  "inventory_packets = map js [''inventory_content'', ''inventory_slot'', ''inventory_transaction'']"

definition invalid_tag_re :: re where
  "invalid_tag_re = sq [Wb, lit ''Invalid tag:'', spaces, digits1, spaces, unit 62, spaces, lit ''20'', Wb]"

definition recover :: "bot_env \<Rightarrow> bot_error \<Rightarrow> bot \<Rightarrow> bot \<times> bool" where
  "recover e err b = (case err of
       Read_error (Some name) decode message \<Rightarrow>
         if \<not> bt_spawned b \<or> name \<notin> set recoverable_packets \<or> \<not> re_test invalid_tag_re decode then (b, False)
         else (let inventoryError = (name \<in> set inventory_packets);
                   b1 = (if inventoryError then handle (invalidate_after_decode_failure e) b else b);
                   b2 = (if name = js ''block_entity_data'' then handle clear_menu_titles b1 else b1);
                   b3 = b2\<lparr>bt_skipped := bt_skipped b2 + 1\<rparr>;
                   b4 = (if due (if inventoryError then bt_inventory_warned b3 else bt_warned b3) 30000 (bnow e)
                     then tell (Warned (js ''Bedrock: ung'' @ [252] @ js ''ltiges NBT-Paket verworfen; Verbindung wird weiter verarbeitet; ''
                            @ message @ js ''; verworfen insgesamt '' @ show_nat (bt_skipped b3)
                            @ (if inventoryError then js ''; AutoSell wartet auf vollst'' @ [228] @ js ''ndige Inventardaten'' else [])))
                          (if inventoryError then b3\<lparr>bt_inventory_warned := Some (bnow e)\<rparr> else b3\<lparr>bt_warned := Some (bnow e)\<rparr>)
                     else b3)
               in (b4, True))
     | _ \<Rightarrow> (b, False))"

datatype bot_command =
    Chat jstr
  | Configure behavior_config
  | Check_crouch
  | Clean
  | Read_multipliers
  | Pause int int
  | Quit

definition handle_command :: "loader \<Rightarrow> bot_env \<Rightarrow> bot_command \<Rightarrow> bot \<Rightarrow> bot" where
  "handle_command load e cmd b = (case cmd of
       Chat line \<Rightarrow> behave (enqueue_chat line) b
     | Configure conf \<Rightarrow> behave (update_config load e conf) b
     | Check_crouch \<Rightarrow> behave (check_crouch e) b
     | Clean \<Rightarrow> behave enqueue_clean_spawner b
     | Read_multipliers \<Rightarrow> behave enqueue_sell_multipliers b
     | Pause afterMs resumeMs \<Rightarrow> behave (pause_autosell e afterMs resumeMs) b
     | Quit \<Rightarrow> shutdown_bot b)"

subsection \<open>Packets\<close>

type_synonym point = "(number \<times> number \<times> number) option"

record start_packet =
  sp_entity :: "int option"
  sp_position :: point
  sp_pitch :: number
  sp_yaw :: number
  sp_tick :: "int option"
  sp_authoritative :: bool
  sp_dimension :: "int option"
  sp_data :: start_data

definition on_start :: "loader \<Rightarrow> bot_env \<Rightarrow> start_packet \<Rightarrow> bot \<Rightarrow> bot" where
  "on_start load e p b =
     (let b1 = behave (with_mouse (on_start_game load (sp_dimension p) (sp_data p))) (step_to (bnow e) World b);
          b2 = behave (with_sender (\<lambda>sd. (set_input_tick (case sp_tick p of None \<Rightarrow> 0 | Some t \<Rightarrow> t)
                 (update_position (sp_position p) (sp_pitch p) (sp_yaw p) False (set_entity (sp_entity p) sd)))
                 \<lparr>sd_authoritative := sp_authoritative p\<rparr>)) (b1\<lparr>bt_local := sp_entity p\<rparr>)
      in if bt_spawned b2 then behave (mark_teleported e) b2 else b2)"

definition on_change_dimension :: "bot_env \<Rightarrow> point \<Rightarrow> int option \<Rightarrow> bot \<Rightarrow> bot" where
  "on_change_dimension e position dimension b =
     behave (mark_teleported e) (behave (with_sender (update_position position Missing Missing True))
       (behave (with_mouse (reset_mouse dimension)) b))"

definition on_move_player :: "bot_env \<Rightarrow> int option \<Rightarrow> bool \<Rightarrow> point \<Rightarrow> number \<Rightarrow> number \<Rightarrow> bot \<Rightarrow> bot" where
  "on_move_player e i teleport position pitch yaw b =
     (if i \<noteq> None \<and> i = bt_local b
      then (let b1 = behave (with_sender (update_position position pitch yaw teleport)) b
            in if teleport then behave (mark_teleported e) b1 else b1)
      else b)"

definition on_entity_data :: "bot_env \<Rightarrow> int option \<Rightarrow> (meta_key \<times> meta_value) list option \<Rightarrow> bot \<Rightarrow> bot" where
  "on_entity_data e i metadata b =
     (let b1 = behave (\<lambda>h. h\<lparr>bh_mouse := observe_using i (sender_of h) metadata (bh_mouse h)\<rparr>) b
      in case observe_sneak i metadata (sender_of (bt_behavior b1)) of
           None \<Rightarrow> b1
         | Some sneaking \<Rightarrow> behave (on_sneak_status e sneaking) b1)"

definition on_text :: "bot_env \<Rightarrow> bool \<Rightarrow> jstr option \<Rightarrow> jstr \<Rightarrow> bot \<Rightarrow> bot" where
  "on_text e is_chat source message b =
     (if message = [] then b
      else (let sender = (case source of None \<Rightarrow> None | Some n \<Rightarrow> if n \<noteq> [] \<and> is_chat then Some n else None)
            in behave (on_chat e sender message) (tell (Chatted sender message) b)))"

definition on_session :: "bot_env \<Rightarrow> (jstr \<times> jstr) option \<Rightarrow> bot \<Rightarrow> bot" where
  "on_session e profile b =
     (if \<not> snd (advance (bnow e) Transport (bt_progress b)) then b
      else (let b1 = step_to (bnow e) Transport b;
                b2 = (case profile of None \<Rightarrow> b1 | Some (name, uuid) \<Rightarrow> if name = [] then b1 else tell (Profile name uuid) b1)
            in tell (Behavior_log (js ''Bedrock: Session ready; establishing RakNet/UDP connection'')) b2))"

definition on_mouse :: "(sender \<Rightarrow> mouse \<Rightarrow> mouse) \<Rightarrow> bot \<Rightarrow> bot" where
  "on_mouse f b = behave (\<lambda>h. h\<lparr>bh_mouse := f (sender_of h) (bh_mouse h)\<rparr>) b"

datatype inv_packet =
    Block_entity_packet "place option" "jstr option"
  | Content_packet window "item list option"
  | Slot_packet window "int option" item
  | Open_packet window jstr "place option"
  | Close_packet window
  | Response_packet "response list"

datatype bot_event =
    Tick_event
  | Watchdog
  | Device_code "int option"
  | Session "(jstr \<times> jstr) option"
  | Logging_in
  | Resource_packs
  | Play_status "jstr option"
  | Join
  | Spawn
  | Leave jstr
  | Error_event bot_error
  | Start_game start_packet
  | Change_dimension point "int option"
  | Move_player "int option" bool point number number
  | Inventory_packet inv_packet
  | Mob_equipment "int option" "int option" item
  | Subchunk_packet bool int "cell option" "subchunk_entry list"
  | Item_registry "json option"
  | Level_chunk bool "bytes option" "int option" "int option" "int option" "int option"
  | Update_block "cell option" int "int option"
  | Entity_packet string entity_packet
  | Entity_data "int option" "(meta_key \<times> meta_value) list option"
  | Text_packet bool "jstr option" jstr
  | Supervisor bot_command
  | Uncaught jstr
  | Unhandled jstr

fun on_inventory_packet :: "bot_env \<Rightarrow> inv_packet \<Rightarrow> inventory \<Rightarrow> inventory" where
  "on_inventory_packet e (Block_entity_packet p n) s = on_block_entity e p n s"
| "on_inventory_packet e (Content_packet w xs) s = on_content w xs s"
| "on_inventory_packet e (Slot_packet w k i) s = on_slot w k i s"
| "on_inventory_packet e (Open_packet w ty p) s = on_open e w ty p s"
| "on_inventory_packet e (Close_packet w) s = on_close w s"
| "on_inventory_packet e (Response_packet rs) s = on_response e rs s"

fun bot_step :: "loader \<Rightarrow> bot_config \<Rightarrow> bot_env \<times> bot_event \<Rightarrow> bot \<Rightarrow> bot" where
  "bot_step load c (e, Tick_event) b = (if bt_ticking b then behave (on_tick e) b else b)"
| "bot_step load c (e, Watchdog) b =
     (if bt_watchdog b \<and> timed_out (bnow e) (bt_progress b)
      then shutdown_bot (tell (Connection_failed (version_failure c (timeout_message (bnow e) (cf_host c) (cf_port c)
             (cf_version c) (bt_progress b)) b)) b)
      else b)"
| "bot_step load c (e, Device_code k) b = b\<lparr>bt_progress := wait_for_device_code (bnow e) k (bt_progress b)\<rparr>"
| "bot_step load c (e, Session p) b = on_session e p b"
| "bot_step load c (e, Logging_in) b =
     tell (Behavior_log (js ''Bedrock: Transport connected; sending server login'')) (step_to (bnow e) Login_phase b)"
| "bot_step load c (e, Resource_packs) b = step_to (bnow e) Resources b"
| "bot_step load c (e, Play_status st) b = (case bedrock_login_failure st of
       None \<Rightarrow> b
     | Some f \<Rightarrow> if bt_exiting b then b else shutdown_bot (tell (Connection_failed (version_failure c f b)) b))"
| "bot_step load c (e, Join) b = tell Logged_in (behave mark_joining (step_to (bnow e) Resources b))"
| "bot_step load c (e, Spawn) b =
     tell Joined (behave (mark_spawned e) ((step_to (bnow e) Spawned_phase b)\<lparr>bt_watchdog := False, bt_spawned := True\<rparr>))"
| "bot_step load c (e, Leave reason) b = on_gone c reason b"
| "bot_step load c (e, Error_event err) b =
     (if bt_exiting b then b
      else case recover e err b of
          (b1, True) \<Rightarrow> b1
        | (b1, False) \<Rightarrow> shutdown_bot (tell (Connection_failed (version_failure c (failure_message (bnow e) (error_text err)
             (cf_host c) (cf_port c) (cf_version c) (bt_progress b1)) b1)) b1))"
| "bot_step load c (e, Start_game p) b = on_start load e p b"
| "bot_step load c (e, Change_dimension p d) b = on_change_dimension e p d b"
| "bot_step load c (e, Move_player i teleport p pitch yaw) b =
     on_mouse (\<lambda>sd. on_entity ''move_player'' sd \<lparr>ep_runtime = i, ep_x = None, ep_y = None, ep_z = None,
         ep_position = (case p of Some (Finite x, Finite y, Finite z) \<Rightarrow> Some \<lparr>vx = x, vy = y, vz = z\<rparr> | _ \<Rightarrow> None),
         ep_self = None, ep_unique = None, ep_type = []\<rparr>) (on_move_player e i teleport p pitch yaw b)"
| "bot_step load c (e, Inventory_packet p) b = handle (on_inventory_packet e p) b"
| "bot_step load c (e, Mob_equipment i slot item) b = (if i \<noteq> None \<and> i = bt_local b then handle (on_equipment slot item) b else b)"
| "bot_step load c (e, Subchunk_packet cached d start es) b = on_mouse (\<lambda>sd. on_subchunk (sd_position sd) cached d start es) b"
| "bot_step load c (e, Item_registry states) b = on_mouse (\<lambda>_. on_item_registry load states) b"
| "bot_step load c (e, Level_chunk cached p x z d n) b = on_mouse (\<lambda>sd. on_level_chunk (sd_position sd) cached p x z d n) b"
| "bot_step load c (e, Update_block p layer r) b = on_mouse (\<lambda>_. on_update_block p layer r) b"
| "bot_step load c (e, Entity_packet name p) b = on_mouse (\<lambda>sd. on_entity name sd p) b"
| "bot_step load c (e, Entity_data i m) b = on_entity_data e i m b"
| "bot_step load c (e, Text_packet is_chat source message) b = on_text e is_chat source message b"
| "bot_step load c (e, Supervisor cmd) b = handle_command load e cmd b"
| "bot_step load c (e, Uncaught m) b = end_process (tell (Fatal (js ''Uncaught error: '' @ m)) b)"
| "bot_step load c (e, Unhandled m) b = end_process (tell (Fatal (js ''Unhandled rejection: '' @ m)) b)"

definition new_bot :: "loader \<Rightarrow> bot_env \<Rightarrow> bot_config \<Rightarrow> jstr \<Rightarrow> behavior_config \<Rightarrow> int \<Rightarrow> int \<Rightarrow> progress \<Rightarrow> bot" where
  "new_bot load e c username conf afterMs resumeMs g = \<lparr>
     bt_behavior = new_behavior load e (sl_version (cf_selected c)) conf afterMs resumeMs (new_sender username),
     bt_progress = g, bt_spawned = False, bt_exiting = False, bt_watchdog = True, bt_ticking = True, bt_local = None,
     bt_warned = None, bt_inventory_warned = None, bt_skipped = 0\<rparr>"

end
