(* ===== verification/Bedrock_Inventory_Props.thy ===== *)
theory Bedrock_Inventory_Props
  imports Bedrock_Inventory Histories
begin

text \<open>
  What the automation of the sell menu guarantees: the events of the inventory as one step function, and the
  properties of its runs.
\<close>

section \<open>Events\<close>

datatype inv_event =
    Equipment "int option" item
  | Request_multipliers
  | Request
  | Reset
  | Invalidate
  | Clear_titles
  | Interrupt bool bool
  | Open window jstr "place option"
  | Block_entity "place option" "jstr option"
  | Close window
  | Content window "item list option"
  | Slot window "int option" item
  | Response "response list"
  | Tick_multipliers
  | Tick

fun inv_step :: "bot_env \<times> inv_event \<Rightarrow> inventory \<Rightarrow> inventory" where
  "inv_step (e, Equipment k i) s = on_equipment k i s"
| "inv_step (e, Request_multipliers) s = request_multipliers (bnow e) s"
| "inv_step (e, Request) s = request (bnow e) s"
| "inv_step (e, Reset) s = reset_inventory s"
| "inv_step (e, Invalidate) s = invalidate_after_decode_failure e s"
| "inv_step (e, Clear_titles) s = clear_menu_titles s"
| "inv_step (e, Interrupt f m) s = interrupt e f m s"
| "inv_step (e, Open w ty p) s = on_open e w ty p s"
| "inv_step (e, Block_entity p n) s = on_block_entity e p n s"
| "inv_step (e, Close w) s = on_close w s"
| "inv_step (e, Content w xs) s = on_content w xs s"
| "inv_step (e, Slot w k i) s = on_slot w k i s"
| "inv_step (e, Response rs) s = on_response e rs s"
| "inv_step (e, Tick_multipliers) s = tick_multipliers e s"
| "inv_step (e, Tick) s = tick_inventory e s"

definition inv_log :: "inventory \<Rightarrow> bot_out list" where
  "inv_log s = sd_log (iv_sender s)"

fun moves :: "bot_out \<Rightarrow> bool" where
  "moves (Sent (P_place _ _ _ _ _)) = True"
| "moves (Sent (P_move _ _ _ _)) = True"
| "moves _ = False"

section \<open>What an operation adds to the log\<close>

definition silent :: "inventory \<Rightarrow> inventory \<Rightarrow> bool" where
  "silent s s' \<longleftrightarrow> (\<exists>xs. inv_log s' = inv_log s @ xs \<and> list_all (\<lambda>x. \<not> moves x) xs)"

lemma silent_same: "inv_log s' = inv_log s \<Longrightarrow> silent s s'"
  by (simp add: silent_def)

lemma silent_trans: "silent s s' \<Longrightarrow> silent s' s'' \<Longrightarrow> silent s s''"
  by (fastforce simp: silent_def)

text \<open>The log and the counter of the request ids are changed by few operations.\<close>

lemma same_log [simp]:
  "inv_log (clear_work s) = inv_log s" "inv_log (s\<lparr>iv_container := c\<rparr>) = inv_log s" "inv_log (s\<lparr>iv_scan := q\<rparr>) = inv_log s"
  "inv_log (s\<lparr>iv_player := p\<rparr>) = inv_log s" "inv_log (s\<lparr>iv_pending := w\<rparr>) = inv_log s"
  "inv_log (s\<lparr>iv_titles := t\<rparr>) = inv_log s" "inv_log (s\<lparr>iv_guard := g\<rparr>) = inv_log s" "inv_log (s\<lparr>iv_cancelled := g\<rparr>) = inv_log s"
  "inv_log (s\<lparr>iv_needs_full := b\<rparr>) = inv_log s" "inv_log (s\<lparr>iv_failed := f\<rparr>) = inv_log s" "inv_log (s\<lparr>iv_hotbar := h\<rparr>) = inv_log s"
  "inv_log (s\<lparr>iv_opened := g\<rparr>) = inv_log s" "inv_log (s\<lparr>iv_targets := ts\<rparr>) = inv_log s" "inv_log (s\<lparr>iv_next_id := g\<rparr>) = inv_log s"
  "inv_log (s\<lparr>iv_requested := r\<rparr>) = inv_log s"
  by (simp_all add: inv_log_def clear_work_def)

lemma silent_upd [simp]:
  "silent s (clear_work s') = silent s s'" "silent s (s'\<lparr>iv_container := c\<rparr>) = silent s s'" "silent s (s'\<lparr>iv_scan := q\<rparr>) = silent s s'"
  "silent s (s'\<lparr>iv_player := p\<rparr>) = silent s s'" "silent s (s'\<lparr>iv_pending := w\<rparr>) = silent s s'"
  "silent s (s'\<lparr>iv_titles := t\<rparr>) = silent s s'" "silent s (s'\<lparr>iv_guard := g\<rparr>) = silent s s'"
  "silent s (s'\<lparr>iv_cancelled := g\<rparr>) = silent s s'" "silent s (s'\<lparr>iv_needs_full := b\<rparr>) = silent s s'"
  "silent s (s'\<lparr>iv_failed := f\<rparr>) = silent s s'" "silent s (s'\<lparr>iv_hotbar := h\<rparr>) = silent s s'"
  "silent s (s'\<lparr>iv_opened := g\<rparr>) = silent s s'" "silent s (s'\<lparr>iv_targets := ts\<rparr>) = silent s s'"
  "silent s (s'\<lparr>iv_next_id := g\<rparr>) = silent s s'" "silent s (s'\<lparr>iv_requested := r\<rparr>) = silent s s'" "silent s s"
  by (simp_all add: silent_def)

lemma silent_say [simp]: "silent s s' \<Longrightarrow> \<not> moves x \<Longrightarrow> silent s (say x s')"
  by (auto simp: silent_def inv_log_def say_def)

lemma silent_send [simp]:
  "silent s s' \<Longrightarrow> \<not> moves (Sent p) \<Longrightarrow> silent s (s'\<lparr>iv_sender := fst (send_packet e p (iv_sender s'))\<rparr>)"
  by (cases rule: send_packet_cases [of e p "iv_sender s'"]) (auto simp: silent_def inv_log_def)

lemma silent_close_menu [simp]: "silent s s' \<Longrightarrow> silent s (close_menu e s')"
  by (simp add: close_menu_def Let_def split: option.split)

lemma silent_cancel_scan [simp]: "silent s s' \<Longrightarrow> silent s (cancel_scan s')"
  by (simp add: cancel_scan_def)

lemma silent_interrupt [simp]: "silent s s' \<Longrightarrow> silent s (interrupt e f m s')"
  by (simp add: interrupt_def Let_def)

lemma silent_log_failure [simp]: "silent s s' \<Longrightarrow> silent s (log_failure e r s')"
  by (simp add: log_failure_def)

lemma silent_fail_sale [simp]: "silent s s' \<Longrightarrow> silent s (fail_sale e r s')"
  by (simp add: fail_sale_def)

lemma silent_confirm [simp]: "silent s s' \<Longrightarrow> silent s (confirm_legacy s')"
  by (simp add: confirm_legacy_def split: option.split)

lemma silent_apply [simp]: "silent s s' \<Longrightarrow> silent s (apply_container i kc s')"
  by (simp add: apply_container_def split: prod.split)

lemma silent_fold: "(\<And>x s'. silent s s' \<Longrightarrow> silent s (f x s')) \<Longrightarrow> silent s s' \<Longrightarrow> silent s (fold f xs s')"
  by (induction xs arbitrary: s') auto

lemma silent_respond [simp]: "silent s s' \<Longrightarrow> silent s (respond e r s')"
  unfolding respond_def by (simp add: silent_fold split: option.split)

lemma silent_step: "snd ev \<noteq> Tick \<Longrightarrow> silent s (inv_step ev s)"
proof (cases "(ev, s)" rule: inv_step.cases)
  case (13 e rs s)
  then show ?thesis by (simp add: on_response_def silent_fold)
next
  case (8 e w ty p s)
  then show ?thesis by (simp add: on_open_def Let_def split: option.split)
next
  case (9 e p n s)
  then show ?thesis by (simp add: on_block_entity_def Let_def split: option.split)
next
  case (14 e s)
  then show ?thesis by (simp add: tick_multipliers_def Let_def split: option.split)
qed (simp_all add: on_equipment_def request_multipliers_def request_def reset_inventory_def
  invalidate_after_decode_failure_def clear_menu_titles_def on_close_def on_content_def on_slot_def Let_def
  split: option.split)

section \<open>The one step that moves items\<close>

lemma find_index_Some: "find_index P xs = Some i \<Longrightarrow> i < length xs \<and> P (xs ! i)"
  by (induction xs arbitrary: i) (auto split: if_splits)

definition moved :: "bot_env \<Rightarrow> container \<Rightarrow> slots \<Rightarrow> slots \<Rightarrow> nat \<Rightarrow> inventory \<Rightarrow> inventory \<Rightarrow> bool" where
  "moved e c p xs source s s' \<longleftrightarrow> (\<exists>destination i. item_at (Some p) source = Some i \<and> present (Some i)
     \<and> destination < length xs \<and> \<not> present (xs ! destination)
     \<and> inv_log s' = inv_log s @ [Sent (transfer_packet s c source destination i)]
     \<and> iv_pending s' = Some \<lparr>pd_id = iv_next_id s, pd_source = source,
         pd_destination = destination, pd_item = i, pd_sent = bnow e\<rparr>
     \<and> iv_next_id s' = iv_next_id s - 1 \<and> iv_container s' = iv_container s)"

lemma cleared [simp]: "iv_pending (clear_work s) = None" "iv_requested (clear_work s) = None" "iv_targets (clear_work s) = None"
    "iv_container (clear_work s) = iv_container s"
  by (simp_all add: clear_work_def)

lemma closed [simp]: "iv_pending (close_menu e s) = None" "iv_container (close_menu e s) = None" "iv_requested (close_menu e s) = None"
  by (simp_all add: close_menu_def Let_def)

lemma interrupted [simp]: "iv_pending (interrupt e f m s) = None" "iv_requested (interrupt e f m s) = None"
  by (simp_all add: interrupt_def Let_def)

lemma failed [simp]: "iv_pending (fail_sale e r s) = None" "iv_requested (fail_sale e r s) = None"
  by (simp_all add: fail_sale_def)

lemma next_id_same [simp]:
  "iv_next_id (clear_work s) = iv_next_id s" "iv_next_id (say x s) = iv_next_id s" "iv_next_id (cancel_scan s) = iv_next_id s"
  "iv_next_id (close_menu e s) = iv_next_id s" "iv_next_id (interrupt e f m s) = iv_next_id s"
  "iv_next_id (log_failure e r s) = iv_next_id s" "iv_next_id (fail_sale e r s) = iv_next_id s"
  "iv_next_id (confirm_legacy s) = iv_next_id s" "iv_next_id (apply_container i kc s) = iv_next_id s"
proof -
  show 1: "iv_next_id (clear_work s) = iv_next_id s" for s by (simp add: clear_work_def)
  show 2: "iv_next_id (say x s) = iv_next_id s" for x s by (simp add: say_def)
  show 3: "iv_next_id (cancel_scan s) = iv_next_id s" for s by (simp add: cancel_scan_def 2)
  show 4: "iv_next_id (close_menu e s) = iv_next_id s" for s by (simp add: close_menu_def Let_def 1 split: option.split)
  show 5: "iv_next_id (interrupt e f m s) = iv_next_id s" for f m s by (simp add: interrupt_def Let_def 1 3 4)
  show 6: "iv_next_id (log_failure e r s) = iv_next_id s" for r s by (simp add: log_failure_def 2)
  show "iv_next_id (fail_sale e r s) = iv_next_id s" by (simp add: fail_sale_def 5 6)
  show "iv_next_id (confirm_legacy s) = iv_next_id s" by (simp add: confirm_legacy_def split: option.split)
  show "iv_next_id (apply_container i kc s) = iv_next_id s" by (simp add: apply_container_def split: prod.split)
qed

lemma sell_next_cases:
  "(silent s (sell_next e c p xs ts s) \<and> iv_pending (sell_next e c p xs ts s) = None
      \<and> iv_next_id (sell_next e c p xs ts s) \<le> iv_next_id s)
   \<or> (\<exists>source \<in> set ts. moved e c p xs source s (sell_next e c p xs ts s))"
proof (induction ts)
  case (Cons source later)
  show ?case
  proof (cases "if present (item_at (Some p) source) then item_at (Some p) source else None")
    case None
    then show ?thesis using Cons by (auto simp: Let_def)
  next
    case (Some i)
    then have i: "item_at (Some p) source = Some i" "present (Some i)" by (auto split: if_splits)
    show ?thesis
    proof (cases "find_index (\<lambda>x. \<not> present x) xs")
      case None
      then show ?thesis by (simp add: i)
    next
      case (Some d)
      let ?s1 = "s\<lparr>iv_next_id := iv_next_id s - 1, iv_targets := Some later\<rparr>"
      show ?thesis
      proof (cases "sd_authoritative (iv_sender s) \<and> usual_stack i = None")
        case True
        then show ?thesis by (simp add: i Some)
      next
        case False
        show ?thesis
        proof (cases rule: send_packet_cases [of e "transfer_packet s c source d i" "iv_sender s"])
          case 1
          then have "moved e c p xs source s (sell_next e c p xs (source # later) s)"
            using find_index_Some [OF Some] False
            by (auto simp: moved_def i Some Let_def inv_log_def intro!: exI [of _ d] exI [of _ i])
          then show ?thesis by auto
        next
          case (2 w m)
          have "silent s (?s1\<lparr>iv_sender := emit (Warned w) (iv_sender s\<lparr>sd_warned := m\<rparr>)\<rparr>)"
            by (simp add: silent_def inv_log_def)
          then show ?thesis using 2 False by (simp add: i Some Let_def)
        next
          case 3
          have "silent s (?s1\<lparr>iv_sender := iv_sender s\<rparr>)" by (simp add: silent_def inv_log_def)
          then show ?thesis using 3 False by (simp add: i Some Let_def)
        qed
      qed
    qed
  qed
qed simp

text \<open>What a tick that moves an item has checked.\<close>

definition may_sell :: "bot_env \<Rightarrow> inventory \<Rightarrow> container \<Rightarrow> slots \<Rightarrow> slots \<Rightarrow> bool" where
  "may_sell e s c p xs \<longleftrightarrow> iv_container s = Some c \<and> ct_owned c \<and> ct_items c = Some xs \<and> iv_player s = Some p
     \<and> iv_pending s = None \<and> \<not> iv_needs_full s \<and> bnow e - iv_opened s < 10000"

lemma tick_cases:
  "(silent s (tick_inventory e s) \<and> (iv_pending (tick_inventory e s) = iv_pending s \<or> iv_pending (tick_inventory e s) = None)
      \<and> iv_next_id (tick_inventory e s) \<le> iv_next_id s)
   \<or> (\<exists>c p xs source. may_sell e s c p xs \<and> moved e c p xs source s (tick_inventory e s))"
proof (cases "\<exists>c p xs. may_sell e s c p xs")
  case True
  then obtain c p xs where m: "may_sell e s c p xs" by blast
  define ts where "ts = (case iv_targets s of Some ts \<Rightarrow> ts | None \<Rightarrow> sell_targets p)"
  have t: "tick_inventory e s = sell_next e c p xs ts (s\<lparr>iv_targets := Some ts\<rparr>)"
    using m by (simp add: tick_inventory_def may_sell_def busy_def owned_def Let_def ts_def)
  have mv: "moved e c p xs source s x = moved e c p xs source (s\<lparr>iv_targets := Some ts\<rparr>) x" for source x
    by (simp add: moved_def transfer_packet_def)
  have sl: "silent s x = silent (s\<lparr>iv_targets := Some ts\<rparr>) x" for x by (simp add: silent_def)
  from sell_next_cases [of "s\<lparr>iv_targets := Some ts\<rparr>" e c p xs ts] show ?thesis
  proof
    assume "\<exists>source \<in> set ts. moved e c p xs source (s\<lparr>iv_targets := Some ts\<rparr>) (sell_next e c p xs ts (s\<lparr>iv_targets := Some ts\<rparr>))"
    then obtain source where "moved e c p xs source s (sell_next e c p xs ts (s\<lparr>iv_targets := Some ts\<rparr>))"
      unfolding mv [symmetric] by blast
    then show ?thesis unfolding t using m by blast
  next
    assume a: "silent (s\<lparr>iv_targets := Some ts\<rparr>) (sell_next e c p xs ts (s\<lparr>iv_targets := Some ts\<rparr>))
      \<and> iv_pending (sell_next e c p xs ts (s\<lparr>iv_targets := Some ts\<rparr>)) = None
      \<and> iv_next_id (sell_next e c p xs ts (s\<lparr>iv_targets := Some ts\<rparr>)) \<le> iv_next_id (s\<lparr>iv_targets := Some ts\<rparr>)"
    then have "silent s (sell_next e c p xs ts (s\<lparr>iv_targets := Some ts\<rparr>))" unfolding sl by blast
    then show ?thesis using a by (simp add: t)
  qed
next
  case False
  then have "silent s (tick_inventory e s) \<and> (iv_pending (tick_inventory e s) = iv_pending s \<or> iv_pending (tick_inventory e s) = None)
      \<and> iv_next_id (tick_inventory e s) \<le> iv_next_id s"
    by (auto simp: tick_inventory_def may_sell_def owned_def busy_def Let_def bind_eq_Some_conv split: option.splits)
  then show ?thesis by blast
qed


section \<open>The invariant\<close>

definition request_ids :: "bot_out list \<Rightarrow> int list" where
  "request_ids out = concat (map (\<lambda>x. case x of Sent (P_place i _ _ _ _) \<Rightarrow> [i] | _ \<Rightarrow> []) out)"

lemma request_ids_append [simp]: "request_ids (xs @ ys) = request_ids xs @ request_ids ys"
  by (simp add: request_ids_def)

lemma request_ids_silent: "list_all (\<lambda>x. \<not> moves x) xs \<Longrightarrow> request_ids xs = []"
proof (induction xs)
  case (Cons x xs)
  then show ?case by (cases x rule: moves.cases) (auto simp: request_ids_def)
qed (simp add: request_ids_def)

lemma ids_silent: "silent s s' \<Longrightarrow> request_ids (inv_log s') = request_ids (inv_log s)"
  by (auto simp: silent_def request_ids_silent)

definition own_ok :: "inventory \<Rightarrow> bool" where
  "own_ok s \<longleftrightarrow> (\<forall>c. iv_container s = Some c \<longrightarrow> ct_owned c \<longrightarrow> ct_type c = js ''container'' \<and> \<not> ct_manual c)"

definition ids_ok :: "inventory \<Rightarrow> bool" where
  "ids_ok s \<longleftrightarrow> sorted_wrt (>) (request_ids (inv_log s)) \<and> (\<forall>i \<in> set (request_ids (inv_log s)). iv_next_id s < i)
     \<and> (\<forall>p. iv_pending s = Some p \<longrightarrow> iv_next_id s < pd_id p)"

lemma next_id_fold: "(\<And>x s. iv_next_id (f x s) = iv_next_id s) \<Longrightarrow> iv_next_id (fold f xs s) = iv_next_id s"
  by (induction xs arbitrary: s) auto

lemma next_id_respond [simp]: "iv_next_id (respond e r s) = iv_next_id s"
  by (simp add: respond_def next_id_fold split: option.split)

lemma pending_fold: "(\<And>x s. iv_pending (f x s) = iv_pending s) \<Longrightarrow> iv_pending (fold f xs s) = iv_pending s"
  by (induction xs arbitrary: s) auto

text \<open>A step other than the tick leaves the counter, and at most drops the open transfer.\<close>

lemma next_id_step: "snd ev \<noteq> Tick \<Longrightarrow> iv_next_id (inv_step ev s) = iv_next_id s"
  by (cases "(ev, s)" rule: inv_step.cases)
    (simp_all add: on_response_def next_id_fold on_open_def on_block_entity_def tick_multipliers_def on_equipment_def
      request_multipliers_def request_def reset_inventory_def invalidate_after_decode_failure_def clear_menu_titles_def
      on_close_def on_content_def on_slot_def Let_def split: option.split)

lemma pending_same [simp]:
  "iv_pending (say x s) = iv_pending s" "iv_pending (cancel_scan s) = iv_pending s" "iv_pending (log_failure e r s) = iv_pending s"
  "iv_pending (apply_container i kc s) = iv_pending s"
  by (simp_all add: say_def cancel_scan_def log_failure_def apply_container_def split: prod.split)

definition pend :: "pending option \<Rightarrow> inventory \<Rightarrow> bool" where
  "pend q s \<longleftrightarrow> iv_pending s = q \<or> iv_pending s = None"

lemma pend_upd [simp]:
  "pend q (s\<lparr>iv_container := c\<rparr>) = pend q s" "pend q (s\<lparr>iv_player := p\<rparr>) = pend q s" "pend q (s\<lparr>iv_needs_full := b\<rparr>) = pend q s"
  "pend (iv_pending s) s" "pend q (s\<lparr>iv_pending := None\<rparr>)" "pend q (apply_container i kc s) = pend q s"
  "pend q (log_failure e r s) = pend q s"
  by (simp_all add: pend_def)

lemma pend_confirm [simp]: "pend q s \<Longrightarrow> pend q (confirm_legacy s)"
  by (auto simp: confirm_legacy_def pend_def split: option.split)

lemma pend_respond [simp]: "pend q s \<Longrightarrow> pend q (respond e r s)"
  by (simp add: respond_def split: option.split)

lemma pend_responses [simp]: "pend q s \<Longrightarrow> pend q (fold (respond e) rs s)"
  by (induction rs arbitrary: s) auto

lemma pending_step: "snd ev \<noteq> Tick \<Longrightarrow> pend (iv_pending s) (inv_step ev s)"
proof (cases "(ev, s)" rule: inv_step.cases)
  case (11 e w xs s)
  then show ?thesis by (simp add: on_content_def split: option.split)
next
  case (12 e w k i s)
  then show ?thesis by (simp add: on_slot_def split: option.split)
next
  case (13 e rs s)
  then show ?thesis by (simp add: on_response_def)
qed (simp_all add: on_open_def on_block_entity_def tick_multipliers_def on_equipment_def
      request_multipliers_def request_def reset_inventory_def invalidate_after_decode_failure_def clear_menu_titles_def
      on_close_def Let_def pend_def split: option.split)

lemma ids_ok_step: "ids_ok s \<Longrightarrow> ids_ok (inv_step ev s)"
proof (cases "snd ev = Tick")
  case False
  then show "ids_ok s \<Longrightarrow> ?thesis"
    using ids_silent [OF silent_step [OF False]] next_id_step [OF False] pending_step [OF False, of s] by (auto simp: ids_ok_def pend_def)
next
  case True
  then obtain e where ev: "ev = (e, Tick)" by (cases ev) auto
  assume ok: "ids_ok s"
  have "ids_ok (tick_inventory e s)"
    using tick_cases [of s e]
  proof
    assume a: "silent s (tick_inventory e s) \<and> (iv_pending (tick_inventory e s) = iv_pending s \<or> iv_pending (tick_inventory e s) = None)
      \<and> iv_next_id (tick_inventory e s) \<le> iv_next_id s"
    then have "request_ids (inv_log (tick_inventory e s)) = request_ids (inv_log s)" by (blast intro: ids_silent)
    then show "ids_ok (tick_inventory e s)" using ok a by (cases "iv_pending s") (auto simp: ids_ok_def)
  next
    assume "\<exists>c p xs source. may_sell e s c p xs \<and> moved e c p xs source s (tick_inventory e s)"
    then obtain c p xs source where "moved e c p xs source s (tick_inventory e s)" by blast
    then obtain d i where m: "inv_log (tick_inventory e s) = inv_log s @ [Sent (transfer_packet s c source d i)]"
        "iv_pending (tick_inventory e s) = Some \<lparr>pd_id = iv_next_id s, pd_source = source, pd_destination = d, pd_item = i, pd_sent = bnow e\<rparr>"
        "iv_next_id (tick_inventory e s) = iv_next_id s - 1"
      unfolding moved_def by blast
    have "request_ids [Sent (transfer_packet s c source d i)] = (if sd_authoritative (iv_sender s) then [iv_next_id s] else [])"
      by (simp add: request_ids_def transfer_packet_def)
    then show "ids_ok (tick_inventory e s)" using ok by (fastforce simp: ids_ok_def m sorted_wrt_append)
  qed
  then show ?thesis by (simp add: ev)
qed


section \<open>Own menus\<close>

text \<open>Operations either leave the window as it is, up to its items, or close it.\<close>

definition like :: "container option \<Rightarrow> container option \<Rightarrow> bool" where
  "like c c' \<longleftrightarrow> c' = None \<or> (\<exists>a b. c = Some a \<and> c' = Some b \<and> ct_owned b = ct_owned a \<and> ct_type b = ct_type a
     \<and> ct_manual b = ct_manual a \<and> ct_id b = ct_id a \<and> ct_position b = ct_position a)"

lemma like_refl [simp]: "like c c"
  by (cases c) (auto simp: like_def)

lemma like_None [simp]: "like c None"
  by (simp add: like_def)

lemma like_items [simp]: "like c (map_option (ct_items_update f) d) = like c d" "like c (Some (a\<lparr>ct_items := x\<rparr>)) = like c (Some a)"
  by (auto simp: like_def)

lemma container_same [simp]:
  "iv_container (say x s) = iv_container s" "iv_container (cancel_scan s) = iv_container s"
  "iv_container (log_failure e r s) = iv_container s" "iv_container (confirm_legacy s) = iv_container s"
  by (simp_all add: say_def cancel_scan_def log_failure_def confirm_legacy_def split: option.split)

lemma like_interrupt [simp]: "like c (iv_container s) \<Longrightarrow> like c (iv_container (interrupt e f m s))"
  by (simp add: interrupt_def Let_def)

lemma like_fail [simp]: "like c (iv_container s) \<Longrightarrow> like c (iv_container (fail_sale e r s))"
  by (simp add: fail_sale_def)

lemma like_apply [simp]: "like c (iv_container s) \<Longrightarrow> like c (iv_container (apply_container i kc s))"
  by (cases "iv_container s") (auto simp: apply_container_def split: prod.split)

lemma like_fold: "(\<And>x s. like c (iv_container s) \<Longrightarrow> like c (iv_container (f x s)))
    \<Longrightarrow> like c (iv_container s) \<Longrightarrow> like c (iv_container (fold f xs s))"
  by (induction xs arbitrary: s) auto

lemma like_respond [simp]: "like c (iv_container s) \<Longrightarrow> like c (iv_container (respond e r s))"
  unfolding respond_def by (simp add: like_fold split: option.split)

lemma like_tick: "like (iv_container s) (iv_container (tick_inventory e s))"
proof -
  have n: "like c (iv_container s) \<Longrightarrow> like c (iv_container (sell_next e d p xs ts s))" for c d p xs ts s
    by (induction ts) (auto simp: Let_def split: option.split prod.split)
  show ?thesis by (simp add: tick_inventory_def n Let_def split: option.split)
qed

lemma like_step:
  "(\<And>e w ty p. ev \<noteq> (e, Open w ty p)) \<Longrightarrow> (\<And>e p n. ev \<noteq> (e, Block_entity p n)) \<Longrightarrow> like (iv_container s) (iv_container (inv_step ev s))"
proof (cases "(ev, s)" rule: inv_step.cases)
  case (11 e w xs s)
  then show ?thesis by (auto simp: on_content_def split: option.split)
next
  case (12 e w k i s)
  then show ?thesis by (auto simp: on_slot_def split: option.split)
next
  case (13 e rs s)
  then show ?thesis by (simp add: on_response_def like_fold)
next
  case (15 e s)
  then show ?thesis by (simp add: like_tick)
qed (simp_all add: tick_multipliers_def on_equipment_def request_multipliers_def request_def reset_inventory_def
      invalidate_after_decode_failure_def clear_menu_titles_def on_close_def Let_def split: option.split)

lemma own_ok_like: "own_ok s \<Longrightarrow> like (iv_container s) (iv_container s') \<Longrightarrow> own_ok s'"
  by (auto simp: own_ok_def like_def)

lemma own_ok_upd [simp]:
  "own_ok (s\<lparr>iv_titles := t\<rparr>) = own_ok s" "own_ok (s\<lparr>iv_scan := q\<rparr>) = own_ok s" "own_ok (close_menu e s)"
  "own_ok (s\<lparr>iv_container := Some c\<rparr>) \<longleftrightarrow> (ct_owned c \<longrightarrow> ct_type c = js ''container'' \<and> \<not> ct_manual c)"
  by (auto simp: own_ok_def)

lemma own_ok_step:
  assumes "own_ok s"
  shows "own_ok (inv_step ev s)"
proof (cases "(\<exists>e w ty p. ev = (e, Open w ty p)) \<or> (\<exists>e p n. ev = (e, Block_entity p n))")
  case True
  then show ?thesis
  proof (elim disjE exE)
    fix e w ty p assume "ev = (e, Open w ty p)"
    then show ?thesis by (auto simp: on_open_def own_ok_def Let_def split: option.split)
  next
    fix e p n assume "ev = (e, Block_entity p n)"
    then show ?thesis using assms by (cases p; cases n; cases "iv_container s") (simp_all add: on_block_entity_def Let_def)
  qed
next
  case False
  then show ?thesis using own_ok_like [OF assms like_step] by blast
qed

lemma reachable_ok:
  "own_ok (fold inv_step evs (new_inventory (new_sender n))) \<and> ids_ok (fold inv_step evs (new_inventory (new_sender n)))"
proof -
  have "own_ok s \<and> ids_ok s \<Longrightarrow> own_ok (fold inv_step evs s) \<and> ids_ok (fold inv_step evs s)" for s
    by (induction evs arbitrary: s) (auto simp: own_ok_step ids_ok_step)
  moreover have "own_ok (new_inventory (new_sender n)) \<and> ids_ok (new_inventory (new_sender n))"
    by (simp add: own_ok_def ids_ok_def new_inventory_def new_sender_def inv_log_def request_ids_def)
  ultimately show ?thesis .
qed

subsection \<open>Why a menu belongs to the bot\<close>

text \<open>
  What the history says, without the state of the bot. The bot last asked for its menu at \<open>r\<close>, and no
  command, reset, lost packet or new request has come since; \<open>n\<close> is the last title announced for the place \<open>p\<close>, which no
  window has taken; the window opened last is \<open>w\<close> of the type \<open>ty\<close> at \<open>p\<close>.
\<close>

fun forgets_request :: "inv_event \<Rightarrow> bool" where
  "forgets_request Request = True"
| "forgets_request Reset = True"
| "forgets_request Invalidate = True"
| "forgets_request (Interrupt f m) = True"
| "forgets_request _ = False"

fun forgets_title :: "place \<Rightarrow> inv_event \<Rightarrow> bool" where
  "forgets_title p Reset = True"
| "forgets_title p Clear_titles = True"
| "forgets_title p (Open w ty q) = (q = Some p)"
| "forgets_title p (Block_entity q n) = (q = Some p \<and> n \<noteq> None)"
| "forgets_title p _ = False"

fun opens :: "inv_event \<Rightarrow> bool" where
  "opens (Open w ty p) = True"
| "opens _ = False"

fun retitles :: "place option \<Rightarrow> inv_event \<Rightarrow> bool" where
  "retitles p (Block_entity q n) = (q \<noteq> None \<and> n \<noteq> None \<and> q = p)"
| "retitles p _ = False"

type_synonym inv_history = "(bot_env \<times> inv_event) list"

definition asked_at :: "inv_history \<Rightarrow> int \<Rightarrow> bool" where
  "asked_at evs r \<longleftrightarrow> since (\<lambda>_ x. snd x = Request \<and> bnow (fst x) = r) (\<lambda>_ x. \<not> forgets_request (snd x)) evs"

definition asked_lately :: "inv_history \<Rightarrow> int \<Rightarrow> bool" where
  "asked_lately evs t \<longleftrightarrow> (\<exists>r. asked_at evs r \<and> t - r \<le> 5000)"

definition announced :: "inv_history \<Rightarrow> place \<Rightarrow> jstr \<Rightarrow> bool" where
  "announced evs p n \<longleftrightarrow> since (\<lambda>_ x. snd x = Block_entity (Some p) (Some n)) (\<lambda>_ x. \<not> forgets_title p (snd x)) evs"

definition open_menu :: "inv_history \<Rightarrow> window \<Rightarrow> jstr \<Rightarrow> place option \<Rightarrow> bool" where
  "open_menu evs w ty p \<longleftrightarrow> since (\<lambda>_ x. snd x = Open w ty p) (\<lambda>_ x. \<not> opens (snd x)) evs"

text \<open>
  A container is claimed when it opens or is titled while the request is at most five seconds old, or when its title is the
  one of the sell menu. It is the own menu while it is the window opened last and has not been titled otherwise since.
\<close>

fun claims :: "inv_history \<Rightarrow> bot_env \<times> inv_event \<Rightarrow> bool" where
  "claims evs (e, Open w ty p) = (ty = js ''container'' \<and>
     (asked_lately evs (bnow e) \<or> (\<exists>q n. p = Some q \<and> announced evs q n \<and> n \<noteq> [] \<and> sell_title e n)))"
| "claims evs (e, Block_entity (Some q) (Some n)) =
     ((\<exists>w. open_menu evs w (js ''container'') (Some q)) \<and> (sell_title e n \<or> asked_lately evs (bnow e)))"
| "claims evs _ = False"

definition own_menu :: "inv_history \<Rightarrow> window \<Rightarrow> place option \<Rightarrow> bool" where
  "own_menu evs w p \<longleftrightarrow> open_menu evs w (js ''container'') p
     \<and> since claims (\<lambda>_ x. \<not> opens (snd x) \<and> \<not> retitles p (snd x)) evs"

definition history_agrees :: "inv_history \<Rightarrow> inventory \<Rightarrow> bool" where
  "history_agrees evs s \<longleftrightarrow> (\<forall>r. iv_requested s = Some r \<longrightarrow> asked_at evs r)
     \<and> (\<forall>t \<in> set (iv_titles s). announced evs (fst t) (snd t))
     \<and> (\<forall>c. iv_container s = Some c \<longrightarrow> open_menu evs (ct_id c) (ct_type c) (ct_position c)
          \<and> (ct_owned c \<longrightarrow> own_menu evs (ct_id c) (ct_position c)))"

lemma asked_at_stays: "asked_at evs r \<Longrightarrow> \<not> forgets_request (snd x) \<Longrightarrow> asked_at (evs @ [x]) r"
  unfolding asked_at_def by (rule since_stays) simp_all

lemma announced_stays: "announced evs p n \<Longrightarrow> \<not> forgets_title p (snd x) \<Longrightarrow> announced (evs @ [x]) p n"
  unfolding announced_def by (rule since_stays) simp_all

lemma open_menu_snoc: "open_menu (evs @ [x]) w ty p \<longleftrightarrow> snd x = Open w ty p \<or> \<not> opens (snd x) \<and> open_menu evs w ty p"
  by (simp add: open_menu_def since_snoc)

lemma own_menu_snoc: "own_menu (evs @ [x]) w p \<longleftrightarrow> open_menu (evs @ [x]) w (js ''container'') p \<and> (claims evs x
    \<or> (\<not> opens (snd x) \<and> \<not> retitles p (snd x)) \<and>
      since claims (\<lambda>_ x. \<not> opens (snd x) \<and> \<not> retitles p (snd x)) evs)"
  by (simp add: own_menu_def since_snoc)

lemma own_menu_stays: "own_menu evs w p \<Longrightarrow> \<not> opens (snd x) \<Longrightarrow> \<not> retitles p (snd x) \<Longrightarrow> own_menu (evs @ [x]) w p"
  unfolding own_menu_snoc by (simp add: own_menu_def open_menu_snoc)

text \<open>What the operations leave of the request and the titles.\<close>

definition keeps_memory :: "inventory \<Rightarrow> inventory \<Rightarrow> bool" where
  "keeps_memory s s' \<longleftrightarrow> (\<forall>r. iv_requested s' = Some r \<longrightarrow> iv_requested s = Some r) \<and> set (iv_titles s') \<subseteq> set (iv_titles s)"

lemma keeps_memory_refl [simp]: "keeps_memory s s"
  by (simp add: keeps_memory_def)

lemma memory_same [simp]:
  "iv_requested (say x s) = iv_requested s" "iv_requested (cancel_scan s) = iv_requested s"
  "iv_requested (log_failure e r s) = iv_requested s" "iv_requested (confirm_legacy s) = iv_requested s"
  "iv_requested (apply_container i kc s) = iv_requested s" "iv_requested (clear_work s) = None"
  "iv_requested (close_menu e s) = None" "iv_requested (interrupt e f m s) = None"
  "iv_titles (say x s) = iv_titles s" "iv_titles (cancel_scan s) = iv_titles s"
  "iv_titles (log_failure e r s) = iv_titles s" "iv_titles (confirm_legacy s) = iv_titles s"
  "iv_titles (apply_container i kc s) = iv_titles s" "iv_titles (clear_work s) = iv_titles s"
  "iv_titles (close_menu e s) = iv_titles s" "iv_titles (interrupt e f m s) = iv_titles s"
  by (simp_all add: say_def cancel_scan_def log_failure_def confirm_legacy_def apply_container_def clear_work_def
      close_menu_def interrupt_def Let_def split: option.split prod.split)

lemma memory_fold: "(\<And>x s. iv_requested (f x s) = iv_requested s \<and> iv_titles (f x s) = iv_titles s)
    \<Longrightarrow> iv_requested (fold f xs s) = iv_requested s \<and> iv_titles (fold f xs s) = iv_titles s"
  by (induction xs arbitrary: s) auto

lemma memory_respond: "iv_requested (respond e r s) = iv_requested s \<and> iv_titles (respond e r s) = iv_titles s"
  by (simp add: respond_def memory_fold split: option.split)

lemma keeps_memory_targets [simp]: "keeps_memory (s\<lparr>iv_targets := ts\<rparr>) t = keeps_memory s t"
  by (simp add: keeps_memory_def)

lemma memory_fail [simp]: "keeps_memory s (fail_sale e r (t\<lparr>iv_sender := sd\<rparr>)) = (set (iv_titles t) \<subseteq> set (iv_titles s))"
  "keeps_memory s (fail_sale e r t) = (set (iv_titles t) \<subseteq> set (iv_titles s))"
  by (simp_all add: keeps_memory_def fail_sale_def)

lemma memory_sell_next: "keeps_memory s (sell_next e d p xs ts s)"
  by (induction ts) (auto simp: keeps_memory_def fail_sale_def Let_def split: option.split prod.split)

lemma memory_tick: "keeps_memory s (tick_inventory e s)"
  using memory_sell_next [of "s\<lparr>iv_targets := ts\<rparr>" for ts]
  by (simp add: tick_inventory_def keeps_memory_def [of s "interrupt e f m s" for f m] Let_def split: option.split)

lemma memory_step:
  assumes "snd ev \<noteq> Request" and "\<not> opens (snd ev)" and "\<forall>p n. snd ev \<noteq> Block_entity p n"
  shows "keeps_memory s (inv_step ev s)"
    and "forgets_request (snd ev) \<Longrightarrow> iv_requested (inv_step ev s) = None"
    and "snd ev \<in> {Reset, Clear_titles} \<Longrightarrow> iv_titles (inv_step ev s) = []"
proof -
  obtain e k where ev: "ev = (e, k)" by force
  have "keeps_memory s (inv_step (e, k) s)" if "k \<noteq> Tick" "\<And>rs. k \<noteq> Response rs"
    using that assms by (cases k) (auto simp: ev keeps_memory_def on_equipment_def request_multipliers_def reset_inventory_def
        invalidate_after_decode_failure_def clear_menu_titles_def on_close_def on_content_def on_slot_def tick_multipliers_def
        Let_def split: option.split)
  then show "keeps_memory s (inv_step ev s)"
    using memory_tick [of s e] memory_fold [of "respond e"] memory_respond
    by (cases k) (simp_all add: ev keeps_memory_def on_response_def)
  show "forgets_request (snd ev) \<Longrightarrow> iv_requested (inv_step ev s) = None"
    using assms by (cases k) (auto simp: ev reset_inventory_def invalidate_after_decode_failure_def Let_def)
  show "snd ev \<in> {Reset, Clear_titles} \<Longrightarrow> iv_titles (inv_step ev s) = []"
    by (auto simp: ev reset_inventory_def clear_menu_titles_def)
qed

lemma retitles_only: "\<forall>p n. k \<noteq> Block_entity p n \<Longrightarrow> \<not> retitles p k"
  by (cases k) auto

lemma agrees_other:
  assumes ok: "history_agrees evs s" and ev: "\<not> opens (snd ev)" "\<forall>p n. snd ev \<noteq> Block_entity p n"
  shows "history_agrees (evs @ [ev]) (inv_step ev s)"
proof -
  have l: "like (iv_container s) (iv_container (inv_step ev s))" using like_step [of ev s] ev by (metis opens.simps(1) snd_conv)
  have c: "open_menu (evs @ [ev]) (ct_id c) (ct_type c) (ct_position c) \<and> (ct_owned c \<longrightarrow> own_menu (evs @ [ev]) (ct_id c) (ct_position c))"
    if "iv_container (inv_step ev s) = Some c" for c
    using that l ok ev retitles_only [OF ev(2)] by (auto simp: like_def history_agrees_def open_menu_snoc own_menu_stays)
  show ?thesis
  proof (cases "snd ev = Request")
    case True
    then obtain e where e: "ev = (e, Request)" by (cases ev) auto
    have "asked_at (evs @ [ev]) (bnow e)" unfolding asked_at_def by (rule since_now) (simp add: e)
    moreover have "\<forall>x \<in> set (iv_titles s). announced (evs @ [ev]) (fst x) (snd x)"
      using ok announced_stays [of evs _ _ ev] by (simp add: history_agrees_def e)
    ultimately show ?thesis using c by (simp add: history_agrees_def e request_def)
  next
    case False
    note m = memory_step [OF False ev, of s]
    have "asked_at (evs @ [ev]) r" if "iv_requested (inv_step ev s) = Some r" for r
    proof -
      have "iv_requested s = Some r" using that m(1) by (simp add: keeps_memory_def)
      moreover have "\<not> forgets_request (snd ev)" using that m(2) by force
      ultimately show ?thesis using ok by (simp add: history_agrees_def asked_at_stays)
    qed
    moreover have "announced (evs @ [ev]) (fst x) (snd x)" if "x \<in> set (iv_titles (inv_step ev s))" for x
    proof -
      have "\<not> forgets_title (fst x) (snd ev)" using that m(3) ev by (cases "snd ev") auto
      moreover have "x \<in> set (iv_titles s)" using that m(1) by (auto simp: keeps_memory_def)
      then have "announced evs (fst x) (snd x)" using ok by (simp add: history_agrees_def)
      ultimately show ?thesis by (simp add: announced_stays)
    qed
    ultimately show ?thesis using c by (auto simp: history_agrees_def)
  qed
qed

lemma claims_only: "claims evs x \<Longrightarrow> opens (snd x) \<or> (\<exists>q n. snd x = Block_entity (Some q) (Some n))"
  by (cases "(evs, x)" rule: claims.cases) auto

lemma set_update: "set (AList.update k v xs) \<subseteq> insert (k, v) (set xs)"
  by (induction xs) auto

lemma set_retitled: "set (AList.update k v (AList.delete k xs)) \<subseteq> insert (k, v) {x \<in> set xs. fst x \<noteq> k}"
  using set_update [of k v "AList.delete k xs"] by (auto simp: AList.delete_eq)

lemma announced_titles: "history_agrees evs s \<Longrightarrow> map_of (iv_titles s) q = Some n \<Longrightarrow> announced evs q n"
  by (drule map_of_SomeD) (auto simp: history_agrees_def)

lemma asked_recent: "history_agrees evs s \<Longrightarrow> recent_request t s \<Longrightarrow> asked_lately evs t"
  by (auto simp: recent_request_def history_agrees_def asked_lately_def split: option.splits)

lemma agrees_open:
  assumes "history_agrees evs s"
  shows "history_agrees (evs @ [(e, Open w ty p)]) (on_open e w ty p s)"
proof -
  let ?x = "(e, Open w ty p)"
  have req: "iv_requested (on_open e w ty p s) \<in> {None, iv_requested s}"
    by (auto simp: on_open_def Let_def split: option.split)
  have tit: "set (iv_titles (on_open e w ty p s)) \<subseteq> {x \<in> set (iv_titles s). p \<noteq> Some (fst x)}"
    by (auto simp: on_open_def Let_def AList.delete_eq split: option.split)
  have con: "ct_id c = w \<and> ct_type c = ty \<and> ct_position c = p \<and> (ct_owned c \<longrightarrow> claims evs ?x)"
    if "iv_container (on_open e w ty p s) = Some c" for c
    using that asked_recent [OF assms, of "bnow e"] announced_titles [OF assms]
    by (cases p) (fastforce simp: on_open_def Let_def recent_request_def close_menu_def clear_work_def
        split: option.splits if_splits)+
  show ?thesis using assms req tit con
    by (fastforce simp: history_agrees_def open_menu_snoc own_menu_snoc intro: asked_at_stays announced_stays)
qed

lemma agrees_block_entity:
  assumes "history_agrees evs s"
  shows "history_agrees (evs @ [(e, Block_entity (Some q) (Some n))]) (on_block_entity e (Some q) (Some n) s)"
proof -
  let ?x = "(e, Block_entity (Some q) (Some n))" and ?s = "on_block_entity e (Some q) (Some n) s"
  have req: "iv_requested ?s \<in> {None, iv_requested s}"
    by (auto simp: on_block_entity_def Let_def split: option.split)
  let ?ts = "AList.update q n (AList.delete q (iv_titles s))"
  have "iv_titles ?s \<in> {?ts, tl ?ts, AList.delete q ?ts, AList.delete q (tl ?ts)}"
    by (simp add: on_block_entity_def Let_def split: option.split)
  moreover have tl: "x \<in> set xs" if "x \<in> set (tl xs)" for x and xs :: "(place \<times> jstr) list"
    using that by (cases xs) auto
  ultimately have "set (iv_titles ?s) \<subseteq> set ?ts" by (auto simp: AList.delete_eq dest: tl)
  then have tit: "set (iv_titles ?s) \<subseteq> insert (q, n) {x \<in> set (iv_titles s). fst x \<noteq> q}"
    using set_retitled [of q n "iv_titles s"] by (rule order_trans)
  have a: "announced (evs @ [?x]) q n" unfolding announced_def by (rule since_now) simp
  have con: "\<exists>d. iv_container s = Some d \<and> ct_id c = ct_id d \<and> ct_type c = ct_type d \<and> ct_position c = ct_position d
      \<and> (if ct_position d = Some q then ct_owned c \<longrightarrow> ct_type d = js ''container'' \<and> (sell_title e n \<or> asked_lately evs (bnow e))
         else ct_owned c = ct_owned d)"
    if c: "iv_container ?s = Some c" for c
  proof (cases "iv_container s")
    case None
    then show ?thesis using c by (simp add: on_block_entity_def Let_def)
  next
    case (Some d)
    have cl: "iv_container (close_menu e t) = None" for t by (simp add: close_menu_def clear_work_def Let_def)
    have r: "recent_request (bnow e) (s\<lparr>iv_titles := ts\<rparr>) = recent_request (bnow e) s" for ts
      by (simp add: recent_request_def)
    show ?thesis
    proof (cases "ct_position d = Some q")
      case True
      then have "c = d\<lparr>ct_title := Some n, ct_owned := (ct_type d = js ''container'' \<and> \<not> ct_manual d
          \<and> (sell_title e n \<or> recent_request (bnow e) s))\<rparr>"
        using c Some by (simp add: on_block_entity_def Let_def cl r split: if_splits)
      then show ?thesis using Some True asked_recent [OF assms] by auto
    next
      case False
      then show ?thesis using c Some by (simp add: on_block_entity_def Let_def)
    qed
  qed
  have "asked_at (evs @ [?x]) r" if "iv_requested ?s = Some r" for r
    using that req assms by (auto simp: history_agrees_def intro: asked_at_stays)
  moreover have "announced (evs @ [?x]) (fst y) (snd y)" if "y \<in> set (iv_titles ?s)" for y
  proof (cases "y = (q, n)")
    case False
    then have "y \<in> set (iv_titles s)" "fst y \<noteq> q" using that tit by auto
    then show ?thesis using assms by (simp add: history_agrees_def announced_stays)
  qed (simp add: a)
  moreover have "open_menu (evs @ [?x]) (ct_id c) (ct_type c) (ct_position c)
      \<and> (ct_owned c \<longrightarrow> own_menu (evs @ [?x]) (ct_id c) (ct_position c))" if c: "iv_container ?s = Some c" for c
  proof -
    obtain d where d: "iv_container s = Some d" "ct_id c = ct_id d" "ct_type c = ct_type d" "ct_position c = ct_position d"
      and own: "if ct_position d = Some q then ct_owned c \<longrightarrow> ct_type d = js ''container'' \<and> (sell_title e n \<or> asked_lately evs (bnow e))
         else ct_owned c = ct_owned d"
      using con [OF c] by blast
    have o: "open_menu evs (ct_id d) (ct_type d) (ct_position d)" "ct_owned d \<longrightarrow> own_menu evs (ct_id d) (ct_position d)"
      using assms d(1) by (simp_all add: history_agrees_def)
    then have o': "open_menu (evs @ [?x]) (ct_id d) (ct_type d) (ct_position d)" by (simp add: open_menu_snoc)
    have "own_menu (evs @ [?x]) (ct_id d) (ct_position d)" if "ct_owned c"
    proof (cases "ct_position d = Some q")
      case True
      then have "ct_type d = js ''container''" "sell_title e n \<or> asked_lately evs (bnow e)" using own that by simp_all
      then show ?thesis using o(1) o' True unfolding own_menu_snoc by auto
    next
      case False
      then show ?thesis using own that o(2) by (simp add: own_menu_stays)
    qed
    then show ?thesis using d o' by simp
  qed
  ultimately show ?thesis by (simp add: history_agrees_def)
qed

lemma agrees_step:
  assumes "history_agrees evs s"
  shows "history_agrees (evs @ [ev]) (inv_step ev s)"
proof -
  obtain e k where ev: "ev = (e, k)" by force
  consider (opened) w ty p where "k = Open w ty p" | (titled) q n where "k = Block_entity (Some q) (Some n)"
    | (untitled) p n where "k = Block_entity p n" "p = None \<or> n = None" | (other) "\<not> opens k" "\<forall>p n. k \<noteq> Block_entity p n"
    by (cases k; simp del: split_paired_Ex split_paired_All; metis option.exhaust)
  then show ?thesis
  proof cases
    case opened
    then show ?thesis using agrees_open [OF assms] by (simp add: ev)
  next
    case titled
    then show ?thesis using agrees_block_entity [OF assms] by (simp add: ev)
  next
    case untitled
    then have "on_block_entity e p n s = s" by (auto simp: on_block_entity_def split: option.split)
    then show ?thesis using assms untitled
      by (auto simp: ev history_agrees_def open_menu_snoc own_menu_stays intro: asked_at_stays announced_stays)
  next
    case other
    then show ?thesis using agrees_other [OF assms, of ev] by (simp add: ev)
  qed
qed

lemma agrees_run: "history_agrees evs (fold inv_step evs (new_inventory sd))"
proof (induction evs rule: rev_induct)
  case (snoc ev evs)
  then show ?case using agrees_step by simp
qed (simp add: history_agrees_def new_inventory_def)

text \<open>
  C15. The bot moves items only out of its own sell command. Whatever packets arrive in whatever order, a step
  that hands a transfer to the server is a tick; it hands over exactly one, no other transfer is open, and the
  inventory is synchronised. The window is the one opened last, a container that no command of the
  user opened, younger than ten seconds, and the own menu of the bot: it was opened or titled at most five seconds after
  the bot asked for it, with no command, reset, loss of packets or other request in between, or the title announced for
  it is the one of the sell menu; and no other title came since. A present stack goes to a free place of it, at most 255
  items under a request id that was never used before.
\<close>

theorem transfers_go_to_the_own_menu:
  assumes "s = fold inv_step evs (new_inventory (new_sender n))" and "inv_log (inv_step ev s) = inv_log s @ new"
    and "x \<in> set new" and "moves x"
  shows "\<exists>e c p xs source destination i. ev = (e, Tick) \<and> new = [x] \<and> may_sell e s c p xs
    \<and> ct_type c = js ''container'' \<and> \<not> ct_manual c \<and> own_menu evs (ct_id c) (ct_position c)
    \<and> item_at (Some p) source = Some i \<and> present (Some i) \<and> destination < length xs \<and> \<not> present (xs ! destination)
    \<and> x = Sent (transfer_packet s c source destination i) \<and> iv_next_id s \<notin> set (request_ids (inv_log s))"
proof -
  have ok: "own_ok s" "ids_ok s" "history_agrees evs s" using reachable_ok agrees_run assms(1) by auto
  have "\<not> silent s (inv_step ev s)" using assms(2-4) by (auto simp: silent_def list_all_iff)
  then have "snd ev = Tick" using silent_step by blast
  then obtain e where ev: "ev = (e, Tick)" by (cases ev) auto
  then obtain c p xs source where t: "may_sell e s c p xs" "moved e c p xs source s (tick_inventory e s)"
    using \<open>\<not> silent s (inv_step ev s)\<close> tick_cases [of s e] by auto
  then obtain d i where m: "item_at (Some p) source = Some i" "present (Some i)" "d < length xs" "\<not> present (xs ! d)"
      "inv_log (inv_step ev s) = inv_log s @ [Sent (transfer_packet s c source d i)]"
    unfolding moved_def ev inv_step.simps by blast
  have new: "new = [Sent (transfer_packet s c source d i)]" using m(5) assms(2) by simp
  have x: "x = Sent (transfer_packet s c source d i)" using assms(3) by (simp add: new)
  have "ct_type c = js ''container'' \<and> \<not> ct_manual c" using ok(1) t(1) by (simp add: own_ok_def may_sell_def)
  moreover have "own_menu evs (ct_id c) (ct_position c)" using ok(3) t(1) by (simp add: history_agrees_def may_sell_def)
  moreover have "iv_next_id s \<notin> set (request_ids (inv_log s))" using ok(2) by (auto simp: ids_ok_def)
  ultimately show ?thesis using ev new x t(1) m(1-4) by blast
qed

section \<open>The user comes first\<close>

text \<open>A guard that lies ahead, and no menu that the bot claims.\<close>

definition guarded :: "int \<Rightarrow> inventory \<Rightarrow> bool" where
  "guarded t s \<longleftrightarrow> t \<le> iv_guard s \<and> (\<forall>c. iv_container s = Some c \<longrightarrow> ct_manual c \<and> \<not> ct_owned c)"

lemma guard_same [simp]:
  "iv_guard (clear_work s) = iv_guard s" "iv_guard (say x s) = iv_guard s" "iv_guard (cancel_scan s) = iv_guard s"
  "iv_guard (close_menu e s) = iv_guard s" "iv_guard (log_failure e r s) = iv_guard s"
  "iv_guard (confirm_legacy s) = iv_guard s" "iv_guard (apply_container i kc s) = iv_guard s"
proof -
  show 1: "iv_guard (clear_work s) = iv_guard s" for s by (simp add: clear_work_def)
  show 2: "iv_guard (say x s) = iv_guard s" for x s by (simp add: say_def)
  show "iv_guard (cancel_scan s) = iv_guard s" by (simp add: cancel_scan_def 2)
  show "iv_guard (close_menu e s) = iv_guard s" by (simp add: close_menu_def Let_def 1 split: option.split)
  show "iv_guard (log_failure e r s) = iv_guard s" by (simp add: log_failure_def 2)
  show "iv_guard (confirm_legacy s) = iv_guard s" by (simp add: confirm_legacy_def split: option.split)
  show "iv_guard (apply_container i kc s) = iv_guard s" by (simp add: apply_container_def split: prod.split)
qed

lemma guard_interrupt: "iv_guard (interrupt e f m s) = (if f then bnow e + 5000 else iv_guard s)"
  by (simp add: interrupt_def Let_def)

lemma guard_fail [simp]: "iv_guard (fail_sale e r s) = iv_guard s"
  by (simp add: fail_sale_def guard_interrupt)

lemma guard_fold: "(\<And>x s. iv_guard (f x s) = iv_guard s) \<Longrightarrow> iv_guard (fold f xs s) = iv_guard s"
  by (induction xs arbitrary: s) auto

lemma guard_respond [simp]: "iv_guard (respond e r s) = iv_guard s"
  by (simp add: respond_def guard_fold split: option.split)

lemma guard_tick: "iv_guard (tick_inventory e s) = iv_guard s"
proof -
  have n: "iv_guard (sell_next e d p xs ts s) = iv_guard s" for d p xs ts s
    by (induction ts) (auto simp: Let_def split: option.split prod.split)
  show ?thesis by (simp add: tick_inventory_def n guard_interrupt Let_def split: option.split)
qed

lemma guard_step:
  assumes "t + 5000 \<le> iv_guard s" and "t \<le> bnow e" and "ev \<noteq> Request_multipliers" and "ev \<noteq> Reset"
  shows "t + 5000 \<le> iv_guard (inv_step (e, ev) s)"
proof (cases ev)
  case (Response rs)
  then show ?thesis using assms by (simp add: on_response_def guard_fold)
next
  case Tick
  then show ?thesis using assms by (simp add: guard_tick)
qed (use assms in \<open>auto simp: on_open_def on_block_entity_def tick_multipliers_def on_equipment_def guard_interrupt
      request_def invalidate_after_decode_failure_def clear_menu_titles_def
      on_close_def on_content_def on_slot_def Let_def split: option.split\<close>)

lemma guarded_step:
  assumes "guarded (t + 5000) s" and "t \<le> bnow e" and "bnow e < t + 5000" and "ev \<noteq> Request_multipliers" and "ev \<noteq> Reset"
  shows "guarded (t + 5000) (inv_step (e, ev) s) \<and> silent s (inv_step (e, ev) s)"
proof -
  have g: "t + 5000 \<le> iv_guard (inv_step (e, ev) s)" using assms guard_step by (simp add: guarded_def)
  have "\<not> owned s" using assms(1) by (auto simp: owned_def guarded_def split: option.split)
  then have "\<not> may_sell e s c p xs" for c p xs by (auto simp: may_sell_def owned_def)
  then have "silent s (inv_step (e, ev) s)"
    using silent_step [of "(e, ev)" s] tick_cases [of s e] by (cases "ev = Tick") auto
  moreover have "\<forall>c. iv_container (inv_step (e, ev) s) = Some c \<longrightarrow> ct_manual c \<and> \<not> ct_owned c"
  proof (cases "(\<exists>w ty p. ev = Open w ty p) \<or> (\<exists>p n. ev = Block_entity p n)")
    case True
    then show ?thesis
    proof (elim disjE exE)
      fix w ty p assume "ev = Open w ty p"
      then show ?thesis using assms by (auto simp: on_open_def guarded_def Let_def)
    next
      fix p n assume "ev = Block_entity p n"
      then show ?thesis using assms(1)
        by (cases p; cases n; cases "iv_container s") (auto simp: on_block_entity_def guarded_def Let_def)
    qed
  next
    case False
    then show ?thesis using assms(1) like_step [of "(e, ev)" s] by (auto simp: guarded_def like_def)
  qed
  ultimately show ?thesis using g by (simp add: guarded_def)
qed

lemma guarded_run:
  "guarded (t + 5000) s \<Longrightarrow> \<forall>(e, ev) \<in> set evs. t \<le> bnow e \<and> bnow e < t + 5000 \<and> ev \<noteq> Request_multipliers \<and> ev \<noteq> Reset
    \<Longrightarrow> silent s (fold inv_step evs s)"
proof (induction evs arbitrary: s)
  case (Cons a evs)
  obtain e ev where a: "a = (e, ev)" by (cases a)
  have "guarded (t + 5000) (inv_step a s)" "silent s (inv_step a s)" using guarded_step [OF Cons.prems(1), of e ev] Cons.prems(2) a by auto
  then have "silent (inv_step a s) (fold inv_step evs (inv_step a s))" using Cons by simp
  then show ?case using \<open>silent s (inv_step a s)\<close> silent_trans by simp
qed simp

text \<open>
  C16. A command of the user has the menus for itself: in the five seconds after it the bot moves no item, whatever
  menu the command opens and whatever title it carries, as long as the user does not have the multipliers read and the inventory is not
  reset by a new world. Both lift the guard, and the bot may sell again before the five seconds are over.
\<close>

theorem commands_of_the_user_stop_sales:
  assumes "bnow e0 = t"
    and "\<forall>(e, ev) \<in> set evs. t \<le> bnow e \<and> bnow e < t + 5000 \<and> ev \<noteq> Request_multipliers \<and> ev \<noteq> Reset"
    and "inv_log (fold inv_step evs (interrupt e0 True m s)) = inv_log s @ new"
  shows "list_all (\<lambda>x. \<not> moves x) new"
proof -
  have "iv_container (interrupt e0 True m s) = None" by (simp add: interrupt_def Let_def)
  then have "guarded (t + 5000) (interrupt e0 True m s)" using assms(1) by (simp add: guarded_def guard_interrupt)
  from guarded_run [OF this assms(2)] have "silent (interrupt e0 True m s) (fold inv_step evs (interrupt e0 True m s))" .
  then have "silent s (fold inv_step evs (interrupt e0 True m s))" by (rule silent_trans [OF silent_interrupt [OF silent_upd(16)]])
  then show ?thesis using assms(3) by (simp add: silent_def)
qed

section \<open>Attempts end\<close>

lemma not_busy_interrupt: "\<not> busy (interrupt e f m s)"
proof -
  have "\<not> owned (interrupt e f m s)" by (auto simp: interrupt_def Let_def owned_def clear_work_def split: option.split)
  then show ?thesis by (simp add: busy_def)
qed

text \<open>
  Selling cannot hang: on a synchronised inventory a tick ends an attempt that has waited half a second for
  its menu, one whose transfer is unanswered for two seconds, and one whose menu is open for ten seconds.
\<close>

theorem sale_attempts_end:
  assumes "synchronized s"
    and "\<not> owned s \<Longrightarrow> (\<forall>r. iv_requested s = Some r \<longrightarrow> r + 500 \<le> bnow e)"
    and "owned s \<Longrightarrow> iv_opened s + 10000 \<le> bnow e \<or> (\<exists>p. iv_pending s = Some p \<and> pd_sent p + 2000 \<le> bnow e)"
  shows "\<not> busy (tick_inventory e s)"
proof (cases "busy s")
  case True
  show ?thesis
  proof (cases "owned s")
    case owned: True
    then show ?thesis using assms(1,3)
      by (auto simp: tick_inventory_def synchronized_def busy_def [of s] fail_sale_def not_busy_interrupt split: option.split)
  next
    case False
    then obtain r where "iv_requested s = Some r" using True by (auto simp: busy_def)
    then show ?thesis using assms(1,2) False
      by (simp add: tick_inventory_def synchronized_def busy_def [of s] not_busy_interrupt SELL_MENU_TIMEOUT_MS_def)
  qed
qed (simp add: tick_inventory_def)

section \<open>Stale inventories\<close>

lemma full_same [simp]:
  "iv_needs_full (clear_work s) = iv_needs_full s" "iv_needs_full (say x s) = iv_needs_full s"
  "iv_needs_full (cancel_scan s) = iv_needs_full s" "iv_needs_full (close_menu e s) = iv_needs_full s"
  "iv_needs_full (interrupt e f m s) = iv_needs_full s" "iv_needs_full (log_failure e r s) = iv_needs_full s"
  "iv_needs_full (confirm_legacy s) = iv_needs_full s" "iv_needs_full (apply_container i kc s) = iv_needs_full s"
proof -
  show 1: "iv_needs_full (clear_work s) = iv_needs_full s" for s by (simp add: clear_work_def)
  show 2: "iv_needs_full (say x s) = iv_needs_full s" for x s by (simp add: say_def)
  show 3: "iv_needs_full (cancel_scan s) = iv_needs_full s" for s by (simp add: cancel_scan_def 2)
  show 4: "iv_needs_full (close_menu e s) = iv_needs_full s" for s by (simp add: close_menu_def Let_def 1 split: option.split)
  show "iv_needs_full (interrupt e f m s) = iv_needs_full s" by (simp add: interrupt_def Let_def 1 3 4)
  show "iv_needs_full (log_failure e r s) = iv_needs_full s" by (simp add: log_failure_def 2)
  show "iv_needs_full (confirm_legacy s) = iv_needs_full s" by (simp add: confirm_legacy_def split: option.split)
  show "iv_needs_full (apply_container i kc s) = iv_needs_full s" by (simp add: apply_container_def split: prod.split)
qed

lemma full_fold: "(\<And>x s. iv_needs_full (f x s) = iv_needs_full s) \<Longrightarrow> iv_needs_full (fold f xs s) = iv_needs_full s"
  by (induction xs arbitrary: s) auto

lemma full_respond [simp]: "iv_needs_full (respond e r s) = iv_needs_full s"
  by (simp add: respond_def full_fold split: option.split)

definition whole_inventory :: "inv_event \<Rightarrow> bool" where
  "whole_inventory ev = (case ev of Content w (Some xs) \<Rightarrow> player_window w \<and> 36 \<le> length xs | _ \<Rightarrow> False)"

lemma stale_step: "iv_needs_full s \<Longrightarrow> \<not> whole_inventory ev \<Longrightarrow> iv_needs_full (inv_step (e, ev) s) \<and> silent s (inv_step (e, ev) s)"
proof (cases ev)
  case (Response rs)
  then show "iv_needs_full s \<Longrightarrow> ?thesis" using silent_step [of "(e, ev)" s] by (simp add: on_response_def full_fold)
next
  case Tick
  then show "iv_needs_full s \<Longrightarrow> ?thesis" by (simp add: tick_inventory_def)
next
  case (Content w xs)
  then show "iv_needs_full s \<Longrightarrow> \<not> whole_inventory ev \<Longrightarrow> ?thesis"
    using silent_step [of "(e, ev)" s] by (auto simp: on_content_def whole_inventory_def split: option.split)
qed (use silent_step [of "(e, ev)" s] in \<open>auto simp: on_open_def on_block_entity_def tick_multipliers_def on_equipment_def
      request_def invalidate_after_decode_failure_def clear_menu_titles_def request_multipliers_def reset_inventory_def
      on_close_def on_slot_def Let_def split: option.split\<close>)

text \<open>
  C17. After an inventory packet was lost, the bot moves nothing on what it remembers: until the server sends the
  whole inventory of the player again, no sequence of packets, requests, resets and ticks makes it move an item.
\<close>

theorem stale_inventory_moves_nothing:
  assumes "\<forall>(e, ev) \<in> set evs. \<not> whole_inventory ev"
    and "inv_log (fold inv_step evs (invalidate_after_decode_failure e0 s)) = inv_log s @ new"
  shows "list_all (\<lambda>x. \<not> moves x) new"
proof -
  have run: "iv_needs_full u \<Longrightarrow> silent u (fold inv_step evs u)" for u
    using assms(1)
  proof (induction evs arbitrary: u)
    case (Cons a evs)
    obtain e ev where a: "a = (e, ev)" by (cases a)
    have "iv_needs_full (inv_step a u)" "silent u (inv_step a u)" using stale_step [OF Cons.prems(1), of ev e] Cons.prems(2) a by auto
    then show ?case using Cons silent_trans by fastforce
  qed simp
  have "iv_needs_full (invalidate_after_decode_failure e0 s)" "silent s (invalidate_after_decode_failure e0 s)"
    by (simp_all add: invalidate_after_decode_failure_def Let_def)
  then have "silent s (fold inv_step evs (invalidate_after_decode_failure e0 s))" using run silent_trans by blast
  then show ?thesis using assms(2) by (simp add: silent_def)
qed


section \<open>A sale\<close>

definition demo_bot :: "int \<Rightarrow> bot_env" where
  "demo_bot t = \<lparr>bnow = t, rejects = (\<lambda>_. None), at_least = (\<lambda>_. Some True), facing = (\<lambda>_ _. \<lparr>vx = 0, vy = 0, vz = 1\<rparr>),
     bparse = (\<lambda>_. None), bstringify = (\<lambda>_. []), blow = (\<lambda>c. [c])\<rparr>"

definition demo_stack :: item where
  "demo_stack = \<lparr>network_id = 5, it_count = Some 64, stack_id = Some 7, it_extra = None, it_more = []\<rparr>"

definition demo_sale :: "(bot_env \<times> inv_event) list" where
  "demo_sale = [(demo_bot 1000, Request), (demo_bot 1100, Open (W_number 3) (js ''container'') None),
     (demo_bot 1150, Content (W_number 3) (Some [empty_item])),
     (demo_bot 1160, Content (W_name (js ''inventory'')) (Some [demo_stack]))]"

lemma demo_sale_log:
  "inv_log (fold inv_step demo_sale (new_inventory (new_sender []))) = []"
  "inv_log (inv_step (demo_bot 1200, Tick) (fold inv_step demo_sale (new_inventory (new_sender []))))
     = [Sent (P_place (- 1) 0 0 7 64)]"
  by code_simp+

theorem transfers_go_to_the_own_menu_witness:
  "\<exists>e c p xs source destination i. (demo_bot 1200, Tick) = (e, Tick)
    \<and> [Sent (P_place (- 1) 0 0 7 64)] = [Sent (P_place (- 1) 0 0 7 64)]
    \<and> may_sell e (fold inv_step demo_sale (new_inventory (new_sender []))) c p xs
    \<and> ct_type c = js ''container'' \<and> \<not> ct_manual c \<and> own_menu demo_sale (ct_id c) (ct_position c)
    \<and> item_at (Some p) source = Some i \<and> present (Some i) \<and> destination < length xs \<and> \<not> present (xs ! destination)
    \<and> Sent (P_place (- 1) 0 0 7 64) = Sent (transfer_packet (fold inv_step demo_sale (new_inventory (new_sender []))) c source destination i)
    \<and> iv_next_id (fold inv_step demo_sale (new_inventory (new_sender [])))
        \<notin> set (request_ids (inv_log (fold inv_step demo_sale (new_inventory (new_sender [])))))"
  by (rule transfers_go_to_the_own_menu [where ev = "(demo_bot 1200, Tick)" and evs = demo_sale and n = "[]", OF refl])
    (simp_all add: demo_sale_log [simplified])

text \<open>The same menu after a command of the user: the tick finds a foreign menu.\<close>

definition demo_foreign :: "(bot_env \<times> inv_event) list" where
  "demo_foreign = [(demo_bot 1100, Open (W_number 3) (js ''container'') None),
     (demo_bot 1150, Content (W_number 3) (Some [empty_item])),
     (demo_bot 1160, Content (W_name (js ''inventory'')) (Some [demo_stack])), (demo_bot 1200, Tick)]"

theorem commands_of_the_user_stop_sales_witness:
  "list_all (\<lambda>x. \<not> moves x) (inv_log (fold inv_step demo_foreign
     (interrupt (demo_bot 1000) True False (new_inventory (new_sender [])))))"
proof (rule commands_of_the_user_stop_sales [where ?e0.0 = "demo_bot 1000" and t = 1000 and evs = demo_foreign and m = False
      and s = "new_inventory (new_sender [])"])
  show "bnow (demo_bot 1000) = 1000" by (simp add: demo_bot_def)
  show "\<forall>(e, ev) \<in> set demo_foreign. 1000 \<le> bnow e \<and> bnow e < 1000 + 5000 \<and> ev \<noteq> Request_multipliers \<and> ev \<noteq> Reset"
    by (simp add: demo_foreign_def demo_bot_def)
qed (simp add: inv_log_def new_inventory_def new_sender_def)

theorem sale_attempts_end_witness:
  "\<not> busy (tick_inventory (demo_bot 1500) (request 1000 (new_inventory (new_sender []))))"
  by (rule sale_attempts_end)
    (simp_all add: synchronized_def request_def new_inventory_def owned_def demo_bot_def)

theorem stale_inventory_moves_nothing_witness:
  "list_all (\<lambda>x. \<not> moves x) (inv_log (fold inv_step (butlast demo_sale @ [(demo_bot 1200, Tick)])
     (invalidate_after_decode_failure (demo_bot 900) (new_inventory (new_sender [])))))"
proof (rule stale_inventory_moves_nothing [where ?e0.0 = "demo_bot 900" and s = "new_inventory (new_sender [])"
      and evs = "butlast demo_sale @ [(demo_bot 1200, Tick)]"])
  show "\<forall>(e, ev) \<in> set (butlast demo_sale @ [(demo_bot 1200, Tick)]). \<not> whole_inventory ev"
    by (simp add: demo_sale_def whole_inventory_def player_window_def)
qed (simp add: inv_log_def new_inventory_def new_sender_def)

end
