(* ===== verification/Bedrock_Bot_Props.thy ===== *)
theory Bedrock_Bot_Props
  imports Bedrock_Bot Bedrock_Inventory_Props
begin

text \<open>
  What a Bedrock bot guarantees in every run: crouching is never released by itself, the commands of the
  supervisor are dispatched once and in order, and its end is reported once.
\<close>

section \<open>Outputs\<close>

definition dispatch_prefix :: jstr where
  "dispatch_prefix = js ''Command dispatched: ''"

fun dispatched_line :: "bot_out \<Rightarrow> jstr list" where
  "dispatched_line (Behavior_log m) = (if starts_with dispatch_prefix m then [drop (length dispatch_prefix) m] else [])"
| "dispatched_line _ = []"

definition dispatched :: "bot_out list \<Rightarrow> jstr list" where
  "dispatched out = concat (map dispatched_line out)"

text \<open>
  The reports of an end: a disconnection or a failed connection closes the bot; an error that nothing
  caught is fatal.
\<close>

fun closing :: "bot_out \<Rightarrow> bool" where
  "closing (Gone _) = True"
| "closing (Connection_failed _) = True"
| "closing _ = False"

fun fatal_line :: "bot_out \<Rightarrow> jstr list" where
  "fatal_line (Fatal m) = [m]"
| "fatal_line _ = []"

definition terminal :: "bot_out \<Rightarrow> bool" where
  "terminal x \<longleftrightarrow> closing x \<or> fatal_line x \<noteq> []"

lemma terminal_simps [simp]:
  "terminal (Gone r)" "terminal (Connection_failed m)" "terminal (Fatal m)" "\<not> terminal (Sent p)" "\<not> terminal (Warned m)"
  "\<not> terminal (Behavior_log m)" "\<not> terminal Heartbeat" "\<not> terminal (Multipliers es)" "\<not> terminal (Profile n u)"
  "\<not> terminal Logged_in" "\<not> terminal Joined" "\<not> terminal (Chatted k m)"
  by (simp_all add: terminal_def)

definition fatals :: "bot_out list \<Rightarrow> jstr list" where
  "fatals out = concat (map fatal_line out)"

definition harmless :: "bot_out \<Rightarrow> bool" where
  "harmless x \<longleftrightarrow> quiet x \<and> dispatched_line x = [] \<and> \<not> terminal x"

lemma harmless_simps [simp]:
  "harmless (Warned w)" "harmless Heartbeat" "harmless (Multipliers es)" "harmless (Profile n u)" "harmless Logged_in"
  "harmless Joined" "harmless (Chatted k m)" "harmless (Sent p) = quiet (Sent p)"
  by (auto simp: harmless_def)

lemma harmless_bedrock [simp]: "harmless (Behavior_log (js (CHR ''B'' # t) @ m))" "harmless (Behavior_log (js (CHR ''B'' # t)))"
  by (simp_all add: harmless_def starts_with_def dispatch_prefix_def js_def)

text \<open>
  A calm step of the sender keeps what is held, loses no pending edge, and says nothing that matters here.
\<close>

definition calm :: "sender \<Rightarrow> sender \<Rightarrow> bool" where
  "calm sd sd' \<longleftrightarrow> sd_sneaking sd' = sd_sneaking sd \<and> (sd_edge sd \<longrightarrow> sd_edge sd')
     \<and> (\<exists>xs. sd_log sd' = sd_log sd @ xs \<and> list_all harmless xs)"

lemma calm_refl [simp]: "calm sd sd"
  by (simp add: calm_def)

lemma calm_emit [simp]: "calm sd sd' \<Longrightarrow> harmless x \<Longrightarrow> calm sd (emit x sd')"
  by (auto simp: calm_def)

lemma calm_upd [simp]:
  "calm sd (sd'\<lparr>sd_tick := t\<rparr>) = calm sd sd'" "calm sd (sd'\<lparr>sd_warned := w\<rparr>) = calm sd sd'"
  "calm sd (sd'\<lparr>sd_authoritative := b\<rparr>) = calm sd sd'" "calm sd (sd'\<lparr>sd_actions := xs\<rparr>) = calm sd sd'"
  "calm sd (sd'\<lparr>sd_position := p\<rparr>) = calm sd sd'" "calm sd (sd'\<lparr>sd_entity := i\<rparr>) = calm sd sd'"
  "calm sd (sd'\<lparr>sd_pitch := r\<rparr>) = calm sd sd'" "calm sd (sd'\<lparr>sd_yaw := r\<rparr>) = calm sd sd'"
  "calm sd (sd'\<lparr>sd_teleport := b\<rparr>) = calm sd sd'"
  by (simp_all add: calm_def)

lemma calm_edge [simp]: "calm sd sd' \<Longrightarrow> calm sd (sd'\<lparr>sd_edge := sd_edge sd' \<or> b\<rparr>)"
  by (auto simp: calm_def)

lemma calm_packet [simp]: "calm sd sd' \<Longrightarrow> quiet (Sent p) \<Longrightarrow> calm sd (fst (send_packet e p sd'))"
  by (cases rule: send_packet_cases [of e p sd']) auto

lemma calm_chat_text [simp]: "calm sd sd' \<Longrightarrow> calm sd (chat_text e m sd')"
  by (auto simp: chat_text_def queue_def split: option.split)

lemma calm_run_command [simp]: "calm sd sd' \<Longrightarrow> calm sd (run_command e c sd')"
  by (auto simp: run_command_def try_command_def queue_def Let_def split: option.split bool.split)

lemma calm_send_line [simp]: "calm sd sd' \<Longrightarrow> calm sd (send_line e l sd')"
  by (simp add: send_line_def Let_def)

lemma calm_world [simp]:
  "calm sd sd' \<Longrightarrow> calm sd (set_entity i sd')" "calm sd sd' \<Longrightarrow> calm sd (set_input_tick t sd')"
  "calm sd sd' \<Longrightarrow> calm sd (queue_block_action a sd')" "calm sd sd' \<Longrightarrow> calm sd (clear_mouse_actions sd')"
  by (simp_all add: set_entity_def set_input_tick_def queue_block_action_def clear_mouse_actions_def)

lemma calm_update_position [simp]: "calm sd sd' \<Longrightarrow> calm sd (update_position p pitch yaw tp sd')"
  by (auto simp: update_position_def calm_def split: option.split number.split)

lemma calm_sneak_ok: "calm sd sd' \<Longrightarrow> sneak_ok sd \<Longrightarrow> sneak_ok sd'"
proof -
  have "list_all harmless xs \<Longrightarrow> told (out @ xs) = told out" for out xs
    by (induction xs rule: rev_induct) (auto simp: harmless_def hear_quiet simp flip: append_assoc)
  then show "calm sd sd' \<Longrightarrow> sneak_ok sd \<Longrightarrow> sneak_ok sd'" by (auto simp: calm_def sneak_ok_def)
qed

section \<open>The inventory is calm\<close>

abbreviation calm_iv :: "sender \<Rightarrow> inventory \<Rightarrow> bool" where
  "calm_iv sd s \<equiv> calm sd (iv_sender s)"

lemma calm_small [simp]:
  "iv_sender (clear_work s) = iv_sender s" "calm_iv sd s \<Longrightarrow> harmless x \<Longrightarrow> calm_iv sd (say x s)"
  by (simp_all add: clear_work_def say_def)

lemma calm_close_menu [simp]: "calm_iv sd s \<Longrightarrow> calm_iv sd (close_menu e s)"
  by (simp add: close_menu_def Let_def split: option.split)

lemma calm_cancel_scan [simp]: "calm_iv sd s \<Longrightarrow> calm_iv sd (cancel_scan s)"
  by (simp add: cancel_scan_def)

lemma calm_interrupt [simp]: "calm_iv sd s \<Longrightarrow> calm_iv sd (interrupt e f m s)"
  by (simp add: interrupt_def Let_def)

lemma calm_log_failure [simp]: "calm_iv sd s \<Longrightarrow> calm_iv sd (log_failure e r s)"
  by (simp add: log_failure_def)

lemma calm_fail_sale [simp]: "calm_iv sd s \<Longrightarrow> calm_iv sd (fail_sale e r s)"
  by (simp add: fail_sale_def)

lemma calm_confirm [simp]: "iv_sender (confirm_legacy s) = iv_sender s"
  by (simp add: confirm_legacy_def split: option.split)

lemma calm_fold: "(\<And>x s. calm_iv sd s \<Longrightarrow> calm_iv sd (f x s)) \<Longrightarrow> calm_iv sd s \<Longrightarrow> calm_iv sd (fold f xs s)"
  by (induction xs arbitrary: s) auto

lemma calm_respond [simp]: "calm_iv sd s \<Longrightarrow> calm_iv sd (respond e r s)"
proof -
  have "calm_iv sd s \<Longrightarrow> calm_iv sd (apply_container i kc s)" for i kc s
    by (simp add: apply_container_def split: prod.split)
  then show "calm_iv sd s \<Longrightarrow> ?thesis" by (simp add: respond_def calm_fold split: option.split)
qed

lemma calm_sell_next [simp]: "calm_iv sd s \<Longrightarrow> calm_iv sd (sell_next e c p xs ts s)"
proof (induction ts)
  case (Cons t ts)
  have q: "quiet (Sent (transfer_packet s c source d i))" for source d i by (simp add: transfer_packet_def)
  have pk: "send_packet e (transfer_packet s c source d i) (iv_sender s) = (x, b) \<Longrightarrow> calm sd x" for source d i x b
    using calm_packet [OF Cons.prems q] by (metis fst_conv)
  show ?case using Cons by (auto simp: Let_def dest: pk split: option.split prod.split)
qed simp

lemma calm_tick_inventory [simp]: "calm_iv sd s \<Longrightarrow> calm_iv sd (tick_inventory e s)"
  by (simp add: tick_inventory_def Let_def split: option.split)

lemma calm_operations [simp]:
  "calm_iv sd s \<Longrightarrow> calm_iv sd (tick_multipliers e s)" "calm_iv sd s \<Longrightarrow> calm_iv sd (on_equipment k i s)"
  "calm_iv sd s \<Longrightarrow> calm_iv sd (request_multipliers t s)" "calm_iv sd s \<Longrightarrow> calm_iv sd (request t s)"
  "calm_iv sd s \<Longrightarrow> calm_iv sd (reset_inventory s)" "calm_iv sd s \<Longrightarrow> calm_iv sd (invalidate_after_decode_failure e s)"
  "calm_iv sd s \<Longrightarrow> calm_iv sd (clear_menu_titles s)" "calm_iv sd s \<Longrightarrow> calm_iv sd (on_inventory_packet e p s)"
  by (simp_all add: tick_multipliers_def on_equipment_def request_multipliers_def request_def reset_inventory_def
      invalidate_after_decode_failure_def clear_menu_titles_def Let_def split: option.split)
    (cases p; simp add: on_open_def on_block_entity_def on_close_def on_content_def on_slot_def on_response_def
      calm_fold Let_def split: option.split)


section \<open>The mouse\<close>

text \<open>The mouse is calm, and its frames leave the keys for sneaking alone.\<close>

lemma calm_flush: "calm_iv sd iv \<Longrightarrow> (case ms_release s of Some p \<Rightarrow> quiet (Sent p) | None \<Rightarrow> True)
    \<Longrightarrow> calm_iv sd (fst (snd (flush_release e s iv)))"
proof (cases "ms_release s")
  case (Some p)
  assume "calm_iv sd iv" "case ms_release s of Some p \<Rightarrow> quiet (Sent p) | None \<Rightarrow> True"
  then have "calm sd (fst (send_packet e p (iv_sender iv)))" using Some by simp
  then show ?thesis by (auto simp: flush_release_def Some split: prod.split bool.split)
qed (simp add: flush_release_def)

text \<open>What waits to be released is a release.\<close>

definition release_ok :: "mouse \<Rightarrow> bool" where
  "release_ok s \<longleftrightarrow> (case ms_release s of Some p \<Rightarrow> (\<exists>slot i v. p = P_release slot i v) | None \<Rightarrow> True)"

lemma release_quiet: "release_ok s \<Longrightarrow> (case ms_release s of Some p \<Rightarrow> quiet (Sent p) | None \<Rightarrow> True)"
  by (auto simp: release_ok_def split: option.splits)

lemma release_flush: "release_ok s \<Longrightarrow> release_ok (fst (flush_release e s iv))"
  by (auto simp: flush_release_def release_ok_def split: option.split prod.split bool.split)

lemma release_upd [simp]:
  "release_ok (s\<lparr>ms_mode := m\<rparr>) = release_ok s" "release_ok (s\<lparr>ms_registry := r\<rparr>) = release_ok s" "release_ok (s\<lparr>ms_start := d\<rparr>) = release_ok s"
  "release_ok (s\<lparr>ms_items := j\<rparr>) = release_ok s" "release_ok (s\<lparr>ms_sections := c\<rparr>) = release_ok s" "release_ok (s\<lparr>ms_updates := u\<rparr>) = release_ok s"
  "release_ok (s\<lparr>ms_asked := a\<rparr>) = release_ok s" "release_ok (s\<lparr>ms_entities := es\<rparr>) = release_ok s" "release_ok (s\<lparr>ms_dimension := k\<rparr>) = release_ok s"
  "release_ok (s\<lparr>ms_air := w\<rparr>) = release_ok s" "release_ok (s\<lparr>ms_until := k\<rparr>) = release_ok s" "release_ok (s\<lparr>ms_using := b\<rparr>) = release_ok s"
  "release_ok (s\<lparr>ms_used := b\<rparr>) = release_ok s" "release_ok (s\<lparr>ms_hand := h\<rparr>) = release_ok s" "release_ok (s\<lparr>ms_release := None\<rparr>)"
  "release_ok (s\<lparr>ms_release := Some (P_release slot i v)\<rparr>)"
  "release_ok (s\<lparr>ms_mining := n\<rparr>) = release_ok s" "release_ok (s\<lparr>ms_attack := k\<rparr>) = release_ok s"
  by (simp_all add: release_ok_def)

lemma release_fold: "(\<And>x s. release_ok s \<Longrightarrow> release_ok (f x s)) \<Longrightarrow> release_ok s \<Longrightarrow> release_ok (fold f xs s)"
  by (induction xs arbitrary: s) auto

lemma release_update_block [simp]: "release_ok (on_update_block c k r s) = release_ok s"
  by (simp add: on_update_block_def Let_def split: option.split)

lemma release_registry [simp]: "release_ok s \<Longrightarrow> release_ok (initialize_registry load s)"
  by (simp add: initialize_registry_def Let_def release_fold split: prod.split)

lemma release_world [simp]:
  "release_ok s \<Longrightarrow> release_ok (on_item_registry load j s)" "release_ok s \<Longrightarrow> release_ok (on_subchunk p cached d c es s)"
  "release_ok s \<Longrightarrow> release_ok (on_level_chunk p cached w x z dm n s)" "release_ok s \<Longrightarrow> release_ok (on_entity name sd q s)"
  "release_ok s \<Longrightarrow> release_ok (observe_using i sd m s)"
proof -
  assume ok: "release_ok s"
  show "release_ok (on_item_registry load j s)" using ok by (simp add: on_item_registry_def Let_def split: option.split json.split)
  have "release_ok s \<Longrightarrow> release_ok (store_entry p k en s)" for k en s
    by (simp add: store_entry_def Let_def split: prod.split option.split)
  then show "release_ok (on_subchunk p cached d c es s)" using ok by (simp add: on_subchunk_def release_fold split: option.split)
  have "release_ok s \<Longrightarrow> release_ok (store_section cw s)" for cw s by (simp add: store_section_def split: prod.split)
  then show "release_ok (on_level_chunk p cached w x z dm n s)" using ok
    by (simp add: on_level_chunk_def Let_def release_fold split: prod.split option.split)
  have "release_ok s \<Longrightarrow> release_ok (keep_entity nm sd q i v s)" for nm i v s
    by (simp add: keep_entity_def Let_def split: option.split)
  then show "release_ok (on_entity name sd q s)" using ok by (simp add: on_entity_def Let_def split: option.split)
  show "release_ok (observe_using i sd m s)" using ok
    by (simp add: observe_using_def split: option.split prod.split meta_value.split)
qed

lemma mouse_configure_calm:
  assumes "calm_iv sd iv" and "release_ok s"
  shows "calm_iv sd (snd (configure_mouse load e mode s iv)) \<and> release_ok (fst (configure_mouse load e mode s iv))"
proof (cases "mode = ms_mode s")
  case False
  have s1: "release_ok (prepare_release s iv)" using assms(2)
    by (simp add: prepare_release_def Let_def split: option.split prod.split)
  obtain s2 iv2 b where f: "flush_release e (prepare_release s iv) iv = (s2, iv2, b)" by (metis prod_cases3)
  have "calm_iv sd iv2" using calm_flush [OF assms(1) release_quiet [OF s1], of e] by (simp add: f)
  moreover have "release_ok s2" using release_flush [OF s1, of e iv] by (simp add: f)
  ultimately show ?thesis using False by (simp add: configure_mouse_def f Let_def split: option.split)
qed (use assms in \<open>simp add: configure_mouse_def\<close>)

lemma mouse_reset_calm [simp]:
  "calm_iv sd iv \<Longrightarrow> calm_iv sd (snd (reset_mouse d s iv))" "release_ok (fst (reset_mouse d s iv))"
  "calm_iv sd iv \<Longrightarrow> calm_iv sd (snd (teleported_mouse s iv))" "release_ok (fst (teleported_mouse s iv))"
  by (simp_all add: reset_mouse_def teleported_mouse_def release_ok_def)

lemma mouse_start_calm [simp]:
  "calm_iv sd iv \<Longrightarrow> calm_iv sd (snd (on_start_game load d st s iv))" "release_ok (fst (on_start_game load d st s iv))"
  by (simp_all add: on_start_game_def reset_mouse_def Let_def)

definition tick_ok :: "sender \<Rightarrow> mouse_tick \<Rightarrow> bool" where
  "tick_ok sd r \<longleftrightarrow> (case r of (s, iv, fr, done) \<Rightarrow> calm_iv sd iv \<and> keeps_keys fr \<and> release_ok s
     \<and> (\<forall>s. release_ok s \<longrightarrow> release_ok (done s)))"

lemma keys_kept [simp]: "fr_flags no_frame = []" "keeps_keys no_frame" "keeps_keys (no_frame\<lparr>fr_actions := xs\<rparr>)"
  by (simp_all add: keeps_keys_def no_frame_def)

lemma tick_ok_idle [simp]: "tick_ok sd (idle s iv) \<longleftrightarrow> calm_iv sd iv \<and> release_ok s"
  by (simp add: tick_ok_def idle_def)

lemma tick_ok_attack:
  assumes "calm_iv sd iv" and "release_ok s"
  shows "tick_ok sd (attack_tick e p hand en s iv)"
proof -
  have c: "send_packet e (P_entity i l k it v h) (iv_sender iv) = (x, b) \<Longrightarrow> calm sd x" for i l k it v h x b
    using calm_packet [OF assms(1), of "P_entity i l k it v h" e] by simp
  show ?thesis using assms
    by (auto simp: attack_tick_def Let_def tick_ok_def idle_def split: prod.split option.split dest: c)
qed

lemma tick_ok_use: "calm_iv sd iv \<Longrightarrow> release_ok s \<Longrightarrow> tick_ok sd (use_tick e p hand aim s iv)"
  by (auto simp: use_tick_def Let_def tick_ok_def idle_def keeps_keys_def js_eq_iff split: aim.split)

lemma tick_ok_break: "calm_iv sd iv \<Longrightarrow> release_ok s \<Longrightarrow> tick_ok sd (break_tick e hand aim s iv)"
  by (auto simp: break_tick_def Let_def tick_ok_def split: aim.split option.split)

lemma tick_ok_mouse:
  assumes "calm_iv sd iv" and "release_ok s"
  shows "tick_ok sd (mouse_tick e s iv)"
proof -
  obtain s1 iv1 b where f: "flush_release e s iv = (s1, iv1, b)" by (metis prod_cases3)
  have c1: "calm_iv sd iv1" using calm_flush [OF assms(1) release_quiet [OF assms(2)], of e] by (simp add: f)
  have r1: "release_ok s1" using release_flush [OF assms(2), of e iv] by (simp add: f)
  show ?thesis
  proof (cases "b \<and> ms_mode s1 \<noteq> OFF \<and> player_view e (iv_sender iv1) \<noteq> None \<and> ms_registry s1 \<noteq> None")
    case True
    then obtain p d rg where v: "player_view e (iv_sender iv1) = Some (p, d)" "ms_registry s1 = Some rg" by auto
    obtain s2 iv2 where q: "request_sections e p s1 iv1 = (s2, iv2)" by fastforce
    have c2: "calm_iv sd iv2" "release_ok s2"
      using q c1 r1 by (auto simp: request_sections_def Let_def split: if_splits)
    show ?thesis
    proof (cases "mouse_hand iv2")
      case (Some hand)
      define aim where "aim = first_target rg s2 p d (ray_cells p d)"
      show ?thesis
        using True c2 tick_ok_attack [OF c2] tick_ok_use [OF c2] tick_ok_break [OF c2]
        by (auto simp: mouse_tick_def f v q Some Let_def aim_def [symmetric] split: list.split prod.split)
    qed (use True c2 in \<open>simp add: mouse_tick_def f v q\<close>)
  qed (use c1 r1 in \<open>auto simp: mouse_tick_def f split: bool.split option.split prod.split\<close>)
qed


section \<open>Behaviours\<close>

text \<open>
  A step of the behaviours that keeps the tasks, the settings and the crouch, and is calm.
\<close>

definition keeps :: "behavior \<Rightarrow> behavior \<Rightarrow> bool" where
  "keeps b0 b \<longleftrightarrow> calm (sender_of b0) (sender_of b) \<and> release_ok (bh_mouse b) \<and> bh_sneaking b = bh_sneaking b0
     \<and> bh_manual b = bh_manual b0 \<and> bh_queue b = bh_queue b0 \<and> bh_config b = bh_config b0"

lemma keeps_refl: "keeps b b \<longleftrightarrow> release_ok (bh_mouse b)"
  by (simp add: keeps_def)

lemma keeps_upd [simp]:
  "keeps b0 (b\<lparr>bh_crouch_check := t\<rparr>) = keeps b0 b" "keeps b0 (b\<lparr>bh_checks := cs\<rparr>) = keeps b0 b"
  "keeps b0 (b\<lparr>bh_manual_until := t\<rparr>) = keeps b0 b" "keeps b0 (b\<lparr>bh_spawned := f\<rparr>) = keeps b0 b"
  "keeps b0 (b\<lparr>bh_heartbeat := t\<rparr>) = keeps b0 b" "keeps b0 (b\<lparr>bh_next_sale := r\<rparr>) = keeps b0 b"
  "keeps b0 (b\<lparr>bh_pause_start := t\<rparr>) = keeps b0 b" "keeps b0 (b\<lparr>bh_pause_end := t\<rparr>) = keeps b0 b"
  "keeps b0 (b\<lparr>bh_ready := rd\<rparr>) = keeps b0 b" "keeps b0 (b\<lparr>bh_server_sneaking := ss\<rparr>) = keeps b0 b"
  "keeps b0 (b\<lparr>bh_grace := t\<rparr>) = keeps b0 b" "keeps b0 (b\<lparr>bh_resync := f\<rparr>) = keeps b0 b"
  by (simp_all add: keeps_def sender_of_def)

lemma keeps_sender: "(\<And>sd sd'. calm sd sd' \<Longrightarrow> calm sd (f sd')) \<Longrightarrow> keeps b0 b \<Longrightarrow> keeps b0 (with_sender f b)"
  by (simp add: keeps_def sender_of_def with_sender_def)

lemma keeps_inventory: "(\<And>sd s. calm_iv sd s \<Longrightarrow> calm_iv sd (f s)) \<Longrightarrow> keeps b0 b \<Longrightarrow> keeps b0 (with_inventory f b)"
  by (simp add: keeps_def sender_of_def with_inventory_def)

lemma keeps_mouse:
  "(\<And>sd s iv. calm_iv sd iv \<Longrightarrow> release_ok s \<Longrightarrow> calm_iv sd (snd (f s iv)) \<and> release_ok (fst (f s iv)))
    \<Longrightarrow> keeps b0 b \<Longrightarrow> keeps b0 (with_mouse f b)"
  by (simp add: keeps_def sender_of_def with_mouse_def split: prod.split) fastforce

lemma keeps_parts [simp]:
  "keeps b0 b \<Longrightarrow> keeps b0 (with_inventory (interrupt e g m) b)" "keeps b0 b \<Longrightarrow> keeps b0 (with_inventory reset_inventory b)"
  "keeps b0 b \<Longrightarrow> keeps b0 (with_inventory (request_multipliers t) b)" "keeps b0 b \<Longrightarrow> keeps b0 (with_inventory (request t) b)"
  "keeps b0 b \<Longrightarrow> keeps b0 (with_inventory (tick_inventory e) b)" "keeps b0 b \<Longrightarrow> keeps b0 (with_inventory (tick_multipliers e) b)"
  "keeps b0 b \<Longrightarrow> keeps b0 (with_sender (run_command e c) b)" "keeps b0 b \<Longrightarrow> keeps b0 (with_sender (send_line e c) b)"
  "keeps b0 b \<Longrightarrow> keeps b0 (with_mouse (configure_mouse load e k) b)" "keeps b0 b \<Longrightarrow> keeps b0 (with_mouse (reset_mouse d) b)"
  "keeps b0 b \<Longrightarrow> keeps b0 (with_mouse teleported_mouse b)" "keeps b0 b \<Longrightarrow> keeps b0 (with_mouse (on_start_game load d st) b)"
  "keeps b0 b \<Longrightarrow> harmless x \<Longrightarrow> keeps b0 (with_sender (emit x) b)"
  by (simp_all add: keeps_sender keeps_inventory keeps_mouse mouse_configure_calm)

lemma keeps_small [simp]:
  "keeps b0 b \<Longrightarrow> keeps b0 (schedule_check t b)" "keeps b0 b \<Longrightarrow> keeps b0 (postpone t b)" "keeps b0 b \<Longrightarrow> keeps b0 (check_crouch e b)"
  "keeps b0 b \<Longrightarrow> keeps b0 (mark_spawned e b)" "keeps b0 b \<Longrightarrow> keeps b0 (mark_joining b)" "keeps b0 b \<Longrightarrow> keeps b0 (mark_teleported e b)"
  "keeps b0 b \<Longrightarrow> keeps b0 (pause_autosell e t u b)" "keeps b0 b \<Longrightarrow> keeps b0 (on_sneak_status e f b)"
  by (simp_all add: schedule_check_def Let_def postpone_def check_crouch_def mark_spawned_def mark_joining_def mark_teleported_def
      pause_autosell_def on_sneak_status_def)

lemma keeps_due [simp]: "keeps b0 b \<Longrightarrow> keeps b0 (due_checks e cs b)"
  by (induction cs arbitrary: b) simp_all

lemma keeps_chat [simp]: "keeps b0 b \<Longrightarrow> keeps b0 (on_chat e sd m b)"
  by (simp add: on_chat_def Let_def)

lemma keeps_sale [simp]: "keeps b0 b \<Longrightarrow> keeps b0 (tick_sale e b)"
  by (simp add: tick_sale_def Let_def split: option.split)

text \<open>What happens to a task in the foreground.\<close>

definition lines_of :: "task list \<Rightarrow> jstr list" where
  "lines_of ts = concat (map (\<lambda>t. case t of Command l \<Rightarrow> [l] | _ \<Rightarrow> []) ts)"

lemma lines_of_simps [simp]:
  "lines_of [] = []" "lines_of (t # ts) = (case t of Command l \<Rightarrow> [l] | _ \<Rightarrow> []) @ lines_of ts" "lines_of (us @ vs) = lines_of us @ lines_of vs"
  by (simp_all add: lines_of_def)

lemma foreground:
  assumes "keeps b0 b"
  shows "(\<exists>b1. keeps b0 b1 \<and> run_foreground e t manual b =
      (case t of Command line \<Rightarrow> with_sender (emit (Behavior_log (dispatch_prefix @ line))) b1 | _ \<Rightarrow> b1))"
proof (cases t)
  case (Command line)
  let ?b1 = "if manual then b\<lparr>bh_manual_until := bnow e + 5000\<rparr> else b"
  let ?b3 = "with_sender (send_line e line) (with_inventory (interrupt e True (trim line = sale_command ?b1)) ?b1)"
  let ?b4 = "if re_test accept_re (trim line) then schedule_check (bnow e) ?b3 else ?b3"
  let ?b5 = "postpone (bnow e + (if is_teleport_command e line then TELEPORT_COMMAND_GUARD_MS else CHAT_COMMAND_GUARD_MS)) ?b4"
  have "keeps b0 ?b5" using assms by simp
  moreover have "run_foreground e t manual b = with_sender (emit (Behavior_log (dispatch_prefix @ line))) ?b5"
    by (simp add: run_foreground_def Command Let_def dispatch_prefix_def)
  ultimately show ?thesis unfolding Command task.case by blast
next
  case Sell_multipliers
  then show ?thesis using assms by (simp add: run_foreground_def)
next
  case Clean_spawner
  then show ?thesis using assms by (simp add: run_foreground_def)
qed

section \<open>Invariant of the process\<close>

definition bot_log :: "bot \<Rightarrow> bot_out list" where
  "bot_log b = sd_log (sender_of (bt_behavior b))"

definition sneak_inv :: "behavior \<Rightarrow> bool" where
  "sneak_inv b \<longleftrightarrow> sneak_ok (sender_of b) \<and> sd_sneaking (sender_of b) = bh_sneaking b \<and> release_ok (bh_mouse b)
     \<and> (\<forall>t \<in> set (bh_queue b). t = Clean_spawner)"

lemma keeps_sneak_inv: "keeps b0 b \<Longrightarrow> sneak_inv b0 \<Longrightarrow> sneak_inv b"
  by (auto simp: keeps_def sneak_inv_def calm_sneak_ok) (simp_all add: calm_def)


definition extends :: "(bot_out \<Rightarrow> bool) \<Rightarrow> behavior \<Rightarrow> behavior \<Rightarrow> bool" where
  "extends P b b' \<longleftrightarrow> (\<exists>xs. sd_log (sender_of b') = sd_log (sender_of b) @ xs \<and> list_all P xs)"

lemma extends_same: "sd_log (sender_of b') = sd_log (sender_of b) \<Longrightarrow> extends P b b'"
  by (simp add: extends_def)

lemma extends_trans: "extends P a b \<Longrightarrow> extends P b c \<Longrightarrow> extends P a c"
  by (fastforce simp: extends_def)

lemma extends_mono: "extends P a b \<Longrightarrow> (\<And>x. P x \<Longrightarrow> Q x) \<Longrightarrow> extends Q a b"
  by (auto simp: extends_def intro: list.pred_mono_strong)

definition mild :: "bot_out \<Rightarrow> bool" where
  "mild x \<longleftrightarrow> dispatched_line x = [] \<and> \<not> terminal x"

fun no_release :: "bot_out \<Rightarrow> bool" where
  "no_release (Sent (P_auth a)) = (\<not> flag ''stop_sneaking'' a)"
| "no_release _ = True"

lemma harmless_mild: "harmless x \<Longrightarrow> mild x"
  by (simp add: harmless_def mild_def)

lemma harmless_no_release: "harmless x \<Longrightarrow> no_release x"
  by (cases x rule: no_release.cases) (auto simp: harmless_def)

lemma keeps_extends: "keeps b0 b \<Longrightarrow> extends harmless b0 b"
  by (auto simp: keeps_def calm_def extends_def)

text \<open>One stage of the tick: what it says is mild, and it releases nothing while the bot crouches.\<close>

definition stage :: "behavior \<Rightarrow> behavior \<Rightarrow> bool" where
  "stage b b' \<longleftrightarrow> sneak_inv b' \<and> bh_manual b' = bh_manual b \<and> bh_queue b' = bh_queue b \<and> bh_config b' = bh_config b
     \<and> extends mild b b' \<and> (bh_sneaking b \<longrightarrow> bh_sneaking b' \<and> extends no_release b b')"

lemma stage_trans: "stage a b \<Longrightarrow> stage b c \<Longrightarrow> stage a c"
  unfolding stage_def using extends_trans by metis

lemma stage_inv: "stage a b \<Longrightarrow> sneak_inv b"
  by (simp add: stage_def)

lemma stage_keeps: "sneak_inv b \<Longrightarrow> keeps b b' \<Longrightarrow> stage b b'"
  using keeps_extends [of b b'] keeps_sneak_inv [of b b'] extends_mono harmless_mild harmless_no_release
  unfolding stage_def by (metis keeps_def)

lemma stage_refl: "sneak_inv b \<Longrightarrow> stage b b"
  by (simp add: stage_keeps keeps_refl sneak_inv_def)

lemma stage_crouch:
  assumes "sneak_inv b"
  shows "stage b (tick_crouch e b)"
proof -
  have "sneak_ok (set_sneak True r (sender_of b))" for r using assms by (simp add: sneak_inv_def sneak_ok_set)
  moreover have "sd_log (set_sneak f r sd) = sd_log sd" "sd_sneaking (set_sneak f r sd) = f" for f r sd
    by (simp_all add: set_sneak_def)
  ultimately show ?thesis using assms stage_refl [OF assms]
    by (auto simp: tick_crouch_def stage_def sneak_inv_def apply_crouch_def with_sender_def sender_of_def Let_def extends_same)
qed

lemma stage_input:
  assumes "sneak_inv b"
  shows "stage b (send_input e b)"
proof (cases "sd_entity (sender_of b) = None \<or> sd_position (sender_of b) = None")
  case False
  obtain m iv fr dn where t: "mouse_tick e (bh_mouse b) (bh_inventory b) = (m, iv, fr, dn)" by (metis prod_cases4)
  have ok: "calm (sender_of b) (iv_sender iv)" "keeps_keys fr" "release_ok m" "\<And>s. release_ok s \<Longrightarrow> release_ok (dn s)"
    using tick_ok_mouse [of "sender_of b" "bh_inventory b" "bh_mouse b" e] assms
    by (auto simp: t tick_ok_def sender_of_def sneak_inv_def)
  obtain sd sent where i: "tick_input e fr (iv_sender iv) = (sd, sent)" by fastforce
  define b' where "b' = b\<lparr>bh_mouse := (if sent then dn m else m), bh_inventory := iv\<lparr>iv_sender := sd\<rparr>\<rparr>"
  have b': "send_input e b = b'" unfolding send_input_def if_not_P [OF False] t prod.case i b'_def ..
  have "sneak_ok (iv_sender iv)" using calm_sneak_ok [OF ok(1)] assms by (simp add: sneak_inv_def)
  then have so: "sneak_ok sd" using sneak_ok_tick [OF ok(2), of "iv_sender iv" e] by (simp add: i)
  have sn: "sd_sneaking sd = bh_sneaking b"
    using tick_input_sneaking [of e fr "iv_sender iv"] ok(1) assms by (simp add: i calm_def sneak_inv_def)
  have held: "sd_sneaking (iv_sender iv) = bh_sneaking b" using ok(1) assms by (simp add: calm_def sneak_inv_def)
  have x: "\<exists>xs. sd_log sd = sd_log (iv_sender iv) @ xs \<and> list_all mild xs \<and> (bh_sneaking b \<longrightarrow> list_all no_release xs)"
    using i held ok(2)
    by (cases rule: tick_input_cases [of e fr "iv_sender iv"]) (auto simp: mild_def sneak_flags)
  obtain ys where ys: "sd_log (iv_sender iv) = sd_log (sender_of b) @ ys" "list_all harmless ys" using ok(1) by (auto simp: calm_def)
  have "list_all mild ys" "list_all no_release ys"
    using ys(2) by (auto intro: list.pred_mono_strong harmless_mild harmless_no_release)
  then have "extends mild b b'" "bh_sneaking b \<longrightarrow> extends no_release b b'"
    using x ys(1) by (fastforce simp: extends_def b'_def sender_of_def)+
  moreover have "sneak_inv b'" using so sn ok(3,4) assms by (simp add: sneak_inv_def b'_def sender_of_def)
  ultimately show ?thesis unfolding b' stage_def by (simp add: b'_def)
qed (use stage_refl [OF assms] in \<open>simp add: send_input_def\<close>)

definition tick_front :: "bot_env \<Rightarrow> behavior \<Rightarrow> behavior" where
  "tick_front e b0 =
     (let b1 = (if bh_spawned b0 then due_checks e (bh_checks b0) b0 else b0);
          b2 = (if bnow e - bh_heartbeat b1 \<ge> HEARTBEAT_INTERVAL_MS
                then with_sender (emit Heartbeat) (b1\<lparr>bh_heartbeat := bnow e\<rparr>) else b1);
          b3 = tick_crouch e b2
      in if bh_spawned b3 then send_input e b3 else b3)"

lemma stage_front:
  assumes "sneak_inv b"
  shows "stage b (tick_front e b)"
proof -
  let ?b1 = "if bh_spawned b then due_checks e (bh_checks b) b else b"
  let ?b2 = "if bnow e - bh_heartbeat ?b1 \<ge> HEARTBEAT_INTERVAL_MS
                then with_sender (emit Heartbeat) (?b1\<lparr>bh_heartbeat := bnow e\<rparr>) else ?b1"
  have k: "keeps b b" using assms by (simp add: keeps_refl sneak_inv_def)
  then have s2: "stage b ?b2" by (intro stage_keeps [OF assms]) simp
  have s3: "stage b (tick_crouch e ?b2)" by (rule stage_trans [OF s2 stage_crouch [OF stage_inv [OF s2]]])
  have "stage b (send_input e (tick_crouch e ?b2))" by (rule stage_trans [OF s3 stage_input [OF stage_inv [OF s3]]])
  then show ?thesis using s3 unfolding tick_front_def Let_def by simp
qed

text \<open>A whole tick: the front, and then at most one task or a step of the sale.\<close>

definition account :: "behavior \<Rightarrow> jstr list" where
  "account b = dispatched (sd_log (sender_of b)) @ lines_of (bh_manual b)"

lemma dispatched_append [simp]: "dispatched (xs @ ys) = dispatched xs @ dispatched ys"
  by (simp add: dispatched_def)

lemma dispatched_mild: "list_all mild xs \<Longrightarrow> dispatched xs = []"
  by (induction xs) (auto simp: dispatched_def mild_def)

lemma extends_dispatched: "extends mild b b' \<Longrightarrow> dispatched (sd_log (sender_of b')) = dispatched (sd_log (sender_of b))"
  by (auto simp: extends_def dispatched_mild)

lemma dispatched_prefix [simp]: "dispatched [Behavior_log (dispatch_prefix @ l)] = [l]"
  by (simp add: dispatched_def starts_with_def)

text \<open>The state after a tick, against the front state with its tasks.\<close>

definition tick_result :: "behavior \<Rightarrow> behavior \<Rightarrow> bool" where
  "tick_result b b' \<longleftrightarrow> sneak_inv b' \<and> bh_config b' = bh_config b \<and> account b' = account b
     \<and> extends (\<lambda>x. \<not> terminal x) b b' \<and> (bh_sneaking b \<longrightarrow> bh_sneaking b' \<and> extends no_release b b')"

lemma tick_result_stage: "stage b b' \<Longrightarrow> tick_result b b'"
  using extends_dispatched [of b b'] extends_mono [of mild b b' "\<lambda>x. \<not> terminal x"]
  by (auto simp: stage_def tick_result_def account_def mild_def)

lemma tick_result_trans: "tick_result a b \<Longrightarrow> tick_result b c \<Longrightarrow> tick_result a c"
  unfolding tick_result_def using extends_trans by metis

lemma sneak_inv_tasks:
  "sneak_inv b \<Longrightarrow> sneak_inv (b\<lparr>bh_manual := ts\<rparr>)" "sneak_inv b \<Longrightarrow> set us \<subseteq> set (bh_queue b) \<Longrightarrow> sneak_inv (b\<lparr>bh_queue := us\<rparr>)"
  by (auto simp: sneak_inv_def sender_of_def)

lemma sender_of_tasks [simp]: "sender_of (b\<lparr>bh_manual := ts\<rparr>) = sender_of b" "sender_of (b\<lparr>bh_queue := ts\<rparr>) = sender_of b"
  by (simp_all add: sender_of_def)

lemma tick_result_manual:
  assumes "sneak_inv b" and "bh_manual b = t # ts"
  shows "tick_result b (run_foreground e t True (b\<lparr>bh_manual := ts\<rparr>))"
proof -
  let ?b = "b\<lparr>bh_manual := ts\<rparr>"
  have inv: "sneak_inv ?b" using assms(1) by (rule sneak_inv_tasks)
  have "keeps ?b ?b" using inv by (simp add: keeps_refl sneak_inv_def)
  then obtain b1 where b1: "keeps ?b b1" "run_foreground e t True ?b =
      (case t of Command line \<Rightarrow> with_sender (emit (Behavior_log (dispatch_prefix @ line))) b1 | _ \<Rightarrow> b1)"
    using foreground by blast
  have s: "stage ?b b1" using stage_keeps [OF inv b1(1)] .
  have d: "dispatched (sd_log (sender_of b1)) = dispatched (sd_log (sender_of b))"
    using extends_dispatched [of ?b b1] s by (simp add: stage_def)
  have x: "extends mild b b1" "bh_sneaking b \<longrightarrow> extends no_release b b1 \<and> bh_sneaking b1"
    using s by (auto simp: stage_def extends_def)
  have t: "extends (\<lambda>x. \<not> terminal x) b b1" using extends_mono [OF x(1)] by (simp add: mild_def)
  show ?thesis
  proof (cases "\<exists>line. t = Command line")
    case True
    then obtain line where Command: "t = Command line" ..
    let ?b2 = "with_sender (emit (Behavior_log (dispatch_prefix @ line))) b1"
    have l: "sd_log (sender_of ?b2) = sd_log (sender_of b1) @ [Behavior_log (dispatch_prefix @ line)]"
      by (simp add: with_sender_def sender_of_def)
    have e2: "extends P b1 ?b2" if "P (Behavior_log (dispatch_prefix @ line))" for P using that l by (simp add: extends_def)
    have m2: "bh_manual ?b2 = ts" using s by (simp add: stage_def with_sender_def)
    have d2: "dispatched (sd_log (sender_of ?b2)) = dispatched (sd_log (sender_of b)) @ [line]"
      unfolding l dispatched_append d by simp
    have "sneak_inv ?b2" using s by (simp add: stage_def sneak_inv_def with_sender_def sender_of_def sneak_ok_emit)
    moreover have "account ?b2 = account b"
      unfolding account_def d2 m2 assms(2) lines_of_simps Command task.case append.assoc ..
    moreover have "extends (\<lambda>x. \<not> terminal x) b ?b2" by (rule extends_trans [OF t e2]) simp
    moreover have "bh_sneaking b \<longrightarrow> extends no_release b ?b2" using x(2) extends_trans e2 by fastforce
    moreover have "bh_config ?b2 = bh_config b" "bh_sneaking ?b2 = bh_sneaking b1"
      using s by (simp_all add: stage_def with_sender_def)
    ultimately show ?thesis using x(2) unfolding tick_result_def Command b1(2) [unfolded Command task.case] by blast
  next
    case False
    then have r: "run_foreground e t True ?b = b1" "lines_of (bh_manual b) = lines_of ts"
      using b1(2) assms(2) by (cases t; simp)+
    show ?thesis unfolding tick_result_def r account_def d using s x t by (simp add: stage_def)
  qed
qed

lemma tick_result_queue:
  assumes "sneak_inv b" and "bh_queue b = t # ts"
  shows "tick_result b (run_foreground e t False (b\<lparr>bh_queue := ts\<rparr>))"
proof -
  have t: "t = Clean_spawner" using assms by (auto simp: sneak_inv_def)
  let ?b = "b\<lparr>bh_queue := ts\<rparr>"
  have inv: "sneak_inv ?b" using assms by (intro sneak_inv_tasks) auto
  have "keeps ?b ?b" using inv by (simp add: keeps_refl sneak_inv_def)
  then have "keeps ?b (run_foreground e t False ?b)" by (simp add: run_foreground_def t)
  then have "tick_result ?b (run_foreground e t False ?b)" by (intro tick_result_stage stage_keeps inv)
  then show ?thesis by (simp add: tick_result_def account_def extends_def)
qed

lemma tick_result_tick:
  assumes "sneak_inv b"
  shows "tick_result b (on_tick e b)"
proof -
  define f where "f = tick_front e b"
  have s: "stage b f" unfolding f_def by (rule stage_front [OF assms])
  have inv: "sneak_inv f" using s by (simp add: stage_def)
  have kf: "keeps f f" using inv by (simp add: keeps_refl sneak_inv_def)
  have keep: "keeps f b' \<Longrightarrow> tick_result f b'" for b' by (rule tick_result_stage [OF stage_keeps [OF inv]])
  have t: "on_tick e b = (if bh_spawned f \<and> bh_manual f \<noteq> []
         then run_foreground e (hd (bh_manual f)) True (f\<lparr>bh_manual := tl (bh_manual f)\<rparr>)
         else if reading_multipliers (bh_inventory f) then with_inventory (tick_multipliers e) f
         else if \<not> bh_spawned f \<or> \<not> ready_by (bh_ready f) (bnow e) \<or> bnow e < bh_manual_until f then f
         else (case bh_queue f of
             t # ts \<Rightarrow>
               (let b5 = run_foreground e t False (f\<lparr>bh_queue := ts\<rparr>)
                in if sell_paused e b5 then with_inventory (interrupt e False False) b5 else b5)
           | [] \<Rightarrow>
               tick_sale e (if sell_paused e f then with_inventory (interrupt e False False) f else f)))"
    unfolding on_tick_def f_def tick_front_def Let_def ..
  have "tick_result f (on_tick e b)"
  proof (cases "bh_spawned f \<and> bh_manual f \<noteq> []")
    case True
    then show ?thesis using tick_result_manual [OF inv, of "hd (bh_manual f)" "tl (bh_manual f)"] by (simp add: t)
  next
    case False
    show ?thesis
    proof (cases "bh_queue f")
      case Nil
      then show ?thesis using False kf by (auto simp: t intro!: keep)
    next
      case (Cons q qs)
      let ?b5 = "run_foreground e q False (f\<lparr>bh_queue := qs\<rparr>)"
      have r: "tick_result f ?b5" by (rule tick_result_queue [OF inv Cons])
      have i5: "sneak_inv ?b5" using r by (simp add: tick_result_def)
      then have "keeps ?b5 ?b5" by (simp add: keeps_refl sneak_inv_def)
      then have "tick_result ?b5 (with_inventory (interrupt e False False) ?b5)"
        by (intro tick_result_stage stage_keeps i5) simp
      then have "tick_result f (with_inventory (interrupt e False False) ?b5)" using r tick_result_trans by blast
      then show ?thesis using False Cons kf r by (auto simp: t Let_def intro!: keep)
    qed
  qed
  then show ?thesis using tick_result_stage [OF s] tick_result_trans by blast
qed


section \<open>Events\<close>

text \<open>The events that add no task, change no settings and do not end the bot keep its behaviours.\<close>

fun ordinary :: "bot_event \<Rightarrow> bool" where
  "ordinary Tick_event = False"
| "ordinary Watchdog = False"
| "ordinary (Play_status st) = False"
| "ordinary (Leave r) = False"
| "ordinary (Error_event err) = False"
| "ordinary (Uncaught m) = False"
| "ordinary (Unhandled m) = False"
| "ordinary (Supervisor (Chat l)) = False"
| "ordinary (Supervisor (Configure conf)) = False"
| "ordinary (Supervisor Clean) = False"
| "ordinary (Supervisor Read_multipliers) = False"
| "ordinary (Supervisor Quit) = False"
| "ordinary _ = True"

lemma bot_parts [simp]:
  "bt_behavior (step_to t p b) = bt_behavior b" "bt_behavior (behave f b) = f (bt_behavior b)"
  "bt_behavior (shutdown_bot b) = bt_behavior b" "bt_behavior (tell x b) = with_sender (emit x) (bt_behavior b)"
  "bt_behavior (handle h b) = with_inventory h (bt_behavior b)"
  "bt_exiting (step_to t p b) = bt_exiting b" "bt_exiting (behave f b) = bt_exiting b" "bt_exiting (tell x b) = bt_exiting b"
  "bt_exiting (handle h b) = bt_exiting b" "bt_exiting (shutdown_bot b)" "bt_exiting (end_process b)"
  "bt_behavior (end_process b) = bt_behavior b" "bt_watchdog (end_process b) = bt_watchdog b" "bt_ticking (end_process b) = bt_ticking b"
  "bt_watchdog (step_to t p b) = bt_watchdog b" "bt_watchdog (behave f b) = bt_watchdog b" "bt_watchdog (tell x b) = bt_watchdog b"
  "bt_watchdog (handle h b) = bt_watchdog b" "\<not> bt_watchdog (shutdown_bot b)"
  "bt_ticking (step_to t p b) = bt_ticking b" "bt_ticking (behave f b) = bt_ticking b" "bt_ticking (tell x b) = bt_ticking b"
  "bt_ticking (handle h b) = bt_ticking b" "\<not> bt_ticking (shutdown_bot b)"
  "bt_spawned (behave f b) = bt_spawned b" "bt_spawned (step_to t p b) = bt_spawned b" "bt_spawned (handle h b) = bt_spawned b"
  "bt_spawned (tell x b) = bt_spawned b"
  by (simp_all add: step_to_def behave_def shutdown_bot_def end_process_def tell_def handle_def)

lemma keeps_handle: "keeps b0 b \<Longrightarrow> keeps b0 (with_inventory (on_inventory_packet e p) b)"
    "keeps b0 b \<Longrightarrow> keeps b0 (with_inventory (on_equipment k i) b)"
    "keeps b0 b \<Longrightarrow> keeps b0 (with_inventory (invalidate_after_decode_failure e) b)"
    "keeps b0 b \<Longrightarrow> keeps b0 (with_inventory clear_menu_titles b)"
  by (simp_all add: keeps_inventory)

lemma keeps_world: "(\<And>sd s. release_ok s \<Longrightarrow> release_ok (f sd s)) \<Longrightarrow> keeps b0 b \<Longrightarrow> keeps b0 (b\<lparr>bh_mouse := f (sender_of b) (bh_mouse b)\<rparr>)"
  by (simp add: keeps_def sender_of_def)

lemma keeps_on_mouse: "(\<And>sd s. release_ok s \<Longrightarrow> release_ok (f sd s)) \<Longrightarrow> keeps b0 (bt_behavior b)
    \<Longrightarrow> keeps b0 (bt_behavior (on_mouse f b)) \<and> bt_exiting (on_mouse f b) = bt_exiting b
      \<and> bt_watchdog (on_mouse f b) = bt_watchdog b \<and> bt_ticking (on_mouse f b) = bt_ticking b"
  by (simp add: on_mouse_def keeps_world)

lemma keeps_start: "keeps b0 b \<Longrightarrow> keeps b0 (with_sender (\<lambda>sd. (set_input_tick t
    (update_position p pitch yaw False (set_entity i sd)))\<lparr>sd_authoritative := a\<rparr>) b)"
  by (rule keeps_sender) simp_all

lemma keeps_position: "keeps b0 b \<Longrightarrow> keeps b0 (with_sender (update_position p pitch yaw tp) b)"
  by (rule keeps_sender) simp_all

lemma ordinary_keeps:
  assumes "ordinary ev" and "release_ok (bh_mouse (bt_behavior b))"
  shows "keeps (bt_behavior b) (bt_behavior (bot_step load c (e, ev) b))"
    and "bt_exiting (bot_step load c (e, ev) b) = bt_exiting b"
    and "bt_watchdog (bot_step load c (e, ev) b) \<longrightarrow> bt_watchdog b"
    and "bt_ticking (bot_step load c (e, ev) b) = bt_ticking b"
proof -
  have k: "keeps (bt_behavior b) (bt_behavior b)" using assms(2) by (simp add: keeps_refl)
  have "keeps (bt_behavior b) (bt_behavior (bot_step load c (e, ev) b)) \<and> bt_exiting (bot_step load c (e, ev) b) = bt_exiting b
    \<and> (bt_watchdog (bot_step load c (e, ev) b) \<longrightarrow> bt_watchdog b) \<and> bt_ticking (bot_step load c (e, ev) b) = bt_ticking b"
  proof (cases ev)
    case (Start_game p)
    then show ?thesis using k by (simp add: on_start_def Let_def keeps_start)
  next
    case (Change_dimension p d)
    then show ?thesis using k by (simp add: on_change_dimension_def keeps_position)
  next
    case (Move_player i tp p pitch yaw)
    define mb where "mb = on_move_player e i tp p pitch yaw b"
    have m: "keeps (bt_behavior b) (bt_behavior mb)" "bt_exiting mb = bt_exiting b" "bt_watchdog mb = bt_watchdog b" "bt_ticking mb = bt_ticking b"
      using k by (simp_all add: mb_def on_move_player_def Let_def keeps_position)
    have "keeps (bt_behavior b) (bt_behavior (on_mouse (\<lambda>sd. on_entity ''move_player'' sd q) mb))
        \<and> bt_exiting (on_mouse (\<lambda>sd. on_entity ''move_player'' sd q) mb) = bt_exiting mb
        \<and> bt_watchdog (on_mouse (\<lambda>sd. on_entity ''move_player'' sd q) mb) = bt_watchdog mb
        \<and> bt_ticking (on_mouse (\<lambda>sd. on_entity ''move_player'' sd q) mb) = bt_ticking mb" for q
      by (rule keeps_on_mouse) (simp_all add: m)
    then show ?thesis unfolding Move_player bot_step.simps mb_def [symmetric] m(2-4) by blast
  next
    case (Entity_data i m)
    have "keeps (bt_behavior b) ((bt_behavior b)\<lparr>bh_mouse := observe_using i (sender_of (bt_behavior b)) m (bh_mouse (bt_behavior b))\<rparr>)"
      using keeps_world [where f = "\<lambda>sd. observe_using i sd m"] k by simp
    then show ?thesis by (simp add: Entity_data on_entity_data_def Let_def split: option.split)
  next
    case (Text_packet f sd m)
    then show ?thesis using k by (simp add: on_text_def Let_def)
  next
    case (Session p)
    then show ?thesis using k by (auto simp: on_session_def Let_def split: option.split)
  next
    case (Supervisor cmd)
    then show ?thesis using k assms(1) by (cases cmd) (simp_all add: handle_command_def)
  qed (use k assms(1) in \<open>simp_all add: keeps_on_mouse keeps_handle\<close>)
  then show "keeps (bt_behavior b) (bt_behavior (bot_step load c (e, ev) b))"
    and "bt_exiting (bot_step load c (e, ev) b) = bt_exiting b"
    and "bt_watchdog (bot_step load c (e, ev) b) \<longrightarrow> bt_watchdog b"
    and "bt_ticking (bot_step load c (e, ev) b) = bt_ticking b" by blast+
qed

text \<open>The end of the bot: a closing report and the shutdown, or nothing.\<close>

definition ended :: "bot \<Rightarrow> bot \<Rightarrow> bool" where
  "ended b b' \<longleftrightarrow> b' = b \<or> ((\<not> bt_exiting b \<or> bt_watchdog b) \<and> (\<exists>x. closing x \<and> b' = shutdown_bot (tell x b)))"

lemma recover_keeps:
  assumes "release_ok (bh_mouse (bt_behavior b))"
  shows "keeps (bt_behavior b) (bt_behavior (fst (recover e err b))) \<and> bt_exiting (fst (recover e err b)) = bt_exiting b
    \<and> bt_watchdog (fst (recover e err b)) = bt_watchdog b \<and> bt_ticking (fst (recover e err b)) = bt_ticking b
    \<and> (\<not> snd (recover e err b) \<longrightarrow> fst (recover e err b) = b)"
proof -
  have k: "keeps (bt_behavior b) (bt_behavior b)" using assms by (simp add: keeps_refl)
  show ?thesis using k unfolding recover_def
    by (cases err) (auto simp: Let_def keeps_handle split: option.split)
qed

lemma ended_same [simp]: "ended b b"
  by (simp add: ended_def)

lemma endedI [simp]: "\<not> bt_exiting b \<or> bt_watchdog b \<Longrightarrow> closing x \<Longrightarrow> ended b (shutdown_bot (tell x b))"
  by (auto simp: ended_def)

lemma end_events:
  "ev = Watchdog \<or> (\<exists>st. ev = Play_status st) \<or> (\<exists>r. ev = Leave r)
    \<Longrightarrow> ended b (bot_step load c (e, ev) b)"
  by (auto simp: on_gone_def split: option.split)

lemma error_event:
  assumes "release_ok (bh_mouse (bt_behavior b))"
  shows "bot_step load c (e, Error_event err) b = fst (recover e err b) \<or> ended b (bot_step load c (e, Error_event err) b)"
proof (cases "snd (recover e err b)")
  case True
  then obtain b1 where "recover e err b = (b1, True)" by (metis prod.collapse)
  then show ?thesis by simp
next
  case False
  then have "recover e err b = (b, False)" using recover_keeps [OF assms, of e err] by (metis prod.collapse)
  then show ?thesis by simp
qed


section \<open>Runs\<close>

definition bot_inv :: "bot \<Rightarrow> bool" where
  "bot_inv b \<longleftrightarrow> sneak_inv (bt_behavior b)
     \<and> length (filter closing (bot_log b)) \<le> (if bt_exiting b \<and> \<not> bt_watchdog b \<and> \<not> bt_ticking b then 1 else 0)
     \<and> (bt_exiting b \<or> bt_ticking b)"

text \<open>The lines that an event asks for.\<close>

fun asked :: "bot_event \<Rightarrow> jstr list" where
  "asked (Supervisor (Chat l)) = (if trim l = [] then [] else [trim l])"
| "asked _ = []"

fun uncaught :: "bot_event \<Rightarrow> jstr list" where
  "uncaught (Uncaught m) = [js ''Uncaught error: '' @ m]"
| "uncaught (Unhandled m) = [js ''Unhandled rejection: '' @ m]"
| "uncaught _ = []"

fun settings :: "bot_event \<Rightarrow> behavior \<Rightarrow> behavior_config" where
  "settings (Supervisor (Configure conf)) b = conf"
| "settings _ b = bh_config b"

text \<open>What one event does to the behaviours, apart from ending the bot.\<close>

definition bot_result :: "bot_event \<Rightarrow> behavior \<Rightarrow> behavior \<Rightarrow> bool" where
  "bot_result ev b b' \<longleftrightarrow> sneak_inv b' \<and> account b' = account b @ asked ev \<and> bh_config b' = settings ev b
     \<and> fatals (sd_log (sender_of b')) = fatals (sd_log (sender_of b)) @ uncaught ev
     \<and> (bh_sneaking b \<and> bc_crouch (bh_config b) \<and> bc_crouch (bh_config b') \<longrightarrow> bh_sneaking b' \<and> extends no_release b b')"

lemma fatals_append [simp]: "fatals (xs @ ys) = fatals xs @ fatals ys"
  by (simp add: fatals_def)

lemma no_fatal: "extends (\<lambda>x. \<not> terminal x) b b' \<Longrightarrow> fatals (sd_log (sender_of b')) = fatals (sd_log (sender_of b))"
proof -
  have "list_all (\<lambda>x. \<not> terminal x) xs \<Longrightarrow> fatals xs = []" for xs by (induction xs) (auto simp: fatals_def terminal_def)
  then show "extends (\<lambda>x. \<not> terminal x) b b' \<Longrightarrow> ?thesis" by (auto simp: extends_def)
qed

lemma bot_result_keeps: "sneak_inv b \<Longrightarrow> keeps b b' \<Longrightarrow> asked ev = [] \<Longrightarrow> uncaught ev = [] \<Longrightarrow> settings ev b = bh_config b
    \<Longrightarrow> bot_result ev b b'"
  using tick_result_stage [OF stage_keeps [of b b']] no_fatal [of b b'] by (simp add: bot_result_def tick_result_def)

text \<open>New settings: the crouch is applied or released when its switch has changed.\<close>

lemma account_with_sender: "sd_log (f (sender_of b)) = sd_log (sender_of b) \<Longrightarrow> account (with_sender f b) = account b"
  by (simp add: account_def with_sender_def sender_of_def)

lemma apply_crouch_result:
  assumes "sneak_inv b"
  shows "sneak_inv (apply_crouch f r b)" "account (apply_crouch f r b) = account b" "bh_config (apply_crouch f r b) = bh_config b"
    "extends P b (apply_crouch f r b)" "bh_sneaking (apply_crouch f r b) = f"
    "filter Q (sd_log (sender_of (apply_crouch f r b))) = filter Q (sd_log (sender_of b))"
proof -
  have s: "sender_of (apply_crouch f r b) = set_sneak f r (sender_of b)" "bh_mouse (apply_crouch f r b) = bh_mouse b"
      "bh_queue (apply_crouch f r b) = bh_queue b" "bh_manual (apply_crouch f r b) = bh_manual b"
    by (simp_all add: apply_crouch_def with_sender_def sender_of_def)
  have l: "sd_log (set_sneak f r sd) = sd_log sd" "sd_sneaking (set_sneak f r sd) = f" for sd by (simp_all add: set_sneak_def)
  show sn: "bh_sneaking (apply_crouch f r b) = f" by (simp add: apply_crouch_def with_sender_def)
  show "sneak_inv (apply_crouch f r b)" using assms by (simp add: sneak_inv_def s sn l sneak_ok_set)
  show "account (apply_crouch f r b) = account b" by (simp add: account_def s l)
  show "bh_config (apply_crouch f r b) = bh_config b" by (simp add: apply_crouch_def with_sender_def)
  show "extends P b (apply_crouch f r b)" by (rule extends_same) (simp add: s l)
  show "filter Q (sd_log (sender_of (apply_crouch f r b))) = filter Q (sd_log (sender_of b))" by (simp add: s l)
qed

lemma configure_result:
  assumes "sneak_inv b"
  shows "bot_result (Supervisor (Configure conf)) b (update_config load e conf b)
    \<and> extends (\<lambda>x. \<not> terminal x) b (update_config load e conf b)"
proof -
  let ?b0 = "b\<lparr>bh_config := conf\<rparr>"
  define b1 where "b1 = with_mouse (configure_mouse load e (bc_button conf)) ?b0"
  define b2 where "b2 = (if bc_autosell conf then b1 else with_inventory (interrupt e False False) b1)"
  define changed where "changed \<longleftrightarrow> bc_autosell (bh_config b) \<noteq> bc_autosell conf \<or> bc_interval (bh_config b) \<noteq> bc_interval conf
    \<or> bc_command (bh_config b) \<noteq> bc_command conf"
  define b3 where "b3 = (if changed \<and> bc_autosell conf
      then b2\<lparr>bh_next_sale := map_option (\<lambda>r. of_int (max (bnow e) r)) (bh_ready b2)\<rparr> else b2)"
  define b4 where "b4 = (if bc_crouch conf \<and> \<not> bc_crouch (bh_config b) then apply_crouch True False b3 else b3)"
  have u: "update_config load e conf b = (if \<not> bc_crouch conf \<and> bc_crouch (bh_config b) then apply_crouch False False b4 else b4)"
    unfolding update_config_def Let_def changed_def [symmetric] b1_def [symmetric] b2_def [symmetric] b3_def [symmetric] b4_def [symmetric] ..
  have i0: "sneak_inv ?b0" using assms by (simp add: sneak_inv_def sender_of_def)
  have "keeps ?b0 ?b0" using i0 by (simp add: keeps_refl sneak_inv_def)
  then have "keeps ?b0 b3" by (simp add: b3_def b2_def b1_def)
  then have s: "stage ?b0 b3" by (rule stage_keeps [OF i0])
  have i3: "sneak_inv b3" using s by (rule stage_inv)
  have a3: "account b3 = account b" "bh_config b3 = conf"
    using tick_result_stage [OF s] by (simp_all add: tick_result_def) (simp add: account_def sender_of_def)
  have x3: "extends (\<lambda>x. \<not> terminal x) b b3" "bh_sneaking b \<longrightarrow> bh_sneaking b3 \<and> extends no_release b b3"
    using tick_result_stage [OF s] by (simp_all add: tick_result_def extends_def sender_of_def)
  note c = apply_crouch_result [OF i3, where f = False and r = False] apply_crouch_result [OF i3, where f = True and r = False]
  have "extends (\<lambda>x. \<not> terminal x) b (apply_crouch f False b3)" for f
    using extends_trans [OF x3(1) apply_crouch_result(4) [OF i3]] .
  then show ?thesis using c i3 a3 x3 no_fatal [OF x3(1)] no_fatal [OF apply_crouch_result(4) [OF i3], of f False for f]
    unfolding u b4_def by (auto simp: bot_result_def)
qed

lemma enqueue_result:
  assumes "sneak_inv b"
  shows "bot_result (Supervisor (Chat l)) b (enqueue_chat l b)" "bot_result (Supervisor Clean) b (enqueue_clean_spawner b)"
    "bot_result (Supervisor Read_multipliers) b (enqueue_sell_multipliers b)"
  using assms by (auto simp: bot_result_def enqueue_chat_def enqueue_clean_spawner_def enqueue_sell_multipliers_def
      account_def sneak_inv_def sender_of_def extends_def)

text \<open>Ending the bot adds one terminal output and touches nothing else.\<close>

lemma with_emit_result:
  assumes "sneak_inv b" and "terminal x"
  shows "sneak_inv (with_sender (emit x) b)" "account (with_sender (emit x) b) = account b"
    "extends no_release b (with_sender (emit x) b)" "bh_config (with_sender (emit x) b) = bh_config b"
    "bh_sneaking (with_sender (emit x) b) = bh_sneaking b"
    "fatals (sd_log (sender_of (with_sender (emit x) b))) = fatals (sd_log (sender_of b)) @ fatal_line x"
    "filter closing (sd_log (sender_of (with_sender (emit x) b))) = filter closing (sd_log (sender_of b)) @ (if closing x then [x] else [])"
proof -
  have x: "quiet x" "dispatched_line x = []" "no_release x" using assms(2) by (cases x; simp)+
  show "sneak_inv (with_sender (emit x) b)" using assms(1) x(1) by (simp add: sneak_inv_def with_sender_def sender_of_def sneak_ok_emit)
  show "account (with_sender (emit x) b) = account b"
    by (simp add: account_def with_sender_def sender_of_def) (simp add: dispatched_def x(2))
  show "extends no_release b (with_sender (emit x) b)" using x(3) by (simp add: extends_def with_sender_def sender_of_def)
  show "fatals (sd_log (sender_of (with_sender (emit x) b))) = fatals (sd_log (sender_of b)) @ fatal_line x"
    "filter closing (sd_log (sender_of (with_sender (emit x) b))) = filter closing (sd_log (sender_of b)) @ (if closing x then [x] else [])"
    by (simp_all add: with_sender_def sender_of_def fatals_def)
qed (simp_all add: with_sender_def)

lemma ended_result:
  assumes "bot_inv b" and "ended b b'" and "asked ev = []" and "uncaught ev = []"
    and "settings ev (bt_behavior b) = bh_config (bt_behavior b)"
  shows "bot_inv b' \<and> bot_result ev (bt_behavior b) (bt_behavior b')"
proof (cases "b' = b")
  case True
  then show ?thesis using assms by (simp add: bot_result_def bot_inv_def extends_same)
next
  case False
  then obtain x where x: "closing x" "b' = shutdown_bot (tell x b)" "\<not> bt_exiting b \<or> bt_watchdog b" using assms(2) by (auto simp: ended_def)
  have "sneak_inv (bt_behavior b)" "terminal x" using assms(1) x(1) by (simp_all add: bot_inv_def terminal_def)
  note r = with_emit_result [OF this]
  have "filter closing (bot_log b) = []" using assms(1) x(3) by (auto simp: bot_inv_def split: if_splits)
  then have "length (filter closing (bot_log b')) = 1" using r(7) x(1) by (simp add: x(2) bot_log_def)
  moreover have "fatal_line x = []" using x(1) by (cases x) simp_all
  ultimately show ?thesis using r assms(3-5) x(2) by (simp add: bot_inv_def bot_result_def)
qed

text \<open>An error that nothing caught is reported, and nothing else changes.\<close>

lemma fatal_result:
  assumes "bot_inv b" and "asked ev = []" and "settings ev (bt_behavior b) = bh_config (bt_behavior b)" and "uncaught ev = [m]"
  shows "bot_inv (end_process (tell (Fatal m) b)) \<and> bot_result ev (bt_behavior b) (bt_behavior (end_process (tell (Fatal m) b)))"
proof -
  have "sneak_inv (bt_behavior b)" using assms(1) by (simp add: bot_inv_def)
  note r = with_emit_result [OF this, of "Fatal m"]
  show ?thesis using assms r by (auto simp: bot_inv_def bot_result_def bot_log_def split: if_splits)
qed

lemma no_terminal: "extends (\<lambda>x. \<not> terminal x) b b' \<Longrightarrow> filter closing (sd_log (sender_of b')) = filter closing (sd_log (sender_of b))"
  by (auto simp: extends_def list_all_iff filter_empty_conv terminal_def)

lemma step_result:
  assumes "bot_inv b"
  shows "bot_inv (bot_step load c (e, ev) b) \<and> bot_result ev (bt_behavior b) (bt_behavior (bot_step load c (e, ev) b))"
proof -
  have inv: "sneak_inv (bt_behavior b)" using assms by (simp add: bot_inv_def)
  have rel: "release_ok (bh_mouse (bt_behavior b))" using inv by (simp add: sneak_inv_def)
  have quiet_step: "bot_inv b' \<and> bot_result ev (bt_behavior b) (bt_behavior b')"
    if "keeps (bt_behavior b) (bt_behavior b')" "bt_exiting b' = bt_exiting b" "bt_watchdog b' \<longrightarrow> bt_watchdog b"
      "bt_ticking b' = bt_ticking b" "asked ev = []" "uncaught ev = []" "settings ev (bt_behavior b) = bh_config (bt_behavior b)" for b'
  proof -
    have s: "stage (bt_behavior b) (bt_behavior b')" by (rule stage_keeps [OF inv that(1)])
    have "filter closing (bot_log b') = filter closing (bot_log b)"
      unfolding bot_log_def using tick_result_stage [OF s] by (intro no_terminal) (simp add: tick_result_def)
    then show ?thesis using bot_result_keeps [OF inv that(1,5-7)] assms that(2-4) stage_inv [OF s] by (auto simp: bot_inv_def split: if_splits)
  qed
  have result_step: "bot_inv b' \<and> bot_result ev (bt_behavior b) (bt_behavior b')"
    if "bot_result ev (bt_behavior b) (bt_behavior b')" "extends (\<lambda>x. \<not> terminal x) (bt_behavior b) (bt_behavior b')"
      "bt_exiting b' = bt_exiting b" "bt_watchdog b' = bt_watchdog b" "bt_ticking b' = bt_ticking b" for b'
    using that assms no_terminal [OF that(2)] by (simp add: bot_inv_def bot_result_def bot_log_def)
  have tasks: "extends P (bt_behavior b) (enqueue_chat l (bt_behavior b))" "extends P (bt_behavior b) (enqueue_clean_spawner (bt_behavior b))"
    "extends P (bt_behavior b) (enqueue_sell_multipliers (bt_behavior b))" for P l
    by (simp_all add: extends_def enqueue_chat_def enqueue_clean_spawner_def enqueue_sell_multipliers_def sender_of_def)
  show ?thesis
  proof (cases "ordinary ev")
    case True
    then have "asked ev = []" "uncaught ev = []" "settings ev (bt_behavior b) = bh_config (bt_behavior b)"
      by (cases ev rule: ordinary.cases; simp)+
    then show ?thesis using ordinary_keeps [OF True rel, of load c e] by (intro quiet_step) auto
  next
    case False
    show ?thesis using False
    proof (cases ev rule: ordinary.cases)
      case 1
      have "tick_result (bt_behavior b) (on_tick e (bt_behavior b))" by (rule tick_result_tick [OF inv])
      then have "bot_result ev (bt_behavior b) (on_tick e (bt_behavior b))" "extends (\<lambda>x. \<not> terminal x) (bt_behavior b) (on_tick e (bt_behavior b))"
        using no_fatal [of "bt_behavior b" "on_tick e (bt_behavior b)"] by (simp_all add: tick_result_def bot_result_def 1)
      then have "bot_inv (behave (on_tick e) b) \<and> bot_result ev (bt_behavior b) (bt_behavior (behave (on_tick e) b))"
        by (intro result_step) simp_all
      moreover have "bot_inv b \<and> bot_result ev (bt_behavior b) (bt_behavior b)" using assms inv by (simp add: bot_result_def 1 extends_same)
      ultimately show ?thesis by (simp add: 1)
    next
      case 2
      then have "ended b (bot_step load c (e, ev) b)" using end_events [of ev b] by simp
      then show ?thesis by (intro ended_result [OF assms]) (simp_all add: 2)
    next
      case (3 st)
      then have "ended b (bot_step load c (e, ev) b)" using end_events [of ev b] by simp
      then show ?thesis by (intro ended_result [OF assms]) (simp_all add: 3)
    next
      case (4 r)
      then have "ended b (bot_step load c (e, ev) b)" using end_events [of ev b] by simp
      then show ?thesis by (intro ended_result [OF assms]) (simp_all add: 4)
    next
      case (5 err)
      show ?thesis using error_event [OF rel, of load c e err] unfolding 5
      proof
        assume "bot_step load c (e, Error_event err) b = fst (recover e err b)"
        then show "bot_inv (bot_step load c (e, Error_event err) b)
            \<and> bot_result (Error_event err) (bt_behavior b) (bt_behavior (bot_step load c (e, Error_event err) b))"
          using recover_keeps [OF rel, of e err] quiet_step [of "fst (recover e err b)"] by (simp add: 5)
      next
        assume "ended b (bot_step load c (e, Error_event err) b)"
        then show "bot_inv (bot_step load c (e, Error_event err) b)
            \<and> bot_result (Error_event err) (bt_behavior b) (bt_behavior (bot_step load c (e, Error_event err) b))"
          by (intro ended_result [OF assms]) simp_all
      qed
    next
      case (6 m)
      then show ?thesis using fatal_result [OF assms, of ev "js ''Uncaught error: '' @ m"] by simp
    next
      case (7 m)
      then show ?thesis using fatal_result [OF assms, of ev "js ''Unhandled rejection: '' @ m"] by simp
    next
      case (8 l)
      then show ?thesis using result_step [of "behave (enqueue_chat l) b"] enqueue_result(1) [OF inv] tasks(1) by (simp add: handle_command_def)
    next
      case (9 conf)
      then show ?thesis using result_step [of "behave (update_config load e conf) b"] configure_result [OF inv] by (simp add: handle_command_def)
    next
      case 10
      then show ?thesis using result_step [of "behave enqueue_clean_spawner b"] enqueue_result(2) [OF inv] tasks(2) by (simp add: handle_command_def)
    next
      case 11
      then show ?thesis using result_step [of "behave enqueue_sell_multipliers b"] enqueue_result(3) [OF inv] tasks(3) by (simp add: handle_command_def)
    next
      case 12
      have "bot_log (shutdown_bot b) = bot_log b" by (simp add: bot_log_def)
      then show ?thesis using assms inv by (auto simp: 12 handle_command_def bot_inv_def bot_result_def extends_same split: if_splits)
    qed simp_all
  qed
qed


lemma new_bot_inv: "bot_inv (new_bot load e c n conf a r g) \<and> account (bt_behavior (new_bot load e c n conf a r g)) = []
    \<and> fatals (bot_log (new_bot load e c n conf a r g)) = []"
proof -
  define b0 where "b0 = \<lparr>bh_inventory = new_inventory (new_sender n),
     bh_mouse = new_mouse (if sl_version (cf_selected c) = [] then js ''1.26.51'' else sl_version (cf_selected c)),
     bh_crouch_check = 0, bh_checks = [], bh_manual_until = 0, bh_config = conf, bh_spawned = False, bh_heartbeat = 0,
     bh_next_sale = Some (of_int (bnow e)), bh_pause_start = 0, bh_pause_end = 0, bh_ready = None, bh_manual = [], bh_queue = [],
     bh_sneaking = False, bh_server_sneaking = None, bh_grace = 0, bh_resync = False\<rparr>"
  define b where "b = bt_behavior (new_bot load e c n conf a r g)"
  have b: "b = pause_autosell e a r (with_mouse (configure_mouse load e (bc_button conf)) b0)"
    by (simp add: b_def new_bot_def new_behavior_def b0_def)
  have i0: "sneak_inv b0"
    by (simp add: b0_def sneak_inv_def sender_of_def new_inventory_def release_ok_def new_mouse_def sneak_ok_new) (simp add: new_sender_def)
  have l0: "sd_log (sender_of b0) = []" "bh_manual b0 = []" by (simp_all add: b0_def sender_of_def new_inventory_def new_sender_def)
  have "keeps b0 b0" using i0 by (simp add: keeps_refl sneak_inv_def)
  then have "stage b0 b" by (intro stage_keeps i0) (simp add: b)
  then have t: "tick_result b0 b" by (rule tick_result_stage)
  then have "filter closing (sd_log (sender_of b)) = []" "fatals (sd_log (sender_of b)) = []"
    using no_terminal no_fatal l0(1) by (fastforce simp: tick_result_def fatals_def)+
  moreover have "account b = []" using t l0 by (simp add: tick_result_def account_def dispatched_def)
  moreover have "sneak_inv b" using t by (simp add: tick_result_def)
  ultimately show ?thesis unfolding b_def by (simp add: bot_inv_def bot_log_def) (simp add: new_bot_def)
qed

lemma bot_run_inv: "bot_inv b \<Longrightarrow> bot_inv (fold (bot_step load c) evs b)"
proof (induction evs arbitrary: b)
  case (Cons a evs)
  then show ?case using step_result [of b load c "fst a" "snd a"] by simp
qed simp


lemma run_fatals:
  "bot_inv b \<Longrightarrow> fatals (bot_log (fold (bot_step load c) evs b)) = fatals (bot_log b) @ concat (map (\<lambda>(e, ev). uncaught ev) evs)"
proof (induction evs arbitrary: b)
  case (Cons a evs)
  obtain e ev where a: "a = (e, ev)" by (cases a)
  have "bot_inv (bot_step load c a b)" "fatals (bot_log (bot_step load c a b)) = fatals (bot_log b) @ uncaught ev"
    using step_result [OF Cons.prems, of load c e ev] by (simp_all add: a bot_result_def bot_log_def)
  then show ?case using Cons.IH [of "bot_step load c a b"] by (simp add: a)
qed simp




definition demo_settings :: behavior_config where
  "demo_settings = \<lparr>bc_crouch = True, bc_button = OFF, bc_autosell = False, bc_interval = None, bc_command = None\<rparr>"

definition demo_config :: bot_config where
  "demo_config = \<lparr>cf_host = js ''play'', cf_port = 19132, cf_version = [],
     cf_selected = \<lparr>sl_version = js ''1.21'', sl_protocol = 766, sl_advertised = 766, sl_negotiating = False\<rparr>\<rparr>"

definition demo_loader :: loader where
  "demo_loader _ _ _ = \<lparr>rg_air = Some 0, rg_block = (\<lambda>_. None), rg_size = (\<lambda>_. None)\<rparr>"

definition demo_start :: start_packet where
  "demo_start = \<lparr>sp_entity = Some 9, sp_position = Some (Finite 1, Finite 64, Finite 1), sp_pitch = Finite 0, sp_yaw = Finite 0,
     sp_tick = Some 100, sp_authoritative = True, sp_dimension = Some 0, sp_data = \<lparr>st_items = None, st_hashes = None\<rparr>\<rparr>"

definition demo_process :: bot where
  "demo_process = new_bot demo_loader (demo_bot 0) demo_config (js ''Bot'') demo_settings 0 0 (new_progress 0 60000)"

definition demo_orders :: "(bot_env \<times> bot_event) list" where
  "demo_orders = [(demo_bot 10, Supervisor (Chat (js '' /home ''))), (demo_bot 20, Start_game demo_start), (demo_bot 30, Spawn),
     (demo_bot 40, Supervisor (Chat []))]"

lemma demo_run:
  "fold (bot_step demo_loader demo_config) evs demo_process = fold (bot_step demo_loader demo_config) evs
     (new_bot demo_loader (demo_bot 0) demo_config (js ''Bot'') demo_settings 0 0 (new_progress 0 60000))"
  by (simp only: demo_process_def)



text \<open>
  C13. A bot that holds its crouch never lets go of it by itself. From any reachable state in which crouching is
  switched on and held, and until the settings switch it off, no frame that the bot sends tells the server to
  stop sneaking; and whenever no change is pending, the last thing the server was told is to sneak, however many
  frames failed.
\<close>

theorem crouch_is_held:
  assumes "s = fold (bot_step load c) evs (new_bot load e0 c n conf a r g)"
    and "bc_crouch (bh_config (bt_behavior s))" and "bh_sneaking (bt_behavior s)"
    and "\<forall>(e, ev) \<in> set evs'. \<forall>conf. ev = Supervisor (Configure conf) \<longrightarrow> bc_crouch conf"
    and "s' = fold (bot_step load c) evs' s"
  shows "extends no_release (bt_behavior s) (bt_behavior s')
    \<and> (\<not> sd_edge (sender_of (bt_behavior s')) \<longrightarrow> told (bot_log s') = Some True)"
proof -
  have inv: "bot_inv s" using bot_run_inv new_bot_inv assms(1) by blast
  have run: "extends no_release (bt_behavior u) (bt_behavior (fold (bot_step load c) es u)) \<and> bh_sneaking (bt_behavior (fold (bot_step load c) es u))"
    if "bot_inv u" "bc_crouch (bh_config (bt_behavior u))" "bh_sneaking (bt_behavior u)"
      "\<forall>(e, ev) \<in> set es. \<forall>conf. ev = Supervisor (Configure conf) \<longrightarrow> bc_crouch conf" for u es
    using that
  proof (induction es arbitrary: u)
    case (Cons x es)
    obtain e ev where x: "x = (e, ev)" by (cases x)
    have r: "bot_inv (bot_step load c x u)" "bot_result ev (bt_behavior u) (bt_behavior (bot_step load c x u))"
      using step_result [OF Cons.prems(1), of load c e ev] by (simp_all add: x)
    have "\<forall>conf. ev = Supervisor (Configure conf) \<longrightarrow> bc_crouch conf" using Cons.prems(4) by (simp add: x)
    then have "bc_crouch (settings ev (bt_behavior u))" using Cons.prems(2) by (cases "(ev, bt_behavior u)" rule: settings.cases) simp_all
    then have "bc_crouch (bh_config (bt_behavior (bot_step load c x u)))" "bh_sneaking (bt_behavior (bot_step load c x u))"
        "extends no_release (bt_behavior u) (bt_behavior (bot_step load c x u))"
      using r(2) Cons.prems(2,3) by (simp_all add: bot_result_def)
    then show ?case using Cons.IH [OF r(1)] Cons.prems(4) extends_trans by simp
  qed (simp add: extends_same)
  have "extends no_release (bt_behavior s) (bt_behavior s')" using run [OF inv assms(2-4)] assms(5) by simp
  moreover have "sneak_inv (bt_behavior s')" using bot_run_inv [OF inv] assms(5) by (simp add: bot_inv_def)
  then have "\<not> sd_edge (sender_of (bt_behavior s')) \<longrightarrow> told (bot_log s') = Some True"
    using run [OF inv assms(2-4)] assms(5) by (simp add: sneak_inv_def sneak_ok_def bot_log_def)
  ultimately show ?thesis ..
qed

definition demo_crouch :: "(bot_env \<times> bot_event) list" where
  "demo_crouch = demo_orders @ [(demo_bot 500, Tick_event), (demo_bot 550, Tick_event)]"

lemma demo_crouch_holds:
  "bc_crouch (bh_config (bt_behavior (fold (bot_step demo_loader demo_config) demo_crouch demo_process)))"
  "bh_sneaking (bt_behavior (fold (bot_step demo_loader demo_config) demo_crouch demo_process))"
  "\<not> sd_edge (sender_of (bt_behavior (fold (bot_step demo_loader demo_config) [(demo_bot 600, Tick_event)]
     (fold (bot_step demo_loader demo_config) demo_crouch demo_process))))"
  by code_simp+

theorem crouch_is_held_witness:
  "told (bot_log (fold (bot_step demo_loader demo_config) [(demo_bot 600, Tick_event)]
     (fold (bot_step demo_loader demo_config) demo_crouch demo_process))) = Some True"
  by (rule conjunct2 [OF crouch_is_held [OF demo_run demo_crouch_holds(1,2) _ refl], THEN mp])
    (simp_all add: demo_crouch_holds(3) [simplified])

text \<open>
  C14. A bot reports a disconnection or a failed connection at most once, and after it the ticks and the
  watchdog have stopped. Every error that nothing caught, and every rejected promise that nothing handled, is reported as
  fatal, once and in order, also when the bot is already ending: these reports come in addition.
\<close>

theorem the_end_is_reported_once:
  "length (filter closing (bot_log (fold (bot_step load c) evs (new_bot load e0 c n conf a r g))))
     \<le> (if bt_ticking (fold (bot_step load c) evs (new_bot load e0 c n conf a r g))
           \<or> bt_watchdog (fold (bot_step load c) evs (new_bot load e0 c n conf a r g)) then 0 else 1)
   \<and> fatals (bot_log (fold (bot_step load c) evs (new_bot load e0 c n conf a r g))) = concat (map (\<lambda>(e, ev). uncaught ev) evs)"
proof -
  have "bot_inv (fold (bot_step load c) evs (new_bot load e0 c n conf a r g))" using bot_run_inv new_bot_inv by blast
  moreover have "fatals (bot_log (fold (bot_step load c) evs (new_bot load e0 c n conf a r g))) = concat (map (\<lambda>(e, ev). uncaught ev) evs)"
    using run_fatals new_bot_inv by (metis append_Nil)
  ultimately show ?thesis unfolding bot_inv_def by (auto split: if_splits)
qed

section \<open>Recovery\<close>

text \<open>The errors that a bot survives, and those that leave it without a trustworthy inventory.\<close>

fun survivable :: "bot_error \<Rightarrow> bot \<Rightarrow> bool" where
  "survivable (Read_error (Some name) decode _) b \<longleftrightarrow> bt_spawned b \<and> name \<in> set recoverable_packets \<and> re_test invalid_tag_re decode"
| "survivable _ _ \<longleftrightarrow> False"

fun lost_inventory :: "bot_error \<Rightarrow> bool" where
  "lost_inventory (Read_error (Some name) _ _) \<longleftrightarrow> name \<in> set inventory_packets"
| "lost_inventory _ \<longleftrightarrow> False"

lemma recover_rejects: "\<not> survivable err b \<Longrightarrow> recover e err b = (b, False)"
  by (cases "(err, b)" rule: survivable.cases) (auto simp: recover_def)

lemma recover_survives:
  assumes "survivable err b"
  shows "snd (recover e err b)" "bt_ticking (fst (recover e err b)) = bt_ticking b" "bt_exiting (fst (recover e err b)) = bt_exiting b"
    "bt_skipped (fst (recover e err b)) = bt_skipped b + 1"
    "synchronized (bh_inventory (bt_behavior (fst (recover e err b)))) = (\<not> lost_inventory err \<and> synchronized (bh_inventory (bt_behavior b)))"
proof -
  obtain name decode m where n: "err = Read_error (Some name) decode m" "bt_spawned b" "name \<in> set recoverable_packets"
    "re_test invalid_tag_re decode"
    using assms by (cases "(err, b)" rule: survivable.cases) auto
  have h: "bt_ticking (handle g a) = bt_ticking a" "bt_exiting (handle g a) = bt_exiting a" "bt_skipped (handle g a) = bt_skipped a"
    for g a by (simp_all add: handle_def behave_def)
  have f: "iv_needs_full (bh_inventory (bt_behavior (handle (invalidate_after_decode_failure e) a)))"
    "iv_needs_full (bh_inventory (bt_behavior (handle clear_menu_titles a))) = iv_needs_full (bh_inventory (bt_behavior a))"
    "iv_needs_full (bh_inventory (bt_behavior (tell x a))) = iv_needs_full (bh_inventory (bt_behavior a))"
    "bt_ticking (tell x a) = bt_ticking a" "bt_exiting (tell x a) = bt_exiting a" "bt_skipped (tell x a) = bt_skipped a" for a x
    by (simp_all add: handle_def behave_def with_inventory_def clear_menu_titles_def invalidate_after_decode_failure_def Let_def
      tell_def with_sender_def)
  note r = recover_def n Let_def h f
  show "snd (recover e err b)" using n by (simp add: recover_def Let_def)
  show "bt_ticking (fst (recover e err b)) = bt_ticking b" "bt_exiting (fst (recover e err b)) = bt_exiting b"
    "bt_skipped (fst (recover e err b)) = bt_skipped b + 1" by (simp_all add: r)
  show "synchronized (bh_inventory (bt_behavior (fst (recover e err b)))) = (\<not> lost_inventory err \<and> synchronized (bh_inventory (bt_behavior b)))"
  proof -
    have g: "iv_needs_full (invalidate_after_decode_failure e i)" "iv_needs_full (clear_menu_titles i) = iv_needs_full i" for i
      by (simp_all add: clear_menu_titles_def invalidate_after_decode_failure_def Let_def)
    have w: "iv_needs_full (bh_inventory (with_sender k a)) = iv_needs_full (bh_inventory a)"
      "bh_inventory (with_inventory q a) = q (bh_inventory a)" for k q a by (simp_all add: with_sender_def with_inventory_def)
    have "js ''block_entity_data'' \<notin> set inventory_packets" by (simp add: inventory_packets_def js_def)
    then show ?thesis using n(3)
      by (cases "name \<in> set inventory_packets"; cases "name = js ''block_entity_data''") (simp_all add: r g w synchronized_def)
  qed
qed

text \<open>
  Only a packet that is known to be harmless to lose is dropped. A bot that has spawned survives the decoder's
  complaint about an invalid tag in one of the listed packets: it keeps running, counts the loss, and after an
  inventory packet no longer trusts what it remembers. Every other error is reported and ends the bot, once.
\<close>

theorem recovery_is_selective:
  "if bt_exiting b then bot_step load c (e, Error_event err) b = b
   else if survivable err b then
     \<not> bt_exiting (bot_step load c (e, Error_event err) b)
     \<and> bt_ticking (bot_step load c (e, Error_event err) b) = bt_ticking b
     \<and> bt_skipped (bot_step load c (e, Error_event err) b) = bt_skipped b + 1
     \<and> synchronized (bh_inventory (bt_behavior (bot_step load c (e, Error_event err) b)))
        = (\<not> lost_inventory err \<and> synchronized (bh_inventory (bt_behavior b)))
   else bt_exiting (bot_step load c (e, Error_event err) b)
     \<and> \<not> bt_ticking (bot_step load c (e, Error_event err) b) \<and> \<not> bt_watchdog (bot_step load c (e, Error_event err) b)
     \<and> (\<exists>x. terminal x \<and> bot_log (bot_step load c (e, Error_event err) b) = bot_log b @ [x])"
proof (cases "survivable err b")
  case True
  obtain b1 where b1: "recover e err b = (b1, True)" using recover_survives(1) [OF True, of e] by (cases "recover e err b") simp
  show ?thesis using recover_survives(2-5) [OF True, of e] True by (simp add: b1)
next
  case False
  then show ?thesis by (simp add: recover_rejects shutdown_bot_def tell_def bot_log_def with_sender_def sender_of_def)
qed

end
