(* ===== verification/Bedrock_Startup.thy ===== *)
theory Bedrock_Startup
  imports Text_Rules
begin

text \<open>
  How a Bedrock bot starts: \<^verbatim>\<open>backend/src/bedrock-bot/version.ts\<close>, the choice of a protocol version, and the reader of
  the standard input in \<^verbatim>\<open>index.ts\<close>. The catalog of the installed protocol library is an argument: an object of version
  names (names that every JavaScript object inherits, such as \<^verbatim>\<open>constructor\<close>, are not requested).
\<close>

section \<open>Versions (version.ts)\<close>

text \<open>The versions the library can speak, with their protocol numbers, and its current one.\<close>

record catalog =
  vc_versions :: "(jstr \<times> int) list"
  vc_current :: jstr

text \<open>What a server says of itself; a protocol that is no number is \<open>None\<close>.\<close>

record advertisement =
  ad_protocol :: "rat option"
  ad_version :: "jstr option"

record version_choice =
  vs_version :: jstr
  vs_protocol :: "int option"
  vs_advertised :: "rat option"
  vs_negotiating :: bool

definition installed :: "catalog \<Rightarrow> jstr \<Rightarrow> bool" where
  "installed c v \<longleftrightarrow> map_of (vc_versions c) v \<noteq> None \<and> map_of (vc_versions c) v \<noteq> Some 0"

text \<open>Servers omit the leading \<^verbatim>\<open>1.\<close> of newer versions.\<close>

definition normalized :: "catalog \<Rightarrow> jstr \<Rightarrow> jstr" where
  "normalized c v = (if installed c v then v else js ''1.'' @ v)"

definition as_integer :: "rat option \<Rightarrow> int option" where
  "as_integer x = (case x of None \<Rightarrow> None | Some r \<Rightarrow> if of_int \<lfloor>r\<rfloor> = r then Some \<lfloor>r\<rfloor> else None)"

text \<open>The parts up to the third dot.\<close>

fun first_parts :: "nat \<Rightarrow> jstr \<Rightarrow> jstr" where
  "first_parts 0 s = []"
| "first_parts (Suc n) [] = []"
| "first_parts (Suc n) (x # xs) = (if x = 46 then (if n = 0 then [] else 46 # first_parts n xs) else x # first_parts (Suc n) xs)"

definition version_by_name :: "catalog \<Rightarrow> advertisement \<Rightarrow> jstr + jstr" where
  "version_by_name c a =
     (let v = first_parts 3 (case ad_version a of None \<Rightarrow> [] | Some v \<Rightarrow> v)
      in if installed c (normalized c v) then Inr (normalized c v)
         else Inl (js ''Cannot determine a supported Bedrock version from server advertisement '' @ (if v = [] then js ''unknown'' else v)))"

definition unsupported_protocol :: "catalog \<Rightarrow> advertisement \<Rightarrow> int \<Rightarrow> jstr" where
  "unsupported_protocol c a p =
     js ''Unsupported Bedrock server protocol '' @ show_int p @ js '' (advertised version ''
     @ (case ad_version a of None \<Rightarrow> js ''unknown'' | Some v \<Rightarrow> v) @ js ''); newest installed client: '' @ vc_current c @ js '' (protocol ''
     @ (case map_of (vc_versions c) (vc_current c) of None \<Rightarrow> js ''undefined'' | Some n \<Rightarrow> show_int n) @ js '')''"

definition bedrock_version :: "catalog \<Rightarrow> advertisement \<Rightarrow> jstr \<Rightarrow> jstr + jstr" where
  "bedrock_version c a requested =
     (if trim requested \<noteq> [] then
        (if installed c (normalized c (trim requested)) then Inr (normalized c (trim requested))
         else Inl (js ''Unsupported Bedrock client version '' @ trim requested))
      else case as_integer (ad_protocol a) of
          None \<Rightarrow> version_by_name c a
        | Some p \<Rightarrow>
            if p \<le> 0 then version_by_name c a
            else (case find (\<lambda>v. snd v = p) (vc_versions c) of
                 Some v \<Rightarrow> Inr (fst v)
               | None \<Rightarrow> Inl (unsupported_protocol c a p)))"

definition newest_protocol :: "catalog \<Rightarrow> int" where
  "newest_protocol c = Max (set (map snd (vc_versions c)))"

definition select_bedrock_version :: "catalog \<Rightarrow> advertisement \<Rightarrow> jstr \<Rightarrow> jstr + version_choice" where
  "select_bedrock_version c a requested =
     (let negotiating = (trim requested = [] \<and> (case as_integer (ad_protocol a) of None \<Rightarrow> False | Some p \<Rightarrow> newest_protocol c < p))
      in case (if negotiating then Inr (vc_current c) else bedrock_version c a requested) of
           Inl m \<Rightarrow> Inl m
         | Inr v \<Rightarrow> Inr \<lparr>vs_version = v, vs_protocol = map_of (vc_versions c) v, vs_advertised = ad_protocol a, vs_negotiating = negotiating\<rparr>)"

definition catalog_ok :: "catalog \<Rightarrow> bool" where
  "catalog_ok c \<longleftrightarrow> distinct (map fst (vc_versions c)) \<and> list_all (\<lambda>v. 0 < snd v) (vc_versions c) \<and> installed c (vc_current c)"

lemma find_version:
  assumes "catalog_ok c" and "find (\<lambda>v. snd v = p) (vc_versions c) = Some w"
  shows "map_of (vc_versions c) (fst w) = Some p" "p \<noteq> 0"
proof -
  have w: "w \<in> set (vc_versions c)" "snd w = p" using assms(2) by (auto simp: find_Some_iff)
  then have "(fst w, p) \<in> set (vc_versions c)" by (metis prod.collapse)
  with assms(1) show "map_of (vc_versions c) (fst w) = Some p" by (simp add: catalog_ok_def)
  from w assms(1) show "p \<noteq> 0" by (auto simp: catalog_ok_def list_all_iff)
qed

lemma bedrock_version_installed: "catalog_ok c \<Longrightarrow> bedrock_version c a requested = Inr v \<Longrightarrow> installed c v"
  by (auto simp: bedrock_version_def version_by_name_def Let_def installed_def dest: find_version split: if_splits option.splits)

text \<open>A bot never speaks a protocol that is not installed: what is selected is a version of the catalog with its own number.\<close>

theorem selected_versions_are_installed:
  assumes "catalog_ok c" and "select_bedrock_version c a requested = Inr v"
  shows "installed c (vs_version v) \<and> vs_protocol v = map_of (vc_versions c) (vs_version v)"
  using assms bedrock_version_installed
  by (auto simp: select_bedrock_version_def Let_def catalog_ok_def split: if_splits sum.splits)

text \<open>Without a wish of the user it is the server's own protocol, or the current one when the server is newer than all that is installed.\<close>

theorem protocols_follow_the_server:
  assumes "catalog_ok c" and "select_bedrock_version c a requested = Inr v" and "trim requested = []"
    and "as_integer (ad_protocol a) = Some p" and "0 < p"
  shows "if newest_protocol c < p then vs_version v = vc_current c else vs_protocol v = Some p"
  using assms find_version [OF assms(1), of p]
  by (auto simp: select_bedrock_version_def bedrock_version_def Let_def split: if_splits sum.splits option.splits)

section \<open>The standard input (index.ts)\<close>

text \<open>The first line after the configuration was asked for is the configuration; the others are commands, which wait until a handler is there.\<close>

record stdin_reader =
  sr_awaiting :: bool
  sr_config :: "jstr option"
  sr_ready :: bool
  sr_buffered :: "jstr list"
  sr_delivered :: "jstr list"

definition new_stdin :: stdin_reader where
  "new_stdin = \<lparr>sr_awaiting = False, sr_config = None, sr_ready = False, sr_buffered = [], sr_delivered = []\<rparr>"

definition read_config :: "stdin_reader \<Rightarrow> stdin_reader" where
  "read_config r = r\<lparr>sr_awaiting := True\<rparr>"

definition stdin_line :: "jstr \<Rightarrow> stdin_reader \<Rightarrow> stdin_reader" where
  "stdin_line s r =
     (if trim s = [] then r
      else if sr_awaiting r then r\<lparr>sr_awaiting := False, sr_config := Some (trim s)\<rparr>
      else if sr_ready r then r\<lparr>sr_delivered := sr_delivered r @ [trim s]\<rparr>
      else r\<lparr>sr_buffered := sr_buffered r @ [trim s]\<rparr>)"

definition start_command_reader :: "stdin_reader \<Rightarrow> stdin_reader" where
  "start_command_reader r = r\<lparr>sr_ready := True, sr_buffered := [], sr_delivered := sr_delivered r @ sr_buffered r\<rparr>"

text \<open>A delivered line that is no JSON is only reported.\<close>

definition command_lines :: "(jstr \<Rightarrow> json option) \<Rightarrow> stdin_reader \<Rightarrow> json list" where
  "command_lines parse r = List.map_filter parse (sr_delivered r)"

definition lines_before :: "jstr list \<Rightarrow> stdin_reader" where
  "lines_before ls = fold stdin_line ls (read_config new_stdin)"

definition spoken :: "jstr list \<Rightarrow> jstr list" where
  "spoken ls = filter (\<lambda>s. s \<noteq> []) (map trim ls)"

lemma lines_after_config:
  "\<not> sr_awaiting r \<Longrightarrow> fold stdin_line ls r =
     (if sr_ready r then r\<lparr>sr_delivered := sr_delivered r @ spoken ls\<rparr> else r\<lparr>sr_buffered := sr_buffered r @ spoken ls\<rparr>)"
  by (induction ls arbitrary: r) (auto simp: stdin_line_def spoken_def)

lemma lines_from_the_start:
  "sr_awaiting r \<Longrightarrow> fold stdin_line ls r = (case spoken ls of
       [] \<Rightarrow> r
     | l # ms \<Rightarrow> if sr_ready r then r\<lparr>sr_awaiting := False, sr_config := Some l, sr_delivered := sr_delivered r @ ms\<rparr>
         else r\<lparr>sr_awaiting := False, sr_config := Some l, sr_buffered := sr_buffered r @ ms\<rparr>)"
proof (induction ls arbitrary: r)
  case (Cons l ls)
  show ?case
  proof (cases "trim l = []")
    case True
    then show ?thesis using Cons by (simp add: stdin_line_def spoken_def)
  next
    case False
    with Cons.prems have "stdin_line l r = r\<lparr>sr_awaiting := False, sr_config := Some (trim l)\<rparr>" by (simp add: stdin_line_def)
    moreover have "spoken (l # ls) = trim l # spoken ls" using False by (simp add: spoken_def)
    ultimately show ?thesis by (simp add: lines_after_config)
  qed
qed (simp add: spoken_def)

text \<open>No command for a bot is lost before it is ready: the first line is the configuration, and once the bot listens it has got
  every later line, those that came early and those that came afterwards, in their order.\<close>

theorem no_early_command_is_lost:
  assumes "spoken early = conf # waiting"
  shows "let r = fold stdin_line late (start_command_reader (lines_before early))
    in sr_config r = Some conf \<and> sr_buffered r = [] \<and> sr_delivered r = waiting @ spoken late"
  using assms lines_from_the_start [of "read_config new_stdin" early]
  by (simp add: Let_def lines_before_def read_config_def new_stdin_def start_command_reader_def lines_after_config)

theorem no_early_command_is_lost_witness:
  "let r = fold stdin_line [js ''c''] (start_command_reader (lines_before [js ''a'', [32], js ''b '']))
   in sr_config r = Some (js ''a'') \<and> sr_buffered r = [] \<and> sr_delivered r = [js ''b''] @ spoken [js ''c'']"
proof -
  have "spoken [js ''a'', [32], js ''b ''] = js ''a'' # [js ''b'']" by code_simp
  then show ?thesis by (rule no_early_command_is_lost)
qed

end
