(* ===== verification/Buffered_Writer.thy ===== *)
theory Buffered_Writer
  imports Afk_Prelude
begin

text \<open>
  \<^verbatim>\<open>backend/src/logging/bufferedWriter.ts\<close>, the queue behind the console log and the earnings: bursts
  are written in batches, one write at a time, and a batch that fails is retried row by row. A step is
  what one turn of the event loop does; the outcome of a write comes from outside. Promises are the log
  \<open>settled\<close> of what was resolved (\<open>True\<close>) or rejected (\<open>False\<close>), in that order.
\<close>

section \<open>State and steps\<close>

record 'a writer =
  bw_queue :: "'a list"
  bw_timer :: bool
  bw_running :: "'a list list option"
  bw_settled :: "('a \<times> bool) list"
  bw_attempts :: "('a list \<times> bool) list"

definition new_writer :: "'a writer" where
  "new_writer = \<lparr>bw_queue = [], bw_timer = False, bw_running = None, bw_settled = [], bw_attempts = []\<rparr>"

definition schedule :: "'a writer \<Rightarrow> 'a writer" where
  "schedule w = (if \<not> bw_timer w \<and> bw_running w = None \<and> bw_queue w \<noteq> [] then w\<lparr>bw_timer := True\<rparr> else w)"

text \<open>\<open>bw_running\<close> holds the writes that a call of \<^verbatim>\<open>save\<close> still has to make; the first is in flight.\<close>

definition drain :: "nat \<Rightarrow> 'a writer \<Rightarrow> 'a writer" where
  "drain batch_size w =
     (if bw_running w \<noteq> None then w
      else (let batch = take batch_size (bw_queue w) in
        if batch = [] then w\<lparr>bw_queue := drop batch_size (bw_queue w)\<rparr>
        else w\<lparr>bw_queue := drop batch_size (bw_queue w), bw_running := Some [batch]\<rparr>))"

definition enqueue :: "'a \<Rightarrow> 'a writer \<Rightarrow> 'a writer" where
  "enqueue x w = schedule (w\<lparr>bw_queue := bw_queue w @ [x]\<rparr>)"

definition fire_timer :: "nat \<Rightarrow> 'a writer \<Rightarrow> 'a writer" where
  "fire_timer batch_size w = (if bw_timer w then drain batch_size (w\<lparr>bw_timer := False\<rparr>) else w)"

text \<open>The end of the write in flight; after the last one the next batch is scheduled.\<close>

definition rest_running :: "'a list list \<Rightarrow> 'a writer \<Rightarrow> 'a writer" where
  "rest_running rest w = (if rest = [] then schedule (w\<lparr>bw_running := None\<rparr>) else w\<lparr>bw_running := Some rest\<rparr>)"

definition write_done :: "bool \<Rightarrow> 'a writer \<Rightarrow> 'a writer" where
  "write_done ok w = (case bw_running w of
       None \<Rightarrow> w
     | Some [] \<Rightarrow> w
     | Some (batch # rest) \<Rightarrow>
         (let w1 = w\<lparr>bw_attempts := bw_attempts w @ [(batch, ok)]\<rparr> in
          if ok then rest_running rest (w1\<lparr>bw_settled := bw_settled w @ map (\<lambda>x. (x, True)) batch\<rparr>)
          else if length batch > 1 then rest_running (map (\<lambda>x. [x]) batch @ rest) w1
          else rest_running rest (w1\<lparr>bw_settled := bw_settled w @ map (\<lambda>x. (x, False)) batch\<rparr>)))"

text \<open>One round of the loop in \<^verbatim>\<open>flush\<close>, and its end once nothing is queued or running.\<close>

definition flush_round :: "nat \<Rightarrow> 'a writer \<Rightarrow> 'a writer" where
  "flush_round batch_size w = drain batch_size (w\<lparr>bw_timer := False\<rparr>)"

definition flush_end :: "'a writer \<Rightarrow> 'a writer" where
  "flush_end w = (if bw_queue w = [] \<and> bw_running w = None then w\<lparr>bw_timer := False\<rparr> else w)"

datatype 'a writer_event = W_enqueue 'a | W_timer | W_done bool | W_flush | W_flush_end

fun writer_step :: "nat \<Rightarrow> 'a writer_event \<Rightarrow> 'a writer \<Rightarrow> 'a writer" where
  "writer_step n (W_enqueue x) w = enqueue x w"
| "writer_step n W_timer w = fire_timer n w"
| "writer_step n (W_done ok) w = write_done ok w"
| "writer_step n W_flush w = flush_round n w"
| "writer_step n W_flush_end w = flush_end w"

fun enqueued :: "'a writer_event list \<Rightarrow> 'a list" where
  "enqueued [] = []"
| "enqueued (W_enqueue x # es) = x # enqueued es"
| "enqueued (_ # es) = enqueued es"

section \<open>The writer implements a queue\<close>

text \<open>What was handed in and is not settled yet, in order: the abstract queue.\<close>

definition in_flight :: "'a writer \<Rightarrow> 'a list" where
  "in_flight w = (case bw_running w of None \<Rightarrow> [] | Some bs \<Rightarrow> concat bs)"

definition unsettled :: "'a writer \<Rightarrow> 'a list" where
  "unsettled w = in_flight w @ bw_queue w"

definition history :: "'a writer \<Rightarrow> 'a list" where
  "history w = map fst (bw_settled w) @ unsettled w"

text \<open>What was resolved has been written; what was rejected failed in a write of its own.\<close>

definition settled_ok :: "nat \<Rightarrow> ('a list \<times> bool) list \<Rightarrow> ('a \<times> bool) list \<Rightarrow> bool" where
  "settled_ok n attempts settled \<longleftrightarrow> (\<forall>(b, ok) \<in> set attempts. b \<noteq> [] \<and> length b \<le> n)
     \<and> (\<forall>x. (x, True) \<in> set settled \<longrightarrow> (\<exists>b. x \<in> set b \<and> (b, True) \<in> set attempts))
     \<and> (\<forall>x. (x, False) \<in> set settled \<longrightarrow> ([x], False) \<in> set attempts)"

definition writer_ok :: "nat \<Rightarrow> 'a writer \<Rightarrow> bool" where
  "writer_ok n w \<longleftrightarrow> (bw_timer w \<longrightarrow> bw_running w = None)
     \<and> (bw_queue w \<noteq> [] \<longrightarrow> bw_timer w \<or> bw_running w \<noteq> None)
     \<and> (\<forall>bs. bw_running w = Some bs \<longrightarrow> bs \<noteq> [] \<and> (\<forall>b \<in> set bs. b \<noteq> [] \<and> length b \<le> n))
     \<and> settled_ok n (bw_attempts w) (bw_settled w)"

lemma schedule_parts [simp]:
  "bw_queue (schedule w) = bw_queue w" "bw_running (schedule w) = bw_running w"
  "bw_settled (schedule w) = bw_settled w" "bw_attempts (schedule w) = bw_attempts w"
  "bw_timer (schedule w) \<longleftrightarrow> bw_timer w \<or> bw_running w = None \<and> bw_queue w \<noteq> []"
  by (auto simp: schedule_def)

lemma history_schedule [simp]: "history (schedule w) = history w"
  by (simp add: history_def unsettled_def in_flight_def)

lemma history_drain [simp]: "0 < n \<Longrightarrow> history (drain n w) = history w"
  by (cases "bw_running w") (simp_all add: drain_def history_def unsettled_def in_flight_def Let_def)

lemma history_timer [simp]: "history (w\<lparr>bw_timer := b\<rparr>) = history w"
  by (simp add: history_def unsettled_def in_flight_def)

lemma history_rest: "history (rest_running rest w) = map fst (bw_settled w) @ concat rest @ bw_queue w"
  by (simp add: rest_running_def history_def unsettled_def in_flight_def)

lemma concat_singletons [simp]: "concat (map (\<lambda>x. [x]) xs) = xs"
  by (induction xs) simp_all

lemma history_running: "bw_running w = Some (batch # rest) \<Longrightarrow> history w = map fst (bw_settled w) @ batch @ concat rest @ bw_queue w"
  by (simp add: history_def unsettled_def in_flight_def)

lemma history_done [simp]: "history (write_done ok w) = history w"
proof (cases "bw_running w")
  case (Some bs)
  then show ?thesis
    by (cases bs) (simp_all add: write_done_def Let_def history_rest history_running comp_def)
qed (simp add: write_done_def)

lemma history_step:
  assumes "0 < n"
  shows "history (writer_step n e w) = history w @ enqueued [e]"
proof (cases e)
  case (W_enqueue x)
  then show ?thesis by (simp add: enqueue_def) (simp add: history_def unsettled_def in_flight_def)
qed (use assms in \<open>simp_all add: fire_timer_def flush_round_def flush_end_def\<close>)

lemma enqueued_Cons: "enqueued (e # es) = enqueued [e] @ enqueued es"
  by (cases e) simp_all

lemma history_run: "0 < n \<Longrightarrow> history (fold (writer_step n) es w) = history w @ enqueued es"
proof (induction es arbitrary: w)
  case (Cons e es)
  then show ?case using enqueued_Cons [of e es] by (simp add: history_step)
qed simp

lemma drain_ok:
  assumes "0 < n" and "writer_ok n w"
  shows "writer_ok n (drain n (w\<lparr>bw_timer := False\<rparr>))"
proof (cases "bw_running w")
  case None
  then show ?thesis using assms
    by (cases "bw_queue w = []") (simp_all add: writer_ok_def drain_def Let_def)
next
  case (Some bs)
  then show ?thesis using assms by (simp add: writer_ok_def drain_def)
qed

lemma writer_ok_rest:
  assumes "writer_ok n w" and "bw_running w \<noteq> None" and "\<forall>b \<in> set rest. b \<noteq> [] \<and> length b \<le> n"
  shows "writer_ok n (rest_running rest w)"
  using assms by (auto simp: writer_ok_def rest_running_def)

lemma done_ok:
  assumes "writer_ok n w"
  shows "writer_ok n (write_done ok w)"
proof (cases "bw_running w")
  case (Some bs)
  then obtain batch rest where bs: "bs = batch # rest" using assms by (cases bs) (auto simp: writer_ok_def)
  have b: "batch \<noteq> []" "length batch \<le> n" "\<forall>b \<in> set rest. b \<noteq> [] \<and> length b \<le> n"
    using assms Some bs by (auto simp: writer_ok_def)
  have one: "batch = [hd batch]" if "\<not> length batch > 1" using that b(1) by (cases batch) auto
  let ?w1 = "w\<lparr>bw_attempts := bw_attempts w @ [(batch, ok)]\<rparr>"
  have at: "settled_ok n (bw_attempts w @ [(batch, ok)]) (bw_settled w)"
    using assms b unfolding writer_ok_def settled_ok_def by auto
  then have w1: "writer_ok n ?w1" using assms by (simp add: writer_ok_def)
  show ?thesis
  proof (cases "ok \<or> length batch \<le> 1")
    case True
    let ?w2 = "?w1\<lparr>bw_settled := bw_settled w @ map (\<lambda>x. (x, ok)) batch\<rparr>"
    have "([x], False) \<in> set (bw_attempts w @ [(batch, ok)])" if "x \<in> set batch" "\<not> ok" for x
      using that True one by (cases batch) auto
    then have "settled_ok n (bw_attempts w @ [(batch, ok)]) (bw_settled w @ map (\<lambda>x. (x, ok)) batch)"
      using at unfolding settled_ok_def by auto
    then have "writer_ok n ?w2" using w1 by (simp add: writer_ok_def)
    moreover have "write_done ok w = rest_running rest ?w2"
      using True Some bs by (auto simp: write_done_def Let_def)
    ultimately show ?thesis using writer_ok_rest [of n ?w2 rest] b(3) Some by simp
  next
    case False
    then have "write_done ok w = rest_running (map (\<lambda>x. [x]) batch @ rest) ?w1"
      using Some bs by (simp add: write_done_def Let_def)
    moreover have "\<forall>c \<in> set (map (\<lambda>x. [x]) batch @ rest). c \<noteq> [] \<and> length c \<le> n"
      using b False by auto
    ultimately show ?thesis using writer_ok_rest [OF w1] Some by simp
  qed
qed (use assms in \<open>simp add: write_done_def\<close>)

lemma writer_step_ok:
  assumes "0 < n" and "writer_ok n w"
  shows "writer_ok n (writer_step n e w)"
proof (cases e)
  case (W_enqueue x)
  then show ?thesis using assms by (simp add: enqueue_def) (auto simp: writer_ok_def)
next
  case (W_done ok)
  then show ?thesis using done_ok [OF assms(2)] by simp
next
  case W_timer
  then show ?thesis using assms drain_ok [OF assms] by (simp add: fire_timer_def)
next
  case W_flush
  then show ?thesis using drain_ok [OF assms] by (simp add: flush_round_def)
next
  case W_flush_end
  then show ?thesis using assms by (auto simp: flush_end_def writer_ok_def)
qed

interpretation buffered_writer: stepwise "writer_step (Suc n)" "writer_ok (Suc n)" for n
  by unfold_locales (simp add: writer_step_ok)

lemma new_writer_ok: "writer_ok n new_writer"
  by (simp add: writer_ok_def settled_ok_def new_writer_def)

lemma history_new [simp]: "history new_writer = []"
  by (simp add: history_def unsettled_def in_flight_def new_writer_def)

section \<open>Flushing ends\<close>

text \<open>
  The loop of \<^verbatim>\<open>flush\<close> when nothing new arrives: each round waits until the running batch has been
  written, row by row if it must. \<open>outcome\<close> says whether the next write of a batch succeeds.
\<close>

fun complete :: "('a list \<Rightarrow> bool) \<Rightarrow> nat \<Rightarrow> 'a writer \<Rightarrow> 'a writer" where
  "complete outcome 0 w = w"
| "complete outcome (Suc fuel) w = (case bw_running w of
       None \<Rightarrow> w
     | Some [] \<Rightarrow> w
     | Some (batch # rest) \<Rightarrow> complete outcome fuel (write_done (outcome batch) w))"

text \<open>Every write that is still to be made costs at most one retry per row.\<close>

definition write_cost :: "'a writer \<Rightarrow> nat" where
  "write_cost w = (case bw_running w of None \<Rightarrow> 0
     | Some bs \<Rightarrow> sum_list (map (\<lambda>b. if length b > 1 then Suc (length b) else 1) bs))"

lemma singles_cost: "sum_list (map ((\<lambda>b. if Suc 0 < length b then Suc (length b) else 1) \<circ> (\<lambda>x. [x])) xs) = length xs"
  by (induction xs) simp_all

lemma write_cost_rest: "write_cost (rest_running rest w) = sum_list (map (\<lambda>b. if length b > 1 then Suc (length b) else 1) rest)"
  by (simp add: rest_running_def write_cost_def)

lemma write_done_cost:
  assumes "bw_running w = Some (batch # rest)"
  shows "write_cost (write_done ok w) < write_cost w"
  using assms by (simp add: write_done_def Let_def write_cost_rest singles_cost) (simp add: write_cost_def)

lemma complete_idle: "write_cost w \<le> fuel \<Longrightarrow> writer_ok n w \<Longrightarrow> bw_running (complete outcome fuel w) = None"
proof (induction fuel arbitrary: w)
  case 0
  show ?case
  proof (cases "bw_running w")
    case (Some bs)
    then obtain batch rest where "bs = batch # rest" using 0 by (cases bs) (auto simp: writer_ok_def)
    then show ?thesis using 0 Some by (simp add: write_cost_def split: if_splits)
  qed simp
next
  case (Suc fuel)
  show ?case
  proof (cases "bw_running w")
    case (Some bs)
    then obtain batch rest where bs: "bs = batch # rest" using Suc.prems(2) by (cases bs) (auto simp: writer_ok_def)
    then have "write_cost (write_done (outcome batch) w) \<le> fuel"
      using write_done_cost [of w batch rest "outcome batch"] Some Suc.prems(1) by simp
    then show ?thesis using Suc.IH [OF _ done_ok [OF Suc.prems(2)]] Some bs by simp
  qed simp
qed

lemma write_done_queue [simp]: "bw_queue (write_done ok w) = bw_queue w"
  by (auto simp: write_done_def Let_def rest_running_def split: option.splits list.splits)

lemma complete_queue [simp]: "bw_queue (complete outcome fuel w) = bw_queue w"
  by (induction fuel arbitrary: w) (auto split: option.splits list.splits)

lemma complete_history [simp]: "history (complete outcome fuel w) = history w"
  by (induction fuel arbitrary: w) (auto split: option.splits list.splits)

lemma complete_ok: "writer_ok n w \<Longrightarrow> writer_ok n (complete outcome fuel w)"
  by (induction fuel arbitrary: w) (auto split: option.splits list.splits intro: done_ok)

text \<open>\<open>flush\<close> repeats rounds until queue and writer are empty.\<close>

lemma round_queue:
  "bw_queue (flush_round n w) = (if bw_running w = None then drop n (bw_queue w) else bw_queue w)"
  by (simp add: flush_round_def drain_def Let_def)

function flush :: "nat \<Rightarrow> ('a list \<Rightarrow> bool) \<Rightarrow> 'a writer \<Rightarrow> 'a writer" where
  "flush n outcome w =
     (let r = flush_round (Suc n) w; w1 = complete outcome (write_cost r) r in
      if bw_running w1 \<noteq> None then w1
      else if bw_queue w1 \<noteq> [] then flush n outcome w1 else flush_end w1)"
  by pat_completeness auto

termination
  by (relation "measure (\<lambda>(n, outcome, w). 2 * length (bw_queue w) + (if bw_running w = None then 0 else 1))")
     (auto simp: Let_def round_queue)

declare flush.simps [simp del]

lemma flush_empties:
  assumes "writer_ok (Suc n) w"
  shows "bw_queue (flush n outcome w) = [] \<and> bw_running (flush n outcome w) = None \<and> \<not> bw_timer (flush n outcome w)
    \<and> history (flush n outcome w) = history w \<and> writer_ok (Suc n) (flush n outcome w)"
  using assms
proof (induction n outcome w rule: flush.induct)
  case (1 n outcome w)
  define r where "r = flush_round (Suc n) w"
  define w1 where "w1 = complete outcome (write_cost r) r"
  have r: "writer_ok (Suc n) r" using drain_ok [OF _ "1.prems"] by (simp add: r_def flush_round_def)
  have k: "writer_ok (Suc n) w1" "history w1 = history w" "bw_running w1 = None"
    using complete_ok [OF r] complete_idle [OF _ r, of "write_cost r" outcome]
    by (simp_all add: w1_def) (simp add: r_def flush_round_def)
  have f: "flush n outcome w = (if bw_queue w1 \<noteq> [] then flush n outcome w1 else flush_end w1)"
    by (subst flush.simps) (simp add: Let_def k(3) flip: r_def w1_def)
  show ?case
  proof (cases "bw_queue w1 = []")
    case True
    then show ?thesis using f k by (simp add: flush_end_def writer_ok_def)
  next
    case False
    then show ?thesis using "1.IH" [OF r_def w1_def] k f by simp
  qed
qed

section \<open>Properties\<close>

text \<open>
  C39. The writer is a queue: in every history of calls, timers and outcomes of writes, what has been
  settled, what is being written and what is waiting is, in this order, exactly what was handed in.
  Nothing is lost, duplicated or reordered; a row is only reported as failed when a write of this row
  alone has failed, so a bad row never discards another one; no write exceeds the batch size; and
  whenever something waits, a timer or a running write will pick it up.
\<close>

theorem buffered_writer_is_a_queue:
  "let w = fold (writer_step (Suc n)) es new_writer in
     map fst (bw_settled w) @ unsettled w = enqueued es
     \<and> settled_ok (Suc n) (bw_attempts w) (bw_settled w)
     \<and> (case bw_running w of None \<Rightarrow> bw_queue w = [] \<or> bw_timer w | Some _ \<Rightarrow> True)"
proof -
  let ?w = "fold (writer_step (Suc n)) es new_writer"
  have "writer_ok (Suc n) ?w" by (rule buffered_writer.run_inv [OF new_writer_ok])
  moreover have "history ?w = enqueued es"
    using history_run [of "Suc n" es new_writer] by simp
  ultimately show ?thesis by (auto simp: writer_ok_def history_def Let_def split: option.splits)
qed

text \<open>
  Flushing before the process ends always finishes, and then everything handed in has been
  settled, in order, whichever writes fail.
\<close>

theorem flush_settles_everything:
  "map fst (bw_settled (flush n outcome (fold (writer_step (Suc n)) es new_writer))) = enqueued es
     \<and> bw_running (flush n outcome (fold (writer_step (Suc n)) es new_writer)) = None
     \<and> \<not> bw_timer (flush n outcome (fold (writer_step (Suc n)) es new_writer))"
proof -
  let ?w = "fold (writer_step (Suc n)) es new_writer"
  have "writer_ok (Suc n) ?w" by (rule buffered_writer.run_inv [OF new_writer_ok])
  note f = flush_empties [OF this, of outcome]
  have "history ?w = enqueued es"
    using history_run [of "Suc n" es new_writer] by simp
  then show ?thesis using f by (elim conjE) (simp add: history_def unsettled_def in_flight_def)
qed

end
