(* ===== verification/Async_Process.thy ===== *)
theory Async_Process
  imports Main
begin

text \<open>
  Asynchronous functions. A process is what is left of an \<^verbatim>\<open>async\<close> function at an \<^verbatim>\<open>await\<close>: it has returned, it
  has thrown, or it waits for the answer to a call and then goes on at a later time, in whatever state the
  object is in by then. Everything between two awaits is one step. The second half of the theory is a
  rely-guarantee logic for such processes.
\<close>

section \<open>Processes\<close>

datatype ('s, 'c, 'r, 'm, 'a) process =
    Return 'a
  | Throw 'm
  | Await 'c "'r \<Rightarrow> int \<Rightarrow> 's \<Rightarrow> 's \<times> ('s, 'c, 'r, 'm, 'a) process"

type_synonym ('s, 'c, 'r, 'm, 'a) action = "int \<Rightarrow> 's \<Rightarrow> 's \<times> ('s, 'c, 'r, 'm, 'a) process"

definition return :: "'a \<Rightarrow> ('s, 'c, 'r, 'm, 'a) action" where
  "return x t s = (s, Return x)"

definition throw :: "'m \<Rightarrow> ('s, 'c, 'r, 'm, 'a) action" where
  "throw m t s = (s, Throw m)"

definition ask :: "'c \<Rightarrow> ('r \<Rightarrow> ('s, 'c, 'r, 'm, 'a) action) \<Rightarrow> ('s, 'c, 'r, 'm, 'a) action" where
  "ask c k t s = (s, Await c k)"

definition modify :: "(int \<Rightarrow> 's \<Rightarrow> 's) \<Rightarrow> ('s, 'c, 'r, 'm, unit) action" where
  "modify f t s = (f t s, Return ())"

text \<open>Going on with the result, and with the error, of a process.\<close>

primrec continue_with :: "('s, 'c, 'r, 'm, 'a) process \<Rightarrow> ('a \<Rightarrow> ('s, 'c, 'r, 'm, 'b) action) \<Rightarrow> ('s, 'c, 'r, 'm, 'b) action" where
  "continue_with (Return x) = (\<lambda>f. f x)"
| "continue_with (Throw m) = (\<lambda>f t s. (s, Throw m))"
| "continue_with (Await c k) = (\<lambda>f t s. (s, Await c (\<lambda>r t' s'.
     case map_prod id continue_with (k r t' s') of (s1, g) \<Rightarrow> g f t' s1)))"

definition and_then :: "('s, 'c, 'r, 'm, 'a) action \<Rightarrow> ('a \<Rightarrow> ('s, 'c, 'r, 'm, 'b) action) \<Rightarrow> ('s, 'c, 'r, 'm, 'b) action" where
  "and_then m f t s = (case m t s of (s1, p) \<Rightarrow> continue_with p f t s1)"

primrec recover_with :: "('s, 'c, 'r, 'm, 'a) process \<Rightarrow> ('m \<Rightarrow> ('s, 'c, 'r, 'm, 'a) action) \<Rightarrow> ('s, 'c, 'r, 'm, 'a) action" where
  "recover_with (Return x) = (\<lambda>h t s. (s, Return x))"
| "recover_with (Throw m) = (\<lambda>h. h m)"
| "recover_with (Await c k) = (\<lambda>h t s. (s, Await c (\<lambda>r t' s'.
     case map_prod id recover_with (k r t' s') of (s1, g) \<Rightarrow> g h t' s1)))"

definition catching :: "('s, 'c, 'r, 'm, 'a) action \<Rightarrow> ('m \<Rightarrow> ('s, 'c, 'r, 'm, 'a) action) \<Rightarrow> ('s, 'c, 'r, 'm, 'a) action" where
  "catching m h t s = (case m t s of (s1, p) \<Rightarrow> recover_with p h t s1)"

section \<open>Rely and guarantee\<close>

text \<open>
  A step begins with the answer to a call, or with the start of the process, in some state: this is its origin.
  A process that waits is safe when, whatever the others may do meanwhile (\<open>R\<close>) and whatever the answer is, its next
  step ends safely again. A step may end with a call that \<open>C\<close> allows, seen from the origin of the step and the state
  it leaves, with a return allowed by \<open>Q\<close>, or an error allowed by \<open>E\<close>. Times are those of \<open>T\<close>.
\<close>

type_synonym ('s, 'c, 'r) origin = "('c \<times> 'r) option \<times> 's"

inductive safe :: "('s \<Rightarrow> 's \<Rightarrow> bool) \<Rightarrow> (('s, 'c, 'r) origin \<Rightarrow> 'c \<Rightarrow> 's \<Rightarrow> bool) \<Rightarrow> (int \<Rightarrow> bool)
    \<Rightarrow> (('s, 'c, 'r) origin \<Rightarrow> 'a \<Rightarrow> 's \<Rightarrow> bool) \<Rightarrow> (('s, 'c, 'r) origin \<Rightarrow> 's \<Rightarrow> bool)
    \<Rightarrow> ('s, 'c, 'r) origin \<Rightarrow> 's \<Rightarrow> ('s, 'c, 'r, 'm, 'a) process \<Rightarrow> bool"
  for R C T where
  safe_Return: "Q x v s \<Longrightarrow> safe R C T Q E x s (Return v)"
| safe_Throw: "E x s \<Longrightarrow> safe R C T Q E x s (Throw m)"
| safe_Await: "C x c s \<Longrightarrow> (\<And>r t s1. R s s1 \<Longrightarrow> T t \<Longrightarrow> safe R C T Q E (Some (c, r), s1) (fst (k r t s1)) (snd (k r t s1)))
    \<Longrightarrow> safe R C T Q E x s (Await c k)"

inductive_simps safe_simps [simp]:
  "safe R C T Q E x s (Return v)" "safe R C T Q E x s (Throw m)" "safe R C T Q E x s (Await c k)"

definition safe_action :: "('s \<Rightarrow> 's \<Rightarrow> bool) \<Rightarrow> (('s, 'c, 'r) origin \<Rightarrow> 'c \<Rightarrow> 's \<Rightarrow> bool) \<Rightarrow> (int \<Rightarrow> bool)
    \<Rightarrow> (('s, 'c, 'r) origin \<Rightarrow> 's \<Rightarrow> bool) \<Rightarrow> (('s, 'c, 'r) origin \<Rightarrow> 'a \<Rightarrow> 's \<Rightarrow> bool)
    \<Rightarrow> (('s, 'c, 'r) origin \<Rightarrow> 's \<Rightarrow> bool) \<Rightarrow> ('s, 'c, 'r, 'm, 'a) action \<Rightarrow> bool" where
  "safe_action R C T P Q E m \<longleftrightarrow> (\<forall>x t s. T t \<longrightarrow> P x s \<longrightarrow> safe R C T Q E x (fst (m t s)) (snd (m t s)))"

lemma safe_actionD: "safe_action R C T P Q E m \<Longrightarrow> T t \<Longrightarrow> P x s \<Longrightarrow> safe R C T Q E x (fst (m t s)) (snd (m t s))"
  unfolding safe_action_def by blast

lemma safe_mono:
  "safe R C T Q E x s p \<Longrightarrow> (\<And>x v s. Q x v s \<Longrightarrow> Q' x v s) \<Longrightarrow> (\<And>x s. E x s \<Longrightarrow> E' x s) \<Longrightarrow> safe R C T Q' E' x s p"
  by (induction rule: safe.induct) auto

lemma safe_action_mono:
  "safe_action R C T P Q E m \<Longrightarrow> (\<And>x s. P' x s \<Longrightarrow> P x s) \<Longrightarrow> (\<And>x v s. Q x v s \<Longrightarrow> Q' x v s) \<Longrightarrow> (\<And>x s. E x s \<Longrightarrow> E' x s)
    \<Longrightarrow> safe_action R C T P' Q' E' m"
  unfolding safe_action_def by (blast intro: safe_mono)

lemma safe_continue:
  assumes "safe R C T Q' E x s p" and "\<And>v. safe_action R C T (\<lambda>x. Q' x v) Q E (f v)" and "T t"
  shows "safe R C T Q E x (fst (continue_with p f t s)) (snd (continue_with p f t s))"
  using assms
proof (induction arbitrary: t rule: safe.induct)
  case (safe_Return Q' x v s E)
  then show ?case using safe_actionD by fastforce
next
  case (safe_Throw E x s Q' m)
  then show ?case by simp
next
  case (safe_Await x c s Q' E k)
  have "safe R C T Q E (Some (c, r), s1) (fst (case map_prod id continue_with (k r t' s1) of (s2, g) \<Rightarrow> g f t' s2))
          (snd (case map_prod id continue_with (k r t' s1) of (s2, g) \<Rightarrow> g f t' s2))"
    if "R s s1" "T t'" for r t' s1
    using safe_Await.IH [OF that, where r = r] safe_Await.prems(1) that(2) by (cases "k r t' s1") simp
  then show ?case using safe_Await.hyps by simp
qed

lemma safe_recover:
  assumes "safe R C T Q E' x s p" and "\<And>m. safe_action R C T E' Q E (h m)" and "T t"
  shows "safe R C T Q E x (fst (recover_with p h t s)) (snd (recover_with p h t s))"
  using assms
proof (induction arbitrary: t rule: safe.induct)
  case (safe_Return Q x v s E')
  then show ?case by simp
next
  case (safe_Throw E' x s Q m)
  then show ?case using safe_actionD by fastforce
next
  case (safe_Await x c s Q E' k)
  have "safe R C T Q E (Some (c, r), s1) (fst (case map_prod id recover_with (k r t' s1) of (s2, g) \<Rightarrow> g h t' s2))
          (snd (case map_prod id recover_with (k r t' s1) of (s2, g) \<Rightarrow> g h t' s2))"
    if "R s s1" "T t'" for r t' s1
    using safe_Await.IH [OF that, where r = r] safe_Await.prems(1) that(2) by (cases "k r t' s1") simp
  then show ?case using safe_Await.hyps by simp
qed

lemma safe_and_then:
  "safe_action R C T P Q' E m \<Longrightarrow> (\<And>v. safe_action R C T (\<lambda>x. Q' x v) Q E (f v)) \<Longrightarrow> safe_action R C T P Q E (and_then m f)"
  unfolding safe_action_def [of R C T P Q E]
proof (intro allI impI)
  fix x t s assume a: "safe_action R C T P Q' E m" "T t" "P x s" and b: "\<And>v. safe_action R C T (\<lambda>x. Q' x v) Q E (f v)"
  obtain s1 p where m: "m t s = (s1, p)" by (cases "m t s")
  have "safe R C T Q' E x s1 p" using safe_actionD [OF a] by (simp add: m)
  from safe_continue [OF this b a(2)] show "safe R C T Q E x (fst (and_then m f t s)) (snd (and_then m f t s))" by (simp add: and_then_def m)
qed

lemma safe_catching:
  "safe_action R C T P Q E' m \<Longrightarrow> (\<And>v. safe_action R C T E' Q E (h v)) \<Longrightarrow> safe_action R C T P Q E (catching m h)"
  unfolding safe_action_def [of R C T P Q E]
proof (intro allI impI)
  fix x t s assume a: "safe_action R C T P Q E' m" "T t" "P x s" and b: "\<And>v. safe_action R C T E' Q E (h v)"
  obtain s1 p where m: "m t s = (s1, p)" by (cases "m t s")
  have "safe R C T Q E' x s1 p" using safe_actionD [OF a] by (simp add: m)
  from safe_recover [OF this b a(2)] show "safe R C T Q E x (fst (catching m h t s)) (snd (catching m h t s))" by (simp add: catching_def m)
qed

lemma safe_return: "(\<And>x s. P x s \<Longrightarrow> Q x v s) \<Longrightarrow> safe_action R C T P Q E (return v)"
  by (simp add: safe_action_def return_def)

lemma safe_throw: "(\<And>x s. P x s \<Longrightarrow> E x s) \<Longrightarrow> safe_action R C T P Q E (throw m)"
  by (simp add: safe_action_def throw_def)

lemma safe_modify: "(\<And>x t s. T t \<Longrightarrow> P x s \<Longrightarrow> Q x () (f t s)) \<Longrightarrow> safe_action R C T P Q E (modify f)"
  by (simp add: safe_action_def modify_def)

lemma safe_ask:
  assumes "\<And>x s. P x s \<Longrightarrow> C x c s"
    and "\<And>r. safe_action R C T (\<lambda>x s1. \<exists>x0 s. P x0 s \<and> R s s1 \<and> x = (Some (c, r), s1)) Q E (k r)"
  shows "safe_action R C T P Q E (ask c k)"
  unfolding safe_action_def [of R C T P Q E] ask_def
proof (intro allI impI)
  fix x t s assume "T t" "P x s"
  then have "safe R C T Q E (Some (c, r), s1) (fst (k r t' s1)) (snd (k r t' s1))" if "R s s1" "T t'" for r t' s1
    using safe_actionD [OF assms(2) that(2)] that(1) by blast
  then show "safe R C T Q E x (fst (s, Await c k)) (snd (s, Await c k))" using assms(1) \<open>P x s\<close> by simp
qed

lemma safe_at:
  "(\<And>t s. T t \<Longrightarrow> safe_action R C T (\<lambda>x s1. P x s \<and> s1 = f t s) Q E (m t s)) \<Longrightarrow> safe_action R C T P Q E (\<lambda>t s. m t s t (f t s))"
  unfolding safe_action_def by blast

section \<open>Length\<close>

text \<open>At most so many answers are needed until the process ends.\<close>

inductive ends_within :: "nat \<Rightarrow> ('s, 'c, 'r, 'm, 'a) process \<Rightarrow> bool" where
  ends_within_Return: "ends_within n (Return v)"
| ends_within_Throw: "ends_within n (Throw m)"
| ends_within_Await: "(\<And>r t s. ends_within n (snd (k r t s))) \<Longrightarrow> ends_within (Suc n) (Await c k)"

inductive_simps ends_within_simps [simp]: "ends_within n (Return v)" "ends_within n (Throw m)"

lemma ends_within_mono: "ends_within m p \<Longrightarrow> m \<le> n \<Longrightarrow> ends_within n p"
proof (induction arbitrary: n rule: ends_within.induct)
  case (ends_within_Await m k c)
  then obtain l where "n = Suc l" "m \<le> l" by (cases n) auto
  then show ?case using ends_within_Await.IH by (auto intro: ends_within.ends_within_Await)
qed auto

end
