(* ===== verification/Soulfire_Behaviors.thy ===== *)
theory Soulfire_Behaviors
  imports Async_Process Sell_Multipliers Home_Recovery Minecraft_Client
begin

text \<open>
  \<^verbatim>\<open>backend/src/soulfire/behaviors.ts\<close>: the scheduler of a bot on the SoulFire server. Every method of the game
  gateway is a call that a process waits for; while it waits, chat, teleports, new commands and spawns change the
  state. The clock stands still within a step. Objects that the code compares by identity, the sale and the
  foreground task, carry an identity of their own.
\<close>

section \<open>Data\<close>

record soul_config =
  sc_crouch :: "bool option"
  sc_button :: "button option"
  sc_autosell :: "bool option"
  sc_interval :: "rat option"
  sc_command :: "jstr option"
  sc_spawner :: "jstr option"
  sc_drop :: "jstr list option"
  sc_sell :: "jstr list option"
  sc_return_home :: "bool option"
  sc_home :: "jstr option"

record game_slot =
  gs_slot :: int
  gs_item :: jstr
  gs_count :: int
  gs_name :: jstr
  gs_lines :: "jstr list"

record game_inventory =
  gi_menu :: jstr
  gi_title :: jstr
  gi_container :: "int list"
  gi_player :: "int list"
  gi_slots :: "game_slot list"

datatype click = Transfer | Drop_stack | Left_click

datatype game_call =
    C_suspend int
  | C_recovering bool
  | C_remember jstr
  | C_held soul_config
  | C_sneak
  | C_chat jstr
  | C_inventory
  | C_click jstr int click
  | C_transfer_all jstr
  | C_close jstr
  | C_open_spawner bool
  | C_sell_pause int int

datatype game_reply = R_done | R_inventory game_inventory | R_opened bool | R_error jstr

datatype soul_out = Soul_warning jstr | Soul_log jstr | Soul_multipliers "(jstr \<times> jstr \<times> jstr) list" | Soul_spawned | Soul_chatted "jstr option" jstr

record transfer =
  tr_slots :: "game_slot list"
  tr_at :: int
  tr_confirmed :: bool

record sale =
  sl_id :: nat
  sl_requested :: int
  sl_opened :: "int option"
  sl_menu :: "jstr option"
  sl_targets :: "int list option"
  sl_pending :: "transfer option"

datatype kind = Multipliers_task | Spawner_task
datatype spawner_phase = Drop_phase | Sell_phase

record change =
  ch_print :: jstr
  ch_slot :: "game_slot option"
  ch_at :: int
  ch_confirmed :: bool

record foreground =
  fg_id :: nat
  fg_kind :: kind
  fg_deadline :: int
  fg_opened :: "int option"
  fg_menu :: "jstr option"
  fg_previous :: jstr
  fg_phase :: spawner_phase
  fg_next :: int
  fg_pending :: "change option"

type_synonym order = "jstr \<times> jstr option"

record soul =
  so_cfg :: soul_config
  so_online :: bool
  so_ready :: int
  so_next_sell :: rat
  so_pause_start :: int
  so_pause_end :: int
  so_manual_until :: int
  so_next_sneak :: int
  so_checks :: "int list"
  so_commands :: "order list"
  so_sale :: "sale option"
  so_foreground :: "foreground option"
  so_credits :: int
  so_credit_at :: int
  so_failure :: "int option"
  so_generation :: nat
  so_blocked_until :: int
  so_last_chat :: "(jstr \<times> int) option"
  so_queue_warned :: "int option"
  so_home :: jstr
  so_pending_home :: "(jstr \<times> int) option"
  so_save_home :: "jstr option"
  so_returning :: bool
  so_home_due :: int
  so_home_attempts :: nat
  so_home_warned :: "int option"
  so_gate :: "bool option"
  so_objects :: nat
  so_out :: "soul_out list"

text \<open>
  What the module is given: \<^verbatim>\<open>JSON.parse\<close>, the letters of Unicode, the lower case of the code units beyond ASCII, and the
  optional parts of the gateway.
\<close>

record soul_env =
  sv_parse :: "jstr \<Rightarrow> json option"
  sv_uni :: "int \<Rightarrow> bool"
  sv_low :: "code_unit \<Rightarrow> jstr"
  sv_native :: bool
  sv_transfer_all :: bool

type_synonym 'a game_action = "(soul, game_call, game_reply, jstr, 'a) action"
type_synonym game_process = "(soul, game_call, game_reply, jstr, unit) process"

section \<open>Text\<close>

definition soul_plain :: "soul_env \<Rightarrow> jstr \<Rightarrow> jstr" where
  "soul_plain e s = trim (tooltip_text (sv_parse e) (JStr s))"

definition sell_title_re :: re where
  "sell_title_re = Sq Bol (Sq (Alt (lit_i ''items verkaufen'') (lit_i ''sell'')) Eol)"

definition is_sell_title :: "soul_env \<Rightarrow> jstr \<Rightarrow> bool" where
  "is_sell_title e s \<longleftrightarrow> re_test sell_title_re (soul_plain e s)"

definition teleport_re :: re where
  "teleport_re = Sq Bol (sq [opt (Alt (lit_i ''<HugoSMP>'') (lit_i ''[HugoSMP]'')), spaces,
     alts [sq [lit_i ''Du wurdest zu deinem Home '', plus (Cls is_dot), lit_i '' teleportiert!''],
           sq [plus (Cls (\<lambda>c. c \<noteq> 58)), lit_i '' hat deine Teleportations-Anfrage angenommen!''],
           sq [lit_i ''Du hast die Teleportations-Anfrage von '', plus (Cls is_dot), lit_i '' angenommen!'']], Eol])"

definition arrived_re :: re where
  "arrived_re = Sq Bol (sq [opt (Alt (lit_i ''[HugoSMP]'') (lit_i ''<HugoSMP>'')), spaces,
     lit_i ''Du wurdest zu deinem Home '', Grp 1 (plus (Cls is_dot)), lit_i '' teleportiert!'', Eol])"

definition payout_re :: re where
  "payout_re = Sq Bol (sq [opt (Alt (lit_i ''[HugoSMP]'') (lit_i ''<HugoSMP>'')), spaces, unit 43, unit 36])"

definition locked_re :: re where
  "locked_re = Sq Bol (sq [opt (Sq (lit_i ''[HugoSMP]'') spaces),
     lit_i ''Du kannst dies nicht tun, weil dein Inventar gerade gespeichert oder geladen wird'',
     opt (Cls (\<lambda>c. c = 46 \<or> c = 33)), Eol])"

definition home_command_re :: re where
  "home_command_re = Sq Bol (sq [unit 47, lit_i ''home'', spaces1, Grp 1 (plus (Cls (\<lambda>c. \<not> is_space c))), spaces, Eol])"

definition leaving_re :: re where
  "leaving_re = Sq Bol (sq [unit 47, alts (map lit_i [''home'', ''spawn'', ''hub'', ''lobby'', ''warp'', ''server'', ''tpaccept'', ''tpyes'']),
     Alt (Cls is_space) Eol])"

definition accept_command_re :: re where
  "accept_command_re = Sq Bol (sq [unit 47, Alt (lit_i ''tpaccept'') (lit_i ''tpyes''), Alt (Cls is_space) Eol])"

definition sell_multi_re :: re where
  "sell_multi_re = Sq Bol (Sq (lit_i ''sell multi'') Eol)"

definition sell_button_re :: re where
  "sell_button_re = Alt (lit_i ''verkaufen'') (lit_i ''sell'')"

section \<open>Small steps\<close>

definition say_out :: "soul_out \<Rightarrow> soul \<Rightarrow> soul" where
  "say_out x s = s\<lparr>so_out := so_out s @ [x]\<rparr>"

definition on :: "bool option \<Rightarrow> bool" where
  "on b \<longleftrightarrow> b = Some True"

definition given :: "jstr option \<Rightarrow> bool" where
  "given s \<longleftrightarrow> s \<noteq> None \<and> s \<noteq> Some []"

definition sale_is :: "nat \<Rightarrow> soul \<Rightarrow> bool" where
  "sale_is i s \<longleftrightarrow> map_option sl_id (so_sale s) = Some i"

definition task_is :: "nat \<Rightarrow> soul \<Rightarrow> bool" where
  "task_is i s \<longleftrightarrow> map_option fg_id (so_foreground s) = Some i"

definition with_sale :: "(sale \<Rightarrow> sale) \<Rightarrow> soul \<Rightarrow> soul" where
  "with_sale f s = s\<lparr>so_sale := map_option f (so_sale s)\<rparr>"

definition with_task :: "(foreground \<Rightarrow> foreground) \<Rightarrow> soul \<Rightarrow> soul" where
  "with_task f s = s\<lparr>so_foreground := map_option f (so_foreground s)\<rparr>"

definition skip :: "unit game_action" where
  "skip = return ()"

definition call :: "game_call \<Rightarrow> unit game_action \<Rightarrow> unit game_action" where
  "call c k = ask c (\<lambda>r. case r of R_error m \<Rightarrow> throw m | _ \<Rightarrow> k)"

definition read_inventory :: "(game_inventory \<Rightarrow> unit game_action) \<Rightarrow> unit game_action" where
  "read_inventory k = ask C_inventory (\<lambda>r. case r of R_inventory iv \<Rightarrow> k iv | R_error m \<Rightarrow> throw m | _ \<Rightarrow> throw [])"

section \<open>Operations that do not wait\<close>

definition new_soul :: "soul_env \<Rightarrow> soul_config \<Rightarrow> soul" where
  "new_soul e c = \<lparr>so_cfg = c, so_online = False, so_ready = 0, so_next_sell = 0, so_pause_start = 0, so_pause_end = 0,
     so_manual_until = 0, so_next_sneak = 0, so_checks = [], so_commands = [], so_sale = None, so_foreground = None,
     so_credits = 3, so_credit_at = 0, so_failure = None, so_generation = 0, so_blocked_until = 0, so_last_chat = None,
     so_queue_warned = None, so_home = (case sc_home c of None \<Rightarrow> [] | Some h \<Rightarrow> if valid_home (sv_uni e) h then h else []),
     so_pending_home = None, so_save_home = None, so_returning = False, so_home_due = 0, so_home_attempts = 0,
     so_home_warned = None, so_gate = None, so_objects = 0, so_out = []\<rparr>"

definition schedule_sneak :: "int \<Rightarrow> soul \<Rightarrow> soul" where
  "schedule_sneak t s =
     (let cs = (if so_checks s = [] \<or> 50 \<le> t + 3000 - last (so_checks s) then so_checks s @ [t + 3000] else so_checks s)
      in s\<lparr>so_checks := (if length cs > 64 then tl cs else cs)\<rparr>)"

definition reset_tasks :: "soul \<Rightarrow> soul" where
  "reset_tasks s = s\<lparr>so_generation := Suc (so_generation s), so_sale := None, so_foreground := None\<rparr>"

definition joining :: "soul \<Rightarrow> soul" where
  "joining s = reset_tasks (s\<lparr>so_online := False\<rparr>)"

definition transition :: "int \<Rightarrow> soul \<Rightarrow> soul" where
  "transition t s = schedule_sneak t ((reset_tasks s)\<lparr>so_ready := t + 2000, so_next_sell := of_int (t + 2000), so_next_sneak := 0\<rparr>)"

definition pause :: "int \<Rightarrow> int \<Rightarrow> int \<Rightarrow> soul \<Rightarrow> soul" where
  "pause t afterMs resumeMs s =
     (if resumeMs = 0 then s\<lparr>so_pause_start := 0, so_pause_end := 0\<rparr>
      else s\<lparr>so_pause_start := t + afterMs, so_pause_end := t + resumeMs\<rparr>)"

definition chat_word :: jstr where
  "chat_word = js ''chat''"

definition enqueue_order :: "int \<Rightarrow> jstr \<Rightarrow> jstr option \<Rightarrow> soul \<Rightarrow> soul" where
  "enqueue_order t ty line s =
     (if (ty, line) \<in> set (so_commands s) then s
      else if ty = chat_word \<and> given line \<and> (case so_last_chat s of None \<Rightarrow> False | Some (l, k) \<Rightarrow> line = Some l \<and> t - k < 2000) then s
      else if 32 \<le> length (so_commands s) then
        (if due (so_queue_warned s) 30000 t
         then say_out (Soul_warning (js ''Befehlswarteschlange voll; weitere Befehle vorerst verworfen'')) (s\<lparr>so_queue_warned := Some t\<rparr>)
         else s)
      else (let s1 = (if ty = chat_word \<and> given line then s\<lparr>so_last_chat := Some (the line, t)\<rparr> else s)
            in s1\<lparr>so_commands := so_commands s1 @ [(ty, line)]\<rparr>))"

definition check_sneak :: "soul \<Rightarrow> soul" where
  "check_sneak s = (if on (sc_crouch (so_cfg s)) then s\<lparr>so_next_sneak := 0\<rparr> else s)"

text \<open>The four reactions to a message of the server.\<close>

definition note_teleport :: "soul_env \<Rightarrow> int \<Rightarrow> jstr \<Rightarrow> soul \<Rightarrow> soul" where
  "note_teleport e t message s =
     (if re_test teleport_re (soul_plain e message) then (schedule_sneak t s)\<lparr>so_next_sneak := 0\<rparr> else s)"

definition note_arrival :: "soul_env \<Rightarrow> int \<Rightarrow> jstr \<Rightarrow> soul \<Rightarrow> soul" where
  "note_arrival e t message s =
     (case (re_group arrived_re 1 (soul_plain e message), so_pending_home s) of
        (Some h, Some (name, until)) \<Rightarrow>
          if t \<le> until \<and> h = name
          then say_out (Soul_log (js ''Home '' @ h @ js '' best'' @ [228] @ js ''tigt; Automatisierung wird fortgesetzt''))
                 (s\<lparr>so_home := h, so_save_home := Some h, so_pending_home := None, so_returning := False, so_gate := Some False,
                    so_ready := t + 2000\<rparr>)
          else s
      | _ \<Rightarrow> s)"

definition note_payout :: "soul_env \<Rightarrow> jstr \<Rightarrow> soul \<Rightarrow> soul" where
  "note_payout e message s =
     (if re_test payout_re (soul_plain e message) \<and> parse_sell_earning message \<noteq> None
      then with_task (\<lambda>f. if fg_kind f = Spawner_task \<and> fg_phase f = Sell_phase
               then f\<lparr>fg_pending := map_option (\<lambda>p. p\<lparr>ch_confirmed := True\<rparr>) (fg_pending f)\<rparr> else f)
             (with_sale (\<lambda>sale. sale\<lparr>sl_pending := map_option (\<lambda>p. p\<lparr>tr_confirmed := True\<rparr>) (sl_pending sale)\<rparr>) s)
      else s)"

definition note_lock :: "soul_env \<Rightarrow> int \<Rightarrow> jstr \<Rightarrow> soul \<Rightarrow> soul" where
  "note_lock e t message s =
     (if re_test locked_re (soul_plain e message)
      then (reset_tasks s)\<lparr>so_blocked_until := t + 2000, so_ready := t + 2000, so_next_sell := of_int (t + 2000)\<rparr> else s)"

definition from_player :: "soul_env \<Rightarrow> jstr option \<Rightarrow> bool" where
  "from_player e sender \<longleftrightarrow> (case sender of None \<Rightarrow> False | Some n \<Rightarrow> n \<noteq> [] \<and> to_lower (sv_low e) n \<noteq> js ''hugosmp'')"

definition on_game_chat :: "soul_env \<Rightarrow> int \<Rightarrow> jstr option \<Rightarrow> jstr \<Rightarrow> soul \<Rightarrow> soul" where
  "on_game_chat e t sender message s =
     (if from_player e sender then s
      else note_lock e t message (note_payout e message (note_arrival e t message (note_teleport e t message s))))"

section \<open>Menus\<close>

definition close_owned :: "jstr \<Rightarrow> unit game_action" where
  "close_owned menu = read_inventory (\<lambda>iv. if gi_menu iv = menu \<and> gi_container iv \<noteq> [] then call (C_close menu) skip else skip)"

definition cancel_sell :: "unit game_action" where
  "cancel_sell t s =
     (case Option.bind (so_sale s) sl_menu of
        Some menu \<Rightarrow> if menu \<noteq> [] then close_owned menu t (s\<lparr>so_sale := None\<rparr>) else (s\<lparr>so_sale := None\<rparr>, Return ())
      | None \<Rightarrow> (s\<lparr>so_sale := None\<rparr>, Return ()))"

definition fail_sell :: "jstr \<Rightarrow> unit game_action" where
  "fail_sell reason = and_then cancel_sell (\<lambda>_. modify (\<lambda>t s.
     let s1 = s\<lparr>so_next_sell := of_int t\<rparr>
     in if due (so_failure s1) 30000 t
        then say_out (Soul_warning (js ''AutoSell: '' @ reason @ js ''; versuche es weiter'')) (s1\<lparr>so_failure := Some t\<rparr>) else s1))"

section \<open>Commands\<close>

text \<open>Three commands at once, and one more every one and a half seconds.\<close>

definition fill_credits :: "int \<Rightarrow> soul \<Rightarrow> soul" where
  "fill_credits t s0 =
     (let s = (if so_credit_at s0 = 0 then s0\<lparr>so_credit_at := t\<rparr> else s0); credits = (t - so_credit_at s) div 1500
      in if 0 < credits then s\<lparr>so_credits := min 3 (so_credits s + credits), so_credit_at := so_credit_at s + credits * 1500\<rparr> else s)"

definition credit_ready :: "soul \<Rightarrow> bool" where
  "credit_ready s \<longleftrightarrow> 1 \<le> so_credits s"

definition dispatch :: "jstr \<Rightarrow> bool \<Rightarrow> unit game_action" where
  "dispatch line automatic t s =
     (if is_blocked_afk_command line
      then throw (js ''/afk ist gesperrt'') t (say_out (Soul_warning AFK_BLOCK_MESSAGE) s)
      else call (C_chat line) (modify (\<lambda>_ s. if automatic then s else s\<lparr>so_credits := so_credits s - 1\<rparr>)) t s)"

definition new_task :: "kind \<Rightarrow> int \<Rightarrow> int \<Rightarrow> jstr \<Rightarrow> soul \<Rightarrow> soul" where
  "new_task k deadline next previous s = s\<lparr>so_foreground := Some \<lparr>fg_id = so_objects s, fg_kind = k, fg_deadline = deadline,
     fg_opened = None, fg_menu = None, fg_previous = previous, fg_phase = Drop_phase, fg_next = next, fg_pending = None\<rparr>,
     so_objects := Suc (so_objects s)\<rparr>"

definition read_multipliers_order :: "nat \<Rightarrow> jstr \<Rightarrow> unit game_action" where
  "read_multipliers_order generation previous =
     and_then (dispatch (js ''/sellmulti'') False) (\<lambda>_. modify (\<lambda>t s.
       if so_generation s \<noteq> generation then s else new_task Multipliers_task (t + 10000) t previous s))"

definition clean_spawner_order :: "nat \<Rightarrow> jstr \<Rightarrow> unit game_action" where
  "clean_spawner_order generation previous t s =
     ask (C_open_spawner (on (sc_crouch (so_cfg s)))) (\<lambda>r. case r of
         R_error m \<Rightarrow> throw m
       | R_opened True \<Rightarrow> modify (\<lambda>t s. if so_generation s \<noteq> generation then s else new_task Spawner_task (t + 60000) (t + 400) previous s)
       | _ \<Rightarrow> modify (\<lambda>_. say_out (Soul_warning (js ''CleanSpawner: kein erreichbarer Spawner gefunden'')))) t s"

definition note_pending_home :: "soul_env \<Rightarrow> jstr \<Rightarrow> int \<Rightarrow> soul \<Rightarrow> soul" where
  "note_pending_home e line t s = (case re_group home_command_re 1 line of
       Some h \<Rightarrow> if h \<noteq> [] \<and> valid_home (sv_uni e) h then s\<lparr>so_pending_home := Some (h, t + 120000)\<rparr> else s
     | None \<Rightarrow> s)"

text \<open>A command that leads elsewhere gives up the return to the old home.\<close>

definition leave_home :: "jstr \<Rightarrow> unit game_action \<Rightarrow> unit game_action" where
  "leave_home line k t s =
     (if re_test leaving_re line
      then call (C_recovering False)
             (\<lambda>t s. k t (if given (re_group home_command_re 1 line) then s else s\<lparr>so_home := [], so_save_home := Some []\<rparr>))
             t (s\<lparr>so_returning := False\<rparr>)
      else k t s)"

definition chat_order :: "soul_env \<Rightarrow> jstr \<Rightarrow> unit game_action" where
  "chat_order e line = (\<lambda>t s. leave_home line
     (and_then (dispatch line False) (\<lambda>_. modify (\<lambda>t s.
        let s1 = s\<lparr>so_manual_until := t + 5000\<rparr>; s2 = (if re_test accept_command_re line then schedule_sneak t s1 else s1)
        in say_out (Soul_log (js ''Command dispatched: '' @ line)) s2)))
     t (note_pending_home e line t s))"

definition order_body :: "soul_env \<Rightarrow> order \<Rightarrow> nat \<Rightarrow> jstr \<Rightarrow> unit game_action" where
  "order_body e c generation previous =
     (\<lambda>t s. (if fst c = js ''read_sell_multipliers'' then read_multipliers_order generation previous
             else if fst c = js ''clean_spawner'' then clean_spawner_order generation previous
             else if given (snd c) then chat_order e (the (snd c)) else skip) t (s\<lparr>so_manual_until := t + 5000\<rparr>))"

definition run_order :: "soul_env \<Rightarrow> order \<Rightarrow> unit game_action" where
  "run_order e c = call (C_suspend 5000) (\<lambda>t s.
     let generation = so_generation s in
     ask C_inventory (\<lambda>r. case r of
         R_inventory iv \<Rightarrow>
           if gi_container iv \<noteq> [] then call (C_close (gi_menu iv)) (order_body e c generation (gi_menu iv))
           else order_body e c generation (gi_menu iv)
       | R_error m \<Rightarrow> if sv_native e \<and> fst c = chat_word then order_body e c generation [] else throw m
       | _ \<Rightarrow> throw []) t (s\<lparr>so_sale := None, so_foreground := None\<rparr>))"

section \<open>Selling\<close>

definition sale_command_of :: "soul_config \<Rightarrow> jstr" where
  "sale_command_of c = trim (if given (sc_command c) then the (sc_command c) else js ''/sell'')"

definition start_sale :: "int \<Rightarrow> nat \<Rightarrow> unit game_action" where
  "start_sale t0 generation t s =
     (let i = so_objects s;
          s1 = s\<lparr>so_sale := Some \<lparr>sl_id = i, sl_requested = t0, sl_opened = None, sl_menu = None, sl_targets = None, sl_pending = None\<rparr>,
                 so_objects := Suc i\<rparr>
      in and_then
           (catching (dispatch (sale_command_of (so_cfg s)) True)
              (\<lambda>m t s. throw m t (if sale_is i s then s\<lparr>so_sale := None, so_next_sell := of_int (t + 5000)\<rparr> else s)))
           (\<lambda>_. modify (\<lambda>t s. if \<not> sale_is i s \<or> so_generation s \<noteq> generation then s
              else (with_sale (\<lambda>sale. sale\<lparr>sl_requested := t\<rparr>) s)\<lparr>so_next_sell := of_int t0
                     + max 250 ((case sc_interval (so_cfg s) of None \<Rightarrow> 60 | Some k \<Rightarrow> k) * 1000)\<rparr>)) t s1)"

definition still_there :: "game_slot list \<Rightarrow> game_slot \<Rightarrow> bool" where
  "still_there slots old = (case find (\<lambda>x. gs_slot x = gs_slot old) slots of
       None \<Rightarrow> False | Some new \<Rightarrow> gs_item new = gs_item old \<and> gs_count old \<le> gs_count new)"

text \<open>
  A transfer that was sent: when the answer comes the time of the attempt is renewed, an error fails the sale
  unless a payout has confirmed it.
\<close>

definition send_transfer :: "game_call \<Rightarrow> game_slot list \<Rightarrow> nat \<Rightarrow> unit game_action" where
  "send_transfer c slots i t s =
     ask c (\<lambda>r. case r of
         R_error _ \<Rightarrow> (\<lambda>t s. if sale_is i s \<and> \<not> (case Option.bind (so_sale s) sl_pending of None \<Rightarrow> False | Some p \<Rightarrow> tr_confirmed p)
             then fail_sell (js ''Item-Transfer wurde abgelehnt'') t s else skip t s)
       | _ \<Rightarrow> modify (\<lambda>t s. if sale_is i s then with_sale (\<lambda>x. x\<lparr>sl_pending := map_option (\<lambda>p. p\<lparr>tr_at := t\<rparr>) (sl_pending x)\<rparr>) s else s))
     t (with_sale (\<lambda>x. x\<lparr>sl_pending := Some \<lparr>tr_slots = slots, tr_at = t, tr_confirmed = False\<rparr>\<rparr>) s)"

text \<open>What is left to do once no transfer is pending.\<close>

definition sell_stock :: "soul_env \<Rightarrow> game_inventory \<Rightarrow> nat \<Rightarrow> int list \<Rightarrow> unit game_action" where
  "sell_stock e iv i targets t s =
     (if sv_transfer_all e \<and> targets \<noteq> [] then
        (let items = filter (\<lambda>x. gs_slot x \<in> set targets \<and> 0 < gs_count x) (gi_slots iv);
             s1 = with_sale (\<lambda>x. x\<lparr>sl_targets := Some []\<rparr>) s
         in if items = [] then cancel_sell t s1 else send_transfer (C_transfer_all (gi_menu iv)) items i t s1)
      else case targets of
          [] \<Rightarrow> cancel_sell t s
        | k # ks \<Rightarrow>
            (let s1 = with_sale (\<lambda>x. x\<lparr>sl_targets := Some ks\<rparr>) s
             in case find (\<lambda>x. gs_slot x = k \<and> 0 < gs_count x) (gi_slots iv) of
                  None \<Rightarrow> skip t s1
                | Some item \<Rightarrow> send_transfer (C_click (gi_menu iv) (gs_slot item) Transfer) [item] i t s1))"

definition populated_slots :: "game_inventory \<Rightarrow> int list" where
  "populated_slots iv = map gs_slot (filter (\<lambda>x. gs_slot x \<in> set (gi_player iv) \<and> 0 < gs_count x) (gi_slots iv))"

text \<open>The sale knows its menu: it waits for the content, for the pending transfer, and then goes on.\<close>

definition sell_in_menu :: "soul_env \<Rightarrow> game_inventory \<Rightarrow> sale \<Rightarrow> int \<Rightarrow> unit game_action" where
  "sell_in_menu e iv sale opened t s =
     (if sl_targets sale = None \<and> populated_slots iv = [] \<and> t - opened < 500 then skip t s
      else (let targets = (case sl_targets sale of None \<Rightarrow> populated_slots iv | Some ks \<Rightarrow> ks);
                s1 = with_sale (\<lambda>x. x\<lparr>sl_targets := Some targets\<rparr>) s
            in case sl_pending sale of
                 None \<Rightarrow> sell_stock e iv (sl_id sale) targets t s1
               | Some p \<Rightarrow>
                   if \<not> tr_confirmed p \<and> list_all (still_there (gi_slots iv)) (tr_slots p)
                   then (if 5000 \<le> t - tr_at p then fail_sell (js ''Item-Transfer wurde nicht best'' @ [228] @ js ''tigt'') t s1 else skip t s1)
                   else sell_stock e iv (sl_id sale) targets t (with_sale (\<lambda>x. x\<lparr>sl_pending := None\<rparr>) s1)))"

definition continue_sale :: "soul_env \<Rightarrow> game_inventory \<Rightarrow> sale \<Rightarrow> unit game_action" where
  "continue_sale e iv sale t s =
     (if sl_opened sale = None \<and> 10000 \<le> t - sl_requested sale
      then fail_sell (js ''Verkaufsmen'' @ [252] @ js '' hat nicht rechtzeitig geantwortet'') t s
      else if (case sl_opened sale of None \<Rightarrow> False | Some k \<Rightarrow> 120000 \<le> t - k)
      then fail_sell (js ''Zeitlimit f'' @ [252] @ js ''r diesen Verkauf erreicht'') t s
      else if gi_container iv = []
      then skip t (if given (sl_menu sale) then s\<lparr>so_sale := None, so_next_sell := max (so_next_sell s) (of_int t)\<rparr> else s)
      else if \<not> is_sell_title e (gi_title iv) \<or> (given (sl_menu sale) \<and> sl_menu sale \<noteq> Some (gi_menu iv))
      then skip t (s\<lparr>so_sale := None\<rparr>)
      else if given (sl_menu sale)
      then sell_in_menu e iv sale (case sl_opened sale of None \<Rightarrow> 0 | Some k \<Rightarrow> k) t s
      else sell_in_menu e iv (sale\<lparr>sl_menu := Some (gi_menu iv), sl_opened := Some t\<rparr>) t t
             (with_sale (\<lambda>x. x\<lparr>sl_menu := Some (gi_menu iv), sl_opened := Some t\<rparr>) s))"

definition tick_game_sale :: "soul_env \<Rightarrow> int \<Rightarrow> unit game_action" where
  "tick_game_sale e start t s =
     (if so_sale s = None \<and> of_int start < so_next_sell s then skip t s
      else (let generation = so_generation s in read_inventory (\<lambda>iv t s.
        if so_generation s \<noteq> generation then skip t s
        else case so_sale s of
            Some sale \<Rightarrow> continue_sale e iv sale t s
          | None \<Rightarrow>
              if gi_container iv \<noteq> []
              then (if is_sell_title e (gi_title iv)
                    then call (C_close (gi_menu iv)) (modify (\<lambda>_ s. s\<lparr>so_next_sell := of_int (t + 500)\<rparr>)) t s else skip t s)
              else if of_int t < so_next_sell s then skip t s
              else start_sale t generation t s) t s))"

section \<open>Foreground tasks\<close>

definition end_task :: "soul_out \<Rightarrow> unit game_action" where
  "end_task x = modify (\<lambda>_ s. say_out x (s\<lparr>so_foreground := None\<rparr>))"

definition multiplier_entries :: "soul_env \<Rightarrow> game_inventory \<Rightarrow> (jstr \<times> jstr \<times> jstr) option list" where
  "multiplier_entries e iv = map (\<lambda>k. case find (\<lambda>x. gs_slot x = k) (gi_slots iv) of
       None \<Rightarrow> None
     | Some x \<Rightarrow> read_multiplier (sv_parse e) (JStr (gs_name x)) (map JStr (gs_lines x))) (take 9 (gi_container iv))"

definition tick_multiplier_task :: "soul_env \<Rightarrow> game_inventory \<Rightarrow> unit game_action" where
  "tick_multiplier_task e iv =
     (let entries = multiplier_entries e iv
      in if re_test sell_multi_re (soul_plain e (gi_title iv)) \<and> length entries = 9 \<and> list_all (\<lambda>x. x \<noteq> None) entries
         then call (C_close (gi_menu iv)) (end_task (Soul_multipliers (map the entries))) else skip)"

definition print_slots :: "game_slot list \<Rightarrow> jstr" where
  "print_slots xs = join_with [124] (map (\<lambda>x. show_int (gs_slot x) @ [58] @ gs_item x @ [58] @ show_int (gs_count x)) xs)"

definition menu_stock :: "game_inventory \<Rightarrow> game_slot list" where
  "menu_stock iv = filter (\<lambda>x. gs_slot x \<in> set (gi_container iv) \<and> 0 < gs_count x) (gi_slots iv)"

definition names_of :: "soul_config \<Rightarrow> spawner_phase \<Rightarrow> jstr list" where
  "names_of c ph = (case (case ph of Drop_phase \<Rightarrow> sc_drop c | Sell_phase \<Rightarrow> sc_sell c) of None \<Rightarrow> [] | Some xs \<Rightarrow> xs)"

definition matching_slots :: "soul_config \<Rightarrow> spawner_phase \<Rightarrow> game_slot list \<Rightarrow> game_slot list" where
  "matching_slots c ph stock =
     (if given (sc_spawner c) then filter (\<lambda>x. gs_item x \<in> set (names_of c ph)) stock else sort_key (\<lambda>x. - gs_slot x) stock)"

text \<open>One stack of every selected item is kept.\<close>

definition eligible_slots :: "soul_config \<Rightarrow> game_slot list \<Rightarrow> game_slot list" where
  "eligible_slots c matching =
     (if given (sc_spawner c) then filter (\<lambda>x. 1 < length (filter (\<lambda>y. gs_item y = gs_item x) matching)) matching else matching)"

definition phase_finished :: "soul_config \<Rightarrow> game_inventory \<Rightarrow> game_slot list \<Rightarrow> game_slot list \<Rightarrow> bool" where
  "phase_finished c iv stock matching =
     (if given (sc_spawner c) then eligible_slots c matching = []
      else matching = [] \<or> length (gi_container iv) \<le> 2 \<or> \<not> list_ex (\<lambda>x. gs_slot x = gi_container iv ! 2) stock)"

definition unchanged :: "change \<Rightarrow> game_slot list \<Rightarrow> jstr \<Rightarrow> bool" where
  "unchanged p stock print = (case ch_slot p of Some old \<Rightarrow> still_there stock old | None \<Rightarrow> print = ch_print p)"

definition sell_button :: "soul_env \<Rightarrow> soul_config \<Rightarrow> game_slot list \<Rightarrow> game_slot option" where
  "sell_button e c stock = find (\<lambda>x. gs_item x \<notin> set (names_of c Drop_phase @ names_of c Sell_phase)
     \<and> re_test sell_button_re (join_with [32] (map (soul_plain e) (gs_name x # gs_lines x)))) stock"

text \<open>After a click the time of the attempt and the earliest next look are renewed, if the task is still there.\<close>

definition after_click :: "nat \<Rightarrow> unit game_action" where
  "after_click i = modify (\<lambda>t s. if task_is i s
     then with_task (\<lambda>f. f\<lparr>fg_pending := map_option (\<lambda>p. p\<lparr>ch_at := t\<rparr>) (fg_pending f), fg_next := t + 400\<rparr>) s else s)"

definition clear_spawner :: "soul_env \<Rightarrow> game_inventory \<Rightarrow> foreground \<Rightarrow> game_slot list \<Rightarrow> unit game_action" where
  "clear_spawner e iv task stock t s =
     (let c = so_cfg s; matching = matching_slots c (fg_phase task) stock; print = print_slots matching;
          pend = (\<lambda>p. with_task (\<lambda>f. f\<lparr>fg_pending := Some p\<rparr>))
      in if phase_finished c iv stock matching
         then (if fg_phase task = Drop_phase \<and> given (sc_spawner c) then skip t (with_task (\<lambda>f. f\<lparr>fg_phase := Sell_phase\<rparr>) s)
               else call (C_close (gi_menu iv)) (end_task (Soul_log (js ''Spawner aufger'' @ [228] @ js ''umt; Men'' @ [252] @ js '' geschlossen''))) t s)
         else if fg_phase task = Drop_phase
         then (let x = hd (eligible_slots c matching)
               in call (C_click (gi_menu iv) (gs_slot x) Drop_stack) (after_click (fg_id task)) t
                    (pend \<lparr>ch_print = print, ch_slot = Some x, ch_at = t, ch_confirmed = False\<rparr> s))
         else case sell_button e c stock of
             None \<Rightarrow> after_click (fg_id task) t s
           | Some x \<Rightarrow> call (C_click (gi_menu iv) (gs_slot x) Left_click) (after_click (fg_id task)) t
                    (pend \<lparr>ch_print = print, ch_slot = None, ch_at = t, ch_confirmed = False\<rparr> s))"

definition tick_spawner_task :: "soul_env \<Rightarrow> game_inventory \<Rightarrow> foreground \<Rightarrow> unit game_action" where
  "tick_spawner_task e iv task t s =
     (let stock = menu_stock iv
      in if stock = [] \<and> t - (case fg_opened task of None \<Rightarrow> 0 | Some k \<Rightarrow> k) < 1000 then skip t s
         else case fg_pending task of
             Some p \<Rightarrow>
               if unchanged p stock (print_slots (matching_slots (so_cfg s) (fg_phase task) stock)) \<and> \<not> ch_confirmed p
               then (if 5000 \<le> t - ch_at p
                     then and_then (close_owned (gi_menu iv)) (\<lambda>_. end_task (Soul_warning (js ''CleanSpawner: '' @ [196] @ js ''nderung wurde nicht best''
                            @ [228] @ js ''tigt; Vorgang abgebrochen''))) t s
                     else skip t s)
               else clear_spawner e iv (task\<lparr>fg_pending := None\<rparr>) stock t (with_task (\<lambda>f. f\<lparr>fg_pending := None\<rparr>) s)
           | None \<Rightarrow> clear_spawner e iv task stock t s)"

definition work_in_menu :: "soul_env \<Rightarrow> game_inventory \<Rightarrow> foreground \<Rightarrow> unit game_action" where
  "work_in_menu e iv task = (case fg_kind task of Multipliers_task \<Rightarrow> tick_multiplier_task e iv | Spawner_task \<Rightarrow> tick_spawner_task e iv task)"

definition task_timeout :: "kind \<Rightarrow> soul_out" where
  "task_timeout k = Soul_warning (case k of
       Multipliers_task \<Rightarrow> js ''Desmo: SELL MULTI nicht vollst'' @ [228] @ js ''ndig lesbar (10s Timeout)''
     | Spawner_task \<Rightarrow> js ''CleanSpawner: Zeitlimit erreicht; Men'' @ [252] @ js '' geschlossen'')"

definition continue_task :: "soul_env \<Rightarrow> game_inventory \<Rightarrow> foreground \<Rightarrow> unit game_action" where
  "continue_task e iv task t s =
     (if fg_deadline task \<le> t
      then (if given (fg_menu task) then and_then (close_owned (the (fg_menu task))) (\<lambda>_. end_task (task_timeout (fg_kind task))) t s
            else end_task (task_timeout (fg_kind task)) t s)
      else if gi_container iv = [] then skip t (if given (fg_menu task) then s\<lparr>so_foreground := None\<rparr> else s)
      else if gi_menu iv = fg_previous task then skip t s
      else if given (fg_menu task) \<and> fg_menu task \<noteq> Some (gi_menu iv) then skip t (s\<lparr>so_foreground := None\<rparr>)
      else if given (fg_menu task) then work_in_menu e iv task t s
      else work_in_menu e iv (task\<lparr>fg_menu := Some (gi_menu iv), fg_opened := Some t\<rparr>) t
             (with_task (\<lambda>f. f\<lparr>fg_menu := Some (gi_menu iv), fg_opened := Some t\<rparr>) s))"

definition tick_foreground :: "soul_env \<Rightarrow> int \<Rightarrow> foreground \<Rightarrow> unit game_action" where
  "tick_foreground e start task =
     (if start < fg_next task then skip
      else read_inventory (\<lambda>iv t s. case so_foreground s of
          None \<Rightarrow> skip t s
        | Some cur \<Rightarrow> if fg_id cur = fg_id task then continue_task e iv cur t s else skip t s))"

section \<open>The scheduler\<close>

fun due_sneaks :: "int \<Rightarrow> int list \<Rightarrow> soul \<Rightarrow> soul" where
  "due_sneaks t [] s = s\<lparr>so_checks := []\<rparr>"
| "due_sneaks t (c # cs) s = (if c \<le> t then due_sneaks t cs (check_sneak s) else s\<lparr>so_checks := c # cs\<rparr>)"

definition tick_sneak :: "int \<Rightarrow> unit game_action \<Rightarrow> unit game_action" where
  "tick_sneak t0 k t s0 =
     (let s = due_sneaks t0 (so_checks s0) s0
      in if on (sc_crouch (so_cfg s)) \<and> so_next_sneak s \<le> t0
         then ask C_sneak (\<lambda>r t s. k t (s\<lparr>so_next_sneak := t0 + (case r of R_error _ \<Rightarrow> 1000 | _ \<Rightarrow> 1800000)\<rparr>)) t s
         else k t s)"

definition order_failure :: "order \<Rightarrow> jstr \<Rightarrow> jstr" where
  "order_failure c m = js ''Befehl '' @ (case snd c of None \<Rightarrow> fst c | Some l \<Rightarrow> l) @ js '' fehlgeschlagen: '' @ m
     @ js ''. Bei einem Timeout vor erneutem Senden die Serverantwort pr'' @ [252] @ js ''fen.''"

definition tick_order :: "soul_env \<Rightarrow> int \<Rightarrow> order \<Rightarrow> order list \<Rightarrow> unit game_action" where
  "tick_order e t0 c cs t s0 =
     (let s = fill_credits t0 s0
      in if \<not> credit_ready s then skip t s
         else catching (run_order e c) (\<lambda>m. modify (\<lambda>_. say_out (Soul_warning (order_failure c m)))) t (s\<lparr>so_commands := cs\<rparr>))"

text \<open>The way back to the confirmed home, at growing intervals.\<close>

definition return_home :: "int \<Rightarrow> unit game_action" where
  "return_home t0 t s0 =
     (if t0 < so_home_due s0 then skip t s0
      else let s = fill_credits t0 s0
      in if \<not> credit_ready s then skip t s
         else (let n = Suc (so_home_attempts s);
                   s1 = s\<lparr>so_home_attempts := n, so_home_due := t0 + min 120000 (15000 * 2 ^ min 3 (n - 1)),
                          so_pending_home := Some (so_home s, t0 + 120000)\<rparr>
               in catching
                    (and_then (dispatch (js ''/home '' @ so_home s1) False)
                       (\<lambda>_. modify (\<lambda>_ s. say_out (Soul_log (js ''Reconnect: R'' @ [252] @ js ''ckkehr zu Home '' @ so_home s @ js '' angefordert'')) s)))
                    (\<lambda>m. modify (\<lambda>_ s. if due (so_home_warned s) 60000 t0
                       then say_out (Soul_warning (js ''R'' @ [252] @ js ''ckkehr zum best'' @ [228] @ js ''tigten Home noch nicht m'' @ [246] @ js ''glich: ''
                              @ m @ js ''; erneuter Versuch mit Wartezeit'')) (s\<lparr>so_home_warned := Some t0\<rparr>)
                       else s)) t s1))"

text \<open>One thing per tick: a command, the pause, a foreground task, the way home, or a sale.\<close>

definition tick_work :: "soul_env \<Rightarrow> int \<Rightarrow> unit game_action" where
  "tick_work e t0 t s =
     (case so_commands s of
        c # cs \<Rightarrow> tick_order e t0 c cs t s
      | [] \<Rightarrow>
          if so_pause_start s \<le> t0 \<and> t0 < so_pause_end s then cancel_sell t s
          else if t0 < so_ready s then skip t s
          else case so_foreground s of
              Some task \<Rightarrow> tick_foreground e t0 task t s
            | None \<Rightarrow>
                if so_returning s then return_home t0 t s
                else if \<not> on (sc_autosell (so_cfg s)) \<or> t0 < so_manual_until s \<or> sv_native e then skip t s
                else tick_game_sale e t0 t s)"

definition tell_gate :: "unit game_action \<Rightarrow> unit game_action" where
  "tell_gate k t s = (case so_gate s of
       None \<Rightarrow> k t s
     | Some p \<Rightarrow> call (C_recovering p) (\<lambda>t s. k t (s\<lparr>so_gate := None\<rparr>)) t s)"

definition store_home :: "unit game_action \<Rightarrow> unit game_action" where
  "store_home k t s = (case so_save_home s of
       None \<Rightarrow> k t s
     | Some h \<Rightarrow> call (C_remember h) (\<lambda>t s. k t (if so_save_home s = Some h then s\<lparr>so_save_home := None\<rparr> else s)) t s)"

definition game_tick :: "soul_env \<Rightarrow> unit game_action" where
  "game_tick e t0 s =
     (if \<not> so_online s then skip t0 s
      else tell_gate (store_home (\<lambda>t s. if t0 < so_blocked_until s then skip t s else tick_sneak t0 (tick_work e t0) t s)) t0 s)"

definition configure_soul :: "soul_config \<Rightarrow> unit game_action" where
  "configure_soul c t s =
     (let old = so_cfg s;
          changed = (sc_autosell c \<noteq> sc_autosell old \<or> sc_interval c \<noteq> sc_interval old \<or> sc_command c \<noteq> sc_command old);
          s1 = s\<lparr>so_cfg := c\<rparr>;
          s2 = (if sc_return_home c = Some False then s1\<lparr>so_returning := False, so_gate := Some False\<rparr> else s1);
          finish = modify (\<lambda>t s. if changed then s\<lparr>so_next_sell := of_int t\<rparr> else s)
      in call (C_held c) (if on (sc_autosell c) then finish else and_then cancel_sell (\<lambda>_. finish)) t s2)"

definition game_spawned :: "unit game_action" where
  "game_spawned t s =
     (let s1 = transition t (s\<lparr>so_online := True\<rparr>)
      in call (C_held (so_cfg s1)) (\<lambda>t s.
           let s2 = s\<lparr>so_returning := (sc_return_home (so_cfg s) \<noteq> Some False \<and> so_home s \<noteq> []),
                      so_home_due := t + 5000, so_home_attempts := 0\<rparr>
           in call (C_recovering (so_returning s2)) skip t s2) t s1)"

end
