(* ===== verification/Soulfire_Session.thy ===== *)
theory Soulfire_Session
  imports Soulfire_Behaviors
begin

text \<open>
  The scheduler of \<^verbatim>\<open>backend/src/soulfire/session.ts\<close>: commands of the supervisor, events of the game and a timer share
  one task that is never run twice at the same time; the spawn handling runs beside it. What a game call answers, and
  when, is up to the events.
\<close>

section \<open>State\<close>

datatype soul_command =
    Soul_configure soul_config
  | Soul_pause int int
  | Soul_check_crouch
  | Soul_chat jstr
  | Soul_clean_spawner
  | Soul_read_multipliers

text \<open>The scheduler is in a queued command or in the tick.\<close>

datatype job = Command_job game_process | Tick_job game_process

record soul_session =
  ss_soul :: soul
  ss_job :: "job option"
  ss_spawns :: "game_process list"
  ss_queue :: "soul_command list"
  ss_wake :: bool
  ss_ready :: bool
  ss_warned :: "int option"
  ss_world :: bool
  ss_calls :: "game_call list"

definition new_session :: "soul_env \<Rightarrow> soul_config \<Rightarrow> soul_session" where
  "new_session e c = \<lparr>ss_soul = new_soul e c, ss_job = None, ss_spawns = [], ss_queue = [], ss_wake = False, ss_ready = False,
     ss_warned = None, ss_world = False, ss_calls = []\<rparr>"

text \<open>The calls that are made are remembered in order.\<close>

fun call_of :: "game_process \<Rightarrow> game_call list" where
  "call_of (Await c _) = [c]"
| "call_of _ = []"

fun process_of :: "job \<Rightarrow> game_process" where
  "process_of (Command_job p) = p"
| "process_of (Tick_job p) = p"

section \<open>The scheduler\<close>

definition pause_order :: "int \<Rightarrow> int \<Rightarrow> unit game_action" where
  "pause_order afterMs resumeMs = (\<lambda>t s. call (C_sell_pause afterMs resumeMs) skip t (pause t afterMs resumeMs s))"

text \<open>The queued commands up to one that waits, or the tick when none is left.\<close>

fun drain_queue :: "soul_env \<Rightarrow> bool \<Rightarrow> int \<Rightarrow> soul_command list \<Rightarrow> soul \<Rightarrow> soul \<times> soul_command list \<times> job" where
  "drain_queue e ready t [] s =
     (if ready \<or> sv_native e then (case game_tick e t s of (s1, p) \<Rightarrow> (s1, [], Tick_job p)) else (s, [], Tick_job (Return ())))"
| "drain_queue e ready t (c # q) s = (case c of
       Soul_configure conf \<Rightarrow> (case configure_soul conf t s of (s1, p) \<Rightarrow> (s1, q, Command_job p))
     | Soul_pause a r \<Rightarrow> (case pause_order a r t s of (s1, p) \<Rightarrow> (s1, q, Command_job p))
     | Soul_check_crouch \<Rightarrow> drain_queue e ready t q (check_sneak s)
     | Soul_chat line \<Rightarrow> drain_queue e ready t q (enqueue_order t chat_word (Some line) s)
     | Soul_clean_spawner \<Rightarrow> drain_queue e ready t q (enqueue_order t (js ''clean_spawner'') None s)
     | Soul_read_multipliers \<Rightarrow> drain_queue e ready t q (enqueue_order t (js ''read_sell_multipliers'') None s))"

definition begin_job :: "soul_env \<Rightarrow> int \<Rightarrow> soul_session \<Rightarrow> soul_session" where
  "begin_job e t x = (case drain_queue e (ss_ready x) t (ss_queue x) (ss_soul x) of
       (s, q, j) \<Rightarrow> x\<lparr>ss_soul := s, ss_queue := q, ss_job := Some j, ss_calls := ss_calls x @ call_of (process_of j)\<rparr>)"
text \<open>The end of a job frees the scheduler; an error is reported at most every thirty seconds.\<close>

definition close_job :: "int \<Rightarrow> soul_session \<Rightarrow> soul_session" where
  "close_job t x = (case ss_job x of
       None \<Rightarrow> x
     | Some j \<Rightarrow> (case process_of j of
           Await c k \<Rightarrow> x
         | Return _ \<Rightarrow> x\<lparr>ss_job := None\<rparr>
         | Throw m \<Rightarrow> if due (ss_warned x) 30000 t
             then x\<lparr>ss_job := None, ss_warned := Some t, ss_soul := say_out (Soul_warning m) (ss_soul x)\<rparr>
             else x\<lparr>ss_job := None\<rparr>))"

text \<open>After a queued command comes the next one; after the job, a wake-up that came meanwhile.\<close>

definition settle :: "soul_env \<Rightarrow> int \<Rightarrow> soul_session \<Rightarrow> soul_session" where
  "settle e t x =
     (let x1 = close_job t (case ss_job x of Some (Command_job (Return _)) \<Rightarrow> begin_job e t x | _ \<Rightarrow> x)
      in if ss_job x1 = None \<and> ss_wake x1 then close_job t (begin_job e t (x1\<lparr>ss_wake := False\<rparr>)) else x1)"

definition step_timer :: "soul_env \<Rightarrow> int \<Rightarrow> soul_session \<Rightarrow> soul_session" where
  "step_timer e t x = (case ss_job x of None \<Rightarrow> settle e t (begin_job e t x) | Some _ \<Rightarrow> x)"

definition wake_scheduler :: "soul_env \<Rightarrow> int \<Rightarrow> soul_session \<Rightarrow> soul_session" where
  "wake_scheduler e t x = (case ss_job x of None \<Rightarrow> step_timer e t x | Some _ \<Rightarrow> x\<lparr>ss_wake := True\<rparr>)"

fun resume :: "game_process \<Rightarrow> game_reply \<Rightarrow> int \<Rightarrow> soul \<Rightarrow> soul \<times> game_process" where
  "resume (Await c k) r t s = k r t s"
| "resume p r t s = (s, p)"

definition answer_job :: "soul_env \<Rightarrow> int \<Rightarrow> game_reply \<Rightarrow> soul_session \<Rightarrow> soul_session" where
  "answer_job e t r x = (case ss_job x of
       None \<Rightarrow> x
     | Some j \<Rightarrow> (case resume (process_of j) r t (ss_soul x) of (s, p) \<Rightarrow>
         settle e t (x\<lparr>ss_soul := s, ss_calls := ss_calls x @ call_of p,
           ss_job := Some (case j of Command_job _ \<Rightarrow> Command_job p | Tick_job _ \<Rightarrow> Tick_job p)\<rparr>)))"

subsection \<open>The spawn\<close>

definition spawn_session :: "int \<Rightarrow> soul_session \<Rightarrow> soul_session" where
  "spawn_session t x =
     (if ss_world x then x
      else case game_spawned t (ss_soul x) of (s, p) \<Rightarrow>
        x\<lparr>ss_world := True, ss_soul := s, ss_spawns := ss_spawns x @ [p], ss_calls := ss_calls x @ call_of p\<rparr>)"

definition answer_spawn :: "int \<Rightarrow> nat \<Rightarrow> game_reply \<Rightarrow> soul_session \<Rightarrow> soul_session" where
  "answer_spawn t i r x =
     (if length (ss_spawns x) \<le> i then x
      else case resume (ss_spawns x ! i) r t (ss_soul x) of (s, p) \<Rightarrow>
        (let rest = take i (ss_spawns x) @ drop (Suc i) (ss_spawns x)
         in case p of
              Await c k \<Rightarrow> x\<lparr>ss_soul := s, ss_spawns := (ss_spawns x)[i := p], ss_calls := ss_calls x @ [c]\<rparr>
            | Return _ \<Rightarrow> x\<lparr>ss_soul := say_out Soul_spawned s, ss_spawns := rest\<rparr>
            | Throw m \<Rightarrow> x\<lparr>ss_soul := joining s, ss_world := False, ss_spawns := rest\<rparr>))"

section \<open>Events\<close>

datatype soul_event =
    Ev_timer
  | Ev_answer game_reply
  | Ev_command soul_command
  | Ev_inventory
  | Ev_resync
  | Ev_chat "jstr option" jstr
  | Ev_moved
  | Ev_died
  | Ev_respawned
  | Ev_spawned
  | Ev_spawn_answer nat game_reply

fun soul_step :: "soul_env \<Rightarrow> int \<times> soul_event \<Rightarrow> soul_session \<Rightarrow> soul_session" where
  "soul_step e (t, Ev_timer) x = step_timer e t x"
| "soul_step e (t, Ev_answer r) x = answer_job e t r x"
| "soul_step e (t, Ev_command c) x = x\<lparr>ss_queue := ss_queue x @ [c]\<rparr>"
| "soul_step e (t, Ev_inventory) x = wake_scheduler e t (x\<lparr>ss_ready := True\<rparr>)"
| "soul_step e (t, Ev_resync) x = x\<lparr>ss_ready := False\<rparr>"
| "soul_step e (t, Ev_chat sender message) x = wake_scheduler e t (x\<lparr>ss_soul := on_game_chat e t sender message (say_out (Soul_chatted sender message) (ss_soul x))\<rparr>)"
| "soul_step e (t, Ev_moved) x = x\<lparr>ss_soul := transition t (ss_soul x)\<rparr>"
| "soul_step e (t, Ev_died) x = x\<lparr>ss_ready := False, ss_soul := joining (ss_soul x), ss_world := False\<rparr>"
| "soul_step e (t, Ev_respawned) x = spawn_session t (x\<lparr>ss_world := False\<rparr>)"
| "soul_step e (t, Ev_spawned) x = spawn_session t x"
| "soul_step e (t, Ev_spawn_answer i r) x = answer_spawn t i r x"

definition soul_run :: "soul_env \<Rightarrow> soul_config \<Rightarrow> (int \<times> soul_event) list \<Rightarrow> soul_session" where
  "soul_run e c evs = fold (soul_step e) evs (new_session e c)"

end
