(* ===== verification/Soulfire_Props.thy ===== *)
theory Soulfire_Props
  imports Soulfire_Session
begin

text \<open>
  What the scheduler of a SoulFire bot guarantees, in every interleaving of its processes with the events of the
  game: the calls it makes are allowed, and a job ends after a bounded number of answers.
\<close>

section \<open>The contract of a process\<close>

text \<open>
  \<open>H\<close> are the homes that the server confirmed; times lie between \<open>a\<close> and \<open>b\<close>.
\<close>

definition soul_ok :: "jstr set \<Rightarrow> int \<Rightarrow> soul \<Rightarrow> bool" where
  "soul_ok H b s \<longleftrightarrow> length (so_commands s) \<le> 32 \<and> length (so_checks s) \<le> 64 \<and> 0 \<le> so_credits s
     \<and> so_credits s \<le> 3 \<and> 0 \<le> so_credit_at s \<and> so_credit_at s \<le> b \<and> (case so_save_home s of None \<Rightarrow> True | Some h \<Rightarrow> h = [] \<or> h \<in> H)"

text \<open>A measure of what may still be sent by \<open>b\<close>: it never grows, and a successful command takes 1500 from it.\<close>

definition allowance :: "int \<Rightarrow> soul \<Rightarrow> int" where
  "allowance a s = 1500 * so_credits s - (if so_credit_at s = 0 then a else so_credit_at s)"

definition others :: "jstr set \<Rightarrow> int \<Rightarrow> soul \<Rightarrow> soul \<Rightarrow> bool" where
  "others H b s s1 \<longleftrightarrow> soul_ok H b s1 \<and> so_credits s1 = so_credits s \<and> so_credit_at s1 = so_credit_at s"

type_synonym game_origin = "(soul, game_call, game_reply) origin"

fun accepted_chat :: "(game_call \<times> game_reply) option \<Rightarrow> bool" where
  "accepted_chat (Some (C_chat l, R_error m)) \<longleftrightarrow> False"
| "accepted_chat (Some (C_chat l, r)) \<longleftrightarrow> True"
| "accepted_chat x \<longleftrightarrow> False"

definition kept :: "soul_env \<Rightarrow> int \<Rightarrow> int \<Rightarrow> jstr set \<Rightarrow> game_origin \<Rightarrow> soul \<Rightarrow> bool" where
  "kept e a b H x s \<longleftrightarrow> soul_ok H b s
     \<and> allowance a s \<le> allowance a (snd x) - (if sv_native e \<and> accepted_chat (fst x) then 1500 else 0)"

text \<open>The step began with this inventory, and with a sale or a foreground task that no change of the world has ended.\<close>

definition seen :: "game_inventory \<Rightarrow> game_origin \<Rightarrow> bool" where
  "seen iv x \<longleftrightarrow> fst x = Some (C_inventory, R_inventory iv) \<and> gi_container iv \<noteq> [] \<and> (so_sale (snd x) \<noteq> None \<or> so_foreground (snd x) \<noteq> None)"

fun call_ok :: "soul_env \<Rightarrow> jstr set \<Rightarrow> game_origin \<Rightarrow> game_call \<Rightarrow> soul \<Rightarrow> bool" where
  "call_ok e H x (C_chat l) s \<longleftrightarrow> \<not> is_blocked_afk_command l \<and> (sv_native e \<longrightarrow> 1 \<le> so_credits s)"
| "call_ok e H x (C_remember h) s \<longleftrightarrow> h = [] \<or> h \<in> H"
| "call_ok e H x (C_click m k c) s \<longleftrightarrow> (\<exists>iv. seen iv x \<and> gi_menu iv = m \<and> (\<exists>y \<in> set (gi_slots iv). gs_slot y = k \<and> 0 < gs_count y))"
| "call_ok e H x (C_transfer_all m) s \<longleftrightarrow> (\<exists>iv. seen iv x \<and> gi_menu iv = m)"
| "call_ok e H x (C_close m) s \<longleftrightarrow> (\<exists>iv. fst x = Some (C_inventory, R_inventory iv) \<and> gi_menu iv = m \<and> gi_container iv \<noteq> [])"
| "call_ok e H x c s \<longleftrightarrow> True"

definition allowed_call :: "soul_env \<Rightarrow> int \<Rightarrow> int \<Rightarrow> jstr set \<Rightarrow> game_origin \<Rightarrow> game_call \<Rightarrow> soul \<Rightarrow> bool" where
  "allowed_call e a b H x c s \<longleftrightarrow> kept e a b H x s \<and> call_ok e H x c s"

definition fine :: "soul_env \<Rightarrow> int \<Rightarrow> int \<Rightarrow> jstr set \<Rightarrow> (game_origin \<Rightarrow> soul \<Rightarrow> bool) \<Rightarrow> unit game_action \<Rightarrow> bool" where
  "fine e a b H P m \<longleftrightarrow> safe_action (others H b) (allowed_call e a b H) (\<lambda>t. a \<le> t \<and> t \<le> b) P (\<lambda>x _. kept e a b H x) (kept e a b H) m"

definition fine_end :: "soul_env \<Rightarrow> int \<Rightarrow> int \<Rightarrow> jstr set \<Rightarrow> game_origin \<Rightarrow> soul \<Rightarrow> game_process \<Rightarrow> bool" where
  "fine_end e a b H = safe (others H b) (allowed_call e a b H) (\<lambda>t. a \<le> t \<and> t \<le> b) (\<lambda>x _. kept e a b H x) (kept e a b H)"

subsection \<open>Rules\<close>

lemma fine_iff: "fine e a b H P m \<longleftrightarrow> (\<forall>x t s. a \<le> t \<longrightarrow> t \<le> b \<longrightarrow> P x s \<longrightarrow> fine_end e a b H x (fst (m t s)) (snd (m t s)))"
  unfolding fine_def fine_end_def safe_action_def by blast

lemma fineD: "fine e a b H P m \<Longrightarrow> a \<le> t \<Longrightarrow> t \<le> b \<Longrightarrow> P x s \<Longrightarrow> fine_end e a b H x (fst (m t s)) (snd (m t s))"
  unfolding fine_iff by blast

lemma fineI: "(\<And>x t s. a \<le> t \<Longrightarrow> t \<le> b \<Longrightarrow> P x s \<Longrightarrow> fine_end e a b H x (fst (m t s)) (snd (m t s))) \<Longrightarrow> fine e a b H P m"
  unfolding fine_iff by blast

lemma fine_weaken: "fine e a b H P m \<Longrightarrow> (\<And>x s. P' x s \<Longrightarrow> P x s) \<Longrightarrow> fine e a b H P' m"
  unfolding fine_iff by blast

lemma fine_end_Return [simp]: "fine_end e a b H x s (Return v) \<longleftrightarrow> kept e a b H x s"
  by (simp add: fine_end_def)

lemma fine_end_Throw [simp]: "fine_end e a b H x s (Throw m) \<longleftrightarrow> kept e a b H x s"
  by (simp add: fine_end_def)

lemma fine_and_then:
  "fine e a b H P m \<Longrightarrow> (\<And>v. fine e a b H (kept e a b H) (f v)) \<Longrightarrow> fine e a b H P (and_then m f)"
  unfolding fine_def by (rule safe_and_then)

lemma fine_catching:
  "fine e a b H P m \<Longrightarrow> (\<And>v. fine e a b H (kept e a b H) (h v)) \<Longrightarrow> fine e a b H P (catching m h)"
  unfolding fine_def by (rule safe_catching)

lemma kept_refl: "soul_ok H b s \<Longrightarrow> \<not> accepted_chat c \<Longrightarrow> kept e a b H (c, s) s"
  by (simp add: kept_def)

lemma others_kept: "others H b s s1 \<Longrightarrow> \<not> accepted_chat c \<Longrightarrow> kept e a b H (c, s1) s1"
  by (simp add: kept_def others_def)

lemma fine_ask:
  assumes "\<And>x s. P x s \<Longrightarrow> allowed_call e a b H x c s"
    and "\<And>r. fine e a b H (\<lambda>x s1. \<exists>x0 s. P x0 s \<and> others H b s s1 \<and> x = (Some (c, r), s1)) (k r)"
  shows "fine e a b H P (ask c k)"
  using safe_ask [OF assms(1) assms(2) [unfolded fine_def]] by (simp add: fine_def)

fun is_chat :: "game_call \<Rightarrow> bool" where
  "is_chat (C_chat _) \<longleftrightarrow> True"
| "is_chat _ \<longleftrightarrow> False"

lemma accepted_chat_iff: "accepted_chat (Some (c, r)) \<longleftrightarrow> is_chat c \<and> (\<forall>m. r \<noteq> R_error m)"
  by (cases c; cases r) simp_all

text \<open>A job may hold the right to send a command; nobody else takes it.\<close>

definition ready :: "bool \<Rightarrow> soul_env \<Rightarrow> int \<Rightarrow> int \<Rightarrow> jstr set \<Rightarrow> game_origin \<Rightarrow> soul \<Rightarrow> bool" where
  "ready q e a b H x s \<longleftrightarrow> kept e a b H x s \<and> (q \<longrightarrow> 1 \<le> so_credits s)"

lemma ready_False [simp]: "ready False e a b H x s \<longleftrightarrow> kept e a b H x s"
  by (simp add: ready_def)

lemma ready_none: "ready False e a b H = kept e a b H"
  by (intro ext) simp

lemma readyD: "ready q e a b H x s \<Longrightarrow> kept e a b H x s"
  by (simp add: ready_def)

text \<open>After the answer to any other call the contract holds again, and the origin is the answer.\<close>

lemma fine_other:
  assumes "\<And>x s. P x s \<Longrightarrow> ready q e a b H x s \<and> call_ok e H x c s" and "\<not> is_chat c"
    and "\<And>r. fine e a b H (\<lambda>x s. ready q e a b H x s \<and> x = (Some (c, r), s)) (k r)"
  shows "fine e a b H P (ask c k)"
proof (rule fine_ask)
  show "allowed_call e a b H x c s" if "P x s" for x s
    using assms(1) [OF that] by (simp add: allowed_call_def ready_def)
  show "fine e a b H (\<lambda>x s1. \<exists>x0 s. P x0 s \<and> others H b s s1 \<and> x = (Some (c, r), s1)) (k r)" for r
  proof (rule fine_weaken [OF assms(3)])
    fix x s1 assume "\<exists>x0 s. P x0 s \<and> others H b s s1 \<and> x = (Some (c, r), s1)"
    then obtain x0 s where *: "P x0 s" "others H b s s1" and x: "x = (Some (c, r), s1)" by blast
    have "kept e a b H x s1" unfolding x by (rule others_kept [OF *(2)]) (use assms(2) in \<open>simp add: accepted_chat_iff\<close>)
    moreover have "q \<longrightarrow> 1 \<le> so_credits s1" using assms(1) [OF *(1)] *(2) by (simp add: ready_def others_def)
    ultimately show "ready q e a b H x s1 \<and> x = (Some (c, r), s1)" using x by (simp add: ready_def)
  qed
qed

lemma fine_throw: "(\<And>x s. P x s \<Longrightarrow> kept e a b H x s) \<Longrightarrow> fine e a b H P (throw m)"
  by (simp add: fine_iff throw_def)

lemma fine_skip: "(\<And>x s. P x s \<Longrightarrow> kept e a b H x s) \<Longrightarrow> fine e a b H P skip"
  by (simp add: fine_iff skip_def return_def)

lemma fine_modify: "(\<And>x t s. a \<le> t \<Longrightarrow> t \<le> b \<Longrightarrow> P x s \<Longrightarrow> kept e a b H x (f t s)) \<Longrightarrow> fine e a b H P (modify f)"
  by (simp add: fine_iff modify_def)

lemma fine_call:
  assumes "\<And>x s. P x s \<Longrightarrow> ready q e a b H x s \<and> call_ok e H x c s" and "\<not> is_chat c"
    and "fine e a b H (ready q e a b H) k"
  shows "fine e a b H P (call c k)"
  unfolding call_def
  by (rule fine_other [OF assms(1,2)]) (auto intro: fine_throw fine_weaken [OF assms(3)] dest: readyD split: game_reply.split)

lemma fine_read:
  assumes "\<And>x s. P x s \<Longrightarrow> kept e a b H x s"
    and "\<And>iv. fine e a b H (\<lambda>x s. kept e a b H x s \<and> x = (Some (C_inventory, R_inventory iv), s)) (k iv)"
  shows "fine e a b H P (read_inventory k)"
  unfolding read_inventory_def
  by (rule fine_other [where q = False]) (use assms in \<open>auto intro: fine_throw split: game_reply.split\<close>)

section \<open>Everything the scheduler does soul_keeps the contract\<close>

text \<open>Most of the state does not matter.\<close>

lemma soul_ok_updates [simp]:
  "soul_ok H b (so_cfg_update f1 s) \<longleftrightarrow> soul_ok H b s"
  "soul_ok H b (so_online_update f2 s) \<longleftrightarrow> soul_ok H b s"
  "soul_ok H b (so_ready_update f3 s) \<longleftrightarrow> soul_ok H b s"
  "soul_ok H b (so_next_sell_update f4 s) \<longleftrightarrow> soul_ok H b s"
  "soul_ok H b (so_pause_start_update f5 s) \<longleftrightarrow> soul_ok H b s"
  "soul_ok H b (so_pause_end_update f6 s) \<longleftrightarrow> soul_ok H b s"
  "soul_ok H b (so_manual_until_update f7 s) \<longleftrightarrow> soul_ok H b s"
  "soul_ok H b (so_next_sneak_update f8 s) \<longleftrightarrow> soul_ok H b s"
  "soul_ok H b (so_sale_update f9 s) \<longleftrightarrow> soul_ok H b s"
  "soul_ok H b (so_foreground_update f10 s) \<longleftrightarrow> soul_ok H b s"
  "soul_ok H b (so_failure_update f11 s) \<longleftrightarrow> soul_ok H b s"
  "soul_ok H b (so_generation_update f12 s) \<longleftrightarrow> soul_ok H b s"
  "soul_ok H b (so_blocked_until_update f13 s) \<longleftrightarrow> soul_ok H b s"
  "soul_ok H b (so_last_chat_update f14 s) \<longleftrightarrow> soul_ok H b s"
  "soul_ok H b (so_queue_warned_update f15 s) \<longleftrightarrow> soul_ok H b s"
  "soul_ok H b (so_home_update f16 s) \<longleftrightarrow> soul_ok H b s"
  "soul_ok H b (so_pending_home_update f17 s) \<longleftrightarrow> soul_ok H b s"
  "soul_ok H b (so_returning_update f18 s) \<longleftrightarrow> soul_ok H b s"
  "soul_ok H b (so_home_due_update f19 s) \<longleftrightarrow> soul_ok H b s"
  "soul_ok H b (so_home_attempts_update f20 s) \<longleftrightarrow> soul_ok H b s"
  "soul_ok H b (so_home_warned_update f21 s) \<longleftrightarrow> soul_ok H b s"
  "soul_ok H b (so_gate_update f22 s) \<longleftrightarrow> soul_ok H b s"
  "soul_ok H b (so_objects_update f23 s) \<longleftrightarrow> soul_ok H b s"
  "soul_ok H b (so_out_update f24 s) \<longleftrightarrow> soul_ok H b s"
  by (simp_all add: soul_ok_def)

lemma allowance_updates [simp]:
  "allowance a (so_cfg_update f25 s) = allowance a s"
  "allowance a (so_online_update f26 s) = allowance a s"
  "allowance a (so_ready_update f27 s) = allowance a s"
  "allowance a (so_next_sell_update f28 s) = allowance a s"
  "allowance a (so_pause_start_update f29 s) = allowance a s"
  "allowance a (so_pause_end_update f30 s) = allowance a s"
  "allowance a (so_manual_until_update f31 s) = allowance a s"
  "allowance a (so_next_sneak_update f32 s) = allowance a s"
  "allowance a (so_sale_update f33 s) = allowance a s"
  "allowance a (so_foreground_update f34 s) = allowance a s"
  "allowance a (so_failure_update f35 s) = allowance a s"
  "allowance a (so_generation_update f36 s) = allowance a s"
  "allowance a (so_blocked_until_update f37 s) = allowance a s"
  "allowance a (so_last_chat_update f38 s) = allowance a s"
  "allowance a (so_queue_warned_update f39 s) = allowance a s"
  "allowance a (so_home_update f40 s) = allowance a s"
  "allowance a (so_pending_home_update f41 s) = allowance a s"
  "allowance a (so_returning_update f42 s) = allowance a s"
  "allowance a (so_home_due_update f43 s) = allowance a s"
  "allowance a (so_home_attempts_update f44 s) = allowance a s"
  "allowance a (so_home_warned_update f45 s) = allowance a s"
  "allowance a (so_gate_update f46 s) = allowance a s"
  "allowance a (so_objects_update f47 s) = allowance a s"
  "allowance a (so_out_update f48 s) = allowance a s"
  "allowance a (so_save_home_update g s) = allowance a s" "allowance a (so_checks_update h s) = allowance a s"
  by (simp_all add: allowance_def)

lemma soul_ok_helpers [simp]:
  "soul_ok H b (say_out y s) \<longleftrightarrow> soul_ok H b s" "soul_ok H b (with_sale g s) \<longleftrightarrow> soul_ok H b s" "soul_ok H b (with_task h s) \<longleftrightarrow> soul_ok H b s"
  "soul_ok H b (new_task k u v w s) \<longleftrightarrow> soul_ok H b s" "soul_ok H b (reset_tasks s) \<longleftrightarrow> soul_ok H b s"
  by (simp_all add: say_out_def with_sale_def with_task_def new_task_def reset_tasks_def)

lemma allowance_helpers [simp]:
  "allowance a (say_out y s) = allowance a s" "allowance a (with_sale g s) = allowance a s" "allowance a (with_task h s) = allowance a s"
  "allowance a (new_task k u v w s) = allowance a s" "allowance a (reset_tasks s) = allowance a s"
  by (simp_all add: say_out_def with_sale_def with_task_def new_task_def reset_tasks_def)

lemma helper_fields [simp]:
  "so_credits (say_out y s) = so_credits s" "so_credit_at (say_out y s) = so_credit_at s"
  "so_credits (with_sale g s) = so_credits s" "so_credit_at (with_sale g s) = so_credit_at s"
  "so_credits (with_task h s) = so_credits s" "so_credit_at (with_task h s) = so_credit_at s"
  "so_credits (reset_tasks s) = so_credits s" "so_credit_at (reset_tasks s) = so_credit_at s"
  "so_credits (new_task k u v w s) = so_credits s" "so_credit_at (new_task k u v w s) = so_credit_at s"
  by (simp_all add: say_out_def with_sale_def with_task_def reset_tasks_def new_task_def)

lemma kept_updates [simp]:
  "kept e a b H x (so_cfg_update f0 s) \<longleftrightarrow> kept e a b H x s"
  "kept e a b H x (so_online_update f1 s) \<longleftrightarrow> kept e a b H x s"
  "kept e a b H x (so_ready_update f2 s) \<longleftrightarrow> kept e a b H x s"
  "kept e a b H x (so_next_sell_update f3 s) \<longleftrightarrow> kept e a b H x s"
  "kept e a b H x (so_pause_start_update f4 s) \<longleftrightarrow> kept e a b H x s"
  "kept e a b H x (so_pause_end_update f5 s) \<longleftrightarrow> kept e a b H x s"
  "kept e a b H x (so_manual_until_update f6 s) \<longleftrightarrow> kept e a b H x s"
  "kept e a b H x (so_next_sneak_update f7 s) \<longleftrightarrow> kept e a b H x s"
  "kept e a b H x (so_sale_update f8 s) \<longleftrightarrow> kept e a b H x s"
  "kept e a b H x (so_foreground_update f9 s) \<longleftrightarrow> kept e a b H x s"
  "kept e a b H x (so_failure_update f10 s) \<longleftrightarrow> kept e a b H x s"
  "kept e a b H x (so_generation_update f11 s) \<longleftrightarrow> kept e a b H x s"
  "kept e a b H x (so_blocked_until_update f12 s) \<longleftrightarrow> kept e a b H x s"
  "kept e a b H x (so_last_chat_update f13 s) \<longleftrightarrow> kept e a b H x s"
  "kept e a b H x (so_queue_warned_update f14 s) \<longleftrightarrow> kept e a b H x s"
  "kept e a b H x (so_home_update f15 s) \<longleftrightarrow> kept e a b H x s"
  "kept e a b H x (so_pending_home_update f16 s) \<longleftrightarrow> kept e a b H x s"
  "kept e a b H x (so_returning_update f17 s) \<longleftrightarrow> kept e a b H x s"
  "kept e a b H x (so_home_due_update f18 s) \<longleftrightarrow> kept e a b H x s"
  "kept e a b H x (so_home_attempts_update f19 s) \<longleftrightarrow> kept e a b H x s"
  "kept e a b H x (so_home_warned_update f20 s) \<longleftrightarrow> kept e a b H x s"
  "kept e a b H x (so_gate_update f21 s) \<longleftrightarrow> kept e a b H x s"
  "kept e a b H x (so_objects_update f22 s) \<longleftrightarrow> kept e a b H x s"
  "kept e a b H x (so_out_update f23 s) \<longleftrightarrow> kept e a b H x s"
  "kept e a b H x (say_out y s) \<longleftrightarrow> kept e a b H x s"
  "kept e a b H x (with_sale g s) \<longleftrightarrow> kept e a b H x s"
  "kept e a b H x (with_task h s) \<longleftrightarrow> kept e a b H x s"
  "kept e a b H x (new_task k u v w s) \<longleftrightarrow> kept e a b H x s"
  "kept e a b H x (reset_tasks s) \<longleftrightarrow> kept e a b H x s"
  by (simp_all add: kept_def)

lemma ready_updates [simp]:
  "ready q e a b H x (so_cfg_update f0 s) \<longleftrightarrow> ready q e a b H x s"
  "ready q e a b H x (so_online_update f1 s) \<longleftrightarrow> ready q e a b H x s"
  "ready q e a b H x (so_ready_update f2 s) \<longleftrightarrow> ready q e a b H x s"
  "ready q e a b H x (so_next_sell_update f3 s) \<longleftrightarrow> ready q e a b H x s"
  "ready q e a b H x (so_pause_start_update f4 s) \<longleftrightarrow> ready q e a b H x s"
  "ready q e a b H x (so_pause_end_update f5 s) \<longleftrightarrow> ready q e a b H x s"
  "ready q e a b H x (so_manual_until_update f6 s) \<longleftrightarrow> ready q e a b H x s"
  "ready q e a b H x (so_next_sneak_update f7 s) \<longleftrightarrow> ready q e a b H x s"
  "ready q e a b H x (so_sale_update f8 s) \<longleftrightarrow> ready q e a b H x s"
  "ready q e a b H x (so_foreground_update f9 s) \<longleftrightarrow> ready q e a b H x s"
  "ready q e a b H x (so_failure_update f10 s) \<longleftrightarrow> ready q e a b H x s"
  "ready q e a b H x (so_generation_update f11 s) \<longleftrightarrow> ready q e a b H x s"
  "ready q e a b H x (so_blocked_until_update f12 s) \<longleftrightarrow> ready q e a b H x s"
  "ready q e a b H x (so_last_chat_update f13 s) \<longleftrightarrow> ready q e a b H x s"
  "ready q e a b H x (so_queue_warned_update f14 s) \<longleftrightarrow> ready q e a b H x s"
  "ready q e a b H x (so_home_update f15 s) \<longleftrightarrow> ready q e a b H x s"
  "ready q e a b H x (so_pending_home_update f16 s) \<longleftrightarrow> ready q e a b H x s"
  "ready q e a b H x (so_returning_update f17 s) \<longleftrightarrow> ready q e a b H x s"
  "ready q e a b H x (so_home_due_update f18 s) \<longleftrightarrow> ready q e a b H x s"
  "ready q e a b H x (so_home_attempts_update f19 s) \<longleftrightarrow> ready q e a b H x s"
  "ready q e a b H x (so_home_warned_update f20 s) \<longleftrightarrow> ready q e a b H x s"
  "ready q e a b H x (so_gate_update f21 s) \<longleftrightarrow> ready q e a b H x s"
  "ready q e a b H x (so_objects_update f22 s) \<longleftrightarrow> ready q e a b H x s"
  "ready q e a b H x (so_out_update f23 s) \<longleftrightarrow> ready q e a b H x s"
  "ready q e a b H x (say_out y s) \<longleftrightarrow> ready q e a b H x s"
  "ready q e a b H x (with_sale g s) \<longleftrightarrow> ready q e a b H x s"
  "ready q e a b H x (with_task h s) \<longleftrightarrow> ready q e a b H x s"
  "ready q e a b H x (new_task k u v w s) \<longleftrightarrow> ready q e a b H x s"
  "ready q e a b H x (reset_tasks s) \<longleftrightarrow> ready q e a b H x s"
  by (simp_all add: ready_def)

lemma kept_same: "kept e a b H x s \<Longrightarrow> (soul_ok H b s \<Longrightarrow> soul_ok H b s1) \<Longrightarrow> allowance a s1 \<le> allowance a s \<Longrightarrow> kept e a b H x s1"
  by (auto simp: kept_def)

lemma kept_soul_ok: "kept e a b H x s \<Longrightarrow> soul_ok H b s"
  by (simp add: kept_def)

lemma kept_calm: "kept e a b H x s \<Longrightarrow> soul_ok H b s1 \<and> allowance a s1 \<le> allowance a s \<Longrightarrow> kept e a b H x s1"
  by (auto simp: kept_def)

lemma fine_after:
  assumes "fine e a b H Q m" and "\<And>x t s. a \<le> t \<Longrightarrow> t \<le> b \<Longrightarrow> P x s \<Longrightarrow> Q x (f t s)"
  shows "fine e a b H P (\<lambda>t s. m t (f t s))"
  by (rule fineI) (rule fineD [OF assms(1) _ _ assms(2)])

lemma fine_update: "fine e a b H P m \<Longrightarrow> (\<And>t s. soul_ok H b s \<Longrightarrow> a \<le> t \<Longrightarrow> t \<le> b \<Longrightarrow> soul_ok H b (f t s) \<and> allowance a (f t s) \<le> allowance a s)
    \<Longrightarrow> (\<And>x s. Q x s \<Longrightarrow> kept e a b H x s) \<Longrightarrow> (\<And>x s. kept e a b H x s \<Longrightarrow> P x s) \<Longrightarrow> fine e a b H Q (\<lambda>t s. m t (f t s))"
  by (rule fine_after) (assumption, blast intro: kept_calm dest: kept_soul_ok)

lemma fine_end_skip [simp]: "fine_end e a b H x (fst (skip t s)) (snd (skip t s)) \<longleftrightarrow> kept e a b H x s"
  by (simp add: skip_def return_def)

lemma fine_end_throw [simp]: "fine_end e a b H x (fst (throw m t s)) (snd (throw m t s)) \<longleftrightarrow> kept e a b H x s"
  by (simp add: throw_def)

lemma fine_keep:
  "(\<And>t s. soul_ok H b s \<Longrightarrow> a \<le> t \<Longrightarrow> t \<le> b \<Longrightarrow> soul_ok H b (f t s) \<and> allowance a (f t s) \<le> allowance a s)
    \<Longrightarrow> fine e a b H (kept e a b H) (modify f)"
  by (rule fine_modify) (blast intro: kept_calm dest: kept_soul_ok)

subsection \<open>Menus\<close>

lemma fine_close_owned: "fine e a b H (kept e a b H) (close_owned menu)"
  unfolding close_owned_def
proof (rule fine_read)
  fix iv
  let ?P = "\<lambda>x s. kept e a b H x s \<and> x = (Some (C_inventory, R_inventory iv), s)"
  have "fine e a b H ?P (call (C_close menu) skip)" if "gi_menu iv = menu" "gi_container iv \<noteq> []"
    by (rule fine_call [where q = False]) (use that in \<open>auto intro: fine_skip\<close>)
  moreover have "fine e a b H ?P skip" by (rule fine_skip) simp
  ultimately show "fine e a b H ?P (if gi_menu iv = menu \<and> gi_container iv \<noteq> [] then call (C_close menu) skip else skip)"
    by simp
qed

lemma fine_cancel_sell: "fine e a b H (kept e a b H) cancel_sell"
proof (rule fineI)
  fix x t s assume t: "a \<le> t" "t \<le> b" and k: "kept e a b H x s"
  have k1: "kept e a b H x (s\<lparr>so_sale := None\<rparr>)" by (rule kept_same [OF k]) simp_all
  show "fine_end e a b H x (fst (cancel_sell t s)) (snd (cancel_sell t s))"
    using k1 fineD [OF fine_close_owned t k1] by (simp add: cancel_sell_def split: option.split)
qed

lemma fine_fail_sell: "fine e a b H (kept e a b H) (fail_sell reason)"
  unfolding fail_sell_def
  by (rule fine_and_then [OF fine_cancel_sell], rule fine_keep) (simp add: Let_def)

subsection \<open>Commands\<close>

lemma fill_credits_ok:
  "soul_ok H b s \<Longrightarrow> 0 < a \<Longrightarrow> a \<le> t \<Longrightarrow> t \<le> b \<Longrightarrow> soul_ok H b (fill_credits t s) \<and> allowance a (fill_credits t s) \<le> allowance a s"
  by (auto simp: soul_ok_def allowance_def fill_credits_def Let_def min_def split: option.splits)

lemma fine_dispatch:
  assumes q: "sv_native e \<or> \<not> automatic \<Longrightarrow> q" and native: "automatic \<Longrightarrow> \<not> sv_native e"
  shows "fine e a b H (ready q e a b H) (dispatch line automatic)"
proof (rule fineI)
  fix x t s assume t: "a \<le> t" "t \<le> b" and p: "ready q e a b H x s"
  let ?k = "modify (\<lambda>_ s. if automatic then s else s\<lparr>so_credits := so_credits s - 1\<rparr>) :: unit game_action"
  have "fine e a b H (ready q e a b H) (call (C_chat line) ?k)" if free: "\<not> is_blocked_afk_command line"
    unfolding call_def
  proof (rule fine_ask)
    show "allowed_call e a b H x (C_chat line) s" if "ready q e a b H x s" for x s
      using that free q by (auto simp: allowed_call_def ready_def)
    fix r :: game_reply
    let ?P = "\<lambda>x s1. \<exists>x0 s. ready q e a b H x0 s \<and> others H b s s1 \<and> x = (Some (C_chat line, r), s1)"
    have sent: "fine e a b H ?P ?k"
    proof (rule fine_modify)
      fix x t s1 assume "?P x s1"
      then obtain x0 s where "ready q e a b H x0 s" "others H b s s1" and x: "x = (Some (C_chat line, r), s1)" by blast
      then have "soul_ok H b s1" "q \<longrightarrow> 1 \<le> so_credits s1" by (auto simp: ready_def others_def)
      then show "kept e a b H x (if automatic then s1 else s1\<lparr>so_credits := so_credits s1 - 1\<rparr>)"
        using native q unfolding x by (auto simp: kept_def soul_ok_def allowance_def)
    qed
    have "fine e a b H ?P (throw m)" if "r = R_error m" for m
      by (rule fine_throw) (use that in \<open>auto intro: others_kept\<close>)
    with sent show "fine e a b H ?P (case r of R_error m \<Rightarrow> throw m | _ \<Rightarrow> ?k)" by (cases r) simp_all
  qed
  from fineD [OF this t p] p show "fine_end e a b H x (fst (dispatch line automatic t s)) (snd (dispatch line automatic t s))"
    by (auto simp: dispatch_def dest: readyD)
qed

lemma ready_keep: "ready q e a b H x s \<Longrightarrow> soul_ok H b s1 \<and> allowance a s1 \<le> allowance a s \<and> so_credits s1 = so_credits s \<Longrightarrow> ready q e a b H x s1"
  by (auto simp: ready_def intro: kept_calm)

lemma fine_read_multipliers_order: "fine e a b H (ready True e a b H) (read_multipliers_order g previous)"
  unfolding read_multipliers_order_def
  by (rule fine_and_then [OF fine_dispatch fine_keep]) simp_all

lemma fine_clean_spawner_order: "fine e a b H (ready True e a b H) (clean_spawner_order g previous)"
proof (rule fineI)
  fix x t s assume t: "a \<le> t" "t \<le> b" and p: "ready True e a b H x s"
  have "fine e a b H (ready True e a b H) (ask (C_open_spawner c) (\<lambda>r. case r of
         R_error m \<Rightarrow> throw m
       | R_opened True \<Rightarrow> modify (\<lambda>t s. if so_generation s \<noteq> g then s else new_task Spawner_task (t + 60000) (t + 400) previous s)
       | _ \<Rightarrow> modify (\<lambda>_. say_out (Soul_warning (js ''CleanSpawner: kein erreichbarer Spawner gefunden'')))))" for c
    by (rule fine_other [where q = False])
      (auto intro!: fine_throw fine_modify dest: readyD split: game_reply.split bool.split)
  from fineD [OF this t p] show "fine_end e a b H x (fst (clean_spawner_order g previous t s)) (snd (clean_spawner_order g previous t s))"
    by (simp add: clean_spawner_order_def)
qed

lemma schedule_sneak_ok: "soul_ok H b s \<Longrightarrow> soul_ok H b (schedule_sneak t s)"
  by (auto simp: soul_ok_def schedule_sneak_def Let_def)

lemma schedule_sneak_fields [simp]:
  "allowance a (schedule_sneak t s) = allowance a s" "so_credits (schedule_sneak t s) = so_credits s"
  "so_credit_at (schedule_sneak t s) = so_credit_at s"
  by (simp_all add: allowance_def schedule_sneak_def Let_def)

lemma note_pending_home_ok [simp]:
  "soul_ok H b (note_pending_home e l t s) \<longleftrightarrow> soul_ok H b s" "allowance a (note_pending_home e l t s) = allowance a s"
  "so_credits (note_pending_home e l t s) = so_credits s"
  by (simp_all add: note_pending_home_def split: option.split)

lemma forget_home: "ready q e a b H x s \<Longrightarrow> ready q e a b H x (s\<lparr>so_home := [], so_save_home := Some []\<rparr>)"
  by (simp add: ready_def kept_def soul_ok_def)

lemma fine_leave_home:
  assumes "fine e a b H (ready True e a b H) k"
  shows "fine e a b H (ready True e a b H) (leave_home l k)"
proof (rule fineI)
  fix x t s assume t: "a \<le> t" "t \<le> b" and p: "ready True e a b H x s"
  from p have p1: "ready True e a b H x (s\<lparr>so_returning := False\<rparr>)" by simp
  have "fine e a b H (ready True e a b H) (\<lambda>t s. k t (if given (re_group home_command_re 1 l) then s else s\<lparr>so_home := [], so_save_home := Some []\<rparr>))"
    by (rule fine_after [OF assms]) (simp add: forget_home)
  then have "fine e a b H (ready True e a b H) (call (C_recovering False)
             (\<lambda>t s. k t (if given (re_group home_command_re 1 l) then s else s\<lparr>so_home := [], so_save_home := Some []\<rparr>)))"
    by (rule fine_call [rotated 2]) simp_all
  from fineD [OF this t p1] fineD [OF assms t p]
  show "fine_end e a b H x (fst (leave_home l k t s)) (snd (leave_home l k t s))" by (simp add: leave_home_def)
qed

lemma fine_chat_order: "fine e a b H (ready True e a b H) (chat_order e l)"
  unfolding chat_order_def
proof (rule fine_after [OF fine_leave_home])
  show "ready True e a b H x (note_pending_home e l t s)" if "ready True e a b H x s" for x t s
    by (rule ready_keep [OF that]) (use that in \<open>simp add: ready_def kept_def\<close>)
qed (rule fine_and_then [OF fine_dispatch fine_keep]; simp add: Let_def schedule_sneak_ok)

lemma fine_order_body: "fine e a b H (ready True e a b H) (order_body e c g previous)"
  unfolding order_body_def
proof (rule fine_after)
  show "fine e a b H (ready True e a b H) (if fst c = js ''read_sell_multipliers'' then read_multipliers_order g previous
             else if fst c = js ''clean_spawner'' then clean_spawner_order g previous
             else if given (snd c) then chat_order e (the (snd c)) else skip)"
    by (auto intro: fine_read_multipliers_order fine_clean_spawner_order fine_chat_order fine_skip readyD)
qed simp

lemma fine_run_order: "fine e a b H (ready True e a b H) (run_order e c)"
  unfolding run_order_def Let_def
proof (rule fine_call)
  let ?k = "\<lambda>g. ask C_inventory (\<lambda>r. case r of
         R_inventory iv \<Rightarrow> if gi_container iv \<noteq> [] then call (C_close (gi_menu iv)) (order_body e c g (gi_menu iv)) else order_body e c g (gi_menu iv)
       | R_error m \<Rightarrow> if sv_native e \<and> fst c = chat_word then order_body e c g [] else throw m
       | _ \<Rightarrow> throw [])"
  have k: "fine e a b H (ready True e a b H) (?k g)" for g
  proof (rule fine_other)
    fix r
    let ?P = "\<lambda>x s. ready True e a b H x s \<and> x = (Some (C_inventory, r), s)"
    have body: "fine e a b H ?P (order_body e c g previous)" for previous
      by (rule fine_weaken [OF fine_order_body]) simp
    have bad: "fine e a b H ?P (throw m)" for m by (rule fine_throw) (simp add: readyD)
    have "fine e a b H ?P (call (C_close (gi_menu iv)) (order_body e c g previous))"
      if "r = R_inventory iv" "gi_container iv \<noteq> []" for iv previous
      by (rule fine_call [OF _ _ fine_order_body]) (use that in auto)
    with body bad show "fine e a b H ?P (case r of
         R_inventory iv \<Rightarrow> if gi_container iv \<noteq> [] then call (C_close (gi_menu iv)) (order_body e c g (gi_menu iv)) else order_body e c g (gi_menu iv)
       | R_error m \<Rightarrow> if sv_native e \<and> fst c = chat_word then order_body e c g [] else throw m
       | _ \<Rightarrow> throw [])" by (cases r) auto
  qed simp_all
  show "fine e a b H (ready True e a b H) (\<lambda>t s. ?k (so_generation s) t (s\<lparr>so_sale := None, so_foreground := None\<rparr>))"
    by (rule fineI) (simp add: fineD [OF k])
qed simp_all

subsection \<open>Sales\<close>

lemma fine_start_sale:
  assumes native: "\<not> sv_native e"
  shows "fine e a b H (kept e a b H) (start_sale t0 g)"
proof (rule fineI)
  fix x t s assume t: "a \<le> t" "t \<le> b" and k: "kept e a b H x s"
  have sell: "fine e a b H (kept e a b H) (dispatch line True)" for line
    using fine_dispatch [where q = False and automatic = True, unfolded ready_none] native by blast
  have failed: "fine e a b H (kept e a b H) (\<lambda>t s. throw m t (if sale_is i s then s\<lparr>so_sale := None, so_next_sell := of_int (t + 5000)\<rparr> else s))" for i m
    by (rule fine_after [where Q = "kept e a b H"]) (auto intro: fine_throw)
  have "fine e a b H (kept e a b H) (and_then
           (catching (dispatch line True)
              (\<lambda>m t s. throw m t (if sale_is i s then s\<lparr>so_sale := None, so_next_sell := of_int (t + 5000)\<rparr> else s)))
           (\<lambda>_. modify (\<lambda>t s. if \<not> sale_is i s \<or> so_generation s \<noteq> g then s
              else (with_sale (\<lambda>sale. sale\<lparr>sl_requested := t\<rparr>) s)\<lparr>so_next_sell := of_int t0
                     + max 250 ((case sc_interval (so_cfg s) of None \<Rightarrow> 60 | Some k \<Rightarrow> k) * 1000)\<rparr>)))" for line i
    by (rule fine_and_then [OF fine_catching [OF sell failed] fine_keep]) simp
  from fineD [OF this t] k show "fine_end e a b H x (fst (start_sale t0 g t s)) (snd (start_sale t0 g t s))"
    by (simp add: start_sale_def Let_def)
qed

text \<open>In a menu the origin of the step is the inventory.\<close>

definition looking :: "game_inventory \<Rightarrow> soul_env \<Rightarrow> int \<Rightarrow> int \<Rightarrow> jstr set \<Rightarrow> game_origin \<Rightarrow> soul \<Rightarrow> bool" where
  "looking iv e a b H x s \<longleftrightarrow> kept e a b H x s \<and> seen iv x"

lemma lookingD: "looking iv e a b H x s \<Longrightarrow> kept e a b H x s"
  by (simp add: looking_def)

lemma looking_same: "looking iv e a b H x s \<Longrightarrow> kept e a b H x s1 \<Longrightarrow> looking iv e a b H x s1"
  by (simp add: looking_def)

lemma looking_updates [simp]:
  "looking iv e a b H x (so_sale_update f s) = looking iv e a b H x s" "looking iv e a b H x (so_foreground_update g s) = looking iv e a b H x s"
  "looking iv e a b H x (with_sale h s) = looking iv e a b H x s" "looking iv e a b H x (with_task k s) = looking iv e a b H x s"
  by (simp_all add: looking_def)

lemma fine_send_transfer:
  assumes "\<And>x s. seen iv x \<Longrightarrow> call_ok e H x c s" and "\<not> is_chat c"
  shows "fine e a b H (looking iv e a b H) (send_transfer c slots i)"
  unfolding send_transfer_def
proof (rule fine_after [where Q = "looking iv e a b H"])
  let ?bad = "\<lambda>t s. if sale_is i s \<and> \<not> (case Option.bind (so_sale s) sl_pending of None \<Rightarrow> False | Some p \<Rightarrow> tr_confirmed p)
             then fail_sell (js ''Item-Transfer wurde abgelehnt'') t s else skip t s"
  let ?good = "modify (\<lambda>t s. if sale_is i s then with_sale (\<lambda>x. x\<lparr>sl_pending := map_option (\<lambda>p. p\<lparr>tr_at := t\<rparr>) (sl_pending x)\<rparr>) s else s)
                 :: unit game_action"
  have bad: "fine e a b H (kept e a b H) ?bad"
    by (rule fineI) (simp add: fineD [OF fine_fail_sell])
  have good: "fine e a b H (kept e a b H) ?good" by (rule fine_keep) simp
  show "fine e a b H (looking iv e a b H) (ask c (\<lambda>r. case r of R_error _ \<Rightarrow> ?bad | _ \<Rightarrow> ?good))"
  proof (rule fine_other [where q = False])
    show "ready False e a b H x s \<and> call_ok e H x c s" if "looking iv e a b H x s" for x s
      using that assms(1) by (simp add: looking_def)
    show "fine e a b H (\<lambda>x s. ready False e a b H x s \<and> x = (Some (c, r), s)) (case r of R_error _ \<Rightarrow> ?bad | _ \<Rightarrow> ?good)" for r
      by (rule fine_weaken [where P = "kept e a b H"]) (use bad good in \<open>auto split: game_reply.split\<close>)
  qed (rule assms(2))
qed simp

lemma found_slot: "find (\<lambda>x. gs_slot x = k \<and> 0 < gs_count x) xs = Some y \<Longrightarrow> y \<in> set xs \<and> 0 < gs_count y"
  by (auto simp: find_Some_iff)

lemma fine_cancel_looking: "fine e a b H (looking iv e a b H) cancel_sell"
  by (rule fine_weaken [OF fine_cancel_sell]) (rule lookingD)

lemma fine_fail_looking: "fine e a b H (looking iv e a b H) (fail_sell reason)"
  by (rule fine_weaken [OF fine_fail_sell]) (rule lookingD)

lemma fine_sell_stock: "fine e a b H (looking iv e a b H) (sell_stock e iv i targets)"
proof (rule fineI)
  fix x t s assume t: "a \<le> t" "t \<le> b" and k: "looking iv e a b H x s"
  have all: "fine e a b H (looking iv e a b H) (send_transfer (C_transfer_all (gi_menu iv)) slots i)" for slots
    by (rule fine_send_transfer) auto
  have one: "fine e a b H (looking iv e a b H) (send_transfer (C_click (gi_menu iv) (gs_slot y) Transfer) slots i)"
    if "find (\<lambda>x. gs_slot x = n \<and> 0 < gs_count x) (gi_slots iv) = Some y" for n y slots
    by (rule fine_send_transfer) (use found_slot [OF that] in auto)
  show "fine_end e a b H x (fst (sell_stock e iv i targets t s)) (snd (sell_stock e iv i targets t s))"
    using k by (auto simp: sell_stock_def Let_def fineD [OF fine_cancel_looking t] fineD [OF all t] lookingD
      intro: fineD [OF one t] split: list.split option.split)
qed

lemma fine_sell_in_menu: "fine e a b H (looking iv e a b H) (sell_in_menu e iv sale opened)"
proof (rule fineI)
  fix x t s assume t: "a \<le> t" "t \<le> b" and k: "looking iv e a b H x s"
  show "fine_end e a b H x (fst (sell_in_menu e iv sale opened t s)) (snd (sell_in_menu e iv sale opened t s))"
    using k by (auto simp: sell_in_menu_def Let_def fineD [OF fine_sell_stock t] fineD [OF fine_fail_looking t] lookingD split: option.split)
qed

lemma fine_continue_sale:
  "fine e a b H (\<lambda>x s. kept e a b H x s \<and> x = (Some (C_inventory, R_inventory iv), s) \<and> so_sale s \<noteq> None) (continue_sale e iv sale)"
proof (rule fineI)
  fix x t s assume t: "a \<le> t" "t \<le> b" and k: "kept e a b H x s \<and> x = (Some (C_inventory, R_inventory iv), s) \<and> so_sale s \<noteq> None"
  then have kept: "kept e a b H x s" by blast
  have look: "looking iv e a b H x s" if "gi_container iv \<noteq> []" using k that by (auto simp: looking_def seen_def)
  show "fine_end e a b H x (fst (continue_sale e iv sale t s)) (snd (continue_sale e iv sale t s))"
    using kept look by (auto simp: continue_sale_def Let_def fineD [OF fine_sell_in_menu t] fineD [OF fine_fail_sell t])
qed

lemma fine_tick_game_sale:
  assumes native: "\<not> sv_native e"
  shows "fine e a b H (kept e a b H) (tick_game_sale e t0)"
proof (rule fineI)
  fix x t s assume t: "a \<le> t" "t \<le> b" and k: "kept e a b H x s"
  have close: "fine e a b H (\<lambda>x s. kept e a b H x s \<and> x = (Some (C_inventory, R_inventory iv), s))
      (call (C_close (gi_menu iv)) (modify (\<lambda>_ s. s\<lparr>so_next_sell := of_int (u + 500)\<rparr>)))" if "gi_container iv \<noteq> []" for iv u
    by (rule fine_call [where q = False]) (use that in \<open>auto intro: fine_modify\<close>)
  have "fine e a b H (kept e a b H) (read_inventory (\<lambda>iv t s.
        if so_generation s \<noteq> g then skip t s
        else case so_sale s of
            Some sale \<Rightarrow> continue_sale e iv sale t s
          | None \<Rightarrow>
              if gi_container iv \<noteq> []
              then (if is_sell_title e (gi_title iv)
                    then call (C_close (gi_menu iv)) (modify (\<lambda>_ s. s\<lparr>so_next_sell := of_int (t + 500)\<rparr>)) t s else skip t s)
              else if of_int t < so_next_sell s then skip t s
              else start_sale t g t s))" for g
  proof (rule fine_read, assumption, rule fineI)
    fix iv x t s
    assume t: "a \<le> t" "t \<le> b" and p: "kept e a b H x s \<and> x = (Some (C_inventory, R_inventory iv), s)"
    then show "fine_end e a b H x (fst (if so_generation s \<noteq> g then skip t s
        else case so_sale s of
            Some sale \<Rightarrow> continue_sale e iv sale t s
          | None \<Rightarrow>
              if gi_container iv \<noteq> []
              then (if is_sell_title e (gi_title iv)
                    then call (C_close (gi_menu iv)) (modify (\<lambda>_ s. s\<lparr>so_next_sell := of_int (t + 500)\<rparr>)) t s else skip t s)
              else if of_int t < so_next_sell s then skip t s
              else start_sale t g t s)) (snd (if so_generation s \<noteq> g then skip t s
        else case so_sale s of
            Some sale \<Rightarrow> continue_sale e iv sale t s
          | None \<Rightarrow>
              if gi_container iv \<noteq> []
              then (if is_sell_title e (gi_title iv)
                    then call (C_close (gi_menu iv)) (modify (\<lambda>_ s. s\<lparr>so_next_sell := of_int (t + 500)\<rparr>)) t s else skip t s)
              else if of_int t < so_next_sell s then skip t s
              else start_sale t g t s))"
      using fineD [OF fine_continue_sale t] fineD [OF close t] fineD [OF fine_start_sale [OF native] t]
      by (cases "so_sale s") auto
  qed
  from fineD [OF this t k] k show "fine_end e a b H x (fst (tick_game_sale e t0 t s)) (snd (tick_game_sale e t0 t s))"
    by (simp add: tick_game_sale_def Let_def)
qed

subsection \<open>Foreground tasks\<close>

lemma fine_end_task: "fine e a b H (kept e a b H) (end_task y)"
  unfolding end_task_def by (rule fine_keep) simp

lemma fine_after_click: "fine e a b H (kept e a b H) (after_click i)"
  unfolding after_click_def by (rule fine_keep) simp

lemma fine_close_then:
  assumes "gi_container iv \<noteq> []"
  shows "fine e a b H (looking iv e a b H) (call (C_close (gi_menu iv)) (end_task y))"
  by (rule fine_call [where q = False]) (use assms in \<open>auto simp: looking_def seen_def ready_none intro: fine_end_task\<close>)

lemma fine_tick_multiplier_task: "gi_container iv \<noteq> [] \<Longrightarrow> fine e a b H (looking iv e a b H) (tick_multiplier_task e iv)"
  by (auto simp: tick_multiplier_task_def Let_def intro: fine_close_then fine_skip lookingD)

lemma fine_click_then:
  assumes "y \<in> set (gi_slots iv)" and "0 < gs_count y"
  shows "fine e a b H (looking iv e a b H) (call (C_click (gi_menu iv) (gs_slot y) c) (after_click i))"
proof (rule fine_call [where q = False])
  show "ready False e a b H x s \<and> call_ok e H x (C_click (gi_menu iv) (gs_slot y) c) s" if "looking iv e a b H x s" for x s
    using that assms by (auto simp: looking_def)
qed (simp_all add: ready_none fine_after_click)

lemma menu_stockD: "y \<in> set (menu_stock iv) \<Longrightarrow> y \<in> set (gi_slots iv) \<and> 0 < gs_count y"
  by (simp add: menu_stock_def)

lemma eligible_in: "y \<in> set (eligible_slots c (matching_slots c ph xs)) \<Longrightarrow> y \<in> set xs"
  by (auto simp: eligible_slots_def matching_slots_def split: if_splits)

lemma next_eligible:
  "\<not> phase_finished c iv xs (matching_slots c ph xs) \<Longrightarrow> hd (eligible_slots c (matching_slots c ph xs)) \<in> set xs"
proof -
  assume "\<not> phase_finished c iv xs (matching_slots c ph xs)"
  then have "eligible_slots c (matching_slots c ph xs) \<noteq> []"
    by (auto simp: phase_finished_def eligible_slots_def split: if_splits)
  then have "hd (eligible_slots c (matching_slots c ph xs)) \<in> set (eligible_slots c (matching_slots c ph xs))" by (rule hd_in_set)
  then show ?thesis by (rule eligible_in)
qed

lemma sell_button_in: "sell_button e c xs = Some y \<Longrightarrow> y \<in> set xs"
  by (auto simp: sell_button_def find_Some_iff)

lemma fine_clear_spawner:
  assumes "gi_container iv \<noteq> []"
  shows "fine e a b H (looking iv e a b H) (clear_spawner e iv task (menu_stock iv))"
proof (rule fineI)
  fix x t s assume t: "a \<le> t" "t \<le> b" and k: "looking iv e a b H x s"
  have click: "fine_end e a b H x (fst (call (C_click (gi_menu iv) (gs_slot y) c) (after_click i) t s1))
      (snd (call (C_click (gi_menu iv) (gs_slot y) c) (after_click i) t s1))"
    if "y \<in> set (menu_stock iv)" "looking iv e a b H x s1" for y c i s1
    using fineD [OF fine_click_then t that(2)] menu_stockD [OF that(1)] by blast
  show "fine_end e a b H x (fst (clear_spawner e iv task (menu_stock iv) t s)) (snd (clear_spawner e iv task (menu_stock iv) t s))"
    using k lookingD [OF k] by (auto simp: clear_spawner_def Let_def fineD [OF fine_close_then [OF assms] t] fineD [OF fine_after_click t]
      intro!: click next_eligible dest!: sell_button_in split: option.split)
qed

lemma fine_tick_spawner_task:
  assumes "gi_container iv \<noteq> []"
  shows "fine e a b H (looking iv e a b H) (tick_spawner_task e iv task)"
proof (rule fineI)
  fix x t s assume t: "a \<le> t" "t \<le> b" and k: "looking iv e a b H x s"
  have give_up: "fine e a b H (kept e a b H) (and_then (close_owned (gi_menu iv)) (\<lambda>_. end_task y))" for y
    by (rule fine_and_then [OF fine_close_owned fine_end_task])
  show "fine_end e a b H x (fst (tick_spawner_task e iv task t s)) (snd (tick_spawner_task e iv task t s))"
    using k lookingD [OF k]
    by (auto simp: tick_spawner_task_def Let_def fineD [OF fine_clear_spawner [OF assms] t] fineD [OF give_up t] split: option.split)
qed

lemma fine_continue_task:
  "fine e a b H (\<lambda>x s. kept e a b H x s \<and> x = (Some (C_inventory, R_inventory iv), s) \<and> so_foreground s \<noteq> None) (continue_task e iv task)"
proof (rule fineI)
  fix x t s assume t: "a \<le> t" "t \<le> b"
    and k: "kept e a b H x s \<and> x = (Some (C_inventory, R_inventory iv), s) \<and> so_foreground s \<noteq> None"
  then have kept: "kept e a b H x s" by blast
  have look: "looking iv e a b H x s" if "gi_container iv \<noteq> []" using k that by (auto simp: looking_def seen_def)
  have work: "fine e a b H (looking iv e a b H) (work_in_menu e iv f)" if "gi_container iv \<noteq> []" for f
    using fine_tick_multiplier_task fine_tick_spawner_task that by (simp add: work_in_menu_def split: kind.split)
  have give_up: "fine e a b H (kept e a b H) (and_then (close_owned m) (\<lambda>_. end_task y))" for m y
    by (rule fine_and_then [OF fine_close_owned fine_end_task])
  show "fine_end e a b H x (fst (continue_task e iv task t s)) (snd (continue_task e iv task t s))"
    using kept look by (auto simp: continue_task_def fineD [OF work t] fineD [OF give_up t] fineD [OF fine_end_task t])
qed

lemma fine_tick_foreground: "fine e a b H (kept e a b H) (tick_foreground e t0 task)"
proof -
  have "fine e a b H (kept e a b H) (read_inventory (\<lambda>iv t s. case so_foreground s of
          None \<Rightarrow> skip t s
        | Some cur \<Rightarrow> if fg_id cur = fg_id task then continue_task e iv cur t s else skip t s))"
  proof (rule fine_read, assumption, rule fineI)
    fix iv x t s
    assume t: "a \<le> t" "t \<le> b" and p: "kept e a b H x s \<and> x = (Some (C_inventory, R_inventory iv), s)"
    then show "fine_end e a b H x
        (fst (case so_foreground s of None \<Rightarrow> skip t s | Some cur \<Rightarrow> if fg_id cur = fg_id task then continue_task e iv cur t s else skip t s))
        (snd (case so_foreground s of None \<Rightarrow> skip t s | Some cur \<Rightarrow> if fg_id cur = fg_id task then continue_task e iv cur t s else skip t s))"
      using fineD [OF fine_continue_task t] by (cases "so_foreground s") auto
  qed
  then show ?thesis by (auto simp: tick_foreground_def intro: fine_skip)
qed

subsection \<open>The tick\<close>

lemma due_sneaks_ok: "length cs \<le> 64 \<Longrightarrow> soul_ok H b s \<Longrightarrow> soul_ok H b (due_sneaks t cs s)"
  by (induction cs arbitrary: s) (simp_all add: soul_ok_def check_sneak_def)

lemma due_sneaks_allowance [simp]: "allowance a (due_sneaks t cs s) = allowance a s"
  by (induction cs arbitrary: s) (simp_all add: check_sneak_def)

lemma fine_tick_sneak:
  assumes "fine e a b H (kept e a b H) k"
  shows "fine e a b H (kept e a b H) (tick_sneak t0 k)"
proof (rule fineI)
  fix x t s assume t: "a \<le> t" "t \<le> b" and p: "kept e a b H x s"
  have k1: "kept e a b H x (due_sneaks t0 (so_checks s) s)"
    using due_sneaks_ok [OF _ kept_soul_ok [OF p]] kept_soul_ok [OF p] by (intro kept_calm [OF p]) (simp add: soul_ok_def)
  have "fine e a b H (kept e a b H) (ask C_sneak (\<lambda>r t s. k t (s\<lparr>so_next_sneak := t0 + (case r of R_error _ \<Rightarrow> 1000 | _ \<Rightarrow> 1800000)\<rparr>)))"
    by (rule fine_other [where q = False]) (auto intro: fine_after [OF assms])
  from fineD [OF this t k1] fineD [OF assms t k1]
  show "fine_end e a b H x (fst (tick_sneak t0 k t s)) (snd (tick_sneak t0 k t s))" by (simp add: tick_sneak_def Let_def)
qed

lemma fewer_commands: "kept e a b H x s \<Longrightarrow> length cs \<le> 32 \<Longrightarrow> kept e a b H x (s\<lparr>so_commands := cs\<rparr>)"
  by (rule kept_calm) (auto simp: kept_def soul_ok_def allowance_def)

lemma filled:
  "kept e a b H x s \<Longrightarrow> 0 < a \<Longrightarrow> a \<le> t \<Longrightarrow> t \<le> b \<Longrightarrow> kept e a b H x (fill_credits t s)"
  using fill_credits_ok [OF kept_soul_ok] by (blast intro: kept_calm)

lemma credit_readyD: "credit_ready s \<Longrightarrow> kept e a b H x s \<Longrightarrow> ready True e a b H x s"
  by (simp add: credit_ready_def ready_def)

lemma fill_credits_commands [simp]: "so_commands (fill_credits t s) = so_commands s"
  by (simp add: fill_credits_def Let_def)

lemma fine_tick_order:
  assumes a: "0 < a" and t0: "a \<le> t0" "t0 \<le> b"
  shows "fine e a b H (\<lambda>x s. kept e a b H x s \<and> so_commands s = c # cs) (tick_order e t0 c cs)"
proof (rule fineI)
  fix x t s assume t: "a \<le> t" "t \<le> b" and p: "kept e a b H x s \<and> so_commands s = c # cs"
  then have k: "kept e a b H x (fill_credits t0 s)" using filled a t0 by blast
  moreover have "length cs \<le> 32" using p by (auto simp: kept_def soul_ok_def)
  ultimately have k1: "kept e a b H x (fill_credits t0 s\<lparr>so_commands := cs\<rparr>)" by (rule fewer_commands)
  have "fine e a b H (ready True e a b H) (catching (run_order e c) (\<lambda>m. modify (\<lambda>_. say_out (Soul_warning (order_failure c m)))))"
    by (rule fine_catching [OF fine_run_order fine_keep]) simp
  from fineD [OF this t] k k1 show "fine_end e a b H x (fst (tick_order e t0 c cs t s)) (snd (tick_order e t0 c cs t s))"
    by (simp add: tick_order_def Let_def ready_def credit_ready_def)
qed

lemma fine_return_home:
  assumes a: "0 < a" and t0: "a \<le> t0" "t0 \<le> b"
  shows "fine e a b H (kept e a b H) (return_home t0)"
proof (rule fineI)
  fix x t s assume t: "a \<le> t" "t \<le> b" and p: "kept e a b H x s"
  then have k: "kept e a b H x (fill_credits t0 s)" using filled a t0 by blast
  have "fine e a b H (ready True e a b H) (catching
        (and_then (dispatch line False) (\<lambda>_. modify (\<lambda>_ s. say_out (y s) s)))
        (\<lambda>m. modify (\<lambda>_ s. if due (so_home_warned s) 60000 t0 then say_out (z m) (s\<lparr>so_home_warned := Some t0\<rparr>) else s)))" for line y z
    by (rule fine_catching [OF fine_and_then [OF fine_dispatch fine_keep] fine_keep]) simp_all
  note go = fineD [OF this t]
  show "fine_end e a b H x (fst (return_home t0 t s)) (snd (return_home t0 t s))"
    using k p credit_readyD [OF _ k] by (auto simp: return_home_def Let_def intro!: go)
qed

lemma fine_tick_work:
  assumes a: "0 < a" and t0: "a \<le> t0" "t0 \<le> b"
  shows "fine e a b H (kept e a b H) (tick_work e t0)"
proof (rule fineI)
  fix x t s assume t: "a \<le> t" "t \<le> b" and k: "kept e a b H x s"
  note [simp] = fineD [OF fine_cancel_sell t k] fineD [OF fine_tick_foreground t k] fineD [OF fine_return_home [OF a t0] t k]
  have order: "fine_end e a b H x (fst (tick_order e t0 c cs t s)) (snd (tick_order e t0 c cs t s))" if "so_commands s = c # cs" for c cs
    using fineD [OF fine_tick_order [OF a t0] t] k that by blast
  show "fine_end e a b H x (fst (tick_work e t0 t s)) (snd (tick_work e t0 t s))"
    using k order fineD [OF fine_tick_game_sale t k] by (simp add: tick_work_def split: list.split option.split)
qed

lemma fine_store_home:
  assumes "fine e a b H (kept e a b H) k"
  shows "fine e a b H (kept e a b H) (store_home k)"
proof (rule fineI)
  fix x t s assume t: "a \<le> t" "t \<le> b" and p: "kept e a b H x s"
  have stored: "kept e a b H x (s\<lparr>so_save_home := None\<rparr>)" if "kept e a b H x s" for x s
    by (rule kept_calm [OF that]) (use that in \<open>simp add: kept_def soul_ok_def\<close>)
  have "fine e a b H (\<lambda>x s. kept e a b H x s \<and> (h = [] \<or> h \<in> H)) (call (C_remember h) (\<lambda>t s. k t (if so_save_home s = Some h then s\<lparr>so_save_home := None\<rparr> else s)))"
    for h by (rule fine_call [where q = False]) (auto simp: ready_none stored intro: fine_after [OF assms])
  note remember = fineD [OF this t]
  have "h = [] \<or> h \<in> H" if "so_save_home s = Some h" for h using p that by (simp add: kept_def soul_ok_def)
  then show "fine_end e a b H x (fst (store_home k t s)) (snd (store_home k t s))"
    using p fineD [OF assms t p] by (auto simp: store_home_def intro: remember split: option.split)
qed

lemma fine_tell_gate:
  assumes "fine e a b H (kept e a b H) k"
  shows "fine e a b H (kept e a b H) (tell_gate k)"
proof (rule fineI)
  fix x t s assume t: "a \<le> t" "t \<le> b" and p: "kept e a b H x s"
  have "fine e a b H (kept e a b H) (call (C_recovering g) (\<lambda>t s. k t (s\<lparr>so_gate := None\<rparr>)))" for g
    by (rule fine_call [where q = False]) (auto simp: ready_none intro: fine_after [OF assms])
  note tell = fineD [OF this t p]
  show "fine_end e a b H x (fst (tell_gate k t s)) (snd (tell_gate k t s))"
    using fineD [OF assms t p] tell by (simp add: tell_gate_def split: option.split)
qed

lemma fine_game_tick:
  assumes a: "0 < a"
  shows "fine e a b H (kept e a b H) (game_tick e)"
proof (rule fineI)
  fix x t0 s assume t: "a \<le> t0" "t0 \<le> b" and p: "kept e a b H x s"
  have "fine e a b H (kept e a b H) (\<lambda>t s. if t0 < so_blocked_until s then skip t s else tick_sneak t0 (tick_work e t0) t s)"
    by (rule fineI) (simp add: fineD [OF fine_tick_sneak [OF fine_tick_work [OF a t]]])
  from fineD [OF fine_tell_gate [OF fine_store_home [OF this]] t p] p
  show "fine_end e a b H x (fst (game_tick e t0 s)) (snd (game_tick e t0 s))" by (simp add: game_tick_def)
qed

lemma fine_configure_soul: "fine e a b H (kept e a b H) (configure_soul c)"
proof (rule fineI)
  fix x t s assume t: "a \<le> t" "t \<le> b" and p: "kept e a b H x s"
  have finish: "fine e a b H (kept e a b H) (modify (\<lambda>t s. if changed then s\<lparr>so_next_sell := of_int t\<rparr> else s))" for changed
    by (rule fine_keep) simp
  have "fine e a b H (kept e a b H) (call (C_held c) (if q then modify (\<lambda>t s. if changed then s\<lparr>so_next_sell := of_int t\<rparr> else s)
      else and_then cancel_sell (\<lambda>_. modify (\<lambda>t s. if changed then s\<lparr>so_next_sell := of_int t\<rparr> else s))))" for q changed
    by (rule fine_call [where q = False]) (auto simp: ready_none intro: finish fine_and_then [OF fine_cancel_sell finish])
  note go = fineD [OF this t]
  show "fine_end e a b H x (fst (configure_soul c t s)) (snd (configure_soul c t s))"
    unfolding configure_soul_def Let_def by (rule go) (use p in simp)
qed

lemma fine_pause_order: "fine e a b H (kept e a b H) (pause_order u v)"
  unfolding pause_order_def
  by (rule fine_after [where Q = "kept e a b H"], rule fine_call [where q = False])
    (auto simp: pause_def ready_none intro: fine_skip)

end
