(* ===== verification/Soulfire_Runs.thy ===== *)
theory Soulfire_Runs
  imports Soulfire_Props
begin

text \<open>
  Runs of a SoulFire session: the contract of the processes, carried through every sequence of events, and its
  consequences for the program.
\<close>

section \<open>What the others do\<close>

lemma others_refl: "soul_ok H b s \<Longrightarrow> others H b s s"
  by (simp add: others_def)

lemma others_trans: "others H b s s1 \<Longrightarrow> others H b s1 s2 \<Longrightarrow> others H b s s2"
  by (simp add: others_def)

lemma others_allowance: "others H b s s1 \<Longrightarrow> allowance a s1 = allowance a s"
  by (simp add: others_def allowance_def)

lemma transition_ok: "soul_ok H b s \<Longrightarrow> others H b s (transition t s)"
  by (simp add: others_def transition_def schedule_sneak_ok)

lemma joining_ok: "soul_ok H b s \<Longrightarrow> others H b s (joining s)"
  by (simp add: others_def joining_def)

lemma note_teleport_ok: "soul_ok H b s \<Longrightarrow> others H b s (note_teleport e t m s)"
  by (simp add: others_def note_teleport_def schedule_sneak_ok)

lemma note_payout_ok: "soul_ok H b s \<Longrightarrow> others H b s (note_payout e m s)"
  by (simp add: others_def note_payout_def)

lemma note_lock_ok: "soul_ok H b s \<Longrightarrow> others H b s (note_lock e t m s)"
  by (simp add: others_def note_lock_def)

lemma note_arrival_ok:
  "soul_ok H b s \<Longrightarrow> (\<And>h. re_group arrived_re 1 (soul_plain e m) = Some h \<Longrightarrow> h \<in> H) \<Longrightarrow> others H b s (note_arrival e t m s)"
  by (auto simp: others_def note_arrival_def soul_ok_def say_out_def split: option.split prod.split)

lemma others_ok: "others H b s s1 \<Longrightarrow> soul_ok H b s1"
  by (simp add: others_def)

lemma on_game_chat_ok:
  assumes ok: "soul_ok H b s" and home: "\<And>h. \<not> from_player e sender \<Longrightarrow> re_group arrived_re 1 (soul_plain e m) = Some h \<Longrightarrow> h \<in> H"
  shows "others H b s (on_game_chat e t sender m s)"
proof (cases "from_player e sender")
  case False
  note teleported = note_teleport_ok [OF ok, of e t m]
  have arrived: "others H b s (note_arrival e t m (note_teleport e t m s))"
    by (rule others_trans [OF teleported note_arrival_ok [OF others_ok [OF teleported] home [OF False]]])
  note paid = others_trans [OF arrived note_payout_ok [OF others_ok [OF arrived]], of e m]
  from others_trans [OF paid note_lock_ok [OF others_ok [OF paid]], of e t m] show ?thesis using False by (simp add: on_game_chat_def)
qed (use ok in \<open>simp add: on_game_chat_def others_refl\<close>)

lemma enqueue_order_ok: "soul_ok H b s \<Longrightarrow> others H b s (enqueue_order t ty l s)"
  by (auto simp: others_def enqueue_order_def Let_def soul_ok_def say_out_def)

lemma check_sneak_ok: "soul_ok H b s \<Longrightarrow> others H b s (check_sneak s)"
  by (simp add: others_def check_sneak_def)

section \<open>The contract of a session\<close>

definition live :: "soul_env \<Rightarrow> int \<Rightarrow> int \<Rightarrow> jstr set \<Rightarrow> game_process \<Rightarrow> soul \<Rightarrow> bool" where
  "live e a b H p s \<longleftrightarrow> (\<exists>x s0. fine_end e a b H x s0 p \<and> others H b s0 s)"

fun permitted_call :: "jstr set \<Rightarrow> game_call \<Rightarrow> bool" where
  "permitted_call H (C_chat l) \<longleftrightarrow> \<not> is_blocked_afk_command l"
| "permitted_call H (C_remember h) \<longleftrightarrow> h = [] \<or> h \<in> H"
| "permitted_call H c \<longleftrightarrow> True"

fun spawn_call :: "game_call \<Rightarrow> bool" where
  "spawn_call (C_held _) \<longleftrightarrow> True"
| "spawn_call (C_recovering _) \<longleftrightarrow> True"
| "spawn_call _ \<longleftrightarrow> False"

text \<open>The handling of a spawn leaves the credits alone, whatever the scheduler does meanwhile.\<close>

definition spawn_end :: "jstr set \<Rightarrow> int \<Rightarrow> game_origin \<Rightarrow> soul \<Rightarrow> game_process \<Rightarrow> bool" where
  "spawn_end H b = safe (\<lambda>_ s. soul_ok H b s) (\<lambda>x c s. others H b (snd x) s \<and> spawn_call c) (\<lambda>_. True)
     (\<lambda>x _ s. others H b (snd x) s) (\<lambda>x s. others H b (snd x) s)"

definition spawn_live :: "jstr set \<Rightarrow> int \<Rightarrow> game_process \<Rightarrow> bool" where
  "spawn_live H b p \<longleftrightarrow> (\<exists>x s. spawn_end H b x s p)"

definition sound :: "soul_env \<Rightarrow> int \<Rightarrow> int \<Rightarrow> jstr set \<Rightarrow> soul_session \<Rightarrow> bool" where
  "sound e a b H x \<longleftrightarrow> soul_ok H b (ss_soul x) \<and> (\<forall>j. ss_job x = Some j \<longrightarrow> live e a b H (process_of j) (ss_soul x))
     \<and> (\<forall>p \<in> set (ss_spawns x). spawn_live H b p) \<and> list_all (permitted_call H) (ss_calls x)"

lemma fine_end_kept: "fine_end e a b H x s p \<Longrightarrow> kept e a b H x s"
  by (cases p) (simp_all add: fine_end_def allowed_call_def)

lemma fine_end_live: "fine_end e a b H x s p \<Longrightarrow> live e a b H p s"
  unfolding live_def using fine_end_kept others_refl kept_soul_ok by blast

lemma live_others: "live e a b H p s \<Longrightarrow> others H b s s1 \<Longrightarrow> live e a b H p s1"
  unfolding live_def using others_trans by blast

lemma call_ok_permitted_call: "call_ok e H x c s \<Longrightarrow> permitted_call H c"
  by (cases c) auto

lemma fine_end_calls: "fine_end e a b H x s p \<Longrightarrow> list_all (permitted_call H) (call_of p)"
  by (cases p) (auto simp: fine_end_def allowed_call_def intro: call_ok_permitted_call)

lemma live_resume:
  assumes "live e a b H (Await c k) s" and "a \<le> t" "t \<le> b"
  shows "fine_end e a b H (Some (c, r), s) (fst (k r t s)) (snd (k r t s))"
  using assms by (auto simp: live_def fine_end_def)

lemma spawn_call_permitted: "spawn_call c \<Longrightarrow> permitted_call H c"
  by (cases c) simp_all

lemma spawn_end_others: "spawn_end H b x s p \<Longrightarrow> others H b (snd x) s"
  by (cases p) (simp_all add: spawn_end_def)

lemma spawn_end_calls: "spawn_end H b x s p \<Longrightarrow> list_all (permitted_call H) (call_of p)"
  by (cases p) (auto simp: spawn_end_def spawn_call_permitted)

lemma game_spawned_ok:
  assumes "soul_ok H b s"
  shows "spawn_end H b (None, s) (fst (game_spawned t s)) (snd (game_spawned t s))"
proof -
  have "others H b s (transition t (s\<lparr>so_online := True\<rparr>))"
    using transition_ok [of H b "s\<lparr>so_online := True\<rparr>" t] assms by (simp add: others_def)
  then show ?thesis
    by (auto simp: game_spawned_def spawn_end_def call_def ask_def Let_def throw_def skip_def return_def others_def split: game_reply.split)
qed

subsection \<open>Every event soul_keeps it\<close>

definition soul_keeps :: "soul_env \<Rightarrow> int \<Rightarrow> int \<Rightarrow> jstr set \<Rightarrow> int \<Rightarrow> soul_session \<Rightarrow> soul_session \<Rightarrow> bool" where
  "soul_keeps e a b H n x x1 \<longleftrightarrow> sound e a b H x1 \<and> allowance a (ss_soul x1) \<le> allowance a (ss_soul x) - n"

lemma soul_keeps_trans: "soul_keeps e a b H n x x1 \<Longrightarrow> soul_keeps e a b H 0 x1 x2 \<Longrightarrow> soul_keeps e a b H n x x2"
  by (simp add: soul_keeps_def)

lemma soul_keeps_refl: "sound e a b H x \<Longrightarrow> soul_keeps e a b H 0 x x"
  by (simp add: soul_keeps_def)

lemma soul_keeps_sound: "soul_keeps e a b H n x x1 \<Longrightarrow> sound e a b H x1"
  by (simp add: soul_keeps_def)

lemma kept_others: "kept e a b H x s \<Longrightarrow> others H b s s1 \<Longrightarrow> kept e a b H x s1"
  using kept_calm others_allowance others_ok by (metis order_refl)

lemma drain_queue_fine:
  assumes "0 < a" "a \<le> t" "t \<le> b" and "kept e a b H x s"
  shows "case drain_queue e up t q s of (s1, q1, j) \<Rightarrow> fine_end e a b H x s1 (process_of j)"
  using assms(4)
proof (induction q arbitrary: s)
  case Nil
  then show ?case using fineD [OF fine_game_tick [OF assms(1)] assms(2,3) Nil] by (auto split: prod.split)
next
  case (Cons c q)
  have ok: "soul_ok H b s" by (rule kept_soul_ok [OF Cons.prems])
  note sneak = kept_others [OF Cons.prems check_sneak_ok [OF ok]]
  note queued = kept_others [OF Cons.prems enqueue_order_ok [OF ok]]
  show ?case
  proof (cases c)
    case (Soul_configure conf)
    then show ?thesis using fineD [OF fine_configure_soul assms(2,3) Cons.prems] by (simp add: split_beta)
  next
    case (Soul_pause u v)
    then show ?thesis using fineD [OF fine_pause_order assms(2,3) Cons.prems] by (simp add: split_beta)
  qed (use Cons.IH [OF sneak] Cons.IH [OF queued] in simp_all)
qed

lemma begin_job_keeps:
  assumes "0 < a" "a \<le> t" "t \<le> b" and x: "sound e a b H x"
  shows "soul_keeps e a b H 0 x (begin_job e t x)"
proof -
  obtain s q j where d: "drain_queue e (ss_ready x) t (ss_queue x) (ss_soul x) = (s, q, j)"
    by (cases "drain_queue e (ss_ready x) t (ss_queue x) (ss_soul x)")
  have "kept e a b H (None, ss_soul x) (ss_soul x)" using x by (intro kept_refl) (simp_all add: sound_def)
  from drain_queue_fine [OF assms(1-3) this, where up = "ss_ready x" and q = "ss_queue x"]
  have f: "fine_end e a b H (None, ss_soul x) s (process_of j)" by (simp add: d)
  have "soul_ok H b s" "allowance a s \<le> allowance a (ss_soul x)" using fine_end_kept [OF f] by (simp_all add: kept_def)
  then show ?thesis using x fine_end_live [OF f] fine_end_calls [OF f] by (simp add: soul_keeps_def sound_def begin_job_def d)
qed

lemma close_job_keeps:
  assumes x: "sound e a b H x"
  shows "soul_keeps e a b H 0 x (close_job t x)"
proof (cases "ss_job x")
  case (Some j)
  show ?thesis using x Some by (cases "process_of j") (auto simp: close_job_def soul_keeps_def sound_def)
qed (use x in \<open>simp add: close_job_def soul_keeps_refl\<close>)

lemma settle_keeps:
  assumes t: "0 < a" "a \<le> t" "t \<le> b" and x: "sound e a b H x"
  shows "soul_keeps e a b H 0 x (settle e t x)"
proof -
  define x0 where "x0 = (case ss_job x of Some (Command_job (Return _)) \<Rightarrow> begin_job e t x | _ \<Rightarrow> x)"
  have "soul_keeps e a b H 0 x x0"
    unfolding x0_def using begin_job_keeps [OF t x] soul_keeps_refl [OF x] by (auto split: option.split job.split process.split)
  from soul_keeps_trans [OF this close_job_keeps [OF soul_keeps_sound [OF this]]]
  have x1: "soul_keeps e a b H 0 x (close_job t x0)" .
  have "sound e a b H (close_job t x0\<lparr>ss_wake := False\<rparr>)" using soul_keeps_sound [OF x1] by (simp add: sound_def)
  note go = begin_job_keeps [OF t this]
  have "soul_keeps e a b H 0 (close_job t x0) (close_job t (begin_job e t (close_job t x0\<lparr>ss_wake := False\<rparr>)))"
    using soul_keeps_trans [OF go close_job_keeps [OF soul_keeps_sound [OF go]]] by (simp add: soul_keeps_def)
  from x1 soul_keeps_trans [OF x1 this] show ?thesis by (simp add: settle_def Let_def x0_def)
qed

lemma step_timer_keeps:
  assumes t: "0 < a" "a \<le> t" "t \<le> b" and x: "sound e a b H x"
  shows "soul_keeps e a b H 0 x (step_timer e t x)"
  using soul_keeps_trans [OF begin_job_keeps [OF t x] settle_keeps [OF t soul_keeps_sound [OF begin_job_keeps [OF t x]]]] soul_keeps_refl [OF x]
  by (simp add: step_timer_def split: option.split)

lemma wake_scheduler_keeps:
  assumes t: "0 < a" "a \<le> t" "t \<le> b" and x: "sound e a b H x"
  shows "soul_keeps e a b H 0 x (wake_scheduler e t x)"
  using step_timer_keeps [OF t x] x by (auto simp: wake_scheduler_def soul_keeps_def sound_def split: option.split)

text \<open>The answer to a command that was sent costs a credit.\<close>

fun accepts :: "game_process \<Rightarrow> game_reply \<Rightarrow> bool" where
  "accepts (Await c k) r \<longleftrightarrow> accepted_chat (Some (c, r))"
| "accepts p r \<longleftrightarrow> False"

lemma live_ok: "live e a b H p s \<Longrightarrow> soul_ok H b s"
  by (auto simp: live_def others_def)

lemma resume_live:
  assumes t: "a \<le> t" "t \<le> b" and p: "live e a b H p s" and r: "resume p r t s = (s1, p1)"
  shows "live e a b H p1 s1 \<and> soul_ok H b s1 \<and> list_all (permitted_call H) (call_of p1)
    \<and> allowance a s1 \<le> allowance a s - (if sv_native e \<and> accepts p r then 1500 else 0)"
proof (cases p)
  case (Await c k)
  have "fine_end e a b H (Some (c, r), s) s1 p1" using live_resume [OF p [unfolded Await] t, of r] r Await by simp
  from fine_end_live [OF this] fine_end_kept [OF this] fine_end_calls [OF this] show ?thesis
    by (simp add: Await kept_def)
qed (use p r live_ok [OF p] in auto)

lemma answer_job_keeps:
  assumes t: "0 < a" "a \<le> t" "t \<le> b" and x: "sound e a b H x"
  shows "soul_keeps e a b H (case ss_job x of None \<Rightarrow> 0 | Some j \<Rightarrow> if sv_native e \<and> accepts (process_of j) r then 1500 else 0) x (answer_job e t r x)"
proof (cases "ss_job x")
  case (Some j)
  obtain s1 p1 where r: "resume (process_of j) r t (ss_soul x) = (s1, p1)" by (cases "resume (process_of j) r t (ss_soul x)")
  have "live e a b H (process_of j) (ss_soul x)" using x Some by (simp add: sound_def)
  note go = resume_live [OF t(2,3) this r]
  let ?x = "x\<lparr>ss_soul := s1, ss_calls := ss_calls x @ call_of p1, ss_job := Some (case j of Command_job _ \<Rightarrow> Command_job p1 | Tick_job _ \<Rightarrow> Tick_job p1)\<rparr>"
  have "soul_keeps e a b H (if sv_native e \<and> accepts (process_of j) r then 1500 else 0) x ?x"
    using go x by (auto simp: soul_keeps_def sound_def split: job.split)
  from soul_keeps_trans [OF this settle_keeps [OF t soul_keeps_sound [OF this]]] show ?thesis
    by (simp add: Some answer_job_def r)
qed (use x in \<open>simp add: answer_job_def soul_keeps_refl\<close>)

lemma sound_others:
  assumes x: "sound e a b H x" and s: "others H b (ss_soul x) s"
  shows "sound e a b H (x\<lparr>ss_soul := s\<rparr>)"
  using x others_ok [OF s] live_others [OF _ s] by (auto simp: sound_def)

lemma soul_keeps_others: "sound e a b H x \<Longrightarrow> others H b (ss_soul x) s \<Longrightarrow> soul_keeps e a b H 0 x (x\<lparr>ss_soul := s\<rparr>)"
  using sound_others others_allowance by (simp add: soul_keeps_def)

lemma sound_flags [simp]:
  "sound e a b H (ss_ready_update f x) = sound e a b H x" "sound e a b H (ss_wake_update f x) = sound e a b H x"
  "sound e a b H (ss_world_update f x) = sound e a b H x" "sound e a b H (ss_queue_update g x) = sound e a b H x"
  by (simp_all add: sound_def)

lemma spawn_liveI: "spawn_end H b x s p \<Longrightarrow> spawn_live H b p"
  unfolding spawn_live_def by blast

lemma sound_spawns:
  "sound e a b H x \<Longrightarrow> (\<And>p. p \<in> set ps \<Longrightarrow> spawn_live H b p) \<Longrightarrow> list_all (permitted_call H) cs
    \<Longrightarrow> sound e a b H (x\<lparr>ss_spawns := ps, ss_calls := ss_calls x @ cs\<rparr>)"
  by (simp add: sound_def)

lemma spawn_session_keeps:
  assumes x: "sound e a b H x"
  shows "soul_keeps e a b H 0 x (spawn_session t x)"
proof -
  obtain s p where g: "game_spawned t (ss_soul x) = (s, p)" by (cases "game_spawned t (ss_soul x)")
  have p: "spawn_end H b (None, ss_soul x) s p" using game_spawned_ok [of H b "ss_soul x" t] x by (simp add: g sound_def)
  have s: "others H b (ss_soul x) s" using spawn_end_others [OF p] by simp
  have "soul_keeps e a b H 0 x (x\<lparr>ss_world := True, ss_soul := s, ss_spawns := ss_spawns x @ [p], ss_calls := ss_calls x @ call_of p\<rparr>)"
    using soul_keeps_others [OF x s] spawn_liveI [OF p] spawn_end_calls [OF p] by (simp add: soul_keeps_def sound_def)
  then show ?thesis using soul_keeps_refl [OF x] by (simp add: spawn_session_def g)
qed

lemma spawn_resume:
  assumes p: "spawn_live H b p" and ok: "soul_ok H b s" and r: "resume p r t s = (s1, p1)"
  shows "spawn_live H b p1 \<and> others H b s s1 \<and> list_all (permitted_call H) (call_of p1)"
proof (cases p)
  case (Await c k)
  have "s1 = fst (k r t s)" "p1 = snd (k r t s)" using r Await by simp_all
  then have "spawn_end H b (Some (c, r), s) s1 p1" using p ok by (auto simp: Await spawn_live_def spawn_end_def)
  from spawn_liveI [OF this] spawn_end_others [OF this] spawn_end_calls [OF this] show ?thesis by simp
qed (use p r others_refl [OF ok] in auto)

lemma answer_spawn_keeps:
  assumes x: "sound e a b H x"
  shows "soul_keeps e a b H 0 x (answer_spawn t i r x)"
proof (cases "i < length (ss_spawns x)")
  case True
  obtain s p where g: "resume (ss_spawns x ! i) r t (ss_soul x) = (s, p)" by (cases "resume (ss_spawns x ! i) r t (ss_soul x)")
  have "spawn_live H b (ss_spawns x ! i)" "soul_ok H b (ss_soul x)" using x True by (simp_all add: sound_def)
  from spawn_resume [OF this g] have p: "spawn_live H b p" "list_all (permitted_call H) (call_of p)" and s: "others H b (ss_soul x) s"
    by simp_all
  have said: "others H b (ss_soul x) (say_out Soul_spawned s)" using s by (simp add: others_def)
  note left = others_trans [OF s joining_ok [OF others_ok [OF s]]]
  have old: "spawn_live H b q" if "q \<in> set (ss_spawns x)" for q using x that by (simp add: sound_def)
  have waits: "spawn_live H b q" if "q \<in> set ((ss_spawns x)[i := p])" for q
    using that p(1) old set_update_subset_insert by fastforce
  have rest: "spawn_live H b q" if "q \<in> set (take i (ss_spawns x) @ drop (Suc i) (ss_spawns x))" for q
    using that old by (auto dest: in_set_takeD in_set_dropD)
  show ?thesis
  proof (cases p)
    case (Return v)
    then show ?thesis using True soul_keeps_others [OF x said] rest by (simp add: answer_spawn_def g Let_def soul_keeps_def sound_def)
  next
    case (Throw m)
    then show ?thesis using True soul_keeps_others [OF x left] rest by (simp add: answer_spawn_def g Let_def soul_keeps_def sound_def)
  next
    case (Await c k)
    then show ?thesis using True soul_keeps_others [OF x s] waits p(2) by (simp add: answer_spawn_def g Let_def soul_keeps_def sound_def)
  qed
qed (use x in \<open>simp add: answer_spawn_def soul_keeps_refl\<close>)

text \<open>The homes that the server confirmed.\<close>

fun arrival :: "soul_env \<Rightarrow> int \<times> soul_event \<Rightarrow> jstr option" where
  "arrival e (t, Ev_chat sender m) = (if from_player e sender then None else re_group arrived_re 1 (soul_plain e m))"
| "arrival e _ = None"

text \<open>A command of the scheduler that the game accepted.\<close>

fun game_accepts :: "soul_session \<Rightarrow> int \<times> soul_event \<Rightarrow> bool" where
  "game_accepts x (t, Ev_answer r) \<longleftrightarrow> (case ss_job x of None \<Rightarrow> False | Some j \<Rightarrow> accepts (process_of j) r)"
| "game_accepts x _ \<longleftrightarrow> False"

lemma soul_step_keeps:
  assumes a: "0 < a" and t: "a \<le> fst ev" "fst ev \<le> b" and H: "\<And>h. arrival e ev = Some h \<Longrightarrow> h \<in> H" and x: "sound e a b H x"
  shows "soul_keeps e a b H (if sv_native e \<and> game_accepts x ev then 1500 else 0) x (soul_step e ev x)"
proof -
  obtain t v where ev: "ev = (t, v)" by (cases ev)
  note t = a t [unfolded ev fst_conv]
  have ok: "soul_ok H b (ss_soul x)" using x by (simp add: sound_def)
  show ?thesis
  proof (cases v)
    case (Ev_answer r)
    then show ?thesis using answer_job_keeps [OF t x, of r] by (cases "ss_job x") (auto simp: ev split: if_splits)
  next
    case (Ev_chat sender m)
    have "others H b (ss_soul x) (on_game_chat e t sender m (say_out (Soul_chatted sender m) (ss_soul x)))"
      by (rule others_trans [OF _ on_game_chat_ok]) (use ok H in \<open>auto simp: others_def ev Ev_chat\<close>)
    note c = soul_keeps_others [OF x this]
    show ?thesis using soul_keeps_trans [OF c wake_scheduler_keeps [OF t soul_keeps_sound [OF c]]] by (simp add: ev Ev_chat)
  next
    case Ev_inventory
    then show ?thesis using wake_scheduler_keeps [OF t, of e H "x\<lparr>ss_ready := True\<rparr>"] x by (simp add: ev soul_keeps_def)
  next
    case Ev_moved
    then show ?thesis using soul_keeps_others [OF x transition_ok [OF ok]] by (simp add: ev)
  next
    case Ev_died
    then show ?thesis using soul_keeps_others [OF x joining_ok [OF ok]] by (simp add: ev soul_keeps_def sound_def)
  next
    case Ev_respawned
    then show ?thesis using spawn_session_keeps [of e a b H "x\<lparr>ss_world := False\<rparr>" t] x by (simp add: ev soul_keeps_def)
  qed (use x step_timer_keeps [OF t x] spawn_session_keeps [OF x] answer_spawn_keeps [OF x] in \<open>simp_all add: ev soul_keeps_def\<close>)
qed

section \<open>Runs\<close>

definition within_times :: "int \<Rightarrow> int \<Rightarrow> (int \<times> soul_event) list \<Rightarrow> bool" where
  "within_times a b evs \<longleftrightarrow> 0 < a \<and> a \<le> b \<and> list_all (\<lambda>ev. a \<le> fst ev \<and> fst ev \<le> b) evs"

definition confirmed_homes :: "soul_env \<Rightarrow> (int \<times> soul_event) list \<Rightarrow> jstr list" where
  "confirmed_homes e evs = List.map_filter (arrival e) evs"

lemma confirmed_homesI: "ev \<in> set evs \<Longrightarrow> arrival e ev = Some h \<Longrightarrow> h \<in> set (confirmed_homes e evs)"
  by (force simp: confirmed_homes_def List.map_filter_def)

primrec commands_accepted :: "soul_env \<Rightarrow> (int \<times> soul_event) list \<Rightarrow> soul_session \<Rightarrow> nat" where
  "commands_accepted e [] x = 0"
| "commands_accepted e (ev # evs) x = (if game_accepts x ev then 1 else 0) + commands_accepted e evs (soul_step e ev x)"

lemma new_session_sound: "0 < a \<Longrightarrow> a \<le> b \<Longrightarrow> sound e a b H (new_session e c)"
  by (simp add: sound_def new_session_def new_soul_def soul_ok_def)

lemma soul_runs_keep:
  assumes "0 < a" and "\<forall>ev \<in> set evs. a \<le> fst ev \<and> fst ev \<le> b \<and> (\<forall>h. arrival e ev = Some h \<longrightarrow> h \<in> H)" and "sound e a b H x"
  shows "soul_keeps e a b H (if sv_native e then 1500 * int (commands_accepted e evs x) else 0) x (fold (soul_step e) evs x)"
  using assms(2,3)
proof (induction evs arbitrary: x)
  case (Cons ev evs)
  have step: "soul_keeps e a b H (if sv_native e \<and> game_accepts x ev then 1500 else 0) x (soul_step e ev x)"
    by (rule soul_step_keeps) (use Cons.prems assms(1) in auto)
  have "soul_keeps e a b H (if sv_native e then 1500 * int (commands_accepted e evs (soul_step e ev x)) else 0) (soul_step e ev x)
      (fold (soul_step e) evs (soul_step e ev x))"
    by (rule Cons.IH) (use Cons.prems soul_keeps_sound [OF step] in auto)
  with step show ?case by (auto simp: soul_keeps_def split: if_splits)
qed (simp add: soul_keeps_refl)

lemma soul_run_keeps:
  assumes "within_times a b evs"
  shows "soul_keeps e a b (set (confirmed_homes e evs)) (if sv_native e then 1500 * int (commands_accepted e evs (new_session e c)) else 0)
    (new_session e c) (soul_run e c evs)"
  unfolding soul_run_def
  by (rule soul_runs_keep) (use assms in \<open>auto simp: within_times_def list_all_iff new_session_sound intro: confirmed_homesI\<close>)

lemmas soul_run_sound = soul_keeps_sound [OF soul_run_keeps]

text \<open>Every call is allowed: no command is a blocked one, and the home that is stored is empty or one that the server
  confirmed in a message of its own.\<close>

theorem soul_calls_are_permitted:
  "within_times a b evs \<Longrightarrow> list_all (permitted_call (set (confirmed_homes e evs))) (ss_calls (soul_run e c evs))"
  using soul_run_sound [of a b evs e c] by (simp add: sound_def)

text \<open>
  C23. With native selling the game confirms at most three commands and one more for every one and a half seconds, in every
  interleaving; the queues stay bounded. Only a command that the game has confirmed uses up a credit: a call that fails or
  whose answer is lost does not count here, even when the game has carried it out (\<open>lost_answers_are_free\<close> below).
\<close>

theorem soul_commands_are_limited:
  assumes "within_times a b evs" and "sv_native e"
  shows "1500 * int (commands_accepted e evs (new_session e c)) \<le> 4500 + b - a
    \<and> length (so_commands (ss_soul (soul_run e c evs))) \<le> 32 \<and> length (so_checks (ss_soul (soul_run e c evs))) \<le> 64"
proof -
  have k: "soul_keeps e a b (set (confirmed_homes e evs)) (1500 * int (commands_accepted e evs (new_session e c))) (new_session e c) (soul_run e c evs)"
    using soul_run_keeps [OF assms(1), of e c] assms(2) by simp
  have "soul_ok (set (confirmed_homes e evs)) b (ss_soul (soul_run e c evs))" using soul_keeps_sound [OF k] by (simp add: sound_def)
  then have ok: "length (so_commands (ss_soul (soul_run e c evs))) \<le> 32" "length (so_checks (ss_soul (soul_run e c evs))) \<le> 64"
    "- b \<le> allowance a (ss_soul (soul_run e c evs))"
    using assms(1) by (auto simp: soul_ok_def allowance_def within_times_def)
  moreover have "allowance a (ss_soul (new_session e c)) = 4500 - a" by (simp add: allowance_def new_session_def new_soul_def)
  ultimately show ?thesis using k by (simp add: soul_keeps_def)
qed

text \<open>The call that an answer leads to.\<close>

definition next_call :: "soul_session \<Rightarrow> int \<Rightarrow> game_reply \<Rightarrow> game_call list" where
  "next_call x t r = (case ss_job x of None \<Rightarrow> [] | Some j \<Rightarrow> call_of (snd (resume (process_of j) r t (ss_soul x))))"

text \<open>C24. A slot is clicked only in answer to an inventory that was just read, with an open menu that holds something in that
  slot, and while a sale or a foreground task that no change of the world has ended is there.\<close>

theorem clicks_follow_the_menu:
  assumes times: "within_times a b evs" and t: "a \<le> t" "t \<le> b" and c: "next_call (soul_run e c evs) t r = [C_click m n how]"
  shows "\<exists>iv. r = R_inventory iv \<and> gi_menu iv = m \<and> gi_container iv \<noteq> [] \<and> list_ex (\<lambda>y. gs_slot y = n \<and> 0 < gs_count y) (gi_slots iv)
    \<and> (so_sale (ss_soul (soul_run e c evs)) \<noteq> None \<or> so_foreground (ss_soul (soul_run e c evs)) \<noteq> None)"
proof -
  let ?s = "ss_soul (soul_run e c evs)" and ?H = "set (confirmed_homes e evs)"
  obtain j where j: "ss_job (soul_run e c evs) = Some j" using c by (cases "ss_job (soul_run e c evs)") (simp_all add: next_call_def)
  then obtain k where k: "snd (resume (process_of j) r t ?s) = Await (C_click m n how) k"
    using c by (cases "snd (resume (process_of j) r t ?s)") (simp_all add: next_call_def)
  have l: "live e a b ?H (process_of j) ?s" using soul_run_sound [OF times, of e c] j by (simp add: sound_def)
  show ?thesis
  proof (cases "process_of j")
    case (Await c0 k0)
    have "fine_end e a b ?H (Some (c0, r), ?s) (fst (k0 r t ?s)) (Await (C_click m n how) k)"
      using live_resume [OF l [unfolded Await] t, of r] k Await by simp
    then show ?thesis by (auto simp: fine_end_def allowed_call_def seen_def list_ex_iff)
  qed (use k in simp_all)
qed

section \<open>Examples\<close>

definition demo_soul_env :: "bool \<Rightarrow> soul_env" where
  "demo_soul_env native = \<lparr>sv_parse = (\<lambda>_. None), sv_uni = (\<lambda>c. 97 \<le> c \<and> c \<le> 122), sv_low = (\<lambda>c. [c]), sv_native = native, sv_transfer_all = False\<rparr>"

definition demo_soul_config :: soul_config where
  "demo_soul_config = \<lparr>sc_crouch = None, sc_button = None, sc_autosell = Some True, sc_interval = None, sc_command = None,
     sc_spawner = None, sc_drop = None, sc_sell = None, sc_return_home = None, sc_home = None\<rparr>"

definition demo_menu :: "nat \<Rightarrow> game_inventory" where
  "demo_menu n = \<lparr>gi_menu = js ''m'', gi_title = js ''Sell'', gi_container = map int [0..<n], gi_player = [5],
     gi_slots = [\<lparr>gs_slot = 5, gs_item = js ''stone'', gs_count = 3, gs_name = [], gs_lines = []\<rparr>]\<rparr>"

text \<open>The user goes home, the server confirms it, and the home is stored.\<close>

definition demo_homeward :: "(int \<times> soul_event) list" where
  "demo_homeward = [(10, Ev_spawned), (11, Ev_spawn_answer 0 R_done), (12, Ev_spawn_answer 0 R_done),
    (20, Ev_command (Soul_chat (js ''/home a''))), (30, Ev_timer), (31, Ev_answer R_done), (32, Ev_answer (R_inventory (demo_menu 0))),
    (33, Ev_answer R_done), (34, Ev_answer R_done), (40, Ev_chat None (js ''Du wurdest zu deinem Home a teleportiert!'')),
    (41, Ev_answer R_done)]"

text \<open>The same command, but the call fails or times out after the game got it: it is warned of, and no credit is used.\<close>

lemma lost_answers_are_free:
  "let evs = take 8 demo_homeward @ [(34, Ev_answer (R_error (js ''timeout'')))];
       x = soul_run (demo_soul_env True) demo_soul_config evs in
     C_chat (js ''/home a'') \<in> set (ss_calls x) \<and> so_credits (ss_soul x) = 3
     \<and> commands_accepted (demo_soul_env True) evs (new_session (demo_soul_env True) demo_soul_config) = 0"
  by code_simp

theorem soul_calls_are_permitted_witness:
  "list_all (permitted_call (set (confirmed_homes (demo_soul_env True) demo_homeward)))
      (ss_calls (soul_run (demo_soul_env True) demo_soul_config demo_homeward))
    \<and> last (ss_calls (soul_run (demo_soul_env True) demo_soul_config demo_homeward)) = C_remember (js ''a'')"
proof
  have "within_times 10 50 demo_homeward" by code_simp
  then show "list_all (permitted_call (set (confirmed_homes (demo_soul_env True) demo_homeward)))
      (ss_calls (soul_run (demo_soul_env True) demo_soul_config demo_homeward))"
    by (rule soul_calls_are_permitted)
  show "last (ss_calls (soul_run (demo_soul_env True) demo_soul_config demo_homeward)) = C_remember (js ''a'')" by code_simp
qed

theorem soul_commands_are_limited_witness:
  "commands_accepted (demo_soul_env True) demo_homeward (new_session (demo_soul_env True) demo_soul_config) = 1
    \<and> 1500 * int (commands_accepted (demo_soul_env True) demo_homeward (new_session (demo_soul_env True) demo_soul_config)) \<le> 4500 + 50 - 10
    \<and> length (so_commands (ss_soul (soul_run (demo_soul_env True) demo_soul_config demo_homeward))) \<le> 32
    \<and> length (so_checks (ss_soul (soul_run (demo_soul_env True) demo_soul_config demo_homeward))) \<le> 64"
proof
  show "commands_accepted (demo_soul_env True) demo_homeward (new_session (demo_soul_env True) demo_soul_config) = 1" by code_simp
  have "within_times 10 50 demo_homeward" "sv_native (demo_soul_env True)" by code_simp+
  from soul_commands_are_limited [OF this]
  show "1500 * int (commands_accepted (demo_soul_env True) demo_homeward (new_session (demo_soul_env True) demo_soul_config)) \<le> 4500 + 50 - 10
    \<and> length (so_commands (ss_soul (soul_run (demo_soul_env True) demo_soul_config demo_homeward))) \<le> 32
    \<and> length (so_checks (ss_soul (soul_run (demo_soul_env True) demo_soul_config demo_homeward))) \<le> 64" .
qed

text \<open>A sale: the command, the menu, the first transfer.\<close>

definition demo_soul_sale :: "(int \<times> soul_event) list" where
  "demo_soul_sale = [(10, Ev_spawned), (11, Ev_spawn_answer 0 R_done), (12, Ev_spawn_answer 0 R_done), (20, Ev_inventory),
    (2100, Ev_timer), (2101, Ev_answer (R_inventory (demo_menu 0))), (2102, Ev_answer R_done), (2200, Ev_timer)]"

theorem clicks_follow_the_menu_witness:
  "\<exists>iv. R_inventory (demo_menu 1) = R_inventory iv \<and> gi_menu iv = js ''m'' \<and> gi_container iv \<noteq> []
    \<and> list_ex (\<lambda>y. gs_slot y = 5 \<and> 0 < gs_count y) (gi_slots iv)
    \<and> (so_sale (ss_soul (soul_run (demo_soul_env False) demo_soul_config demo_soul_sale)) \<noteq> None
       \<or> so_foreground (ss_soul (soul_run (demo_soul_env False) demo_soul_config demo_soul_sale)) \<noteq> None)"
proof -
  have times: "within_times 10 3000 demo_soul_sale" by code_simp
  have "next_call (soul_run (demo_soul_env False) demo_soul_config demo_soul_sale) 2201 (R_inventory (demo_menu 1)) = [C_click (js ''m'') 5 Transfer]"
    by code_simp
  from clicks_follow_the_menu [OF times _ _ this] show ?thesis by simp
qed

end
