(* ===== verification/Soulfire_Termination.thy ===== *)
theory Soulfire_Termination
  imports Soulfire_Session
begin

text \<open>
  No job of the SoulFire scheduler runs for ever: however the game answers and whatever happens meanwhile, it ends
  after at most eight answers, so the scheduler becomes free again.
\<close>

section \<open>Short actions\<close>

definition brief :: "nat \<Rightarrow> unit game_action \<Rightarrow> bool" where
  "brief n m \<longleftrightarrow> (\<forall>t s. ends_within n (snd (m t s)))"

lemma briefD: "brief n m \<Longrightarrow> ends_within n (snd (m t s))"
  by (simp add: brief_def)

lemma briefI: "(\<And>t s. ends_within n (snd (m t s))) \<Longrightarrow> brief n m"
  by (simp add: brief_def)

lemma brief_mono: "brief i m \<Longrightarrow> i \<le> n \<Longrightarrow> brief n m"
  unfolding brief_def by (blast intro: ends_within_mono)

lemma within_continue: "ends_within i p \<Longrightarrow> (\<And>v. brief n (f v)) \<Longrightarrow> ends_within (i + n) (snd (continue_with p f t s))"
proof (induction arbitrary: t s rule: ends_within.induct)
  case (ends_within_Return i v)
  show ?case using ends_within_mono [OF briefD [OF ends_within_Return.prems] le_add2] by simp
next
  case (ends_within_Await i k c)
  have "ends_within (i + n) (snd (case map_prod id continue_with (k r t' s') of (s1, g) \<Rightarrow> g f t' s1))" for r t' s'
    using ends_within_Await.IH [OF ends_within_Await.prems, of r t' s'] by (cases "k r t' s'") simp
  then show ?case by (auto intro: ends_within.ends_within_Await)
qed simp

lemma within_recover: "ends_within i p \<Longrightarrow> (\<And>v. brief n (h v)) \<Longrightarrow> ends_within (i + n) (snd (recover_with p h t s))"
proof (induction arbitrary: t s rule: ends_within.induct)
  case (ends_within_Throw i v)
  show ?case using ends_within_mono [OF briefD [OF ends_within_Throw.prems] le_add2] by simp
next
  case (ends_within_Await i k c)
  have "ends_within (i + n) (snd (case map_prod id recover_with (k r t' s') of (s1, g) \<Rightarrow> g h t' s1))" for r t' s'
    using ends_within_Await.IH [OF ends_within_Await.prems, of r t' s'] by (cases "k r t' s'") simp
  then show ?case by (auto intro: ends_within.ends_within_Await)
qed simp

lemma brief_and_then: "brief i m \<Longrightarrow> (\<And>v. brief n (f v)) \<Longrightarrow> brief (i + n) (and_then m f)"
  by (rule briefI) (simp add: and_then_def split_beta within_continue briefD)

lemma brief_catching: "brief i m \<Longrightarrow> (\<And>v. brief n (h v)) \<Longrightarrow> brief (i + n) (catching m h)"
  by (rule briefI) (simp add: catching_def split_beta within_recover briefD)

lemma brief_ask: "(\<And>r. brief n (k r)) \<Longrightarrow> brief (Suc n) (ask c k)"
  by (auto simp: brief_def ask_def intro: ends_within.ends_within_Await)

lemma brief_base [simp]: "brief n skip" "brief n (throw m)" "brief n (modify f)"
  by (simp_all add: brief_def skip_def return_def throw_def modify_def)

lemma brief_if [simp]: "brief n m \<Longrightarrow> brief n m1 \<Longrightarrow> brief n (\<lambda>t s. if q t s then m t s else m1 t s)"
  by (simp add: brief_def)

lemma brief_at: "brief n m \<Longrightarrow> brief n (\<lambda>t s. m t (f t s))"
  by (simp add: brief_def)

lemma brief_call: "brief n k \<Longrightarrow> brief (Suc n) (call c k)"
  unfolding call_def by (rule brief_ask) (simp split: game_reply.split)

lemma brief_read: "(\<And>iv. brief n (k iv)) \<Longrightarrow> brief (Suc n) (read_inventory k)"
  unfolding read_inventory_def by (rule brief_ask) (simp split: game_reply.split)

lemma within_base [simp]: "ends_within n (snd (skip t s))" "ends_within n (snd (throw m t s))" "ends_within n (snd (modify f t s))"
  by (simp_all add: skip_def return_def throw_def modify_def)

section \<open>The operations\<close>

lemma brief_close_owned: "brief 2 (close_owned m)"
  unfolding close_owned_def numeral_2_eq_2 by (rule brief_read) (simp add: brief_call)

lemma brief_cancel_sell: "brief 2 cancel_sell"
  by (rule briefI) (simp add: cancel_sell_def briefD [OF brief_close_owned] split: option.split)

lemma brief_fail_sell: "brief 2 (fail_sell reason)"
  using brief_and_then [OF brief_cancel_sell, of 0] by (simp add: fail_sell_def)

lemma brief_dispatch: "brief 1 (dispatch l automatic)"
  by (rule briefI) (simp add: dispatch_def briefD [OF brief_call [of 0]])

lemma brief_read_multipliers: "brief 1 (read_multipliers_order g p)"
  using brief_and_then [OF brief_dispatch, of 0] by (simp add: read_multipliers_order_def)

lemma brief_clean_spawner: "brief 1 (clean_spawner_order g p)"
proof (rule briefI)
  fix t s
  have "brief 1 (ask c (\<lambda>r. case r of R_error m \<Rightarrow> throw m | R_opened True \<Rightarrow> modify f | _ \<Rightarrow> modify f1))" for c f f1
    unfolding One_nat_def by (rule brief_ask) (simp split: game_reply.split bool.split)
  then show "ends_within 1 (snd (clean_spawner_order g p t s))" by (simp add: clean_spawner_order_def briefD)
qed

lemma brief_leave_home:
  assumes "brief n k"
  shows "brief (Suc n) (leave_home l k)"
proof (rule briefI)
  fix t s
  have "brief (Suc n) (call (C_recovering False) (\<lambda>t s. k t (if given (re_group home_command_re 1 l) then s else s\<lparr>so_home := [], so_save_home := Some []\<rparr>)))"
    by (rule brief_call, rule briefI) (rule briefD [OF assms])
  then show "ends_within (Suc n) (snd (leave_home l k t s))"
    using brief_mono [OF assms, of "Suc n"] by (simp add: leave_home_def briefD)
qed

lemma brief_chat_order: "brief 2 (chat_order e l)"
proof (rule briefI)
  fix t s
  have "brief 1 (and_then (dispatch l False) (\<lambda>_. modify f))" for f
    using brief_and_then [OF brief_dispatch, of 0] by simp
  note brief_leave_home [OF this]
  then show "ends_within 2 (snd (chat_order e l t s))" by (simp add: chat_order_def briefD numeral_2_eq_2)
qed

lemma brief_order_body: "brief 2 (order_body e c g p)"
proof (rule briefI)
  fix t s
  note [simp] = brief_mono [OF brief_read_multipliers, of 2] brief_mono [OF brief_clean_spawner, of 2]
  show "ends_within 2 (snd (order_body e c g p t s))" by (simp add: order_body_def briefD brief_chat_order)
qed

lemma brief_run_order: "brief 5 (run_order e c)"
proof -
  have body: "brief 3 (order_body e c g p)" for g p by (rule brief_mono [OF brief_order_body]) simp
  have closed: "brief 3 (call c1 (order_body e c g p))" for c1 g p using brief_call [OF brief_order_body] by (simp add: numeral_3_eq_3 numeral_2_eq_2)
  have "brief (Suc (Suc 3)) (run_order e c)"
    unfolding run_order_def Let_def
    by (rule brief_call, rule briefI, rule briefD [OF brief_ask]) (simp add: body closed split: game_reply.split)
  then show ?thesis by (simp add: eval_nat_numeral)
qed

lemma brief_start_sale: "brief 1 (start_sale t0 g)"
proof (rule briefI)
  fix t s
  have "brief (1 + 0 + 0) (and_then (catching (dispatch l True) (\<lambda>m t s. throw m t (h t s))) (\<lambda>_. modify f))" for l h f
    by (rule brief_and_then [OF brief_catching [OF brief_dispatch]]) (simp_all add: brief_def throw_def modify_def)
  then show "ends_within 1 (snd (start_sale t0 g t s))" by (simp add: start_sale_def Let_def briefD)
qed

lemma brief_send_transfer: "brief 3 (send_transfer c slots i)"
proof (rule briefI)
  fix t s
  have "brief (Suc 2) (ask c (\<lambda>r. case r of R_error _ \<Rightarrow> (\<lambda>t s. if q t s then fail_sell m t s else skip t s) | _ \<Rightarrow> modify f))" for q f m
    by (rule brief_ask) (simp add: brief_fail_sell split: game_reply.split)
  then show "ends_within 3 (snd (send_transfer c slots i t s))" by (simp add: send_transfer_def briefD)
qed

lemma brief_sell_stock: "brief 3 (sell_stock e iv i targets)"
proof (rule briefI)
  fix t s
  note [simp] = briefD [OF brief_send_transfer] briefD [OF brief_mono [OF brief_cancel_sell, of 3]]
  show "ends_within 3 (snd (sell_stock e iv i targets t s))" by (simp add: sell_stock_def Let_def split: list.split option.split)
qed

lemma brief_sell_in_menu: "brief 3 (sell_in_menu e iv sale k)"
proof (rule briefI)
  fix t s
  note [simp] = briefD [OF brief_sell_stock] briefD [OF brief_mono [OF brief_fail_sell, of 3]]
  show "ends_within 3 (snd (sell_in_menu e iv sale k t s))" by (simp add: sell_in_menu_def Let_def split: option.split)
qed

lemma brief_continue_sale: "brief 3 (continue_sale e iv sale)"
proof (rule briefI)
  fix t s
  note [simp] = briefD [OF brief_sell_in_menu] briefD [OF brief_mono [OF brief_fail_sell, of 3]]
  show "ends_within 3 (snd (continue_sale e iv sale t s))" by (simp add: continue_sale_def)
qed

lemma brief_tick_game_sale: "brief 4 (tick_game_sale e t0)"
proof (rule briefI)
  fix t s
  note [simp] = briefD [OF brief_continue_sale] briefD [OF brief_mono [OF brief_start_sale, of 3]] briefD [OF brief_mono [OF brief_call [of 0], where n = 3]]
  have "brief (Suc 3) (read_inventory (\<lambda>iv t s.
        if so_generation s \<noteq> g then skip t s
        else case so_sale s of
            Some sale \<Rightarrow> continue_sale e iv sale t s
          | None \<Rightarrow>
              if gi_container iv \<noteq> []
              then (if is_sell_title e (gi_title iv)
                    then call (C_close (gi_menu iv)) (modify (\<lambda>_ s. s\<lparr>so_next_sell := of_int (t + 500)\<rparr>)) t s else skip t s)
              else if of_int t < so_next_sell s then skip t s
              else start_sale t g t s))" for g
    by (rule brief_read, rule briefI) (simp split: option.split)
  then show "ends_within 4 (snd (tick_game_sale e t0 t s))" by (simp add: tick_game_sale_def Let_def briefD)
qed

lemma brief_end_task [simp]: "brief n (end_task y)" "brief n (after_click i)"
  by (simp_all add: end_task_def after_click_def)

lemma brief_close_end: "brief 2 (and_then (close_owned m) (\<lambda>_. end_task y))"
  using brief_and_then [OF brief_close_owned, of 0] by simp

lemma brief_clear_spawner: "brief 1 (clear_spawner e iv task stock)"
proof (rule briefI)
  fix t s
  note [simp] = briefD [OF brief_call [of 0]] briefD [OF brief_end_task(2)]
  show "ends_within 1 (snd (clear_spawner e iv task stock t s))" by (simp add: clear_spawner_def Let_def split: option.split)
qed

lemma brief_tick_spawner_task: "brief 2 (tick_spawner_task e iv task)"
proof (rule briefI)
  fix t s
  note [simp] = briefD [OF brief_mono [OF brief_clear_spawner, of 2]] briefD [OF brief_close_end]
  show "ends_within 2 (snd (tick_spawner_task e iv task t s))" by (simp add: tick_spawner_task_def Let_def split: option.split)
qed

lemma brief_work_in_menu: "brief 2 (work_in_menu e iv task)"
proof -
  have "brief 2 (call c (end_task y))" for c y by (rule brief_mono [OF brief_call [of 0]]) simp_all
  then show ?thesis using brief_tick_spawner_task by (simp add: work_in_menu_def tick_multiplier_task_def Let_def split: kind.split)
qed

lemma brief_continue_task: "brief 2 (continue_task e iv task)"
proof (rule briefI)
  fix t s
  note [simp] = briefD [OF brief_work_in_menu] briefD [OF brief_close_end] briefD [OF brief_end_task(1)]
  show "ends_within 2 (snd (continue_task e iv task t s))" by (simp add: continue_task_def)
qed

lemma brief_tick_foreground: "brief 3 (tick_foreground e t0 task)"
proof -
  have "brief (Suc 2) (read_inventory (\<lambda>iv t s. case so_foreground s of None \<Rightarrow> skip t s
        | Some cur \<Rightarrow> if fg_id cur = fg_id task then continue_task e iv cur t s else skip t s))"
    by (rule brief_read, rule briefI) (simp add: briefD [OF brief_continue_task] split: option.split)
  then show ?thesis by (simp add: tick_foreground_def)
qed

section \<open>The tick\<close>

lemma brief_tick_order: "brief 5 (tick_order e t0 c cs)"
proof (rule briefI)
  fix t s
  have "brief 5 (catching (run_order e c) (\<lambda>m. modify (f m)))" for f using brief_catching [OF brief_run_order, of 0] by simp
  then show "ends_within 5 (snd (tick_order e t0 c cs t s))" by (simp add: tick_order_def Let_def briefD)
qed

lemma brief_return_home: "brief 1 (return_home t0)"
proof (rule briefI)
  fix t s
  have "brief (1 + 0 + 0) (catching (and_then (dispatch l False) (\<lambda>_. modify f)) (\<lambda>m. modify (g m)))" for l f g
    by (rule brief_catching [OF brief_and_then [OF brief_dispatch]]) simp_all
  then show "ends_within 1 (snd (return_home t0 t s))" by (simp add: return_home_def Let_def briefD)
qed

lemma brief_tick_work: "brief 5 (tick_work e t0)"
proof (rule briefI)
  fix t s
  note [simp] = briefD [OF brief_tick_order] briefD [OF brief_mono [OF brief_cancel_sell, of 5]] briefD [OF brief_mono [OF brief_return_home, of 5]]
    briefD [OF brief_mono [OF brief_tick_foreground, of 5]] briefD [OF brief_mono [OF brief_tick_game_sale, of 5]]
  show "ends_within 5 (snd (tick_work e t0 t s))" by (simp add: tick_work_def split: list.split option.split)
qed

lemma brief_tick_sneak:
  assumes "brief n k"
  shows "brief (Suc n) (tick_sneak t0 k)"
proof (rule briefI)
  fix t s
  have "brief (Suc n) (ask C_sneak (\<lambda>r t s. k t (f r t s)))" for f by (rule brief_ask) (rule brief_at [OF assms])
  then show "ends_within (Suc n) (snd (tick_sneak t0 k t s))" using brief_mono [OF assms, of "Suc n"] by (simp add: tick_sneak_def Let_def briefD)
qed

lemma brief_store_home:
  assumes "brief n k"
  shows "brief (Suc n) (store_home k)"
proof (rule briefI)
  fix t s
  note [simp] = briefD [OF brief_call [OF brief_at [OF assms]]] briefD [OF brief_mono [OF assms, of "Suc n"]]
  show "ends_within (Suc n) (snd (store_home k t s))" by (simp add: store_home_def split: option.split)
qed

lemma brief_tell_gate:
  assumes "brief n k"
  shows "brief (Suc n) (tell_gate k)"
proof (rule briefI)
  fix t s
  note [simp] = briefD [OF brief_call [OF brief_at [OF assms]]] briefD [OF brief_mono [OF assms, of "Suc n"]]
  show "ends_within (Suc n) (snd (tell_gate k t s))" by (simp add: tell_gate_def split: option.split)
qed

lemma brief_game_tick: "brief 8 (game_tick e)"
proof (rule briefI)
  fix t0 s
  have "brief (Suc (Suc (Suc 5))) (tell_gate (store_home (\<lambda>t s. if t0 < so_blocked_until s then skip t s else tick_sneak t0 (tick_work e t0) t s)))"
    by (intro brief_tell_gate brief_store_home brief_if brief_base brief_tick_sneak brief_tick_work)
  then show "ends_within 8 (snd (game_tick e t0 s))" by (simp add: game_tick_def briefD)
qed

lemma brief_configure_soul: "brief 8 (configure_soul c)"
proof (rule briefI)
  fix t s
  have "brief 2 (and_then cancel_sell (\<lambda>_. modify f))" for f using brief_and_then [OF brief_cancel_sell, of 0] by simp
  then have "brief (Suc 2) (call c1 (if q then modify f else and_then cancel_sell (\<lambda>_. modify f)))" for c1 q f by (intro brief_call) simp
  from brief_mono [OF this, of 8] show "ends_within 8 (snd (configure_soul c t s))" by (simp add: configure_soul_def Let_def briefD)
qed

lemma brief_pause_order: "brief 8 (pause_order u v)"
  unfolding pause_order_def by (rule brief_mono [OF brief_at [OF brief_call [of 0]]]) simp_all

section \<open>Jobs\<close>

definition short :: "soul_session \<Rightarrow> bool" where
  "short x \<longleftrightarrow> (case ss_job x of None \<Rightarrow> True | Some j \<Rightarrow> ends_within 8 (process_of j))"

lemma drain_queue_short: "case drain_queue e up t q s of (s1, q1, j) \<Rightarrow> ends_within 8 (process_of j)"
proof (induction q arbitrary: s)
  case (Cons c q)
  then show ?case
    using briefD [OF brief_configure_soul] briefD [OF brief_pause_order] by (cases c) (simp_all add: split_beta)
qed (use briefD [OF brief_game_tick] in \<open>simp add: split_beta\<close>)

lemma begin_job_short: "short (begin_job e t x)"
  using drain_queue_short [of e "ss_ready x" t "ss_queue x" "ss_soul x"] by (auto simp: short_def begin_job_def split: prod.splits)

lemma close_job_short: "short x \<Longrightarrow> short (close_job t x)"
  by (auto simp: short_def close_job_def split: option.split process.split)

lemma settle_short: "short x \<Longrightarrow> short (settle e t x)"
  by (auto simp: settle_def Let_def intro!: close_job_short begin_job_short split: option.split job.split process.split)

lemma wake_short: "short x \<Longrightarrow> short (step_timer e t x)" "short x \<Longrightarrow> short (wake_scheduler e t x)"
  by (auto simp: step_timer_def wake_scheduler_def intro: settle_short begin_job_short split: option.split) (simp add: short_def)

lemma resume_shorter: "ends_within (Suc n) p \<Longrightarrow> ends_within n (snd (resume p r t s))"
  by (erule ends_within.cases) simp_all

lemma answer_job_short:
  assumes "short x"
  shows "short (answer_job e t r x)"
proof (cases "ss_job x")
  case (Some j)
  then have "ends_within (Suc 7) (process_of j)" using assms by (simp add: short_def)
  note ends_within_mono [OF resume_shorter [OF this], of 8]
  moreover have "short (x\<lparr>ss_soul := s1, ss_calls := cs, ss_job := Some (case j of Command_job _ \<Rightarrow> Command_job p | Tick_job _ \<Rightarrow> Tick_job p)\<rparr>)"
    if "ends_within 8 p" for s1 cs p using that by (simp add: short_def split: job.split)
  ultimately show ?thesis using Some by (simp add: answer_job_def split_beta settle_short)
qed (use assms in \<open>simp add: answer_job_def\<close>)

lemma soul_step_short: "short x \<Longrightarrow> short (soul_step e ev x)"
proof -
  assume x: "short x"
  obtain t v where ev: "ev = (t, v)" by (cases ev)
  show ?thesis using x answer_job_short [OF x] wake_short
    by (cases v) (auto simp: ev short_def spawn_session_def answer_spawn_def Let_def split: prod.split process.split)
qed

lemma soul_run_short: "short (soul_run e c evs)"
proof -
  have "short (fold (soul_step e) evs x)" if "short x" for x
    using that by (induction evs arbitrary: x) (simp_all add: soul_step_short)
  then show ?thesis by (simp add: soul_run_def short_def new_session_def)
qed

text \<open>The answers to a process, each at a time and in a state of its own.\<close>

primrec answered :: "game_process \<Rightarrow> (game_reply \<times> int \<times> soul) list \<Rightarrow> game_process" where
  "answered p [] = p"
| "answered p (x # xs) = answered (snd (resume p (fst x) (fst (snd x)) (snd (snd x)))) xs"

lemma answered_ends: "ends_within n p \<Longrightarrow> n \<le> length xs \<Longrightarrow> call_of (answered p xs) = []"
proof (induction xs arbitrary: n p)
  case Nil
  then show ?case by (auto elim: ends_within.cases)
next
  case (Cons x xs)
  have "ends_within (length xs) (snd (resume p (fst x) (fst (snd x)) (snd (snd x))))"
    by (rule resume_shorter [OF ends_within_mono]) (use Cons.prems in auto)
  from Cons.IH [OF this] show ?case by simp
qed

text \<open>C25. Every job of the scheduler, a queued command or a tick, ends: after eight answers, whatever they are, whenever they
  come and whatever became of the state meanwhile, it makes no more call.\<close>

theorem soul_jobs_end:
  assumes "8 \<le> length xs"
  shows "case ss_job (soul_run e c evs) of None \<Rightarrow> True | Some j \<Rightarrow> call_of (answered (process_of j) xs) = []"
  using soul_run_short [of e c evs] answered_ends [OF _ assms] by (simp add: short_def split: option.splits)

definition quiet_config :: soul_config where
  "quiet_config = \<lparr>sc_crouch = Some True, sc_button = None, sc_autosell = None, sc_interval = None, sc_command = None,
     sc_spawner = None, sc_drop = None, sc_sell = None, sc_return_home = None, sc_home = None\<rparr>"

definition quiet_env :: soul_env where
  "quiet_env = \<lparr>sv_parse = (\<lambda>_. None), sv_uni = (\<lambda>_. False), sv_low = (\<lambda>c. [c]), sv_native = True, sv_transfer_all = False\<rparr>"

definition quiet_run :: soul_session where
  "quiet_run = soul_run quiet_env quiet_config [(10, Ev_spawned), (20, Ev_command (Soul_chat (js ''/home a''))), (30, Ev_timer)]"

theorem soul_jobs_end_witness:
  "ss_job quiet_run \<noteq> None \<and> (case ss_job quiet_run of None \<Rightarrow> True
     | Some j \<Rightarrow> call_of (answered (process_of j) (replicate 8 (R_done, 40, new_soul quiet_env quiet_config))) = [])"
proof
  have "call_of (process_of (the (ss_job quiet_run))) = [C_sneak] \<and> map_option (\<lambda>_. ()) (ss_job quiet_run) = Some ()" by code_simp
  then show "ss_job quiet_run \<noteq> None" by auto
  show "case ss_job quiet_run of None \<Rightarrow> True
     | Some j \<Rightarrow> call_of (answered (process_of j) (replicate 8 (R_done, 40, new_soul quiet_env quiet_config))) = []"
    unfolding quiet_run_def by (rule soul_jobs_end) simp
qed

end
