(* ===== verification/Soulfire_Controller.thy ===== *)
theory Soulfire_Controller
  imports Client_Types
begin

text \<open>
  \<^verbatim>\<open>backend/src/soulfire/controller.ts\<close>: the controller of one Minecraft account inside the backend. It looks like a child
  process to the supervisor: lines of JSON come in on its standard input, the first is the configuration that starts
  the session, the others are commands for it, and it ends with one exit. \<^verbatim>\<open>JSON.parse\<close> is an argument.
\<close>

section \<open>State\<close>

datatype controller_out =
    Session_started json
  | Event_line json
  | Failure_line jstr
  | Input_error
  | Exited "int option" "jstr option"

record soul_controller =
  co_buffer :: jstr
  co_open :: bool
  co_received :: bool
  co_running :: bool
  co_aborted :: bool
  co_finished :: bool
  co_killed :: bool
  co_queue :: "json list"
  co_out :: "controller_out list"

definition new_controller :: soul_controller where
  "new_controller = \<lparr>co_buffer = [], co_open = True, co_received = False, co_running = False, co_aborted = False,
     co_finished = False, co_killed = False, co_queue = [], co_out = []\<rparr>"

definition put_out :: "controller_out \<Rightarrow> soul_controller \<Rightarrow> soul_controller" where
  "put_out x c = c\<lparr>co_out := co_out c @ [x]\<rparr>"

section \<open>Operations\<close>

definition finish_controller :: "int option \<Rightarrow> jstr option \<Rightarrow> soul_controller \<Rightarrow> soul_controller" where
  "finish_controller code sig c =
     (if co_finished c then c
      else put_out (Exited code sig) (c\<lparr>co_finished := True, co_aborted := True, co_queue := [], co_open := False\<rparr>))"

datatype kill_signal = Named_signal jstr | Numbered_signal int

definition kills_at_once :: "kill_signal \<Rightarrow> bool" where
  "kills_at_once sig \<longleftrightarrow> sig = Named_signal (js ''SIGKILL'') \<or> sig = Numbered_signal 9"

definition signal_name :: "kill_signal \<Rightarrow> jstr" where
  "signal_name sig = (case sig of Named_signal n \<Rightarrow> n | Numbered_signal _ \<Rightarrow> js ''SIGKILL'')"

definition kill_controller :: "kill_signal \<Rightarrow> soul_controller \<Rightarrow> soul_controller" where
  "kill_controller sig c =
     (if co_finished c then c
      else let c1 = c\<lparr>co_killed := True, co_aborted := True\<rparr>
           in if \<not> co_received c1 \<or> kills_at_once sig then finish_controller None (Some (signal_name sig)) c1 else c1)"

text \<open>A line that is \<^verbatim>\<open>null\<close> has no type to look at: that is an error.\<close>

definition receive_line :: "json \<Rightarrow> soul_controller \<Rightarrow> soul_controller option" where
  "receive_line j c =
     (if co_finished c \<or> co_aborted c then Some c
      else if \<not> co_received c then Some (put_out (Session_started j) (c\<lparr>co_received := True, co_running := True\<rparr>))
      else if j = JNull then None
      else if json_field j ''type'' = Some (JStr (js ''disconnect'')) then Some (kill_controller (Named_signal (js ''SIGTERM'')) c)
      else Some (c\<lparr>co_queue := co_queue c @ [j]\<rparr>))"

fun split_line :: "jstr \<Rightarrow> (jstr \<times> jstr) option" where
  "split_line [] = None"
| "split_line (x # xs) = (if x = 10 then Some ([], xs) else map_option (apfst ((#) x)) (split_line xs))"

lemma split_line_shorter: "split_line s = Some (l, rest) \<Longrightarrow> length rest < length s"
  by (induction s arbitrary: l) (auto split: if_splits)

text \<open>Every complete line of the buffer; an error breaks the input off.\<close>

definition break_input :: "soul_controller \<Rightarrow> soul_controller" where
  "break_input c = put_out Input_error (c\<lparr>co_open := False\<rparr>)"

function read_lines :: "(jstr \<Rightarrow> json option) \<Rightarrow> jstr \<Rightarrow> soul_controller \<Rightarrow> soul_controller" where
  "read_lines parse s c = (case split_line s of
       None \<Rightarrow> c\<lparr>co_buffer := s\<rparr>
     | Some (l, rest) \<Rightarrow>
         if trim l = [] then read_lines parse rest c
         else case parse l of
             None \<Rightarrow> break_input (c\<lparr>co_buffer := rest\<rparr>)
           | Some j \<Rightarrow> (case receive_line j c of
                 None \<Rightarrow> break_input (c\<lparr>co_buffer := rest\<rparr>)
               | Some c1 \<Rightarrow> read_lines parse rest c1))"
  by pat_completeness auto
termination by (relation "measure (\<lambda>(parse, s, c). length s)") (auto simp: split_line_shorter)

declare read_lines.simps [simp del]

definition write_input :: "(jstr \<Rightarrow> json option) \<Rightarrow> jstr \<Rightarrow> soul_controller \<Rightarrow> soul_controller" where
  "write_input parse chunk c = (if co_open c then read_lines parse (co_buffer c @ chunk) c else c)"

definition end_input :: "soul_controller \<Rightarrow> soul_controller" where
  "end_input c = (if co_open c then kill_controller (Named_signal (js ''SIGTERM'')) (c\<lparr>co_open := False\<rparr>) else c)"

text \<open>What the session does: it emits events, takes commands, and ends well or badly.\<close>

definition session_emits :: "json \<Rightarrow> soul_controller \<Rightarrow> soul_controller" where
  "session_emits e c = (if co_finished c then c else put_out (Event_line e) c)"

definition session_takes :: "soul_controller \<Rightarrow> soul_controller" where
  "session_takes c = c\<lparr>co_queue := tl (co_queue c)\<rparr>"

definition session_resolves :: "soul_controller \<Rightarrow> soul_controller" where
  "session_resolves c = (if co_running c then finish_controller (Some 0) None (c\<lparr>co_running := False\<rparr>) else c)"

definition session_rejects :: "jstr \<Rightarrow> soul_controller \<Rightarrow> soul_controller" where
  "session_rejects m c =
     (if co_running c
      then let c1 = c\<lparr>co_running := False\<rparr>
           in finish_controller (Some 1) None (if \<not> co_finished c1 \<and> \<not> co_aborted c1 then put_out (Failure_line m) c1 else c1)
      else c)"

section \<open>Runs\<close>

datatype controller_event =
    Input jstr
  | Input_ends
  | Killed_by kill_signal
  | Emits json
  | Takes
  | Resolves
  | Rejects jstr

fun controller_step :: "(jstr \<Rightarrow> json option) \<Rightarrow> controller_event \<Rightarrow> soul_controller \<Rightarrow> soul_controller" where
  "controller_step parse (Input s) c = write_input parse s c"
| "controller_step parse Input_ends c = end_input c"
| "controller_step parse (Killed_by sig) c = kill_controller sig c"
| "controller_step parse (Emits e) c = session_emits e c"
| "controller_step parse Takes c = session_takes c"
| "controller_step parse Resolves c = session_resolves c"
| "controller_step parse (Rejects m) c = session_rejects m c"

definition controller_run :: "(jstr \<Rightarrow> json option) \<Rightarrow> controller_event list \<Rightarrow> soul_controller" where
  "controller_run parse evs = fold (controller_step parse) evs new_controller"

section \<open>Lines in any pieces\<close>

lemma split_line_append: "split_line s = Some (l, rest) \<Longrightarrow> split_line (s @ t) = Some (l, rest @ t)"
  by (induction s arbitrary: l) (auto split: if_splits)

text \<open>What is left in the buffer of an input that broke off does not matter.\<close>

definition seen_by_others :: "soul_controller \<Rightarrow> soul_controller" where
  "seen_by_others c = (if co_open c then c else c\<lparr>co_buffer := []\<rparr>)"

lemma kill_buffer: "kill_controller sig (c\<lparr>co_buffer := s\<rparr>) = (kill_controller sig c)\<lparr>co_buffer := s\<rparr>"
  by (simp add: kill_controller_def finish_controller_def put_out_def Let_def)

lemma receive_buffer: "receive_line j (c\<lparr>co_buffer := s\<rparr>) = map_option (co_buffer_update (\<lambda>_. s)) (receive_line j c)"
  by (simp add: receive_line_def kill_buffer put_out_def)

lemma read_lines_buffer: "read_lines parse s (c\<lparr>co_buffer := b\<rparr>) = read_lines parse s c"
proof (induction parse s c rule: read_lines.induct)
  case (1 parse s c)
  show ?case
    by (subst (1 2) read_lines.simps) (auto simp: 1 receive_buffer split: option.split)
qed

lemma receive_open: "receive_line j c = Some c1 \<Longrightarrow> co_received c \<or> co_open c1 = co_open c"
  by (auto simp: receive_line_def put_out_def split: if_splits)

lemma kill_open: "co_received c \<Longrightarrow> co_open (kill_controller (Named_signal (js ''SIGTERM'')) c) = co_open c"
  by (simp add: kill_controller_def kills_at_once_def js_def)

lemma receive_keeps_open: "receive_line j c = Some c1 \<Longrightarrow> co_open c1 = co_open c"
  by (auto simp: receive_line_def put_out_def kill_open split: if_splits)

lemma read_lines_append:
  "co_open c \<Longrightarrow> seen_by_others (read_lines parse (s @ t) c) =
     (let c1 = read_lines parse s c in seen_by_others (if co_open c1 then read_lines parse (co_buffer c1 @ t) c1 else c1))"
proof (induction parse s c rule: read_lines.induct)
  case (1 parse s c)
  show ?case
  proof (cases "split_line s")
    case None
    then show ?thesis using 1(3) read_lines_buffer [where c = c and b = s] by (simp add: read_lines.simps [of parse s c] Let_def)
  next
    case (Some p)
    then obtain l rest where s: "split_line s = Some (l, rest)" by (cases p) auto
    note step = read_lines.simps [of parse s c, unfolded s option.case prod.case]
      read_lines.simps [of parse "s @ t" c, unfolded split_line_append [OF s] option.case prod.case]
    show ?thesis
    proof (cases "trim l = []")
      case True
      with 1(1) [OF s refl True] 1(3) show ?thesis by (simp add: step)
    next
      case False
      show ?thesis
      proof (cases "Option.bind (parse l) (\<lambda>j. receive_line j c)")
        case None
        then show ?thesis using False
          by (cases "parse l") (simp_all add: step Let_def seen_by_others_def break_input_def put_out_def)
      next
        case (Some c1)
        then obtain j where j: "parse l = Some j" "receive_line j c = Some c1" by (cases "parse l") auto
        from 1(2) [OF s refl False j] receive_keeps_open [OF j(2)] 1(3) False show ?thesis by (simp add: step j)
      qed
    qed
  qed
qed

lemma receive_not_open: "\<not> co_open c \<Longrightarrow> seen_by_others (write_input parse s c) = seen_by_others c"
  by (simp add: write_input_def)

lemma seen_write: "seen_by_others (write_input parse s (seen_by_others c)) = seen_by_others (write_input parse s c)"
  by (simp add: seen_by_others_def write_input_def)

text \<open>The buffer never holds a complete line.\<close>

lemma write_append: "seen_by_others (write_input parse (s @ t) c) = seen_by_others (write_input parse t (write_input parse s c))"
  using read_lines_append [of c parse "co_buffer c @ s" t] by (simp add: write_input_def Let_def)

lemma write_pieces:
  "chunks \<noteq> [] \<Longrightarrow> seen_by_others (fold (write_input parse) chunks c) = seen_by_others (write_input parse (concat chunks) c)"
proof (induction chunks arbitrary: c)
  case (Cons s chunks)
  show ?case
  proof (cases "chunks = []")
    case False
    then show ?thesis using Cons.IH [of "write_input parse s c"] by (simp add: write_append)
  qed simp
qed simp

lemma eta_input: "(\<lambda>s. controller_step parse (Input s)) = write_input parse"
  by (intro ext) simp

text \<open>The lines a controller reads do not depend on the pieces in which they arrive: it ends up in the same state, and has
  done the same, as if everything had come at once.\<close>

theorem input_in_any_pieces:
  "seen_by_others (controller_run parse (evs @ map Input (s # chunks)))
     = seen_by_others (controller_run parse (evs @ [Input (concat (s # chunks))]))"
  using write_pieces [of "s # chunks" parse "controller_run parse evs"]
  by (simp add: controller_run_def fold_map comp_def eta_input)

section \<open>One exit\<close>

fun is_exit :: "controller_out \<Rightarrow> bool" where
  "is_exit (Exited _ _) \<longleftrightarrow> True"
| "is_exit _ \<longleftrightarrow> False"

fun is_start :: "controller_out \<Rightarrow> bool" where
  "is_start (Session_started _) \<longleftrightarrow> True"
| "is_start _ \<longleftrightarrow> False"

definition ends_once :: "soul_controller \<Rightarrow> bool" where
  "ends_once c \<longleftrightarrow> (if co_finished c then \<not> co_open c \<and> co_out c \<noteq> [] \<and> is_exit (last (co_out c)) \<and> list_all (\<lambda>x. \<not> is_exit x) (butlast (co_out c))
       else list_all (\<lambda>x. \<not> is_exit x) (co_out c))
     \<and> length (filter is_start (co_out c)) = (if co_received c then 1 else 0)"

lemma ends_once_put: "ends_once c \<Longrightarrow> \<not> co_finished c \<Longrightarrow> \<not> is_exit x \<Longrightarrow> \<not> is_start x \<Longrightarrow> ends_once (put_out x c)"
  by (simp add: ends_once_def put_out_def)

lemma ends_once_finish: "ends_once c \<Longrightarrow> ends_once (finish_controller code sig c)"
  by (simp add: ends_once_def finish_controller_def put_out_def)

lemma ends_once_flags [simp]:
  "ends_once (co_killed_update f c) = ends_once c" "ends_once (co_aborted_update f c) = ends_once c" "ends_once (co_buffer_update g c) = ends_once c"
  "ends_once (co_running_update f c) = ends_once c" "ends_once (co_queue_update h c) = ends_once c" "ends_once c \<Longrightarrow> ends_once (c\<lparr>co_open := False\<rparr>)"
  by (simp_all add: ends_once_def)

lemma ends_once_kill: "ends_once c \<Longrightarrow> ends_once (kill_controller sig c)"
  by (simp add: kill_controller_def Let_def ends_once_finish)

lemma ends_once_receive: "ends_once c \<Longrightarrow> receive_line j c = Some c1 \<Longrightarrow> ends_once c1"
  by (auto simp: receive_line_def ends_once_kill split: if_splits) (simp add: ends_once_def put_out_def)

lemma kill_finishes: "co_received c \<Longrightarrow> co_finished (kill_controller (Named_signal (js ''SIGTERM'')) c) = co_finished c"
  by (simp add: kill_controller_def kills_at_once_def js_def)

lemma receive_finishes: "receive_line j c = Some c1 \<Longrightarrow> co_finished c1 = co_finished c"
  by (auto simp: receive_line_def kill_finishes put_out_def split: if_splits)

lemma ends_once_read: "ends_once c \<Longrightarrow> \<not> co_finished c \<Longrightarrow> ends_once (read_lines parse s c)"
proof (induction parse s c rule: read_lines.induct)
  case (1 parse s c)
  have "ends_once (break_input (c\<lparr>co_buffer := rest\<rparr>))" for rest
    using 1(3,4) unfolding break_input_def by (intro ends_once_put) simp_all
  note broken = this
  show ?case
  proof (cases "split_line s")
    case None
    then show ?thesis using 1(3) by (simp add: read_lines.simps [of parse s c])
  next
    case (Some p)
    then obtain l rest where s: "split_line s = Some (l, rest)" by (cases p) auto
    note step = read_lines.simps [of parse s c, unfolded s option.case prod.case]
    have "ends_once (read_lines parse rest c1)" if "trim l \<noteq> []" "parse l = Some j" "receive_line j c = Some c1" for j c1
      by (rule 1(2) [OF s refl that]) (use 1(3,4) that(3) in \<open>simp_all add: ends_once_receive receive_finishes\<close>)
    with 1(1) [OF s refl _ 1(3,4)] broken show ?thesis by (simp add: step split: option.split)
  qed
qed

lemma ends_once_step: "ends_once c \<Longrightarrow> ends_once (controller_step parse ev c)"
proof (cases ev)
  case (Input s)
  assume c: "ends_once c"
  then have "co_open c \<Longrightarrow> \<not> co_finished c" by (auto simp: ends_once_def)
  then show ?thesis using c by (simp add: Input write_input_def ends_once_read)
next
  case (Rejects m)
  assume c: "ends_once c"
  then show ?thesis
    by (simp add: Rejects session_rejects_def Let_def ends_once_finish ends_once_put)
qed (auto simp: end_input_def ends_once_kill session_emits_def ends_once_put session_takes_def
    session_resolves_def ends_once_finish)

interpretation controller_ends: stepwise "controller_step parse" ends_once for parse
  by unfold_locales (rule ends_once_step)

text \<open>A controller starts one session at most and exits once: the exit is reported exactly when it is finished, as the
  last thing it ever does, so nothing is written to the supervisor afterwards.\<close>

theorem controller_ends_once:
  "length (filter is_start (co_out (controller_run parse evs))) \<le> 1
    \<and> list_all (\<lambda>x. \<not> is_exit x) (butlast (co_out (controller_run parse evs)))
    \<and> co_finished (controller_run parse evs) = (co_out (controller_run parse evs) \<noteq> [] \<and> is_exit (last (co_out (controller_run parse evs))))"
proof -
  have "ends_once (controller_run parse evs)"
    unfolding controller_run_def by (rule controller_ends.run_inv) (simp add: ends_once_def new_controller_def)
  moreover have "list_all (\<lambda>x. \<not> is_exit x) xs \<Longrightarrow> list_all (\<lambda>x. \<not> is_exit x) (butlast xs) \<and> (xs \<noteq> [] \<longrightarrow> \<not> is_exit (last xs))" for xs
    by (induction xs rule: rev_induct) simp_all
  ultimately show ?thesis by (auto simp: ends_once_def split: if_splits)
qed

end
