(* ===== verification/Soulfire_Service.thy ===== *)
theory Soulfire_Service
  imports Soulfire_Session "HOL-Library.Sublist"
begin

text \<open>
  How a session talks to its SoulFire server: \<^verbatim>\<open>backend/src/soulfire/errors.ts\<close>, \<^verbatim>\<open>runtimeStatus.ts\<close>, \<^verbatim>\<open>inventory.ts\<close> and
  \<^verbatim>\<open>settings.ts\<close>. Error objects form a graph, since a cause may lead back to the error it explains.
\<close>

section \<open>Errors (errors.ts)\<close>

text \<open>The codes of the remote calls, and an error as the connection library reads it: whether it is one of its own, its code,
  and the object with everything it refers to. An address without an object stands for a value that is none.\<close>

datatype rpc_code =
    Code_canceled | Code_unknown | Code_invalid_argument | Code_deadline_exceeded | Code_not_found | Code_already_exists
  | Code_permission_denied | Code_resource_exhausted | Code_failed_precondition | Code_aborted | Code_out_of_range
  | Code_unimplemented | Code_internal | Code_unavailable | Code_data_loss | Code_unauthenticated

record error_detail =
  ed_message :: "jstr option"
  ed_code :: "jstr option"
  ed_cause :: "nat option"
  ed_errors :: "nat list"

type_synonym error_heap = "nat \<Rightarrow> error_detail option"

record rpc_failure =
  fa_connect :: bool
  fa_code :: rpc_code
  fa_heap :: error_heap
  fa_root :: nat

definition plain_failure :: "jstr \<Rightarrow> rpc_failure" where
  "plain_failure m = \<lparr>fa_connect = False, fa_code = Code_unknown,
     fa_heap = (\<lambda>a. if a = 0 then Some \<lparr>ed_message = Some m, ed_code = None, ed_cause = None, ed_errors = []\<rparr> else None), fa_root = 0\<rparr>"

text \<open>A failure of the connection library itself, with the code it was made with.\<close>

definition connect_failure :: "rpc_code \<Rightarrow> jstr \<Rightarrow> rpc_failure" where
  "connect_failure c m = (plain_failure m)\<lparr>fa_connect := True, fa_code := c\<rparr>"

text \<open>A message, or another one where it is empty (\<^verbatim>\<open>||\<close>), and a default (\<^verbatim>\<open>??\<close>).\<close>

definition text_or :: "jstr \<Rightarrow> jstr \<Rightarrow> jstr" where
  "text_or m d = (if m = [] then d else m)"

definition given_or :: "'a option \<Rightarrow> 'a \<Rightarrow> 'a" where
  "given_or x d = (case x of None \<Rightarrow> d | Some v \<Rightarrow> v)"

definition message_of_failure :: "rpc_failure \<Rightarrow> jstr" where
  "message_of_failure f = (case fa_heap f (fa_root f) of None \<Rightarrow> [] | Some d \<Rightarrow> given_or (ed_message d) [])"

fun has_text :: "jstr \<Rightarrow> jstr \<Rightarrow> bool" where
  "has_text w s \<longleftrightarrow> starts_with w s \<or> (case s of [] \<Rightarrow> False | x # xs \<Rightarrow> has_text w xs)"

declare has_text.simps [simp del]

definition add_message :: "error_detail \<Rightarrow> jstr list \<Rightarrow> jstr list" where
  "add_message d parts = (case ed_message d of None \<Rightarrow> parts | Some m \<Rightarrow> if m \<in> set parts then parts else parts @ [m])"

definition add_code :: "error_detail \<Rightarrow> jstr list \<Rightarrow> jstr list" where
  "add_code d parts = (case ed_code d of None \<Rightarrow> parts | Some c \<Rightarrow> if list_ex (has_text c) parts then parts else parts @ [c])"

text \<open>The number counts the levels that may still be entered; the state holds the objects seen and the parts of the text.\<close>

primrec visit_error :: "nat \<Rightarrow> error_heap \<Rightarrow> nat \<Rightarrow> nat list \<times> jstr list \<Rightarrow> nat list \<times> jstr list" where
  "visit_error 0 h a st = st"
| "visit_error (Suc n) h a st = (case h a of
       None \<Rightarrow> st
     | Some d \<Rightarrow>
         if a \<in> set (fst st) then st
         else (let st1 = (a # fst st, add_code d (add_message d (snd st)));
                   st2 = (case ed_cause d of None \<Rightarrow> st1 | Some c \<Rightarrow> visit_error n h c st1)
               in fold (visit_error n h) (take 4 (ed_errors d)) st2))"

definition error_parts :: "rpc_failure \<Rightarrow> jstr list" where
  "error_parts f = snd (visit_error 7 (fa_heap f) (fa_root f) ([], []))"

definition soul_error :: "rpc_failure \<Rightarrow> jstr" where
  "soul_error f =
     (let s = join_with (js ''; '') (error_parts f)
      in take 1500 (if s = [] then js ''SoulFire-Verbindung fehlgeschlagen'' else s))"

definition retry_event_stream :: "rpc_failure \<Rightarrow> bool" where
  "retry_event_stream f \<longleftrightarrow> fa_code f \<notin> {Code_unauthenticated, Code_permission_denied, Code_invalid_argument, Code_not_found,
     Code_failed_precondition}"

definition socket_error_re :: re where
  "socket_error_re = Alt
     (sq [Wb, alts [lit_i ''ECONNREFUSED'', lit_i ''ECONNRESET'', lit_i ''EPIPE'', lit_i ''ETIMEDOUT'', lit_i ''ENOTFOUND'',
        lit_i ''EAI_AGAIN'', lit_i ''EHOSTUNREACH'', lit_i ''ENETUNREACH'',
        sq [lit_i ''UND_ERR_'', plus (Cls (\<lambda>c. (65 \<le> c \<and> c \<le> 90) \<or> (97 \<le> c \<and> c \<le> 122) \<or> c = 95))]], Wb])
     (lit_i ''fetch failed'')"

definition unavailable_control_service :: "rpc_failure \<Rightarrow> bool" where
  "unavailable_control_service f \<longleftrightarrow>
     (if fa_code f = Code_unavailable \<or> fa_code f = Code_deadline_exceeded then True
      else if fa_connect f \<and> fa_code f \<in> {Code_unknown, Code_internal, Code_resource_exhausted} then True
      else if fa_code f \<noteq> Code_unknown then False
      else re_test socket_error_re (soul_error f))"

subsection \<open>What an error text can contain\<close>

text \<open>Only messages and codes of the objects are told, nothing else of them; and every object is entered once.\<close>

definition tells :: "error_heap \<Rightarrow> jstr \<Rightarrow> bool" where
  "tells h m \<longleftrightarrow> (\<exists>a d. h a = Some d \<and> (ed_message d = Some m \<or> ed_code d = Some m))"

definition visit_ok :: "error_heap \<Rightarrow> nat list \<times> jstr list \<Rightarrow> bool" where
  "visit_ok h st \<longleftrightarrow> distinct (fst st) \<and> distinct (snd st) \<and> (\<forall>m \<in> set (snd st). tells h m) \<and> length (snd st) \<le> 2 * length (fst st)"

lemma has_text_refl: "has_text w w"
  by (simp add: has_text.simps [of w w] starts_with_def)

lemma add_parts_ok:
  "h a = Some d \<Longrightarrow> distinct parts \<Longrightarrow> \<forall>m \<in> set parts. tells h m \<Longrightarrow>
     distinct (add_code d (add_message d parts)) \<and> (\<forall>m \<in> set (add_code d (add_message d parts)). tells h m)
     \<and> length (add_code d (add_message d parts)) \<le> 2 + length parts"
  by (auto simp: add_code_def add_message_def tells_def list_ex_iff has_text_refl split: option.splits)

lemma fold_visits_keep: "(\<And>x s. x \<in> set xs \<Longrightarrow> P s \<Longrightarrow> P (f x s)) \<Longrightarrow> P s \<Longrightarrow> P (fold f xs s)"
  by (induction xs arbitrary: s) auto

lemma visit_error_ok: "visit_ok h st \<Longrightarrow> visit_ok h (visit_error n h a st)"
proof (induction n arbitrary: a st)
  case (Suc n)
  show ?case
  proof (cases "h a = None \<or> a \<in> set (fst st)")
    case False
    then obtain d where d: "h a = Some d" "a \<notin> set (fst st)" by auto
    let ?st1 = "(a # fst st, add_code d (add_message d (snd st)))"
    have "visit_ok h ?st1" using add_parts_ok [of h a d "snd st"] Suc.prems d by (auto simp: visit_ok_def)
    then have "visit_ok h (case ed_cause d of None \<Rightarrow> ?st1 | Some c \<Rightarrow> visit_error n h c ?st1)"
      using Suc.IH by (simp split: option.split)
    then show ?thesis using fold_visits_keep [of _ "visit_ok h" "visit_error n h"] Suc.IH d by (simp add: Let_def)
  qed (use Suc.prems in \<open>auto split: option.splits\<close>)
qed simp

lemma error_parts_ok: "visit_ok (fa_heap f) (visit_error 7 (fa_heap f) (fa_root f) ([], []))"
  by (rule visit_error_ok) (simp add: visit_ok_def)

text \<open>Whatever went wrong, also when errors explain each other in a circle, there is a text; it is not empty, not longer than
  1500 units, and made of messages and codes only, each once.\<close>

theorem errors_have_a_text:
  "soul_error f \<noteq> [] \<and> length (soul_error f) \<le> 1500 \<and> distinct (error_parts f)
     \<and> list_all (\<lambda>m. \<exists>a d. fa_heap f a = Some d \<and> (ed_message d = Some m \<or> ed_code d = Some m)) (error_parts f)"
  using error_parts_ok [of f]
  by (auto simp: soul_error_def Let_def js_def visit_ok_def error_parts_def [symmetric] tells_def list_all_iff)

lemma soul_error_plain: "soul_error (plain_failure m) = take 1500 (if m = [] then js ''SoulFire-Verbindung fehlgeschlagen'' else m)"
  by (simp add: soul_error_def error_parts_def plain_failure_def numeral_eq_Suc add_message_def add_code_def Let_def)

section \<open>The status of a bot (runtimeStatus.ts)\<close>

datatype runtime_state = Runtime_stopped | Runtime_queued | Runtime_starting | Runtime_running | Runtime_retrying | Runtime_failed | Runtime_other

record bot_status =
  bs_profile :: jstr
  bs_state :: runtime_state
  bs_error :: jstr

datatype status_frame = Status_snapshot "bot_status list" | Status_update bot_status | Status_other

text \<open>The frames that arrive, and how the stream ends after them: of itself (\<open>None\<close>) or with an error.\<close>

fun read_runtime_status :: "jstr \<Rightarrow> rpc_failure option \<Rightarrow> status_frame list \<Rightarrow> rpc_failure + bot_status" where
  "read_runtime_status who ending [] = (case ending of
       Some f \<Rightarrow> Inl f
     | None \<Rightarrow> Inl (connect_failure Code_unavailable (js ''SoulFire-Statusstream endete ohne Status'')))"
| "read_runtime_status who ending (Status_snapshot bots # fs) = (case find (\<lambda>b. bs_profile b = who) bots of
       Some b \<Rightarrow> Inr b
     | None \<Rightarrow> Inl (connect_failure Code_not_found (js ''SoulFire-Account fehlt im Status-Snapshot'')))"
| "read_runtime_status who ending (Status_update b # fs) = (if bs_profile b = who then Inr b else read_runtime_status who ending fs)"
| "read_runtime_status who ending (Status_other # fs) = read_runtime_status who ending fs"

text \<open>What is read is about the bot and was sent by the server; a bot that is missing there ends the session, a silent server does not.\<close>

theorem status_is_of_the_bot:
  "case read_runtime_status who ending fs of
     Inr b \<Rightarrow> bs_profile b = who \<and> list_ex (\<lambda>f. f = Status_update b \<or> (\<exists>bots. f = Status_snapshot bots \<and> b \<in> set bots)) fs
   | Inl f \<Rightarrow> ending = Some f \<or> (if retry_event_stream f then list_all (\<lambda>f. \<forall>bots. f \<noteq> Status_snapshot bots) fs
       else list_ex (\<lambda>f. \<exists>bots. f = Status_snapshot bots \<and> list_all (\<lambda>b. bs_profile b \<noteq> who) bots) fs)"
  by (induction who ending fs rule: read_runtime_status.induct)
    (auto simp: connect_failure_def retry_event_stream_def list_ex_iff list_all_iff dest: find_Some_in split: option.splits sum.splits,
     auto simp: find_None_iff)

section \<open>The inventory (inventory.ts)\<close>

text \<open>An inventory event of the server; its slots are those of the game, with an empty name where there is none.\<close>

record region =
  rg_id :: jstr
  rg_start :: int
  rg_count :: nat

record menu_state =
  mn_menu :: jstr
  mn_layout :: "(jstr \<times> region list) option"
  mn_slots :: "game_slot list"

definition region_slots :: "(jstr \<Rightarrow> bool) \<Rightarrow> menu_state \<Rightarrow> int list" where
  "region_slots matches m =
     concat (map (\<lambda>r. map (\<lambda>i. rg_start r + int i) [0..<rg_count r])
       (filter (\<lambda>r. matches (rg_id r)) (case mn_layout m of None \<Rightarrow> [] | Some (title, regions) \<Rightarrow> regions)))"

definition read_menu :: "menu_state \<Rightarrow> game_inventory" where
  "read_menu m = \<lparr>gi_menu = mn_menu m, gi_title = (case mn_layout m of None \<Rightarrow> [] | Some (title, regions) \<Rightarrow> title),
     gi_container = region_slots (\<lambda>i. i = js ''container'') m,
     gi_player = region_slots (\<lambda>i. i = js ''player_inventory'' \<or> i = js ''player_hotbar'') m,
     gi_slots = mn_slots m\<rparr>"

text \<open>Reading while the inventory is unknown is an error.\<close>

definition read_current :: "game_inventory option \<Rightarrow> game_reply" where
  "read_current cur = (case cur of None \<Rightarrow> R_error (js ''Inventar wird noch synchronisiert'') | Some iv \<Rightarrow> R_inventory iv)"

definition opened_after :: "jstr \<Rightarrow> game_inventory option \<Rightarrow> bool" where
  "opened_after previous cur = (case cur of None \<Rightarrow> False | Some iv \<Rightarrow> gi_container iv \<noteq> [] \<and> gi_menu iv \<noteq> previous)"

datatype wait_event = Menu_changed menu_state | Menu_lost | Wait_over

fun notice_container :: "jstr \<Rightarrow> wait_event list \<Rightarrow> bool option" where
  "notice_container previous [] = None"
| "notice_container previous (Menu_changed m # es) =
     (if opened_after previous (Some (read_menu m)) then Some True else notice_container previous es)"
| "notice_container previous (Menu_lost # es) = notice_container previous es"
| "notice_container previous (Wait_over # es) = Some False"

definition wait_for_container :: "jstr \<Rightarrow> bool \<Rightarrow> game_inventory option \<Rightarrow> wait_event list \<Rightarrow> bool option" where
  "wait_for_container previous aborted cur es =
     (if aborted then Some False else if opened_after previous cur then Some True else notice_container previous es)"

lemma region_slots_iff:
  "n \<in> set (region_slots matches m) \<longleftrightarrow>
     (\<exists>title regions r. mn_layout m = Some (title, regions) \<and> r \<in> set regions \<and> matches (rg_id r)
        \<and> rg_start r \<le> n \<and> n < rg_start r + int (rg_count r))" (is "?l \<longleftrightarrow> ?r")
proof -
  have shift: "n \<in> (\<lambda>i. a + int i) ` {0..<k} \<longleftrightarrow> a \<le> n \<and> n < a + int k" for a :: int and k
  proof
    assume "a \<le> n \<and> n < a + int k"
    then have "n = a + int (nat (n - a))" "nat (n - a) \<in> {0..<k}" by auto
    then show "n \<in> (\<lambda>i. a + int i) ` {0..<k}" by blast
  qed auto
  show ?thesis by (cases "mn_layout m") (auto simp: region_slots_def shift split: prod.splits)
qed

text \<open>A waiting action goes on exactly when a menu other than the previous one is open or opens before the time is over.\<close>

theorem containers_are_noticed:
  "wait_for_container previous aborted cur es = Some True \<longleftrightarrow>
     \<not> aborted \<and> (opened_after previous cur
       \<or> list_ex (\<lambda>ev. case ev of Menu_changed m \<Rightarrow> opened_after previous (Some (read_menu m)) | _ \<Rightarrow> False) (takeWhile (\<lambda>ev. ev \<noteq> Wait_over) es))"
proof -
  have "notice_container previous es = Some True \<longleftrightarrow>
      list_ex (\<lambda>ev. case ev of Menu_changed m \<Rightarrow> opened_after previous (Some (read_menu m)) | _ \<Rightarrow> False) (takeWhile (\<lambda>ev. ev \<noteq> Wait_over) es)"
    by (induction previous es rule: notice_container.induct) auto
  then show ?thesis by (simp add: wait_for_container_def)
qed

section \<open>The settings of an account (settings.ts)\<close>

text \<open>Namespaces of entries, in the order in which they were inserted; of entries with the same key the last one counts.\<close>

type_synonym 'v settings = "(jstr \<times> (jstr \<times> 'v) list) list"

definition entered :: "('k \<times> 'v) list \<Rightarrow> ('k, 'v) jmap \<Rightarrow> ('k, 'v) jmap" where
  "entered xs m = fold (\<lambda>(k, v). AList.update k v) xs m"

definition merge_namespace :: "jstr \<times> (jstr \<times> 'v) list \<Rightarrow> 'v settings \<Rightarrow> 'v settings" where
  "merge_namespace u m = AList.update (fst u)
     (entered (snd u) (entered (case map_of m (fst u) of None \<Rightarrow> [] | Some es \<Rightarrow> es) [])) m"

definition merge_bot_settings :: "'v settings \<Rightarrow> 'v settings \<Rightarrow> 'v settings" where
  "merge_bot_settings current updates = fold merge_namespace updates (entered current [])"

definition setting_of :: "'v settings \<Rightarrow> jstr \<Rightarrow> jstr \<Rightarrow> 'v option" where
  "setting_of m ns k = (case map_of m ns of None \<Rightarrow> None | Some es \<Rightarrow> map_of es k)"

definition settings_ok :: "'v settings \<Rightarrow> bool" where
  "settings_ok m \<longleftrightarrow> jmap_ok m \<and> list_all (\<lambda>(ns, es). jmap_ok es) m"

lemma map_of_entered: "jmap_ok xs \<Longrightarrow> map_of (entered xs m) k = (case map_of xs k of None \<Rightarrow> map_of m k | Some v \<Rightarrow> Some v)"
proof (induction xs arbitrary: m)
  case (Cons x xs)
  obtain k0 v0 where x: "x = (k0, v0)" by (cases x)
  have "map_of xs k0 = None" "jmap_ok xs" using Cons.prems by (auto simp: x jmap_ok_def map_of_eq_None_iff)
  then show ?case using Cons.IH [of "AList.update k0 v0 m"] by (simp add: x entered_def split: option.split) 
qed (simp add: entered_def)

lemma map_of_entered_Nil: "jmap_ok xs \<Longrightarrow> map_of (entered xs []) = map_of xs"
  by (rule ext) (simp add: map_of_entered split: option.split)

lemma merge_namespace_setting:
  assumes "jmap_ok (snd u)" and "\<And>es. map_of m (fst u) = Some es \<Longrightarrow> jmap_ok es"
  shows "setting_of (merge_namespace u m) ns k =
    (if ns = fst u then (case map_of (snd u) k of Some v \<Rightarrow> Some v | None \<Rightarrow> setting_of m ns k) else setting_of m ns k)"
  using assms by (auto simp: merge_namespace_def setting_of_def map_of_entered map_of_entered_Nil split: option.split)

lemma merged_settings:
  assumes "settings_ok updates" and "\<And>ns es. map_of m ns = Some es \<Longrightarrow> ns \<in> fst ` set updates \<Longrightarrow> jmap_ok es"
  shows "setting_of (fold merge_namespace updates m) ns k = (case setting_of updates ns k of Some v \<Rightarrow> Some v | None \<Rightarrow> setting_of m ns k)"
  using assms
proof (induction updates arbitrary: m)
  case (Cons u us)
  have ok: "settings_ok us" "jmap_ok (snd u)" and new: "fst u \<notin> fst ` set us"
    using Cons.prems(1) by (auto simp: settings_ok_def jmap_ok_def split: prod.splits)
  have "setting_of (fold merge_namespace us (merge_namespace u m)) ns k =
      (case setting_of us ns k of Some v \<Rightarrow> Some v | None \<Rightarrow> setting_of (merge_namespace u m) ns k)"
    by (rule Cons.IH [OF ok(1)]) (use Cons.prems(2) new in \<open>auto simp: merge_namespace_def split: if_splits\<close>)
  moreover have "map_of us (fst u) = None" using new by (simp add: map_of_eq_None_iff)
  then have "setting_of us (fst u) k = None" by (simp add: setting_of_def)
  moreover have "setting_of (merge_namespace u m) ns k =
      (if ns = fst u then (case map_of (snd u) k of Some v \<Rightarrow> Some v | None \<Rightarrow> setting_of m ns k) else setting_of m ns k)"
    by (rule merge_namespace_setting) (use ok Cons.prems(2) in auto)
  moreover have "setting_of (u # us) ns k = (if ns = fst u then map_of (snd u) k else setting_of us ns k)"
    by (cases u) (simp add: setting_of_def)
  ultimately show ?case by (auto split: option.split)
qed (simp add: setting_of_def)

text \<open>The startup settings are all there after a merge, and every other setting of the account is what it was.\<close>

theorem startup_settings_are_merged:
  assumes "settings_ok current" and "settings_ok updates"
  shows "setting_of (merge_bot_settings current updates) ns k =
    (case setting_of updates ns k of Some v \<Rightarrow> Some v | None \<Rightarrow> setting_of current ns k)"
proof -
  have m: "map_of (entered current []) = map_of current" using assms(1) by (simp add: settings_ok_def map_of_entered_Nil)
  have ok: "jmap_ok es" if "map_of (entered current []) n = Some es" for n es
    using that assms(1) m by (auto simp: settings_ok_def list_all_iff dest: map_of_SomeD)
  have "setting_of (merge_bot_settings current updates) ns k =
      (case setting_of updates ns k of Some v \<Rightarrow> Some v | None \<Rightarrow> setting_of (entered current []) ns k)"
    unfolding merge_bot_settings_def by (rule merged_settings [OF assms(2)]) (rule ok)
  moreover have "setting_of (entered current []) ns k = setting_of current ns k" by (simp add: setting_of_def m)
  ultimately show ?thesis by (simp split: option.split)
qed

end
