(* ===== verification/Soulfire_Link.thy ===== *)
theory Soulfire_Link
  imports Soulfire_Service Soulfire_Runs
begin

text \<open>
  The link of a session to its bot (\<^verbatim>\<open>backend/src/soulfire/session.ts\<close>): the event stream with its frames and reconnections,
  the status queries that run beside it, the reports to the supervisor, and the abort that ends everything. What the
  scheduler is told is an event of \<open>Soulfire_Session\<close>; \<open>lk_trace\<close> keeps these events. A run of the link ends with the abort;
  the settling of interrupted calls after it is not part of it. Coordinates are rationals.
\<close>

section \<open>State\<close>

record position =
  ps_x :: rat
  ps_y :: rat
  ps_z :: rat
  ps_dimension :: jstr

record position_delta =
  pd_x :: "rat option"
  pd_y :: "rat option"
  pd_z :: "rat option"
  pd_dimension :: "jstr option"

datatype link_out =
    Link_login
  | Link_heartbeat
  | Link_failed jstr
  | Link_warning jstr
  | Link_control "jstr option"
  | Link_log jstr

text \<open>The stream is read, or it waits: for the spawn (of a snapshot or of a lifecycle frame), for the respawn, or to be opened again.\<close>

datatype stream = Reading | Stream_spawning | Stream_respawning | Backing_off int

datatype query = No_query | Asked | Query_spawning | Probing

datatype waiter = Stream_waits bool | Query_waits

record link =
  lk_session :: soul_session
  lk_trace :: "(int \<times> soul_event) list"
  lk_aborted :: bool
  lk_outs :: "link_out list"
  lk_stream :: stream
  lk_retry :: int
  lk_stream_warned :: "int option"
  lk_position :: "position option"
  lk_startup :: "runtime_state option"
  lk_down :: bool
  lk_heartbeat :: int
  lk_query :: query
  lk_asked :: "int option"
  lk_waiters :: "waiter list"

definition new_link :: "soul_env \<Rightarrow> soul_config \<Rightarrow> link" where
  "new_link e c = \<lparr>lk_session = new_session e c, lk_trace = [], lk_aborted = False, lk_outs = [], lk_stream = Reading, lk_retry = 500,
     lk_stream_warned = None, lk_position = None, lk_startup = None, lk_down = False, lk_heartbeat = 0, lk_query = No_query,
     lk_asked = None, lk_waiters = []\<rparr>"

definition report :: "link_out \<Rightarrow> link \<Rightarrow> link" where
  "report out x = x\<lparr>lk_outs := lk_outs x @ [out]\<rparr>"

definition fail_link :: "jstr \<Rightarrow> link \<Rightarrow> link" where
  "fail_link m x = (report (Link_failed m) x)\<lparr>lk_aborted := True\<rparr>"

definition tell_soul :: "soul_env \<Rightarrow> int \<Rightarrow> soul_event \<Rightarrow> link \<Rightarrow> link" where
  "tell_soul e t ev x = x\<lparr>lk_session := soul_step e (t, ev) (lk_session x), lk_trace := lk_trace x @ [(t, ev)]\<rparr>"

abbreviation in_world :: "link \<Rightarrow> bool" where
  "in_world x \<equiv> ss_world (lk_session x)"

section \<open>Reports\<close>

definition startup_log :: "runtime_state \<Rightarrow> jstr option" where
  "startup_log st = (case st of
       Runtime_queued \<Rightarrow> Some (js ''Warte auf den Verbindungsstart im Bot-Dienst'' @ [8230])
     | Runtime_starting \<Rightarrow> Some (js ''Minecraft-Client wird gestartet'' @ [8230])
     | Runtime_running \<Rightarrow> Some (js ''Minecraft-Client gestartet; warte auf Serveranmeldung und Weltbeitritt'' @ [8230])
     | _ \<Rightarrow> None)"

definition startup_status :: "runtime_state option \<Rightarrow> link \<Rightarrow> link" where
  "startup_status st x =
     (if in_world x \<or> st = lk_startup x then x
      else let x1 = x\<lparr>lk_startup := st\<rparr>
        in case Option.bind st startup_log of None \<Rightarrow> x1 | Some m \<Rightarrow> report (Link_log m) x1)"

definition control_restored :: "link \<Rightarrow> link" where
  "control_restored x = (if lk_down x then report (Link_control None) (x\<lparr>lk_down := False\<rparr>) else x)"

definition heartbeat :: "int \<Rightarrow> link \<Rightarrow> link" where
  "heartbeat t x = report Link_heartbeat (x\<lparr>lk_heartbeat := t\<rparr>)"

section \<open>Entering the world\<close>

text \<open>\<^verbatim>\<open>spawned\<close> by the stream or by a status query: nothing in the world, otherwise whoever asked waits.\<close>

definition enter_world :: "soul_env \<Rightarrow> int \<Rightarrow> soul_event \<Rightarrow> waiter \<Rightarrow> link \<Rightarrow> link" where
  "enter_world e t ev w x = (tell_soul e t ev x)\<lparr>lk_waiters := lk_waiters x @ [w],
     lk_stream := (case w of Stream_waits _ \<Rightarrow> Stream_spawning | Query_waits \<Rightarrow> lk_stream x),
     lk_query := (case w of Stream_waits _ \<Rightarrow> lk_query x | Query_waits \<Rightarrow> Query_spawning)\<rparr>"

section \<open>The event stream\<close>

definition stream_error :: "soul_env \<Rightarrow> int \<Rightarrow> rpc_failure \<Rightarrow> link \<Rightarrow> link" where
  "stream_error e t f x =
     (if \<not> retry_event_stream f then fail_link (soul_error f) x
      else let x1 = tell_soul e t Ev_resync x;
               x2 = (if due (lk_stream_warned x1) 30000 t
                     then report (Link_warning (js ''SoulFire-Ereignisstream unterbrochen: '' @ soul_error f @ js ''; verbinde Ereignisstream erneut''))
                       (x1\<lparr>lk_stream_warned := Some t\<rparr>)
                     else x1)
        in x2\<lparr>lk_stream := Backing_off (t + lk_retry x2), lk_retry := min (lk_retry x2 * 2) 5000\<rparr>)"

text \<open>Frames of the game show that it is alive; other frames do not count.\<close>

definition after_frame :: "int \<Rightarrow> bool \<Rightarrow> link \<Rightarrow> link" where
  "after_frame t game x =
     (if in_world x \<and> game \<and> 5000 \<le> t - lk_heartbeat x then heartbeat t (control_restored x) else x)"

definition moved_away :: "position \<Rightarrow> position \<Rightarrow> bool" where
  "moved_away p q \<longleftrightarrow> ps_dimension p \<noteq> ps_dimension q
     \<or> 1 < (ps_x p - ps_x q)\<^sup>2 + (ps_y p - ps_y q)\<^sup>2 + (ps_z p - ps_z q)\<^sup>2"

definition apply_delta :: "position_delta \<Rightarrow> position \<Rightarrow> position" where
  "apply_delta d p = \<lparr>ps_x = given_or (pd_x d) (ps_x p), ps_y = given_or (pd_y d) (ps_y p), ps_z = given_or (pd_z d) (ps_z p),
     ps_dimension = given_or (pd_dimension d) (ps_dimension p)\<rparr>"

definition move_to :: "soul_env \<Rightarrow> int \<Rightarrow> position \<Rightarrow> link \<Rightarrow> link" where
  "move_to e t q x =
     (let x1 = (case lk_position x of None \<Rightarrow> x | Some p \<Rightarrow> if moved_away p q then tell_soul e t Ev_moved x else x)
      in x1\<lparr>lk_position := Some q\<rparr>)"

datatype link_frame =
    F_status runtime_state jstr
  | F_resync
  | F_inventory bool
  | F_chat "jstr option" jstr
  | F_snapshot position
  | F_delta position_delta
  | F_connected
  | F_disconnected jstr
  | F_died
  | F_respawned
  | F_spawned
  | F_other

text \<open>A status query is due when the game was silent for five seconds; it never runs twice at a time.\<close>

definition ask_status :: "int \<Rightarrow> link \<Rightarrow> link" where
  "ask_status t x =
     (if lk_query x = No_query \<and> 5000 \<le> t - lk_heartbeat x \<and> due (lk_asked x) 5000 t
      then x\<lparr>lk_query := Asked, lk_asked := Some t\<rparr> else x)"

text \<open>Waking the scheduler is a step of it, unless a job runs.\<close>

definition wake_link :: "int \<Rightarrow> link \<Rightarrow> link" where
  "wake_link t x = (if ss_job (lk_session x) = None then ask_status t x else x)"

definition stopped_text :: jstr where
  "stopped_text = js ''SoulFire-Bot wurde gestoppt (m'' @ [246] @ js ''glicher Neustart des gemeinsamen Dienstes)''"

definition receive_frame :: "soul_env \<Rightarrow> int \<Rightarrow> link_frame \<Rightarrow> link \<Rightarrow> link" where
  "receive_frame e t fr x0 = (let x = x0\<lparr>lk_retry := 500\<rparr> in case fr of
       F_status st m \<Rightarrow>
         (let x1 = startup_status (Some st) x
          in if st = Runtime_failed \<or> st = Runtime_retrying
             then fail_link (soul_error (plain_failure (text_or m (js ''SoulFire-Verbindung fehlgeschlagen'')))) x1
             else if st = Runtime_stopped \<and> in_world x1 then fail_link (soul_error (plain_failure stopped_text)) x1
             else x1)
     | F_resync \<Rightarrow> tell_soul e t Ev_resync x
     | F_inventory state \<Rightarrow> after_frame t True (if state then tell_soul e t Ev_inventory (wake_link t x) else x)
     | F_chat sender m \<Rightarrow> tell_soul e t (Ev_chat sender m) (wake_link t x)
     | F_snapshot p \<Rightarrow>
         (let x1 = move_to e t p x
          in if in_world x1 then after_frame t True x1 else enter_world e t Ev_spawned (Stream_waits True) x1)
     | F_delta d \<Rightarrow>
         after_frame t True (case lk_position x of None \<Rightarrow> x | Some p \<Rightarrow> move_to e t (apply_delta d p) x)
     | F_connected \<Rightarrow> report Link_login x
     | F_disconnected m \<Rightarrow> fail_link (soul_error (plain_failure (text_or m (js ''Minecraft-Verbindung beendet'')))) x
     | F_died \<Rightarrow> (tell_soul e t Ev_died x)\<lparr>lk_stream := Stream_respawning\<rparr>
     | F_respawned \<Rightarrow> enter_world e t Ev_respawned (Stream_waits False) x
     | F_spawned \<Rightarrow> if in_world x then x else enter_world e t Ev_spawned (Stream_waits False) x
     | F_other \<Rightarrow> x)"

section \<open>The status queries\<close>

definition status_answered :: "soul_env \<Rightarrow> int \<Rightarrow> (runtime_state \<times> jstr) option \<Rightarrow> bool \<Rightarrow> link \<Rightarrow> link" where
  "status_answered e t st alive x0 =
     (let x = startup_status (map_option fst st) (control_restored (x0\<lparr>lk_query := No_query\<rparr>)) in case st of
       Some (Runtime_failed, m) \<Rightarrow> fail_link (text_or m (js ''Minecraft-Verbindung fehlgeschlagen'')) x
     | Some (Runtime_retrying, m) \<Rightarrow> fail_link (text_or m (js ''Minecraft-Verbindung fehlgeschlagen'')) x
     | Some (Runtime_stopped, m) \<Rightarrow> fail_link stopped_text x
     | _ \<Rightarrow>
         if alive \<and> map_option fst st = Some Runtime_running \<and> \<not> in_world x then enter_world e t Ev_spawned Query_waits x
         else if in_world x \<and> alive then heartbeat t x else x)"

definition status_failed :: "rpc_failure \<Rightarrow> link \<Rightarrow> link" where
  "status_failed f x =
     (if unavailable_control_service f then x\<lparr>lk_query := Probing\<rparr>
      else if \<not> retry_event_stream f then fail_link (soul_error f) (x\<lparr>lk_query := No_query\<rparr>)
      else x\<lparr>lk_query := No_query\<rparr>)"

text \<open>The probe asks the status manager, which needs no answer of the game; what it says is never taken for a sign of life.\<close>

definition probe_answered :: "rpc_failure + bot_status \<Rightarrow> link \<Rightarrow> link" where
  "probe_answered r x0 = (let x = x0\<lparr>lk_query := No_query\<rparr> in case r of
       Inr b \<Rightarrow>
         (let x1 = startup_status (Some (bs_state b)) (control_restored x)
          in if bs_state b = Runtime_failed \<or> bs_state b = Runtime_retrying \<or> bs_state b = Runtime_stopped
             then fail_link (text_or (bs_error b) (js ''SoulFire-Bot ist nicht mehr verbunden'')) x1 else x1)
     | Inl f \<Rightarrow>
         if \<not> retry_event_stream f then fail_link (soul_error f) x
         else report (Link_control (Some (soul_error f))) (x\<lparr>lk_down := True\<rparr>))"

section \<open>The answers to a spawn\<close>

definition reply_of :: "rpc_failure option \<Rightarrow> game_reply" where
  "reply_of f = (case f of None \<Rightarrow> R_done | Some f \<Rightarrow> R_error (message_of_failure f))"

definition spawn_ended :: "soul_env \<Rightarrow> int \<Rightarrow> waiter \<Rightarrow> rpc_failure option \<Rightarrow> link \<Rightarrow> link" where
  "spawn_ended e t w f x = (case (w, f) of
       (Stream_waits game, None) \<Rightarrow> after_frame t game (x\<lparr>lk_stream := Reading\<rparr>)
     | (Stream_waits game, Some f) \<Rightarrow> stream_error e t f (x\<lparr>lk_stream := Reading\<rparr>)
     | (Query_waits, None) \<Rightarrow> if in_world x then heartbeat t (x\<lparr>lk_query := No_query\<rparr>) else x\<lparr>lk_query := No_query\<rparr>
     | (Query_waits, Some f) \<Rightarrow> status_failed f x)"

definition spawn_answered :: "soul_env \<Rightarrow> int \<Rightarrow> nat \<Rightarrow> rpc_failure option \<Rightarrow> link \<Rightarrow> link" where
  "spawn_answered e t i f x =
     (let x1 = tell_soul e t (Ev_spawn_answer i (reply_of f)) x
      in if length (lk_waiters x) \<le> i then x
         else if length (ss_spawns (lk_session x1)) = length (ss_spawns (lk_session x)) then x1
         else spawn_ended e t (lk_waiters x ! i) f (x1\<lparr>lk_waiters := take i (lk_waiters x) @ drop (Suc i) (lk_waiters x)\<rparr>))"

section \<open>Steps\<close>

datatype link_event =
    L_timer
  | L_frame link_frame
  | L_stream_ended "rpc_failure option"
  | L_open_again
  | L_respawn_answered "rpc_failure option"
  | L_spawn_answered nat "rpc_failure option"
  | L_status_answered "(runtime_state \<times> jstr) option" bool
  | L_status_failed rpc_failure
  | L_probe_answered "rpc_failure + bot_status"
  | L_started "rpc_failure option"
  | L_answer game_reply
  | L_command soul_command
  | L_abort

definition ended_failure :: "rpc_failure option \<Rightarrow> rpc_failure" where
  "ended_failure f = given_or f (plain_failure (js ''SoulFire-Ereignisstream wurde beendet''))"

fun link_event_step :: "soul_env \<Rightarrow> int \<Rightarrow> link_event \<Rightarrow> link \<Rightarrow> link" where
  "link_event_step e t L_timer x = tell_soul e t Ev_timer (ask_status t x)"
| "link_event_step e t (L_frame fr) x = (if lk_stream x = Reading then receive_frame e t fr x else x)"
| "link_event_step e t (L_stream_ended f) x = (if lk_stream x = Reading then stream_error e t (ended_failure f) x else x)"
| "link_event_step e t L_open_again x = (case lk_stream x of
       Backing_off u \<Rightarrow> if u \<le> t then x\<lparr>lk_stream := Reading\<rparr> else x
     | _ \<Rightarrow> x)"
| "link_event_step e t (L_respawn_answered f) x =
     (if lk_stream x \<noteq> Stream_respawning then x
      else case f of None \<Rightarrow> x\<lparr>lk_stream := Reading\<rparr> | Some f \<Rightarrow> stream_error e t f (x\<lparr>lk_stream := Reading\<rparr>))"
| "link_event_step e t (L_spawn_answered i f) x = spawn_answered e t i f x"
| "link_event_step e t (L_status_answered st alive) x = (if lk_query x = Asked then status_answered e t st alive x else x)"
| "link_event_step e t (L_status_failed f) x = (if lk_query x = Asked then status_failed f x else x)"
| "link_event_step e t (L_probe_answered r) x = (if lk_query x = Probing then probe_answered r x else x)"
| "link_event_step e t (L_started f) x = (case f of None \<Rightarrow> x | Some f \<Rightarrow> fail_link (soul_error f) x)"
| "link_event_step e t (L_answer r) x =
     (let x1 = tell_soul e t (Ev_answer r) x
      in if ss_wake (lk_session x) \<and> \<not> ss_wake (lk_session x1) then ask_status t x1 else x1)"
| "link_event_step e t (L_command c) x = tell_soul e t (Ev_command c) x"
| "link_event_step e t L_abort x = x\<lparr>lk_aborted := True\<rparr>"

definition link_step :: "soul_env \<Rightarrow> int \<times> link_event \<Rightarrow> link \<Rightarrow> link" where
  "link_step e ev x = (if lk_aborted x then x else link_event_step e (fst ev) (snd ev) x)"

definition link_run :: "soul_env \<Rightarrow> soul_config \<Rightarrow> (int \<times> link_event) list \<Rightarrow> link" where
  "link_run e c evs = fold (link_step e) evs (new_link e c)"

section \<open>The reports of a link\<close>

text \<open>What the supervisor may hear: nothing after a failure, and a restored control service only after a lost one. The state is
  whether the service is lost, and whether the link has failed.\<close>

fun heard :: "bool \<times> bool \<Rightarrow> link_out list \<Rightarrow> (bool \<times> bool) option" where
  "heard s [] = Some s"
| "heard (down, over) (r # rs) =
     (if over then None
      else case r of
          Link_failed _ \<Rightarrow> heard (down, True) rs
        | Link_control None \<Rightarrow> if down then heard (False, False) rs else None
        | Link_control (Some _) \<Rightarrow> heard (True, False) rs
        | _ \<Rightarrow> heard (down, False) rs)"

lemma heard_append: "heard s (xs @ ys) = Option.bind (heard s xs) (\<lambda>s. heard s ys)"
  by (induction s xs rule: heard.induct) (auto split: link_out.split option.split)

definition link_sound :: "soul_env \<Rightarrow> soul_config \<Rightarrow> int set \<Rightarrow> link \<Rightarrow> bool" where
  "link_sound e c T x \<longleftrightarrow> lk_session x = soul_run e c (lk_trace x) \<and> fst ` set (lk_trace x) \<subseteq> T
     \<and> (\<exists>over. heard (False, False) (lk_outs x) = Some (lk_down x, over) \<and> (over \<longrightarrow> lk_aborted x))
     \<and> 500 \<le> lk_retry x \<and> lk_retry x \<le> 5000"

definition live_ok :: "soul_env \<Rightarrow> soul_config \<Rightarrow> int set \<Rightarrow> link \<Rightarrow> bool" where
  "live_ok e c T x \<longleftrightarrow> link_sound e c T x \<and> \<not> lk_aborted x"

lemma live_okD: "live_ok e c T x \<Longrightarrow> link_sound e c T x"
  by (simp add: live_ok_def)

lemma soul_run_snoc: "soul_run e c (evs @ [ev]) = soul_step e ev (soul_run e c evs)"
  by (simp add: soul_run_def)

lemma tell_soul_ok: "live_ok e c T x \<Longrightarrow> t \<in> T \<Longrightarrow> live_ok e c T (tell_soul e t ev x)"
  by (auto simp: live_ok_def link_sound_def tell_soul_def soul_run_snoc)

text \<open>The fields that the reports and the session do not depend on.\<close>

definition same_link :: "link \<Rightarrow> link \<Rightarrow> bool" where
  "same_link x y \<longleftrightarrow> lk_session y = lk_session x \<and> lk_trace y = lk_trace x \<and> lk_outs y = lk_outs x \<and> lk_down y = lk_down x
     \<and> lk_aborted y = lk_aborted x \<and> (lk_retry y = lk_retry x \<or> 500 \<le> lk_retry y \<and> lk_retry y \<le> 5000)"

lemma same_link_ok: "live_ok e c T x \<Longrightarrow> same_link x y \<Longrightarrow> live_ok e c T y"
  by (auto simp: live_ok_def link_sound_def same_link_def)

lemma report_ok:
  assumes "live_ok e c T x" and "out \<noteq> Link_control None" "\<And>m. out \<noteq> Link_failed m" "\<And>m. out \<noteq> Link_control (Some m)"
  shows "live_ok e c T (report out x)"
  using assms by (cases out) (auto simp: live_ok_def link_sound_def report_def heard_append)

lemma report_lost_ok: "live_ok e c T x \<Longrightarrow> live_ok e c T (report (Link_control (Some m)) (x\<lparr>lk_down := True\<rparr>))"
  by (auto simp: live_ok_def link_sound_def report_def heard_append)

lemma control_restored_ok: "live_ok e c T x \<Longrightarrow> live_ok e c T (control_restored x)"
  by (auto simp: control_restored_def live_ok_def link_sound_def report_def heard_append)

lemma fail_link_ok: "live_ok e c T x \<Longrightarrow> link_sound e c T (fail_link m x)"
  by (auto simp: fail_link_def live_ok_def link_sound_def report_def heard_append)

lemma heartbeat_ok: "live_ok e c T x \<Longrightarrow> live_ok e c T (heartbeat t x)"
  unfolding heartbeat_def by (rule report_ok) (auto simp: same_link_def elim: same_link_ok)

lemma startup_status_ok: "live_ok e c T x \<Longrightarrow> live_ok e c T (startup_status st x)"
  by (auto simp: startup_status_def Let_def same_link_def elim: same_link_ok intro!: report_ok split: option.split)

lemma enter_world_ok: "live_ok e c T x \<Longrightarrow> t \<in> T \<Longrightarrow> live_ok e c T (enter_world e t ev w x)"
  unfolding enter_world_def by (rule same_link_ok [OF tell_soul_ok]) (auto simp: same_link_def)

lemma ask_status_ok: "live_ok e c T x \<Longrightarrow> live_ok e c T (ask_status t x)"
  by (auto simp: ask_status_def same_link_def elim: same_link_ok)

lemma wake_link_ok: "live_ok e c T x \<Longrightarrow> live_ok e c T (wake_link t x)"
  by (simp add: wake_link_def ask_status_ok)

lemma after_frame_ok: "live_ok e c T x \<Longrightarrow> live_ok e c T (after_frame t game x)"
  by (simp add: after_frame_def heartbeat_ok control_restored_ok)

lemma move_to_ok: "live_ok e c T x \<Longrightarrow> t \<in> T \<Longrightarrow> live_ok e c T (move_to e t q x)"
  unfolding move_to_def Let_def
  by (rule same_link_ok [where x = "case lk_position x of None \<Rightarrow> x | Some p \<Rightarrow> if moved_away p q then tell_soul e t Ev_moved x else x"])
    (auto simp: same_link_def tell_soul_ok split: option.split)

lemmas live_intros = tell_soul_ok control_restored_ok heartbeat_ok startup_status_ok enter_world_ok ask_status_ok wake_link_ok
  after_frame_ok move_to_ok report_lost_ok

lemma live_backoff: "live_ok e c T x \<Longrightarrow> live_ok e c T (x\<lparr>lk_stream := st, lk_retry := min (lk_retry x * 2) 5000\<rparr>)"
  by (auto simp: live_ok_def link_sound_def)

lemma stream_error_ok: "live_ok e c T x \<Longrightarrow> t \<in> T \<Longrightarrow> link_sound e c T (stream_error e t f x)"
proof -
  assume x: "live_ok e c T x" and t: "t \<in> T"
  let ?x1 = "tell_soul e t Ev_resync x"
  let ?x2 = "if due (lk_stream_warned ?x1) 30000 t
    then report (Link_warning (js ''SoulFire-Ereignisstream unterbrochen: '' @ soul_error f @ js ''; verbinde Ereignisstream erneut''))
      (?x1\<lparr>lk_stream_warned := Some t\<rparr>) else ?x1"
  have x1: "live_ok e c T ?x1" by (rule tell_soul_ok [OF x t])
  then have "live_ok e c T (?x1\<lparr>lk_stream_warned := Some t\<rparr>)" by (rule same_link_ok) (simp add: same_link_def)
  with x1 have "live_ok e c T ?x2" by (simp add: report_ok)
  then have "live_ok e c T (?x2\<lparr>lk_stream := Backing_off (t + lk_retry ?x2), lk_retry := min (lk_retry ?x2 * 2) 5000\<rparr>)"
    by (rule live_backoff)
  then show ?thesis unfolding stream_error_def Let_def using fail_link_ok [OF x] by (simp add: live_okD)
qed

lemma live_updates:
  "live_ok e c T x \<Longrightarrow> live_ok e c T (x\<lparr>lk_stream := st\<rparr>)"
  "live_ok e c T x \<Longrightarrow> live_ok e c T (x\<lparr>lk_query := q\<rparr>)"
  "live_ok e c T x \<Longrightarrow> live_ok e c T (x\<lparr>lk_waiters := ws\<rparr>)"
  "live_ok e c T x \<Longrightarrow> live_ok e c T (x\<lparr>lk_retry := 500\<rparr>)"
  by (auto simp: live_ok_def link_sound_def)

lemma receive_frame_ok:
  assumes "live_ok e c T x" "t \<in> T"
  shows "link_sound e c T (receive_frame e t fr x)"
proof -
  have x: "live_ok e c T (x\<lparr>lk_retry := 500\<rparr>)" by (rule live_updates [OF assms(1)])
  note facts = fail_link_ok live_okD live_intros live_updates report_ok x assms(2)
  show ?thesis by (cases fr) (simp_all add: receive_frame_def Let_def facts split: option.split)
qed

lemma status_failed_ok: "live_ok e c T x \<Longrightarrow> link_sound e c T (status_failed f x)"
  by (simp add: status_failed_def fail_link_ok live_okD live_updates)

lemma status_answered_ok:
  assumes "live_ok e c T x" "t \<in> T"
  shows "link_sound e c T (status_answered e t st alive x)"
  using assms
  by (simp add: status_answered_def Let_def fail_link_ok live_okD live_intros live_updates split: option.split prod.split runtime_state.split)

lemma probe_answered_ok: "live_ok e c T x \<Longrightarrow> link_sound e c T (probe_answered r x)"
  using report_lost_ok [of e c T "x\<lparr>lk_query := No_query\<rparr>"]
  by (simp add: probe_answered_def Let_def fail_link_ok live_okD live_intros live_updates split: sum.split)

lemma spawn_ended_ok: "live_ok e c T x \<Longrightarrow> t \<in> T \<Longrightarrow> link_sound e c T (spawn_ended e t w f x)"
  by (simp add: spawn_ended_def live_okD live_intros live_updates stream_error_ok status_failed_ok split: waiter.split option.split)

lemma link_event_step_ok:
  assumes "live_ok e c T x" "t \<in> T"
  shows "link_sound e c T (link_event_step e t ev x)"
proof -
  note facts = live_okD live_intros live_updates stream_error_ok receive_frame_ok status_failed_ok status_answered_ok probe_answered_ok
    spawn_ended_ok fail_link_ok assms
  show ?thesis
  proof (cases ev)
    case L_abort
    then show ?thesis using assms(1) by (auto simp: live_ok_def link_sound_def)
  qed (simp_all add: spawn_answered_def Let_def facts split: option.split stream.split)
qed

lemma link_step_ok: "link_sound e c T x \<Longrightarrow> fst ev \<in> T \<Longrightarrow> link_sound e c T (link_step e ev x)"
  by (simp add: link_step_def link_event_step_ok live_ok_def)

lemma new_link_ok: "link_sound e c T (new_link e c)"
  by (auto simp: link_sound_def new_link_def soul_run_def intro: exI [of _ False])

lemma link_run_ok: "fst ` set evs \<subseteq> T \<Longrightarrow> link_sound e c T (link_run e c evs)"
proof -
  have "link_sound e c T x \<Longrightarrow> fst ` set evs \<subseteq> T \<Longrightarrow> link_sound e c T (fold (link_step e) evs x)" for x
    by (induction evs arbitrary: x) (auto simp: link_step_ok)
  from this [OF new_link_ok] show "fst ` set evs \<subseteq> T \<Longrightarrow> link_sound e c T (link_run e c evs)" by (simp add: link_run_def)
qed

text \<open>The supervisor hears of a failure at most once and of nothing after it, hears that the control service is back only
  after it was told that it was lost, and the stream is opened again after half a second to five seconds.\<close>

theorem links_report_in_order:
  "\<exists>over. heard (False, False) (lk_outs (link_run e c evs)) = Some (lk_down (link_run e c evs), over)
     \<and> (if over then lk_aborted (link_run e c evs) else True)
     \<and> 500 \<le> lk_retry (link_run e c evs) \<and> lk_retry (link_run e c evs) \<le> 5000"
proof -
  have "link_sound e c UNIV (link_run e c evs)" by (rule link_run_ok) simp
  then show ?thesis unfolding link_sound_def by (auto simp only: if_True if_False split: if_split)
qed

text \<open>C19. The scheduler below a link is a run of \<open>Soulfire_Session\<close>: what was shown for those runs holds here, whatever the stream and
  the status queries do. So every call is permitted, with the homes that the server confirmed.\<close>

theorem link_sessions_are_runs:
  assumes "0 < a" and "a \<le> b" and "list_all (\<lambda>ev. a \<le> fst ev \<and> fst ev \<le> b) evs"
  shows "lk_session (link_run e c evs) = soul_run e c (lk_trace (link_run e c evs))
    \<and> list_all (permitted_call (set (confirmed_homes e (lk_trace (link_run e c evs))))) (ss_calls (lk_session (link_run e c evs)))"
proof -
  have ok: "link_sound e c {a..b} (link_run e c evs)" by (rule link_run_ok) (use assms(3) in \<open>auto simp: list_all_iff\<close>)
  then have run: "lk_session (link_run e c evs) = soul_run e c (lk_trace (link_run e c evs))" by (simp add: link_sound_def)
  have "within_times a b (lk_trace (link_run e c evs))" using ok assms(1,2) by (auto simp: link_sound_def within_times_def list_all_iff)
  from soul_run_sound [OF this, of e c] show ?thesis by (simp add: run sound_def)
qed

section \<open>Signs of life\<close>

definition beats :: "link \<Rightarrow> nat" where
  "beats x = length (filter (\<lambda>r. r = Link_heartbeat) (lk_outs x))"

text \<open>The events that show that the game runs: a frame of the game, a living player in the answer to a status query, or the end of
  the spawn that such an event began.\<close>

fun sign_of_life :: "link \<Rightarrow> link_event \<Rightarrow> bool" where
  "sign_of_life x (L_frame (F_snapshot p)) \<longleftrightarrow> True"
| "sign_of_life x (L_frame (F_delta d)) \<longleftrightarrow> True"
| "sign_of_life x (L_frame (F_inventory state)) \<longleftrightarrow> True"
| "sign_of_life x (L_status_answered st alive) \<longleftrightarrow> alive"
| "sign_of_life x (L_spawn_answered i f) \<longleftrightarrow> f = None \<and> i < length (lk_waiters x) \<and> lk_waiters x ! i \<noteq> Stream_waits False"
| "sign_of_life x _ \<longleftrightarrow> False"

lemma beats_report [simp]: "beats (report r x) = (if r = Link_heartbeat then Suc (beats x) else beats x)"
  by (simp add: beats_def report_def)

lemma beats_update [simp]:
  "beats (x\<lparr>lk_stream := st\<rparr>) = beats x" "beats (x\<lparr>lk_query := q\<rparr>) = beats x" "beats (x\<lparr>lk_waiters := ws\<rparr>) = beats x"
  "beats (x\<lparr>lk_retry := n\<rparr>) = beats x" "beats (x\<lparr>lk_down := b\<rparr>) = beats x" "beats (x\<lparr>lk_heartbeat := t\<rparr>) = beats x"
  "beats (x\<lparr>lk_asked := a\<rparr>) = beats x" "beats (x\<lparr>lk_aborted := b\<rparr>) = beats x" "beats (x\<lparr>lk_startup := u\<rparr>) = beats x"
  "beats (x\<lparr>lk_position := q'\<rparr>) = beats x" "beats (x\<lparr>lk_stream_warned := w\<rparr>) = beats x"
  by (simp_all add: beats_def)

lemma beats_tell [simp]: "beats (tell_soul e t ev x) = beats x"
  by (simp add: beats_def tell_soul_def)

lemma beats_parts [simp]:
  "beats (fail_link m x) = beats x" "beats (control_restored x) = beats x" "beats (startup_status st x) = beats x"
  "beats (enter_world e t ev w x) = beats x" "beats (ask_status t x) = beats x" "beats (wake_link t x) = beats x"
  "beats (move_to e t q x) = beats x" "beats (stream_error e t f x) = beats x" "beats (status_failed f x) = beats x"
  "beats (probe_answered r x) = beats x" "beats (heartbeat t x) = Suc (beats x)"
  by (simp_all add: fail_link_def control_restored_def startup_status_def enter_world_def ask_status_def wake_link_def move_to_def
      stream_error_def status_failed_def probe_answered_def heartbeat_def Let_def split: option.split sum.split)

lemma session_parts [simp]:
  "lk_session (report r x) = lk_session x" "lk_session (control_restored x) = lk_session x" "lk_session (heartbeat t x) = lk_session x"
  "lk_session (startup_status st x) = lk_session x"
  by (simp_all add: report_def control_restored_def heartbeat_def startup_status_def Let_def split: option.split)

text \<open>A beat is not wrong.\<close>

definition honest :: "bool \<Rightarrow> link \<Rightarrow> link \<Rightarrow> bool" where
  "honest life x y \<longleftrightarrow> (if beats y = beats x then True else beats y = Suc (beats x) \<and> life \<and> in_world y)"

lemma after_frame_honest: "beats x = beats x0 \<Longrightarrow> honest (game \<or> life) x0 (after_frame t game x)"
  by (simp add: honest_def after_frame_def)

lemma same_honest: "beats y = beats x \<Longrightarrow> honest life x y"
  by (simp add: honest_def)

lemma receive_frame_honest: "honest (sign_of_life x (L_frame fr)) x (receive_frame e t fr x)"
proof (cases fr)
  case (F_snapshot p)
  then show ?thesis using after_frame_honest [of _ x True False t]
    by (simp add: receive_frame_def Let_def same_honest)
qed (use after_frame_honest [of _ x True False t] in \<open>simp_all add: receive_frame_def Let_def same_honest split: option.split\<close>)

lemma status_answered_honest: "honest alive x (status_answered e t st alive x)"
  by (auto simp: status_answered_def Let_def honest_def split: option.split prod.split runtime_state.split)

lemma spawn_ended_honest: "beats x = beats x0 \<Longrightarrow> honest (f = None \<and> w \<noteq> Stream_waits False) x0 (spawn_ended e t w f x)"
proof (cases w)
  case (Stream_waits game)
  then show "beats x = beats x0 \<Longrightarrow> honest (f = None \<and> w \<noteq> Stream_waits False) x0 (spawn_ended e t w f x)"
    using after_frame_honest [of "x\<lparr>lk_stream := Reading\<rparr>" x0 game False t]
    by (cases f) (simp_all add: spawn_ended_def same_honest)
qed (auto simp: spawn_ended_def honest_def split: option.split)

text \<open>C20. The supervisor is told of a sign of life only when there was one, at most once per event, and only while the bot is in its
  world: an answer about the process, or a restored control service, is never taken for one.\<close>

theorem heartbeats_are_signs_of_life:
  "if beats (link_step e ev x) = beats x then True
   else beats (link_step e ev x) = Suc (beats x) \<and> sign_of_life x (snd ev) \<and> in_world (link_step e ev x)"
proof -
  obtain t v where ev: "ev = (t, v)" by (cases ev)
  have "honest (sign_of_life x v) x (link_event_step e t v x)"
  proof (cases v)
    case (L_frame fr)
    then show ?thesis by (simp add: receive_frame_honest same_honest)
  next
    case (L_spawn_answered i f)
    then show ?thesis using spawn_ended_honest [of _ x f "lk_waiters x ! i" e t]
      by (auto simp: spawn_answered_def Let_def same_honest)
  next
    case (L_status_answered st alive)
    then show ?thesis by (simp add: status_answered_honest same_honest)
  qed (auto intro!: same_honest simp: Let_def split: option.split stream.split)
  then show ?thesis by (simp add: ev link_step_def honest_def)
qed

section \<open>Examples\<close>

text \<open>The bot enters its world, the stream breaks and is opened again, the service is lost and found, and the server ends it.\<close>

definition demo_link :: "(int \<times> link_event) list" where
  "demo_link = [(10000, L_timer), (10100, L_status_answered (Some (Runtime_starting, [])) False), (10200, L_frame F_connected),
    (10300, L_frame (F_snapshot \<lparr>ps_x = 0, ps_y = 64, ps_z = 0, ps_dimension = js ''w''\<rparr>)), (10400, L_spawn_answered 0 None),
    (10500, L_spawn_answered 0 None), (11000, L_stream_ended None), (11500, L_open_again), (11600, L_frame (F_inventory True)),
    (16000, L_timer), (16100, L_status_failed (connect_failure Code_unavailable (js ''down''))),
    (16200, L_probe_answered (Inl (connect_failure Code_unavailable (js ''down'')))), (16300, L_frame (F_inventory True)),
    (17000, L_frame (F_disconnected (js ''Kick''))), (18000, L_timer)]"

theorem link_sessions_are_runs_witness:
  "lk_outs (link_run (demo_soul_env True) demo_soul_config demo_link) =
     [Link_log (js ''Minecraft-Client wird gestartet'' @ [8230]), Link_login, Link_heartbeat,
      Link_warning (js ''SoulFire-Ereignisstream unterbrochen: SoulFire-Ereignisstream wurde beendet; verbinde Ereignisstream erneut''),
      Link_control (Some (js ''down'')), Link_control None, Link_heartbeat, Link_failed (js ''Kick'')]
   \<and> list_all (permitted_call (set (confirmed_homes (demo_soul_env True) (lk_trace (link_run (demo_soul_env True) demo_soul_config demo_link)))))
      (ss_calls (lk_session (link_run (demo_soul_env True) demo_soul_config demo_link)))"
proof
  show "lk_outs (link_run (demo_soul_env True) demo_soul_config demo_link) =
     [Link_log (js ''Minecraft-Client wird gestartet'' @ [8230]), Link_login, Link_heartbeat,
      Link_warning (js ''SoulFire-Ereignisstream unterbrochen: SoulFire-Ereignisstream wurde beendet; verbinde Ereignisstream erneut''),
      Link_control (Some (js ''down'')), Link_control None, Link_heartbeat, Link_failed (js ''Kick'')]" by code_simp
  have "list_all (\<lambda>ev. 1 \<le> fst ev \<and> fst ev \<le> 20000) demo_link" by (simp add: demo_link_def)
  then have "0 < (1::int)" "(1::int) \<le> 20000" "list_all (\<lambda>ev. 1 \<le> fst ev \<and> fst ev \<le> 20000) demo_link" by simp_all
  from link_sessions_are_runs [OF this, of "demo_soul_env True" demo_soul_config]
  show "list_all (permitted_call (set (confirmed_homes (demo_soul_env True) (lk_trace (link_run (demo_soul_env True) demo_soul_config demo_link)))))
      (ss_calls (lk_session (link_run (demo_soul_env True) demo_soul_config demo_link)))" by (rule conjunct2)
qed

end
