(* ===== verification/Soulfire_Gateway.thy ===== *)
theory Soulfire_Gateway
  imports Soulfire_Service
begin

text \<open>
  The gateway of a session (\<^verbatim>\<open>backend/src/soulfire/session.ts\<close>): what the calls of \<open>Soulfire_Behaviors\<close> do on the
  SoulFire server. Every method is an asynchronous process of remote calls over the values that the session remembers;
  the eye heights and coordinates are exact rationals.
\<close>

section \<open>Remote calls\<close>

type_synonym spot = "rat \<times> rat \<times> rat"

datatype setting_value =
    V_text jstr
  | V_number int
  | V_flag bool
  | V_button button
  | V_sell bool rat jstr

text \<open>A setting of the namespace \<^verbatim>\<open>afk-service\<close>; the other calls carry what the server needs of them.\<close>

datatype rpc_call =
    Rpc_set jstr setting_value
  | Rpc_chat jstr
  | Rpc_click jstr int click
  | Rpc_close jstr
  | Rpc_remember jstr
  | Rpc_player
  | Rpc_spawners spot
  | Rpc_raycast spot
  | Rpc_interact spot jstr bool
  | Rpc_await_menu jstr

datatype rpc_reply =
    Rpc_done
  | Rpc_refused jstr
  | Rpc_player_is "(spot \<times> jstr) option"
  | Rpc_blocks "spot list"
  | Rpc_hit "jstr option" "spot option"
  | Rpc_completed bool
  | Rpc_failed rpc_failure

text \<open>What the session remembers: of a setting, the value the server last confirmed.\<close>

record gateway =
  gw_button :: "button option"
  gw_crouch :: "bool option"
  gw_sell :: "(bool \<times> rat \<times> jstr) option"
  gw_selling :: bool
  gw_lease_at :: int
  gw_lease_busy :: bool
  gw_suspended :: int
  gw_home_pending :: bool
  gw_sneak_check :: nat
  gw_inventory :: "game_inventory option"

type_synonym 'a gateway_action = "(gateway, rpc_call, rpc_reply, rpc_failure, 'a) action"

section \<open>Settings\<close>

text \<open>A call that only succeeds or fails.\<close>

definition perform :: "rpc_call \<Rightarrow> unit gateway_action" where
  "perform c = ask c (\<lambda>r. case r of Rpc_failed f \<Rightarrow> throw f | _ \<Rightarrow> return ())"

definition BUTTON_KEY :: jstr where
  "BUTTON_KEY = js ''auto-button''"

definition CROUCH_KEY :: jstr where
  "CROUCH_KEY = js ''crouch-enabled''"

definition SELL_KEY :: jstr where
  "SELL_KEY = js ''native-auto-sell''"

definition LEASE_KEY :: jstr where
  "LEASE_KEY = js ''sell-lease-until''"

lemma keys_differ [simp]:
  "BUTTON_KEY \<noteq> CROUCH_KEY" "BUTTON_KEY \<noteq> SELL_KEY" "BUTTON_KEY \<noteq> LEASE_KEY" "CROUCH_KEY \<noteq> SELL_KEY" "CROUCH_KEY \<noteq> LEASE_KEY"
  "SELL_KEY \<noteq> LEASE_KEY"
  by (simp_all add: BUTTON_KEY_def CROUCH_KEY_def SELL_KEY_def LEASE_KEY_def)

lemmas keys_differ_sym [simp] = keys_differ [symmetric]

definition set_key :: "jstr \<Rightarrow> setting_value \<Rightarrow> unit gateway_action" where
  "set_key k v = perform (Rpc_set k v)"

text \<open>A call whose answer says whether it was carried out.\<close>

definition perform_or_refuse :: "rpc_call \<Rightarrow> jstr \<Rightarrow> unit gateway_action" where
  "perform_or_refuse c fallback = ask c (\<lambda>r. case r of
       Rpc_failed f \<Rightarrow> throw f
     | Rpc_refused m \<Rightarrow> throw (plain_failure (text_or m fallback))
     | _ \<Rightarrow> return ())"

definition initial_sell :: "soul_config \<Rightarrow> bool \<times> rat \<times> jstr" where
  "initial_sell c = (on (sc_autosell c), max 250 (given_or (sc_interval c) 60 * 1000), sale_command_of c)"

definition button_of :: "soul_config \<Rightarrow> button" where
  "button_of c = given_or (sc_button c) OFF"

definition new_gateway :: "soul_config \<Rightarrow> bool \<Rightarrow> gateway" where
  "new_gateway c home_pending = \<lparr>gw_button = Some (button_of c), gw_crouch = Some (on (sc_crouch c)), gw_sell = Some (initial_sell c),
     gw_selling = False, gw_lease_at = 0, gw_lease_busy = False, gw_suspended = 0, gw_home_pending = home_pending, gw_sneak_check = 0,
     gw_inventory = None\<rparr>"

definition home_pending_of :: "soul_config \<Rightarrow> bool" where
  "home_pending_of c \<longleftrightarrow> sc_return_home c \<noteq> Some False \<and> given (sc_home c)"

text \<open>The settings with which the account is replaced before the bot starts.\<close>

definition startup_settings :: "soul_config \<Rightarrow> jstr \<Rightarrow> int \<Rightarrow> int \<Rightarrow> int \<Rightarrow> setting_value settings" where
  "startup_settings c protocol t afterMs resumeMs =
     [(js ''auto-reconnect'', [(js ''enabled'', V_flag False)]),
      (js ''auto-respawn'', [(js ''enabled'', V_flag False)]),
      (js ''client-settings'', [(js ''render-distance'', V_number 2)]),
      (js ''bot'', [(js ''restore-on-reboot'', V_flag False), (js ''protocol-version'', V_text protocol)]),
      (js ''afk-service'', [(BUTTON_KEY, V_button (button_of c)), (CROUCH_KEY, V_flag (on (sc_crouch c))),
         (SELL_KEY, V_sell (fst (initial_sell c)) (fst (snd (initial_sell c))) (snd (snd (initial_sell c)))),
         (js ''sell-manual-until'', V_number 0), (js ''sell-home-pending'', V_flag (home_pending_of c)),
         (js ''sell-pause-from'', V_number (if resumeMs \<noteq> 0 then t + afterMs else 0)),
         (js ''sell-pause-until'', V_number (if resumeMs \<noteq> 0 then t + resumeMs else 0))])]"

definition renew_sell_lease :: "unit gateway_action" where
  "renew_sell_lease t = and_then (set_key LEASE_KEY (V_number (t + 90000)))
     (\<lambda>_. modify (\<lambda>t s. s\<lparr>gw_lease_at := t + 5000\<rparr>)) t"

definition hold_button :: "button \<Rightarrow> unit gateway_action" where
  "hold_button b t s = (if gw_button s = Some b then return () t s
     else and_then (set_key BUTTON_KEY (V_button b)) (\<lambda>_. modify (\<lambda>_ s. s\<lparr>gw_button := Some b\<rparr>)) t s)"

definition hold_crouch :: "bool \<Rightarrow> unit gateway_action" where
  "hold_crouch b t s = (if gw_crouch s = Some b then return () t s
     else and_then (set_key CROUCH_KEY (V_flag b)) (\<lambda>_. modify (\<lambda>_ s. s\<lparr>gw_crouch := Some b\<rparr>)) t s)"

definition hold_sell :: "bool \<times> rat \<times> jstr \<Rightarrow> unit gateway_action" where
  "hold_sell v t s = (if gw_sell s = Some v then return () t s
     else and_then (set_key SELL_KEY (V_sell (fst v) (fst (snd v)) (snd (snd v))))
       (\<lambda>_. modify (\<lambda>_ s. s\<lparr>gw_sell := Some v\<rparr>)) t s)"

definition hold_lease :: "unit gateway_action" where
  "hold_lease t s = (if gw_selling s \<and> gw_lease_at s \<le> t then renew_sell_lease t s else return () t s)"

definition held :: "soul_config \<Rightarrow> unit gateway_action" where
  "held c = and_then (hold_button (button_of c)) (\<lambda>_. and_then (hold_crouch (on (sc_crouch c))) (\<lambda>_.
     and_then (modify (\<lambda>_ s. s\<lparr>gw_selling := on (sc_autosell c)\<rparr>)) (\<lambda>_.
     and_then (hold_sell (initial_sell c)) (\<lambda>_. hold_lease))))"

definition recovering_home :: "bool \<Rightarrow> unit gateway_action" where
  "recovering_home pending t s = (if gw_home_pending s = pending then return () t s
     else and_then (set_key (js ''sell-home-pending'') (V_flag pending)) (\<lambda>_. modify (\<lambda>_ s. s\<lparr>gw_home_pending := pending\<rparr>)) t s)"

definition suspend_sell :: "int \<Rightarrow> unit gateway_action" where
  "suspend_sell duration t s = (let until = t + duration in
     if gw_selling s \<and> gw_suspended s < until
     then and_then (set_key (js ''sell-manual-until'') (V_number until)) (\<lambda>_. modify (\<lambda>_ s. s\<lparr>gw_suspended := until\<rparr>)) t s
     else return () t s)"

definition native_sell_pause :: "int \<Rightarrow> int \<Rightarrow> unit gateway_action" where
  "native_sell_pause afterMs resumeMs t =
     and_then (set_key (js ''sell-pause-from'') (V_number (if resumeMs \<noteq> 0 then t + afterMs else 0)))
       (\<lambda>_. set_key (js ''sell-pause-until'') (V_number (if resumeMs \<noteq> 0 then t + resumeMs else 0))) t"

definition sneak_check :: "unit gateway_action" where
  "sneak_check t s = (let n = gw_sneak_check s + 1 in set_key (js ''sneak-check'') (V_number (int n)) t (s\<lparr>gw_sneak_check := n\<rparr>))"

section \<open>Menus\<close>

definition SELL_ALL_PLAYER_SLOTS :: int where
  "SELL_ALL_PLAYER_SLOTS = - 1048576"

text \<open>A menu that was replaced meanwhile is not closed, and that is no error.\<close>

definition close_remote :: "jstr \<Rightarrow> unit gateway_action" where
  "close_remote menu = catching (perform (Rpc_close menu)) (\<lambda>f. if fa_code f = Code_aborted then return () else throw f)"

definition crouching_re :: re where
  "crouching_re = Alt (lit_i ''crouch'') (lit_i ''sneak'')"

definition eye_height :: "bool \<Rightarrow> jstr \<Rightarrow> rat" where
  "eye_height crouch pose = (if crouch \<or> re_test crouching_re pose then 127 / 100 else 162 / 100)"

definition ray_direction :: "spot \<Rightarrow> rat \<Rightarrow> spot \<Rightarrow> spot" where
  "ray_direction origin eye target = (case (origin, target) of ((ox, oy, oz), (x, y, z)) \<Rightarrow> (x + 1/2 - ox, y + 1/2 - oy - eye, z + 1/2 - oz))"

text \<open>The nearest spawner in reach is opened, when nothing stands before it.\<close>

definition interact_spawner :: "bool \<Rightarrow> spot \<Rightarrow> jstr \<Rightarrow> bool gateway_action" where
  "interact_spawner crouch target face t s = (case gw_inventory s of
       None \<Rightarrow> throw (plain_failure (js ''Inventar wird noch synchronisiert'')) t s
     | Some iv \<Rightarrow> ask (Rpc_interact target face crouch) (\<lambda>r. case r of
           Rpc_failed f \<Rightarrow> throw f
         | Rpc_completed True \<Rightarrow> return True
         | _ \<Rightarrow> ask (Rpc_await_menu (gi_menu iv)) (\<lambda>r. case r of Rpc_completed b \<Rightarrow> return b | _ \<Rightarrow> return False)) t s)"

definition look_at_spawner :: "bool \<Rightarrow> spot \<Rightarrow> jstr \<Rightarrow> spot \<Rightarrow> bool gateway_action" where
  "look_at_spawner crouch origin pose target = ask (Rpc_raycast (ray_direction origin (eye_height crouch pose) target)) (\<lambda>r. case r of
       Rpc_failed f \<Rightarrow> throw f
     | Rpc_hit (Some face) (Some block) \<Rightarrow> if block = target then interact_spawner crouch target face else return False
     | _ \<Rightarrow> return False)"

definition open_spawner :: "bool \<Rightarrow> bool gateway_action" where
  "open_spawner crouch = ask Rpc_player (\<lambda>r. case r of
       Rpc_failed f \<Rightarrow> throw f
     | Rpc_player_is (Some (origin, pose)) \<Rightarrow> ask (Rpc_spawners origin) (\<lambda>r. case r of
           Rpc_failed f \<Rightarrow> throw f
         | Rpc_blocks (target # _) \<Rightarrow> look_at_spawner crouch origin pose target
         | _ \<Rightarrow> return False)
     | _ \<Rightarrow> return False)"

section \<open>The calls of the behaviours\<close>

definition finish_call :: "unit gateway_action \<Rightarrow> game_reply gateway_action" where
  "finish_call m = and_then m (\<lambda>_. return R_done)"

fun gateway_call :: "game_call \<Rightarrow> game_reply gateway_action" where
  "gateway_call (C_suspend d) = finish_call (suspend_sell d)"
| "gateway_call (C_recovering p) = finish_call (recovering_home p)"
| "gateway_call (C_remember h) = finish_call (perform (Rpc_remember h))"
| "gateway_call (C_held c) = finish_call (held c)"
| "gateway_call C_sneak = finish_call sneak_check"
| "gateway_call (C_chat m) = finish_call (perform_or_refuse (Rpc_chat m) (js ''Command wurde nicht ausgef'' @ [252] @ js ''hrt''))"
| "gateway_call C_inventory = (\<lambda>t s. return (read_current (gw_inventory s)) t s)"
| "gateway_call (C_click m n how) = finish_call (perform_or_refuse (Rpc_click m n how) (js ''Inventaraktion abgelehnt''))"
| "gateway_call (C_transfer_all m) =
     finish_call (perform_or_refuse (Rpc_click m SELL_ALL_PLAYER_SLOTS Transfer) (js ''Inventaraktion abgelehnt''))"
| "gateway_call (C_close m) = finish_call (close_remote m)"
| "gateway_call (C_open_spawner crouch) = and_then (open_spawner crouch) (\<lambda>b. return (R_opened b))"
| "gateway_call (C_sell_pause a r) = finish_call (native_sell_pause a r)"

text \<open>A failure is the error of the call.\<close>

definition game_answer :: "game_call \<Rightarrow> game_reply gateway_action" where
  "game_answer c = catching (gateway_call c) (\<lambda>f. return (R_error (message_of_failure f)))"

section \<open>The lease of native selling\<close>

text \<open>The timer renews the lease, one renewal at a time; a failed one is tried again after a second.\<close>

definition lease_timer :: "int \<Rightarrow> gateway \<Rightarrow> gateway \<times> rpc_call option" where
  "lease_timer t s =
     (if gw_selling s \<and> \<not> gw_lease_busy s \<and> gw_lease_at s \<le> t
      then (s\<lparr>gw_lease_busy := True, gw_lease_at := t + 5000\<rparr>, Some (Rpc_set LEASE_KEY (V_number (t + 90000))))
      else (s, None))"

definition lease_answered :: "int \<Rightarrow> bool \<Rightarrow> gateway \<Rightarrow> gateway" where
  "lease_answered t ok s = s\<lparr>gw_lease_busy := False, gw_lease_at := t + (if ok then 5000 else 1000)\<rparr>"

section \<open>Driving a process\<close>

text \<open>The calls a process makes with given answers, and what is left of it.\<close>

primrec drive :: "(int \<times> 'r) list \<Rightarrow> 's \<Rightarrow> ('s, 'c, 'r, 'm, 'a) process \<Rightarrow> 's \<times> 'c list \<times> ('s, 'c, 'r, 'm, 'a) process" where
  "drive [] s p = (s, (case p of Await c k \<Rightarrow> [c] | _ \<Rightarrow> []), p)"
| "drive (a # as) s p = (case p of
       Await c k \<Rightarrow> (case k (snd a) (fst a) s of (s1, p1) \<Rightarrow> case drive as s1 p1 of (s2, cs, q) \<Rightarrow> (s2, c # cs, q))
     | _ \<Rightarrow> (s, [], p))"

lemma drive_ended [simp]: "drive as s (Return v) = (s, [], Return v)" "drive as s (Throw m) = (s, [], Throw m)"
  by (cases as; simp)+

definition drive_action :: "('s, 'c, 'r, 'm, 'a) action \<Rightarrow> int \<Rightarrow> 's \<Rightarrow> (int \<times> 'r) list \<Rightarrow> 's \<times> 'c list \<times> ('s, 'c, 'r, 'm, 'a) process" where
  "drive_action m t s as = (case m t s of (s1, p) \<Rightarrow> drive as s1 p)"

section \<open>What the server is told\<close>

lemmas gateway_steps = and_then_def catching_def ask_def return_def throw_def modify_def perform_def perform_or_refuse_def set_key_def

text \<open>The server's settings after a call was carried out.\<close>

fun carried_out :: "rpc_call \<Rightarrow> (jstr \<Rightarrow> setting_value option) \<Rightarrow> (jstr \<Rightarrow> setting_value option)" where
  "carried_out (Rpc_set k v) server = server(k := Some v)"
| "carried_out _ server = server"

definition server_after :: "rpc_call list \<Rightarrow> (jstr \<Rightarrow> setting_value option) \<Rightarrow> (jstr \<Rightarrow> setting_value option)" where
  "server_after cs server = fold carried_out cs server"

definition sell_value :: "bool \<times> rat \<times> jstr \<Rightarrow> setting_value" where
  "sell_value v = V_sell (fst v) (fst (snd v)) (snd (snd v))"

definition agrees :: "(jstr \<Rightarrow> setting_value option) \<Rightarrow> gateway \<Rightarrow> bool" where
  "agrees server s \<longleftrightarrow> map_option V_button (gw_button s) = server BUTTON_KEY
     \<and> map_option V_flag (gw_crouch s) = server CROUCH_KEY
     \<and> map_option sell_value (gw_sell s) = server SELL_KEY"

definition configured :: "soul_config \<Rightarrow> (jstr \<Rightarrow> setting_value option) \<Rightarrow> bool" where
  "configured c server \<longleftrightarrow> server BUTTON_KEY = Some (V_button (button_of c))
     \<and> server CROUCH_KEY = Some (V_flag (on (sc_crouch c)))
     \<and> server SELL_KEY = Some (sell_value (initial_sell c))"

text \<open>A setting that the server confirms.\<close>

definition with_call :: "rpc_call \<Rightarrow> (gateway \<times> rpc_call list \<times> 'p) \<Rightarrow> (gateway \<times> rpc_call list \<times> 'p)" where
  "with_call c r = (fst r, c # fst (snd r), snd (snd r))"

lemma drive_set:
  "drive_action (and_then (and_then (set_key k v) (\<lambda>_. modify h)) f) t s ((t1, Rpc_done) # as)
     = with_call (Rpc_set k v) (drive_action (f ()) t1 (h t1 s) as)"
  by (simp add: drive_action_def gateway_steps with_call_def split_beta)

lemma drive_choice:
  "drive_action (and_then (\<lambda>t s. if q t s then m t s else n t s) f) t s as =
     (if q t s then drive_action (and_then m f) t s as else drive_action (and_then n f) t s as)"
  by (simp add: drive_action_def and_then_def)

lemma drive_return: "drive_action (and_then (return v) f) t s as = drive_action (f v) t s as"
  by (simp add: drive_action_def and_then_def return_def)

lemma drive_modify: "drive_action (and_then (modify h) f) t s as = drive_action (f ()) t (h t s) as"
  by (simp add: drive_action_def gateway_steps)

lemma drive_hold:
  "drive_action (and_then (hold_button b) f) t s ((t1, Rpc_done) # as) =
     (if gw_button s = Some b then drive_action (f ()) t s ((t1, Rpc_done) # as)
      else with_call (Rpc_set BUTTON_KEY (V_button b)) (drive_action (f ()) t1 (s\<lparr>gw_button := Some b\<rparr>) as))"
  "drive_action (and_then (hold_crouch c) f) t s ((t1, Rpc_done) # as) =
     (if gw_crouch s = Some c then drive_action (f ()) t s ((t1, Rpc_done) # as)
      else with_call (Rpc_set CROUCH_KEY (V_flag c)) (drive_action (f ()) t1 (s\<lparr>gw_crouch := Some c\<rparr>) as))"
  "drive_action (and_then (hold_sell v) f) t s ((t1, Rpc_done) # as) =
     (if gw_sell s = Some v then drive_action (f ()) t s ((t1, Rpc_done) # as)
      else with_call (Rpc_set SELL_KEY (sell_value v)) (drive_action (f ()) t1 (s\<lparr>gw_sell := Some v\<rparr>) as))"
  "drive_action hold_lease t s ((t1, Rpc_done) # as) =
     (if gw_selling s \<and> gw_lease_at s \<le> t
      then (s\<lparr>gw_lease_at := t1 + 5000\<rparr>, [Rpc_set LEASE_KEY (V_number (t + 90000))], Return ()) else (s, [], Return ()))"
proof -
  have h: "hold_button b = (\<lambda>t s. if gw_button s = Some b then return () t s
      else and_then (set_key BUTTON_KEY (V_button b)) (\<lambda>_. modify (\<lambda>_ s. s\<lparr>gw_button := Some b\<rparr>)) t s)"
    "hold_crouch c = (\<lambda>t s. if gw_crouch s = Some c then return () t s
      else and_then (set_key CROUCH_KEY (V_flag c)) (\<lambda>_. modify (\<lambda>_ s. s\<lparr>gw_crouch := Some c\<rparr>)) t s)"
    "hold_sell v = (\<lambda>t s. if gw_sell s = Some v then return () t s
      else and_then (set_key SELL_KEY (sell_value v)) (\<lambda>_. modify (\<lambda>_ s. s\<lparr>gw_sell := Some v\<rparr>)) t s)"
    by (intro ext; simp add: hold_button_def hold_crouch_def hold_sell_def sell_value_def)+
  show "drive_action (and_then (hold_button b) f) t s ((t1, Rpc_done) # as) =
     (if gw_button s = Some b then drive_action (f ()) t s ((t1, Rpc_done) # as)
      else with_call (Rpc_set BUTTON_KEY (V_button b)) (drive_action (f ()) t1 (s\<lparr>gw_button := Some b\<rparr>) as))"
    "drive_action (and_then (hold_crouch c) f) t s ((t1, Rpc_done) # as) =
     (if gw_crouch s = Some c then drive_action (f ()) t s ((t1, Rpc_done) # as)
      else with_call (Rpc_set CROUCH_KEY (V_flag c)) (drive_action (f ()) t1 (s\<lparr>gw_crouch := Some c\<rparr>) as))"
    "drive_action (and_then (hold_sell v) f) t s ((t1, Rpc_done) # as) =
     (if gw_sell s = Some v then drive_action (f ()) t s ((t1, Rpc_done) # as)
      else with_call (Rpc_set SELL_KEY (sell_value v)) (drive_action (f ()) t1 (s\<lparr>gw_sell := Some v\<rparr>) as))"
    by (simp_all add: h drive_choice drive_return drive_set)
qed (simp add: drive_action_def gateway_steps with_call_def split_beta hold_lease_def renew_sell_lease_def)

text \<open>A session begins with what it remembers being what the server was given.\<close>

theorem sessions_begin_in_agreement:
  assumes "settings_ok current"
  shows "agrees (setting_of (merge_bot_settings current (startup_settings c protocol t a r)) (js ''afk-service''))
    (new_gateway c (home_pending_of c))"
proof -
  have keys: "distinct [BUTTON_KEY, CROUCH_KEY, SELL_KEY, js ''sell-manual-until'', js ''sell-home-pending'', js ''sell-pause-from'', js ''sell-pause-until'']"
    by (simp add: BUTTON_KEY_def CROUCH_KEY_def SELL_KEY_def)
  then have "settings_ok (startup_settings c protocol t a r)"
    by (simp add: settings_ok_def jmap_ok_def startup_settings_def)
  note merged = startup_settings_are_merged [OF assms this, of "js ''afk-service''"]
  show ?thesis unfolding agrees_def merged by (simp add: setting_of_def startup_settings_def new_gateway_def sell_value_def)
qed

text \<open>
  C21. When the server carries out what it is asked and says so, it has the whole configuration after four calls at most, and the
  session knows that. While selling is on, the lease is looked at last, at a moment between the call and the answer to the last
  change: when it is due then, and so in any case when it is due at the call, the server is given a lease of ninety seconds from that
  moment, and the next renewal is due five seconds after its answer. Otherwise the lease of the server and the time of the next renewal stay.
\<close>

theorem configurations_are_held:
  assumes "agrees server s" and "drive_action (held c) t s [(t1, Rpc_done), (t2, Rpc_done), (t3, Rpc_done), (t4, Rpc_done)] = (s1, cs, p)"
    and "t \<le> t1" and "t1 \<le> t2" and "t2 \<le> t3" and "t3 \<le> t4"
  shows "p = Return () \<and> length cs \<le> 4 \<and> configured c (server_after cs server) \<and> agrees (server_after cs server) s1
    \<and> gw_selling s1 = on (sc_autosell c)
    \<and> (\<exists>u. t \<le> u \<and> u \<le> t3 \<and>
        (if on (sc_autosell c) \<and> gw_lease_at s \<le> u
         then server_after cs server LEASE_KEY = Some (V_number (u + 90000))
           \<and> (\<exists>answered. u \<le> answered \<and> answered \<le> t4 \<and> gw_lease_at s1 = answered + 5000)
         else server_after cs server LEASE_KEY = server LEASE_KEY \<and> gw_lease_at s1 = gw_lease_at s))"
proof -
  have "p = Return () \<and> length cs \<le> 4 \<and> configured c (server_after cs server) \<and> agrees (server_after cs server) s1
      \<and> gw_selling s1 = on (sc_autosell c)"
    using assms(1,2)
    by (auto simp: held_def drive_hold drive_modify with_call_def agrees_def configured_def server_after_def split: if_splits)
  moreover define k where "k = (if gw_button s = Some (button_of c) then 0 else 1) + (if gw_crouch s = Some (on (sc_crouch c)) then 0 else 1)
      + (if gw_sell s = Some (initial_sell c) then 0 else 1 :: nat)"
  moreover define u where "u = [t, t1, t2, t3] ! k"
  moreover define answered where "answered = [t1, t2, t3, t4] ! k"
  have "if on (sc_autosell c) \<and> gw_lease_at s \<le> u
         then server_after cs server LEASE_KEY = Some (V_number (u + 90000)) \<and> gw_lease_at s1 = answered + 5000
         else server_after cs server LEASE_KEY = server LEASE_KEY \<and> gw_lease_at s1 = gw_lease_at s"
    using assms(2) unfolding u_def answered_def k_def
    by (cases "gw_button s = Some (button_of c)"; cases "gw_crouch s = Some (on (sc_crouch c))"; cases "gw_sell s = Some (initial_sell c)")
       (auto simp: held_def drive_hold drive_modify with_call_def server_after_def split: if_splits)
  moreover have "t \<le> u \<and> u \<le> t3 \<and> u \<le> answered \<and> answered \<le> t4"
    using assms(3-) by (auto simp: u_def answered_def k_def)
  ultimately show ?thesis by (intro conjI exI [of _ u]) auto
qed

definition selling_config :: soul_config where
  "selling_config = \<lparr>sc_crouch = Some True, sc_button = Some LEFT, sc_autosell = Some True, sc_interval = None, sc_command = None,
     sc_spawner = None, sc_drop = None, sc_sell = None, sc_return_home = None, sc_home = None\<rparr>"

definition crouch_config :: "bool \<Rightarrow> soul_config" where
  "crouch_config b = \<lparr>sc_crouch = Some b, sc_button = None, sc_autosell = None, sc_interval = None, sc_command = None,
     sc_spawner = None, sc_drop = None, sc_sell = None, sc_return_home = None, sc_home = None\<rparr>"

definition server_of :: "soul_config \<Rightarrow> jstr \<Rightarrow> setting_value option" where
  "server_of c = server_after [Rpc_set BUTTON_KEY (V_button (button_of c)), Rpc_set CROUCH_KEY (V_flag (on (sc_crouch c))),
     Rpc_set SELL_KEY (sell_value (initial_sell c))] (\<lambda>_. None)"

theorem configurations_are_held_witness:
  "agrees (server_of (crouch_config False)) (new_gateway (crouch_config False) False)
    \<and> configured selling_config (server_after (fst (snd (drive_action (held selling_config) 0 (new_gateway (crouch_config False) False)
        [(1, Rpc_done), (2, Rpc_done), (3, Rpc_done), (4, Rpc_done)]))) (server_of (crouch_config False)))
    \<and> (\<exists>u. 0 \<le> u \<and> u \<le> 3 \<and> server_after (fst (snd (drive_action (held selling_config) 0 (new_gateway (crouch_config False) False)
        [(1, Rpc_done), (2, Rpc_done), (3, Rpc_done), (4, Rpc_done)]))) (server_of (crouch_config False)) LEASE_KEY
        = Some (V_number (u + 90000)))"
proof -
  have a: "agrees (server_of (crouch_config False)) (new_gateway (crouch_config False) False)"
    by (simp add: agrees_def server_of_def server_after_def new_gateway_def)
  obtain s1 cs p where d: "drive_action (held selling_config) 0 (new_gateway (crouch_config False) False)
      [(1, Rpc_done), (2, Rpc_done), (3, Rpc_done), (4, Rpc_done)] = (s1, cs, p)" by (rule prod_cases3)
  from configurations_are_held [OF a d] have "configured selling_config (server_after cs (server_of (crouch_config False)))
      \<and> (\<exists>u. 0 \<le> u \<and> u \<le> 3 \<and> server_after cs (server_of (crouch_config False)) LEASE_KEY = Some (V_number (u + 90000)))"
    by (auto simp: new_gateway_def selling_config_def on_def)
  then show ?thesis by (simp add: a d)
qed

text \<open>The server has carried out a change whose answer was lost; then the user takes the change back. The session remembers the last
  confirmed value, which is the one wanted now, so it asks for nothing, and the server keeps the change.\<close>

theorem a_lost_answer_leaves_the_old_setting:
  "case drive_action (held (crouch_config True)) 0 (new_gateway (crouch_config False) False)
       [(15000, Rpc_failed (connect_failure Code_deadline_exceeded (js ''timeout'')))] of (s1, cs, p) \<Rightarrow>
     cs = [Rpc_set CROUCH_KEY (V_flag True)] \<and>
     (case drive_action (held (crouch_config False)) 20000 s1 [] of (s2, ds, q) \<Rightarrow>
        ds = [] \<and> q = Return () \<and> \<not> configured (crouch_config False) (server_after (cs @ ds) (server_of (crouch_config False))))"
  by (simp add: drive_action_def held_def hold_button_def hold_crouch_def hold_sell_def hold_lease_def gateway_steps new_gateway_def
      crouch_config_def button_of_def on_def given_or_def initial_sell_def sale_command_of_def given_def configured_def server_after_def
      connect_failure_def plain_failure_def)

section \<open>Blocks\<close>

lemma drive_ask: "drive_action (ask c k) t s as = (case as of
     [] \<Rightarrow> (s, [c], Await c k)
   | a # as' \<Rightarrow> (case drive_action (k (snd a)) (fst a) s as' of (s1, cs, q) \<Rightarrow> (s1, c # cs, q)))"
  by (cases as) (simp_all add: drive_action_def ask_def split_beta)

lemma drive_ends [simp]: "drive_action (return v) t s as = (s, [], Return v)" "drive_action (throw f) t s as = (s, [], Throw f)"
  by (simp_all add: drive_action_def return_def throw_def)

definition interactions :: "(spot \<Rightarrow> jstr \<Rightarrow> bool \<Rightarrow> bool) \<Rightarrow> (gateway \<times> rpc_call list \<times> 'p) \<Rightarrow> bool" where
  "interactions P r \<longleftrightarrow> list_all (\<lambda>c. case c of Rpc_interact target face sneaking \<Rightarrow> P target face sneaking | _ \<Rightarrow> True) (fst (snd r))"

lemma interactions_ask:
  assumes "case c of Rpc_interact target face sneaking \<Rightarrow> P target face sneaking | _ \<Rightarrow> True"
    and "\<And>a as'. as = a # as' \<Longrightarrow> interactions P (drive_action (k (snd a)) (fst a) s as')"
  shows "interactions P (drive_action (ask c k) t s as)"
  using assms by (cases as) (auto simp: drive_ask interactions_def split_beta)

lemma interactions_end [simp]: "interactions P (s, [], q)"
  by (simp add: interactions_def)

lemma interactions_mono: "interactions P r \<Longrightarrow> (\<And>x f b. P x f b \<Longrightarrow> Q x f b) \<Longrightarrow> interactions Q r"
  by (auto simp: interactions_def list_all_iff split: rpc_call.splits)

lemma interact_interactions: "interactions (\<lambda>x f b. x = target \<and> f = face \<and> b = crouch) (drive_action (interact_spawner crouch target face) t s as)"
proof (cases "gw_inventory s")
  case None
  then show ?thesis by (simp add: interactions_def drive_action_def interact_spawner_def throw_def)
next
  case (Some iv)
  have "interactions P (drive_action (ask (Rpc_await_menu m) (\<lambda>r. case r of Rpc_completed b \<Rightarrow> return b | _ \<Rightarrow> return False)) t s as)" for P m t s as
    by (rule interactions_ask) (auto split: rpc_reply.split)
  then have "interactions (\<lambda>x f b. x = target \<and> f = face \<and> b = crouch) (drive_action (ask (Rpc_interact target face crouch) (\<lambda>r. case r of
           Rpc_failed f \<Rightarrow> throw f
         | Rpc_completed True \<Rightarrow> return True
         | _ \<Rightarrow> ask (Rpc_await_menu (gi_menu iv)) (\<lambda>r. case r of Rpc_completed b \<Rightarrow> return b | _ \<Rightarrow> return False))) t s as)"
    by (intro interactions_ask) (auto split: rpc_reply.split bool.split)
  with Some show ?thesis by (simp add: drive_action_def interact_spawner_def)
qed

lemma look_interactions:
  "interactions (\<lambda>x f b. x = target \<and> Rpc_hit (Some f) (Some x) \<in> snd ` set as \<and> b = crouch) (drive_action (look_at_spawner crouch origin pose target) t s as)"
  unfolding look_at_spawner_def
proof (rule interactions_ask, simp)
  fix a as' assume as: "as = a # as'"
  have "interactions (\<lambda>x f b. x = target \<and> Rpc_hit (Some f) (Some x) \<in> snd ` set as \<and> b = crouch)
      (drive_action (interact_spawner crouch target face) (fst a) s as')" if "snd a = Rpc_hit (Some face) (Some target)" for face
    using that by (auto simp: as intro: interactions_mono [OF interact_interactions] image_eqI [where x = a])
  then show "interactions (\<lambda>x f b. x = target \<and> Rpc_hit (Some f) (Some x) \<in> snd ` set as \<and> b = crouch)
     (drive_action (case snd a of Rpc_failed f \<Rightarrow> throw f
       | Rpc_hit (Some face) (Some block) \<Rightarrow> if block = target then interact_spawner crouch target face else return False
       | _ \<Rightarrow> return False) (fst a) s as')"
    by (auto split: rpc_reply.split option.split)
qed

text \<open>Only a block that the server named as the nearest spawner and that the ray of sight met first is ever used, on the face that
  the ray met; without that nothing is touched.\<close>

theorem only_visible_spawners_are_used:
  "interactions (\<lambda>target face sneaking. sneaking = crouch \<and> (\<exists>rest. Rpc_blocks (target # rest) \<in> snd ` set as)
     \<and> Rpc_hit (Some face) (Some target) \<in> snd ` set as) (drive_action (open_spawner crouch) t s as)" (is "interactions ?P _")
  unfolding open_spawner_def
proof (rule interactions_ask, simp)
  fix a as1 assume as: "as = a # as1"
  have "interactions ?P (drive_action (ask (Rpc_spawners origin) (\<lambda>r. case r of
           Rpc_failed f \<Rightarrow> throw f
         | Rpc_blocks (target # _) \<Rightarrow> look_at_spawner crouch origin pose target
         | _ \<Rightarrow> return False)) (fst a) s as1)" for origin pose
  proof (rule interactions_ask, simp)
    fix b as2 assume as1: "as1 = b # as2"
    have "interactions ?P (drive_action (look_at_spawner crouch origin pose target) (fst b) s as2)"
      if "snd b = Rpc_blocks (target # rest)" for target rest
      by (rule interactions_mono [OF look_interactions]) (auto simp: as as1 that intro: exI [of _ rest])
    then show "interactions ?P (drive_action (case snd b of Rpc_failed f \<Rightarrow> throw f
         | Rpc_blocks (target # _) \<Rightarrow> look_at_spawner crouch origin pose target
         | _ \<Rightarrow> return False) (fst b) s as2)"
      by (auto split: rpc_reply.split list.split)
  qed
  then show "interactions ?P (drive_action (case snd a of Rpc_failed f \<Rightarrow> throw f
     | Rpc_player_is (Some (origin, pose)) \<Rightarrow> ask (Rpc_spawners origin) (\<lambda>r. case r of
           Rpc_failed f \<Rightarrow> throw f
         | Rpc_blocks (target # _) \<Rightarrow> look_at_spawner crouch origin pose target
         | _ \<Rightarrow> return False)
     | _ \<Rightarrow> return False) (fst a) s as1)"
    by (auto split: rpc_reply.split option.split)
qed

section \<open>Every call ends\<close>

lemma ends_within_ask: "(\<And>r t s. ends_within n (snd (k r t s))) \<Longrightarrow> ends_within (Suc n) (snd (ask c k t s))"
  by (auto simp: ask_def intro: ends_within.ends_within_Await)

lemma within_looking: "ends_within 3 (snd (look_at_spawner crouch origin pose target t s))"
proof -
  have "ends_within (Suc 0) (snd (ask (Rpc_await_menu m) (\<lambda>r. case r of Rpc_completed b \<Rightarrow> return b | _ \<Rightarrow> return False) t s))" for m t s
    by (rule ends_within_ask) (simp add: return_def split: rpc_reply.split)
  then have "ends_within (Suc (Suc 0)) (snd (interact_spawner crouch target face t s))" for face t s
    by (auto simp: interact_spawner_def throw_def return_def split: option.split rpc_reply.split bool.split intro!: ends_within_ask)
  then have "ends_within (Suc (Suc (Suc 0))) (snd (look_at_spawner crouch origin pose target t s))"
    unfolding look_at_spawner_def
    by (intro ends_within_ask) (auto simp: throw_def return_def split: rpc_reply.split option.split)
  then show ?thesis by (simp add: numeral_eq_Suc)
qed

lemma within_opening: "ends_within 5 (snd (open_spawner crouch t s))"
proof -
  have look: "ends_within (Suc (Suc (Suc 0))) (snd (look_at_spawner crouch origin pose target t s))" for origin pose target t s
    using within_looking [of crouch origin pose target t s] by (simp add: numeral_eq_Suc)
  have "ends_within (Suc (Suc (Suc (Suc 0)))) (snd (ask (Rpc_spawners origin) (\<lambda>r. case r of
           Rpc_failed f \<Rightarrow> throw f
         | Rpc_blocks (target # _) \<Rightarrow> look_at_spawner crouch origin pose target
         | _ \<Rightarrow> return False) t s))" for origin pose t s
    by (rule ends_within_ask) (auto simp: throw_def return_def look split: rpc_reply.split list.split)
  then have "ends_within (Suc (Suc (Suc (Suc (Suc 0))))) (snd (open_spawner crouch t s))"
    unfolding open_spawner_def
    by (intro ends_within_ask) (auto simp: throw_def return_def split: rpc_reply.split option.split)
  then show ?thesis by (simp add: numeral_eq_Suc)
qed

text \<open>What follows a process that ends, or its failure, ends too.\<close>

lemma within_rest: "ends_within i p \<Longrightarrow> (\<And>v t s. ends_within n (snd (f v t s))) \<Longrightarrow> ends_within (i + n) (snd (continue_with p f t s))"
proof (induction arbitrary: t s rule: ends_within.induct)
  case (ends_within_Return i v)
  show ?case using ends_within_mono [OF ends_within_Return.prems le_add2] by simp
next
  case (ends_within_Await i k c)
  have "ends_within (i + n) (snd (case map_prod id continue_with (k r t' s') of (s1, g) \<Rightarrow> g f t' s1))" for r t' s'
    using ends_within_Await.IH [OF ends_within_Await.prems, of r t' s'] by (cases "k r t' s'") simp
  then show ?case by (auto intro: ends_within.ends_within_Await)
qed simp

lemma within_caught: "ends_within n p \<Longrightarrow> (\<And>m t s. ends_within 0 (snd (h m t s))) \<Longrightarrow> ends_within n (snd (recover_with p h t s))"
proof (induction arbitrary: t s rule: ends_within.induct)
  case (ends_within_Throw n m)
  show ?case using ends_within_mono [OF ends_within_Throw.prems] by simp
next
  case (ends_within_Await n k c)
  have "ends_within n (snd (case map_prod id recover_with (k r t' s') of (s1, g) \<Rightarrow> g h t' s1))" for r t' s'
    using ends_within_Await.IH [OF ends_within_Await.prems, of r t' s'] by (cases "k r t' s'") simp
  then show ?case by (auto intro: ends_within.ends_within_Await)
qed simp

lemma within_and_then: "(\<And>t s. ends_within i (snd (m t s))) \<Longrightarrow> (\<And>v t s. ends_within n (snd (f v t s))) \<Longrightarrow> ends_within (i + n) (snd (and_then m f t s))"
  by (simp add: and_then_def split_beta within_rest)

lemma within_catching: "(\<And>t s. ends_within n (snd (m t s))) \<Longrightarrow> (\<And>v t s. ends_within 0 (snd (h v t s))) \<Longrightarrow> ends_within n (snd (catching m h t s))"
  by (simp add: catching_def split_beta within_caught)

lemma within_ends [simp]: "ends_within n (snd (return v t s))" "ends_within n (snd (throw f t s))" "ends_within n (snd (modify g t s))"
  by (simp_all add: return_def throw_def modify_def)

lemma within_perform: "ends_within (Suc 0) (snd (perform c t s))" "ends_within (Suc 0) (snd (set_key k v t s))" "ends_within (Suc 0) (snd (perform_or_refuse c d t s))"
proof -
  show p: "ends_within (Suc 0) (snd (perform c t s))" for c
    unfolding perform_def by (rule ends_within_ask) (simp split: rpc_reply.split)
  show "ends_within (Suc 0) (snd (set_key k v t s))" by (simp only: set_key_def p)
  show "ends_within (Suc 0) (snd (perform_or_refuse c d t s))"
    unfolding perform_or_refuse_def by (rule ends_within_ask) (simp split: rpc_reply.split)
qed

lemma within_set: "(\<And>v t s. ends_within 0 (snd (f v t s))) \<Longrightarrow> ends_within (Suc 0) (snd (and_then (set_key k v) f t s))"
  using within_and_then [of "Suc 0" "set_key k v" 0 f t s, OF within_perform(2)] by simp

lemma within_parts:
  "ends_within (Suc 0) (snd (hold_button b t s))" "ends_within (Suc 0) (snd (hold_crouch cr t s))" "ends_within (Suc 0) (snd (hold_sell v t s))"
  "ends_within (Suc 0) (snd (hold_lease t s))" "ends_within (Suc 0) (snd (recovering_home p t s))" "ends_within (Suc 0) (snd (suspend_sell d t s))"
  "ends_within (Suc 0) (snd (sneak_check t s))"
  by (simp_all add: hold_button_def hold_crouch_def hold_sell_def hold_lease_def renew_sell_lease_def recovering_home_def suspend_sell_def
      sneak_check_def Let_def within_set within_perform)

lemma within_held: "ends_within 4 (snd (held c t s))"
proof -
  have "ends_within (Suc 0 + (Suc 0 + (0 + (Suc 0 + Suc 0)))) (snd (held c t s))"
    unfolding held_def by (intro within_and_then within_parts within_ends)
  then show ?thesis by (simp add: numeral_eq_Suc)
qed

lemma within_close: "ends_within (Suc 0) (snd (close_remote m t s))"
  unfolding close_remote_def by (rule within_catching) (simp_all add: within_perform)

lemma within_pause: "ends_within 2 (snd (native_sell_pause a r t s))"
proof -
  have "ends_within (Suc 0 + Suc 0) (snd (native_sell_pause a r t s))"
    unfolding native_sell_pause_def by (intro within_and_then within_perform)
  then show ?thesis by (simp add: numeral_eq_Suc)
qed

lemmas within_calls = within_parts within_held within_close within_pause within_perform within_opening

text \<open>C22. Every call of the behaviours is answered after five remote answers at most, whatever they are and whenever they come; each
  remote call has a deadline of its own. So a job of the scheduler, which makes eight calls at most, ends as well.\<close>

theorem game_calls_are_answered: "ends_within 5 (snd (game_answer c t s))"
proof -
  have f: "ends_within 5 (snd (finish_call m t s))" if "\<And>t s. ends_within i (snd (m t s))" "i \<le> 5" for m i t s
  proof -
    have "ends_within (i + 0) (snd (finish_call m t s))" unfolding finish_call_def by (rule within_and_then) (simp_all add: that)
    then show ?thesis using ends_within_mono that(2) by fastforce
  qed
  have "ends_within 5 (snd (gateway_call c t s))" for t s
  proof (cases c)
    case (C_open_spawner crouch)
    then show ?thesis using within_and_then [of 5 "open_spawner crouch" 0 "\<lambda>b. return (R_opened b)" t s] by (simp add: within_opening)
  qed (auto intro!: f within_calls)
  then show ?thesis unfolding game_answer_def by (rule within_catching) simp
qed

end
