(* ===== verification/Web_Preferences.thy ===== *)
theory Web_Preferences
  imports Profile
begin

text \<open>
  \<^verbatim>\<open>frontend/src/lib/useDashboardPreferences.ts\<close>: the dashboard of the website shows an edit at once and saves it later.
  Edits wait in a queue, one request is on its way at a time, and what is shown is the queue replayed over the last
  answer of the server. The replay is proved to agree with what the server of the theory \<open>Profile\<close> does.
\<close>

section \<open>Edits\<close>

definition edit_membership :: "jstr list \<Rightarrow> jstr \<Rightarrow> bool \<Rightarrow> jstr list" where
  "edit_membership ids i value = (if value then uniq (ids @ [i]) else filter (\<lambda>x. x \<noteq> i) ids)"

definition apply_edit :: "preferences \<Rightarrow> preferences_patch \<Rightarrow> preferences" where
  "apply_edit p patch = \<lparr>
     p_account_order = (case pp_account_order patch of None \<Rightarrow> p_account_order p | Some xs \<Rightarrow> xs),
     p_blurred = (case pp_blur patch of None \<Rightarrow> p_blurred p | Some (i, v) \<Rightarrow> edit_membership (p_blurred p) i v),
     p_uploader_order = (case pp_uploader_order patch of None \<Rightarrow> p_uploader_order p | Some xs \<Rightarrow> xs),
     p_collapsed = (case pp_collapse patch of None \<Rightarrow> p_collapsed p | Some (i, v) \<Rightarrow> edit_membership (p_collapsed p) i v)\<rparr>"

definition replay :: "preferences_patch list \<Rightarrow> preferences \<Rightarrow> preferences" where
  "replay patches p = fold (\<lambda>patch q. apply_edit q patch) patches p"

section \<open>Preferences of earlier versions\<close>

text \<open>The storage of the browser may be unavailable; \<^verbatim>\<open>JSON.parse\<close> is an argument.\<close>

type_synonym storage = "(jstr \<Rightarrow> jstr option) option"

definition legacy_keys :: "jstr \<Rightarrow> jstr \<times> jstr" where
  "legacy_keys user = (js ''afk.blurredAccounts.'' @ user, js ''afk.uploaderCategories.v1.'' @ user)"

fun legacy_string :: "json \<Rightarrow> jstr option" where
  "legacy_string (JStr s) = (if 0 < length s \<and> length s \<le> 160 then Some s else None)"
| "legacy_string _ = None"

definition legacy_strings :: "json option \<Rightarrow> jstr list" where
  "legacy_strings v = (case v of Some (JArr xs) \<Rightarrow> take 10000 (uniq (List.map_filter legacy_string xs)) | _ \<Rightarrow> [])"

definition read_legacy :: "(jstr \<Rightarrow> json option) \<Rightarrow> storage \<Rightarrow> jstr \<Rightarrow> role \<Rightarrow> preferences option" where
  "read_legacy parse st user r = (case st of
       None \<Rightarrow> None
     | Some item \<Rightarrow>
         (let blur = item (fst (legacy_keys user)); uploader = item (snd (legacy_keys user));
              categories = (if r = ADMIN then Option.bind uploader parse else None);
              field = (\<lambda>k. Option.bind categories (\<lambda>j. json_field j k))
          in if blur = None \<and> uploader = None then None
             else Some \<lparr>p_account_order = [], p_blurred = legacy_strings (Option.bind blur parse),
                        p_uploader_order = legacy_strings (field ''order''), p_collapsed = legacy_strings (field ''collapsed'')\<rparr>))"

definition clear_legacy :: "jstr \<Rightarrow> storage \<Rightarrow> storage" where
  "clear_legacy user st = map_option (\<lambda>item. item(fst (legacy_keys user) := None, snd (legacy_keys user) := None)) st"

section \<open>State\<close>

text \<open>
  One run belongs to one user; a change of the user starts a new one and the answers to the old one change nothing. The
  refreshes that are under way remember the version at which they began, and whether they are at the import of old
  preferences. The history tells what became of the edits, in order.
\<close>

datatype read_stage = Reading nat | Importing nat

datatype request =
    Get_profile
  | Import_profile preferences
  | Patch_profile preferences_patch

datatype failure = Api_failure int jstr | Connection_failure

datatype outcome = Saved | Rejected

record editor =
  ed_user :: jstr
  ed_role :: role
  ed_confirmed :: "preferences option"
  ed_pending :: "preferences_patch list"
  ed_saving :: bool
  ed_version :: nat
  ed_shown :: "preferences option"
  ed_error :: "jstr option"
  ed_reads :: "read_stage list"
  ed_storage :: storage
  ed_requests :: "request list"
  ed_made :: "preferences_patch list"
  ed_settled :: "(preferences_patch \<times> outcome) list"

text \<open>The answer of the server, or a body without preferences.\<close>

type_synonym profile_reply = "failure + (bool \<times> preferences) option"

definition send_request :: "request \<Rightarrow> editor \<Rightarrow> editor" where
  "send_request x r = r\<lparr>ed_requests := ed_requests r @ [x]\<rparr>"

definition failure_text :: "failure \<Rightarrow> jstr" where
  "failure_text f = (case f of Api_failure _ m \<Rightarrow> m | Connection_failure \<Rightarrow> js ''Verbindung fehlgeschlagen'')"

definition load_error :: "failure \<Rightarrow> jstr" where
  "load_error f = js ''Ansicht konnte nicht geladen werden: '' @ failure_text f"

definition save_error :: "failure \<Rightarrow> jstr" where
  "save_error f = js ''Ansicht konnte nicht gespeichert werden: '' @ failure_text f"

section \<open>Loading\<close>

definition start_refresh :: "editor \<Rightarrow> editor" where
  "start_refresh r = send_request Get_profile (r\<lparr>ed_reads := ed_reads r @ [Reading (ed_version r)]\<rparr>)"

definition accept_profile :: "nat \<Rightarrow> bool \<times> preferences \<Rightarrow> editor \<Rightarrow> editor" where
  "accept_profile version a r =
     (let r1 = (if fst a then r\<lparr>ed_storage := clear_legacy (ed_user r) (ed_storage r)\<rparr> else r)
      in if version \<noteq> ed_version r1 then r1
         else r1\<lparr>ed_confirmed := Some (snd a), ed_shown := Some (replay (ed_pending r1) (snd a)),
                 ed_error := (if ed_pending r1 = [] then None else ed_error r1)\<rparr>)"

definition read_answered :: "(jstr \<Rightarrow> json option) \<Rightarrow> nat \<Rightarrow> profile_reply \<Rightarrow> editor \<Rightarrow> editor" where
  "read_answered parse i a r =
     (if length (ed_reads r) \<le> i then r
      else let stage = ed_reads r ! i; r1 = r\<lparr>ed_reads := take i (ed_reads r) @ drop (Suc i) (ed_reads r)\<rparr>
      in case a of
           Inl f \<Rightarrow> r1\<lparr>ed_error := Some (load_error f)\<rparr>
         | Inr None \<Rightarrow> r1\<lparr>ed_error := Some (load_error Connection_failure)\<rparr>
         | Inr (Some p) \<Rightarrow> (case stage of
               Importing version \<Rightarrow> accept_profile version p r1
             | Reading version \<Rightarrow>
                 (case (if fst p then None else read_legacy parse (ed_storage r1) (ed_user r1) (ed_role r1)) of
                    Some old \<Rightarrow> send_request (Import_profile old) (r1\<lparr>ed_reads := ed_reads r1 @ [Importing version]\<rparr>)
                  | None \<Rightarrow> accept_profile version p r1)))"

section \<open>Saving\<close>

definition save_next :: "editor \<Rightarrow> editor" where
  "save_next r = (case ed_pending r of
       [] \<Rightarrow> r\<lparr>ed_saving := False, ed_error := None\<rparr>
     | p # _ \<Rightarrow> send_request (Patch_profile p) r)"

definition start_flush :: "editor \<Rightarrow> editor" where
  "start_flush r = (if ed_saving r \<or> ed_confirmed r = None then r else save_next (r\<lparr>ed_saving := True\<rparr>))"

text \<open>An edit that the server refuses must not block the later ones.\<close>

definition refused :: "failure \<Rightarrow> bool" where
  "refused f \<longleftrightarrow> (case f of Api_failure st _ \<Rightarrow> st \<in> {400, 401, 403, 404, 409} | Connection_failure \<Rightarrow> False)"

definition settle_edit :: "outcome \<Rightarrow> editor \<Rightarrow> editor" where
  "settle_edit x r = (case ed_pending r of
       [] \<Rightarrow> r
     | p # ps \<Rightarrow> r\<lparr>ed_pending := ps, ed_settled := ed_settled r @ [(p, x)]\<rparr>)"

definition save_answered :: "profile_reply \<Rightarrow> editor \<Rightarrow> editor" where
  "save_answered a r =
     (if \<not> ed_saving r then r
      else case a of
           Inr (Some p) \<Rightarrow>
             (let r1 = settle_edit Saved r
              in save_next (r1\<lparr>ed_confirmed := Some (snd p), ed_version := Suc (ed_version r1),
                               ed_shown := Some (replay (ed_pending r1) (snd p))\<rparr>))
         | Inr None \<Rightarrow> r\<lparr>ed_error := Some (save_error Connection_failure), ed_saving := False\<rparr>
         | Inl f \<Rightarrow> (if refused f then settle_edit Rejected r else r)\<lparr>ed_error := Some (save_error f), ed_saving := False\<rparr>)"

definition make_edit :: "preferences_patch \<Rightarrow> editor \<Rightarrow> editor" where
  "make_edit p r = (case ed_confirmed r of
       None \<Rightarrow> r
     | Some c \<Rightarrow>
         (let ps = ed_pending r @ [p]
          in start_flush (r\<lparr>ed_pending := ps, ed_made := ed_made r @ [p], ed_shown := Some (replay ps c)\<rparr>)))"

definition retry_edits :: "editor \<Rightarrow> editor" where
  "retry_edits r = (if ed_pending r \<noteq> [] then start_flush r else start_refresh r)"

definition new_editor :: "jstr \<Rightarrow> role \<Rightarrow> storage \<Rightarrow> editor" where
  "new_editor user ro st = start_refresh \<lparr>ed_user = user, ed_role = ro, ed_confirmed = None, ed_pending = [], ed_saving = False,
     ed_version = 0, ed_shown = None, ed_error = None, ed_reads = [], ed_storage = st, ed_requests = [], ed_made = [], ed_settled = []\<rparr>"

section \<open>Runs\<close>

datatype editor_event =
    Focus
  | Read_reply nat profile_reply
  | Save_reply profile_reply
  | Edit preferences_patch
  | Retry
  | User_changed jstr role

fun editor_step :: "(jstr \<Rightarrow> json option) \<Rightarrow> editor_event \<Rightarrow> editor \<Rightarrow> editor" where
  "editor_step parse Focus r = start_refresh r"
| "editor_step parse (Read_reply i a) r = read_answered parse i a r"
| "editor_step parse (Save_reply a) r = save_answered a r"
| "editor_step parse (Edit p) r = make_edit p r"
| "editor_step parse Retry r = retry_edits r"
| "editor_step parse (User_changed user ro) r = new_editor user ro (ed_storage r)"

definition editor_run :: "(jstr \<Rightarrow> json option) \<Rightarrow> jstr \<Rightarrow> role \<Rightarrow> storage \<Rightarrow> editor_event list \<Rightarrow> editor" where
  "editor_run parse user ro st evs = fold (editor_step parse) evs (new_editor user ro st)"

section \<open>What is shown\<close>

definition editor_ok :: "editor \<Rightarrow> bool" where
  "editor_ok r \<longleftrightarrow> ed_made r = map fst (ed_settled r) @ ed_pending r
     \<and> (ed_error r = None \<longrightarrow> ed_shown r = map_option (replay (ed_pending r)) (ed_confirmed r))
     \<and> (ed_saving r \<longrightarrow> ed_pending r \<noteq> [])
     \<and> (ed_confirmed r = None \<longrightarrow> ed_pending r = [] \<and> ed_shown r = None)"

lemma editor_ok_refresh [simp]: "editor_ok (start_refresh r) = editor_ok r"
  by (simp add: editor_ok_def start_refresh_def send_request_def)

lemma editor_ok_new [simp]: "editor_ok (new_editor user ro st)"
  unfolding new_editor_def editor_ok_refresh by (simp add: editor_ok_def)

lemma accept_profile_ok: "editor_ok r \<Longrightarrow> editor_ok (accept_profile v a r)"
  by (auto simp: editor_ok_def accept_profile_def Let_def)

lemma read_answered_ok: "editor_ok r \<Longrightarrow> editor_ok (read_answered parse i a r)"
proof -
  assume r: "editor_ok r"
  then have "editor_ok (r\<lparr>ed_reads := xs\<rparr>)" "editor_ok (r\<lparr>ed_reads := xs, ed_error := Some m\<rparr>)"
      "editor_ok (send_request x (r\<lparr>ed_reads := xs\<rparr>))" for xs m x
    by (simp_all add: editor_ok_def send_request_def)
  then show ?thesis using r
    by (auto simp: read_answered_def Let_def intro!: accept_profile_ok split: sum.split option.split read_stage.split)
qed

lemma save_next_ok:
  "editor_ok (r\<lparr>ed_saving := False\<rparr>) \<Longrightarrow> ed_saving r \<Longrightarrow> ed_shown r = map_option (replay (ed_pending r)) (ed_confirmed r) \<Longrightarrow> editor_ok (save_next r)"
  by (auto simp: save_next_def editor_ok_def send_request_def split: list.split)

lemma start_flush_ok: "editor_ok r \<Longrightarrow> ed_pending r \<noteq> [] \<Longrightarrow> editor_ok (start_flush r)"
  by (auto simp: start_flush_def save_next_def editor_ok_def send_request_def split: list.split)

lemma make_edit_ok: "editor_ok r \<Longrightarrow> editor_ok (make_edit p r)"
  by (auto simp: make_edit_def Let_def intro!: start_flush_ok split: option.split) (auto simp: editor_ok_def)

lemma save_answered_ok: "editor_ok r \<Longrightarrow> editor_ok (save_answered a r)"
  by (auto simp: save_answered_def settle_edit_def Let_def save_next_def send_request_def editor_ok_def split: sum.split option.split list.split)

lemma editor_step_ok: "editor_ok r \<Longrightarrow> editor_ok (editor_step parse ev r)"
  by (cases ev) (auto simp: read_answered_ok save_answered_ok make_edit_ok retry_edits_def start_flush_ok)

interpretation dashboard_editor: stepwise "editor_step parse" editor_ok for parse
  by unfold_locales (rule editor_step_ok)

lemma editor_run_ok: "editor_ok (editor_run parse user ro st evs)"
  unfolding editor_run_def by (rule dashboard_editor.run_inv) simp

text \<open>C27. No edit of the user is lost or reordered: what was made is what the server has saved or refused, in order, followed by
  what still waits. As long as no error is reported, what is shown is the waiting edits replayed over the last profile that
  the server confirmed; and while a request is on its way, an edit waits for it.\<close>

theorem edits_are_kept_in_order:
  "let r = editor_run parse user ro st evs
   in ed_made r = map fst (ed_settled r) @ ed_pending r
     \<and> (if ed_error r = None then ed_shown r = map_option (replay (ed_pending r)) (ed_confirmed r) else True)
     \<and> (if ed_saving r then ed_pending r \<noteq> [] else True)"
  using editor_run_ok [of parse user ro st evs] by (simp add: editor_ok_def Let_def)

section \<open>The server agrees\<close>

lemma filter_uniq: "filter P (uniq xs) = uniq (filter P xs)"
  by (simp add: uniq_def remdups_filter rev_filter)

lemma filter_set_membership: "i \<in> A \<Longrightarrow> filter (\<lambda>x. x \<in> A) (set_membership ids i v) = edit_membership (filter (\<lambda>x. x \<in> A) ids) i v"
  by (simp add: set_membership_def edit_membership_def filter_uniq conj_commute)

lemma filter_all: "\<not> list_ex (\<lambda>i. i \<notin> A) xs \<Longrightarrow> filter (\<lambda>i. i \<in> A) xs = xs"
  by (simp add: list_ex_iff filter_id_conv)

lemma patch_blur_fields:
  assumes "patch_blur a x p = Inr q"
  shows "p_blurred (visible q a) = (case x of None \<Rightarrow> p_blurred (visible p a) | Some (i, v) \<Rightarrow> edit_membership (p_blurred (visible p a)) i v)"
    and "p_account_order q = p_account_order p" "p_uploader_order q = p_uploader_order p" "p_collapsed q = p_collapsed p"
  using assms by (auto simp: patch_blur_def visible_def filter_set_membership split: option.splits if_splits)

lemma patch_order_fields:
  assumes "patch_account_order a x p = Inr q"
  shows "p_account_order (visible q a) = (case x of None \<Rightarrow> p_account_order (visible p a) | Some xs \<Rightarrow> xs)"
    and "p_blurred q = p_blurred p" "p_uploader_order q = p_uploader_order p" "p_collapsed q = p_collapsed p"
  using assms by (auto simp: patch_account_order_def visible_def filter_all split: option.splits if_splits)

lemma patch_uploaders_fields:
  assumes "patch_uploaders a r x y p = Inr q"
  shows "p_uploader_order (visible q a) = (case x of None \<Rightarrow> p_uploader_order (visible p a) | Some xs \<Rightarrow> xs)"
    and "p_collapsed (visible q a) = (case y of None \<Rightarrow> p_collapsed (visible p a) | Some (i, v) \<Rightarrow> edit_membership (p_collapsed (visible p a)) i v)"
    and "p_account_order q = p_account_order p" "p_blurred q = p_blurred p"
  using assms by (auto simp: patch_uploaders_def visible_def filter_set_membership filter_all split: option.splits if_splits sum.splits)

text \<open>C26. An edit looks the same on both sides: when the server accepts it, its answer is exactly what the website already
  showed by applying the edit to the profile it had from the server.\<close>

theorem server_confirms_what_was_shown:
  assumes "update_preferences sc patch d = Inr (d', p)" and "get_preferences sc d = Some (initialized, q)"
  shows "p = apply_edit q patch"
proof -
  obtain u q1 q2 q3 where u: "find_user d (sc_user sc) = Some u"
    and 1: "patch_account_order (scope_of sc d) (pp_account_order patch) (decode (u_prefs u)) = Inr q1"
    and 2: "patch_blur (scope_of sc d) (pp_blur patch) q1 = Inr q2"
    and 3: "patch_uploaders (scope_of sc d) (sc_role sc) (pp_uploader_order patch) (pp_collapse patch) q2 = Inr q3"
    and p: "p = visible q3 (scope_of sc d)"
    by (rule update_preferences_Inr [OF assms(1)])
  have q: "q = visible (decode (u_prefs u)) (scope_of sc d)" using assms(2) u by (simp add: get_preferences_def)
  show ?thesis
    using patch_order_fields [OF 1] patch_blur_fields [OF 2] patch_uploaders_fields [OF 3]
    unfolding p q by (auto simp: apply_edit_def visible_def split: option.splits)
qed

theorem server_confirms_what_was_shown_witness:
  "\<exists>d' p initialized q. update_preferences (demo_context ''ann'' ADMIN)
       \<lparr>pp_account_order = Some [[2], [1]], pp_uploader_order = None, pp_blur = Some ([1], True), pp_collapse = None\<rparr> demo_tables = Inr (d', p)
     \<and> get_preferences (demo_context ''ann'' ADMIN) demo_tables = Some (initialized, q)
     \<and> p = apply_edit q \<lparr>pp_account_order = Some [[2], [1]], pp_uploader_order = None, pp_blur = Some ([1], True), pp_collapse = None\<rparr>"
proof -
  let ?patch = "\<lparr>pp_account_order = Some [[2], [1]], pp_uploader_order = None, pp_blur = Some ([1], True), pp_collapse = None\<rparr>"
  let ?r = "update_preferences (demo_context ''ann'' ADMIN) ?patch demo_tables" and ?g = "get_preferences (demo_context ''ann'' ADMIN) demo_tables"
  have "(case ?r of Inl _ \<Rightarrow> False | Inr _ \<Rightarrow> True)" by code_simp
  then obtain d' p where r: "?r = Inr (d', p)" by (cases ?r) auto
  have "(case ?g of None \<Rightarrow> False | Some _ \<Rightarrow> True)" by code_simp
  then obtain initialized q where g: "?g = Some (initialized, q)" by (cases ?g) auto
  from server_confirms_what_was_shown [OF r g] r g show ?thesis by blast
qed

text \<open>Saving an edit twice is harmless: a request whose answer was lost is sent again.\<close>

lemma edit_twice: "apply_edit (apply_edit p patch) patch = apply_edit p patch"
proof -
  have "uniq (uniq (xs @ [i]) @ [i]) = uniq (xs @ [i])" for xs :: "jstr list" and i
    by (simp add: uniq_def)
  then show ?thesis by (simp add: apply_edit_def edit_membership_def split: option.split)
qed

end
