(* ===== verification/Web_Requests.thy ===== *)
theory Web_Requests
  imports JsRegex
begin

text \<open>
  \<^verbatim>\<open>frontend/src/lib/api.ts\<close>: the requests of the website. Reads of the same path share one request, histories are kept
  until they expire, and whatever changes data forgets both. Answers and times come from outside.
\<close>

section \<open>Requests\<close>

type_synonym path = jstr

record fetch =
  ft_method :: jstr
  ft_path :: path
  ft_headers :: "(jstr \<times> jstr) list"
  ft_deadline :: int

definition is_mutating :: "jstr \<Rightarrow> bool" where
  "is_mutating m \<longleftrightarrow> m \<notin> {js ''GET'', js ''HEAD'', js ''OPTIONS''}"

text \<open>The cookie with the token is echoed as a header; a body is JSON unless the caller says otherwise.\<close>

definition prepare_fetch :: "jstr \<Rightarrow> path \<Rightarrow> (jstr \<times> jstr) list \<Rightarrow> bool \<Rightarrow> jstr option \<Rightarrow> fetch" where
  "prepare_fetch method path headers body csrf =
     (let h1 = (if is_mutating method \<and> csrf \<noteq> None \<and> csrf \<noteq> Some [] then AList.update (js ''x-csrf-token'') (the csrf) headers else headers);
          h2 = (if body \<and> map_of h1 (js ''content-type'') = None then AList.update (js ''content-type'') (js ''application/json'') h1 else h1)
      in \<lparr>ft_method = method, ft_path = path, ft_headers = h2,
          ft_deadline = (if path = js ''/auth/logout'' then 3000 else 20000)\<rparr>)"

text \<open>An answer: its status, its JSON body if it has one, and the tokens before and after.\<close>

record answer =
  an_status :: int
  an_text :: jstr
  an_body :: "json option"
  an_before :: "jstr option"
  an_after :: "jstr option"

datatype result = Fetched "json option" | Api_error int "json option" jstr

definition answer_result :: "answer \<Rightarrow> result" where
  "answer_result a =
     (if an_status a = 204 then Fetched None
      else if 200 \<le> an_status a \<and> an_status a < 300 then Fetched (an_body a)
      else Api_error (an_status a) (Option.bind (an_body a) (\<lambda>j. case j of JObj kvs \<Rightarrow> map_of kvs (js ''error'') | _ \<Rightarrow> None)) (an_text a))"

text \<open>A change forgets all reads before it is sent and again when it was answered; so does the end of a session.\<close>

definition clears_reads :: "jstr \<Rightarrow> int option \<Rightarrow> bool" where
  "clears_reads method status \<longleftrightarrow> is_mutating method \<or> status = Some 401"

text \<open>Only the session that made the request is signed out by its refusal.\<close>

definition signs_out :: "answer \<Rightarrow> bool" where
  "signs_out a \<longleftrightarrow> an_status a = 401
     \<and> Option.bind (an_body a) (\<lambda>j. case j of JObj kvs \<Rightarrow> map_of kvs (js ''error'') | _ \<Rightarrow> None) = Some (JStr (js ''Unauthorized''))
     \<and> an_before a = an_after a"

section \<open>Shared reads\<close>

text \<open>
  A request knows the generation and the time of its start; readers wait for it. The clock counts the steps, and the
  last time at which each path was forgotten is remembered for the proofs.
\<close>

datatype 'v told = Told nat path nat nat 'v | Refused nat

record flight =
  fl_path :: path
  fl_generation :: nat
  fl_start :: nat
  fl_readers :: "(nat \<times> nat) list"
  fl_settled :: bool

record 'v reads =
  rd_flights :: "flight list"
  rd_pending :: "(path \<times> nat) list"
  rd_cache :: "(path \<times> int \<times> nat \<times> 'v) list"
  rd_generation :: nat
  rd_clock :: nat
  rd_forgotten :: "path \<Rightarrow> nat"
  rd_out :: "'v told list"

definition new_reads :: "'v reads" where
  "new_reads = \<lparr>rd_flights = [], rd_pending = [], rd_cache = [], rd_generation = 0, rd_clock = 1, rd_forgotten = (\<lambda>_. 0), rd_out = []\<rparr>"

definition history_re :: re where
  "history_re = Sq Bol (sq [lit ''/minecraft/accounts/'', plus (Cls (\<lambda>c. c \<noteq> 47)), lit ''/earnings/history'', Alt (unit 63) Eol])"

definition history_prefix :: "jstr \<Rightarrow> path" where
  "history_prefix i = js ''/minecraft/accounts/'' @ i @ js ''/earnings/history''"

definition clear_reads :: "'v reads \<Rightarrow> 'v reads" where
  "clear_reads r = r\<lparr>rd_generation := Suc (rd_generation r), rd_pending := [], rd_cache := [], rd_forgotten := (\<lambda>_. rd_clock r)\<rparr>"

definition invalidate_history :: "jstr \<Rightarrow> 'v reads \<Rightarrow> 'v reads" where
  "invalidate_history i r =
     r\<lparr>rd_generation := Suc (rd_generation r),
       rd_pending := filter (\<lambda>x. \<not> starts_with (history_prefix i) (fst x)) (rd_pending r),
       rd_cache := filter (\<lambda>x. \<not> starts_with (history_prefix i) (fst x)) (rd_cache r),
       rd_forgotten := (\<lambda>p. if starts_with (history_prefix i) p then rd_clock r else rd_forgotten r p)\<rparr>"

definition tell :: "nat \<times> nat \<Rightarrow> path \<Rightarrow> nat \<Rightarrow> 'v \<Rightarrow> 'v told" where
  "tell reader p start v = Told (fst reader) p start (snd reader) v"

text \<open>A reader comes with its number and what was forgotten when it asked.\<close>

definition add_reader :: "nat \<Rightarrow> nat \<times> nat \<Rightarrow> flight list \<Rightarrow> flight list" where
  "add_reader i x fs = fs[i := (fs ! i)\<lparr>fl_readers := fl_readers (fs ! i) @ [x]\<rparr>]"

definition join_flight :: "nat \<times> nat \<Rightarrow> path \<Rightarrow> 'v reads \<Rightarrow> 'v reads" where
  "join_flight x p r = (case map_of (rd_pending r) p of
       Some i \<Rightarrow> r\<lparr>rd_flights := add_reader i x (rd_flights r)\<rparr>
     | None \<Rightarrow> r\<lparr>rd_pending := rd_pending r @ [(p, length (rd_flights r))],
         rd_flights := rd_flights r @ [\<lparr>fl_path = p, fl_generation = rd_generation r, fl_start = rd_clock r, fl_readers = [x], fl_settled = False\<rparr>]\<rparr>)"

definition read_path :: "int \<Rightarrow> nat \<Rightarrow> path \<Rightarrow> 'v reads \<Rightarrow> 'v reads" where
  "read_path t reader p r =
     (let x = (reader, rd_forgotten r p)
      in case map_of (rd_cache r) p of
           Some (expires, start, v) \<Rightarrow>
             if t < expires then r\<lparr>rd_out := rd_out r @ [tell x p start v]\<rparr>
             else join_flight x p (r\<lparr>rd_cache := AList.delete p (rd_cache r)\<rparr>)
         | None \<Rightarrow> join_flight x p r)"

text \<open>The reader that gave up is not told; the request goes on for the others.\<close>

definition abort_reader :: "nat \<Rightarrow> 'v reads \<Rightarrow> 'v reads" where
  "abort_reader reader r =
     r\<lparr>rd_flights := map (\<lambda>f. f\<lparr>fl_readers := filter (\<lambda>x. fst x \<noteq> reader) (fl_readers f)\<rparr>) (rd_flights r)\<rparr>"

definition cache_history :: "int \<Rightarrow> ('v \<Rightarrow> int option) \<Rightarrow> flight \<Rightarrow> 'v \<Rightarrow> 'v reads \<Rightarrow> 'v reads" where
  "cache_history t expiry f v r =
     (if fl_generation f = rd_generation r \<and> re_test history_re (fl_path f) then
        (case expiry v of
           Some e \<Rightarrow> if t < e
             then r\<lparr>rd_cache := AList.update (fl_path f) (e, fl_start f, v) (if 256 \<le> length (rd_cache r) then tl (rd_cache r) else rd_cache r)\<rparr>
             else r
         | None \<Rightarrow> r)
      else r)"

definition settle_flight :: "int \<Rightarrow> ('v \<Rightarrow> int option) \<Rightarrow> nat \<Rightarrow> 'v option \<Rightarrow> 'v reads \<Rightarrow> 'v reads" where
  "settle_flight t expiry i a r =
     (if length (rd_flights r) \<le> i \<or> fl_settled (rd_flights r ! i) then r
      else let f = rd_flights r ! i;
               r1 = (case a of None \<Rightarrow> r | Some v \<Rightarrow> cache_history t expiry f v r);
               r2 = r1\<lparr>rd_flights := (rd_flights r1)[i := f\<lparr>fl_settled := True, fl_readers := []\<rparr>],
                       rd_pending := filter (\<lambda>x. x \<noteq> (fl_path f, i)) (rd_pending r1)\<rparr>
           in r2\<lparr>rd_out := rd_out r2 @ map (\<lambda>x. case a of None \<Rightarrow> Refused (fst x) | Some v \<Rightarrow> tell x (fl_path f) (fl_start f) v) (fl_readers f)\<rparr>)"

section \<open>Runs\<close>

text \<open>\<open>Mutate\<close> is a moment at which \<open>clears_reads\<close> holds.\<close>

datatype 'v read_event =
    Read_path nat path
  | Give_up nat
  | Settle nat "'v option"
  | Mutate
  | Sale_seen jstr

fun reads_step :: "('v \<Rightarrow> int option) \<Rightarrow> int \<times> 'v read_event \<Rightarrow> 'v reads \<Rightarrow> 'v reads" where
  "reads_step expiry (t, Read_path n p) r = (read_path t n p r)\<lparr>rd_clock := Suc (rd_clock r)\<rparr>"
| "reads_step expiry (t, Give_up n) r = (abort_reader n r)\<lparr>rd_clock := Suc (rd_clock r)\<rparr>"
| "reads_step expiry (t, Settle i a) r = (settle_flight t expiry i a r)\<lparr>rd_clock := Suc (rd_clock r)\<rparr>"
| "reads_step expiry (t, Mutate) r = (clear_reads r)\<lparr>rd_clock := Suc (rd_clock r)\<rparr>"
| "reads_step expiry (t, Sale_seen i) r = (invalidate_history i r)\<lparr>rd_clock := Suc (rd_clock r)\<rparr>"

definition reads_run :: "('v \<Rightarrow> int option) \<Rightarrow> (int \<times> 'v read_event) list \<Rightarrow> 'v reads" where
  "reads_run expiry evs = fold (reads_step expiry) evs new_reads"

section \<open>No reader gets what was forgotten\<close>

fun told_fresh :: "'v told \<Rightarrow> bool" where
  "told_fresh (Told n p start asked v) \<longleftrightarrow> asked < start"
| "told_fresh (Refused n) \<longleftrightarrow> True"

definition flight_fresh :: "'v reads \<Rightarrow> flight \<Rightarrow> bool" where
  "flight_fresh r f \<longleftrightarrow> fl_generation f \<le> rd_generation r \<and> (\<forall>x \<in> set (fl_readers f). snd x < fl_start f)
     \<and> (fl_generation f = rd_generation r \<longrightarrow> (\<forall>p. rd_forgotten r p < fl_start f))"

definition reads_fresh :: "'v reads \<Rightarrow> bool" where
  "reads_fresh r \<longleftrightarrow> (\<forall>p. rd_forgotten r p < rd_clock r) \<and> (\<forall>f \<in> set (rd_flights r). flight_fresh r f)
     \<and> (\<forall>(p, i) \<in> set (rd_pending r). i < length (rd_flights r) \<and> rd_forgotten r p < fl_start (rd_flights r ! i))
     \<and> (\<forall>(p, e, start, v) \<in> set (rd_cache r). rd_forgotten r p < start)
     \<and> distinct (map fst (rd_pending r)) \<and> length (rd_cache r) \<le> 256 \<and> list_all told_fresh (rd_out r)"

lemma reads_fresh_clear:
  assumes "reads_fresh r"
  shows "reads_fresh ((clear_reads r)\<lparr>rd_clock := Suc (rd_clock r)\<rparr>)"
  using assms by (auto simp: reads_fresh_def clear_reads_def flight_fresh_def dest: bspec)

lemma reads_fresh_invalidate:
  assumes "reads_fresh r"
  shows "reads_fresh ((invalidate_history i r)\<lparr>rd_clock := Suc (rd_clock r)\<rparr>)"
proof -
  have "length (filter P (rd_cache r)) \<le> 256" for P using assms order_trans [OF length_filter_le] by (auto simp: reads_fresh_def)
  moreover have "distinct (map fst (filter P (rd_pending r)))" for P using assms by (auto simp: reads_fresh_def distinct_map_filter)
  ultimately show ?thesis using assms by (fastforce simp: reads_fresh_def invalidate_history_def flight_fresh_def less_Suc_eq)
qed

lemma reads_fresh_clock: "reads_fresh r \<Longrightarrow> reads_fresh (r\<lparr>rd_clock := Suc (rd_clock r)\<rparr>)"
  by (auto simp: reads_fresh_def flight_fresh_def less_Suc_eq)

text \<open>More readers of a flight, fewer readers, a new flight, less in the cache.\<close>

definition flights_grow :: "flight list \<Rightarrow> flight list \<Rightarrow> bool" where
  "flights_grow fs gs \<longleftrightarrow> length fs \<le> length gs \<and> (\<forall>i < length fs. fl_start (gs ! i) = fl_start (fs ! i))"

lemma flights_grow_update: "i < length fs \<Longrightarrow> fl_start g = fl_start (fs ! i) \<Longrightarrow> flights_grow fs (fs[i := g])"
  by (auto simp: flights_grow_def nth_list_update)

lemma all_updated: "\<forall>f \<in> set fs. P f \<Longrightarrow> P g \<Longrightarrow> \<forall>f \<in> set (fs[i := g]). P f"
  by (auto dest!: set_update_subset_insert [THEN subsetD])

lemma reads_fresh_flights:
  assumes "reads_fresh r" and "flights_grow (rd_flights r) fs" and "\<forall>f \<in> set fs. flight_fresh r f"
  shows "reads_fresh (r\<lparr>rd_flights := fs\<rparr>)"
  using assms by (fastforce simp: reads_fresh_def flights_grow_def flight_fresh_def)

lemma add_reader_fresh:
  assumes "reads_fresh r" and "map_of (rd_pending r) p = Some i"
  shows "reads_fresh (r\<lparr>rd_flights := add_reader i (n, rd_forgotten r p) (rd_flights r)\<rparr>)"
proof (rule reads_fresh_flights [OF assms(1)])
  have i: "i < length (rd_flights r)" "rd_forgotten r p < fl_start (rd_flights r ! i)"
    using assms(1) map_of_SomeD [OF assms(2)] by (auto simp: reads_fresh_def)
  show "flights_grow (rd_flights r) (add_reader i (n, rd_forgotten r p) (rd_flights r))"
    unfolding add_reader_def by (rule flights_grow_update [OF i(1)]) simp
  have "flight_fresh r (rd_flights r ! i)" using assms(1) i(1) by (simp add: reads_fresh_def)
  then have "flight_fresh r ((rd_flights r ! i)\<lparr>fl_readers := fl_readers (rd_flights r ! i) @ [(n, rd_forgotten r p)]\<rparr>)"
    using i(2) by (auto simp: flight_fresh_def)
  then show "\<forall>f \<in> set (add_reader i (n, rd_forgotten r p) (rd_flights r)). flight_fresh r f"
    using assms(1) unfolding add_reader_def by (intro all_updated) (simp_all add: reads_fresh_def)
qed

lemma map_of_absent: "map_of ps p = None \<Longrightarrow> distinct (map fst ps) \<Longrightarrow> distinct (map fst (ps @ [(p, i)]))"
  by (auto simp: map_of_eq_None_iff)

lemma new_flight_fresh:
  assumes "reads_fresh r" and "map_of (rd_pending r) p = None"
  shows "reads_fresh (r\<lparr>rd_pending := rd_pending r @ [(p, length (rd_flights r))],
     rd_flights := rd_flights r @ [\<lparr>fl_path = p, fl_generation = rd_generation r, fl_start = rd_clock r,
       fl_readers = [(n, rd_forgotten r p)], fl_settled = False\<rparr>]\<rparr>)"
  using assms map_of_absent [OF assms(2)] by (auto simp: reads_fresh_def flight_fresh_def nth_append less_Suc_eq)

lemma join_flight_fresh: "reads_fresh r \<Longrightarrow> reads_fresh (join_flight (n, rd_forgotten r p) p r)"
  using add_reader_fresh new_flight_fresh by (auto simp: join_flight_def split: option.split)

lemma smaller_cache_fresh: "reads_fresh r \<Longrightarrow> set c \<subseteq> set (rd_cache r) \<Longrightarrow> length c \<le> length (rd_cache r) \<Longrightarrow> reads_fresh (r\<lparr>rd_cache := c\<rparr>)"
  by (fastforce simp: reads_fresh_def flight_fresh_def)

lemma out_fresh: "reads_fresh r \<Longrightarrow> list_all told_fresh xs \<Longrightarrow> reads_fresh (r\<lparr>rd_out := rd_out r @ xs\<rparr>)"
  by (simp add: reads_fresh_def flight_fresh_def)

lemma read_path_fresh:
  assumes r: "reads_fresh r"
  shows "reads_fresh (read_path t n p r)"
proof (cases "map_of (rd_cache r) p")
  case None
  then show ?thesis using join_flight_fresh [OF r] by (simp add: read_path_def)
next
  case (Some c)
  then obtain e start v where c: "map_of (rd_cache r) p = Some (e, start, v)" by (cases c) auto
  have "rd_forgotten r p < start" using r map_of_SomeD [OF c] by (auto simp: reads_fresh_def)
  then have hit: "reads_fresh (r\<lparr>rd_out := rd_out r @ [tell (n, rd_forgotten r p) p start v]\<rparr>)"
    by (intro out_fresh [OF r]) (simp add: tell_def)
  have "length (AList.delete p (rd_cache r)) \<le> length (rd_cache r)" by (simp add: AList.delete_eq)
  then have "reads_fresh (r\<lparr>rd_cache := AList.delete p (rd_cache r)\<rparr>)"
    by (rule smaller_cache_fresh [OF r, rotated]) (auto simp: AList.delete_eq)
  from join_flight_fresh [OF this, of n p] hit show ?thesis by (simp add: read_path_def c Let_def)
qed

lemma abort_reader_fresh:
  assumes "reads_fresh r"
  shows "reads_fresh (abort_reader n r)"
  unfolding abort_reader_def
  by (rule reads_fresh_flights [OF assms]) (use assms in \<open>auto simp: flights_grow_def reads_fresh_def flight_fresh_def\<close>)

lemma set_update_cache: "x \<in> set (AList.update k v xs) \<Longrightarrow> x = (k, v) \<or> x \<in> set xs"
  by (induction xs) (auto split: if_splits)

lemma length_update_cache: "length (AList.update k v xs) \<le> Suc (length xs)"
  by (induction xs) auto

lemma cache_history_fresh:
  assumes r: "reads_fresh r" and f: "f \<in> set (rd_flights r)"
  shows "reads_fresh (cache_history t expiry f v r)"
proof -
  define c where "c = (if 256 \<le> length (rd_cache r) then tl (rd_cache r) else rd_cache r)"
  have "set c \<subseteq> set (rd_cache r)" by (cases "rd_cache r") (auto simp: c_def)
  moreover have "length c < 256" using r by (auto simp: c_def reads_fresh_def)
  moreover have "rd_forgotten r p < fl_start f" if "fl_generation f = rd_generation r" for p
    using r f that by (auto simp: reads_fresh_def flight_fresh_def)
  ultimately have "reads_fresh (r\<lparr>rd_cache := AList.update (fl_path f) (e, fl_start f, v) c\<rparr>)" if g: "fl_generation f = rd_generation r" for e
  proof -
    assume c: "set c \<subseteq> set (rd_cache r)" "length c < 256" and f: "\<And>p. fl_generation f = rd_generation r \<Longrightarrow> rd_forgotten r p < fl_start f"
    have "rd_forgotten r p < start" if x: "(p, e1, start, v1) \<in> set (AList.update (fl_path f) (e, fl_start f, v) c)" for p e1 start v1
      using set_update_cache [OF x] f [OF g] c(1) r by (auto simp: reads_fresh_def)
    moreover have "length (AList.update (fl_path f) (e, fl_start f, v) c) \<le> 256"
      using c(2) length_update_cache [of "fl_path f" "(e, fl_start f, v)" c] by simp
    ultimately show ?thesis using r by (auto simp: reads_fresh_def flight_fresh_def)
  qed
  with r show ?thesis unfolding cache_history_def c_def [symmetric] by (simp split: option.split)
qed

lemma settle_flight_fresh:
  assumes r: "reads_fresh r"
  shows "reads_fresh (settle_flight t expiry i a r)"
proof (cases "length (rd_flights r) \<le> i \<or> fl_settled (rd_flights r ! i)")
  case False
  define f where "f = rd_flights r ! i"
  have f: "f \<in> set (rd_flights r)" using False by (simp add: f_def)
  define r1 where "r1 = (case a of None \<Rightarrow> r | Some v \<Rightarrow> cache_history t expiry f v r)"
  have r1: "reads_fresh r1" "rd_flights r1 = rd_flights r"
    using r cache_history_fresh [OF r f] by (auto simp: r1_def cache_history_def split: option.split)
  have fr: "flight_fresh r1 f" using r1 f by (simp add: reads_fresh_def)
  have "reads_fresh (r1\<lparr>rd_flights := (rd_flights r1)[i := f\<lparr>fl_settled := True, fl_readers := []\<rparr>]\<rparr>)"
  proof (rule reads_fresh_flights [OF r1(1)])
    show "flights_grow (rd_flights r1) ((rd_flights r1)[i := f\<lparr>fl_settled := True, fl_readers := []\<rparr>])"
      by (rule flights_grow_update) (use False r1(2) in \<open>simp_all add: f_def\<close>)
    show "\<forall>g \<in> set ((rd_flights r1)[i := f\<lparr>fl_settled := True, fl_readers := []\<rparr>]). flight_fresh r1 g"
      using r1(1) fr by (intro all_updated) (simp_all add: reads_fresh_def flight_fresh_def)
  qed
  then have "reads_fresh (r1\<lparr>rd_flights := (rd_flights r1)[i := f\<lparr>fl_settled := True, fl_readers := []\<rparr>],
      rd_pending := filter (\<lambda>x. x \<noteq> (fl_path f, i)) (rd_pending r1)\<rparr>)"
    by (auto simp: reads_fresh_def flight_fresh_def distinct_map_filter)
  note go = out_fresh [OF this]
  have "list_all told_fresh (map (\<lambda>x. case a of None \<Rightarrow> Refused (fst x) | Some v \<Rightarrow> tell x (fl_path f) (fl_start f) v) (fl_readers f))"
    using fr by (auto simp: flight_fresh_def list_all_iff tell_def split: option.split)
  from go [OF this] show ?thesis using False
    unfolding settle_flight_def Let_def f_def [symmetric] r1_def [symmetric] by simp
qed (use r in \<open>simp add: settle_flight_def\<close>)

lemma clocks:
  "rd_clock (read_path t n p r) = rd_clock r" "rd_clock (abort_reader n r) = rd_clock r" "rd_clock (settle_flight t expiry i a r) = rd_clock r"
  by (simp_all add: read_path_def join_flight_def abort_reader_def settle_flight_def cache_history_def Let_def split: option.split prod.split)

lemma reads_step_fresh: "reads_fresh r \<Longrightarrow> reads_fresh (reads_step expiry ev r)"
proof -
  assume r: "reads_fresh r"
  obtain t e where ev: "ev = (t, e)" by (cases ev)
  show ?thesis
  proof (cases e)
    case (Read_path n p)
    then show ?thesis using reads_fresh_clock [OF read_path_fresh [OF r]] by (simp add: ev clocks)
  next
    case (Give_up n)
    then show ?thesis using reads_fresh_clock [OF abort_reader_fresh [OF r]] by (simp add: ev clocks)
  next
    case (Settle i a)
    then show ?thesis using reads_fresh_clock [OF settle_flight_fresh [OF r]] by (simp add: ev clocks)
  qed (simp_all add: ev reads_fresh_clear [OF r] reads_fresh_invalidate [OF r])
qed

interpretation shared_reads: stepwise "reads_step expiry" reads_fresh for expiry
  by unfold_locales (rule reads_step_fresh)

text \<open>C28. A reader of the website is never told what was forgotten before it asked: the request whose answer it gets, shared or kept,
  was made after every change and every sale that the page knew of. No path has two requests that are shared, and at most
  256 histories are kept.\<close>

theorem readers_are_never_told_forgotten_data:
  "list_all told_fresh (rd_out (reads_run expiry evs)) \<and> distinct (map fst (rd_pending (reads_run expiry evs)))
     \<and> length (rd_cache (reads_run expiry evs)) \<le> 256"
proof -
  have "reads_fresh (reads_run expiry evs)"
    unfolding reads_run_def by (rule shared_reads.run_inv) (simp add: reads_fresh_def new_reads_def)
  then show ?thesis by (simp add: reads_fresh_def)
qed

end
