(* ===== verification/Web_Sockets.thy ===== *)
theory Web_Sockets
  imports Afk_Prelude "HOL-Library.Multiset"
begin

text \<open>
  \<^verbatim>\<open>frontend/src/lib/sockets.ts\<close> and \<^verbatim>\<open>consoleBuffer.ts\<close>: the live sockets of the website, which reconnect by themselves, and
  the buffer of console lines. The order of \<^verbatim>\<open>localeCompare\<close> is a collation key, and a status of an account is of any type.
\<close>

section \<open>Console lines (consoleBuffer.ts)\<close>

definition MAX_CONSOLE_LOGS :: nat where
  "MAX_CONSOLE_LOGS = 20000"

record console_line =
  cl_created :: jstr
  cl_type :: jstr
  cl_message :: jstr

definition keep_last :: "nat \<Rightarrow> 'a list \<Rightarrow> 'a list" where
  "keep_last n xs = drop (length xs - n) xs"

text \<open>Every line of the history accounts for one live line that looks the same.\<close>

fun unaccounted :: "(console_line \<Rightarrow> nat) \<Rightarrow> console_line list \<Rightarrow> console_line list" where
  "unaccounted remaining [] = []"
| "unaccounted remaining (l # ls) =
     (if remaining l = 0 then l # unaccounted remaining ls else unaccounted (remaining(l := remaining l - 1)) ls)"

definition occurrences :: "console_line list \<Rightarrow> console_line \<Rightarrow> nat" where
  "occurrences history = fold (\<lambda>l remaining. remaining(l := remaining l + 1)) history (\<lambda>_. 0)"

definition merge_lines :: "(jstr \<Rightarrow> int) \<Rightarrow> console_line list \<Rightarrow> console_line list \<Rightarrow> console_line list" where
  "merge_lines collation history live = sort_key (\<lambda>l. collation (cl_created l)) (history @ unaccounted (occurrences history) live)"

definition merge_console_history :: "(jstr \<Rightarrow> int) \<Rightarrow> console_line list \<Rightarrow> console_line list \<Rightarrow> console_line list" where
  "merge_console_history collation history live = keep_last MAX_CONSOLE_LOGS (merge_lines collation history live)"

lemma occurrences_count: "occurrences history = count (mset history)"
proof -
  have "fold (\<lambda>l remaining. remaining(l := remaining l + 1)) xs f = (\<lambda>l. f l + count (mset xs) l)" for xs and f :: "console_line \<Rightarrow> nat"
    by (induction xs arbitrary: f) auto
  then show ?thesis by (simp add: occurrences_def)
qed

lemma mset_unaccounted: "mset (unaccounted (count M) ls) = mset ls - M"
proof (induction ls arbitrary: M)
  case (Cons l ls)
  show ?case
  proof (cases "count M l = 0")
    case True
    then show ?thesis by (simp add: Cons.IH) (simp add: multiset_eq_iff)
  next
    case False
    have "(count M)(l := count M l - 1) = count (M - {#l#})" by auto
    with False show ?thesis by (simp add: Cons.IH del: fun_upd_apply) (auto simp: multiset_eq_iff)
  qed
qed simp

lemma keep_last_split: "take (length xs - n) xs @ keep_last n xs = xs"
  by (simp add: keep_last_def)

text \<open>
  C29. The history of the console and the lines that came in live are merged into the newest 20000 of
  all lines. Take each line as often as the history or the live lines have it, whichever is more: the
  result and some older lines before it, which are there only when there are more than 20000, are exactly these, in the order of the time stamps,
  and among lines of one time stamp those of the history come first, as the history has them.
\<close>

theorem history_and_live_lines_are_merged:
  "\<exists>older. mset (older @ merge_console_history collation history live) = mset history \<union># mset live
     \<and> sorted (map (\<lambda>l. collation (cl_created l)) (older @ merge_console_history collation history live))
     \<and> (\<forall>time. \<exists>rest. [l \<leftarrow> older @ merge_console_history collation history live. collation (cl_created l) = time]
           = [l \<leftarrow> history. collation (cl_created l) = time] @ rest)
     \<and> length older = size (mset history \<union># mset live) - 20000
     \<and> length (merge_console_history collation history live) = min 20000 (size (mset history \<union># mset live))"
proof -
  let ?all = "merge_lines collation history live"
  have m: "mset ?all = mset history \<union># mset live"
    by (simp add: merge_lines_def occurrences_count mset_unaccounted union_mset_def)
  then have n: "size (mset history \<union># mset live) = length ?all" by (metis size_mset)
  have "sorted (map (\<lambda>l. collation (cl_created l)) ?all)"
    by (simp add: merge_lines_def)
  moreover have "\<exists>rest. [l \<leftarrow> ?all. collation (cl_created l) = time] = [l \<leftarrow> history. collation (cl_created l) = time] @ rest" for time
    by (simp add: merge_lines_def sort_key_stable)
  moreover have "take (length ?all - 20000) ?all @ merge_console_history collation history live = ?all"
    unfolding merge_console_history_def MAX_CONSOLE_LOGS_def by (rule keep_last_split)
  moreover have "length (merge_console_history collation history live) = min 20000 (length ?all)"
    by (simp add: merge_console_history_def keep_last_def MAX_CONSOLE_LOGS_def)
  ultimately show ?thesis using m n
    by (intro exI [of _ "take (length ?all - 20000) ?all"]) simp
qed

section \<open>The live console (useAccountConsole)\<close>

text \<open>
  A message of the server, a close code, or none when the body does not parse. The socket that was opened last is the
  current one. Timers run or not; the fallback request for the history may be under way.
\<close>

datatype 's console_message =
    Msg_history "console_line list"
  | Msg_console console_line
  | Msg_status 's
  | Msg_other

record 's console =
  cw_logs :: "console_line list"
  cw_status :: "'s option"
  cw_connected :: bool
  cw_denied :: bool
  cw_error :: "jstr option"
  cw_cancelled :: bool
  cw_retry :: bool
  cw_history_timer :: bool
  cw_flush_timer :: bool
  cw_received :: bool
  cw_pending :: "console_line list"
  cw_pending_history :: "console_line list option"
  cw_asking :: bool
  cw_sockets :: nat
  cw_opened :: bool
  cw_alive :: bool
  cw_session_checks :: nat
  cw_hidden :: bool
  cw_render :: bool

definition open_console :: "'s console \<Rightarrow> 's console" where
  "open_console c = c\<lparr>cw_sockets := Suc (cw_sockets c), cw_opened := False, cw_alive := True\<rparr>"

definition new_console :: "bool \<Rightarrow> bool \<Rightarrow> 's console" where
  "new_console hidden render = open_console \<lparr>cw_logs = [], cw_status = None, cw_connected = False, cw_denied = False, cw_error = None,
     cw_cancelled = False, cw_retry = False, cw_history_timer = True, cw_flush_timer = False, cw_received = False, cw_pending = [],
     cw_pending_history = None, cw_asking = False, cw_sockets = 0, cw_opened = False, cw_alive = False, cw_session_checks = 0,
     cw_hidden = hidden, cw_render = render\<rparr>"

definition flush_console :: "(jstr \<Rightarrow> int) \<Rightarrow> 's console \<Rightarrow> 's console" where
  "flush_console collation c0 =
     (let c = c0\<lparr>cw_flush_timer := False\<rparr>
      in if cw_cancelled c \<or> cw_hidden c \<or> \<not> cw_render c \<or> (cw_pending c = [] \<and> cw_pending_history c = None) then c
         else c\<lparr>cw_pending := [], cw_pending_history := None,
                cw_logs := (case cw_pending_history c of
                    Some history \<Rightarrow> merge_console_history collation history (cw_logs c @ cw_pending c)
                  | None \<Rightarrow> keep_last MAX_CONSOLE_LOGS (cw_logs c @ cw_pending c))\<rparr>)"

definition no_access :: "int option \<Rightarrow> bool" where
  "no_access code \<longleftrightarrow> code = Some 4401 \<or> code = Some 4403"

definition denied_text :: jstr where
  "denied_text = js ''Der Zugriff ist abgelaufen oder wurde entzogen. Bitte den Account erneut '' @ [246] @ js ''ffnen.''"

definition console_opened :: "'s console \<Rightarrow> 's console" where
  "console_opened c = (if \<not> cw_alive c then c else c\<lparr>cw_opened := True, cw_connected := (if cw_cancelled c then cw_connected c else True)\<rparr>)"

definition console_closed :: "int option \<Rightarrow> 's console \<Rightarrow> 's console" where
  "console_closed code c =
     (if \<not> cw_alive c then c
      else let c1 = c\<lparr>cw_alive := False\<rparr>
      in if cw_cancelled c1 then c1
         else let c2 = c1\<lparr>cw_connected := False, cw_session_checks := cw_session_checks c1 + (if \<not> cw_opened c1 \<or> no_access code then 1 else 0)\<rparr>
         in if no_access code then c2\<lparr>cw_error := Some denied_text, cw_denied := True\<rparr> else c2\<lparr>cw_retry := True\<rparr>)"

definition add_live_line :: "console_line \<Rightarrow> 's console \<Rightarrow> 's console" where
  "add_live_line l c =
     (let ls = cw_pending c @ [l]; c1 = c\<lparr>cw_pending := (if 2 * MAX_CONSOLE_LOGS < length ls then keep_last MAX_CONSOLE_LOGS ls else ls)\<rparr>
      in if \<not> cw_flush_timer c1 \<and> cw_render c1 \<and> \<not> cw_hidden c1 then c1\<lparr>cw_flush_timer := True\<rparr> else c1)"

definition take_history :: "(jstr \<Rightarrow> int) \<Rightarrow> console_line list \<Rightarrow> 's console \<Rightarrow> 's console" where
  "take_history collation ls c = flush_console collation (c\<lparr>cw_received := True, cw_pending_history := Some (keep_last MAX_CONSOLE_LOGS ls)\<rparr>)"

fun on_console_message :: "(jstr \<Rightarrow> int) \<Rightarrow> 's console_message \<Rightarrow> 's console \<Rightarrow> 's console" where
  "on_console_message collation (Msg_history ls) c = take_history collation ls (c\<lparr>cw_history_timer := False, cw_asking := False, cw_error := None\<rparr>)"
| "on_console_message collation (Msg_console l) c = add_live_line l c"
| "on_console_message collation (Msg_status s) c = c\<lparr>cw_status := Some s\<rparr>"
| "on_console_message collation Msg_other c = c"

text \<open>After a second and a half without history it is asked for over HTTP; its answer counts only as long as none came.\<close>

definition history_answered :: "(jstr \<Rightarrow> int) \<Rightarrow> console_line list option \<Rightarrow> 's console \<Rightarrow> 's console" where
  "history_answered collation a c =
     (if \<not> cw_asking c then c
      else let c1 = c\<lparr>cw_asking := False\<rparr>
      in if cw_cancelled c1 \<or> cw_received c1 then c1
         else case a of
             Some ls \<Rightarrow> take_history collation ls c1
           | None \<Rightarrow> c1\<lparr>cw_error := Some (js ''Konsolenverlauf konnte nicht geladen werden. Bitte erneut versuchen.'')\<rparr>)"

definition leave_console :: "'s console \<Rightarrow> 's console" where
  "leave_console c = c\<lparr>cw_cancelled := True, cw_retry := False, cw_history_timer := False, cw_flush_timer := False, cw_asking := False\<rparr>"

datatype 's console_event =
    Socket_opens
  | Socket_closes "int option"
  | Socket_message "'s console_message"
  | Retry_fires
  | History_timer_fires
  | History_answer "console_line list option"
  | Flush_fires
  | Visibility bool
  | Rendering bool
  | Leave

fun console_step :: "(jstr \<Rightarrow> int) \<Rightarrow> 's console_event \<Rightarrow> 's console \<Rightarrow> 's console" where
  "console_step co Socket_opens c = console_opened c"
| "console_step co (Socket_closes code) c = console_closed code c"
| "console_step co (Socket_message m) c = (if cw_cancelled c \<or> \<not> cw_alive c then c else on_console_message co m c)"
| "console_step co Retry_fires c = (if cw_retry c then open_console (c\<lparr>cw_retry := False\<rparr>) else c)"
| "console_step co History_timer_fires c =
     (if cw_history_timer c then c\<lparr>cw_history_timer := False, cw_asking := \<not> cw_received c\<rparr> else c)"
| "console_step co (History_answer a) c = history_answered co a c"
| "console_step co Flush_fires c = (if cw_flush_timer c then flush_console co c else c)"
| "console_step co (Visibility hidden) c = (if cw_cancelled c then c\<lparr>cw_hidden := hidden\<rparr> else flush_console co (c\<lparr>cw_hidden := hidden\<rparr>))"
| "console_step co (Rendering render) c =
     (let c1 = c\<lparr>cw_render := render\<rparr> in if render then flush_console co c1 else c1)"
| "console_step co Leave c = leave_console c"

definition console_run :: "(jstr \<Rightarrow> int) \<Rightarrow> bool \<Rightarrow> bool \<Rightarrow> 's console_event list \<Rightarrow> 's console" where
  "console_run co hidden render evs = fold (console_step co) evs (new_console hidden render)"

subsection \<open>The console always reconnects, and stays bounded\<close>

definition console_ok :: "'s console \<Rightarrow> bool" where
  "console_ok c \<longleftrightarrow> length (cw_logs c) \<le> MAX_CONSOLE_LOGS \<and> length (cw_pending c) \<le> 2 * MAX_CONSOLE_LOGS
     \<and> (case cw_pending_history c of None \<Rightarrow> True | Some ls \<Rightarrow> length ls \<le> MAX_CONSOLE_LOGS)
     \<and> (if cw_cancelled c then \<not> cw_retry c \<and> \<not> cw_history_timer c \<and> \<not> cw_flush_timer c
        else if cw_denied c then \<not> cw_alive c \<and> \<not> cw_retry c else cw_retry c = (\<not> cw_alive c))
     \<and> (cw_connected c \<and> \<not> cw_cancelled c \<longrightarrow> cw_alive c)"

lemma keep_last_length [simp]: "length (keep_last n xs) = min n (length xs)"
  by (simp add: keep_last_def)

lemma appended_ok: "console_ok c \<Longrightarrow> console_ok (flush_console co c)"
  by (auto simp: console_ok_def flush_console_def Let_def merge_console_history_def split: option.splits if_splits)

lemma take_history_ok: "console_ok c \<Longrightarrow> console_ok (take_history co ls c)"
  unfolding take_history_def by (rule appended_ok) (simp add: console_ok_def)

lemma console_message_ok: "console_ok c \<Longrightarrow> \<not> cw_cancelled c \<Longrightarrow> console_ok (on_console_message co m c)"
proof (cases m)
  case (Msg_history ls)
  assume "console_ok c" "\<not> cw_cancelled c"
  then show ?thesis unfolding Msg_history on_console_message.simps by (intro take_history_ok) (simp add: console_ok_def)
qed (auto simp: console_ok_def add_live_line_def Let_def)

lemma history_answered_ok: "console_ok c \<Longrightarrow> console_ok (history_answered co a c)"
proof -
  assume c: "console_ok c"
  then have "console_ok (c\<lparr>cw_asking := False\<rparr>)" "console_ok (c\<lparr>cw_asking := False, cw_error := e\<rparr>)" for e by (simp_all add: console_ok_def)
  with c show ?thesis by (auto simp: history_answered_def Let_def intro: take_history_ok split: option.split)
qed

lemma console_step_ok: "console_ok c \<Longrightarrow> console_ok (console_step co ev c)"
proof (cases ev)
  case (Visibility hidden)
  assume "console_ok c"
  then have "console_ok (c\<lparr>cw_hidden := hidden\<rparr>)" by (simp add: console_ok_def)
  then show ?thesis by (simp add: Visibility appended_ok)
next
  case (Rendering render)
  assume "console_ok c"
  then have "console_ok (c\<lparr>cw_render := render\<rparr>)" by (simp add: console_ok_def)
  then show ?thesis by (cases render) (simp_all add: Rendering Let_def appended_ok)
qed (auto simp: console_message_ok history_answered_ok appended_ok, auto simp: console_ok_def console_opened_def console_closed_def
    open_console_def leave_console_def Let_def split: if_splits)

interpretation live_console: stepwise "console_step co" console_ok for co
  by unfold_locales (rule console_step_ok)

text \<open>The live console never stays silent for good: unless the page was left or the access was refused, either its socket is
  alive or the timer that opens the next one is running. After the page was left no timer runs, and what is kept is bounded.\<close>

theorem consoles_reconnect:
  "let c = console_run co hidden render evs
   in (cw_cancelled c \<or> cw_denied c \<or> cw_alive c \<noteq> cw_retry c) \<and> (cw_cancelled c \<le> (\<not> cw_retry c \<and> \<not> cw_flush_timer c))
     \<and> length (cw_logs c) \<le> MAX_CONSOLE_LOGS \<and> length (cw_pending c) \<le> 2 * MAX_CONSOLE_LOGS"
proof -
  have "console_ok (console_run co hidden render evs)"
    unfolding console_run_def by (rule live_console.run_inv) (simp add: new_console_def open_console_def console_ok_def)
  then show ?thesis by (auto simp: Let_def console_ok_def split: if_splits)
qed

section \<open>The dashboard socket (useDashboardSocket)\<close>

datatype 's dashboard_message =
    Ds_statuses "(jstr \<times> 's) list"
  | Ds_status jstr 's
  | Ds_image jstr jstr
  | Ds_sale jstr jstr
  | Ds_other

datatype dashboard_out =
    Clear_reads
  | Refresh_page
  | Show_image jstr jstr
  | Forget_history jstr
  | Show_sale jstr jstr
  | Check_session

record 's dash =
  dw_statuses :: "(jstr \<times> 's) list"
  dw_cancelled :: bool
  dw_retry :: bool
  dw_opened :: bool
  dw_alive :: bool
  dw_denied :: bool
  dw_initial :: bool
  dw_out :: "dashboard_out list"

definition put_dash :: "dashboard_out list \<Rightarrow> 's dash \<Rightarrow> 's dash" where
  "put_dash xs c = c\<lparr>dw_out := dw_out c @ xs\<rparr>"

definition open_dash :: "'s dash \<Rightarrow> 's dash" where
  "open_dash c = c\<lparr>dw_opened := False, dw_alive := True\<rparr>"

definition new_dash :: "'s dash" where
  "new_dash = open_dash \<lparr>dw_statuses = [], dw_cancelled = False, dw_retry = False, dw_opened = False, dw_alive = False, dw_denied = False,
     dw_initial = False, dw_out = []\<rparr>"

definition dash_closed :: "int option \<Rightarrow> 's dash \<Rightarrow> 's dash" where
  "dash_closed code c =
     (if \<not> dw_alive c then c
      else let c1 = c\<lparr>dw_alive := False\<rparr>
      in if dw_cancelled c1 then c1
         else let c2 = (if \<not> dw_opened c1 \<or> no_access code then put_dash [Check_session] c1 else c1)
         in if no_access code then c2\<lparr>dw_denied := True\<rparr> else c2\<lparr>dw_retry := True\<rparr>)"

text \<open>The page has just loaded the accounts when the first statuses come; after a reconnect it must load them again.\<close>

fun on_dashboard_message :: "'s dashboard_message \<Rightarrow> 's dash \<Rightarrow> 's dash" where
  "on_dashboard_message (Ds_statuses xs) c =
     (if dw_initial c then put_dash [Clear_reads, Refresh_page] else id)
       (c\<lparr>dw_statuses := fold (\<lambda>(i, s). AList.update i s) xs [], dw_initial := True\<rparr>)"
| "on_dashboard_message (Ds_status i s) c = c\<lparr>dw_statuses := AList.update i s (dw_statuses c)\<rparr>"
| "on_dashboard_message (Ds_image i url) c = put_dash [Show_image i url] c"
| "on_dashboard_message (Ds_sale i k) c = put_dash [Forget_history i, Show_sale i k] c"
| "on_dashboard_message Ds_other c = c"

datatype 's dash_event = Dash_opens | Dash_closes "int option" | Dash_message "'s dashboard_message" | Dash_retry | Dash_leave

fun dash_step :: "'s dash_event \<Rightarrow> 's dash \<Rightarrow> 's dash" where
  "dash_step Dash_opens c = (if dw_alive c then c\<lparr>dw_opened := True\<rparr> else c)"
| "dash_step (Dash_closes code) c = dash_closed code c"
| "dash_step (Dash_message m) c = (if dw_cancelled c \<or> \<not> dw_alive c then c else on_dashboard_message m c)"
| "dash_step Dash_retry c = (if dw_retry c then open_dash (c\<lparr>dw_retry := False\<rparr>) else c)"
| "dash_step Dash_leave c = c\<lparr>dw_cancelled := True, dw_retry := False\<rparr>"

definition dash_run :: "'s dash_event list \<Rightarrow> 's dash" where
  "dash_run evs = fold dash_step evs new_dash"

text \<open>The statuses the page shows are the last ones the server told it for each account.\<close>

fun told :: "jstr \<Rightarrow> 's dashboard_message \<Rightarrow> 's option \<Rightarrow> 's option" where
  "told i (Ds_statuses xs) old = map_of (rev xs) i"
| "told i (Ds_status j s) old = (if i = j then Some s else old)"
| "told i _ old = old"

lemma statuses_told: "map_of (dw_statuses (on_dashboard_message m c)) i = told i m (map_of (dw_statuses c) i)"
proof -
  have "map_of (fold (\<lambda>(i, s). AList.update i s) xs ys) = map_of (rev xs @ ys)" for xs ys :: "(jstr \<times> 'a) list"
    by (induction xs arbitrary: ys) (auto simp: update_conv' map_add_def fun_eq_iff split: option.split)
  from this [of _ "[]"] show ?thesis by (cases m) (auto simp: put_dash_def update_conv')
qed

text \<open>A page that has seen statuses before loads its accounts again after every full list.\<close>

lemma refresh_after_reconnect: "dw_initial c \<Longrightarrow> dw_out (on_dashboard_message (Ds_statuses xs) c) = dw_out c @ [Clear_reads, Refresh_page]"
  by (simp add: put_dash_def)

end
