(* ===== verification/Web_Polling.thy ===== *)
theory Web_Polling
  imports Afk_Prelude
begin

text \<open>
  \<^verbatim>\<open>frontend/src/lib/polling.ts\<close> and \<^verbatim>\<open>useWebsiteUpdates.ts\<close>: repeated requests of a page, which pause while it is hidden,
  and the announcement that is marked as read when it is opened.
\<close>

section \<open>Polling (polling.ts)\<close>

record poller =
  po_interval :: int
  po_aligned :: bool
  po_hidden :: bool
  po_stopped :: bool
  po_busy :: bool
  po_timer :: "int option"
  po_running :: nat

definition poll :: "poller \<Rightarrow> poller" where
  "poll p0 = (let p = p0\<lparr>po_timer := None\<rparr>
     in if po_busy p \<or> po_hidden p \<or> po_stopped p then p else p\<lparr>po_busy := True, po_running := Suc (po_running p)\<rparr>)"

text \<open>After a failure the next try comes within fifteen seconds; an aligned poll comes just after a full interval.\<close>

definition poll_delay :: "bool \<Rightarrow> int \<Rightarrow> poller \<Rightarrow> int" where
  "poll_delay failed t p = (if failed then min (po_interval p) 15000
     else if po_aligned p then po_interval p - t mod po_interval p + 100 else po_interval p)"

definition poll_done :: "bool \<Rightarrow> int \<Rightarrow> poller \<Rightarrow> poller" where
  "poll_done failed t p0 =
     (if \<not> po_busy p0 then p0
      else let p = p0\<lparr>po_busy := False, po_running := po_running p0 - 1\<rparr>
      in if \<not> po_stopped p \<and> \<not> po_hidden p \<and> 0 < po_interval p then p\<lparr>po_timer := Some (poll_delay failed t p)\<rparr> else p)"

definition poll_visibility :: "bool \<Rightarrow> poller \<Rightarrow> poller" where
  "poll_visibility hidden p0 =
     (if po_stopped p0 then p0\<lparr>po_hidden := hidden\<rparr>
      else let p = p0\<lparr>po_hidden := hidden, po_timer := None\<rparr> in if hidden then p else poll p)"

definition stop_polling :: "poller \<Rightarrow> poller" where
  "stop_polling p = p\<lparr>po_stopped := True, po_timer := None\<rparr>"

definition new_poller :: "int \<Rightarrow> bool \<Rightarrow> bool \<Rightarrow> poller" where
  "new_poller interval aligned hidden = poll \<lparr>po_interval = interval, po_aligned = aligned, po_hidden = hidden, po_stopped = False,
     po_busy = False, po_timer = None, po_running = 0\<rparr>"

datatype poll_event = Poll_timer | Poll_done bool | Poll_visibility bool | Poll_stop

fun poll_step :: "int \<times> poll_event \<Rightarrow> poller \<Rightarrow> poller" where
  "poll_step (t, Poll_timer) p = (if po_timer p = None then p else poll p)"
| "poll_step (t, Poll_done failed) p = poll_done failed t p"
| "poll_step (t, Poll_visibility hidden) p = poll_visibility hidden p"
| "poll_step (t, Poll_stop) p = stop_polling p"

definition poll_run :: "int \<Rightarrow> bool \<Rightarrow> bool \<Rightarrow> (int \<times> poll_event) list \<Rightarrow> poller" where
  "poll_run interval aligned hidden evs = fold poll_step evs (new_poller interval aligned hidden)"

definition poller_ok :: "int \<Rightarrow> poller \<Rightarrow> bool" where
  "poller_ok interval p \<longleftrightarrow> po_interval p = interval \<and> po_running p = (if po_busy p then 1 else 0)
     \<and> (po_timer p \<noteq> None \<longrightarrow> \<not> po_busy p \<and> \<not> po_hidden p \<and> \<not> po_stopped p)
     \<and> (case po_timer p of None \<Rightarrow> True | Some d \<Rightarrow> 0 < d \<and> d \<le> interval + 100)
     \<and> (\<not> po_stopped p \<and> \<not> po_hidden p \<and> 0 < interval \<longrightarrow> po_busy p \<or> po_timer p \<noteq> None)"

lemma poll_delay_range: "0 < po_interval p \<Longrightarrow> 0 < poll_delay failed t p \<and> poll_delay failed t p \<le> po_interval p + 100"
proof -
  assume n: "0 < po_interval p"
  have "0 \<le> t mod po_interval p" "t mod po_interval p < po_interval p" using n by (simp_all add: pos_mod_sign pos_mod_bound)
  with n show ?thesis by (auto simp: poll_delay_def min_def)
qed

lemma poll_step_ok: "poller_ok interval p \<Longrightarrow> poller_ok interval (poll_step ev p)"
proof -
  assume p: "poller_ok interval p"
  obtain t e where ev: "ev = (t, e)" by (cases ev)
  show ?thesis
  proof (cases e)
    case (Poll_done failed)
    then show ?thesis using p poll_delay_range [of "p\<lparr>po_busy := False, po_running := po_running p - 1\<rparr>" failed t]
      by (auto simp: ev poller_ok_def poll_done_def Let_def)
  qed (use p in \<open>auto simp: ev poller_ok_def poll_def poll_visibility_def stop_polling_def Let_def split: option.splits\<close>)
qed

interpretation page_poller: stepwise poll_step "poller_ok interval" for interval
  by unfold_locales (rule poll_step_ok)

text \<open>A page that polls has at most one request under way, and none is started from a hidden or closed page; a visible page
  never stops polling: a request is under way or a timer runs, for at most the interval and a tenth of a second.\<close>

theorem polling_never_overlaps_and_never_stalls:
  "let p = poll_run interval aligned hidden evs
   in po_running p = (if po_busy p then 1 else 0)
     \<and> (case po_timer p of None \<Rightarrow> po_stopped p \<or> po_hidden p \<or> interval \<le> 0 \<or> po_busy p
        | Some d \<Rightarrow> \<not> po_busy p \<and> \<not> po_hidden p \<and> \<not> po_stopped p \<and> 0 < d \<and> d \<le> interval + 100)"
proof -
  have "poller_ok interval (poll_run interval aligned hidden evs)"
    unfolding poll_run_def by (rule page_poller.run_inv) (simp add: poller_ok_def new_poller_def poll_def Let_def)
  then show ?thesis by (auto simp: Let_def poller_ok_def split: option.split)
qed

section \<open>The announcement (useWebsiteUpdates.ts)\<close>

record announcement =
  nw_id :: jstr
  nw_unread :: bool

record updates =
  up_active :: bool
  up_refreshing :: "nat option"
  up_saving :: bool
  up_revision :: nat
  up_response :: "announcement option"
  up_read :: "jstr option"
  up_open :: bool
  up_data :: "announcement option"
  up_error :: "jstr option"
  up_loading :: bool
  up_sent :: "jstr list"

definition start_read :: "updates \<Rightarrow> updates" where
  "start_read u = (case up_response u of
       None \<Rightarrow> u
     | Some a \<Rightarrow>
         if up_saving u \<or> (\<not> nw_unread a \<and> up_read u = None) then u
         else (let seen = a\<lparr>nw_unread := False\<rparr>
               in u\<lparr>up_saving := True, up_revision := Suc (up_revision u), up_read := Some (nw_id a), up_response := Some seen,
                    up_data := Some seen, up_error := None, up_sent := up_sent u @ [nw_id a]\<rparr>))"

text \<open>The answer to the mark: taken, no longer the current announcement, or failed.\<close>

datatype mark_reply = Marked | Outdated | Mark_failed

definition read_done :: "mark_reply \<Rightarrow> updates \<Rightarrow> updates" where
  "read_done a u =
     (if \<not> up_saving u then u
      else (if \<not> up_active u then u
            else case a of
                Marked \<Rightarrow> u\<lparr>up_read := None, up_error := None\<rparr>
              | Outdated \<Rightarrow> u\<lparr>up_response := None, up_read := None, up_data := None,
                  up_error := Some (js ''Die Ank'' @ [252] @ js ''ndigung wurde aktualisiert. Bitte erneut laden.'')\<rparr>
              | Mark_failed \<Rightarrow> u\<lparr>up_error := Some (js ''Der Gelesen-Status konnte nicht gespeichert werden. Bitte erneut versuchen.'')\<rparr>)
           \<lparr>up_saving := False\<rparr>)"

definition start_updates_refresh :: "updates \<Rightarrow> updates" where
  "start_updates_refresh u =
     (if up_refreshing u \<noteq> None \<or> up_saving u then u
      else u\<lparr>up_refreshing := Some (up_revision u), up_loading := (if up_response u = None then True else up_loading u)\<rparr>)"

text \<open>An announcement whose mark is not confirmed yet stays read.\<close>

definition take_updates :: "announcement \<Rightarrow> updates \<Rightarrow> updates" where
  "take_updates a u =
     (let again = (up_read u = Some (nw_id a)); b = (if again then a\<lparr>nw_unread := False\<rparr> else a);
          u1 = u\<lparr>up_response := Some b, up_read := (if again then up_read u else None), up_data := Some b, up_error := None\<rparr>
      in if up_open u1 then start_read u1 else u1)"

definition updates_answered :: "announcement option \<Rightarrow> updates \<Rightarrow> updates" where
  "updates_answered a u = (case up_refreshing u of
       None \<Rightarrow> u
     | Some started \<Rightarrow>
         (let u1 = (case a of
               Some n \<Rightarrow> if \<not> up_active u \<or> up_revision u \<noteq> started then u else take_updates n u
             | None \<Rightarrow> if up_active u \<and> up_response u = None
                 then u\<lparr>up_error := Some (js ''Die Updates konnten nicht geladen werden. Bitte erneut versuchen.'')\<rparr> else u)
          in u1\<lparr>up_refreshing := None, up_loading := (if up_active u1 then False else up_loading u1)\<rparr>))"

definition retry_updates :: "updates \<Rightarrow> updates" where
  "retry_updates u = (if up_data u \<noteq> None then start_read u else start_updates_refresh u)"

definition show_updates :: "updates \<Rightarrow> updates" where
  "show_updates u = retry_updates (u\<lparr>up_open := True\<rparr>)"

definition new_updates :: updates where
  "new_updates = start_updates_refresh \<lparr>up_active = True, up_refreshing = None, up_saving = False, up_revision = 0, up_response = None,
     up_read = None, up_open = False, up_data = None, up_error = None, up_loading = False, up_sent = []\<rparr>"

datatype updates_event =
    Page_focus
  | Updates_reply "announcement option"
  | Mark_reply mark_reply
  | Show_updates
  | Close_updates
  | Retry_updates
  | Leave_page

fun updates_step :: "updates_event \<Rightarrow> updates \<Rightarrow> updates" where
  "updates_step Page_focus u = (if up_active u then start_updates_refresh u else u)"
| "updates_step (Updates_reply a) u = updates_answered a u"
| "updates_step (Mark_reply a) u = read_done a u"
| "updates_step Show_updates u = show_updates u"
| "updates_step Close_updates u = u\<lparr>up_open := False\<rparr>"
| "updates_step Retry_updates u = retry_updates u"
| "updates_step Leave_page u = u\<lparr>up_active := False\<rparr>"

definition updates_run :: "updates_event list \<Rightarrow> updates" where
  "updates_run evs = fold updates_step evs new_updates"

text \<open>What is shown is the last answer, and an announcement that was opened is not shown as unread while its mark is on the way or
  has to be sent again.\<close>

definition updates_ok :: "updates \<Rightarrow> bool" where
  "updates_ok u \<longleftrightarrow> up_data u = up_response u \<and> (up_saving u \<longrightarrow> up_read u \<noteq> None)
     \<and> (\<forall>i. up_read u = Some i \<longrightarrow> up_response u = Some \<lparr>nw_id = i, nw_unread = False\<rparr>)
     \<and> (\<forall>k. up_refreshing u = Some k \<longrightarrow> k \<le> up_revision u \<and> (up_saving u \<longrightarrow> k < up_revision u))"

lemma start_read_ok: "updates_ok u \<Longrightarrow> updates_ok (start_read u)"
  by (auto simp: updates_ok_def start_read_def Let_def split: option.splits)

lemma start_refresh_ok: "updates_ok u \<Longrightarrow> updates_ok (start_updates_refresh u)"
  by (auto simp: updates_ok_def start_updates_refresh_def)

lemma updates_ok_open: "updates_ok u \<Longrightarrow> updates_ok (u\<lparr>up_open := x\<rparr>)"
  by (simp add: updates_ok_def)

lemma retry_updates_ok: "updates_ok u \<Longrightarrow> updates_ok (retry_updates u)"
  by (simp add: retry_updates_def start_read_ok start_refresh_ok)

lemma read_done_ok: "updates_ok u \<Longrightarrow> updates_ok (read_done a u)"
  by (cases a) (auto simp: updates_ok_def read_done_def split: option.splits)

lemma take_updates_ok:
  assumes "updates_ok u" and "\<not> up_saving u"
  shows "updates_ok (take_updates a u)"
proof -
  have "updates_ok (u\<lparr>up_response := Some (if up_read u = Some (nw_id a) then a\<lparr>nw_unread := False\<rparr> else a),
      up_read := (if up_read u = Some (nw_id a) then up_read u else None),
      up_data := Some (if up_read u = Some (nw_id a) then a\<lparr>nw_unread := False\<rparr> else a), up_error := None\<rparr>)"
    using assms by (simp add: updates_ok_def)
  with start_read_ok [OF this] show ?thesis by (simp add: take_updates_def Let_def)
qed

lemma updates_answered_ok:
  assumes u: "updates_ok u"
  shows "updates_ok (updates_answered a u)"
proof (cases "up_refreshing u")
  case (Some k)
  have failed: "updates_ok (u\<lparr>up_error := e\<rparr>)" for e using u by (simp add: updates_ok_def)
  have closed: "updates_ok v \<Longrightarrow> updates_ok (v\<lparr>up_refreshing := None, up_loading := x\<rparr>)" for v x by (simp add: updates_ok_def)
  have "\<not> up_saving u" if "up_revision u = k" using u Some that by (simp add: updates_ok_def)
  then have "updates_ok (case a of Some n \<Rightarrow> if \<not> up_active u \<or> up_revision u \<noteq> k then u else take_updates n u
      | None \<Rightarrow> if up_active u \<and> up_response u = None then u\<lparr>up_error := e\<rparr> else u)" for e
    using u take_updates_ok [OF u] failed by (auto split: option.split)
  then show ?thesis by (simp add: updates_answered_def Some Let_def closed)
qed (use u in \<open>simp add: updates_answered_def\<close>)

lemma updates_step_ok: "updates_ok u \<Longrightarrow> updates_ok (updates_step ev u)"
  by (cases ev) (simp_all add: start_refresh_ok updates_answered_ok read_done_ok show_updates_def retry_updates_ok updates_ok_open,
    simp_all add: updates_ok_def)

interpretation website_updates: stepwise updates_step updates_ok
  by unfold_locales (rule updates_step_ok)

text \<open>The announcement that is shown is the server's, and once it was opened it is shown as read as long as its mark is on the way
  or has to be sent again, whatever a refresh brings meanwhile.\<close>

theorem opened_announcements_stay_read:
  "let u = updates_run evs
   in up_data u = up_response u \<and> (case up_read u of None \<Rightarrow> \<not> up_saving u | Some i \<Rightarrow> up_data u = Some \<lparr>nw_id = i, nw_unread = False\<rparr>)"
proof -
  have "updates_ok (updates_run evs)"
    unfolding updates_run_def by (rule website_updates.run_inv) (simp add: updates_ok_def new_updates_def start_updates_refresh_def)
  then show ?thesis by (auto simp: Let_def updates_ok_def split: option.split)
qed

end
