(* ===== verification/Spec2Isabelle.thy ===== *)
theory Spec2Isabelle
  imports Minecraft_Client_Props Account_Sync Auth_Routes Spawners Status_Persistence Console_Log Earnings Note_History
    Home_Recovery Protocol_Versions Packet_Frames Live_Routes Bedrock_Bot_Props Bedrock_Startup Buffered_Writer Soulfire_Runs
    Soulfire_Termination Soulfire_Controller Soulfire_Link Soulfire_Gateway Web_Preferences Web_Requests Web_Sockets Web_Polling
begin

text \<open>
  The Minecraft AFK client keeps Minecraft accounts online. A Node backend supervises one bot per account, stores
  users, accounts, notes, logs and earnings in a database, and serves a website over HTTP routes and live sockets.
  Bots for the Bedrock edition are processes of their own; bots for the Java edition run on a SoulFire server that
  the backend drives by remote calls. This development models the TypeScript of the backend
  and the library below the website's pages, function by function, and proves what makes them correct. Paths are below \<^verbatim>\<open>src/\<close>.

  The parts and how they meet.
  \<^item> A request passes the guards of \<open>Sessions\<close> and \<open>Ip_Bans\<close> and reaches a handler: \<open>Users\<close>, \<open>Auth_Routes\<close>,
    \<open>Profile\<close>, \<open>Account_Routes\<close>, \<open>Notes\<close>. Handlers read and write the tables of \<open>Database\<close> and leave entries of
    \<open>Audit_Log\<close>; the account handlers also operate the clients of \<open>Client_Manager\<close>.
  \<^item> A client (\<open>Minecraft_Client\<close>) owns one controller at a time. It writes commands to it, reads its events, and
    reconnects after \<open>Reconnect_Policy\<close>. \<open>Status_Persistence\<close>, \<open>Console_Log\<close> and \<open>Earnings\<close> store what clients report, the
    last two behind the queue of \<open>Buffered_Writer\<close>; \<open>Live_Routes\<close> shows it to the browsers.
  \<^item> A Bedrock controller (\<open>Bedrock_Bot\<close>) ties packets to \<open>Bedrock_Behaviors\<close>, which drive \<open>Bedrock_Inventory\<close> and
    \<open>Bedrock_Mouse\<close>; all send through \<open>Bedrock_Sender\<close>.
  \<^item> A SoulFire controller (\<open>Soulfire_Controller\<close>) reads commands for a session (\<open>Soulfire_Session\<close>), whose one worker runs the
    asynchronous actions of \<open>Soulfire_Behaviors\<close>; \<open>Soulfire_Link\<close> feeds the session with the events of the SoulFire server, and
    \<open>Soulfire_Gateway\<close> carries its calls to it.
  \<^item> In the browser \<open>Web_Requests\<close> fetches, \<open>Web_Sockets\<close> listens, \<open>Web_Polling\<close> asks again, and \<open>Web_Preferences\<close> edits what
    \<open>Profile\<close> stores.
\<close>

section \<open>Theories and sources\<close>

text \<open>
  Every theory names its sources in its first text. A class is a record with one operation per method, an event
  handler is a function of the event and the state, an error is a value (\<open>None\<close>, \<open>Inl\<close>, a refused reply, \<open>Throw\<close>), and
  a history is a fold of a step function over a list of events, so that every interleaving is a list.

  \<^item> Shared: \<open>Afk_Prelude\<close> (strings as UTF-16 code units, insertion-ordered maps, JSON values, the locale \<open>stepwise\<close>
    that lifts one-step invariants to runs and \<open>keyed_store\<close> for maps), \<open>JsRegex\<close> and \<open>Regex_Language\<close> (the
    backtracking matcher of ECMAScript, and the words of an expression), \<open>Async_Process\<close> (asynchronous functions as processes
    that wait for answers, with a rely-guarantee logic), \<open>Histories\<close> (what holds since some event of a history), \<open>Schemas\<close> (the readers of zod), \<open>Client_Types\<close>.
  \<^item> Text rules of \<^verbatim>\<open>backend/src/minecraft\<close>: \<open>Text_Rules\<close>, \<open>Sell_Multipliers\<close>, \<open>Spawners\<close>, \<open>Home_Recovery\<close>
    (\<^verbatim>\<open>soulfire/homeRecovery.ts\<close>), \<open>Protocol_Versions\<close> (\<^verbatim>\<open>soulfire/versions.ts\<close>), \<open>Packet_Frames\<close>.
  \<^item> Supervision: \<open>Reconnect_Policy\<close>, \<open>Minecraft_Client\<close> with \<open>Minecraft_Client_Props\<close>, \<open>Client_Manager\<close>.
  \<^item> Data and requests: \<open>Database\<close>, \<open>Audit_Log\<close>, \<open>Sessions\<close>, \<open>Ip_Bans\<close>, \<open>Users\<close> with \<open>Users_Props\<close>, \<open>Auth_Routes\<close>, \<open>Profile\<close>,
    \<open>Accounts\<close>, \<open>Account_Images\<close>, \<open>Account_Routes\<close>, \<open>Account_Sync\<close>, \<open>Note_Documents\<close>, \<open>Notes\<close>, \<open>Note_History\<close>.
  \<^item> Storage of what happens: \<open>Buffered_Writer\<close>, \<open>Status_Persistence\<close>, \<open>Console_Log\<close>, \<open>Earnings\<close>.
  \<^item> Live sockets: \<open>Live_Connections\<close> (the locale \<open>live_route\<close> is the contract of a route), \<open>Live_Routes\<close>.
  \<^item> Bedrock bots: \<open>Bedrock_Sender\<close>, \<open>Bedrock_Inventory\<close>, \<open>Bedrock_Mouse\<close>, \<open>Bedrock_Behaviors\<close>, \<open>Bedrock_Bot\<close>, with
    \<open>Bedrock_Inventory_Props\<close> and \<open>Bedrock_Bot_Props\<close>; \<open>Bedrock_Startup\<close> for the choice of a version and the standard input.
  \<^item> SoulFire bots (\<^verbatim>\<open>backend/src/soulfire\<close>): \<open>Soulfire_Behaviors\<close>, \<open>Soulfire_Session\<close>, \<open>Soulfire_Service\<close> (errors,
    status, inventory and settings), \<open>Soulfire_Link\<close> (event stream and status queries), \<open>Soulfire_Gateway\<close> (the remote calls), \<open>Soulfire_Controller\<close>, with
    \<open>Soulfire_Props\<close> (the contract of every action), \<open>Soulfire_Runs\<close> (what holds in every run of a session) and
    \<open>Soulfire_Termination\<close>.
  \<^item> The website's library (\<^verbatim>\<open>frontend/src/lib\<close>): \<open>Web_Preferences\<close>, \<open>Web_Requests\<close>, \<open>Web_Sockets\<close>, \<open>Web_Polling\<close>.
\<close>

section \<open>What is shown\<close>

text \<open>
  \<^item> Supervision. In every run the status, the controller and the timers of a client fit together, no controller is
    leaked, a manual stop is final (only crouch checks of a restart may stay scheduled, and send nothing), a lost connection is retried after a bounded delay, and only permitted slash
    commands of the user reach a bot. As long as requests do not overlap, there is
    exactly one client per stored account, with exactly the stored settings (a change that overlaps a deletion leaves a client behind: a finding).
  \<^item> Access. Strangers have no effect on accounts, notes are private, sockets show only what their user may see now,
    user management keeps an active admin as long as requests do not overlap (they can: a finding), values under the
    name of a secret do not reach the audit log, addresses are banned exactly after a burst of failures.
  \<^item> Storage. The buffered writer is a queue and flushing ends, the log keeps its newest lines, histories count
    every sale once and the cache of histories is exact once the written sales are announced, edits of notes never overwrite one another.
  \<^item> Bedrock bots. Commands are dispatched once and in order (a queue is refined), crouching is never released by
    itself, items are moved only into a menu that the bot asked for or that is titled as the sell menu, never from an inventory known to be stale,
    only harmless undecodable packets are survived, the end is reported once (errors that nothing caught are reported in addition), and no command that
    arrives before the bot is ready is lost.
  \<^item> SoulFire bots. In every interleaving the calls of the scheduler are safe: clicks go to menus that were read
    just before, the commands that the game confirms keep their rate (a lost answer costs no credit: a finding), homes are remembered only when the server confirmed them; and a job ends
    after a bounded number of answers; the controller ends once.
    The session below the event stream is such a run, reports to the supervisor come in order and signs of life are real; the
    server gets the configuration, unless an answer is lost and the change taken back (a finding).
  \<^item> Website. What an edit of the preferences shows at once is what the server stores, edits are saved in order and a refused
    one takes back only itself; readers are never told data that was forgotten; a console is the newest lines of the history and the live ones,
    none doubled and none lost in between, and it reconnects; polling neither overlaps nor stalls; an announcement that was opened stays read.
  \<^item> Codecs. Batches of packets, the status of a server, preferences and images are read exactly; the loop that
    checks documents is the recursive grammar.
\<close>

section \<open>Parameters and bounds\<close>

text \<open>
  Code that is not in the repository is an argument: hashes and random strings, the PNG codec, the PostgreSQL client's failures,
  \<^verbatim>\<open>JSON.parse\<close> on strings inside other data, Unicode classes beyond ASCII, the Bedrock protocol library (which packets it
  rejects), the block registry, and the SoulFire server (what it answers, and when). Times are integers of milliseconds
  given with each event. Doubles are exact where only small integers occur; where rounding matters
  (\<open>Sell_Multipliers\<close>) they are mantissa and exponent with round-half-even; coordinates and intervals
  are rationals. 32-bit values of the wire are words. Loops are structural or have a measure; the only fuel is in \<open>complete\<close> of
  \<open>Buffered_Writer\<close>, where \<open>write_cost\<close> is proved to be enough, in \<open>tooltip_at\<close> of \<open>Sell_Multipliers\<close>, where the weight of the value is proved to
  be enough, and the five-byte limit of variable-length integers, which is the code's own. No fuel bounds an asynchronous
  action: a job of a SoulFire session is proved to end after at most eight answers, each of them after at most five
  remote ones.
\<close>

section \<open>Not modelled\<close>

text \<open>
  The React pages and components (rendering), the sign-in of the website, the Rust bot (another language), scripts and benchmarks, the start of the
  server and its configuration, log files, the proxies to third-party transports (gRPC, the Microsoft login, camera
  frames, the creation of the account of a SoulFire session, what follows the abort of its link, the UDP discovery and the patches of the NBT decoder), and listings of static data. Of the modelled files the
  registration of routes and listeners, the interleaving of two requests inside their handlers beyond the cases that
  \<open>Account_Sync\<close> and \<open>Users_Props\<close> show, exceptions that end a listener midway, response headers, and what only formats a log line for the operator are left out
  unless a property speaks of it.
\<close>

end
